(* ===== verification/Prelude.thy ===== *)
theory Prelude
  imports Main "HOL-Library.Word" "HOL-Library.Signed_Division" "HOL-Library.Monad_Syntax"
begin

text \<open>
  Shared vocabulary of the development: the names of the machine types, the collections of
  simplification rules that the component theories extend, C++ integer arithmetic with its
  undefined cases, and the lemmas on lists, folds and words that several components use.

  Two conventions hold everywhere. A C++ operation with undefined behaviour (reading past the
  end of a vector, signed overflow, an unrepresentable quotient) is the value \<^const>\<open>None\<close> of
  an \<open>option\<close>; an error returned by the code is the left side of a sum.
\<close>

section \<open>Machine types\<close>

type_synonym u8 = "8 word"
type_synonym u16 = "16 word"
type_synonym u32 = "32 word"
type_synonym u64 = "64 word"

text \<open>Signed values have the same representation; \<^const>\<open>sint\<close> reads them.\<close>

type_synonym i32 = "32 word"
type_synonym i64 = "64 word"

text \<open>The result of a computation with undefined behaviour: \<^const>\<open>None\<close> is undefined.\<close>

type_synonym 'a ub = "'a option"

named_theorems graph_simps \<open>reading back a graph after one of its operations\<close>
named_theorems graph_wf \<open>operations keep the well-formedness of a graph\<close>
named_theorems kind_simps \<open>flags and arities of node kinds\<close>
named_theorems flag_simps \<open>single-bit tests on flag words\<close>

section \<open>Signed arithmetic of C++\<close>

text \<open>Whether an integer is a value of the signed type of the given word.\<close>

definition srange :: "'a::len itself \<Rightarrow> int \<Rightarrow> bool" where
  "srange t x \<longleftrightarrow> - (2 ^ (LENGTH('a) - 1)) \<le> x \<and> x < 2 ^ (LENGTH('a) - 1)"

text \<open>\<open>a + b\<close>, \<open>a - b\<close>, \<open>a * b\<close> on signed operands: overflow is undefined.\<close>

definition s_add :: "'a::len word \<Rightarrow> 'a word \<Rightarrow> 'a word ub" where
  "s_add a b = (if srange TYPE('a) (sint a + sint b) then Some (a + b) else None)"

definition s_sub :: "'a::len word \<Rightarrow> 'a word \<Rightarrow> 'a word ub" where
  "s_sub a b = (if srange TYPE('a) (sint a - sint b) then Some (a - b) else None)"

definition s_mul :: "'a::len word \<Rightarrow> 'a word \<Rightarrow> 'a word ub" where
  "s_mul a b = (if srange TYPE('a) (sint a * sint b) then Some (a * b) else None)"

definition s_neg :: "'a::len word \<Rightarrow> 'a word ub" where
  "s_neg a = (if srange TYPE('a) (- sint a) then Some (- a) else None)"

text \<open>\<open>a / b\<close> and \<open>a % b\<close> truncate towards zero; a zero divisor and a quotient that does
  not fit (the least value divided by \<open>-1\<close>) are undefined.\<close>

definition s_div :: "'a::len word \<Rightarrow> 'a word \<Rightarrow> 'a word ub" where
  "s_div a b =
     (if b = 0 \<or> \<not> srange TYPE('a) (sint a sdiv sint b) then None
      else Some (word_of_int (sint a sdiv sint b)))"

definition s_mod :: "'a::len word \<Rightarrow> 'a word \<Rightarrow> 'a word ub" where
  "s_mod a b =
     (if b = 0 \<or> \<not> srange TYPE('a) (sint a sdiv sint b) then None
      else Some (word_of_int (sint a smod sint b)))"

lemma s_add_Some: "s_add a b = Some c \<Longrightarrow> c = a + b"
  by (simp add: s_add_def split: if_splits)

lemma s_sub_Some: "s_sub a b = Some c \<Longrightarrow> c = a - b"
  by (simp add: s_sub_def split: if_splits)

lemma s_mul_Some: "s_mul a b = Some c \<Longrightarrow> c = a * b"
  by (simp add: s_mul_def split: if_splits)

lemma sint_word_of_int_srange:
  "srange TYPE('a::len) x \<Longrightarrow> sint (word_of_int x :: 'a word) = x"
  unfolding srange_def sint_sbintrunc' by (intro signed_take_bit_int_eq_self) auto

lemma s_div_correct: "s_div a b = Some c \<Longrightarrow> sint c = sint a sdiv sint b"
  by (auto simp: s_div_def sint_word_of_int_srange split: if_splits)

section \<open>Lists\<close>

text \<open>Replacing a slice of a list, element by element.\<close>

definition map_range :: "nat \<Rightarrow> nat \<Rightarrow> ('a \<Rightarrow> 'a) \<Rightarrow> 'a list \<Rightarrow> 'a list" where
  "map_range lo n f xs = take lo xs @ map f (take n (drop lo xs)) @ drop (lo + n) xs"

lemma length_map_range [simp]: "length (map_range lo n f xs) = length xs"
  by (simp add: map_range_def)

lemma nth_map_range:
  "p < length xs \<Longrightarrow>
    map_range lo n f xs ! p = (if lo \<le> p \<and> p < lo + n then f (xs ! p) else xs ! p)"
  by (auto simp: map_range_def nth_append min_def)

lemma take_drop_nth_eqI:
  assumes "length xs = length ys" "\<And>p. \<lbrakk> lo \<le> p; p < lo + n; p < length xs \<rbrakk> \<Longrightarrow> xs ! p = ys ! p"
  shows "take n (drop lo xs) = take n (drop lo ys)"
proof (rule nth_equalityI)
  show "length (take n (drop lo xs)) = length (take n (drop lo ys))" using assms(1) by simp
next
  fix i assume "i < length (take n (drop lo xs))"
  then have "i < n" "lo + i < length xs" by auto
  then show "take n (drop lo xs) ! i = take n (drop lo ys) ! i"
    using assms(1) assms(2)[of "lo + i"] by (simp add: nth_drop)
qed

lemma concat_list_update_subset:
  assumes "i < length xs"
  shows "set (concat (xs[i := y])) \<subseteq> set (concat xs) \<union> set y"
  using set_update_subset_insert[of xs i y] by auto

lemma distinct_concat_map_update:
  assumes "distinct (concat (map f xs))" "i < length xs" "distinct (f y)"
    "set (f y) \<inter> set (concat (map f xs)) \<subseteq> set (f (xs ! i))"
  shows "distinct (concat (map f (xs[i := y])))"
proof -
  have xs: "xs = take i xs @ xs ! i # drop (Suc i) xs"
    using assms(2) by (rule id_take_nth_drop)
  have up: "xs[i := y] = take i xs @ y # drop (Suc i) xs"
    using assms(2) by (rule upd_conv_take_nth_drop)
  define A where "A = concat (map f (take i xs))"
  define B where "B = concat (map f (drop (Suc i) xs))"
  have eq: "concat (map f xs) = A @ f (xs ! i) @ B"
    unfolding A_def B_def by (subst xs) simp
  have eq': "concat (map f (xs[i := y])) = A @ f y @ B"
    unfolding A_def B_def up by simp
  have "distinct (A @ f (xs ! i) @ B)" using assms(1) unfolding eq .
  moreover have "set (f y) \<inter> (set A \<union> set B) = {}"
    using assms(4) calculation unfolding eq by auto
  ultimately show ?thesis using assms(3) unfolding eq' by auto
qed

lemma filter_update_less:
  "i < length xs \<Longrightarrow> P (xs ! i) \<Longrightarrow> \<not> P y \<Longrightarrow> length (filter P (xs[i := y])) < length (filter P xs)"
  by (induction xs arbitrary: i) (auto split: nat.splits)

section \<open>Decimal rendering\<close>

text \<open>\<^verbatim>\<open>std::format("{}", n)\<close> of an unsigned number.\<close>

fun show_nat :: "nat \<Rightarrow> string" where
  "show_nat n = (if n < 10 then [char_of (48 + n)] else show_nat (n div 10) @ [char_of (48 + n mod 10)])"

declare show_nat.simps [simp del]

lemma show_nat_not_Nil [simp]: "show_nat n \<noteq> []"
  by (subst show_nat.simps) simp

end
