(* ===== verification/Core_Result.thy ===== *)
theory Core_Result
  imports Prelude
begin

text \<open>
  \<^verbatim>\<open>core/Result.hpp\<close>: the error kinds, the error object and the result type of every
  fallible operation (\<^verbatim>\<open>std::expected<T, Error>\<close>), with the builders the code uses.
\<close>

datatype error_kind =
    InvalidIR
  | VerificationFailed
  | UnsupportedNode
  | OutOfBudget
  | ProfileUnavailable
  | DeoptMissingState
  | BadInput
  | Internal
  | IO

record error =
  error_kind :: error_kind
  error_message :: string

type_synonym 'a result = "error + 'a"

definition make_error :: "error_kind \<Rightarrow> string \<Rightarrow> error" where
  "make_error k m = \<lparr>error_kind = k, error_message = m\<rparr>"

definition make_error_verification :: "string \<Rightarrow> error" where
  "make_error_verification m = make_error VerificationFailed m"

text \<open>
  Sequencing of fallible steps: \<^verbatim>\<open>if (!r) return std::unexpected(r.error());\<close> followed by the
  rest of the function.
\<close>

fun rbind :: "'a result \<Rightarrow> ('a \<Rightarrow> 'b result) \<Rightarrow> 'b result" where
  "rbind (Inl e) f = Inl e"
| "rbind (Inr x) f = f x"

lemma rbind_Inr_iff: "rbind m f = Inr y \<longleftrightarrow> (\<exists>x. m = Inr x \<and> f x = Inr y)"
  by (cases m) auto

lemma rbind_Inl_iff: "rbind m f = Inl e \<longleftrightarrow> m = Inl e \<or> (\<exists>x. m = Inr x \<and> f x = Inl e)"
  by (cases m) auto

lemma rbind_assoc: "rbind (rbind m f) g = rbind m (\<lambda>x. rbind (f x) g)"
  by (cases m) auto

end
