(* ===== verification/Node_Kind.thy ===== *)
theory Node_Kind
  imports Prelude
begin

text \<open>
  \<^verbatim>\<open>ir/NodeKind.hpp\<close> and \<^verbatim>\<open>ir/NodeKind.cpp\<close>: the node kinds of the intermediate
  representation and the table of their static properties.

  \<^verbatim>\<open>NodeKind\<close> is a scoped enumeration with underlying type \<^verbatim>\<open>uint8_t\<close>: every 8-bit value is a
  value of the type, and \<open>node_kind_info\<close> has a branch for the values past the last
  enumerator. The model therefore uses 8-bit words, with one abbreviation per enumerator
  (prefix \<open>NK_\<close>) in the order of the enumeration.
\<close>

section \<open>The enumeration\<close>

type_synonym node_kind = u8

abbreviation NK_Invalid :: node_kind where "NK_Invalid \<equiv> 0"
abbreviation NK_Start :: node_kind where "NK_Start \<equiv> 1"
abbreviation NK_Region :: node_kind where "NK_Region \<equiv> 2"
abbreviation NK_Loop :: node_kind where "NK_Loop \<equiv> 3"
abbreviation NK_If :: node_kind where "NK_If \<equiv> 4"
abbreviation NK_IfTrue :: node_kind where "NK_IfTrue \<equiv> 5"
abbreviation NK_IfFalse :: node_kind where "NK_IfFalse \<equiv> 6"
abbreviation NK_Switch :: node_kind where "NK_Switch \<equiv> 7"
abbreviation NK_Jump :: node_kind where "NK_Jump \<equiv> 8"
abbreviation NK_Return :: node_kind where "NK_Return \<equiv> 9"
abbreviation NK_ConstInt :: node_kind where "NK_ConstInt \<equiv> 10"
abbreviation NK_ConstFloat :: node_kind where "NK_ConstFloat \<equiv> 11"
abbreviation NK_ConstBool :: node_kind where "NK_ConstBool \<equiv> 12"
abbreviation NK_ConstNull :: node_kind where "NK_ConstNull \<equiv> 13"
abbreviation NK_ConstString :: node_kind where "NK_ConstString \<equiv> 14"
abbreviation NK_Add :: node_kind where "NK_Add \<equiv> 15"
abbreviation NK_Sub :: node_kind where "NK_Sub \<equiv> 16"
abbreviation NK_Mul :: node_kind where "NK_Mul \<equiv> 17"
abbreviation NK_Div :: node_kind where "NK_Div \<equiv> 18"
abbreviation NK_Mod :: node_kind where "NK_Mod \<equiv> 19"
abbreviation NK_Neg :: node_kind where "NK_Neg \<equiv> 20"
abbreviation NK_And :: node_kind where "NK_And \<equiv> 21"
abbreviation NK_Or :: node_kind where "NK_Or \<equiv> 22"
abbreviation NK_Xor :: node_kind where "NK_Xor \<equiv> 23"
abbreviation NK_Not :: node_kind where "NK_Not \<equiv> 24"
abbreviation NK_Shl :: node_kind where "NK_Shl \<equiv> 25"
abbreviation NK_Shr :: node_kind where "NK_Shr \<equiv> 26"
abbreviation NK_Sar :: node_kind where "NK_Sar \<equiv> 27"
abbreviation NK_Eq :: node_kind where "NK_Eq \<equiv> 28"
abbreviation NK_Ne :: node_kind where "NK_Ne \<equiv> 29"
abbreviation NK_Lt :: node_kind where "NK_Lt \<equiv> 30"
abbreviation NK_Gt :: node_kind where "NK_Gt \<equiv> 31"
abbreviation NK_Lte :: node_kind where "NK_Lte \<equiv> 32"
abbreviation NK_Gte :: node_kind where "NK_Gte \<equiv> 33"
abbreviation NK_CheckInt :: node_kind where "NK_CheckInt \<equiv> 34"
abbreviation NK_CheckNotNull :: node_kind where "NK_CheckNotNull \<equiv> 35"
abbreviation NK_CheckShape :: node_kind where "NK_CheckShape \<equiv> 36"
abbreviation NK_CheckBounds :: node_kind where "NK_CheckBounds \<equiv> 37"
abbreviation NK_CheckClass :: node_kind where "NK_CheckClass \<equiv> 38"
abbreviation NK_ToFloat :: node_kind where "NK_ToFloat \<equiv> 39"
abbreviation NK_ToInt :: node_kind where "NK_ToInt \<equiv> 40"
abbreviation NK_ToBool :: node_kind where "NK_ToBool \<equiv> 41"
abbreviation NK_IsInt :: node_kind where "NK_IsInt \<equiv> 42"
abbreviation NK_IsFloat :: node_kind where "NK_IsFloat \<equiv> 43"
abbreviation NK_IsNull :: node_kind where "NK_IsNull \<equiv> 44"
abbreviation NK_Allocate :: node_kind where "NK_Allocate \<equiv> 45"
abbreviation NK_LoadField :: node_kind where "NK_LoadField \<equiv> 46"
abbreviation NK_StoreField :: node_kind where "NK_StoreField \<equiv> 47"
abbreviation NK_LoadElement :: node_kind where "NK_LoadElement \<equiv> 48"
abbreviation NK_StoreElement :: node_kind where "NK_StoreElement \<equiv> 49"
abbreviation NK_ArrayLength :: node_kind where "NK_ArrayLength \<equiv> 50"
abbreviation NK_Call :: node_kind where "NK_Call \<equiv> 51"
abbreviation NK_CallKnown :: node_kind where "NK_CallKnown \<equiv> 52"
abbreviation NK_TailCall :: node_kind where "NK_TailCall \<equiv> 53"
abbreviation NK_Phi :: node_kind where "NK_Phi \<equiv> 54"
abbreviation NK_Copy :: node_kind where "NK_Copy \<equiv> 55"
abbreviation NK_FrameState :: node_kind where "NK_FrameState \<equiv> 56"
abbreviation NK_Safepoint :: node_kind where "NK_Safepoint \<equiv> 57"
abbreviation NK_Deopt :: node_kind where "NK_Deopt \<equiv> 58"
abbreviation NK_Unreachable :: node_kind where "NK_Unreachable \<equiv> 59"
abbreviation NK_Box :: node_kind where "NK_Box \<equiv> 60"
abbreviation NK_Unbox :: node_kind where "NK_Unbox \<equiv> 61"
abbreviation NK_UnboxAny :: node_kind where "NK_UnboxAny \<equiv> 62"
abbreviation NK_IsInst :: node_kind where "NK_IsInst \<equiv> 63"
abbreviation NK_CastClass :: node_kind where "NK_CastClass \<equiv> 64"
abbreviation NK_LdNull :: node_kind where "NK_LdNull \<equiv> 65"
abbreviation NK_LdStr :: node_kind where "NK_LdStr \<equiv> 66"
abbreviation NK_ConvI1 :: node_kind where "NK_ConvI1 \<equiv> 67"
abbreviation NK_ConvI2 :: node_kind where "NK_ConvI2 \<equiv> 68"
abbreviation NK_ConvI4 :: node_kind where "NK_ConvI4 \<equiv> 69"
abbreviation NK_ConvI8 :: node_kind where "NK_ConvI8 \<equiv> 70"
abbreviation NK_ConvU1 :: node_kind where "NK_ConvU1 \<equiv> 71"
abbreviation NK_ConvU2 :: node_kind where "NK_ConvU2 \<equiv> 72"
abbreviation NK_ConvU4 :: node_kind where "NK_ConvU4 \<equiv> 73"
abbreviation NK_ConvU8 :: node_kind where "NK_ConvU8 \<equiv> 74"
abbreviation NK_ConvR4 :: node_kind where "NK_ConvR4 \<equiv> 75"
abbreviation NK_ConvR8 :: node_kind where "NK_ConvR8 \<equiv> 76"
abbreviation NK_ConvI :: node_kind where "NK_ConvI \<equiv> 77"
abbreviation NK_ConvU :: node_kind where "NK_ConvU \<equiv> 78"
abbreviation NK_ConvOvfI1 :: node_kind where "NK_ConvOvfI1 \<equiv> 79"
abbreviation NK_ConvOvfI2 :: node_kind where "NK_ConvOvfI2 \<equiv> 80"
abbreviation NK_ConvOvfI4 :: node_kind where "NK_ConvOvfI4 \<equiv> 81"
abbreviation NK_ConvOvfI8 :: node_kind where "NK_ConvOvfI8 \<equiv> 82"
abbreviation NK_ConvOvfU1 :: node_kind where "NK_ConvOvfU1 \<equiv> 83"
abbreviation NK_ConvOvfU2 :: node_kind where "NK_ConvOvfU2 \<equiv> 84"
abbreviation NK_ConvOvfU4 :: node_kind where "NK_ConvOvfU4 \<equiv> 85"
abbreviation NK_ConvOvfU8 :: node_kind where "NK_ConvOvfU8 \<equiv> 86"
abbreviation NK_LdFld :: node_kind where "NK_LdFld \<equiv> 87"
abbreviation NK_StFld :: node_kind where "NK_StFld \<equiv> 88"
abbreviation NK_LdFlda :: node_kind where "NK_LdFlda \<equiv> 89"
abbreviation NK_LdElem :: node_kind where "NK_LdElem \<equiv> 90"
abbreviation NK_StElem :: node_kind where "NK_StElem \<equiv> 91"
abbreviation NK_LdElemA :: node_kind where "NK_LdElemA \<equiv> 92"
abbreviation NK_NewArr :: node_kind where "NK_NewArr \<equiv> 93"
abbreviation NK_NewObj :: node_kind where "NK_NewObj \<equiv> 94"
abbreviation NK_CallVirt :: node_kind where "NK_CallVirt \<equiv> 95"
abbreviation NK_Constrained :: node_kind where "NK_Constrained \<equiv> 96"
abbreviation NK_LdArg :: node_kind where "NK_LdArg \<equiv> 97"
abbreviation NK_StArg :: node_kind where "NK_StArg \<equiv> 98"
abbreviation NK_LdLoc :: node_kind where "NK_LdLoc \<equiv> 99"
abbreviation NK_StLoc :: node_kind where "NK_StLoc \<equiv> 100"
abbreviation NK_LdArga :: node_kind where "NK_LdArga \<equiv> 101"
abbreviation NK_LdLoca :: node_kind where "NK_LdLoca \<equiv> 102"
abbreviation NK_Throw :: node_kind where "NK_Throw \<equiv> 103"
abbreviation NK_Rethrow :: node_kind where "NK_Rethrow \<equiv> 104"
abbreviation NK_Leave :: node_kind where "NK_Leave \<equiv> 105"
abbreviation NK_EndFinally :: node_kind where "NK_EndFinally \<equiv> 106"
abbreviation NK_MonitorEnter :: node_kind where "NK_MonitorEnter \<equiv> 107"
abbreviation NK_MonitorExit :: node_kind where "NK_MonitorExit \<equiv> 108"
abbreviation NK_InvokeDynamic :: node_kind where "NK_InvokeDynamic \<equiv> 109"
abbreviation NK_Materialize :: node_kind where "NK_Materialize \<equiv> 110"
abbreviation NK_VectorOp :: node_kind where "NK_VectorOp \<equiv> 111"
abbreviation NK_VectorExtract :: node_kind where "NK_VectorExtract \<equiv> 112"

text \<open>The enumerators in declaration order, with the identifiers they are declared by.\<close>

definition node_kind_enum :: "(node_kind \<times> string) list" where
  "node_kind_enum = [
     (NK_Invalid, ''Invalid''),
     (NK_Start, ''Start''),
     (NK_Region, ''Region''),
     (NK_Loop, ''Loop''),
     (NK_If, ''If''),
     (NK_IfTrue, ''IfTrue''),
     (NK_IfFalse, ''IfFalse''),
     (NK_Switch, ''Switch''),
     (NK_Jump, ''Jump''),
     (NK_Return, ''Return''),
     (NK_ConstInt, ''ConstInt''),
     (NK_ConstFloat, ''ConstFloat''),
     (NK_ConstBool, ''ConstBool''),
     (NK_ConstNull, ''ConstNull''),
     (NK_ConstString, ''ConstString''),
     (NK_Add, ''Add''),
     (NK_Sub, ''Sub''),
     (NK_Mul, ''Mul''),
     (NK_Div, ''Div''),
     (NK_Mod, ''Mod''),
     (NK_Neg, ''Neg''),
     (NK_And, ''And''),
     (NK_Or, ''Or''),
     (NK_Xor, ''Xor''),
     (NK_Not, ''Not''),
     (NK_Shl, ''Shl''),
     (NK_Shr, ''Shr''),
     (NK_Sar, ''Sar''),
     (NK_Eq, ''Eq''),
     (NK_Ne, ''Ne''),
     (NK_Lt, ''Lt''),
     (NK_Gt, ''Gt''),
     (NK_Lte, ''Lte''),
     (NK_Gte, ''Gte''),
     (NK_CheckInt, ''CheckInt''),
     (NK_CheckNotNull, ''CheckNotNull''),
     (NK_CheckShape, ''CheckShape''),
     (NK_CheckBounds, ''CheckBounds''),
     (NK_CheckClass, ''CheckClass''),
     (NK_ToFloat, ''ToFloat''),
     (NK_ToInt, ''ToInt''),
     (NK_ToBool, ''ToBool''),
     (NK_IsInt, ''IsInt''),
     (NK_IsFloat, ''IsFloat''),
     (NK_IsNull, ''IsNull''),
     (NK_Allocate, ''Allocate''),
     (NK_LoadField, ''LoadField''),
     (NK_StoreField, ''StoreField''),
     (NK_LoadElement, ''LoadElement''),
     (NK_StoreElement, ''StoreElement''),
     (NK_ArrayLength, ''ArrayLength''),
     (NK_Call, ''Call''),
     (NK_CallKnown, ''CallKnown''),
     (NK_TailCall, ''TailCall''),
     (NK_Phi, ''Phi''),
     (NK_Copy, ''Copy''),
     (NK_FrameState, ''FrameState''),
     (NK_Safepoint, ''Safepoint''),
     (NK_Deopt, ''Deopt''),
     (NK_Unreachable, ''Unreachable''),
     (NK_Box, ''Box''),
     (NK_Unbox, ''Unbox''),
     (NK_UnboxAny, ''UnboxAny''),
     (NK_IsInst, ''IsInst''),
     (NK_CastClass, ''CastClass''),
     (NK_LdNull, ''LdNull''),
     (NK_LdStr, ''LdStr''),
     (NK_ConvI1, ''ConvI1''),
     (NK_ConvI2, ''ConvI2''),
     (NK_ConvI4, ''ConvI4''),
     (NK_ConvI8, ''ConvI8''),
     (NK_ConvU1, ''ConvU1''),
     (NK_ConvU2, ''ConvU2''),
     (NK_ConvU4, ''ConvU4''),
     (NK_ConvU8, ''ConvU8''),
     (NK_ConvR4, ''ConvR4''),
     (NK_ConvR8, ''ConvR8''),
     (NK_ConvI, ''ConvI''),
     (NK_ConvU, ''ConvU''),
     (NK_ConvOvfI1, ''ConvOvfI1''),
     (NK_ConvOvfI2, ''ConvOvfI2''),
     (NK_ConvOvfI4, ''ConvOvfI4''),
     (NK_ConvOvfI8, ''ConvOvfI8''),
     (NK_ConvOvfU1, ''ConvOvfU1''),
     (NK_ConvOvfU2, ''ConvOvfU2''),
     (NK_ConvOvfU4, ''ConvOvfU4''),
     (NK_ConvOvfU8, ''ConvOvfU8''),
     (NK_LdFld, ''LdFld''),
     (NK_StFld, ''StFld''),
     (NK_LdFlda, ''LdFlda''),
     (NK_LdElem, ''LdElem''),
     (NK_StElem, ''StElem''),
     (NK_LdElemA, ''LdElemA''),
     (NK_NewArr, ''NewArr''),
     (NK_NewObj, ''NewObj''),
     (NK_CallVirt, ''CallVirt''),
     (NK_Constrained, ''Constrained''),
     (NK_LdArg, ''LdArg''),
     (NK_StArg, ''StArg''),
     (NK_LdLoc, ''LdLoc''),
     (NK_StLoc, ''StLoc''),
     (NK_LdArga, ''LdArga''),
     (NK_LdLoca, ''LdLoca''),
     (NK_Throw, ''Throw''),
     (NK_Rethrow, ''Rethrow''),
     (NK_Leave, ''Leave''),
     (NK_EndFinally, ''EndFinally''),
     (NK_MonitorEnter, ''MonitorEnter''),
     (NK_MonitorExit, ''MonitorExit''),
     (NK_InvokeDynamic, ''InvokeDynamic''),
     (NK_Materialize, ''Materialize''),
     (NK_VectorOp, ''VectorOp''),
     (NK_VectorExtract, ''VectorExtract'')]"

text \<open>The sentinel \<^verbatim>\<open>kCount\<close>: the number of enumerators.\<close>

definition kCount :: nat where
  "kCount = 113"

section \<open>The property table\<close>

record node_kind_info =
  nki_name :: string
  nki_pure :: bool
  nki_effect :: bool
  nki_control :: bool
  nki_commutative :: bool
  nki_associative :: bool
  nki_guard :: bool
  nki_num_data_inputs :: u8

text \<open>Rows list the name, then pure, effect, control, commutative, associative, guard, arity.\<close>

definition info_row ::
  "string \<Rightarrow> bool \<Rightarrow> bool \<Rightarrow> bool \<Rightarrow> bool \<Rightarrow> bool \<Rightarrow> bool \<Rightarrow> u8 \<Rightarrow> node_kind_info" where
  "info_row n p e c co a g k =
     \<lparr>nki_name = n, nki_pure = p, nki_effect = e, nki_control = c, nki_commutative = co,
      nki_associative = a, nki_guard = g, nki_num_data_inputs = k\<rparr>"

definition kTable :: "node_kind_info list" where
  "kTable = [
     info_row ''Invalid'' False False False False False False 0,
     info_row ''Start'' False True  True  False False False 0,
     info_row ''Region'' False False True  False False False 255,
     info_row ''Loop'' False False True  False False False 255,
     info_row ''If'' False False True  False False False 1,
     info_row ''IfTrue'' False False True  False False False 0,
     info_row ''IfFalse'' False False True  False False False 0,
     info_row ''Switch'' False False True  False False False 1,
     info_row ''Jump'' False False True  False False False 0,
     info_row ''Return'' False True  True  False False False 1,
     info_row ''ConstInt'' True  False False False False False 0,
     info_row ''ConstFloat'' True  False False False False False 0,
     info_row ''ConstBool'' True  False False False False False 0,
     info_row ''ConstNull'' True  False False False False False 0,
     info_row ''ConstString'' True  False False False False False 0,
     info_row ''Add'' True  False False True  True  False 2,
     info_row ''Sub'' True  False False False False False 2,
     info_row ''Mul'' True  False False True  True  False 2,
     info_row ''Div'' True  False False False False False 2,
     info_row ''Mod'' True  False False False False False 2,
     info_row ''Neg'' True  False False False False False 1,
     info_row ''And'' True  False False True  True  False 2,
     info_row ''Or'' True  False False True  True  False 2,
     info_row ''Xor'' True  False False True  False False 2,
     info_row ''Not'' True  False False False False False 1,
     info_row ''Shl'' True  False False False False False 2,
     info_row ''Shr'' True  False False False False False 2,
     info_row ''Sar'' True  False False False False False 2,
     info_row ''Eq'' True  False False True  False False 2,
     info_row ''Ne'' True  False False True  False False 2,
     info_row ''Lt'' True  False False False False False 2,
     info_row ''Gt'' True  False False False False False 2,
     info_row ''Lte'' True  False False False False False 2,
     info_row ''Gte'' True  False False False False False 2,
     info_row ''CheckInt'' False False True  False False True  1,
     info_row ''CheckNotNull'' False False True  False False True  1,
     info_row ''CheckShape'' False False True  False False True  1,
     info_row ''CheckBounds'' False False True  False False True  2,
     info_row ''CheckClass'' False False True  False False True  1,
     info_row ''ToFloat'' True  False False False False False 1,
     info_row ''ToInt'' True  False False False False False 1,
     info_row ''ToBool'' True  False False False False False 1,
     info_row ''IsInt'' True  False False False False False 1,
     info_row ''IsFloat'' True  False False False False False 1,
     info_row ''IsNull'' True  False False False False False 1,
     info_row ''Allocate'' False True  False False False False 255,
     info_row ''LoadField'' False True  False False False False 1,
     info_row ''StoreField'' False True  False False False False 2,
     info_row ''LoadElement'' False True  False False False False 2,
     info_row ''StoreElement'' False True  False False False False 3,
     info_row ''ArrayLength'' False True  False False False False 1,
     info_row ''Call'' False True  False False False False 255,
     info_row ''CallKnown'' False True  False False False False 255,
     info_row ''TailCall'' False True  True  False False False 255,
     info_row ''Phi'' True  False False False False False 255,
     info_row ''Copy'' True  False False False False False 1,
     info_row ''FrameState'' False False False False False False 255,
     info_row ''Safepoint'' False True  False False False False 0,
     info_row ''Deopt'' False True  True  False False False 0,
     info_row ''Unreachable'' False False True  False False False 0,
     info_row ''Box'' False True  False False False False 1,
     info_row ''Unbox'' False True  False False False False 1,
     info_row ''UnboxAny'' False True  False False False False 1,
     info_row ''IsInst'' False True  False False False False 1,
     info_row ''CastClass'' False True  False False False False 1,
     info_row ''LdNull'' True  False False False False False 0,
     info_row ''LdStr'' True  False False False False False 0,
     info_row ''ConvI1'' True  False False False False False 1,
     info_row ''ConvI2'' True  False False False False False 1,
     info_row ''ConvI4'' True  False False False False False 1,
     info_row ''ConvI8'' True  False False False False False 1,
     info_row ''ConvU1'' True  False False False False False 1,
     info_row ''ConvU2'' True  False False False False False 1,
     info_row ''ConvU4'' True  False False False False False 1,
     info_row ''ConvU8'' True  False False False False False 1,
     info_row ''ConvR4'' True  False False False False False 1,
     info_row ''ConvR8'' True  False False False False False 1,
     info_row ''ConvI'' True  False False False False False 1,
     info_row ''ConvU'' True  False False False False False 1,
     info_row ''ConvOvfI1'' False True  False False False True  1,
     info_row ''ConvOvfI2'' False True  False False False True  1,
     info_row ''ConvOvfI4'' False True  False False False True  1,
     info_row ''ConvOvfI8'' False True  False False False True  1,
     info_row ''ConvOvfU1'' False True  False False False True  1,
     info_row ''ConvOvfU2'' False True  False False False True  1,
     info_row ''ConvOvfU4'' False True  False False False True  1,
     info_row ''ConvOvfU8'' False True  False False False True  1,
     info_row ''LdFld'' False True  False False False False 1,
     info_row ''StFld'' False True  False False False False 2,
     info_row ''LdFlda'' False True  False False False False 1,
     info_row ''LdElem'' False True  False False False False 2,
     info_row ''StElem'' False True  False False False False 3,
     info_row ''LdElemA'' False True  False False False False 2,
     info_row ''NewArr'' False True  False False False False 1,
     info_row ''NewObj'' False True  False False False False 255,
     info_row ''CallVirt'' False True  False False False False 255,
     info_row ''Constrained'' False True  False False False False 0,
     info_row ''LdArg'' True  False False False False False 0,
     info_row ''StArg'' False True  False False False False 1,
     info_row ''LdLoc'' True  False False False False False 0,
     info_row ''StLoc'' False True  False False False False 1,
     info_row ''LdArga'' True  False False False False False 0,
     info_row ''LdLoca'' True  False False False False False 0,
     info_row ''Throw'' False True  True  False False False 1,
     info_row ''Rethrow'' False True  True  False False False 0,
     info_row ''Leave'' False True  True  False False False 0,
     info_row ''EndFinally'' False True  True  False False False 0,
     info_row ''MonitorEnter'' False True  False False False False 1,
     info_row ''MonitorExit'' False True  False False False False 1,
     info_row ''InvokeDynamic'' False True  False False False False 255,
     info_row ''Materialize'' False True  False False False False 255,
     info_row ''VectorOp'' True  False False False False False 255,
     info_row ''VectorExtract'' True  False False False False False 1]"

text \<open>Lookup by index; kinds past the end of the table read the \<open>Invalid\<close> row.\<close>

definition lookup_node_kind_info :: "node_kind \<Rightarrow> node_kind_info" where
  "lookup_node_kind_info k =
     (let idx = unat k in if idx < length kTable then kTable ! idx else kTable ! 0)"

definition node_kind_name :: "node_kind \<Rightarrow> string" where
  "node_kind_name k = nki_name (lookup_node_kind_info k)"

section \<open>The table agrees with the enumeration\<close>

lemma length_kTable: "length kTable = kCount"
  by (simp add: kTable_def kCount_def)

lemma length_node_kind_enum: "length node_kind_enum = kCount"
  by (simp add: node_kind_enum_def kCount_def)

lemma enum_values: "map (unat \<circ> fst) node_kind_enum = [0..<kCount]"
  unfolding node_kind_enum_def kCount_def
  by (simp add: upt_rec [of 0] upt_rec [of "Suc 0"] upt_rec_numeral
      flip: numeral_2_eq_2)

lemma enum_names: "map snd node_kind_enum = map nki_name kTable"
  unfolding node_kind_enum_def kTable_def info_row_def by simp

lemma lookup_in_kTable: "lookup_node_kind_info k \<in> set kTable"
  using length_kTable by (auto simp: lookup_node_kind_info_def Let_def kCount_def intro!: nth_mem)

lemma lookup_out_of_range:
  "kCount \<le> unat k \<Longrightarrow> lookup_node_kind_info k = lookup_node_kind_info NK_Invalid"
  by (simp add: lookup_node_kind_info_def length_kTable kCount_def)

text \<open>Constraints between the columns, checked over the whole table.\<close>

definition row_ok :: "node_kind_info \<Rightarrow> bool" where
  "row_ok r \<longleftrightarrow>
     (nki_pure r \<longrightarrow> \<not> nki_effect r \<and> \<not> nki_control r \<and> \<not> nki_guard r)
     \<and> (nki_commutative r \<longrightarrow> nki_pure r \<and> nki_num_data_inputs r = 2)
     \<and> (nki_associative r \<longrightarrow> nki_commutative r)
     \<and> (nki_guard r \<longrightarrow> nki_control r \<or> nki_effect r)"

lemma row_ok_info_row:
  "row_ok (info_row n p e c co a g k) \<longleftrightarrow>
     (p \<longrightarrow> \<not> e \<and> \<not> c \<and> \<not> g) \<and> (co \<longrightarrow> p \<and> k = 2) \<and> (a \<longrightarrow> co) \<and> (g \<longrightarrow> c \<or> e)"
  by (simp add: row_ok_def info_row_def)

lemma kTable_columns: "list_all row_ok kTable"
  unfolding kTable_def by (simp only: list.pred_inject row_ok_info_row) simp

lemma info_row_ok: "row_ok (lookup_node_kind_info k)"
  using kTable_columns lookup_in_kTable by (auto simp: list_all_iff)

lemma info_pure_not_effect [kind_simps]:
  "nki_pure (lookup_node_kind_info k) \<Longrightarrow> \<not> nki_effect (lookup_node_kind_info k)"
  using info_row_ok [of k] by (simp add: row_ok_def)

lemma info_pure_not_control [kind_simps]:
  "nki_pure (lookup_node_kind_info k) \<Longrightarrow> \<not> nki_control (lookup_node_kind_info k)"
  using info_row_ok [of k] by (simp add: row_ok_def)

lemma info_pure_not_guard [kind_simps]:
  "nki_pure (lookup_node_kind_info k) \<Longrightarrow> \<not> nki_guard (lookup_node_kind_info k)"
  using info_row_ok [of k] by (simp add: row_ok_def)

end
