(* ===== verification/Node_Flag.thy ===== *)
theory Node_Flag
  imports Prelude
begin

text \<open>
  \<^verbatim>\<open>core/Flags.hpp\<close> and \<^verbatim>\<open>ir/NodeFlag.hpp/.cpp\<close>: the type-safe bit mask \<^verbatim>\<open>Flags<E>\<close> and the
  node flags it is instantiated with, including the symbolic printer.
\<close>

unbundle bit_operations_syntax

section \<open>Flags\<close>

text \<open>The only field of \<^verbatim>\<open>Flags<NodeFlag>\<close> is the underlying 16-bit word.\<close>

type_synonym node_flags = u16

definition flags_has :: "node_flags \<Rightarrow> u16 \<Rightarrow> bool" where
  "flags_has f e \<longleftrightarrow> f AND e \<noteq> 0"

definition flags_has_any_of :: "node_flags \<Rightarrow> node_flags \<Rightarrow> bool" where
  "flags_has_any_of f m \<longleftrightarrow> f AND m \<noteq> 0"

definition flags_has_all_of :: "node_flags \<Rightarrow> node_flags \<Rightarrow> bool" where
  "flags_has_all_of f m \<longleftrightarrow> f AND m = m"

definition flags_empty :: "node_flags \<Rightarrow> bool" where
  "flags_empty f \<longleftrightarrow> f = 0"

definition flags_set :: "node_flags \<Rightarrow> u16 \<Rightarrow> node_flags" where
  "flags_set f e = f OR e"

definition flags_clear :: "node_flags \<Rightarrow> u16 \<Rightarrow> node_flags" where
  "flags_clear f e = f AND NOT e"

definition flags_toggle :: "node_flags \<Rightarrow> u16 \<Rightarrow> node_flags" where
  "flags_toggle f e = f XOR e"

section \<open>The node flags\<close>

abbreviation NF_None :: u16 where "NF_None \<equiv> 0"
abbreviation NF_Pure :: u16 where "NF_Pure \<equiv> 1"
abbreviation NF_Effect :: u16 where "NF_Effect \<equiv> 2"
abbreviation NF_Control :: u16 where "NF_Control \<equiv> 4"
abbreviation NF_Commutative :: u16 where "NF_Commutative \<equiv> 8"
abbreviation NF_Associative :: u16 where "NF_Associative \<equiv> 16"
abbreviation NF_NoThrow :: u16 where "NF_NoThrow \<equiv> 32"
abbreviation NF_IsGuard :: u16 where "NF_IsGuard \<equiv> 64"
abbreviation NF_HasState :: u16 where "NF_HasState \<equiv> 128"
abbreviation NF_IsConst :: u16 where "NF_IsConst \<equiv> 256"
abbreviation NF_IsDead :: u16 where "NF_IsDead \<equiv> 512"
abbreviation NF_IsScheduled :: u16 where "NF_IsScheduled \<equiv> 1024"
abbreviation NF_HasSideExit :: u16 where "NF_HasSideExit \<equiv> 2048"
abbreviation NF_IsCold :: u16 where "NF_IsCold \<equiv> 4096"
abbreviation NF_IsLoop :: u16 where "NF_IsLoop \<equiv> 8192"
abbreviation NF_HasTypeNarrowing :: u16 where "NF_HasTypeNarrowing \<equiv> 16384"

text \<open>The table of printed names, in printing order.\<close>

definition kEntries :: "(u16 \<times> string) list" where
  "kEntries =
    [(NF_Pure, ''Pure''), (NF_Effect, ''Effect''), (NF_Control, ''Control''),
     (NF_Commutative, ''Commutative''), (NF_Associative, ''Associative''),
     (NF_NoThrow, ''NoThrow''), (NF_IsGuard, ''IsGuard''), (NF_HasState, ''HasState''),
     (NF_IsConst, ''IsConst''), (NF_IsDead, ''IsDead''), (NF_IsScheduled, ''IsScheduled''),
     (NF_HasSideExit, ''HasSideExit''), (NF_IsCold, ''IsCold''), (NF_IsLoop, ''IsLoop''),
     (NF_HasTypeNarrowing, ''HasTypeNarrowing'')]"

definition flag_bit_name :: "u16 \<Rightarrow> string" where
  "flag_bit_name b =
     (case find (\<lambda>e. fst e = b) kEntries of Some e \<Rightarrow> snd e | None \<Rightarrow> ''Unknown'')"

text \<open>The loop of \<open>to_string\<close>: the text so far and whether nothing has been printed yet.\<close>

fun flags_print_loop :: "node_flags \<Rightarrow> (u16 \<times> string) list \<Rightarrow> string \<Rightarrow> bool \<Rightarrow> string \<times> bool" where
  "flags_print_loop f [] out first = (out, first)"
| "flags_print_loop f (e # es) out first =
     (if flags_has f (fst e)
      then flags_print_loop f es ((if first then out else out @ ''|'') @ snd e) False
      else flags_print_loop f es out first)"

definition flags_to_string :: "node_flags \<Rightarrow> string" where
  "flags_to_string f =
     (if flags_empty f then ''(none)''
      else let (out, first) = flags_print_loop f kEntries [] True
           in if first then ''(none)'' else out)"

section \<open>Laws of the mask operations\<close>

lemma flags_has_or [flag_simps]: "flags_has (f OR g) e \<longleftrightarrow> flags_has f e \<or> flags_has g e"
  by (simp add: flags_has_def bit.conj_disj_distrib2 or_eq_0_iff)

lemma flags_has_zero [flag_simps, simp]: "\<not> flags_has 0 e"
  by (simp add: flags_has_def)

lemma flags_has_numeral [flag_simps, simp]:
  "flags_has (numeral m) (numeral n) \<longleftrightarrow> (numeral m AND numeral n :: u16) \<noteq> 0"
  "flags_has 1 (numeral n) \<longleftrightarrow> (1 AND numeral n :: u16) \<noteq> 0"
  "flags_has (numeral m) 1 \<longleftrightarrow> (numeral m AND 1 :: u16) \<noteq> 0"
  "flags_has 1 1"
  by (simp_all add: flags_has_def)

lemma flags_has_if [flag_simps]:
  "flags_has (if b then f else g) e \<longleftrightarrow> (if b then flags_has f e else flags_has g e)"
  by simp

lemma flags_has_set: "e \<noteq> 0 \<Longrightarrow> flags_has (flags_set f e) e"
  by (simp add: flags_set_def flag_simps) (simp add: flags_has_def)

lemma flags_has_clear: "\<not> flags_has (flags_clear f e) e"
  by (simp add: flags_has_def flags_clear_def and.assoc)

text \<open>Clearing or setting one flag leaves every disjoint flag as it was.\<close>

lemma flags_has_set_other: "e AND d = 0 \<Longrightarrow> flags_has (flags_set f d) e = flags_has f e"
  by (simp add: flags_set_def flag_simps) (simp add: flags_has_def and.commute)

lemma flags_has_clear_other:
  assumes "e AND d = 0"
  shows "flags_has (flags_clear f d) e = flags_has f e"
proof -
  have "\<not> (bit e n \<and> bit d n)" for n
    using assms by (metis bit_0_eq bit_and_iff bot_apply bot_bool_def)
  then have "NOT d AND e = e"
    by (intro bit_eqI) (auto simp: bit_and_iff bit_not_iff)
  then show ?thesis by (simp add: flags_has_def flags_clear_def and.assoc)
qed

lemma flags_toggle_twice: "flags_toggle (flags_toggle f e) e = f"
  by (simp add: flags_toggle_def xor.assoc)

end
