(* ===== verification/Type_Lattice.thy ===== *)
theory Type_Lattice
  imports Prelude
begin

text \<open>
  \<^verbatim>\<open>ir/TypeId.hpp\<close> and \<^verbatim>\<open>ir/TypeId.cpp\<close>: the elements of the type lattice used by type
  propagation and the two operations on them.
\<close>

section \<open>Elements and operations\<close>

datatype type_id =
    Ty_Bottom
  | Ty_Top
  | Ty_Int
  | Ty_Float
  | Ty_Bool
  | Ty_Null
  | Ty_Object
  | Ty_Array
  | Ty_String
  | Ty_Function
  | Ty_BigInt

primrec type_id_name :: "type_id \<Rightarrow> string" where
  "type_id_name Ty_Bottom = ''Bottom''"
| "type_id_name Ty_Top = ''Top''"
| "type_id_name Ty_Int = ''Int''"
| "type_id_name Ty_Float = ''Float''"
| "type_id_name Ty_Bool = ''Bool''"
| "type_id_name Ty_Null = ''Null''"
| "type_id_name Ty_Object = ''Object''"
| "type_id_name Ty_Array = ''Array''"
| "type_id_name Ty_String = ''String''"
| "type_id_name Ty_Function = ''Function''"
| "type_id_name Ty_BigInt = ''BigInt''"

definition type_meet :: "type_id \<Rightarrow> type_id \<Rightarrow> type_id" where
  "type_meet a b =
     (if a = Ty_Top then b
      else if b = Ty_Top then a
      else if a = Ty_Bottom then Ty_Bottom
      else if b = Ty_Bottom then Ty_Bottom
      else if a = b then a
      else Ty_Bottom)"

definition type_join :: "type_id \<Rightarrow> type_id \<Rightarrow> type_id" where
  "type_join a b =
     (if a = Ty_Bottom then b
      else if b = Ty_Bottom then a
      else if a = b then a
      else if a = Ty_Top \<or> b = Ty_Top then Ty_Top
      else if (a = Ty_Int \<and> b = Ty_Float) \<or> (a = Ty_Float \<and> b = Ty_Int) then Ty_Float
      else Ty_Object)"

section \<open>Order of the join\<close>

text \<open>
  \<open>a\<close> is below \<open>b\<close> when the join adds nothing to \<open>b\<close>: numbers below \<open>Float\<close>, every proper
  type below \<open>Object\<close>, and the two bounds.
\<close>

instantiation type_id :: "{order_bot, order_top, semilattice_sup}"
begin

definition less_eq_type_id :: "type_id \<Rightarrow> type_id \<Rightarrow> bool" where
  "less_eq_type_id a b \<longleftrightarrow> type_join a b = b"

definition less_type_id :: "type_id \<Rightarrow> type_id \<Rightarrow> bool" where
  "less_type_id a b \<longleftrightarrow> type_join a b = b \<and> a \<noteq> b"

definition bot_type_id :: type_id where "bot_type_id = Ty_Bottom"

definition top_type_id :: type_id where "top_type_id = Ty_Top"

definition sup_type_id :: "type_id \<Rightarrow> type_id \<Rightarrow> type_id" where
  "sup_type_id = type_join"

instance
proof
  fix a b c :: type_id
  show "(a < b) = (a \<le> b \<and> \<not> b \<le> a)"
    by (cases a; cases b) (simp_all add: less_eq_type_id_def less_type_id_def type_join_def)
  show "a \<le> a" by (simp add: less_eq_type_id_def type_join_def)
  show "a \<le> b \<Longrightarrow> b \<le> c \<Longrightarrow> a \<le> c"
    by (cases a; cases b; cases c) (simp_all add: less_eq_type_id_def type_join_def)
  show "a \<le> b \<Longrightarrow> b \<le> a \<Longrightarrow> a = b"
    by (cases a; cases b) (simp_all add: less_eq_type_id_def type_join_def)
  show "bot \<le> a" by (simp add: less_eq_type_id_def type_join_def bot_type_id_def)
  show "a \<le> top" by (simp add: less_eq_type_id_def type_join_def top_type_id_def)
  show "a \<le> sup a b" "b \<le> sup a b"
    by (cases a; cases b; simp add: less_eq_type_id_def type_join_def sup_type_id_def)+
  show "b \<le> a \<Longrightarrow> c \<le> a \<Longrightarrow> sup b c \<le> a"
    by (cases a; cases b; cases c) (simp_all add: less_eq_type_id_def type_join_def sup_type_id_def)
qed

end

section \<open>Laws of the meet\<close>

lemma type_meet_commute: "type_meet a b = type_meet b a"
  by (simp add: type_meet_def)

lemma type_meet_assoc: "type_meet (type_meet a b) c = type_meet a (type_meet b c)"
  by (simp add: type_meet_def)

lemma type_meet_idem: "type_meet a a = a"
  by (simp add: type_meet_def)

text \<open>The meet is the greatest lower bound of the flat order, not of the order of the join.\<close>

lemma type_meet_flat:
  "type_meet a b = (if a = b then a else if a = Ty_Top then b else if b = Ty_Top then a else Ty_Bottom)"
  by (simp add: type_meet_def)

end
