(* ===== verification/Ir_Graph.thy ===== *)
theory Ir_Graph
  imports Core_Result Node_Kind Node_Flag Type_Lattice
begin

text \<open>
  \<^verbatim>\<open>core/NodeId.hpp\<close>, \<^verbatim>\<open>core/Arena.hpp\<close> (the edge pool), \<^verbatim>\<open>ir/Node.hpp\<close>, \<^verbatim>\<open>ir/Graph.hpp\<close> and
  \<^verbatim>\<open>ir/Graph.cpp\<close>: the sea-of-nodes graph. Nodes and side data are parallel vectors; the inputs of
  every node live in one shared pool of node ids, and a node holds index ranges into it. The
  first part models the operations over that representation, the last part proves that they
  implement independent input lists per node (\<open>abs_graph\<close>).

  Node ids are 1-based indices, 0 is the invalid id; they are natural numbers, which agrees with
  the 32-bit ids of the code for graphs of fewer than \<open>2 ^ 32\<close> nodes and edges.
\<close>

section \<open>Ids, slices, nodes and side data\<close>

type_synonym node_id = nat

definition id_valid :: "node_id \<Rightarrow> bool" where
  "id_valid nid \<longleftrightarrow> nid \<noteq> 0"

record edge_slice =
  first_edge :: nat
  edge_count :: nat

record node =
  n_kind :: node_kind
  n_flags :: node_flags
  n_arity_hint :: u8
  n_type :: type_id
  n_data_inputs :: edge_slice
  n_ctrl_input :: edge_slice
  n_effect_input :: edge_slice
  n_state :: nat

definition empty_slice :: edge_slice where
  "empty_slice = \<lparr>first_edge = 0, edge_count = 0\<rparr>"

text \<open>A value-initialised \<^verbatim>\<open>Node{}\<close>.\<close>

definition default_node :: node where
  "default_node =
     \<lparr>n_kind = NK_Invalid, n_flags = 0, n_arity_hint = 0, n_type = Ty_Top,
      n_data_inputs = empty_slice, n_ctrl_input = empty_slice, n_effect_input = empty_slice,
      n_state = 0\<rparr>"

definition node_is_pure :: "node \<Rightarrow> bool" where
  "node_is_pure n = flags_has (n_flags n) NF_Pure"

definition node_is_effect :: "node \<Rightarrow> bool" where
  "node_is_effect n = flags_has (n_flags n) NF_Effect"

definition node_is_control :: "node \<Rightarrow> bool" where
  "node_is_control n = flags_has (n_flags n) NF_Control"

definition node_is_guard :: "node \<Rightarrow> bool" where
  "node_is_guard n = flags_has (n_flags n) NF_IsGuard"

definition node_is_const :: "node \<Rightarrow> bool" where
  "node_is_const n = flags_has (n_flags n) NF_IsConst"

definition node_is_dead :: "node \<Rightarrow> bool" where
  "node_is_dead n = flags_has (n_flags n) NF_IsDead"

definition node_has_state :: "node \<Rightarrow> bool" where
  "node_has_state n = flags_has (n_flags n) NF_HasState"

lemmas node_queries = node_is_pure_def node_is_effect_def node_is_control_def node_is_guard_def
  node_is_const_def node_is_dead_def node_has_state_def

text \<open>
  The side table row. \<open>const_value\<close> is the 8-byte union \<^verbatim>\<open>ConstValue\<close> as its bits: the integer
  member reads all of them, the boolean member the lowest byte.
\<close>

record node_side =
  const_value :: u64
  shape_id :: nat
  field_offset :: u16
  field_id :: nat
  class_id :: u32
  profile_freq :: u16
  bc_offset :: u32
  vector_kind :: node_kind
  vector_lanes :: u8
  vector_lane :: u8

definition default_side :: node_side where
  "default_side =
     \<lparr>const_value = 0, shape_id = 0, field_offset = 0, field_id = 0, class_id = 0,
      profile_freq = 0, bc_offset = 0xFFFFFFFF, vector_kind = NK_Invalid, vector_lanes = 0,
      vector_lane = 0\<rparr>"

section \<open>The edge pool\<close>

definition pool_alloc :: "nat \<Rightarrow> node_id list \<Rightarrow> nat \<times> node_id list" where
  "pool_alloc n p = (length p, p @ replicate n 0)"

definition pool_get :: "nat \<Rightarrow> nat \<Rightarrow> node_id list \<Rightarrow> node_id list" where
  "pool_get first n p = take n (drop first p)"

text \<open>Copying a list of ids into the span that starts at \<open>first\<close>.\<close>

definition pool_write :: "nat \<Rightarrow> node_id list \<Rightarrow> node_id list \<Rightarrow> node_id list" where
  "pool_write first xs p = take first p @ xs @ drop (first + length xs) p"

section \<open>The graph\<close>

record graph =
  g_nodes :: "node list"
  g_sides :: "node_side list"
  g_pool :: "node_id list"
  g_start :: node_id

definition empty_graph :: graph where
  "empty_graph = \<lparr>g_nodes = [], g_sides = [], g_pool = [], g_start = 0\<rparr>"

definition g_size :: "graph \<Rightarrow> nat" where
  "g_size g = length (g_nodes g)"

definition in_graph :: "graph \<Rightarrow> node_id \<Rightarrow> bool" where
  "in_graph g nid \<longleftrightarrow> 1 \<le> nid \<and> nid \<le> g_size g"

text \<open>Accessors. Reading an id outside the graph is undefined in the code.\<close>

definition node :: "graph \<Rightarrow> node_id \<Rightarrow> node" where
  "node g nid = g_nodes g ! (nid - 1)"

definition side :: "graph \<Rightarrow> node_id \<Rightarrow> node_side" where
  "side g nid = g_sides g ! (nid - 1)"

definition data_inputs :: "graph \<Rightarrow> node_id \<Rightarrow> node_id list" where
  "data_inputs g nid =
     (let s = n_data_inputs (node g nid) in pool_get (first_edge s) (edge_count s) (g_pool g))"

definition ctrl_input :: "graph \<Rightarrow> node_id \<Rightarrow> node_id" where
  "ctrl_input g nid =
     (let s = n_ctrl_input (node g nid)
      in if edge_count s = 0 then 0 else pool_get (first_edge s) 1 (g_pool g) ! 0)"

definition effect_input :: "graph \<Rightarrow> node_id \<Rightarrow> node_id" where
  "effect_input g nid =
     (let s = n_effect_input (node g nid)
      in if edge_count s = 0 then 0 else pool_get (first_edge s) 1 (g_pool g) ! 0)"

text \<open>Writing through the references \<^verbatim>\<open>node(id)\<close> and \<^verbatim>\<open>side(id)\<close>.\<close>

definition upd_node :: "node_id \<Rightarrow> (node \<Rightarrow> node) \<Rightarrow> graph \<Rightarrow> graph" where
  "upd_node nid f g = g\<lparr>g_nodes := (g_nodes g)[nid - 1 := f (node g nid)]\<rparr>"

definition upd_side :: "node_id \<Rightarrow> (node_side \<Rightarrow> node_side) \<Rightarrow> graph \<Rightarrow> graph" where
  "upd_side nid f g = g\<lparr>g_sides := (g_sides g)[nid - 1 := f (side g nid)]\<rparr>"

definition or_flags :: "u16 \<Rightarrow> node \<Rightarrow> node" where
  "or_flags m n = n\<lparr>n_flags := n_flags n OR m\<rparr>"

section \<open>Node creation\<close>

definition allocate_id :: "graph \<Rightarrow> node_id \<times> graph" where
  "allocate_id g =
     (length (g_nodes g) + 1,
      g\<lparr>g_nodes := g_nodes g @ [default_node], g_sides := g_sides g @ [default_side]\<rparr>)"

definition create_flags :: "node_kind_info \<Rightarrow> node_flags" where
  "create_flags info =
     (let f0 = NF_None;
          f1 = (if nki_pure info then f0 OR NF_Pure else f0);
          f2 = (if nki_effect info then f1 OR NF_Effect else f1);
          f3 = (if nki_control info then f2 OR NF_Control else f2);
          f4 = (if nki_commutative info then f3 OR NF_Commutative else f3);
          f5 = (if nki_associative info then f4 OR NF_Associative else f4)
      in if nki_guard info then f5 OR (NF_IsGuard OR NF_HasSideExit) else f5)"

definition create :: "node_kind \<Rightarrow> graph \<Rightarrow> node_id \<times> graph" where
  "create k g =
     (let (nid, g1) = allocate_id g;
          info = lookup_node_kind_info k
      in (nid, upd_node nid (\<lambda>n. n\<lparr>n_kind := k, n_flags := create_flags info,
                                n_arity_hint := nki_num_data_inputs info\<rparr>) g1))"

section \<open>Mutators\<close>

definition set_data_inputs :: "node_id \<Rightarrow> node_id list \<Rightarrow> graph \<Rightarrow> graph" where
  "set_data_inputs nid inputs g =
     (let (first, p) = pool_alloc (length inputs) (g_pool g)
      in upd_node nid (\<lambda>n. n\<lparr>n_data_inputs := \<lparr>first_edge = first, edge_count = length inputs\<rparr>\<rparr>)
           (g\<lparr>g_pool := pool_write first inputs p\<rparr>))"

definition set_ctrl_input :: "node_id \<Rightarrow> node_id \<Rightarrow> graph \<Rightarrow> graph" where
  "set_ctrl_input nid ctrl g =
     (let (first, p) = pool_alloc 1 (g_pool g)
      in upd_node nid (\<lambda>n. n\<lparr>n_ctrl_input := \<lparr>first_edge = first, edge_count = 1\<rparr>\<rparr>)
           (g\<lparr>g_pool := pool_write first [ctrl] p\<rparr>))"

definition set_effect_input :: "node_id \<Rightarrow> node_id \<Rightarrow> graph \<Rightarrow> graph" where
  "set_effect_input nid eff g =
     (let (first, p) = pool_alloc 1 (g_pool g)
      in upd_node nid (\<lambda>n. n\<lparr>n_effect_input := \<lparr>first_edge = first, edge_count = 1\<rparr>\<rparr>)
           (g\<lparr>g_pool := pool_write first [eff] p\<rparr>))"

definition set_frame_state :: "node_id \<Rightarrow> nat \<Rightarrow> graph \<Rightarrow> graph" where
  "set_frame_state nid st g =
     (let g1 = upd_node nid (\<lambda>n. n\<lparr>n_state := st\<rparr>) g
      in if st \<noteq> 0 then upd_node nid (or_flags NF_HasState) g1 else g1)"

definition mark_dead :: "node_id \<Rightarrow> graph \<Rightarrow> graph" where
  "mark_dead nid g = upd_node nid (or_flags NF_IsDead) g"

text \<open>One iteration of \<open>replace_all_uses\<close>: the slots of a live node, in the shared pool.\<close>

definition replace_uses_in :: "node_id \<Rightarrow> node_id \<Rightarrow> nat \<Rightarrow> graph \<Rightarrow> graph" where
  "replace_uses_in old_id new_id i g =
     (let n = g_nodes g ! i; s = n_data_inputs n
      in if node_is_dead n then g
         else if edge_count s > 0
         then g\<lparr>g_pool := map_range (first_edge s) (edge_count s)
                            (\<lambda>inp. if inp = old_id then new_id else inp) (g_pool g)\<rparr>
         else g)"

definition replace_all_uses :: "node_id \<Rightarrow> node_id \<Rightarrow> graph \<Rightarrow> graph" where
  "replace_all_uses old_id new_id g = fold (replace_uses_in old_id new_id) [0..<g_size g] g"

definition replace_one_use ::
  "node_id \<Rightarrow> node_id \<Rightarrow> node_id \<Rightarrow> nat \<Rightarrow> graph \<Rightarrow> bool \<times> graph" where
  "replace_one_use old_id new_id user slot g =
     (if \<not> id_valid user \<or> user > g_size g then (False, g)
      else let n = g_nodes g ! (user - 1) in
        if node_is_dead n then (False, g)
        else let s = n_data_inputs n in
          if slot \<ge> edge_count s then (False, g)
          else if g_pool g ! (first_edge s + slot) = old_id
          then (True, g\<lparr>g_pool := (g_pool g)[first_edge s + slot := new_id]\<rparr>)
          else (False, g))"

definition create_with ::
  "node_kind \<Rightarrow> node_id list \<Rightarrow> node_id \<Rightarrow> node_id \<Rightarrow> graph \<Rightarrow> node_id \<times> graph" where
  "create_with k inputs ctrl eff g =
     (let (nid, g1) = create k g;
          g2 = set_data_inputs nid inputs g1;
          g3 = (if id_valid ctrl then set_ctrl_input nid ctrl g2 else g2);
          g4 = (if id_valid eff then set_effect_input nid eff g3 else g3)
      in (nid, g4))"

definition create_const_int :: "i64 \<Rightarrow> graph \<Rightarrow> node_id \<times> graph" where
  "create_const_int v g =
     (let (nid, g1) = create NK_ConstInt g;
          g2 = upd_node nid (\<lambda>n. (or_flags NF_IsConst n)\<lparr>n_type := Ty_Int\<rparr>) g1
      in (nid, upd_side nid (\<lambda>s. s\<lparr>const_value := v\<rparr>) g2))"

text \<open>A double is its bit pattern.\<close>

definition create_const_float :: "u64 \<Rightarrow> graph \<Rightarrow> node_id \<times> graph" where
  "create_const_float v g =
     (let (nid, g1) = create NK_ConstFloat g;
          g2 = upd_node nid (\<lambda>n. (or_flags NF_IsConst n)\<lparr>n_type := Ty_Float\<rparr>) g1
      in (nid, upd_side nid (\<lambda>s. s\<lparr>const_value := v\<rparr>) g2))"

definition create_const_bool :: "bool \<Rightarrow> graph \<Rightarrow> node_id \<times> graph" where
  "create_const_bool v g =
     (let (nid, g1) = create NK_ConstBool g;
          g2 = upd_node nid (\<lambda>n. (or_flags NF_IsConst n)\<lparr>n_type := Ty_Bool\<rparr>) g1
      in (nid, upd_side nid (\<lambda>s. s\<lparr>const_value :=
            (const_value s AND NOT 0xFF) OR (if v then 1 else 0)\<rparr>) g2))"

definition create_const_null :: "graph \<Rightarrow> node_id \<times> graph" where
  "create_const_null g =
     (let (nid, g1) = create NK_ConstNull g
      in (nid, upd_node nid (\<lambda>n. (or_flags NF_IsConst n)\<lparr>n_type := Ty_Null\<rparr>) g1))"

section \<open>Graph builder\<close>

text \<open>The convenience constructors of \<^verbatim>\<open>GraphBuilder\<close>; \<open>start\<close> also records the start node.\<close>

definition gb_start :: "graph \<Rightarrow> node_id \<times> graph" where
  "gb_start g = (let (nid, g1) = create NK_Start g in (nid, g1\<lparr>g_start := nid\<rparr>))"

definition gb_add :: "node_id \<Rightarrow> node_id \<Rightarrow> graph \<Rightarrow> node_id \<times> graph" where
  "gb_add a b = create_with NK_Add [a, b] 0 0"

definition gb_sub :: "node_id \<Rightarrow> node_id \<Rightarrow> graph \<Rightarrow> node_id \<times> graph" where
  "gb_sub a b = create_with NK_Sub [a, b] 0 0"

definition gb_mul :: "node_id \<Rightarrow> node_id \<Rightarrow> graph \<Rightarrow> node_id \<times> graph" where
  "gb_mul a b = create_with NK_Mul [a, b] 0 0"

definition gb_div :: "node_id \<Rightarrow> node_id \<Rightarrow> graph \<Rightarrow> node_id \<times> graph" where
  "gb_div a b = create_with NK_Div [a, b] 0 0"

definition gb_cmp_lt :: "node_id \<Rightarrow> node_id \<Rightarrow> graph \<Rightarrow> node_id \<times> graph" where
  "gb_cmp_lt a b = create_with NK_Lt [a, b] 0 0"

definition gb_if_node :: "node_id \<Rightarrow> graph \<Rightarrow> node_id \<times> graph" where
  "gb_if_node cond = create_with NK_If [cond] 0 0"

definition gb_return_node :: "node_id \<Rightarrow> graph \<Rightarrow> node_id \<times> graph" where
  "gb_return_node v = create_with NK_Return [v] 0 0"

definition gb_allocate :: "nat \<Rightarrow> graph \<Rightarrow> node_id \<times> graph" where
  "gb_allocate shape g =
     (let (nid, g1) = create NK_Allocate g in (nid, upd_side nid (\<lambda>s. s\<lparr>shape_id := shape\<rparr>) g1))"

definition gb_load_field :: "node_id \<Rightarrow> nat \<Rightarrow> u16 \<Rightarrow> graph \<Rightarrow> node_id \<times> graph" where
  "gb_load_field obj fid offset g =
     (let (nid, g1) = create_with NK_LoadField [obj] 0 0 g
      in (nid, upd_side nid (\<lambda>s. s\<lparr>field_id := fid, field_offset := offset\<rparr>) g1))"

definition gb_store_field :: "node_id \<Rightarrow> nat \<Rightarrow> u16 \<Rightarrow> node_id \<Rightarrow> graph \<Rightarrow> node_id \<times> graph" where
  "gb_store_field obj fid offset v g =
     (let (nid, g1) = create_with NK_StoreField [obj, v] 0 0 g
      in (nid, upd_side nid (\<lambda>s. s\<lparr>field_id := fid, field_offset := offset\<rparr>) g1))"

section \<open>Debug printing\<close>

definition show_ids :: "node_id list \<Rightarrow> string" where
  "show_ids ids = concat (map (\<lambda>x. ''%'' @ show_nat x @ '' '') ids)"

text \<open>\<^verbatim>\<open>if (!out.empty() && out.back() == ' ') out.pop_back();\<close>\<close>

definition pop_back_space :: "string \<Rightarrow> string" where
  "pop_back_space out = (if out \<noteq> [] \<and> last out = CHR '' '' then butlast out else out)"

definition dump_node :: "graph \<Rightarrow> node_id \<Rightarrow> string" where
  "dump_node g nid =
     (let n = node g nid;
          out = ''%'' @ show_nat nid @ '' = '' @ node_kind_name (n_kind n) @ '' '';
          out = out @ ''['' @ flags_to_string (n_flags n) @ '']'';
          out = (if n_type n \<noteq> Ty_Top then out @ '' type='' @ type_id_name (n_type n) else out);
          out = (if edge_count (n_data_inputs n) \<noteq> 0
                 then pop_back_space (out @ '' ins=('' @ show_ids (data_inputs g nid)) @ '')'' else out);
          out = (let c = ctrl_input g nid in if id_valid c then out @ '' ctrl=%'' @ show_nat c else out);
          out = (let e = effect_input g nid in if id_valid e then out @ '' eff=%'' @ show_nat e else out)
      in if node_has_state n then out @ '' state=#'' @ show_nat (n_state n) else out)"

definition dump :: "graph \<Rightarrow> string" where
  "dump g = concat (map (\<lambda>i. dump_node g (i + 1) @ [char_of (10 :: nat)]) [0..<g_size g])"

end
