(* ===== verification/Ir_Graph_Laws.thy ===== *)
theory Ir_Graph_Laws
  imports Ir_Graph
begin

text \<open>
  Correctness of the graph representation: the invariant that keeps the slices of different
  nodes apart in the shared edge pool (\<open>graph_wf\<close>), its preservation by every operation, and
  the refinement of an abstract graph in which every node owns its input list.
\<close>

section \<open>Well-formedness\<close>

definition slice_slots :: "edge_slice \<Rightarrow> nat list" where
  "slice_slots s = [first_edge s ..< first_edge s + edge_count s]"

definition node_slots :: "node \<Rightarrow> nat list" where
  "node_slots n =
     slice_slots (n_data_inputs n) @ slice_slots (n_ctrl_input n) @ slice_slots (n_effect_input n)"

definition all_slots :: "graph \<Rightarrow> nat list" where
  "all_slots g = concat (map node_slots (g_nodes g))"

definition graph_wf :: "graph \<Rightarrow> bool" where
  "graph_wf g \<longleftrightarrow>
     length (g_sides g) = length (g_nodes g)
     \<and> distinct (all_slots g)
     \<and> (\<forall>p \<in> set (all_slots g). p < length (g_pool g))
     \<and> (\<forall>n \<in> set (g_nodes g). edge_count (n_ctrl_input n) \<le> 1 \<and> edge_count (n_effect_input n) \<le> 1)"

lemma set_slice_slots: "set (slice_slots s) = {first_edge s ..< first_edge s + edge_count s}"
  by (auto simp: slice_slots_def)

lemma distinct_slice_slots [simp]: "distinct (slice_slots s)"
  by (simp add: slice_slots_def)

lemma slice_slots_empty [simp]: "slice_slots empty_slice = []"
  by (simp add: slice_slots_def empty_slice_def)

lemma node_in_set: "in_graph g nid \<Longrightarrow> node g nid \<in> set (g_nodes g)"
  by (auto simp: in_graph_def g_size_def node_def intro!: nth_mem)

lemma wf_node_slots:
  assumes "graph_wf g" "in_graph g nid"
  shows "set (node_slots (node g nid)) \<subseteq> {..<length (g_pool g)}"
    and "distinct (node_slots (node g nid))"
    and "edge_count (n_ctrl_input (node g nid)) \<le> 1"
    and "edge_count (n_effect_input (node g nid)) \<le> 1"
proof -
  have n: "node g nid \<in> set (g_nodes g)" using assms(2) by (rule node_in_set)
  then show "set (node_slots (node g nid)) \<subseteq> {..<length (g_pool g)}"
    using assms(1) by (auto simp: graph_wf_def all_slots_def)
  show "distinct (node_slots (node g nid))"
    using assms(1) n by (auto simp: graph_wf_def all_slots_def dest: distinct_concat_iff [THEN iffD1])
  show "edge_count (n_ctrl_input (node g nid)) \<le> 1" "edge_count (n_effect_input (node g nid)) \<le> 1"
    using assms(1) n by (auto simp: graph_wf_def)
qed

text \<open>Slices of distinct nodes do not overlap.\<close>

lemma wf_slots_disjoint:
  assumes wf: "graph_wf g" and i: "in_graph g i" and j: "in_graph g j" and ij: "i \<noteq> j"
  shows "set (node_slots (node g i)) \<inter> set (node_slots (node g j)) = {}"
proof -
  have gen: "set (f (xs ! a)) \<inter> set (f (xs ! b)) = {}"
    if "distinct (concat (map f xs))" "a < b" "b < length xs" for a b and f :: "node \<Rightarrow> nat list" and xs
  proof -
    have "xs = take b xs @ drop b xs" by simp
    then have "distinct (concat (map f (take b xs)) @ concat (map f (drop b xs)))"
      using that(1) by (metis concat_append map_append)
    moreover have "xs ! a \<in> set (take b xs)" using that by (auto simp: in_set_conv_nth)
    moreover have "xs ! b \<in> set (drop b xs)" using that by (metis Cons_nth_drop_Suc list.set_intros(1))
    ultimately show ?thesis by fastforce
  qed
  have d: "distinct (concat (map node_slots (g_nodes g)))"
    using wf by (simp add: graph_wf_def all_slots_def)
  show ?thesis
  proof (cases "i < j")
    case True
    then show ?thesis using gen [OF d, of "i - 1" "j - 1"] i j
      by (auto simp: in_graph_def g_size_def node_def)
  next
    case False
    then have "j - 1 < i - 1" "i - 1 < length (g_nodes g)"
      using i j ij by (auto simp: in_graph_def g_size_def)
    then show ?thesis using gen [OF d, of "j - 1" "i - 1"] by (auto simp: node_def)
  qed
qed

section \<open>Reading the pool\<close>

lemma pool_alloc_write: "pool_write (length p) xs (p @ replicate (length xs) 0) = p @ xs"
  by (simp add: pool_write_def)

lemma pool_get_append: "first + n \<le> length p \<Longrightarrow> pool_get first n (p @ q) = pool_get first n p"
  by (simp add: pool_get_def)

lemma pool_get_end: "pool_get (length p) (length q) (p @ q) = q"
  by (simp add: pool_get_def)

lemma pool_get_cong:
  assumes "length p = length q" "\<And>x. \<lbrakk> first \<le> x; x < first + n; x < length p \<rbrakk> \<Longrightarrow> p ! x = q ! x"
  shows "pool_get first n p = pool_get first n q"
  unfolding pool_get_def by (rule take_drop_nth_eqI) (use assms in auto)

lemma length_pool_get: "first + n \<le> length p \<Longrightarrow> length (pool_get first n p) = n"
  by (simp add: pool_get_def)

lemma nth_pool_get: "first + n \<le> length p \<Longrightarrow> i < n \<Longrightarrow> pool_get first n p ! i = p ! (first + i)"
  by (simp add: pool_get_def)

lemma pool_get_map_range:
  "first + n \<le> length p \<Longrightarrow> pool_get first n (map_range first n f p) = map f (pool_get first n p)"
  by (auto simp: pool_get_def map_range_def min_def)

lemma slice_bound:
  "set (slice_slots s) \<subseteq> {..<m} \<Longrightarrow> 0 < edge_count s \<Longrightarrow> first_edge s + edge_count s \<le> m"
  by (auto simp: set_slice_slots subset_iff dest!: spec [of _ "first_edge s + edge_count s - 1"])

section \<open>Node and side table updates\<close>

lemma in_graph_pos: "in_graph g nid \<Longrightarrow> nid - 1 < length (g_nodes g)"
  by (auto simp: in_graph_def g_size_def)

lemma in_graph_eq_iff: "in_graph g i \<Longrightarrow> in_graph g j \<Longrightarrow> i - 1 = j - 1 \<longleftrightarrow> i = j"
  by (auto simp: in_graph_def)

lemma size_upd [simp, graph_simps]:
  "g_size (upd_node nid f g) = g_size g" "g_size (upd_side nid h g) = g_size g"
  "g_size (g\<lparr>g_pool := p\<rparr>) = g_size g"
  by (simp_all add: g_size_def upd_node_def upd_side_def)

lemma in_graph_upd [simp, graph_simps]:
  "in_graph (upd_node nid f g) j = in_graph g j" "in_graph (upd_side nid h g) j = in_graph g j"
  "in_graph (g\<lparr>g_pool := p\<rparr>) j = in_graph g j"
  by (simp_all add: in_graph_def)

lemma node_upd [graph_simps]:
  "in_graph g nid \<Longrightarrow> in_graph g j \<Longrightarrow>
    node (upd_node nid f g) j = (if j = nid then f (node g nid) else node g j)"
  by (auto simp: node_def upd_node_def nth_list_update in_graph_pos in_graph_eq_iff in_graph_def g_size_def)

lemma node_upd_other [simp, graph_simps]:
  "node (upd_side nid h g) j = node g j" "node (g\<lparr>g_pool := p\<rparr>) j = node g j"
  by (simp_all add: node_def upd_side_def)

lemma side_upd [graph_simps]:
  "graph_wf g \<Longrightarrow> in_graph g nid \<Longrightarrow> in_graph g j \<Longrightarrow>
    side (upd_side nid h g) j = (if j = nid then h (side g nid) else side g j)"
  by (auto simp: side_def upd_side_def nth_list_update graph_wf_def in_graph_def g_size_def)

lemma side_upd_other [simp, graph_simps]:
  "side (upd_node nid f g) j = side g j" "side (g\<lparr>g_pool := p\<rparr>) j = side g j"
  by (simp_all add: side_def upd_node_def)

lemma pool_upd [simp]:
  "g_pool (upd_node nid f g) = g_pool g" "g_pool (upd_side nid h g) = g_pool g"
  by (simp_all add: upd_node_def upd_side_def)

lemma start_upd [simp]:
  "g_start (upd_node nid f g) = g_start g" "g_start (upd_side nid h g) = g_start g"
  by (simp_all add: upd_node_def upd_side_def)

section \<open>The abstract graph\<close>

text \<open>
  What a client sees of a node: its fields, its own input lists and its side data. An abstract
  graph is the list of these, in id order.
\<close>

record node_view =
  v_kind :: node_kind
  v_flags :: node_flags
  v_arity :: u8
  v_type :: type_id
  v_ins :: "node_id list"
  v_ctrl :: node_id
  v_effect :: node_id
  v_state :: nat
  v_side :: node_side

definition view :: "graph \<Rightarrow> node_id \<Rightarrow> node_view" where
  "view g nid =
     \<lparr>v_kind = n_kind (node g nid), v_flags = n_flags (node g nid),
      v_arity = n_arity_hint (node g nid), v_type = n_type (node g nid),
      v_ins = data_inputs g nid, v_ctrl = ctrl_input g nid, v_effect = effect_input g nid,
      v_state = n_state (node g nid), v_side = side g nid\<rparr>"

definition abs_graph :: "graph \<Rightarrow> node_view list" where
  "abs_graph g = map (view g) [1..<g_size g + 1]"

definition view_dead :: "node_view \<Rightarrow> bool" where
  "view_dead v = flags_has (v_flags v) NF_IsDead"

lemma length_abs_graph [simp]: "length (abs_graph g) = g_size g"
  by (simp add: abs_graph_def)

lemma abs_graph_nth: "in_graph g nid \<Longrightarrow> abs_graph g ! (nid - 1) = view g nid"
  by (auto simp: abs_graph_def in_graph_def simp del: upt_Suc)

lemma view_dead [simp]: "view_dead (view g nid) = node_is_dead (node g nid)"
  by (simp add: view_dead_def view_def node_is_dead_def)

text \<open>Two graphs agree when all their nodes do; the list form follows from the pointwise one.\<close>

lemma abs_graph_eqI:
  assumes "length vs = g_size g" "\<And>j. in_graph g j \<Longrightarrow> view g j = vs ! (j - 1)"
  shows "abs_graph g = vs"
proof (rule nth_equalityI)
  show "length (abs_graph g) = length vs" using assms(1) by simp
next
  fix i assume "i < length (abs_graph g)"
  then have "in_graph g (Suc i)" by (simp add: in_graph_def)
  then show "abs_graph g ! i = vs ! i"
    using assms(2) [of "Suc i"] abs_graph_nth [of g "Suc i"] by simp
qed

text \<open>The single id in a control or effect slice, or the invalid id.\<close>

definition slice_head :: "node_id list \<Rightarrow> edge_slice \<Rightarrow> node_id" where
  "slice_head p s = (if edge_count s = 0 then 0 else pool_get (first_edge s) 1 p ! 0)"

lemma input_defs:
  "data_inputs g nid = pool_get (first_edge (n_data_inputs (node g nid)))
     (edge_count (n_data_inputs (node g nid))) (g_pool g)"
  "ctrl_input g nid = slice_head (g_pool g) (n_ctrl_input (node g nid))"
  "effect_input g nid = slice_head (g_pool g) (n_effect_input (node g nid))"
  by (simp_all add: data_inputs_def ctrl_input_def effect_input_def slice_head_def Let_def)

text \<open>
  A write to the node table that keeps the three slices changes only the fields of that node;
  a write to the side table changes only its row.
\<close>

lemma data_inputs_upd_same [graph_simps]:
  assumes "in_graph g nid" "in_graph g j"
  shows "n_data_inputs (f (node g nid)) = n_data_inputs (node g nid) \<Longrightarrow>
      data_inputs (upd_node nid f g) j = data_inputs g j"
    and "n_ctrl_input (f (node g nid)) = n_ctrl_input (node g nid) \<Longrightarrow>
      ctrl_input (upd_node nid f g) j = ctrl_input g j"
    and "n_effect_input (f (node g nid)) = n_effect_input (node g nid) \<Longrightarrow>
      effect_input (upd_node nid f g) j = effect_input g j"
  using assms by (simp_all add: input_defs node_upd)

lemma inputs_upd_side [simp, graph_simps]:
  "data_inputs (upd_side nid h g) j = data_inputs g j"
  "ctrl_input (upd_side nid h g) j = ctrl_input g j"
  "effect_input (upd_side nid h g) j = effect_input g j"
  by (simp_all add: input_defs)

section \<open>Preservation of well-formedness\<close>

lemma g_nodes_upd [simp]: "g_nodes (upd_side nid h g) = g_nodes g"
  by (simp add: upd_side_def)

lemma wf_upd_side [graph_wf]: "graph_wf g \<Longrightarrow> graph_wf (upd_side nid h g)"
  by (simp add: graph_wf_def all_slots_def upd_side_def)

lemma wf_upd_node_slices [graph_wf]:
  assumes "graph_wf g" "in_graph g nid"
    "n_data_inputs (f (node g nid)) = n_data_inputs (node g nid)"
    "n_ctrl_input (f (node g nid)) = n_ctrl_input (node g nid)"
    "n_effect_input (f (node g nid)) = n_effect_input (node g nid)"
  shows "graph_wf (upd_node nid f g)"
proof -
  have slots: "node_slots (f (node g nid)) = node_slots (node g nid)"
    using assms(3-5) by (simp add: node_slots_def)
  then have all: "all_slots (upd_node nid f g) = all_slots g"
    using assms(2) by (simp add: all_slots_def upd_node_def map_update node_def list_update_same_conv
        in_graph_pos flip: map_update) (metis in_graph_pos list_update_id map_update nth_map)
  have "\<forall>n \<in> set (g_nodes (upd_node nid f g)). edge_count (n_ctrl_input n) \<le> 1 \<and> edge_count (n_effect_input n) \<le> 1"
    using assms wf_node_slots(3,4) [OF assms(1,2)]
    by (auto simp: upd_node_def graph_wf_def dest!: set_update_subset_insert [THEN subsetD])
  then show ?thesis
    using assms(1) unfolding graph_wf_def all by (simp add: upd_node_def)
qed

lemma or_flags_slices [simp]:
  "n_data_inputs (or_flags m n) = n_data_inputs n" "n_ctrl_input (or_flags m n) = n_ctrl_input n"
  "n_effect_input (or_flags m n) = n_effect_input n" "n_kind (or_flags m n) = n_kind n"
  "n_type (or_flags m n) = n_type n" "n_state (or_flags m n) = n_state n"
  "n_arity_hint (or_flags m n) = n_arity_hint n" "n_flags (or_flags m n) = n_flags n OR m"
  by (simp_all add: or_flags_def)

text \<open>Giving a node a fresh slice at the end of the pool.\<close>

lemma wf_fresh_slice:
  assumes wf: "graph_wf g" and i: "in_graph g nid"
    and slots: "set (node_slots (f (node g nid))) \<subseteq> set (node_slots (node g nid)) \<union> {length (g_pool g) ..< length (g_pool g) + length xs}"
    and dist: "distinct (node_slots (f (node g nid)))"
    and cnt: "edge_count (n_ctrl_input (f (node g nid))) \<le> 1" "edge_count (n_effect_input (f (node g nid))) \<le> 1"
  shows "graph_wf (upd_node nid f (g\<lparr>g_pool := g_pool g @ xs\<rparr>))" (is "graph_wf ?g")
proof -
  have nodes: "g_nodes ?g = (g_nodes g)[nid - 1 := f (node g nid)]" by (simp add: upd_node_def)
  have bound: "set (all_slots g) \<subseteq> {..<length (g_pool g)}" using wf by (auto simp: graph_wf_def)
  have "distinct (all_slots ?g)"
    unfolding all_slots_def nodes
  proof (rule distinct_concat_map_update)
    show "distinct (concat (map node_slots (g_nodes g)))" using wf by (simp add: graph_wf_def all_slots_def)
    show "nid - 1 < length (g_nodes g)" using i by (rule in_graph_pos)
    show "set (node_slots (f (node g nid))) \<inter> set (concat (map node_slots (g_nodes g)))
        \<subseteq> set (node_slots (g_nodes g ! (nid - 1)))"
      using slots bound by (fastforce simp: all_slots_def node_def)
  qed (rule dist)
  moreover have "p < length (g_pool ?g)" if "p \<in> set (all_slots ?g)" for p
  proof -
    have "set (all_slots ?g) \<subseteq> set (all_slots g) \<union> set (node_slots (f (node g nid)))"
      unfolding all_slots_def nodes map_update using in_graph_pos [OF i]
      by (intro concat_list_update_subset) simp
    then show ?thesis using that slots bound wf_node_slots(1) [OF wf i] by force
  qed
  ultimately show ?thesis
    using wf cnt by (auto simp: graph_wf_def nodes dest!: set_update_subset_insert [THEN subsetD])
      (simp_all add: upd_node_def)
qed

section \<open>Operations on existing nodes\<close>

lemma set_data_inputs_eq:
  "set_data_inputs nid xs g =
     upd_node nid (\<lambda>n. n\<lparr>n_data_inputs := \<lparr>first_edge = length (g_pool g), edge_count = length xs\<rparr>\<rparr>)
       (g\<lparr>g_pool := g_pool g @ xs\<rparr>)"
  by (simp add: set_data_inputs_def pool_alloc_def pool_alloc_write)

lemma set_ctrl_input_eq:
  "set_ctrl_input nid c g =
     upd_node nid (\<lambda>n. n\<lparr>n_ctrl_input := \<lparr>first_edge = length (g_pool g), edge_count = 1\<rparr>\<rparr>)
       (g\<lparr>g_pool := g_pool g @ [c]\<rparr>)"
  using pool_alloc_write [of "g_pool g" "[c]"] by (simp add: set_ctrl_input_def pool_alloc_def)

lemma set_effect_input_eq:
  "set_effect_input nid c g =
     upd_node nid (\<lambda>n. n\<lparr>n_effect_input := \<lparr>first_edge = length (g_pool g), edge_count = 1\<rparr>\<rparr>)
       (g\<lparr>g_pool := g_pool g @ [c]\<rparr>)"
  using pool_alloc_write [of "g_pool g" "[c]"] by (simp add: set_effect_input_def pool_alloc_def)

lemmas set_input_eqs = set_data_inputs_eq set_ctrl_input_eq set_effect_input_eq

lemma in_graph_set [simp, graph_simps]:
  "in_graph (set_data_inputs nid xs g) j = in_graph g j"
  "in_graph (set_ctrl_input nid c g) j = in_graph g j"
  "in_graph (set_effect_input nid c g) j = in_graph g j"
  "g_size (set_data_inputs nid xs g) = g_size g"
  "g_size (set_ctrl_input nid c g) = g_size g"
  "g_size (set_effect_input nid c g) = g_size g"
  by (simp_all add: set_input_eqs)

lemma distinct_fresh:
  assumes "set (D @ C @ E) \<subseteq> {..<L}" "distinct (D @ C @ E)"
  shows "distinct ([L ..< L + n] @ C @ E)" "distinct (D @ [L ..< L + n] @ E)"
    "distinct (D @ C @ [L ..< L + n])"
  using assms by (auto simp: subset_iff dest!: bspec)

lemma slice_slots_fresh [simp]:
  "slice_slots \<lparr>first_edge = l, edge_count = n\<rparr> = [l ..< l + n]"
  by (simp add: slice_slots_def)

lemma wf_set_inputs [graph_wf]:
  assumes "graph_wf g" "in_graph g nid"
  shows "graph_wf (set_data_inputs nid xs g)"
    and "graph_wf (set_ctrl_input nid c g)"
    and "graph_wf (set_effect_input nid c g)"
proof -
  note sl = wf_node_slots [OF assms]
  note fresh = distinct_fresh [OF sl(1) [unfolded node_slots_def] sl(2) [unfolded node_slots_def]]
  show "graph_wf (set_data_inputs nid xs g)"
    unfolding set_input_eqs
    by (rule wf_fresh_slice [OF assms]) (use fresh(1) sl(3,4) in \<open>auto simp: node_slots_def\<close>)
  show "graph_wf (set_ctrl_input nid c g)"
    unfolding set_input_eqs
    by (rule wf_fresh_slice [OF assms]) (use fresh(2) [of 1] sl(4) in \<open>auto simp: node_slots_def\<close>)
  show "graph_wf (set_effect_input nid c g)"
    unfolding set_input_eqs
    by (rule wf_fresh_slice [OF assms]) (use fresh(3) [of 1] sl(3) in \<open>auto simp: node_slots_def\<close>)
qed

lemma wf_slice_bounds:
  assumes "graph_wf g" "in_graph g j"
  shows "0 < edge_count (n_data_inputs (node g j)) \<Longrightarrow>
      first_edge (n_data_inputs (node g j)) + edge_count (n_data_inputs (node g j)) \<le> length (g_pool g)"
    and "0 < edge_count (n_ctrl_input (node g j)) \<Longrightarrow>
      first_edge (n_ctrl_input (node g j)) + 1 \<le> length (g_pool g)"
    and "0 < edge_count (n_effect_input (node g j)) \<Longrightarrow>
      first_edge (n_effect_input (node g j)) + 1 \<le> length (g_pool g)"
  using wf_node_slots [OF assms] slice_bound [of _ "length (g_pool g)"]
  by (auto simp: node_slots_def; force)+

lemma pool_get_append_wf:
  "(0 < n \<Longrightarrow> first + n \<le> length p) \<Longrightarrow> pool_get first n (p @ q) = pool_get first n p"
  by (cases "n = 0") (simp_all add: pool_get_def)

lemma slice_head_append_wf:
  "(0 < edge_count s \<Longrightarrow> first_edge s + 1 \<le> length p) \<Longrightarrow> slice_head (p @ q) s = slice_head p s"
  by (auto simp: slice_head_def pool_get_append)

text \<open>Growing the pool is invisible.\<close>

lemma inputs_grow_pool:
  assumes "graph_wf g" "in_graph g j"
  shows "data_inputs (g\<lparr>g_pool := g_pool g @ xs\<rparr>) j = data_inputs g j"
    and "ctrl_input (g\<lparr>g_pool := g_pool g @ xs\<rparr>) j = ctrl_input g j"
    and "effect_input (g\<lparr>g_pool := g_pool g @ xs\<rparr>) j = effect_input g j"
  using wf_slice_bounds [OF assms]
  by (simp_all add: input_defs pool_get_append_wf slice_head_append_wf)

lemma slice_head_end [simp]:
  "slice_head (p @ [c]) \<lparr>first_edge = length p, edge_count = Suc 0\<rparr> = c"
  by (simp add: slice_head_def pool_get_def)

lemma view_set_data_inputs [graph_simps]:
  assumes "graph_wf g" "in_graph g nid" "in_graph g j"
  shows "view (set_data_inputs nid xs g) j =
     (if j = nid then (view g j)\<lparr>v_ins := xs\<rparr> else view g j)"
  using assms inputs_grow_pool [OF assms(1,3), of xs]
  by (auto simp: set_input_eqs view_def node_upd input_defs pool_get_end)

lemma view_set_ctrl_input [graph_simps]:
  assumes "graph_wf g" "in_graph g nid" "in_graph g j"
  shows "view (set_ctrl_input nid c g) j =
     (if j = nid then (view g j)\<lparr>v_ctrl := c\<rparr> else view g j)"
  using assms inputs_grow_pool [OF assms(1,3), of "[c]"]
  by (auto simp: set_input_eqs view_def node_upd input_defs)

lemma view_set_effect_input [graph_simps]:
  assumes "graph_wf g" "in_graph g nid" "in_graph g j"
  shows "view (set_effect_input nid c g) j =
     (if j = nid then (view g j)\<lparr>v_effect := c\<rparr> else view g j)"
  using assms inputs_grow_pool [OF assms(1,3), of "[c]"]
  by (auto simp: set_input_eqs view_def node_upd input_defs)

lemma mark_dead_basic [simp, graph_simps]:
  "in_graph (mark_dead nid g) j = in_graph g j" "g_size (mark_dead nid g) = g_size g"
  "side (mark_dead nid g) j = side g j"
  by (simp_all add: mark_dead_def)

lemma wf_mark_dead [graph_wf]: "graph_wf g \<Longrightarrow> in_graph g nid \<Longrightarrow> graph_wf (mark_dead nid g)"
  by (simp add: mark_dead_def wf_upd_node_slices)

lemma node_mark_dead [graph_simps]:
  "in_graph g nid \<Longrightarrow> in_graph g j \<Longrightarrow>
    node (mark_dead nid g) j = (if j = nid then or_flags NF_IsDead (node g j) else node g j)"
  by (simp add: mark_dead_def node_upd)

lemma inputs_mark_dead [graph_simps]:
  assumes "in_graph g nid" "in_graph g j"
  shows "data_inputs (mark_dead nid g) j = data_inputs g j"
    and "ctrl_input (mark_dead nid g) j = ctrl_input g j"
    and "effect_input (mark_dead nid g) j = effect_input g j"
  using assms by (simp_all add: mark_dead_def data_inputs_upd_same)

lemma view_mark_dead [graph_simps]:
  "in_graph g nid \<Longrightarrow> in_graph g j \<Longrightarrow>
    view (mark_dead nid g) j =
      (if j = nid then (view g j)\<lparr>v_flags := v_flags (view g j) OR NF_IsDead\<rparr> else view g j)"
  by (simp add: view_def inputs_mark_dead node_mark_dead)

section \<open>Rewiring uses\<close>

definition subst_id :: "node_id \<Rightarrow> node_id \<Rightarrow> node_id \<Rightarrow> node_id" where
  "subst_id old_id new_id x = (if x = old_id then new_id else x)"

lemma subst_id_twice [simp]: "subst_id a b (subst_id a b x) = subst_id a b x"
  by (simp add: subst_id_def)

text \<open>Whether a pool slot is a data input of one of the first \<open>k\<close> nodes that is alive.\<close>

definition live_data_slot :: "graph \<Rightarrow> nat \<Rightarrow> nat \<Rightarrow> bool" where
  "live_data_slot g k p \<longleftrightarrow>
     (\<exists>i<k. \<not> node_is_dead (g_nodes g ! i) \<and> p \<in> set (slice_slots (n_data_inputs (g_nodes g ! i))))"

lemma replace_uses_in_eq:
  "replace_uses_in a b i g =
     (let s = n_data_inputs (g_nodes g ! i)
      in if node_is_dead (g_nodes g ! i) then g
         else g\<lparr>g_pool := map_range (first_edge s) (edge_count s) (subst_id a b) (g_pool g)\<rparr>)"
  by (auto simp: replace_uses_in_def Let_def map_range_def subst_id_def [abs_def])

lemma replace_fold:
  "g_nodes (fold (replace_uses_in a b) [0..<k] g) = g_nodes g \<and>
   g_sides (fold (replace_uses_in a b) [0..<k] g) = g_sides g \<and>
   g_start (fold (replace_uses_in a b) [0..<k] g) = g_start g \<and>
   length (g_pool (fold (replace_uses_in a b) [0..<k] g)) = length (g_pool g) \<and>
   (\<forall>p < length (g_pool g). g_pool (fold (replace_uses_in a b) [0..<k] g) ! p =
      (if live_data_slot g k p then subst_id a b (g_pool g ! p) else g_pool g ! p))"
proof (induction k)
  case 0
  then show ?case by (simp add: live_data_slot_def)
next
  case (Suc k)
  have "live_data_slot g (Suc k) p \<longleftrightarrow> live_data_slot g k p \<or>
      (\<not> node_is_dead (g_nodes g ! k) \<and> p \<in> set (slice_slots (n_data_inputs (g_nodes g ! k))))" for p
    by (auto simp: live_data_slot_def less_Suc_eq)
  with Suc show ?case
    by (auto simp: replace_uses_in_eq Let_def nth_map_range set_slice_slots)
qed

lemma replace_all_uses_basic [simp, graph_simps]:
  "g_nodes (replace_all_uses a b g) = g_nodes g" "g_sides (replace_all_uses a b g) = g_sides g"
  "length (g_pool (replace_all_uses a b g)) = length (g_pool g)"
  "node (replace_all_uses a b g) j = node g j" "side (replace_all_uses a b g) j = side g j"
  "g_size (replace_all_uses a b g) = g_size g" "in_graph (replace_all_uses a b g) j = in_graph g j"
  "g_start (replace_all_uses a b g) = g_start g"
  using replace_fold [of a b "g_size g" g]
  by (simp_all add: replace_all_uses_def node_def side_def g_size_def in_graph_def)

lemma wf_replace_all_uses [graph_wf]: "graph_wf g \<Longrightarrow> graph_wf (replace_all_uses a b g)"
  by (simp add: graph_wf_def all_slots_def)

lemma live_data_slot_iff:
  "live_data_slot g (g_size g) p \<longleftrightarrow>
     (\<exists>i. in_graph g i \<and> \<not> node_is_dead (node g i) \<and> p \<in> set (slice_slots (n_data_inputs (node g i))))"
  (is "?l \<longleftrightarrow> ?r")
proof
  assume ?l
  then obtain i where i: "i < g_size g" "\<not> node_is_dead (g_nodes g ! i)"
    "p \<in> set (slice_slots (n_data_inputs (g_nodes g ! i)))" by (auto simp: live_data_slot_def)
  then show ?r by (intro exI [of _ "Suc i"]) (simp add: in_graph_def node_def)
next
  assume ?r
  then obtain i where i: "in_graph g i" "\<not> node_is_dead (node g i)"
    "p \<in> set (slice_slots (n_data_inputs (node g i)))" by auto
  then show ?l unfolding live_data_slot_def
    by (intro exI [of _ "i - 1"]) (auto simp: in_graph_def node_def)
qed

text \<open>The slots of a node are live data slots exactly when they are its own data inputs and it lives.\<close>

lemma live_data_slot_own:
  assumes "graph_wf g" "in_graph g j" "p \<in> set (node_slots (node g j))"
  shows "live_data_slot g (g_size g) p \<longleftrightarrow>
     \<not> node_is_dead (node g j) \<and> p \<in> set (slice_slots (n_data_inputs (node g j)))"
proof -
  have "i = j" if "in_graph g i" "p \<in> set (slice_slots (n_data_inputs (node g i)))" for i
    using wf_slots_disjoint [OF assms(1) that(1) assms(2)] that(2) assms(3)
    by (auto simp: node_slots_def)
  then show ?thesis using assms(2) by (auto simp: live_data_slot_iff)
qed

lemma pool_replace_all_uses:
  "p < length (g_pool g) \<Longrightarrow> g_pool (replace_all_uses a b g) ! p =
     (if live_data_slot g (g_size g) p then subst_id a b (g_pool g ! p) else g_pool g ! p)"
  using replace_fold [of a b "g_size g" g] by (simp add: replace_all_uses_def)

lemma inputs_replace_all_uses [graph_simps]:
  assumes wf: "graph_wf g" and j: "in_graph g j"
  shows "data_inputs (replace_all_uses a b g) j =
      (if node_is_dead (node g j) then data_inputs g j else map (subst_id a b) (data_inputs g j))"
    and "ctrl_input (replace_all_uses a b g) j = ctrl_input g j"
    and "effect_input (replace_all_uses a b g) j = effect_input g j"
proof -
  let ?h = "replace_all_uses a b g" and ?n = "node g j"
  note sl = wf_node_slots [OF assms]
  have pool: "g_pool ?h ! p = (if \<not> node_is_dead ?n \<and> p \<in> set (slice_slots (n_data_inputs ?n))
      then subst_id a b (g_pool g ! p) else g_pool g ! p)" if "p \<in> set (node_slots ?n)" for p
    using that sl(1) live_data_slot_own [OF wf j that] by (auto simp: pool_replace_all_uses)
  have disj: "set (slice_slots (n_data_inputs ?n)) \<inter> set (slice_slots (n_ctrl_input ?n)) = {}"
    "set (slice_slots (n_data_inputs ?n)) \<inter> set (slice_slots (n_effect_input ?n)) = {}"
    using sl(2) by (auto simp: node_slots_def)
  have sub: "set (slice_slots (n_ctrl_input ?n)) \<subseteq> set (node_slots ?n)"
    "set (slice_slots (n_effect_input ?n)) \<subseteq> set (node_slots ?n)"
    by (auto simp: node_slots_def)
  have head: "slice_head (g_pool ?h) s = slice_head (g_pool g) s"
    if "set (slice_slots s) \<subseteq> set (node_slots ?n)" "set (slice_slots (n_data_inputs ?n)) \<inter> set (slice_slots s) = {}" for s
  proof (cases "edge_count s = 0")
    case False
    then have in_s: "first_edge s \<in> set (slice_slots s)" by (simp add: set_slice_slots)
    then have b: "first_edge s < length (g_pool g)" using that(1) sl(1) by auto
    have "first_edge s \<in> set (node_slots ?n)" "first_edge s \<notin> set (slice_slots (n_data_inputs ?n))"
      using in_s that by blast+
    then have "g_pool ?h ! first_edge s = g_pool g ! first_edge s"
      using pool [of "first_edge s"] by simp
    then show ?thesis using b by (simp add: slice_head_def nth_pool_get)
  qed (simp add: slice_head_def)
  show "ctrl_input ?h j = ctrl_input g j" "effect_input ?h j = effect_input g j"
    using head [OF sub(1) disj(1)] head [OF sub(2) disj(2)] by (simp_all add: input_defs)
  let ?f = "first_edge (n_data_inputs ?n)" and ?c = "edge_count (n_data_inputs ?n)"
  show "data_inputs ?h j = (if node_is_dead ?n then data_inputs g j else map (subst_id a b) (data_inputs g j))"
  proof (cases "?c = 0")
    case False
    then have bd: "?f + ?c \<le> length (g_pool g)" using wf_slice_bounds(1) [OF assms] by simp
    have "g_pool ?h ! (?f + i) = (if node_is_dead ?n then g_pool g ! (?f + i) else subst_id a b (g_pool g ! (?f + i)))"
      if "i < ?c" for i
      using pool [of "?f + i"] that by (auto simp: node_slots_def set_slice_slots)
    then show ?thesis using bd
      by (intro nth_equalityI) (auto simp: input_defs length_pool_get nth_pool_get)
  qed (simp add: input_defs pool_get_def)
qed

lemma view_replace_all_uses [graph_simps]:
  assumes "graph_wf g" "in_graph g j"
  shows "view (replace_all_uses a b g) j =
     (if node_is_dead (node g j) then view g j
      else (view g j)\<lparr>v_ins := map (subst_id a b) (v_ins (view g j))\<rparr>)"
  using inputs_replace_all_uses [OF assms] by (simp add: view_def)

text \<open>Rewiring a single slot.\<close>

lemma replace_one_use_cases:
  "replace_one_use a b user slot g =
     (if in_graph g user \<and> \<not> node_is_dead (node g user)
         \<and> slot < edge_count (n_data_inputs (node g user))
         \<and> g_pool g ! (first_edge (n_data_inputs (node g user)) + slot) = a
      then (True, g\<lparr>g_pool := (g_pool g)[first_edge (n_data_inputs (node g user)) + slot := b]\<rparr>)
      else (False, g))"
  by (auto simp: replace_one_use_def id_valid_def in_graph_def node_def Let_def)

lemma view_replace_one_use [graph_simps]:
  assumes wf: "graph_wf g" and j: "in_graph g j" and user: "in_graph g user"
    and alive: "\<not> node_is_dead (node g user)"
    and slot: "slot < length (data_inputs g user)" "data_inputs g user ! slot = a"
  shows "fst (replace_one_use a b user slot g)"
    and "view (snd (replace_one_use a b user slot g)) j =
      (if j = user then (view g j)\<lparr>v_ins := (v_ins (view g j))[slot := b]\<rparr> else view g j)"
proof -
  let ?s = "n_data_inputs (node g user)"
  let ?q = "first_edge ?s + slot"
  have c: "slot < edge_count ?s" using slot(1) by (simp add: input_defs pool_get_def)
  then have bd: "first_edge ?s + edge_count ?s \<le> length (g_pool g)" using wf_slice_bounds(1) [OF wf user] by simp
  have at: "g_pool g ! ?q = a" using slot c bd by (simp add: input_defs nth_pool_get)
  have eq: "replace_one_use a b user slot g = (True, g\<lparr>g_pool := (g_pool g)[?q := b]\<rparr>)"
    using user alive c at by (simp add: replace_one_use_cases)
  then show "fst (replace_one_use a b user slot g)" by simp
  have own: "?q \<in> set (slice_slots ?s)" using c by (simp add: set_slice_slots)
  let ?g = "g\<lparr>g_pool := (g_pool g)[?q := b]\<rparr>"
  have other: "pool_get (first_edge s) (edge_count s) ((g_pool g)[?q := b]) = pool_get (first_edge s) (edge_count s) (g_pool g)"
    "slice_head ((g_pool g)[?q := b]) s = slice_head (g_pool g) s"
    if "?q \<notin> set (slice_slots s)" for s
  proof -
    have gen: "pool_get (first_edge s) m ((g_pool g)[?q := b]) = pool_get (first_edge s) m (g_pool g)"
      if "m \<le> edge_count s" for m
      by (rule pool_get_cong) (use \<open>?q \<notin> set (slice_slots s)\<close> that in \<open>auto simp: set_slice_slots nth_list_update\<close>)
    show "pool_get (first_edge s) (edge_count s) ((g_pool g)[?q := b]) = pool_get (first_edge s) (edge_count s) (g_pool g)"
      by (rule gen) simp
    show "slice_head ((g_pool g)[?q := b]) s = slice_head (g_pool g) s"
      using gen [of 1] by (auto simp: slice_head_def)
  qed
  show "view (snd (replace_one_use a b user slot g)) j =
      (if j = user then (view g j)\<lparr>v_ins := (v_ins (view g j))[slot := b]\<rparr> else view g j)"
  proof (cases "j = user")
    case True
    have "?q \<notin> set (slice_slots (n_ctrl_input (node g user)))" "?q \<notin> set (slice_slots (n_effect_input (node g user)))"
      using wf_node_slots(2) [OF wf user] own by (auto simp: node_slots_def)
    moreover have "pool_get (first_edge ?s) (edge_count ?s) ((g_pool g)[?q := b])
        = (pool_get (first_edge ?s) (edge_count ?s) (g_pool g))[slot := b]"
      using c bd by (intro nth_equalityI) (auto simp: length_pool_get nth_pool_get nth_list_update)
    ultimately show ?thesis using True
      by (simp add: eq view_def input_defs other)
  next
    case False
    then have "?q \<notin> set (node_slots (node g j))"
      using wf_slots_disjoint [OF wf user j] own by (auto simp: node_slots_def)
    then show ?thesis using False
      by (simp add: eq view_def input_defs other node_slots_def)
  qed
qed

lemma replace_one_use_refuses:
  "\<not> in_graph g user \<or> node_is_dead (node g user) \<or> edge_count (n_data_inputs (node g user)) \<le> slot \<Longrightarrow>
    replace_one_use a b user slot g = (False, g)"
  by (auto simp: replace_one_use_cases)

section \<open>Node creation\<close>

definition new_view :: "node_kind \<Rightarrow> node_view" where
  "new_view k =
     \<lparr>v_kind = k, v_flags = create_flags (lookup_node_kind_info k),
      v_arity = nki_num_data_inputs (lookup_node_kind_info k), v_type = Ty_Top, v_ins = [],
      v_ctrl = 0, v_effect = 0, v_state = 0, v_side = default_side\<rparr>"

lemma create_fst [simp]: "fst (create k g) = g_size g + 1"
  by (simp add: create_def allocate_id_def g_size_def Let_def)

lemma create_pair: "create k g = (g_size g + 1, snd (create k g))"
  by (simp add: prod_eq_iff)

lemma create_snd:
  "snd (create k g) = g\<lparr>g_nodes := g_nodes g @
      [default_node\<lparr>n_kind := k, n_flags := create_flags (lookup_node_kind_info k),
                    n_arity_hint := nki_num_data_inputs (lookup_node_kind_info k)\<rparr>],
      g_sides := g_sides g @ [default_side]\<rparr>"
  by (simp add: create_def allocate_id_def Let_def upd_node_def node_def list_update_append)

lemma create_size [simp, graph_simps]:
  "g_size (snd (create k g)) = g_size g + 1"
  "in_graph (snd (create k g)) j \<longleftrightarrow> in_graph g j \<or> j = g_size g + 1"
  by (auto simp: create_snd g_size_def in_graph_def)

lemma default_node_slots [simp]: "node_slots (default_node\<lparr>n_kind := k, n_flags := f, n_arity_hint := a\<rparr>) = []"
  by (simp add: node_slots_def default_node_def)

lemma wf_create [graph_wf]: "graph_wf g \<Longrightarrow> graph_wf (snd (create k g))"
  by (auto simp: graph_wf_def create_snd all_slots_def) (simp_all add: default_node_def empty_slice_def)

lemma view_create [graph_simps]:
  assumes "graph_wf g" "in_graph (snd (create k g)) j"
  shows "view (snd (create k g)) j = (if j = g_size g + 1 then new_view k else view g j)"
  using assms
  by (auto simp: view_def new_view_def input_defs node_def side_def create_snd nth_append graph_wf_def
      in_graph_def g_size_def default_node_def pool_get_def slice_head_def empty_slice_def)

lemma create_with_fst [simp]: "fst (create_with k ins c e g) = g_size g + 1"
  unfolding create_with_def by (subst create_pair) (simp add: Let_def)

lemma create_with_snd:
  "snd (create_with k ins c e g) =
     (let n = g_size g + 1; g2 = set_data_inputs n ins (snd (create k g));
          g3 = (if id_valid c then set_ctrl_input n c g2 else g2)
      in if id_valid e then set_effect_input n e g3 else g3)"
  unfolding create_with_def by (subst create_pair) (simp add: Let_def)

lemma create_with_size [simp, graph_simps]:
  "g_size (snd (create_with k ins c e g)) = g_size g + 1"
  "in_graph (snd (create_with k ins c e g)) j \<longleftrightarrow> in_graph g j \<or> j = g_size g + 1"
  by (simp_all add: create_with_snd Let_def)

lemma wf_create_with [graph_wf]: "graph_wf g \<Longrightarrow> graph_wf (snd (create_with k ins c e g))"
  by (simp add: create_with_snd Let_def graph_wf)

lemma view_create_with [graph_simps]:
  assumes "graph_wf g" "in_graph (snd (create_with k ins c e g)) j"
  shows "view (snd (create_with k ins c e g)) j =
     (if j = g_size g + 1 then (new_view k)\<lparr>v_ins := ins, v_ctrl := c, v_effect := e\<rparr> else view g j)"
proof -
  have new: "(new_view k)\<lparr>v_ins := ins\<rparr> = (new_view k)\<lparr>v_ins := ins, v_ctrl := 0\<rparr>"
    "(new_view k)\<lparr>v_ins := ins, v_ctrl := c\<rparr> = (new_view k)\<lparr>v_ins := ins, v_ctrl := c, v_effect := 0\<rparr>" for c
    by (simp_all add: new_view_def)
  show ?thesis
    using assms new
    by (auto simp: create_with_snd Let_def graph_wf view_set_data_inputs view_set_ctrl_input
        view_set_effect_input view_create id_valid_def split: if_splits)
qed

end
