(* ===== verification/Ir_Verifier.thy ===== *)
theory Ir_Verifier
  imports Ir_Graph_Laws
begin

text \<open>
  \<^verbatim>\<open>ir/Verifier.hpp\<close> and \<^verbatim>\<open>ir/Verifier.cpp\<close>: the graph verifier, which collects one message per
  violation and fails when there is any. Its declarative specification is \<open>verifier_ok\<close>.
\<close>

section \<open>The four checks\<close>

text \<open>The ids of a graph in the order of the loops \<^verbatim>\<open>for (i = 0; i < g.size(); ++i)\<close>.\<close>

definition node_ids :: "graph \<Rightarrow> node_id list" where
  "node_ids g = [1..<g_size g + 1]"

definition node_prefix :: "graph \<Rightarrow> node_id \<Rightarrow> string" where
  "node_prefix g nid =
     ''node %'' @ show_nat nid @ '' ('' @ node_kind_name (n_kind (node g nid)) @ ''): ''"

definition check_no_dangling_node :: "graph \<Rightarrow> node_id \<Rightarrow> string list" where
  "check_no_dangling_node g nid =
     map (\<lambda>inp. node_prefix g nid @ ''dangling data input %'' @ show_nat inp)
         (filter (\<lambda>inp. \<not> id_valid inp \<or> inp > g_size g) (data_inputs g nid))
     @ (let c = ctrl_input g nid
        in if id_valid c \<and> c > g_size g
           then [node_prefix g nid @ ''dangling ctrl input %'' @ show_nat c] else [])
     @ (let e = effect_input g nid
        in if id_valid e \<and> e > g_size g
           then [node_prefix g nid @ ''dangling effect input %'' @ show_nat e] else [])"

definition check_no_dangling :: "graph \<Rightarrow> string list" where
  "check_no_dangling g = concat (map (check_no_dangling_node g) (node_ids g))"

definition check_effect_input_node :: "graph \<Rightarrow> node_id \<Rightarrow> string list" where
  "check_effect_input_node g nid =
     (let n = node g nid
      in if \<not> node_is_effect n then []
         else if n_kind n = NK_Start then []
         else if n_kind n = NK_Loop then []
         else if \<not> id_valid (effect_input g nid)
         then [node_prefix g nid @ ''Effect flag set but no effect input'']
         else [])"

definition check_pure_no_effect_node :: "graph \<Rightarrow> node_id \<Rightarrow> string list" where
  "check_pure_no_effect_node g nid =
     (let n = node g nid
      in if \<not> node_is_pure n then []
         else if node_is_effect n then []
         else let e = effect_input g nid in
           if id_valid e
           then [node_prefix g nid @ ''Pure flag set but has effect input %'' @ show_nat e]
           else [])"

definition check_effect_chain :: "graph \<Rightarrow> string list" where
  "check_effect_chain g =
     concat (map (check_effect_input_node g) (node_ids g))
     @ concat (map (check_pure_no_effect_node g) (node_ids g))"

definition check_guards_have_framestate :: "graph \<Rightarrow> string list" where
  "check_guards_have_framestate g =
     concat (map (\<lambda>nid. let n = node g nid in
         if \<not> node_is_guard n then []
         else if n_state n = 0
         then [node_prefix g nid @ ''IsGuard set but no FrameState attached'']
         else []) (node_ids g))"

definition dead_refs_from :: "graph \<Rightarrow> node_id \<Rightarrow> node_id \<Rightarrow> string list" where
  "dead_refs_from g nid other =
     (let msg = (\<lambda>what. ''node %'' @ show_nat nid @ '' marked IsDead but referenced by %''
                        @ show_nat other @ what)
      in if nid = other then []
         else if node_is_dead (node g other) then []
         else map (\<lambda>_. msg '' data input'') (filter (\<lambda>inp. inp = nid) (data_inputs g other))
              @ (if ctrl_input g other = nid then [msg '' ctrl input''] else [])
              @ (if effect_input g other = nid then [msg '' effect input''] else []))"

definition check_dead_node :: "graph \<Rightarrow> node_id \<Rightarrow> string list" where
  "check_dead_node g nid =
     (if \<not> node_is_dead (node g nid) then []
      else concat (map (dead_refs_from g nid) (node_ids g)))"

definition check_dead_not_referenced :: "graph \<Rightarrow> string list" where
  "check_dead_not_referenced g = concat (map (check_dead_node g) (node_ids g))"

definition verifier_errors :: "graph \<Rightarrow> string list" where
  "verifier_errors g =
     check_no_dangling g @ check_effect_chain g @ check_guards_have_framestate g
     @ check_dead_not_referenced g"

definition newline :: string where
  "newline = [char_of (10 :: nat)]"

definition verify_graph :: "graph \<Rightarrow> unit result" where
  "verify_graph g =
     (let errors = verifier_errors g
      in if errors \<noteq> []
         then Inl (make_error_verification
           (''graph verification failed:'' @ newline
            @ concat (map (\<lambda>e. ''  - '' @ e @ newline) errors)))
         else Inr ())"

text \<open>The verifier runs in debug builds only (\<^verbatim>\<open>NDEBUG\<close> not defined).\<close>

definition verify_if_enabled :: "bool \<Rightarrow> graph \<Rightarrow> unit result" where
  "verify_if_enabled debug g = (if \<not> debug then Inr () else verify_graph g)"

section \<open>Declarative specification\<close>

definition no_dangling :: "graph \<Rightarrow> bool" where
  "no_dangling g \<longleftrightarrow> (\<forall>j. in_graph g j \<longrightarrow>
     (\<forall>x \<in> set (data_inputs g j). in_graph g x)
     \<and> (ctrl_input g j \<noteq> 0 \<longrightarrow> in_graph g (ctrl_input g j))
     \<and> (effect_input g j \<noteq> 0 \<longrightarrow> in_graph g (effect_input g j)))"

definition effects_chained :: "graph \<Rightarrow> bool" where
  "effects_chained g \<longleftrightarrow> (\<forall>j. in_graph g j \<longrightarrow>
     (node_is_effect (node g j) \<and> n_kind (node g j) \<noteq> NK_Start \<and> n_kind (node g j) \<noteq> NK_Loop
        \<longrightarrow> effect_input g j \<noteq> 0)
     \<and> (node_is_pure (node g j) \<and> \<not> node_is_effect (node g j) \<longrightarrow> effect_input g j = 0))"

definition guards_have_state :: "graph \<Rightarrow> bool" where
  "guards_have_state g \<longleftrightarrow>
     (\<forall>j. in_graph g j \<longrightarrow> node_is_guard (node g j) \<longrightarrow> n_state (node g j) \<noteq> 0)"

definition dead_unreferenced :: "graph \<Rightarrow> bool" where
  "dead_unreferenced g \<longleftrightarrow> (\<forall>i j. in_graph g i \<longrightarrow> in_graph g j \<longrightarrow>
     node_is_dead (node g i) \<longrightarrow> \<not> node_is_dead (node g j) \<longrightarrow>
     i \<notin> set (data_inputs g j) \<and> ctrl_input g j \<noteq> i \<and> effect_input g j \<noteq> i)"

definition verifier_ok :: "graph \<Rightarrow> bool" where
  "verifier_ok g \<longleftrightarrow>
     no_dangling g \<and> effects_chained g \<and> guards_have_state g \<and> dead_unreferenced g"

section \<open>The verifier decides its specification\<close>

lemma set_node_ids [simp]: "set (node_ids g) = {j. in_graph g j}"
  by (auto simp: node_ids_def in_graph_def)

lemma distinct_node_ids [simp]: "distinct (node_ids g)"
  by (simp add: node_ids_def)

lemma concat_node_ids_Nil:
  "concat (map f (node_ids g)) = [] \<longleftrightarrow> (\<forall>j. in_graph g j \<longrightarrow> f j = [])"
  by auto

lemma no_dangling_node_iff:
  "check_no_dangling_node g j = [] \<longleftrightarrow>
     (\<forall>x \<in> set (data_inputs g j). in_graph g x)
     \<and> (ctrl_input g j \<noteq> 0 \<longrightarrow> in_graph g (ctrl_input g j))
     \<and> (effect_input g j \<noteq> 0 \<longrightarrow> in_graph g (effect_input g j))"
proof -
  have "(\<not> id_valid x \<or> g_size g < x) \<longleftrightarrow> \<not> in_graph g x" for x
    by (auto simp: id_valid_def in_graph_def)
  moreover have "(id_valid x \<and> g_size g < x) \<longleftrightarrow> x \<noteq> 0 \<and> \<not> in_graph g x" for x
    by (auto simp: id_valid_def in_graph_def)
  ultimately show ?thesis
    by (simp add: check_no_dangling_node_def Let_def filter_empty_conv)
qed

lemma check_no_dangling_iff: "check_no_dangling g = [] \<longleftrightarrow> no_dangling g"
  by (simp only: check_no_dangling_def no_dangling_def concat_node_ids_Nil no_dangling_node_iff)

lemma effect_input_node_iff:
  "check_effect_input_node g j = [] \<longleftrightarrow>
     (node_is_effect (node g j) \<and> n_kind (node g j) \<noteq> NK_Start \<and> n_kind (node g j) \<noteq> NK_Loop
        \<longrightarrow> effect_input g j \<noteq> 0)"
  by (simp add: check_effect_input_node_def Let_def id_valid_def)

lemma pure_no_effect_node_iff:
  "check_pure_no_effect_node g j = [] \<longleftrightarrow>
     (node_is_pure (node g j) \<and> \<not> node_is_effect (node g j) \<longrightarrow> effect_input g j = 0)"
  by (simp add: check_pure_no_effect_node_def Let_def id_valid_def)

lemma check_effect_chain_iff: "check_effect_chain g = [] \<longleftrightarrow> effects_chained g"
  unfolding check_effect_chain_def effects_chained_def append_is_Nil_conv concat_node_ids_Nil
    effect_input_node_iff pure_no_effect_node_iff by blast

lemma check_guards_iff: "check_guards_have_framestate g = [] \<longleftrightarrow> guards_have_state g"
  unfolding check_guards_have_framestate_def guards_have_state_def concat_node_ids_Nil
  by (auto simp: Let_def)

lemma dead_refs_from_iff:
  "dead_refs_from g i j = [] \<longleftrightarrow>
     i = j \<or> node_is_dead (node g j) \<or>
     (i \<notin> set (data_inputs g j) \<and> ctrl_input g j \<noteq> i \<and> effect_input g j \<noteq> i)"
  by (auto simp: dead_refs_from_def Let_def filter_empty_conv)

lemma check_dead_iff: "check_dead_not_referenced g = [] \<longleftrightarrow> dead_unreferenced g"
proof -
  have "check_dead_node g i = [] \<longleftrightarrow> (node_is_dead (node g i) \<longrightarrow> (\<forall>j. in_graph g j \<longrightarrow>
      dead_refs_from g i j = []))" for i
    by (simp add: check_dead_node_def)
  then have "check_dead_not_referenced g = [] \<longleftrightarrow> (\<forall>i j. in_graph g i \<longrightarrow> in_graph g j \<longrightarrow>
      node_is_dead (node g i) \<longrightarrow> dead_refs_from g i j = [])"
    unfolding check_dead_not_referenced_def by auto
  also have "\<dots> \<longleftrightarrow> dead_unreferenced g"
    unfolding dead_unreferenced_def dead_refs_from_iff by (intro iff_allI) auto
  finally show ?thesis .
qed

lemmas verifier_check_iffs =
  check_no_dangling_iff check_effect_chain_iff check_guards_iff check_dead_iff

lemma verifier_errors_iff: "verifier_errors g = [] \<longleftrightarrow> verifier_ok g"
  by (simp add: verifier_errors_def verifier_ok_def verifier_check_iffs)

lemma verify_Inr_iff: "verify_graph g = Inr () \<longleftrightarrow> verifier_ok g"
  by (auto simp: verify_graph_def Let_def verifier_errors_iff)

lemma verify_if_enabled_ok [simp]: "verifier_ok g \<Longrightarrow> verify_if_enabled debug g = Inr ()"
  by (simp add: verify_if_enabled_def verify_Inr_iff)

text \<open>C3: the verifier decides its specification. It succeeds exactly on the graphs without dangling
  references whose effect nodes are chained, whose pure nodes are not, whose guards carry a frame
  state and whose dead nodes no live node refers to; otherwise it returns a verification error.\<close>

theorem verify_graph_decides:
  "(verify_graph g = Inr () \<longleftrightarrow> no_dangling g \<and> effects_chained g \<and> guards_have_state g \<and> dead_unreferenced g)
   \<and> (verify_graph g \<noteq> Inr () \<longleftrightarrow> (\<exists>msg. verify_graph g = Inl (make_error_verification msg)))"
proof (rule conjI)
  show "verify_graph g = Inr () \<longleftrightarrow> no_dangling g \<and> effects_chained g \<and> guards_have_state g \<and> dead_unreferenced g"
    by (simp add: verify_Inr_iff verifier_ok_def)
  show "verify_graph g \<noteq> Inr () \<longleftrightarrow> (\<exists>msg. verify_graph g = Inl (make_error_verification msg))"
    by (auto simp: verify_graph_def Let_def)
qed

end
