(* ===== verification/Const_Fold.thy ===== *)
theory Const_Fold
  imports Ir_Verifier
begin

text \<open>
  \<^verbatim>\<open>ir/passes/ConstantFolding.cpp\<close>: folding of integer operations on constants. A folded node
  keeps its kind and inputs; it is marked \<open>IsConst\<close>, typed \<open>Int\<close> and carries the value in its side
  data. The pass sweeps over the graph until a sweep changes nothing.
\<close>

section \<open>The pass\<close>

definition wrap_add :: "i64 \<Rightarrow> i64 \<Rightarrow> i64" where "wrap_add a b = a + b"
definition wrap_sub :: "i64 \<Rightarrow> i64 \<Rightarrow> i64" where "wrap_sub a b = a - b"
definition wrap_mul :: "i64 \<Rightarrow> i64 \<Rightarrow> i64" where "wrap_mul a b = a * b"

lemmas wrap_defs = wrap_add_def wrap_sub_def wrap_mul_def

text \<open>Either an original \<open>ConstInt\<close> or a node folded before.\<close>

definition is_int_const :: "graph \<Rightarrow> node_id \<Rightarrow> bool" where
  "is_int_const g nid \<longleftrightarrow>
     n_kind (node g nid) = NK_ConstInt
     \<or> (flags_has (n_flags (node g nid)) NF_IsConst \<and> n_type (node g nid) = Ty_Int)"

text \<open>
  The switch on the kind: \<open>Some None\<close> is the early return \<^verbatim>\<open>false\<close> (zero divisor), \<open>None\<close> is the
  undefined quotient of the least value by \<open>-1\<close>.
\<close>

definition fold_switch :: "node_kind \<Rightarrow> i64 \<Rightarrow> i64 \<Rightarrow> i64 option ub" where
  "fold_switch k av bv =
     (if k = NK_Add then Some (Some (wrap_add av bv))
      else if k = NK_Sub then Some (Some (wrap_sub av bv))
      else if k = NK_Mul then Some (Some (wrap_mul av bv))
      else if k = NK_Div then (if bv = 0 then Some None else map_option Some (s_div av bv))
      else if k = NK_Mod then (if bv = 0 then Some None else map_option Some (s_mod av bv))
      else Some None)"

definition is_foldable_kind :: "node_kind \<Rightarrow> bool" where
  "is_foldable_kind k \<longleftrightarrow> k = NK_Add \<or> k = NK_Sub \<or> k = NK_Mul \<or> k = NK_Div \<or> k = NK_Mod"

definition set_folded :: "node_id \<Rightarrow> i64 \<Rightarrow> graph \<Rightarrow> graph" where
  "set_folded nid v g =
     upd_side nid (\<lambda>s. s\<lparr>const_value := v\<rparr>)
       (upd_node nid (\<lambda>n. (or_flags NF_IsConst n)\<lparr>n_type := Ty_Int\<rparr>) g)"

definition try_fold_binary :: "graph \<Rightarrow> node_id \<Rightarrow> (bool \<times> graph) ub" where
  "try_fold_binary g nid =
     (let n = node g nid; inputs = data_inputs g nid
      in if \<not> is_foldable_kind (n_kind n) then Some (False, g)
         else if length inputs \<noteq> 2 then Some (False, g)
         else if \<not> in_graph g (inputs ! 0) \<or> \<not> in_graph g (inputs ! 1) then None
         else if \<not> is_int_const g (inputs ! 0) \<or> \<not> is_int_const g (inputs ! 1) then Some (False, g)
         else if flags_has (n_flags n) NF_IsConst then Some (False, g)
         else case fold_switch (n_kind n) (const_value (side g (inputs ! 0)))
                     (const_value (side g (inputs ! 1))) of
             None \<Rightarrow> None
           | Some None \<Rightarrow> Some (False, g)
           | Some (Some r) \<Rightarrow> Some (True, set_folded nid r g))"

text \<open>The \<^verbatim>\<open>for\<close> loop over the ids, with the flag \<open>changed\<close>.\<close>

fun fold_sweep :: "node_id list \<Rightarrow> bool \<Rightarrow> graph \<Rightarrow> (bool \<times> graph) ub" where
  "fold_sweep [] changed g = Some (changed, g)"
| "fold_sweep (i # is) changed g =
     (case try_fold_binary g i of
        None \<Rightarrow> None
      | Some (c, g') \<Rightarrow> fold_sweep is (changed \<or> c) g')"

text \<open>Nodes not yet marked constant: every fold takes one away, which bounds the outer loop.\<close>

definition unmarked :: "graph \<Rightarrow> nat" where
  "unmarked g = length (filter (\<lambda>n. \<not> flags_has (n_flags n) NF_IsConst) (g_nodes g))"

lemma set_folded_size [simp]: "g_size (set_folded nid v g) = g_size g"
  by (simp add: set_folded_def)

lemma unmarked_set_folded:
  assumes "in_graph g nid" "\<not> flags_has (n_flags (node g nid)) NF_IsConst"
  shows "unmarked (set_folded nid v g) < unmarked g"
  using filter_update_less [OF in_graph_pos [OF assms(1)], of "\<lambda>n. \<not> flags_has (n_flags n) NF_IsConst"] assms(2)
  by (simp add: unmarked_def set_folded_def upd_node_def upd_side_def node_def flag_simps)

lemma try_fold_cases:
  assumes "try_fold_binary g nid = Some (c, g')"
  obtains "\<not> c" "g' = g"
  | a b r where "c" "is_foldable_kind (n_kind (node g nid))" "data_inputs g nid = [a, b]"
    "in_graph g a" "in_graph g b" "is_int_const g a" "is_int_const g b"
    "\<not> flags_has (n_flags (node g nid)) NF_IsConst"
    "fold_switch (n_kind (node g nid)) (const_value (side g a)) (const_value (side g b)) = Some (Some r)"
    "g' = set_folded nid r g"
proof (cases c)
  case False
  with assms have "g' = g"
    unfolding try_fold_binary_def Let_def by (simp split: if_splits option.splits)
  with False that(1) show ?thesis by simp
next
  case True
  let ?a = "data_inputs g nid ! 0" and ?b = "data_inputs g nid ! 1"
  from assms True have h: "is_foldable_kind (n_kind (node g nid))" "length (data_inputs g nid) = 2"
    "in_graph g ?a" "in_graph g ?b" "is_int_const g ?a" "is_int_const g ?b"
    "\<not> flags_has (n_flags (node g nid)) NF_IsConst"
    unfolding try_fold_binary_def Let_def by (simp_all split: if_splits option.splits)
  from h(2) have two: "data_inputs g nid = [?a, ?b]"
    by (auto simp: numeral_2_eq_2 length_Suc_conv)
  from assms True obtain r where
    "fold_switch (n_kind (node g nid)) (const_value (side g ?a)) (const_value (side g ?b)) = Some (Some r)"
    "g' = set_folded nid r g"
    unfolding try_fold_binary_def Let_def by (simp split: if_splits option.splits)
  with h two True that(2) show ?thesis by blast
qed

lemma fold_sweep_unmarked:
  "fold_sweep is ch g = Some (ch', g') \<Longrightarrow> \<forall>i \<in> set is. in_graph g i \<Longrightarrow>
    g_size g' = g_size g \<and> unmarked g' \<le> unmarked g \<and> (ch' \<longrightarrow> ch \<or> unmarked g' < unmarked g)"
proof (induction "is" arbitrary: ch g)
  case Nil
  then show ?case by simp
next
  case (Cons i "is")
  from Cons.prems(1) obtain c g1 where g1: "try_fold_binary g i = Some (c, g1)"
    and rest: "fold_sweep is (ch \<or> c) g1 = Some (ch', g')" by (auto split: option.splits)
  have step: "g_size g1 = g_size g \<and> unmarked g1 \<le> unmarked g \<and> (c \<longrightarrow> unmarked g1 < unmarked g)"
    using g1 Cons.prems(2) by (cases rule: try_fold_cases) (auto simp: less_imp_le unmarked_set_folded)
  then show ?case using Cons.IH [OF rest] Cons.prems(2) by (auto simp: in_graph_def)
qed

text \<open>The \<^verbatim>\<open>while (changed)\<close> loop.\<close>

function fold_loop :: "graph \<Rightarrow> graph ub" where
  "fold_loop g =
     (case fold_sweep (node_ids g) False g of
        None \<Rightarrow> None
      | Some (changed, g') \<Rightarrow> if changed then fold_loop g' else Some g')"
  by pat_completeness auto
termination
  by (relation "measure unmarked") (auto dest!: fold_sweep_unmarked)

declare fold_loop.simps [simp del]

definition constant_folding_run :: "bool \<Rightarrow> graph \<Rightarrow> (graph \<times> unit result) ub" where
  "constant_folding_run debug g =
     (case fold_loop g of None \<Rightarrow> None | Some g' \<Rightarrow> Some (g', verify_if_enabled debug g'))"

end
