(* ===== verification/Ir_Examples.thy ===== *)
theory Ir_Examples
  imports Ir_Verifier
begin

text \<open>
  Small graphs made by the operations of the code, used as the concrete inputs of the witnesses
  of the pass theorems, with their evaluated form.
\<close>

text \<open>\<open>(20 - 5) * 5\<close> and its return, as the comment in \<^verbatim>\<open>ConstantFolding.cpp\<close> describes it.\<close>

definition ex_arith :: graph where
  "ex_arith =
     snd (gb_mul 3 2 (snd (gb_sub 1 2 (snd (create_const_int 5 (snd (create_const_int 20 empty_graph)))))))"

lemmas build_simps = create_const_int_def create_const_float_def create_def allocate_id_def
  create_with_def set_data_inputs_def set_ctrl_input_def set_effect_input_def upd_node_def
  upd_side_def node_def side_def pool_alloc_def pool_write_def empty_graph_def or_flags_def
  create_flags_def lookup_node_kind_info_def kTable_def info_row_def default_node_def
  default_side_def empty_slice_def id_valid_def Let_def

lemma ex_arith_eq:
  "ex_arith =
    \<lparr>g_nodes =
      [\<lparr>n_kind = NK_ConstInt, n_flags = 257, n_arity_hint = 0, n_type = Ty_Int, n_data_inputs = empty_slice,
        n_ctrl_input = empty_slice, n_effect_input = empty_slice, n_state = 0\<rparr>,
       \<lparr>n_kind = NK_ConstInt, n_flags = 257, n_arity_hint = 0, n_type = Ty_Int, n_data_inputs = empty_slice,
        n_ctrl_input = empty_slice, n_effect_input = empty_slice, n_state = 0\<rparr>,
       \<lparr>n_kind = NK_Sub, n_flags = 1, n_arity_hint = 2, n_type = Ty_Top,
        n_data_inputs = \<lparr>first_edge = 0, edge_count = 2\<rparr>, n_ctrl_input = empty_slice,
        n_effect_input = empty_slice, n_state = 0\<rparr>,
       \<lparr>n_kind = NK_Mul, n_flags = 25, n_arity_hint = 2, n_type = Ty_Top,
        n_data_inputs = \<lparr>first_edge = 2, edge_count = 2\<rparr>, n_ctrl_input = empty_slice,
        n_effect_input = empty_slice, n_state = 0\<rparr>],
     g_sides = [default_side\<lparr>const_value := 20\<rparr>, default_side\<lparr>const_value := 5\<rparr>, default_side, default_side],
     g_pool = [1, 2, 3, 2], g_start = 0\<rparr>"
  by (simp add: ex_arith_def gb_mul_def gb_sub_def build_simps)

text \<open>A sum computed twice with its operands in both orders, and the product of the two.\<close>

definition ex_dup :: graph where
  "ex_dup =
     snd (gb_mul 3 4 (snd (gb_add 2 1 (snd (gb_add 1 2 (snd (create_const_int 5 (snd (create_const_int 20 empty_graph)))))))))"

lemma ex_dup_eq:
  "ex_dup =
    \<lparr>g_nodes =
      [\<lparr>n_kind = NK_ConstInt, n_flags = 257, n_arity_hint = 0, n_type = Ty_Int, n_data_inputs = empty_slice,
        n_ctrl_input = empty_slice, n_effect_input = empty_slice, n_state = 0\<rparr>,
       \<lparr>n_kind = NK_ConstInt, n_flags = 257, n_arity_hint = 0, n_type = Ty_Int, n_data_inputs = empty_slice,
        n_ctrl_input = empty_slice, n_effect_input = empty_slice, n_state = 0\<rparr>,
       \<lparr>n_kind = NK_Add, n_flags = 25, n_arity_hint = 2, n_type = Ty_Top,
        n_data_inputs = \<lparr>first_edge = 0, edge_count = 2\<rparr>, n_ctrl_input = empty_slice,
        n_effect_input = empty_slice, n_state = 0\<rparr>,
       \<lparr>n_kind = NK_Add, n_flags = 25, n_arity_hint = 2, n_type = Ty_Top,
        n_data_inputs = \<lparr>first_edge = 2, edge_count = 2\<rparr>, n_ctrl_input = empty_slice,
        n_effect_input = empty_slice, n_state = 0\<rparr>,
       \<lparr>n_kind = NK_Mul, n_flags = 25, n_arity_hint = 2, n_type = Ty_Top,
        n_data_inputs = \<lparr>first_edge = 4, edge_count = 2\<rparr>, n_ctrl_input = empty_slice,
        n_effect_input = empty_slice, n_state = 0\<rparr>],
     g_sides = [default_side\<lparr>const_value := 20\<rparr>, default_side\<lparr>const_value := 5\<rparr>, default_side, default_side, default_side],
     g_pool = [1, 2, 2, 1, 3, 4], g_start = 0\<rparr>"
  by (simp add: ex_dup_def gb_mul_def gb_add_def build_simps)

text \<open>A function that returns \<open>20 + 5\<close> and computes a product nobody uses.\<close>

definition ex_fun :: graph where
  "ex_fun =
     snd (create_with NK_Return [4] 1 1 (snd (gb_mul 2 3 (snd (gb_add 2 3
       (snd (create_const_int 5 (snd (create_const_int 20 (snd (gb_start empty_graph)))))))))))"

definition ex_node :: "node_kind \<Rightarrow> node_flags \<Rightarrow> u8 \<Rightarrow> type_id \<Rightarrow> edge_slice \<Rightarrow> edge_slice \<Rightarrow> edge_slice \<Rightarrow> node" where
  "ex_node k f a t d c e =
     \<lparr>n_kind = k, n_flags = f, n_arity_hint = a, n_type = t, n_data_inputs = d, n_ctrl_input = c,
      n_effect_input = e, n_state = 0\<rparr>"

lemma ex_fun_eq:
  "ex_fun =
    \<lparr>g_nodes =
      [ex_node NK_Start 6 0 Ty_Top empty_slice empty_slice empty_slice,
       ex_node NK_ConstInt 257 0 Ty_Int empty_slice empty_slice empty_slice,
       ex_node NK_ConstInt 257 0 Ty_Int empty_slice empty_slice empty_slice,
       ex_node NK_Add 25 2 Ty_Top \<lparr>first_edge = 0, edge_count = 2\<rparr> empty_slice empty_slice,
       ex_node NK_Mul 25 2 Ty_Top \<lparr>first_edge = 2, edge_count = 2\<rparr> empty_slice empty_slice,
       ex_node NK_Return 6 1 Ty_Top \<lparr>first_edge = 4, edge_count = 1\<rparr> \<lparr>first_edge = 5, edge_count = 1\<rparr>
         \<lparr>first_edge = 6, edge_count = 1\<rparr>],
     g_sides = [default_side, default_side\<lparr>const_value := 20\<rparr>, default_side\<lparr>const_value := 5\<rparr>,
       default_side, default_side, default_side],
     g_pool = [2, 3, 2, 3, 4, 1, 1], g_start = 1\<rparr>"
  by (simp add: ex_fun_def gb_start_def gb_mul_def gb_add_def build_simps ex_node_def)

end
