(* ===== verification/Ir_Refinement.thy ===== *)
theory Ir_Refinement
  imports Ir_Examples
begin

text \<open>
  The contract of \<^verbatim>\<open>ir/Graph.cpp\<close>: whatever sequence of operations built a graph, its nodes own
  their inputs (the invariant \<open>graph_wf\<close> of the shared edge pool holds), and the mutators act on
  the abstract graph as list operations.
\<close>

section \<open>Graphs made by the operations\<close>

lemma upd_node_type_flags_wf [graph_wf]:
  "graph_wf g \<Longrightarrow> in_graph g i \<Longrightarrow> graph_wf (upd_node i (\<lambda>n. (or_flags m n)\<lparr>n_type := t\<rparr>) g)"
  by (rule wf_upd_node_slices) simp_all

lemma const_pairs:
  "create_const_int v g = (g_size g + 1, upd_side (g_size g + 1) (\<lambda>s. s\<lparr>const_value := v\<rparr>)
     (upd_node (g_size g + 1) (\<lambda>n. (or_flags NF_IsConst n)\<lparr>n_type := Ty_Int\<rparr>) (snd (create NK_ConstInt g))))"
  "create_const_float v g = (g_size g + 1, upd_side (g_size g + 1) (\<lambda>s. s\<lparr>const_value := v\<rparr>)
     (upd_node (g_size g + 1) (\<lambda>n. (or_flags NF_IsConst n)\<lparr>n_type := Ty_Float\<rparr>) (snd (create NK_ConstFloat g))))"
  "create_const_bool b g = (g_size g + 1, upd_side (g_size g + 1)
      (\<lambda>s. s\<lparr>const_value := (const_value s AND NOT 0xFF) OR (if b then 1 else 0)\<rparr>)
     (upd_node (g_size g + 1) (\<lambda>n. (or_flags NF_IsConst n)\<lparr>n_type := Ty_Bool\<rparr>) (snd (create NK_ConstBool g))))"
  "create_const_null g = (g_size g + 1,
     upd_node (g_size g + 1) (\<lambda>n. (or_flags NF_IsConst n)\<lparr>n_type := Ty_Null\<rparr>) (snd (create NK_ConstNull g)))"
  unfolding create_const_int_def create_const_float_def create_const_bool_def create_const_null_def
  by (subst create_pair, simp add: Let_def)+

lemma wf_create_const [graph_wf]:
  "graph_wf g \<Longrightarrow> graph_wf (snd (create_const_int v g))"
  "graph_wf g \<Longrightarrow> graph_wf (snd (create_const_float v g))"
  "graph_wf g \<Longrightarrow> graph_wf (snd (create_const_bool b g))"
  "graph_wf g \<Longrightarrow> graph_wf (snd (create_const_null g))"
  by (simp_all add: const_pairs wf_upd_side upd_node_type_flags_wf wf_create)

lemma wf_set_frame_state [graph_wf]:
  "graph_wf g \<Longrightarrow> in_graph g i \<Longrightarrow> graph_wf (set_frame_state i st g)"
  by (simp add: set_frame_state_def wf_upd_node_slices Let_def)

lemma wf_pool_update:
  "graph_wf g \<Longrightarrow> length p = length (g_pool g) \<Longrightarrow> graph_wf (g\<lparr>g_pool := p\<rparr>)"
  by (simp add: graph_wf_def all_slots_def)

lemma wf_replace_one_use [graph_wf]: "graph_wf g \<Longrightarrow> graph_wf (snd (replace_one_use a b u s g))"
  by (simp add: replace_one_use_cases wf_pool_update)

lemma wf_g_start [graph_wf]: "graph_wf g \<Longrightarrow> graph_wf (g\<lparr>g_start := s\<rparr>)"
  by (simp add: graph_wf_def all_slots_def)

lemma wf_builder [graph_wf]:
  assumes "graph_wf g"
  shows "graph_wf (snd (gb_start g))" "graph_wf (snd (gb_add a b g))" "graph_wf (snd (gb_sub a b g))"
    "graph_wf (snd (gb_mul a b g))" "graph_wf (snd (gb_div a b g))" "graph_wf (snd (gb_cmp_lt a b g))"
    "graph_wf (snd (gb_if_node a g))" "graph_wf (snd (gb_return_node a g))"
    "graph_wf (snd (gb_allocate sh g))" "graph_wf (snd (gb_load_field a fi off g))"
    "graph_wf (snd (gb_store_field a fi off b g))"
  using assms
  by (auto simp: gb_start_def gb_add_def gb_sub_def gb_mul_def gb_div_def gb_cmp_lt_def gb_if_node_def
      gb_return_node_def gb_allocate_def gb_load_field_def gb_store_field_def Let_def split_beta
      intro!: wf_g_start wf_upd_side wf_create wf_create_with)

text \<open>Every graph a client can make through the public operations.\<close>

inductive built :: "graph \<Rightarrow> bool" where
  built_empty: "built empty_graph"
| built_create: "built g \<Longrightarrow> built (snd (create k g))"
| built_create_with: "built g \<Longrightarrow> built (snd (create_with k ins c e g))"
| built_const_int: "built g \<Longrightarrow> built (snd (create_const_int v g))"
| built_const_float: "built g \<Longrightarrow> built (snd (create_const_float v g))"
| built_const_bool: "built g \<Longrightarrow> built (snd (create_const_bool b g))"
| built_const_null: "built g \<Longrightarrow> built (snd (create_const_null g))"
| built_start: "built g \<Longrightarrow> built (snd (gb_start g))"
| built_allocate: "built g \<Longrightarrow> built (snd (gb_allocate sh g))"
| built_load_field: "built g \<Longrightarrow> built (snd (gb_load_field a fi off g))"
| built_store_field: "built g \<Longrightarrow> built (snd (gb_store_field a fi off b g))"
| built_set_data: "built g \<Longrightarrow> in_graph g i \<Longrightarrow> built (set_data_inputs i ins g)"
| built_set_ctrl: "built g \<Longrightarrow> in_graph g i \<Longrightarrow> built (set_ctrl_input i c g)"
| built_set_effect: "built g \<Longrightarrow> in_graph g i \<Longrightarrow> built (set_effect_input i e g)"
| built_set_state: "built g \<Longrightarrow> in_graph g i \<Longrightarrow> built (set_frame_state i st g)"
| built_mark_dead: "built g \<Longrightarrow> in_graph g i \<Longrightarrow> built (mark_dead i g)"
| built_replace_all: "built g \<Longrightarrow> built (replace_all_uses a b g)"
| built_replace_one: "built g \<Longrightarrow> built (snd (replace_one_use a b u s g))"

lemma built_wf: "built g \<Longrightarrow> graph_wf g"
proof (induction rule: built.induct)
  case built_empty
  then show ?case by (simp add: graph_wf_def empty_graph_def all_slots_def)
qed (auto intro: graph_wf)

lemma built_builder:
  assumes "built g"
  shows "built (snd (gb_add a b g))" "built (snd (gb_sub a b g))" "built (snd (gb_mul a b g))"
    "built (snd (gb_div a b g))" "built (snd (gb_cmp_lt a b g))" "built (snd (gb_if_node a g))"
    "built (snd (gb_return_node a g))"
  using built_create_with [OF assms]
  by (simp_all add: gb_add_def gb_sub_def gb_mul_def gb_div_def gb_cmp_lt_def gb_if_node_def gb_return_node_def)

lemma built_ex_arith: "built ex_arith"
  unfolding ex_arith_def by (intro built_builder built_const_int built_empty)

lemma wf_ex_arith: "graph_wf ex_arith"
  by (rule built_wf [OF built_ex_arith])

lemma in_ex_arith: "in_graph ex_arith i \<longleftrightarrow> 1 \<le> i \<and> i \<le> 4"
  by (simp add: in_graph_def g_size_def ex_arith_eq eval_nat_numeral)

lemma all_ex_arith: "(\<forall>i. in_graph ex_arith i \<longrightarrow> P i) \<longleftrightarrow> P 1 \<and> P 2 \<and> P 3 \<and> P 4"
proof -
  have "in_graph ex_arith i \<longleftrightarrow> i = 1 \<or> i = 2 \<or> i = 3 \<or> i = 4" for i
    by (auto simp: in_ex_arith)
  then show ?thesis by auto
qed

lemma nodes_ex_arith:
  "n_kind (node ex_arith 1) = NK_ConstInt" "n_kind (node ex_arith 2) = NK_ConstInt"
  "n_kind (node ex_arith 3) = NK_Sub" "n_kind (node ex_arith 4) = NK_Mul"
  "n_flags (node ex_arith 1) = 257" "n_flags (node ex_arith 2) = 257"
  "n_flags (node ex_arith 3) = 1" "n_flags (node ex_arith 4) = 25"
  "data_inputs ex_arith 1 = []" "data_inputs ex_arith 2 = []"
  "data_inputs ex_arith 3 = [1, 2]" "data_inputs ex_arith 4 = [3, 2]"
  "const_value (side ex_arith 1) = 20" "const_value (side ex_arith 2) = 5"
  by (simp_all add: ex_arith_eq node_def side_def input_defs pool_get_def empty_slice_def)

lemma built_ex_dup: "built ex_dup"
  unfolding ex_dup_def by (intro built_builder built_const_int built_empty)

lemma wf_ex_dup: "graph_wf ex_dup"
  by (rule built_wf [OF built_ex_dup])

lemma in_ex_dup: "in_graph ex_dup i \<longleftrightarrow> 1 \<le> i \<and> i \<le> 5"
  by (simp add: in_graph_def g_size_def ex_dup_eq eval_nat_numeral)

lemma all_ex_dup: "(\<forall>i. in_graph ex_dup i \<longrightarrow> P i) \<longleftrightarrow> P 1 \<and> P 2 \<and> P 3 \<and> P 4 \<and> P 5"
proof -
  have "in_graph ex_dup i \<longleftrightarrow> i = 1 \<or> i = 2 \<or> i = 3 \<or> i = 4 \<or> i = 5" for i
    by (auto simp: in_ex_dup)
  then show ?thesis by auto
qed

lemma nodes_ex_dup:
  "n_kind (node ex_dup 1) = NK_ConstInt" "n_kind (node ex_dup 2) = NK_ConstInt"
  "n_kind (node ex_dup 3) = NK_Add" "n_kind (node ex_dup 4) = NK_Add" "n_kind (node ex_dup 5) = NK_Mul"
  "n_flags (node ex_dup 1) = 257" "n_flags (node ex_dup 2) = 257" "n_flags (node ex_dup 3) = 25"
  "n_flags (node ex_dup 4) = 25" "n_flags (node ex_dup 5) = 25"
  "data_inputs ex_dup 1 = []" "data_inputs ex_dup 2 = []" "data_inputs ex_dup 3 = [1, 2]"
  "data_inputs ex_dup 4 = [2, 1]" "data_inputs ex_dup 5 = [3, 4]"
  "const_value (side ex_dup 1) = 20" "const_value (side ex_dup 2) = 5"
  by (simp_all add: ex_dup_eq node_def side_def input_defs pool_get_def empty_slice_def)

lemma built_ex_fun: "built ex_fun"
  unfolding ex_fun_def by (intro built_create_with built_builder built_const_int built_start built_empty)

lemma wf_ex_fun: "graph_wf ex_fun"
  by (rule built_wf [OF built_ex_fun])

lemma in_ex_fun: "in_graph ex_fun i \<longleftrightarrow> 1 \<le> i \<and> i \<le> 6"
  by (simp add: in_graph_def g_size_def ex_fun_eq eval_nat_numeral)

lemma all_ex_fun: "(\<forall>i. in_graph ex_fun i \<longrightarrow> P i) \<longleftrightarrow> P 1 \<and> P 2 \<and> P 3 \<and> P 4 \<and> P 5 \<and> P 6"
proof -
  have "in_graph ex_fun i \<longleftrightarrow> i = 1 \<or> i = 2 \<or> i = 3 \<or> i = 4 \<or> i = 5 \<or> i = 6" for i
    by (auto simp: in_ex_fun)
  then show ?thesis by auto
qed

lemma nodes_ex_fun:
  "map (\<lambda>i. n_kind (node ex_fun i)) [1, 2, 3, 4, 5, 6] =
     [NK_Start, NK_ConstInt, NK_ConstInt, NK_Add, NK_Mul, NK_Return]"
  "map (\<lambda>i. n_flags (node ex_fun i)) [1, 2, 3, 4, 5, 6] = [6, 257, 257, 25, 25, 6]"
  "map (data_inputs ex_fun) [1, 2, 3, 4, 5, 6] = [[], [], [], [2, 3], [2, 3], [4]]"
  "map (ctrl_input ex_fun) [1, 2, 3, 4, 5, 6] = [0, 0, 0, 0, 0, 1]"
  "map (effect_input ex_fun) [1, 2, 3, 4, 5, 6] = [0, 0, 0, 0, 0, 1]"
  "const_value (side ex_fun 2) = 20" "const_value (side ex_fun 3) = 5"
  by (simp_all add: ex_fun_eq ex_node_def node_def side_def input_defs slice_head_def pool_get_def empty_slice_def)

lemma verifier_ok_ex_fun: "verifier_ok ex_fun"
proof -
  have "\<forall>i. in_graph ex_fun i \<longrightarrow> \<not> node_is_dead (node ex_fun i)"
    unfolding all_ex_fun using nodes_ex_fun by (simp add: node_queries flags_has_def del: One_nat_def)
  then have "dead_unreferenced ex_fun" unfolding dead_unreferenced_def by blast
  moreover have "no_dangling ex_fun" "effects_chained ex_fun" "guards_have_state ex_fun"
    unfolding no_dangling_def effects_chained_def guards_have_state_def all_ex_fun
    using nodes_ex_fun by (simp_all add: in_ex_fun node_queries flags_has_def del: One_nat_def)
  ultimately show ?thesis by (simp add: verifier_ok_def)
qed

text \<open>C1: whatever operations built a graph, the slices of its nodes lie inside the edge pool and
  no two of them share a slot, so that an in-place rewrite of one input list is never seen by
  another node.\<close>

theorem built_slices_apart:
  assumes "built g" "in_graph g i" "in_graph g j" "i \<noteq> j"
  shows "set (node_slots (node g i)) \<inter> set (node_slots (node g j)) = {}
    \<and> set (node_slots (node g i)) \<subseteq> {..< length (g_pool g)}"
  using wf_slots_disjoint [OF built_wf assms(2,3)] wf_node_slots [OF built_wf assms(2)] assms by auto

theorem built_slices_apart_witness:
  "set (node_slots (node ex_arith 3)) \<inter> set (node_slots (node ex_arith 4)) = {}
   \<and> set (node_slots (node ex_arith 3)) \<subseteq> {..< length (g_pool ex_arith)}"
  using built_slices_apart [of ex_arith 3 4] by (simp add: built_ex_arith in_ex_arith)

section \<open>The mutators as list operations\<close>

text \<open>C2: \<open>replace_all_uses\<close> substitutes the new id for the old one in the inputs of every live node
  and leaves dead nodes, all other fields and the size of the graph alone.\<close>

theorem replace_all_uses_refines:
  assumes "graph_wf g"
  shows "abs_graph (replace_all_uses a b g) =
      map (\<lambda>v. if view_dead v then v else v\<lparr>v_ins := map (subst_id a b) (v_ins v)\<rparr>) (abs_graph g)
    \<and> graph_wf (replace_all_uses a b g)"
proof (rule conjI)
  show "abs_graph (replace_all_uses a b g) =
      map (\<lambda>v. if view_dead v then v else v\<lparr>v_ins := map (subst_id a b) (v_ins v)\<rparr>) (abs_graph g)"
  proof (rule abs_graph_eqI)
    fix j assume "in_graph (replace_all_uses a b g) j"
    then have j: "in_graph g j" by simp
    then have "j - 1 < g_size g" by (auto simp: in_graph_def)
    with j show "view (replace_all_uses a b g) j =
        map (\<lambda>v. if view_dead v then v else v\<lparr>v_ins := map (subst_id a b) (v_ins v)\<rparr>) (abs_graph g) ! (j - 1)"
      by (simp add: abs_graph_nth [simplified] view_replace_all_uses [OF assms])
  qed simp
  show "graph_wf (replace_all_uses a b g)" by (rule wf_replace_all_uses [OF assms])
qed

theorem replace_all_uses_refines_witness:
  "abs_graph (replace_all_uses 2 1 ex_arith) =
     map (\<lambda>v. if view_dead v then v else v\<lparr>v_ins := map (subst_id 2 1) (v_ins v)\<rparr>) (abs_graph ex_arith)
   \<and> data_inputs (replace_all_uses 2 1 ex_arith) 4 = [3, 1]"
proof -
  have live: "\<not> node_is_dead (node ex_arith 4)"
    by (simp add: node_is_dead_def flags_has_def node_def ex_arith_eq)
  have ins: "data_inputs ex_arith 4 = [3, 2]"
    by (simp add: input_defs node_def pool_get_def ex_arith_eq)
  show ?thesis
    using replace_all_uses_refines [OF wf_ex_arith, of 2 1] inputs_replace_all_uses [OF wf_ex_arith, of 4 2 1]
    by (simp add: in_ex_arith live ins subst_id_def)
qed

text \<open>Creating a node appends it to the abstract graph, with the flags and the arity of the kind
  table and the given inputs, and changes no other node.\<close>

lemma create_with_refines:
  assumes "graph_wf g"
  shows "abs_graph (snd (create_with k ins c e g)) =
      abs_graph g @ [(new_view k)\<lparr>v_ins := ins, v_ctrl := c, v_effect := e\<rparr>]
    \<and> fst (create_with k ins c e g) = length (abs_graph g) + 1"
proof (rule conjI)
  show "abs_graph (snd (create_with k ins c e g)) =
      abs_graph g @ [(new_view k)\<lparr>v_ins := ins, v_ctrl := c, v_effect := e\<rparr>]"
  proof (rule abs_graph_eqI)
    fix j assume j: "in_graph (snd (create_with k ins c e g)) j"
    show "view (snd (create_with k ins c e g)) j =
        (abs_graph g @ [(new_view k)\<lparr>v_ins := ins, v_ctrl := c, v_effect := e\<rparr>]) ! (j - 1)"
    proof (cases "j = g_size g + 1")
      case False
      then have g: "in_graph g j" using j by simp
      then have "j - 1 < g_size g" by (auto simp: in_graph_def)
      then show ?thesis using False g by (simp add: view_create_with [OF assms j] abs_graph_nth [simplified] nth_append)
    qed (use view_create_with [OF assms j] in \<open>simp add: nth_append\<close>)
  qed simp
  show "fst (create_with k ins c e g) = length (abs_graph g) + 1" by simp
qed

lemma create_with_refines_witness:
  "abs_graph (snd (create_with NK_Add [3, 4] 0 0 ex_arith)) =
     abs_graph ex_arith @ [(new_view NK_Add)\<lparr>v_ins := [3, 4], v_ctrl := 0, v_effect := 0\<rparr>]
   \<and> fst (create_with NK_Add [3, 4] 0 0 ex_arith) = length (abs_graph ex_arith) + 1"
  using create_with_refines [OF wf_ex_arith, of NK_Add "[3, 4]" 0 0] by simp

end
