(* ===== verification/Const_Fold_Correct.thy ===== *)
theory Const_Fold_Correct
  imports Const_Fold Ir_Refinement
begin

text \<open>
  Correctness of constant folding against a reference semantics of integer nodes: \<open>eval_int\<close> reads
  kinds, inputs and the payload of \<open>ConstInt\<close> nodes only, never the marks the pass writes.
\<close>

section \<open>Reference semantics\<close>

text \<open>The value of an operation on 64-bit integers, when it has one.\<close>

definition int_op :: "node_kind \<Rightarrow> i64 \<Rightarrow> i64 \<Rightarrow> i64 option" where
  "int_op k x y =
     (if k = NK_Add then Some (x + y)
      else if k = NK_Sub then Some (x - y)
      else if k = NK_Mul then Some (x * y)
      else if k = NK_Div then s_div x y
      else if k = NK_Mod then s_mod x y
      else None)"

inductive eval_int :: "graph \<Rightarrow> node_id \<Rightarrow> i64 \<Rightarrow> bool" for g where
  eval_const: "in_graph g i \<Longrightarrow> n_kind (node g i) = NK_ConstInt \<Longrightarrow>
    eval_int g i (const_value (side g i))"
| eval_op: "in_graph g i \<Longrightarrow> is_foldable_kind (n_kind (node g i)) \<Longrightarrow>
    data_inputs g i = [a, b] \<Longrightarrow> eval_int g a x \<Longrightarrow> eval_int g b y \<Longrightarrow>
    int_op (n_kind (node g i)) x y = Some v \<Longrightarrow> eval_int g i v"

inductive_cases eval_intE: "eval_int g i v"

lemma foldable_not_const: "is_foldable_kind k \<Longrightarrow> k \<noteq> NK_ConstInt"
  by (auto simp: is_foldable_kind_def)

lemma eval_int_det: "eval_int g i v \<Longrightarrow> eval_int g i w \<Longrightarrow> v = w"
proof (induction arbitrary: w rule: eval_int.induct)
  case (eval_const i)
  from eval_const.prems show ?case
    by (cases rule: eval_intE) (use eval_const.hyps in \<open>auto dest: foldable_not_const\<close>)
next
  case (eval_op i a b x y v)
  note h = eval_op.hyps eval_op.IH
  from eval_op.prems show ?case
  proof (cases rule: eval_int.cases)
    case eval_const
    then show ?thesis using h(2) foldable_not_const by simp
  next
    case (eval_op a' b' x' y')
    then have "a' = a" "b' = b" using h(3) by simp_all
    then have "x = x'" "y = y'" using eval_op h by blast+
    then show ?thesis using eval_op h(6) by simp
  qed
qed

text \<open>The semantics depends on kinds, inputs and constants only.\<close>

definition same_code :: "graph \<Rightarrow> graph \<Rightarrow> bool" where
  "same_code g h \<longleftrightarrow> g_size h = g_size g \<and> (\<forall>j. in_graph g j \<longrightarrow>
     n_kind (node h j) = n_kind (node g j) \<and> data_inputs h j = data_inputs g j
     \<and> (n_kind (node g j) = NK_ConstInt \<longrightarrow> const_value (side h j) = const_value (side g j)))"

lemma same_code_refl [simp]: "same_code g g"
  by (simp add: same_code_def)

lemma same_code_trans: "same_code f g \<Longrightarrow> same_code g h \<Longrightarrow> same_code f h"
  by (simp add: same_code_def in_graph_def)

lemma same_code_sym: "same_code g h \<Longrightarrow> same_code h g"
  by (simp add: same_code_def in_graph_def)

lemma same_code_eval: "eval_int g i v \<Longrightarrow> same_code g h \<Longrightarrow> eval_int h i v"
proof (induction rule: eval_int.induct)
  case (eval_const i)
  then show ?case
    using eval_int.eval_const [of h i] by (simp add: same_code_def in_graph_def)
next
  case (eval_op i a b x y v)
  then show ?case
    by (intro eval_int.eval_op [of h i a b x y]) (auto simp: same_code_def in_graph_def)
qed

lemma same_code_eval_iff: "same_code g h \<Longrightarrow> eval_int h i v \<longleftrightarrow> eval_int g i v"
  by (blast intro: same_code_eval same_code_sym)

section \<open>Soundness of the marks\<close>

text \<open>Every node marked as an integer constant carries the value it computes.\<close>

definition marks_sound :: "graph \<Rightarrow> bool" where
  "marks_sound g \<longleftrightarrow> (\<forall>i. in_graph g i \<longrightarrow> is_int_const g i \<longrightarrow> eval_int g i (const_value (side g i)))"

lemma fold_switch_Some:
  "fold_switch k x y = Some (Some r) \<Longrightarrow> is_foldable_kind k \<and> int_op k x y = Some r"
  by (auto simp: fold_switch_def int_op_def is_foldable_kind_def wrap_defs split: if_splits)

lemma set_folded_node:
  "graph_wf g \<Longrightarrow> in_graph g i \<Longrightarrow> in_graph g j \<Longrightarrow>
    node (set_folded i v g) j = (if j = i then (or_flags NF_IsConst (node g i))\<lparr>n_type := Ty_Int\<rparr> else node g j)"
  "graph_wf g \<Longrightarrow> in_graph g i \<Longrightarrow> in_graph g j \<Longrightarrow>
    side (set_folded i v g) j = (if j = i then (side g i)\<lparr>const_value := v\<rparr> else side g j)"
  "in_graph g i \<Longrightarrow> in_graph g j \<Longrightarrow> data_inputs (set_folded i v g) j = data_inputs g j"
  "in_graph (set_folded i v g) j = in_graph g j"
  by (simp_all add: set_folded_def node_upd side_upd data_inputs_upd_same wf_upd_node_slices)

lemma wf_set_folded [graph_wf]: "graph_wf g \<Longrightarrow> in_graph g i \<Longrightarrow> graph_wf (set_folded i v g)"
  by (simp add: set_folded_def wf_upd_side wf_upd_node_slices)

lemma same_code_set_folded:
  "graph_wf g \<Longrightarrow> in_graph g i \<Longrightarrow> n_kind (node g i) \<noteq> NK_ConstInt \<Longrightarrow> same_code g (set_folded i v g)"
  by (auto simp: same_code_def set_folded_node)

lemma marks_sound_set_folded:
  assumes "graph_wf g" "in_graph g i" "n_kind (node g i) \<noteq> NK_ConstInt" "marks_sound g" "eval_int g i v"
  shows "marks_sound (set_folded i v g)"
  using assms same_code_eval_iff [OF same_code_set_folded [OF assms(1-3)]]
  by (auto simp: marks_sound_def is_int_const_def set_folded_node)

text \<open>What one step, a sweep and the whole pass keep.\<close>

definition fold_inv :: "graph \<Rightarrow> graph \<Rightarrow> bool" where
  "fold_inv g h \<longleftrightarrow> graph_wf h \<and> same_code g h \<and> marks_sound h"

lemma try_fold_inv:
  assumes "try_fold_binary g i = Some (c, g')" "in_graph g i" "fold_inv g0 g"
  shows "fold_inv g0 g'"
  using assms(1)
proof (cases rule: try_fold_cases)
  case (2 a b r)
  then have "eval_int g a (const_value (side g a))" "eval_int g b (const_value (side g b))"
    using assms(3) by (auto simp: fold_inv_def marks_sound_def)
  then have "eval_int g i r"
    using 2 assms(2) fold_switch_Some by (blast intro: eval_op)
  then show ?thesis
    using 2 assms by (auto simp: fold_inv_def intro: same_code_trans same_code_set_folded
        marks_sound_set_folded wf_set_folded dest: foldable_not_const)
qed (use assms(3) in auto)

lemma fold_sweep_inv:
  "fold_sweep is ch g = Some (ch', g') \<Longrightarrow> \<forall>i \<in> set is. in_graph g i \<Longrightarrow> fold_inv g0 g \<Longrightarrow> fold_inv g0 g'"
proof (induction "is" arbitrary: ch g)
  case (Cons i "is")
  from Cons.prems(1) obtain c g1 where g1: "try_fold_binary g i = Some (c, g1)"
    and rest: "fold_sweep is (ch \<or> c) g1 = Some (ch', g')" by (auto split: option.splits)
  have "in_graph g1 j = in_graph g j" for j
    using g1 by (cases rule: try_fold_cases) (auto simp: set_folded_node)
  then show ?case
    using Cons.IH [OF rest] try_fold_inv [OF g1 _ Cons.prems(3)] Cons.prems(2) by simp
qed simp

lemma fold_loop_inv: "fold_loop g = Some g' \<Longrightarrow> fold_inv g0 g \<Longrightarrow> fold_inv g0 g'"
proof (induction g rule: fold_loop.induct)
  case (1 g)
  from "1.prems"(1) obtain ch h where h: "fold_sweep (node_ids g) False g = Some (ch, h)"
    and rest: "(if ch then fold_loop h else Some h) = Some g'"
    by (subst (asm) fold_loop.simps) (auto split: option.splits)
  have inv: "fold_inv g0 h" by (rule fold_sweep_inv [OF h _ "1.prems"(2)]) simp
  with "1.IH" [OF h refl] rest show ?case by (cases ch) auto
qed

section \<open>The fixpoint\<close>

lemma fold_sweep_unchanged:
  "fold_sweep is ch g = Some (False, g') \<Longrightarrow>
    g' = g \<and> \<not> ch \<and> (\<forall>i \<in> set is. try_fold_binary g i = Some (False, g))"
proof (induction "is" arbitrary: ch g)
  case (Cons i "is")
  from Cons.prems obtain c g1 where g1: "try_fold_binary g i = Some (c, g1)"
    and rest: "fold_sweep is (ch \<or> c) g1 = Some (False, g')" by (auto split: option.splits)
  from Cons.IH [OF rest] have "\<not> c" by simp
  with g1 have "g1 = g" by (cases rule: try_fold_cases) auto
  with Cons.IH [OF rest] g1 \<open>\<not> c\<close> show ?case by simp
qed auto

lemma fold_sweep_none:
  "\<forall>i \<in> set is. try_fold_binary g i = Some (False, g) \<Longrightarrow> fold_sweep is ch g = Some (ch, g)"
  by (induction "is" arbitrary: ch) auto

lemma fold_loop_fixpoint:
  "fold_loop g = Some g' \<Longrightarrow> \<forall>i. in_graph g' i \<longrightarrow> try_fold_binary g' i = Some (False, g')"
proof (induction g rule: fold_loop.induct)
  case (1 g)
  from "1.prems"(1) obtain ch h where h: "fold_sweep (node_ids g) False g = Some (ch, h)"
    and rest: "(if ch then fold_loop h else Some h) = Some g'"
    by (subst (asm) fold_loop.simps) (auto split: option.splits)
  show ?case
  proof (cases ch)
    case True
    then show ?thesis using "1.IH" [OF h refl] rest by simp
  next
    case False
    then show ?thesis using fold_sweep_unchanged [of "node_ids g" False g h] h rest by simp
  qed
qed

lemma fold_loop_idem: "fold_loop g = Some g' \<Longrightarrow> fold_loop g' = Some g'"
  using fold_loop_fixpoint [of g g'] fold_sweep_none [of "node_ids g'" g' False]
  by (subst fold_loop.simps) simp

section \<open>Completeness and definedness\<close>

text \<open>
  No node of a foldable kind carries an \<open>IsConst\<close> mark of another pass (a mark without the type
  \<open>Int\<close>, as \<^verbatim>\<open>AlgebraicSimplification.cpp\<close> leaves them).
\<close>

definition marks_clean :: "graph \<Rightarrow> bool" where
  "marks_clean g \<longleftrightarrow> (\<forall>i. in_graph g i \<longrightarrow> is_foldable_kind (n_kind (node g i)) \<longrightarrow>
     flags_has (n_flags (node g i)) NF_IsConst \<longrightarrow> is_int_const g i)"

text \<open>No reachable division of the least 64-bit value by \<open>-1\<close>.\<close>

definition div_safe :: "graph \<Rightarrow> bool" where
  "div_safe g \<longleftrightarrow> (\<forall>i a b x y. in_graph g i \<longrightarrow> n_kind (node g i) = NK_Div \<or> n_kind (node g i) = NK_Mod \<longrightarrow>
     data_inputs g i = [a, b] \<longrightarrow> eval_int g a x \<longrightarrow> eval_int g b y \<longrightarrow> y \<noteq> 0 \<longrightarrow>
     srange TYPE(64) (sint x sdiv sint y))"

lemma marks_clean_set_folded:
  "graph_wf g \<Longrightarrow> in_graph g i \<Longrightarrow> marks_clean g \<Longrightarrow> marks_clean (set_folded i v g)"
  by (auto simp: marks_clean_def is_int_const_def set_folded_node flag_simps)

lemma try_fold_clean:
  assumes "try_fold_binary g i = Some (c, g')" "in_graph g i" "graph_wf g" "marks_clean g"
  shows "graph_wf g' \<and> marks_clean g' \<and> (\<forall>j. in_graph g' j = in_graph g j)"
  using assms(1)
  by (cases rule: try_fold_cases) (use assms in \<open>auto simp: set_folded_node marks_clean_set_folded wf_set_folded\<close>)

lemma fold_sweep_clean:
  "fold_sweep is ch g = Some (ch', g') \<Longrightarrow> \<forall>i \<in> set is. in_graph g i \<Longrightarrow> graph_wf g \<Longrightarrow> marks_clean g \<Longrightarrow>
    graph_wf g' \<and> marks_clean g'"
proof (induction "is" arbitrary: ch g)
  case (Cons i "is")
  from Cons.prems(1) obtain c g1 where g1: "try_fold_binary g i = Some (c, g1)"
    and rest: "fold_sweep is (ch \<or> c) g1 = Some (ch', g')" by (auto split: option.splits)
  from try_fold_clean [OF g1] Cons.prems show ?case by (intro Cons.IH [OF rest]) auto
qed simp

lemma fold_loop_clean:
  "fold_loop g = Some g' \<Longrightarrow> graph_wf g \<Longrightarrow> marks_clean g \<Longrightarrow> marks_clean g'"
proof (induction g rule: fold_loop.induct)
  case (1 g)
  from "1.prems"(1) obtain ch h where h: "fold_sweep (node_ids g) False g = Some (ch, h)"
    and rest: "(if ch then fold_loop h else Some h) = Some g'"
    by (subst (asm) fold_loop.simps) (auto split: option.splits)
  have "graph_wf h \<and> marks_clean h" using fold_sweep_clean [OF h] "1.prems" by simp
  with "1.IH" [OF h refl] rest show ?case by (cases ch) auto
qed

lemma int_op_fold_switch:
  "is_foldable_kind k \<Longrightarrow> int_op k x y = Some v \<Longrightarrow> fold_switch k x y = Some (Some v)"
  by (auto simp: is_foldable_kind_def int_op_def fold_switch_def wrap_defs s_div_def s_mod_def split: if_splits)

lemma eval_in_graph: "eval_int g i v \<Longrightarrow> in_graph g i"
  by (cases rule: eval_int.cases) auto

text \<open>At the fixpoint every node with a value is a constant.\<close>

lemma fixpoint_all_const:
  assumes fp: "\<forall>i. in_graph g i \<longrightarrow> try_fold_binary g i = Some (False, g)"
    and sound: "marks_sound g" and clean: "marks_clean g"
  shows "eval_int g i v \<Longrightarrow> is_int_const g i \<and> const_value (side g i) = v"
proof (induction rule: eval_int.induct)
  case (eval_const i)
  then show ?case by (simp add: is_int_const_def)
next
  case (eval_op i a b x y v)
  note ab = eval_in_graph [OF eval_op.hyps(4)] eval_in_graph [OF eval_op.hyps(5)]
  have sw: "fold_switch (n_kind (node g i)) (const_value (side g a)) (const_value (side g b)) = Some (Some v)"
    using eval_op int_op_fold_switch by simp
  have "flags_has (n_flags (node g i)) NF_IsConst"
  proof (rule ccontr)
    assume "\<not> ?thesis"
    then have "try_fold_binary g i = Some (True, set_folded i v g)"
      using eval_op ab sw by (simp add: try_fold_binary_def)
    then show False using fp eval_op.hyps(1) by simp
  qed
  then have c: "is_int_const g i" using clean eval_op.hyps(1,2) by (simp add: marks_clean_def)
  then have "eval_int g i (const_value (side g i))" using sound eval_op.hyps(1) by (simp add: marks_sound_def)
  moreover have "eval_int g i v" using eval_op.hyps by (rule eval_int.eval_op)
  ultimately show ?case using c eval_int_det by blast
qed

lemma fold_switch_None:
  "fold_switch k x y = None \<Longrightarrow>
    (k = NK_Div \<or> k = NK_Mod) \<and> y \<noteq> 0 \<and> \<not> srange TYPE(64) (sint x sdiv sint y)"
  by (simp add: fold_switch_def s_div_def s_mod_def split: if_splits)

lemma try_fold_None:
  assumes "try_fold_binary g i = None" "\<forall>x \<in> set (data_inputs g i). in_graph g x"
  obtains a b where "data_inputs g i = [a, b]" "in_graph g a" "in_graph g b" "is_int_const g a" "is_int_const g b"
    "fold_switch (n_kind (node g i)) (const_value (side g a)) (const_value (side g b)) = None"
proof -
  have len: "length (data_inputs g i) = 2"
    by (rule ccontr) (use assms(1) in \<open>simp add: try_fold_binary_def Let_def split: if_splits\<close>)
  then obtain a b where ab: "data_inputs g i = [a, b]" by (auto simp: numeral_2_eq_2 length_Suc_conv)
  have ing: "in_graph g a" "in_graph g b" using assms(2) ab by auto
  have k: "is_foldable_kind (n_kind (node g i))"
    by (rule ccontr) (use assms(1) in \<open>simp add: try_fold_binary_def\<close>)
  have c: "is_int_const g a \<and> is_int_const g b"
    by (rule ccontr) (use assms(1) ab ing k in \<open>simp add: try_fold_binary_def\<close>)
  have m: "\<not> flags_has (n_flags (node g i)) NF_IsConst"
    using assms(1) ab ing k c by (cases "flags_has (n_flags (node g i)) NF_IsConst") (simp_all add: try_fold_binary_def)
  have "fold_switch (n_kind (node g i)) (const_value (side g a)) (const_value (side g b)) = None"
  proof (cases "fold_switch (n_kind (node g i)) (const_value (side g a)) (const_value (side g b))")
    case (Some r)
    then show ?thesis using assms(1) ab ing k c m by (cases r) (simp_all add: try_fold_binary_def)
  qed
  with ab ing c that show thesis by blast
qed

lemma try_fold_defined:
  assumes "in_graph g i" "\<forall>x \<in> set (data_inputs g i). in_graph g x" "marks_sound g" "div_safe g"
  shows "try_fold_binary g i \<noteq> None"
proof
  assume "try_fold_binary g i = None"
  then obtain a b where h: "data_inputs g i = [a, b]" "in_graph g a" "in_graph g b" "is_int_const g a"
      "is_int_const g b" "fold_switch (n_kind (node g i)) (const_value (side g a)) (const_value (side g b)) = None"
    using assms(2) by (rule try_fold_None)
  then have "eval_int g a (const_value (side g a))" "eval_int g b (const_value (side g b))"
    using assms(3) by (simp_all add: marks_sound_def)
  then show False using h(1) fold_switch_None [OF h(6)] assms(1,4) unfolding div_safe_def by metis
qed

definition no_dangling_data :: "graph \<Rightarrow> bool" where
  "no_dangling_data g \<longleftrightarrow> (\<forall>j. in_graph g j \<longrightarrow> (\<forall>x \<in> set (data_inputs g j). in_graph g x))"

lemma same_code_in_graph: "same_code g h \<Longrightarrow> in_graph h j \<longleftrightarrow> in_graph g j"
  by (simp add: same_code_def in_graph_def)

lemma same_code_nodes:
  "same_code g h \<Longrightarrow> in_graph g j \<Longrightarrow> n_kind (node h j) = n_kind (node g j) \<and> data_inputs h j = data_inputs g j"
  by (simp add: same_code_def)

lemma same_code_no_dangling:
  assumes "same_code g h" "no_dangling_data g"
  shows "no_dangling_data h"
  unfolding no_dangling_data_def
proof (intro allI impI ballI)
  fix j x
  assume j: "in_graph h j" and x: "x \<in> set (data_inputs h j)"
  from j have j': "in_graph g j" using same_code_in_graph [OF assms(1)] by blast
  with x have "x \<in> set (data_inputs g j)" using same_code_nodes [OF assms(1)] by auto
  with j' show "in_graph h x"
    using assms(2) same_code_in_graph [OF assms(1)] unfolding no_dangling_data_def by blast
qed

lemma same_code_div_safe:
  assumes "same_code g h" "div_safe g"
  shows "div_safe h"
  unfolding div_safe_def
proof (intro allI impI)
  fix i a b x y
  assume h: "in_graph h i" "n_kind (node h i) = NK_Div \<or> n_kind (node h i) = NK_Mod"
    "data_inputs h i = [a, b]" "eval_int h a x" "eval_int h b y" "y \<noteq> 0"
  from h(1) have i: "in_graph g i" using same_code_in_graph [OF assms(1)] by blast
  have "n_kind (node g i) = NK_Div \<or> n_kind (node g i) = NK_Mod" "data_inputs g i = [a, b]"
    using h(2,3) same_code_nodes [OF assms(1) i] by auto
  moreover have "eval_int g a x" "eval_int g b y"
    using h(4,5) same_code_eval_iff [OF assms(1)] by auto
  ultimately show "srange TYPE(64) (sint x sdiv sint y)"
    using assms(2) i h(6) unfolding div_safe_def by blast
qed

lemma fold_sweep_defined:
  "\<forall>i \<in> set is. in_graph g i \<Longrightarrow> fold_inv g0 g \<Longrightarrow> no_dangling_data g0 \<Longrightarrow> div_safe g0 \<Longrightarrow>
    fold_sweep is ch g \<noteq> None"
proof (induction "is" arbitrary: ch g)
  case (Cons i "is")
  have i: "in_graph g i" using Cons.prems(1) by simp
  have sc: "same_code g0 g" and ms: "marks_sound g" using Cons.prems(2) by (simp_all add: fold_inv_def)
  have "\<forall>x \<in> set (data_inputs g i). in_graph g x"
    using same_code_no_dangling [OF sc Cons.prems(3)] i unfolding no_dangling_data_def by blast
  then have "try_fold_binary g i \<noteq> None"
    by (rule try_fold_defined [OF i _ ms same_code_div_safe [OF sc Cons.prems(4)]])
  then obtain c g1 where g1: "try_fold_binary g i = Some (c, g1)" by auto
  have inv: "fold_inv g0 g1" by (rule try_fold_inv [OF g1 i Cons.prems(2)])
  then have "same_code g0 g1" by (simp add: fold_inv_def)
  then have "\<forall>i \<in> set is. in_graph g1 i"
    using Cons.prems(1) same_code_in_graph sc by auto
  from Cons.IH [OF this inv Cons.prems(3,4)] g1 show ?case by simp
qed simp

lemma fold_loop_defined:
  "fold_inv g0 g \<Longrightarrow> no_dangling_data g0 \<Longrightarrow> div_safe g0 \<Longrightarrow> fold_loop g \<noteq> None"
proof (induction g rule: fold_loop.induct)
  case (1 g)
  have "fold_sweep (node_ids g) False g \<noteq> None"
    by (rule fold_sweep_defined [OF _ "1.prems"]) simp
  then obtain ch h where h: "fold_sweep (node_ids g) False g = Some (ch, h)" by auto
  have inv: "fold_inv g0 h" using fold_sweep_inv [OF h _ "1.prems"(1)] by simp
  from "1.IH" [OF h refl _ inv "1.prems"(2,3)] h show ?case
    by (subst fold_loop.simps) auto
qed

section \<open>The pass\<close>

lemma constant_folding_run_Some:
  "constant_folding_run debug g = Some (g', r) \<longleftrightarrow> fold_loop g = Some g' \<and> r = verify_if_enabled debug g'"
  by (auto simp: constant_folding_run_def split: option.splits)

lemma fold_inv_refl: "graph_wf g \<Longrightarrow> marks_sound g \<Longrightarrow> fold_inv g g"
  by (simp add: fold_inv_def)

text \<open>The hypotheses on the example.\<close>

lemma marks_ex_arith: "marks_sound ex_arith" "marks_clean ex_arith"
  unfolding marks_sound_def marks_clean_def all_ex_arith
  using eval_const [of ex_arith 1] eval_const [of ex_arith 2]
  by (simp_all add: is_int_const_def nodes_ex_arith in_ex_arith is_foldable_kind_def flags_has_def del: One_nat_def)

lemma safe_ex_arith: "no_dangling_data ex_arith" "div_safe ex_arith"
proof -
  have no_div: "\<forall>i. in_graph ex_arith i \<longrightarrow> \<not> (n_kind (node ex_arith i) = NK_Div \<or> n_kind (node ex_arith i) = NK_Mod)"
    unfolding all_ex_arith by (simp add: nodes_ex_arith del: One_nat_def)
  then show "div_safe ex_arith" unfolding div_safe_def by blast
  show "no_dangling_data ex_arith"
    unfolding no_dangling_data_def all_ex_arith by (simp add: nodes_ex_arith in_ex_arith del: One_nat_def)
qed

lemma eval_ex_arith: "eval_int ex_arith 4 75"
proof -
  have 1: "eval_int ex_arith 1 20" "eval_int ex_arith 2 5"
    using eval_const [of ex_arith 1] eval_const [of ex_arith 2]
    by (simp_all add: nodes_ex_arith in_ex_arith del: One_nat_def)
  have 2: "eval_int ex_arith 3 15"
    by (rule eval_op [of _ _ 1 2 20 5])
      (simp_all add: in_ex_arith nodes_ex_arith 1 is_foldable_kind_def int_op_def del: One_nat_def)
  show ?thesis
    by (rule eval_op [of _ _ 3 2 15 5])
      (simp_all add: in_ex_arith nodes_ex_arith 1 2 is_foldable_kind_def int_op_def del: One_nat_def)
qed

lemma run_ex_arith: "\<exists>g' r. constant_folding_run True ex_arith = Some (g', r)"
  using fold_loop_defined [OF fold_inv_refl [OF wf_ex_arith marks_ex_arith(1)] safe_ex_arith]
  by (auto simp: constant_folding_run_def)





text \<open>The pass terminates without undefined behaviour on a graph without dangling inputs in which
  no division of the least value by \<open>-1\<close> is reached, and running it again changes nothing.\<close>

lemma constant_folding_defined:
  assumes "graph_wf g" "marks_sound g" "no_dangling_data g" "div_safe g"
  shows "\<exists>g'. constant_folding_run debug g = Some (g', verify_if_enabled debug g')
    \<and> constant_folding_run debug g' = Some (g', verify_if_enabled debug g')"
proof -
  obtain g' where "fold_loop g = Some g'"
    using fold_loop_defined [OF fold_inv_refl [OF assms(1,2)] assms(3,4)] by auto
  then show ?thesis using fold_loop_idem by (auto simp: constant_folding_run_Some)
qed

lemma constant_folding_defined_witness:
  "\<exists>g'. constant_folding_run True ex_arith = Some (g', verify_if_enabled True g')
    \<and> constant_folding_run True g' = Some (g', verify_if_enabled True g')"
  by (rule constant_folding_defined [OF wf_ex_arith marks_ex_arith(1) safe_ex_arith])

end
