(* ===== verification/Ir_Semantics.thy ===== *)
theory Ir_Semantics
  imports Ir_Refinement "HOL-Library.Multiset"
begin

text \<open>
  A semantics of the data nodes of a graph, the reference for the passes that rewire uses: the
  value of a node is the meaning \<open>F\<close> of its kind and payload on the values of its data inputs.
  \<open>F\<close> stays open; the locale \<open>node_semantics\<close> names what the passes rely on.
\<close>

section \<open>Values of nodes\<close>

type_synonym 'v meaning = "node_kind \<Rightarrow> node_side \<Rightarrow> 'v list \<Rightarrow> 'v option"

inductive eval :: "'v meaning \<Rightarrow> graph \<Rightarrow> node_id \<Rightarrow> 'v \<Rightarrow> bool" for F g where
  evalI: "in_graph g i \<Longrightarrow> list_all2 (eval F g) (data_inputs g i) vs \<Longrightarrow>
    F (n_kind (node g i)) (side g i) vs = Some v \<Longrightarrow> eval F g i v"
  monos list_all2_mono

inductive_cases evalE: "eval F g i v"

lemma list_all2_det:
  "list_all2 (\<lambda>x v. P x v \<and> (\<forall>w. Q x w \<longrightarrow> v = w)) xs vs \<Longrightarrow> list_all2 Q xs ws \<Longrightarrow> vs = ws"
  by (induction xs vs arbitrary: ws rule: list_all2_induct) (auto simp: list_all2_Cons1)

lemma eval_det: "eval F g i v \<Longrightarrow> eval F g i w \<Longrightarrow> v = w"
proof (induction arbitrary: w rule: eval.induct)
  case (evalI i vs v)
  from evalI.prems obtain ws where "list_all2 (eval F g) (data_inputs g i) ws"
    "F (n_kind (node g i)) (side g i) ws = Some w" by (auto elim: evalE)
  moreover have "vs = ws"
    by (rule list_all2_det [OF evalI.IH calculation(1)])
  ultimately show ?case using evalI.hyps(2) by simp
qed

section \<open>Replacing a node by an equivalent one\<close>

text \<open>
  Two nodes are congruent when each computes from its inputs what the other computes from its
  own, whatever the inputs denote.
\<close>

definition congruent :: "'v meaning \<Rightarrow> graph \<Rightarrow> node_id \<Rightarrow> node_id \<Rightarrow> bool" where
  "congruent F g i j \<longleftrightarrow> (\<forall>R vs. list_all2 R (data_inputs g i) vs \<longrightarrow>
     (\<exists>ws. list_all2 R (data_inputs g j) ws
       \<and> F (n_kind (node g j)) (side g j) ws = F (n_kind (node g i)) (side g i) vs))"

text \<open>A graph whose uses of \<open>a\<close> were redirected to \<open>b\<close>, possibly not in all nodes.\<close>

definition rewired :: "node_id \<Rightarrow> node_id \<Rightarrow> graph \<Rightarrow> graph \<Rightarrow> bool" where
  "rewired a b g h \<longleftrightarrow> g_size h = g_size g \<and> (\<forall>j. in_graph g j \<longrightarrow>
     n_kind (node h j) = n_kind (node g j) \<and> side h j = side g j
     \<and> (data_inputs h j = data_inputs g j \<or> data_inputs h j = map (subst_id a b) (data_inputs g j)))"

lemma rewired_in_graph: "rewired a b g h \<Longrightarrow> in_graph h j \<longleftrightarrow> in_graph g j"
  by (simp add: rewired_def in_graph_def)

lemma rewired_inputs:
  assumes "rewired a b g h" "in_graph g j"
    and "list_all2 (\<lambda>x v. P x v \<and> P (subst_id a b x) v) (data_inputs g j) vs"
  shows "list_all2 P (data_inputs h j) vs"
  using assms(1,2) list_all2_mono [OF assms(3), of P]
    list_all2_mono [OF assms(3), of "\<lambda>x v. P (subst_id a b x) v"]
  by (auto simp: rewired_def list_all2_map1)

lemma eval_rewired_forward:
  assumes rw: "rewired a b g h" and b: "in_graph g b" and cong: "congruent F g a b"
  shows "eval F g j v \<Longrightarrow> eval F h j v \<and> eval F h (subst_id a b j) v"
proof (induction rule: eval.induct)
  case (evalI i vs v)
  let ?P = "\<lambda>x v. eval F h x v \<and> eval F h (subst_id a b x) v"
  have ins: "list_all2 ?P (data_inputs g i) vs"
    using evalI.IH by (rule list_all2_mono) blast
  have own: "eval F h j v"
    if "in_graph g j" "list_all2 ?P (data_inputs g j) us" "F (n_kind (node g j)) (side g j) us = Some v" for j us
  proof (rule eval.evalI)
    show "in_graph h j" using that(1) rewired_in_graph [OF rw] by simp
    show "list_all2 (eval F h) (data_inputs h j) us" by (rule rewired_inputs [OF rw that(1,2)])
    show "F (n_kind (node h j)) (side h j) us = Some v" using that rw by (simp add: rewired_def)
  qed
  have "eval F h i v" by (rule own [OF evalI.hyps(1) ins evalI.hyps(2)])
  moreover have "eval F h b v" if "i = a"
  proof -
    from cong ins that obtain ws where "list_all2 ?P (data_inputs g b) ws"
      "F (n_kind (node g b)) (side g b) ws = F (n_kind (node g i)) (side g i) vs"
      unfolding congruent_def by blast
    then show ?thesis using own [OF b] evalI.hyps(2) by simp
  qed
  ultimately show ?case by (simp add: subst_id_def)
qed

lemma congruent_eval:
  assumes "congruent F g a b" "in_graph g b" "eval F g a v"
  shows "eval F g b v"
proof -
  from assms(3) obtain vs where "list_all2 (eval F g) (data_inputs g a) vs"
    "F (n_kind (node g a)) (side g a) vs = Some v" by (auto elim: evalE)
  moreover from this(1) assms(1) obtain ws where "list_all2 (eval F g) (data_inputs g b) ws"
    "F (n_kind (node g b)) (side g b) ws = F (n_kind (node g a)) (side g a) vs"
    unfolding congruent_def by blast
  ultimately show ?thesis using assms(2) by (auto intro: eval.evalI)
qed

lemma eval_rewired_back:
  assumes rw: "rewired a b g h" and a: "in_graph g a" and cong: "congruent F g b a"
  shows "eval F h j v \<Longrightarrow> eval F g j v"
proof (induction rule: eval.induct)
  case (evalI i vs v)
  have i: "in_graph g i" using evalI.hyps(1) rewired_in_graph [OF rw] by simp
  have ins: "list_all2 (eval F g) (data_inputs h i) vs"
    using evalI.IH by (rule list_all2_mono) blast
  have "list_all2 (eval F g) (data_inputs g i) vs"
  proof (cases "data_inputs h i = data_inputs g i")
    case False
    then have "data_inputs h i = map (subst_id a b) (data_inputs g i)" using rw i by (auto simp: rewired_def)
    then have "list_all2 (\<lambda>x v. eval F g (subst_id a b x) v) (data_inputs g i) vs"
      using ins by (simp add: list_all2_map1)
    then show ?thesis
      by (rule list_all2_mono) (use congruent_eval [OF cong a] in \<open>auto simp: subst_id_def split: if_splits\<close>)
  qed (use ins in simp)
  moreover have "F (n_kind (node g i)) (side g i) vs = Some v"
    using evalI.hyps(2) rw i by (simp add: rewired_def)
  ultimately show ?case using i by (blast intro: eval.evalI)
qed

lemma eval_rewired:
  assumes "rewired a b g h" "in_graph g a" "in_graph g b" "congruent F g a b" "congruent F g b a"
  shows "eval F h j v \<longleftrightarrow> eval F g j v"
  using eval_rewired_forward [OF assms(1,3,4)] eval_rewired_back [OF assms(1,2,5)] by blast

lemma replace_all_uses_fields [graph_simps]:
  assumes "graph_wf g" "in_graph g j"
  shows "node (replace_all_uses a b g) j = node g j" "side (replace_all_uses a b g) j = side g j"
  using assms by (simp_all add: node_def side_def)

text \<open>What the redundancy passes do with a duplicate.\<close>

lemma rewired_merge:
  assumes "graph_wf g" "in_graph g a"
  shows "rewired a b g (mark_dead a (replace_all_uses a b g))"
  unfolding rewired_def
  using assms inputs_replace_all_uses [OF assms(1), of _ a b]
  by (auto simp: inputs_mark_dead node_mark_dead wf_replace_all_uses replace_all_uses_fields)

section \<open>The laws the redundancy passes rely on\<close>

locale node_semantics =
  fixes F :: "'v meaning"
  assumes payload: "k \<noteq> NK_ConstInt \<Longrightarrow> F k s vs = F k s' vs"
    and literal: "const_value s = const_value s' \<Longrightarrow> F NK_ConstInt s vs = F NK_ConstInt s' vs"
    and commutes: "nki_commutative (lookup_node_kind_info k) \<Longrightarrow> mset vs = mset ws \<Longrightarrow> F k s vs = F k s ws"
begin

text \<open>Equal kinds, equal literals and equal inputs, up to order for commutative kinds.\<close>

lemma congruentI:
  assumes kind: "n_kind (node g i) = n_kind (node g j)"
    and lit: "n_kind (node g i) = NK_ConstInt \<Longrightarrow> const_value (side g i) = const_value (side g j)"
    and ins: "data_inputs g i = data_inputs g j \<or>
      nki_commutative (lookup_node_kind_info (n_kind (node g i))) \<and> mset (data_inputs g i) = mset (data_inputs g j)"
  shows "congruent F g i j"
  unfolding congruent_def
proof (intro allI impI)
  fix R and vs :: "'v list" assume R: "list_all2 R (data_inputs g i) vs"
  let ?k = "n_kind (node g i)"
  have side: "F ?k (side g j) ws = F ?k (side g i) ws" for ws
    using payload [of ?k "side g j" ws "side g i"] literal [of "side g j" "side g i" ws] lit
    by (cases "?k = NK_ConstInt") auto
  show "\<exists>ws. list_all2 R (data_inputs g j) ws
      \<and> F (n_kind (node g j)) (side g j) ws = F ?k (side g i) vs"
  proof (cases "data_inputs g i = data_inputs g j")
    case True
    then show ?thesis using R kind side by auto
  next
    case False
    then have c: "nki_commutative (lookup_node_kind_info ?k)"
      and m: "mset (data_inputs g j) = mset (data_inputs g i)" using ins by auto
    from list_all2_reorder_left_invariance [OF R m] obtain ws
      where "list_all2 R (data_inputs g j) ws" "mset ws = mset vs" by blast
    then show ?thesis using kind side commutes [OF c] by metis
  qed
qed

end

section \<open>Integer semantics\<close>

text \<open>
  The meaning of the integer nodes on 64-bit values: literals, wrapping arithmetic, bitwise
  operations, shifts (by the low six bits) and comparisons, with no value where division has none.
\<close>

definition int_sem :: "i64 meaning" where
  "int_sem k s vs =
     (case vs of
        [] \<Rightarrow> if k = NK_ConstInt then Some (const_value s) else None
      | [x, y] \<Rightarrow>
          if k = NK_Add then Some (x + y) else if k = NK_Sub then Some (x - y)
          else if k = NK_Mul then Some (x * y)
          else if k = NK_Div then s_div x y else if k = NK_Mod then s_mod x y
          else if k = NK_And then Some (x AND y) else if k = NK_Or then Some (x OR y)
          else if k = NK_Xor then Some (x XOR y)
          else if k = NK_Eq then Some (if x = y then 1 else 0)
          else if k = NK_Ne then Some (if x \<noteq> y then 1 else 0)
          else if k = NK_Lt then Some (if x <s y then 1 else 0)
          else if k = NK_Gt then Some (if y <s x then 1 else 0)
          else if k = NK_Lte then Some (if x \<le>s y then 1 else 0)
          else if k = NK_Gte then Some (if y \<le>s x then 1 else 0)
          else if k = NK_Shl then Some (push_bit (unat (y AND 63)) x)
          else if k = NK_Shr then Some (drop_bit (unat (y AND 63)) x)
          else if k = NK_Sar then Some (signed_drop_bit (unat (y AND 63)) x)
          else None
      | _ \<Rightarrow> None)"

lemma commutative_kinds:
  "\<not> nki_commutative (lookup_node_kind_info NK_Sub)" "\<not> nki_commutative (lookup_node_kind_info NK_Div)"
  "\<not> nki_commutative (lookup_node_kind_info NK_Mod)" "\<not> nki_commutative (lookup_node_kind_info NK_Lt)"
  "\<not> nki_commutative (lookup_node_kind_info NK_Gt)" "\<not> nki_commutative (lookup_node_kind_info NK_Lte)"
  "\<not> nki_commutative (lookup_node_kind_info NK_Gte)" "\<not> nki_commutative (lookup_node_kind_info NK_Shl)"
  "\<not> nki_commutative (lookup_node_kind_info NK_Shr)" "\<not> nki_commutative (lookup_node_kind_info NK_Sar)"
  by (simp_all add: lookup_node_kind_info_def kTable_def info_row_def)

lemma mset_two:
  assumes "mset [x, y] = mset ws"
  shows "ws = [x, y] \<or> ws = [y, x]"
proof -
  have "length ws = 2" using assms by (metis length_Cons list.size(3) size_mset One_nat_def Suc_1)
  then obtain a b where "ws = [a, b]" by (auto simp: numeral_2_eq_2 length_Suc_conv)
  with assms show ?thesis by (auto simp: add_eq_conv_ex)
qed

interpretation int: node_semantics int_sem
proof (unfold_locales, goal_cases)
  case (1 k s vs s')
  then show ?case by (auto simp: int_sem_def split: list.splits)
next
  case (2 s s' vs)
  then show ?case by (auto simp: int_sem_def split: list.splits)
next
  case (3 k vs ws s)
  have c: "k \<noteq> NK_Sub \<and> k \<noteq> NK_Div \<and> k \<noteq> NK_Mod \<and> k \<noteq> NK_Lt \<and> k \<noteq> NK_Gt \<and> k \<noteq> NK_Lte
      \<and> k \<noteq> NK_Gte \<and> k \<noteq> NK_Shl \<and> k \<noteq> NK_Shr \<and> k \<noteq> NK_Sar"
    using 3(1) commutative_kinds by blast
  have len: "length vs = length ws" using 3(2) by (metis size_mset)
  show ?case
  proof (cases "\<exists>x y. vs = [x, y]")
    case True
    then obtain x y where vs: "vs = [x, y]" by blast
    with mset_two [of x y ws] 3(2) consider "ws = vs" | "ws = [y, x]" by auto
    then show ?thesis
    proof cases
      case 2
      have "int_sem k s [x, y] = int_sem k s [y, x]"
        using c by (simp add: int_sem_def add.commute [of x y] mult.commute [of x y] and.commute [of x y]
            or.commute [of x y] xor.commute [of x y] eq_commute [of x y])
      with 2 vs show ?thesis by simp
    qed simp
  next
    case False
    then have none: "\<not> (\<exists>x y. vs = [x, y]) \<Longrightarrow> vs \<noteq> [] \<Longrightarrow> int_sem k s vs = None" for vs
      by (auto simp: int_sem_def split: list.splits)
    have "\<not> (\<exists>x y. ws = [x, y])" using False len by (auto simp: numeral_2_eq_2 length_Suc_conv)
    then show ?thesis using none [of vs] none [of ws] False len by (cases "vs = []"; cases "ws = []") auto
  qed
qed

end
