(* ===== verification/Gvn_Cse.thy ===== *)
theory Gvn_Cse
  imports Ir_Semantics
begin

text \<open>
  \<^verbatim>\<open>ir/passes/GVN.cpp\<close> and \<^verbatim>\<open>ir/passes/CSE.cpp\<close>: global value numbering and common
  subexpression elimination, two loops over a table of node signatures.
\<close>

section \<open>Hash tables keyed by signatures\<close>

text \<open>
  An \<^verbatim>\<open>unordered_map\<close> from signatures to node ids, of which the passes use \<open>try_emplace\<close> and
  \<open>clear\<close> only: a list of entries searched with the equality of the key type.
\<close>

fun table_find :: "('s \<Rightarrow> 's \<Rightarrow> bool) \<Rightarrow> 's \<Rightarrow> ('s \<times> node_id) list \<Rightarrow> node_id option" where
  "table_find eq s [] = None"
| "table_find eq s ((t, r) # tbl) = (if eq t s then Some r else table_find eq s tbl)"

lemma table_find_Some: "table_find eq s tbl = Some r \<Longrightarrow> \<exists>t. (t, r) \<in> set tbl \<and> eq t s"
  by (induction tbl) (auto split: if_splits)

lemma table_find_None: "table_find eq s tbl = None \<longleftrightarrow> (\<forall>e \<in> set tbl. \<not> eq (fst e) s)"
proof (induction tbl)
  case (Cons e tbl)
  then show ?case by (cases e) auto
qed simp

text \<open>FNV-1a over the words of a signature.\<close>

definition fnv_mix :: "u64 \<Rightarrow> u64 \<Rightarrow> u64" where
  "fnv_mix h v = (h XOR v) * 1099511628211"

section \<open>GVN\<close>

record node_signature =
  gs_kind :: node_kind
  gs_arity :: nat
  gs_inputs :: "node_id list"
  gs_const_int_value :: i64

definition gvn_sig_hash :: "node_signature \<Rightarrow> u64" where
  "gvn_sig_hash s =
     (let h = fnv_mix 14695981039346656037 (ucast (gs_kind s));
          h = fnv_mix h (of_nat (gs_arity s));
          h = fold (\<lambda>x h. fnv_mix h (of_nat x)) (gs_inputs s) h
      in fnv_mix h (gs_const_int_value s))"

definition gvn_make_signature :: "graph \<Rightarrow> node_id \<Rightarrow> node_signature" where
  "gvn_make_signature g nid =
     (let n = node g nid;
          sig = \<lparr>gs_kind = n_kind n, gs_arity = length (data_inputs g nid), gs_inputs = [],
                 gs_const_int_value = 0\<rparr>
      in if node_is_const n \<and> n_kind n = NK_ConstInt
         then sig\<lparr>gs_const_int_value := const_value (side g nid)\<rparr>
         else let inputs = data_inputs g nid
              in sig\<lparr>gs_inputs := (if flags_has (n_flags n) NF_Commutative then sort inputs else inputs)\<rparr>)"

fun gvn_loop ::
  "node_id list \<Rightarrow> (node_signature \<times> node_id) list \<Rightarrow> bool \<Rightarrow> graph \<Rightarrow> bool \<times> graph" where
  "gvn_loop [] table changed g = (changed, g)"
| "gvn_loop (i # is) table changed g =
     (if node_is_dead (node g i) then gvn_loop is table changed g
      else if \<not> node_is_pure (node g i) then gvn_loop is table changed g
      else let sig = gvn_make_signature g i
           in case table_find (=) sig table of
                None \<Rightarrow> gvn_loop is ((sig, i) # table) changed g
              | Some r \<Rightarrow> gvn_loop is table True (mark_dead i (replace_all_uses i r g)))"

definition gvn_run :: "bool \<Rightarrow> graph \<Rightarrow> (graph \<times> unit result) ub" where
  "gvn_run debug g =
     (let (changed, g') = gvn_loop (node_ids g) [] False g
      in Some (g', if changed then verify_if_enabled debug g' else Inr ()))"

section \<open>CSE\<close>

record cse_sig =
  cs_kind :: node_kind
  cs_arity :: nat
  cs_inputs :: "node_id list"
  cs_const_val :: i64
  cs_has_const :: bool

definition cse_sig_eq :: "cse_sig \<Rightarrow> cse_sig \<Rightarrow> bool" where
  "cse_sig_eq s t \<longleftrightarrow>
     cs_kind s = cs_kind t \<and> cs_arity s = cs_arity t \<and> cs_inputs s = cs_inputs t
     \<and> cs_has_const s = cs_has_const t \<and> (\<not> cs_has_const s \<or> cs_const_val s = cs_const_val t)"

definition cse_sig_hash :: "cse_sig \<Rightarrow> u64" where
  "cse_sig_hash s =
     (let h = fnv_mix 14695981039346656037 (ucast (cs_kind s));
          h = fnv_mix h (of_nat (cs_arity s));
          h = fold (\<lambda>x h. fnv_mix h (of_nat x)) (cs_inputs s) h
      in if cs_has_const s then fnv_mix h (cs_const_val s) else h)"

definition cse_make_signature :: "graph \<Rightarrow> node_id \<Rightarrow> cse_sig" where
  "cse_make_signature g nid =
     (let n = node g nid; inputs = data_inputs g nid;
          s = \<lparr>cs_kind = n_kind n, cs_arity = length inputs, cs_inputs = inputs, cs_const_val = 0,
               cs_has_const = False\<rparr>;
          s = (if flags_has (n_flags n) NF_IsConst \<and> n_kind n = NK_ConstInt
               then s\<lparr>cs_has_const := True, cs_const_val := const_value (side g nid)\<rparr> else s)
      in if flags_has (n_flags n) NF_Commutative then s\<lparr>cs_inputs := sort (cs_inputs s)\<rparr> else s)"

text \<open>An effectful node clears the table.\<close>

fun cse_loop :: "node_id list \<Rightarrow> (cse_sig \<times> node_id) list \<Rightarrow> bool \<Rightarrow> graph \<Rightarrow> bool \<times> graph" where
  "cse_loop [] table changed g = (changed, g)"
| "cse_loop (i # is) table changed g =
     (if node_is_dead (node g i) then cse_loop is table changed g
      else if node_is_effect (node g i) then cse_loop is [] changed g
      else if \<not> node_is_pure (node g i) then cse_loop is table changed g
      else let sig = cse_make_signature g i
           in case table_find cse_sig_eq sig table of
                None \<Rightarrow> cse_loop is ((sig, i) # table) changed g
              | Some r \<Rightarrow> cse_loop is table True (mark_dead i (replace_all_uses i r g)))"

definition cse_run :: "bool \<Rightarrow> graph \<Rightarrow> (graph \<times> unit result) ub" where
  "cse_run debug g =
     (let (changed, g') = cse_loop (node_ids g) [] False g
      in Some (g', if changed then verify_if_enabled debug g' else Inr ()))"

section \<open>Tables of signatures\<close>

text \<open>
  Shape of the graphs the frontends make: literals have no inputs and carry the \<open>IsConst\<close> flag, and
  the \<open>Commutative\<close> flag is set on commutative kinds only.
\<close>

definition node_shape_ok :: "graph \<Rightarrow> node_id \<Rightarrow> bool" where
  "node_shape_ok g j \<longleftrightarrow>
     (n_kind (node g j) = NK_ConstInt \<longrightarrow> data_inputs g j = [] \<and> flags_has (n_flags (node g j)) NF_IsConst)
     \<and> (flags_has (n_flags (node g j)) NF_Commutative \<longrightarrow>
          nki_commutative (lookup_node_kind_info (n_kind (node g j))))"

definition shape_ok :: "graph \<Rightarrow> bool" where
  "shape_ok g \<longleftrightarrow> (\<forall>j. in_graph g j \<longrightarrow> node_shape_ok g j)"

text \<open>What a merge changes in a node.\<close>

definition merge_uses :: "node_id \<Rightarrow> node_id \<Rightarrow> graph \<Rightarrow> graph" where
  "merge_uses i r g = mark_dead i (replace_all_uses i r g)"

lemma merge_node:
  assumes "graph_wf g" "in_graph g i" "in_graph g j"
  shows "n_kind (node (merge_uses i r g) j) = n_kind (node g j)"
    "n_type (node (merge_uses i r g) j) = n_type (node g j)"
    "n_flags (node (merge_uses i r g) j) = (if j = i then n_flags (node g j) OR NF_IsDead else n_flags (node g j))"
    "side (merge_uses i r g) j = side g j"
    "data_inputs (merge_uses i r g) j =
       (if node_is_dead (node g j) then data_inputs g j else map (subst_id i r) (data_inputs g j))"
    "node_is_dead (node (merge_uses i r g) j) \<longleftrightarrow> j = i \<or> node_is_dead (node g j)"
    "node_is_pure (node (merge_uses i r g) j) = node_is_pure (node g j)"
    "node_is_effect (node (merge_uses i r g) j) = node_is_effect (node g j)"
    "node_is_const (node (merge_uses i r g) j) = node_is_const (node g j)"
    "flags_has (n_flags (node (merge_uses i r g) j)) NF_Commutative = flags_has (n_flags (node g j)) NF_Commutative"
    "flags_has (n_flags (node (merge_uses i r g) j)) NF_IsConst = flags_has (n_flags (node g j)) NF_IsConst"
  using assms inputs_replace_all_uses [OF assms(1,3), of i r]
  by (auto simp: merge_uses_def node_mark_dead inputs_mark_dead wf_replace_all_uses replace_all_uses_fields
      node_is_dead_def node_is_pure_def node_is_effect_def node_is_const_def or_flags_def flag_simps)

lemma merge_basic [simp]:
  "in_graph (merge_uses i r g) j = in_graph g j" "g_size (merge_uses i r g) = g_size g"
  by (simp_all add: merge_uses_def)

lemma wf_merge [graph_wf]: "graph_wf g \<Longrightarrow> in_graph g i \<Longrightarrow> graph_wf (merge_uses i r g)"
  by (simp add: merge_uses_def wf_mark_dead wf_replace_all_uses)

lemma shape_merge: "graph_wf g \<Longrightarrow> in_graph g i \<Longrightarrow> shape_ok g \<Longrightarrow> shape_ok (merge_uses i r g)"
  unfolding shape_ok_def node_shape_ok_def merge_basic
  by (intro allI impI) (use merge_node [of g i _ r] in auto)

lemma subst_id_notin: "a \<notin> set xs \<Longrightarrow> map (subst_id a b) xs = xs"
  by (induction xs) (auto simp: subst_id_def)

text \<open>
  The interface between the loops and their signatures: which signature a node has, when two keys
  are equal, and which ids a key mentions.
\<close>

locale signature_table =
  fixes F :: "'v meaning"
    and mk :: "graph \<Rightarrow> node_id \<Rightarrow> 's"
    and eq :: "'s \<Rightarrow> 's \<Rightarrow> bool"
    and ids :: "'s \<Rightarrow> node_id set"
  assumes same_key: "shape_ok g \<Longrightarrow> in_graph g i \<Longrightarrow> in_graph g j \<Longrightarrow> eq (mk g i) (mk g j) \<Longrightarrow>
      congruent F g i j \<and> congruent F g j i"
    and same_inputs: "graph_wf g \<Longrightarrow> in_graph g i \<Longrightarrow> in_graph g j \<Longrightarrow>
      data_inputs (merge_uses i r g) j = data_inputs g j \<Longrightarrow> mk (merge_uses i r g) j = mk g j"
    and ids_mk: "shape_ok g \<Longrightarrow> in_graph g j \<Longrightarrow> ids (mk g j) = set (data_inputs g j)"
    and eq_ids: "eq s t \<Longrightarrow> ids s = ids t"
begin

text \<open>
  The loop invariant: \<open>D\<close> are the ids merged away so far. An entry is the current key of a live
  node, or it mentions an id of \<open>D\<close> and can never be found again.
\<close>

definition table_inv :: "graph \<Rightarrow> node_id set \<Rightarrow> ('s \<times> node_id) list \<Rightarrow> graph \<Rightarrow> bool" where
  "table_inv g0 D tbl g \<longleftrightarrow> graph_wf g \<and> shape_ok g \<and> g_size g = g_size g0
     \<and> (\<forall>j v. eval F g j v \<longleftrightarrow> eval F g0 j v)
     \<and> (\<forall>j \<in> D. in_graph g j \<and> node_is_dead (node g j))
     \<and> (\<forall>j. in_graph g j \<longrightarrow> \<not> node_is_dead (node g j) \<longrightarrow> set (data_inputs g j) \<inter> D = {})
     \<and> (\<forall>(s, r) \<in> set tbl. in_graph g r \<and> \<not> node_is_dead (node g r) \<and> (s = mk g r \<or> ids s \<inter> D \<noteq> {}))"

lemma table_inv_init: "graph_wf g \<Longrightarrow> shape_ok g \<Longrightarrow> table_inv g {} [] g"
  by (simp add: table_inv_def)

lemma table_inv_clear: "table_inv g0 D tbl g \<Longrightarrow> table_inv g0 D [] g"
  by (simp add: table_inv_def)

lemma table_inv_insert:
  "table_inv g0 D tbl g \<Longrightarrow> in_graph g i \<Longrightarrow> \<not> node_is_dead (node g i) \<Longrightarrow>
    table_inv g0 D ((mk g i, i) # tbl) g"
  by (simp add: table_inv_def)

lemma table_hit:
  assumes inv: "table_inv g0 D tbl g" and i: "in_graph g i" "\<not> node_is_dead (node g i)"
    and hit: "table_find eq (mk g i) tbl = Some r"
  shows "in_graph g r \<and> \<not> node_is_dead (node g r) \<and> r \<in> snd ` set tbl
    \<and> congruent F g i r \<and> congruent F g r i"
proof -
  from table_find_Some [OF hit] obtain t where t: "(t, r) \<in> set tbl" "eq t (mk g i)" by blast
  have r: "in_graph g r" "\<not> node_is_dead (node g r)" "t = mk g r \<or> ids t \<inter> D \<noteq> {}"
    using inv t(1) unfolding table_inv_def by auto
  have "ids t = set (data_inputs g i)"
    using eq_ids [OF t(2)] ids_mk inv i(1) unfolding table_inv_def by auto
  moreover have "set (data_inputs g i) \<inter> D = {}" using inv i unfolding table_inv_def by blast
  ultimately have "t = mk g r" using r(3) by auto
  then have "congruent F g r i \<and> congruent F g i r"
    using same_key [OF _ r(1) i(1)] t(2) inv unfolding table_inv_def by blast
  then show ?thesis using r t by force
qed

lemma table_inv_merge:
  assumes inv: "table_inv g0 D tbl g" and i: "in_graph g i" "\<not> node_is_dead (node g i)" "i \<notin> snd ` set tbl"
    and hit: "table_find eq (mk g i) tbl = Some r"
  shows "table_inv g0 (insert i D) tbl (merge_uses i r g)"
proof -
  have r: "in_graph g r" "\<not> node_is_dead (node g r)" "r \<in> snd ` set tbl" "congruent F g i r" "congruent F g r i"
    using table_hit [OF inv i(1,2) hit] by auto
  then have ne: "r \<noteq> i" using i(3) by auto
  have wf: "graph_wf g" and sh: "shape_ok g" using inv by (simp_all add: table_inv_def)
  note mn = merge_node [OF wf i(1), of _ r]
  have rD: "r \<notin> D" using r(2) inv unfolding table_inv_def by blast
  have ev: "\<forall>j v. eval F (merge_uses i r g) j v \<longleftrightarrow> eval F g0 j v"
    using eval_rewired [OF rewired_merge [OF wf i(1)] i(1) r(1,4,5)] inv
    unfolding table_inv_def merge_uses_def by blast
  have dead: "\<forall>j \<in> insert i D. in_graph g j \<and> node_is_dead (node (merge_uses i r g) j)"
    using inv i(1) mn(6) unfolding table_inv_def by auto
  have live: "set (data_inputs (merge_uses i r g) j) \<inter> insert i D = {}"
    if j: "in_graph g j" "\<not> node_is_dead (node (merge_uses i r g) j)" for j
  proof -
    have "\<not> node_is_dead (node g j)" using j mn(6) by auto
    then have "set (data_inputs g j) \<inter> D = {}" "data_inputs (merge_uses i r g) j = map (subst_id i r) (data_inputs g j)"
      using inv j(1) mn(5) unfolding table_inv_def by auto
    then show ?thesis using ne rD by (auto simp: subst_id_def)
  qed
  have entries: "in_graph g q \<and> \<not> node_is_dead (node (merge_uses i r g) q)
      \<and> (s = mk (merge_uses i r g) q \<or> ids s \<inter> insert i D \<noteq> {})" if e: "(s, q) \<in> set tbl" for s q
  proof -
    have q: "in_graph g q" "\<not> node_is_dead (node g q)" "s = mk g q \<or> ids s \<inter> D \<noteq> {}"
      using inv e unfolding table_inv_def by auto
    have "q \<noteq> i" using e i(3) by force
    then have d: "\<not> node_is_dead (node (merge_uses i r g) q)" using q mn(6) by simp
    have "s = mk (merge_uses i r g) q \<or> ids s \<inter> insert i D \<noteq> {}" if s: "s = mk g q"
    proof (cases "i \<in> set (data_inputs g q)")
      case True
      then show ?thesis using ids_mk [OF sh q(1)] s by auto
    next
      case False
      then have "data_inputs (merge_uses i r g) q = data_inputs g q"
        using mn(5) [OF q(1)] by (simp add: subst_id_notin)
      then show ?thesis using same_inputs [OF wf i(1) q(1)] s by simp
    qed
    then show ?thesis using q d by auto
  qed
  have "g_size g = g_size g0" using inv by (simp add: table_inv_def)
  then show ?thesis
    unfolding table_inv_def merge_basic
    using wf_merge [OF wf i(1)] shape_merge [OF wf i(1) sh] ev dead live entries by blast
qed

end

section \<open>Soundness\<close>

definition norm_inputs :: "graph \<Rightarrow> node_id \<Rightarrow> node_id list" where
  "norm_inputs g j =
     (if flags_has (n_flags (node g j)) NF_Commutative then sort (data_inputs g j) else data_inputs g j)"

lemma set_norm_inputs [simp]: "set (norm_inputs g j) = set (data_inputs g j)"
  by (simp add: norm_inputs_def)

lemma norm_inputs_eq:
  assumes "node_shape_ok g i" "node_shape_ok g j" "n_kind (node g i) = n_kind (node g j)"
    "norm_inputs g i = norm_inputs g j"
  shows "data_inputs g i = data_inputs g j \<or>
    nki_commutative (lookup_node_kind_info (n_kind (node g i))) \<and> mset (data_inputs g i) = mset (data_inputs g j)"
proof -
  have m: "mset (data_inputs g i) = mset (data_inputs g j)"
    using arg_cong [OF assms(4), of mset] by (simp add: norm_inputs_def split: if_splits)
  consider "flags_has (n_flags (node g i)) NF_Commutative" | "flags_has (n_flags (node g j)) NF_Commutative"
    | "norm_inputs g i = data_inputs g i" "norm_inputs g j = data_inputs g j"
    by (cases "flags_has (n_flags (node g i)) NF_Commutative"; cases "flags_has (n_flags (node g j)) NF_Commutative")
      (simp_all add: norm_inputs_def)
  then show ?thesis
    using assms m unfolding node_shape_ok_def by cases auto
qed

lemma gvn_signature_fields:
  assumes "node_shape_ok g j"
  shows "gs_kind (gvn_make_signature g j) = n_kind (node g j)"
    "gs_inputs (gvn_make_signature g j) = norm_inputs g j"
    "gs_const_int_value (gvn_make_signature g j) = (if n_kind (node g j) = NK_ConstInt then const_value (side g j) else 0)"
  using assms by (auto simp: gvn_make_signature_def Let_def node_shape_ok_def node_is_const_def norm_inputs_def)

lemma cse_signature_fields:
  assumes "node_shape_ok g j"
  shows "cs_kind (cse_make_signature g j) = n_kind (node g j)"
    "cs_inputs (cse_make_signature g j) = norm_inputs g j"
    "cs_has_const (cse_make_signature g j) \<longleftrightarrow> n_kind (node g j) = NK_ConstInt"
    "cs_const_val (cse_make_signature g j) = (if n_kind (node g j) = NK_ConstInt then const_value (side g j) else 0)"
  using assms by (auto simp: cse_make_signature_def Let_def node_shape_ok_def norm_inputs_def)

lemma gvn_same_signature:
  assumes "node_shape_ok g i" "node_shape_ok g j" "gvn_make_signature g i = gvn_make_signature g j"
  shows "n_kind (node g i) = n_kind (node g j)"
    and "n_kind (node g i) = NK_ConstInt \<Longrightarrow> const_value (side g i) = const_value (side g j)"
    and "norm_inputs g i = norm_inputs g j"
  using assms gvn_signature_fields by metis+

lemma cse_same_signature:
  assumes "node_shape_ok g i" "node_shape_ok g j" "cse_sig_eq (cse_make_signature g i) (cse_make_signature g j)"
  shows "n_kind (node g i) = n_kind (node g j)"
    and "n_kind (node g i) = NK_ConstInt \<Longrightarrow> const_value (side g i) = const_value (side g j)"
    and "norm_inputs g i = norm_inputs g j"
  using assms by (auto simp: cse_sig_eq_def cse_signature_fields)

lemma shape_okD: "shape_ok g \<Longrightarrow> in_graph g j \<Longrightarrow> node_shape_ok g j"
  by (simp add: shape_ok_def)

sublocale node_semantics \<subseteq> gvn: signature_table F gvn_make_signature "(=)" "\<lambda>s. set (gs_inputs s)"
proof (unfold_locales, goal_cases)
  case (1 g i j)
  then have ok: "node_shape_ok g i" "node_shape_ok g j" by (simp_all add: shape_okD)
  note s = gvn_same_signature [OF ok 1(4)]
  show ?case
    using congruentI [OF s(1,2) norm_inputs_eq [OF ok s(1,3)]]
      congruentI [OF s(1)[symmetric] s(2)[symmetric] norm_inputs_eq [OF ok(2,1) s(1,3)[symmetric]]] s(1) by simp
next
  case (2 g i j r)
  then show ?case by (simp add: gvn_make_signature_def Let_def merge_node(1,4,9,10,11))
qed (simp_all add: gvn_signature_fields shape_okD)

sublocale node_semantics \<subseteq> cse: signature_table F cse_make_signature cse_sig_eq "\<lambda>s. set (cs_inputs s)"
proof (unfold_locales, goal_cases)
  case (1 g i j)
  then have ok: "node_shape_ok g i" "node_shape_ok g j" by (simp_all add: shape_okD)
  note s = cse_same_signature [OF ok 1(4)]
  show ?case
    using congruentI [OF s(1,2) norm_inputs_eq [OF ok s(1,3)]]
      congruentI [OF s(1)[symmetric] s(2)[symmetric] norm_inputs_eq [OF ok(2,1) s(1,3)[symmetric]]] s(1) by simp
next
  case (2 g i j r)
  then show ?case by (simp add: cse_make_signature_def Let_def merge_node(1,4,9,10,11))
qed (auto simp: cse_signature_fields shape_okD cse_sig_eq_def)

context node_semantics begin

lemma gvn_loop_inv:
  "gvn_loop is tbl ch g = (ch', g') \<Longrightarrow> gvn.table_inv g0 D tbl g \<Longrightarrow> distinct is \<Longrightarrow>
    \<forall>i \<in> set is. in_graph g i \<Longrightarrow> snd ` set tbl \<inter> set is = {} \<Longrightarrow> \<exists>D' tbl'. gvn.table_inv g0 D' tbl' g'"
proof (induction "is" arbitrary: tbl ch g D)
  case (Cons i "is")
  have i: "in_graph g i" "i \<notin> snd ` set tbl" using Cons.prems(4,5) by auto
  show ?case
  proof (cases "node_is_dead (node g i) \<or> \<not> node_is_pure (node g i)")
    case True
    then have "gvn_loop is tbl ch g = (ch', g')" using Cons.prems(1) by (simp split: if_splits)
    then show ?thesis using Cons.IH [of tbl ch g D] Cons.prems by auto
  next
    case False
    then have live: "\<not> node_is_dead (node g i)" by simp
    show ?thesis
    proof (cases "table_find (=) (gvn_make_signature g i) tbl")
      case None
      then show ?thesis
        using False Cons.IH [OF _ gvn.table_inv_insert [OF Cons.prems(2) i(1) live]] Cons.prems
        by (auto simp: Let_def)
    next
      case (Some r)
      then show ?thesis
        using False Cons.IH [OF _ gvn.table_inv_merge [OF Cons.prems(2) i(1) live i(2) Some]] Cons.prems
        by (auto simp: Let_def merge_uses_def)
    qed
  qed
qed auto

lemma cse_loop_inv:
  "cse_loop is tbl ch g = (ch', g') \<Longrightarrow> cse.table_inv g0 D tbl g \<Longrightarrow> distinct is \<Longrightarrow>
    \<forall>i \<in> set is. in_graph g i \<Longrightarrow> snd ` set tbl \<inter> set is = {} \<Longrightarrow> \<exists>D' tbl'. cse.table_inv g0 D' tbl' g'"
proof (induction "is" arbitrary: tbl ch g D)
  case (Cons i "is")
  have i: "in_graph g i" "i \<notin> snd ` set tbl" using Cons.prems(4,5) by auto
  consider (skip) "node_is_dead (node g i)" | (eff) "\<not> node_is_dead (node g i)" "node_is_effect (node g i)"
    | (impure) "\<not> node_is_dead (node g i)" "\<not> node_is_effect (node g i)" "\<not> node_is_pure (node g i)"
    | (pure) "\<not> node_is_dead (node g i)" "\<not> node_is_effect (node g i)" "node_is_pure (node g i)" by blast
  then show ?case
  proof cases
    case eff
    then show ?thesis
      using Cons.IH [OF _ cse.table_inv_clear [OF Cons.prems(2)]] Cons.prems by auto
  next
    case pure
    show ?thesis
    proof (cases "table_find cse_sig_eq (cse_make_signature g i) tbl")
      case None
      then show ?thesis
        using pure Cons.IH [OF _ cse.table_inv_insert [OF Cons.prems(2) i(1) pure(1)]] Cons.prems
        by (auto simp: Let_def)
    next
      case (Some r)
      then show ?thesis
        using pure Cons.IH [OF _ cse.table_inv_merge [OF Cons.prems(2) i(1) pure(1) i(2) Some]] Cons.prems
        by (auto simp: Let_def merge_uses_def)
    qed
  qed (use Cons.IH [of tbl ch g D] Cons.prems in auto)
qed auto

end

section \<open>Completeness of GVN\<close>

text \<open>A graph whose nodes only use earlier nodes, as straight-line lowering produces.\<close>

definition topological :: "graph \<Rightarrow> bool" where
  "topological g \<longleftrightarrow> (\<forall>j. in_graph g j \<longrightarrow> (\<forall>x \<in> set (data_inputs g j). x < j))"

lemma topological_merge:
  assumes "graph_wf g" "topological g" "in_graph g i" "r < i"
  shows "topological (merge_uses i r g)"
  unfolding topological_def merge_basic
proof (intro allI impI ballI)
  fix j x assume j: "in_graph g j" and x: "x \<in> set (data_inputs (merge_uses i r g) j)"
  have "\<forall>y \<in> set (data_inputs g j). y < j" using assms(2) j by (simp add: topological_def)
  with x assms(4) show "x < j"
    by (auto simp: merge_node(5) [OF assms(1,3) j] subst_id_def split: if_splits dest: less_trans)
qed

lemma merge_earlier:
  assumes "graph_wf g" "topological g" "in_graph g i" "in_graph g j" "j \<le> i"
  shows "data_inputs (merge_uses i r g) j = data_inputs g j"
proof -
  have "i \<notin> set (data_inputs g j)" using assms(2,4,5) unfolding topological_def by (meson leD)
  then show ?thesis using merge_node(5) [OF assms(1,3,4), of r] by (simp add: subst_id_notin)
qed

text \<open>Every node seen so far and still live is the one its signature leads to.\<close>

definition numbered :: "nat \<Rightarrow> (node_signature \<times> node_id) list \<Rightarrow> graph \<Rightarrow> bool" where
  "numbered k tbl g \<longleftrightarrow> graph_wf g \<and> topological g \<and> (\<forall>e \<in> set tbl. snd e < k)
     \<and> (\<forall>j. in_graph g j \<longrightarrow> j < k \<longrightarrow> \<not> node_is_dead (node g j) \<longrightarrow> node_is_pure (node g j) \<longrightarrow>
          table_find (=) (gvn_make_signature g j) tbl = Some j)"

lemma numberedD:
  "numbered k tbl g \<Longrightarrow> in_graph g j \<Longrightarrow> j < k \<Longrightarrow> \<not> node_is_dead (node g j) \<Longrightarrow> node_is_pure (node g j) \<Longrightarrow>
    table_find (=) (gvn_make_signature g j) tbl = Some j"
  unfolding numbered_def by blast

lemma numbered_skip:
  "numbered k tbl g \<Longrightarrow> node_is_dead (node g k) \<or> \<not> node_is_pure (node g k) \<Longrightarrow> numbered (Suc k) tbl g"
  unfolding numbered_def by (auto simp: less_Suc_eq)

lemma numbered_insert:
  assumes "numbered k tbl g" "table_find (=) (gvn_make_signature g k) tbl = None"
  shows "numbered (Suc k) ((gvn_make_signature g k, k) # tbl) g"
proof -
  have "gvn_make_signature g k \<noteq> gvn_make_signature g j"
    if "table_find (=) (gvn_make_signature g j) tbl = Some j" for j
    using that assms(2) by auto
  with assms(1) show ?thesis unfolding numbered_def by (auto simp: less_Suc_eq)
qed

lemma numbered_merge:
  assumes n: "numbered k tbl g" and k: "in_graph g k" and hit: "table_find (=) (gvn_make_signature g k) tbl = Some r"
  shows "numbered (Suc k) tbl (merge_uses k r g)"
proof -
  have wf: "graph_wf g" and top: "topological g" using n by (simp_all add: numbered_def)
  from table_find_Some [OF hit] obtain t where "(t, r) \<in> set tbl" by blast
  then have r: "r < k" using n unfolding numbered_def by fastforce
  have "table_find (=) (gvn_make_signature (merge_uses k r g) j) tbl = Some j"
    if j: "in_graph g j" "j < Suc k" "\<not> node_is_dead (node (merge_uses k r g) j)" "node_is_pure (node (merge_uses k r g) j)" for j
  proof -
    have "j < k" "\<not> node_is_dead (node g j)" "node_is_pure (node g j)"
      using j merge_node(6,7) [OF wf k j(1)] by (auto simp: less_Suc_eq)
    moreover have "gvn_make_signature (merge_uses k r g) j = gvn_make_signature g j"
      using int.gvn.same_inputs [OF wf k j(1) merge_earlier [OF wf top k j(1)]] \<open>j < k\<close> by simp
    ultimately show ?thesis using n j(1) unfolding numbered_def by simp
  qed
  then show ?thesis
    using n wf_merge [OF wf k] topological_merge [OF wf top k r]
    unfolding numbered_def by (auto intro: less_SucI)
qed

lemma gvn_loop_numbered:
  "gvn_loop [k..<k + m] tbl ch g = (ch', g') \<Longrightarrow> numbered k tbl g \<Longrightarrow> k + m = Suc (g_size g) \<Longrightarrow> 1 \<le> k \<Longrightarrow>
    \<exists>tbl'. numbered (Suc (g_size g)) tbl' g' \<and> g_size g' = g_size g"
proof (induction m arbitrary: k tbl ch g)
  case (Suc m)
  have k: "in_graph g k" using Suc.prems(3,4) by (simp add: in_graph_def)
  have up: "[k..<k + Suc m] = k # [Suc k..<Suc k + m]" by (simp add: upt_rec)
  note prem = Suc.prems(1) [unfolded up gvn_loop.simps]
  show ?case
  proof (cases "node_is_dead (node g k) \<or> \<not> node_is_pure (node g k)")
    case True
    then have "gvn_loop [Suc k..<Suc k + m] tbl ch g = (ch', g')" using prem by (simp split: if_splits)
    from Suc.IH [OF this numbered_skip [OF Suc.prems(2) True]] show ?thesis using Suc.prems by simp
  next
    case False
    show ?thesis
    proof (cases "table_find (=) (gvn_make_signature g k) tbl")
      case None
      with prem False have "gvn_loop [Suc k..<Suc k + m] ((gvn_make_signature g k, k) # tbl) ch g = (ch', g')"
        by (simp add: Let_def)
      from Suc.IH [OF this numbered_insert [OF Suc.prems(2) None]] show ?thesis using Suc.prems by simp
    next
      case (Some r)
      with prem False have "gvn_loop [Suc k..<Suc k + m] tbl True (merge_uses k r g) = (ch', g')"
        by (simp add: Let_def merge_uses_def)
      from Suc.IH [OF this numbered_merge [OF Suc.prems(2) k Some]] show ?thesis using Suc.prems by simp
    qed
  qed
qed auto

section \<open>The passes\<close>

lemma gvn_run_inv:
  assumes "graph_wf g" "shape_ok g" "gvn_run debug g = Some (g', r)"
  shows "\<exists>D tbl. int.gvn.table_inv g D tbl g'"
proof -
  obtain ch where "gvn_loop (node_ids g) [] False g = (ch, g')"
    using assms(3) by (auto simp: gvn_run_def split_beta prod_eq_iff)
  then show ?thesis
    by (rule int.gvn_loop_inv [OF _ int.gvn.table_inv_init [OF assms(1,2)]]) (simp_all add: distinct_node_ids)
qed

lemma cse_run_inv:
  assumes "graph_wf g" "shape_ok g" "cse_run debug g = Some (g', r)"
  shows "\<exists>D tbl. int.cse.table_inv g D tbl g'"
proof -
  obtain ch where "cse_loop (node_ids g) [] False g = (ch, g')"
    using assms(3) by (auto simp: cse_run_def split_beta prod_eq_iff)
  then show ?thesis
    by (rule int.cse_loop_inv [OF _ int.cse.table_inv_init [OF assms(1,2)]]) (simp_all add: distinct_node_ids)
qed

lemma shape_ex_dup: "shape_ok ex_dup"
  unfolding shape_ok_def all_ex_dup node_shape_ok_def
  by (simp add: nodes_ex_dup flags_has_def lookup_node_kind_info_def kTable_def info_row_def del: One_nat_def)

lemma topological_ex_dup: "topological ex_dup"
  unfolding topological_def all_ex_dup by (simp add: nodes_ex_dup del: One_nat_def)

lemma eval_ex_dup: "eval int_sem ex_dup 5 625"
proof -
  have c: "eval int_sem ex_dup 1 20" "eval int_sem ex_dup 2 5"
    by (rule evalI [of _ _ _ "[]"]; simp add: in_ex_dup nodes_ex_dup int_sem_def del: One_nat_def)+
  have a: "eval int_sem ex_dup 3 25" "eval int_sem ex_dup 4 25"
    by (rule evalI [of _ _ _ "[20, 5]"]; simp add: in_ex_dup nodes_ex_dup int_sem_def c del: One_nat_def)
      (rule evalI [of _ _ _ "[5, 20]"]; simp add: in_ex_dup nodes_ex_dup int_sem_def c del: One_nat_def)
  show ?thesis
    by (rule evalI [of _ _ _ "[25, 25]"]) (simp_all add: in_ex_dup nodes_ex_dup int_sem_def a del: One_nat_def)
qed

text \<open>Equal keys have equal hashes, which the hash tables require.\<close>

lemma cse_hash_respects_eq: "cse_sig_eq s t \<Longrightarrow> cse_sig_hash s = cse_sig_hash t"
  by (auto simp: cse_sig_eq_def cse_sig_hash_def Let_def)

text \<open>Global value numbering never fails by undefined behaviour, keeps the graph well formed and
  its literals and commutative flags in shape, and preserves the integer value of every node.\<close>

lemma gvn_preserves_values:
  assumes "graph_wf g" "shape_ok g" "gvn_run debug g = Some (g', r)"
  shows "graph_wf g' \<and> shape_ok g' \<and> (\<forall>j v. eval int_sem g' j v \<longleftrightarrow> eval int_sem g j v)"
  using gvn_run_inv [OF assms] unfolding int.gvn.table_inv_def by blast

lemma gvn_preserves_values_witness:
  "\<exists>g' r. gvn_run True ex_dup = Some (g', r) \<and> eval int_sem g' 5 625"
proof -
  obtain g' r where run: "gvn_run True ex_dup = Some (g', r)"
    by (simp add: gvn_run_def split_beta)
  then show ?thesis using gvn_preserves_values [OF wf_ex_dup shape_ex_dup run] eval_ex_dup by blast
qed

text \<open>C6: on a graph whose nodes use earlier nodes only, global value numbering leaves no two live pure
  nodes with the same signature.\<close>

theorem gvn_leaves_no_duplicates:
  assumes "graph_wf g" "topological g" "gvn_run debug g = Some (g', r)"
    and "in_graph g' i" "\<not> node_is_dead (node g' i)" "node_is_pure (node g' i)"
    and "in_graph g' j" "\<not> node_is_dead (node g' j)" "node_is_pure (node g' j)"
    and "gvn_make_signature g' i = gvn_make_signature g' j"
  shows "i = j"
proof -
  obtain ch where l: "gvn_loop [1..<1 + g_size g] [] False g = (ch, g')"
    using assms(3) by (auto simp: gvn_run_def node_ids_def split_beta prod_eq_iff add.commute)
  have "numbered 1 [] g" using assms(1,2) by (simp add: numbered_def in_graph_def)
  from gvn_loop_numbered [OF l this] obtain tbl where n: "numbered (Suc (g_size g)) tbl g'" "g_size g' = g_size g" by auto
  have "i < Suc (g_size g)" "j < Suc (g_size g)" using assms(4,7) n(2) by (simp_all add: in_graph_def)
  then have "table_find (=) (gvn_make_signature g' i) tbl = Some i" "table_find (=) (gvn_make_signature g' j) tbl = Some j"
    using numberedD [OF n(1) assms(4) _ assms(5,6)] numberedD [OF n(1) assms(7) _ assms(8,9)] by blast+
  then show ?thesis using assms(10) by (metis option.inject)
qed

lemma gvn_ex_dup_nodes:
  "map (\<lambda>j. (node_is_dead (node (fst (the (gvn_run False ex_dup))) j), node_is_pure (node (fst (the (gvn_run False ex_dup))) j)))
     [3, 4, 5] = [(False, True), (True, True), (False, True)]
   \<and> g_size (fst (the (gvn_run False ex_dup))) = 5"
  by (simp add: gvn_run_def node_ids_def g_size_def ex_dup_eq upt_rec node_def node_is_dead_def node_is_pure_def
      flags_has_def gvn_make_signature_def input_defs pool_get_def empty_slice_def node_is_const_def side_def
      default_side_def mark_dead_def upd_node_def or_flags_def replace_all_uses_def replace_uses_in_def
      map_range_def Let_def)

theorem gvn_leaves_no_duplicates_witness:
  "let g' = fst (the (gvn_run False ex_dup)) in
     node_is_dead (node g' 4) \<and> gvn_make_signature g' 3 \<noteq> gvn_make_signature g' 5"
proof -
  obtain g' r where run: "gvn_run False ex_dup = Some (g', r)" by (simp add: gvn_run_def split_beta)
  show ?thesis
    using gvn_ex_dup_nodes gvn_leaves_no_duplicates [OF wf_ex_dup topological_ex_dup run, of 3 5]
    by (auto simp: run in_graph_def)
qed

text \<open>Common subexpression elimination preserves the integer value of every node and keeps the graph
  well formed.\<close>

lemma cse_preserves_values:
  assumes "graph_wf g" "shape_ok g" "cse_run debug g = Some (g', r)"
  shows "graph_wf g' \<and> shape_ok g' \<and> (\<forall>j v. eval int_sem g' j v \<longleftrightarrow> eval int_sem g j v)"
  using cse_run_inv [OF assms] unfolding int.cse.table_inv_def by blast

lemma cse_preserves_values_witness:
  "\<exists>g' r. cse_run True ex_dup = Some (g', r) \<and> eval int_sem g' 5 625"
proof -
  obtain g' r where run: "cse_run True ex_dup = Some (g', r)"
    by (simp add: cse_run_def split_beta)
  then show ?thesis using cse_preserves_values [OF wf_ex_dup shape_ex_dup run] eval_ex_dup by blast
qed

end
