(* ===== verification/Sweeps.thy ===== *)
theory Sweeps
  imports Ir_Semantics
begin

text \<open>
  The iteration scheme of the fixpoint passes: a \<^verbatim>\<open>for\<close> loop over the ids with a flag \<open>changed\<close>,
  inside \<^verbatim>\<open>while (changed)\<close>. A pass supplies its step; the locale \<open>sweep_pass\<close> states what the
  step promises and proves the fixpoint, its invariants and idempotence once.
\<close>

fun sweep :: "(node_id \<Rightarrow> 's \<Rightarrow> bool \<times> 's) \<Rightarrow> node_id list \<Rightarrow> bool \<Rightarrow> 's \<Rightarrow> bool \<times> 's" where
  "sweep step [] changed s = (changed, s)"
| "sweep step (i # is) changed s = (let (c, s') = step i s in sweep step is (changed \<or> c) s')"

locale sweep_pass =
  fixes step :: "node_id \<Rightarrow> 's \<Rightarrow> bool \<times> 's"
    and ids :: "'s \<Rightarrow> node_id list"
    and weight :: "'s \<Rightarrow> nat"
  assumes unchanged: "\<not> fst (step i s) \<Longrightarrow> snd (step i s) = s"
    and progress: "i \<in> set (ids s) \<Longrightarrow> fst (step i s) \<Longrightarrow> weight (snd (step i s)) < weight s"
    and same_ids: "i \<in> set (ids s) \<Longrightarrow> ids (snd (step i s)) = ids s"
begin

lemma sweep_progress:
  "set is \<subseteq> set (ids s) \<Longrightarrow> weight (snd (sweep step is ch s)) \<le> weight s
    \<and> (fst (sweep step is ch s) \<longrightarrow> ch \<or> weight (snd (sweep step is ch s)) < weight s)
    \<and> ids (snd (sweep step is ch s)) = ids s"
proof (induction "is" arbitrary: ch s)
  case (Cons i "is")
  obtain c s' where st: "step i s = (c, s')" by fastforce
  then have "ids s' = ids s" "weight s' \<le> weight s" "c \<longrightarrow> weight s' < weight s"
    using Cons.prems unchanged [of i s] progress [of i s] same_ids [of i s] by (cases c; auto)+
  then show ?case using st Cons.IH [of s' "ch \<or> c"] Cons.prems by auto
qed simp

lemma sweep_terminates:
  "fst (sweep step (ids s) False s) \<Longrightarrow> weight (snd (sweep step (ids s) False s)) < weight s"
  using sweep_progress [of "ids s" s False] by simp

lemma sweep_inv:
  assumes "\<And>i t. i \<in> set (ids s) \<Longrightarrow> I t \<Longrightarrow> ids t = ids s \<Longrightarrow> I (snd (step i t))"
  shows "set is \<subseteq> set (ids s) \<Longrightarrow> I t \<Longrightarrow> ids t = ids s \<Longrightarrow> I (snd (sweep step is ch t))"
proof (induction "is" arbitrary: ch t)
  case (Cons i "is")
  have "I (snd (step i t))" using assms [of i t] Cons.prems by simp
  moreover have "ids (snd (step i t)) = ids s" using same_ids [of i t] Cons.prems by simp
  ultimately show ?case using Cons.IH [of "snd (step i t)"] Cons.prems(1) by (simp add: split_beta)
qed simp

lemma sweep_unchanged:
  "\<not> fst (sweep step is ch s) \<Longrightarrow> snd (sweep step is ch s) = s \<and> \<not> ch \<and> (\<forall>i \<in> set is. step i s = (False, s))"
proof (induction "is" arbitrary: ch s)
  case (Cons i "is")
  obtain c s' where st: "step i s = (c, s')" by fastforce
  then have "\<not> fst (sweep step is (ch \<or> c) s')" using Cons.prems by simp
  from Cons.IH [OF this] have "\<not> c" "\<not> ch" by auto
  moreover from \<open>\<not> c\<close> have "s' = s" using unchanged [of i s] st by simp
  ultimately show ?case using Cons.IH [of ch s] st Cons.prems by simp
qed simp

lemma sweep_quiet: "\<forall>i \<in> set is. step i s = (False, s) \<Longrightarrow> sweep step is ch s = (ch, s)"
  by (induction "is") auto

end

text \<open>The outer loop: \<open>loop\<close> satisfies the equation of \<^verbatim>\<open>while (changed)\<close>.\<close>

locale sweep_loop = sweep_pass step ids weight
  for step :: "node_id \<Rightarrow> 's \<Rightarrow> bool \<times> 's" and ids :: "'s \<Rightarrow> node_id list" and weight :: "'s \<Rightarrow> nat" +
  fixes loop :: "'s \<Rightarrow> 's"
  assumes loop_eq: "loop s = (let (ch, t) = sweep step (ids s) False s in if ch then loop t else t)"
begin

lemma loop_induct [case_names sweep]:
  assumes "\<And>s. (fst (sweep step (ids s) False s) \<Longrightarrow> P (snd (sweep step (ids s) False s))) \<Longrightarrow> P s"
  shows "P s"
  by (induction s rule: measure_induct [of weight]) (rule assms, use sweep_terminates in blast)

lemma loop_inv:
  assumes step: "\<And>i t. i \<in> set (ids t) \<Longrightarrow> I t \<Longrightarrow> I (snd (step i t))"
  shows "I s \<Longrightarrow> I (loop s)"
proof (induction s rule: loop_induct)
  case (sweep s)
  have "I (snd (sweep step (ids s) False s))"
    by (rule sweep_inv [of s I "ids s" s False]) (use step sweep.prems in auto)
  with sweep.IH show ?case by (subst loop_eq) (auto simp: split_beta)
qed

lemma loop_fixpoint: "i \<in> set (ids (loop s)) \<Longrightarrow> step i (loop s) = (False, loop s)"
proof (induction s rule: loop_induct)
  case (sweep s)
  show ?case
  proof (cases "fst (sweep step (ids s) False s)")
    case True
    then have "loop s = loop (snd (sweep step (ids s) False s))" by (subst loop_eq) (simp add: split_beta)
    then show ?thesis using sweep True by simp
  next
    case False
    then have "loop s = s" using sweep_unchanged [OF False] by (subst loop_eq) (simp add: split_beta)
    then show ?thesis using sweep.prems sweep_unchanged [OF False] by simp
  qed
qed

lemma loop_quiet: "\<forall>i \<in> set (ids s). step i s = (False, s) \<Longrightarrow> loop s = s"
  by (subst loop_eq) (simp add: sweep_quiet)

lemma loop_idem: "loop (loop s) = loop s"
  by (rule loop_quiet) (simp add: loop_fixpoint)

end

end
