(* ===== verification/Dce.thy ===== *)
theory Dce
  imports Sweeps
begin

text \<open>
  \<^verbatim>\<open>ir/passes/DeadCodeElimination.cpp\<close>. A node is swept when it is neither control flow nor an
  external side effect and no live node refers to it; the pass is shown to keep exactly the nodes
  that a control or side-effecting node needs.
\<close>

section \<open>The pass\<close>

definition uses_from :: "graph \<Rightarrow> node_id \<Rightarrow> node_id \<Rightarrow> nat" where
  "uses_from g nid other =
     (if other = nid then 0
      else if node_is_dead (node g other) then 0
      else length (filter (\<lambda>x. x = nid) (data_inputs g other))
           + (if ctrl_input g other = nid then 1 else 0)
           + (if effect_input g other = nid then 1 else 0))"

definition count_uses :: "graph \<Rightarrow> node_id \<Rightarrow> nat" where
  "count_uses g nid = sum_list (map (uses_from g nid) (node_ids g))"

definition has_external_side_effects :: "node_kind \<Rightarrow> bool" where
  "has_external_side_effects k \<longleftrightarrow>
     k \<in> set [NK_Call, NK_CallVirt, NK_CallKnown, NK_TailCall, NK_InvokeDynamic, NK_Return, NK_Throw,
       NK_Rethrow, NK_Leave, NK_EndFinally, NK_MonitorEnter, NK_MonitorExit, NK_Safepoint, NK_Deopt,
       NK_Unreachable]"

definition dce_step :: "node_id \<Rightarrow> graph \<Rightarrow> bool \<times> graph" where
  "dce_step nid g =
     (let n = node g nid
      in if node_is_dead n then (False, g)
         else if node_is_control n then (False, g)
         else if has_external_side_effects (n_kind n) then (False, g)
         else if count_uses g nid = 0 then (True, mark_dead nid g)
         else (False, g))"

definition live_count :: "graph \<Rightarrow> nat" where
  "live_count g = length (filter (\<lambda>n. \<not> node_is_dead n) (g_nodes g))"

lemma live_count_mark_dead:
  "in_graph g i \<Longrightarrow> \<not> node_is_dead (node g i) \<Longrightarrow> live_count (mark_dead i g) < live_count g"
  using filter_update_less [OF in_graph_pos, of g i "\<lambda>n. \<not> node_is_dead n"]
  by (simp add: live_count_def mark_dead_def upd_node_def node_def node_is_dead_def or_flags_def flag_simps)

lemma dce_step_cases:
  obtains "dce_step i g = (False, g)"
  | "dce_step i g = (True, mark_dead i g)" "\<not> node_is_dead (node g i)" "\<not> node_is_control (node g i)"
    "\<not> has_external_side_effects (n_kind (node g i))" "count_uses g i = 0"
proof (cases "node_is_dead (node g i) \<or> node_is_control (node g i)
    \<or> has_external_side_effects (n_kind (node g i)) \<or> count_uses g i \<noteq> 0")
  case True
  then show ?thesis by (intro that(1)) (auto simp: dce_step_def Let_def)
next
  case False
  then show ?thesis by (intro that(2)) (auto simp: dce_step_def Let_def)
qed

lemma node_ids_mark_dead [simp]: "node_ids (mark_dead i g) = node_ids g"
  by (simp add: node_ids_def)

interpretation dce_sweep: sweep_pass dce_step node_ids live_count
proof (unfold_locales, goal_cases)
  case (1 i g) then show ?case by (cases i g rule: dce_step_cases) auto
next
  case (2 i g) then show ?case by (cases i g rule: dce_step_cases) (auto simp: live_count_mark_dead)
next
  case (3 i g) then show ?case by (cases i g rule: dce_step_cases) auto
qed

function dce_loop :: "graph \<Rightarrow> graph" where
  "dce_loop g = (let (changed, g') = sweep dce_step (node_ids g) False g in if changed then dce_loop g' else g')"
  by pat_completeness auto
termination
  by (relation "measure live_count") (use dce_sweep.sweep_terminates in \<open>auto simp: prod_eq_iff dest: sym\<close>)

declare dce_loop.simps [simp del]

text \<open>The \<^verbatim>\<open>while\<close> loop ends with \<open>changed\<close> false, and the verifier stands behind \<^verbatim>\<open>if (changed)\<close>.\<close>

definition dce_run :: "bool \<Rightarrow> graph \<Rightarrow> (graph \<times> unit result) ub" where
  "dce_run debug g =
     (let g' = dce_loop g; changed = False
      in Some (g', if changed then verify_if_enabled debug g' else Inr ()))"

interpretation dce: sweep_loop dce_step node_ids live_count dce_loop
  by unfold_locales (rule dce_loop.simps)

section \<open>References between nodes\<close>

definition refers :: "graph \<Rightarrow> node_id \<Rightarrow> node_id \<Rightarrow> bool" where
  "refers g j i \<longleftrightarrow> i \<in> set (data_inputs g j) \<or> ctrl_input g j = i \<or> effect_input g j = i"

lemma uses_from_0: "uses_from g i j = 0 \<longleftrightarrow> j = i \<or> node_is_dead (node g j) \<or> \<not> refers g j i"
  by (auto simp: uses_from_def refers_def filter_empty_conv)

lemma count_uses_0:
  "count_uses g i = 0 \<longleftrightarrow> (\<forall>j. in_graph g j \<longrightarrow> j \<noteq> i \<longrightarrow> \<not> node_is_dead (node g j) \<longrightarrow> \<not> refers g j i)"
  by (auto simp: count_uses_def sum_list_eq_0_iff uses_from_0)

definition dce_root :: "graph \<Rightarrow> node_id \<Rightarrow> bool" where
  "dce_root g i \<longleftrightarrow> node_is_control (node g i) \<or> has_external_side_effects (n_kind (node g i))"

text \<open>What control flow and external side effects need, through inputs of live nodes.\<close>

inductive needed :: "graph \<Rightarrow> node_id \<Rightarrow> bool" for g where
  needed_root: "in_graph g i \<Longrightarrow> \<not> node_is_dead (node g i) \<Longrightarrow> dce_root g i \<Longrightarrow> needed g i"
| needed_input: "needed g j \<Longrightarrow> refers g j i \<Longrightarrow> in_graph g i \<Longrightarrow> \<not> node_is_dead (node g i) \<Longrightarrow> needed g i"

text \<open>A graph that differs in \<open>IsDead\<close> marks only, all of them new.\<close>

definition more_dead :: "graph \<Rightarrow> graph \<Rightarrow> bool" where
  "more_dead g h \<longleftrightarrow> graph_wf h \<and> g_size h = g_size g \<and> (\<forall>j. in_graph g j \<longrightarrow>
     view h j = view g j \<or> view h j = (view g j)\<lparr>v_flags := v_flags (view g j) OR NF_IsDead\<rparr>)"

lemma more_dead_mark:
  assumes "more_dead g h" "in_graph g i"
  shows "more_dead g (mark_dead i h)"
proof -
  have sz: "g_size h = g_size g" and wf: "graph_wf h" using assms(1) by (simp_all add: more_dead_def)
  then have ih: "in_graph h j \<longleftrightarrow> in_graph g j" for j by (simp add: in_graph_def)
  have "view (mark_dead i h) j = view g j \<or> view (mark_dead i h) j = (view g j)\<lparr>v_flags := v_flags (view g j) OR NF_IsDead\<rparr>"
    if "in_graph g j" for j
    using assms that ih view_mark_dead [of h i j] by (auto simp: more_dead_def or.assoc)
  then show ?thesis using sz wf_mark_dead [OF wf] assms(2) ih by (simp add: more_dead_def)
qed

lemma more_dead_fields:
  assumes "more_dead g h" "in_graph g j"
  shows "data_inputs h j = data_inputs g j" "ctrl_input h j = ctrl_input g j" "effect_input h j = effect_input g j"
    "n_kind (node h j) = n_kind (node g j)" "side h j = side g j" "n_state (node h j) = n_state (node g j)"
    "node_is_control (node h j) = node_is_control (node g j)"
    "node_is_pure (node h j) = node_is_pure (node g j)" "node_is_effect (node h j) = node_is_effect (node g j)"
    "node_is_guard (node h j) = node_is_guard (node g j)"
    "node_is_dead (node g j) \<Longrightarrow> node_is_dead (node h j)"
proof -
  have "view h j = view g j \<or> view h j = (view g j)\<lparr>v_flags := v_flags (view g j) OR NF_IsDead\<rparr>"
    using assms by (simp add: more_dead_def)
  then show "data_inputs h j = data_inputs g j" "ctrl_input h j = ctrl_input g j" "effect_input h j = effect_input g j"
    "n_kind (node h j) = n_kind (node g j)" "side h j = side g j" "n_state (node h j) = n_state (node g j)"
    "node_is_control (node h j) = node_is_control (node g j)"
    "node_is_pure (node h j) = node_is_pure (node g j)" "node_is_effect (node h j) = node_is_effect (node g j)"
    "node_is_guard (node h j) = node_is_guard (node g j)"
    "node_is_dead (node g j) \<Longrightarrow> node_is_dead (node h j)"
    by (auto simp: view_def node_queries flag_simps)
qed

lemma more_dead_refers: "more_dead g h \<Longrightarrow> in_graph g j \<Longrightarrow> refers h j i = refers g j i \<and> dce_root h j = dce_root g j"
  by (simp add: refers_def dce_root_def more_dead_fields)

lemma more_dead_in_graph: "more_dead g h \<Longrightarrow> in_graph h j = in_graph g j"
  by (simp add: more_dead_def in_graph_def)

section \<open>What the loop keeps\<close>

definition dce_inv :: "graph \<Rightarrow> graph \<Rightarrow> bool" where
  "dce_inv g h \<longleftrightarrow> more_dead g h
     \<and> (\<forall>i. needed g i \<longrightarrow> \<not> node_is_dead (node h i))
     \<and> (\<forall>i j. in_graph g i \<longrightarrow> in_graph g j \<longrightarrow> node_is_dead (node h i) \<longrightarrow> \<not> node_is_dead (node h j) \<longrightarrow>
          refers g j i \<longrightarrow> node_is_dead (node g i))"

lemma needed_in_graph: "needed g i \<Longrightarrow> in_graph g i"
  by (induction rule: needed.induct) auto

lemma needed_live: "needed g i \<Longrightarrow> \<not> node_is_dead (node g i)"
  by (induction rule: needed.induct) auto

lemma dce_inv_refl: "graph_wf g \<Longrightarrow> dce_inv g g"
  by (auto simp: dce_inv_def more_dead_def needed_live)

lemma needed_not_swept:
  assumes inv: "dce_inv g h" and i: "in_graph g i" and z: "count_uses h i = 0" "\<not> dce_root g i"
  shows "\<not> needed g i"
proof -
  have "k \<noteq> i" if "needed g k" for k
    using that
  proof (induction rule: needed.induct)
    case (needed_input j k)
    have j: "in_graph g j" "\<not> node_is_dead (node h j)"
      using needed_in_graph [OF needed_input.hyps(1)] inv needed_input.hyps(1) by (auto simp: dce_inv_def)
    have md: "more_dead g h" using inv by (simp add: dce_inv_def)
    show ?case
      using z(1) j needed_input more_dead_refers [OF md j(1)] more_dead_in_graph [OF md]
      by (auto simp: count_uses_0)
  qed (use z in auto)
  then show ?thesis by blast
qed

lemma dce_step_inv:
  assumes i: "in_graph g i" and inv: "dce_inv g h"
  shows "dce_inv g (snd (dce_step i h))"
proof (cases i h rule: dce_step_cases)
  case 2
  have md: "more_dead g h" using inv by (simp add: dce_inv_def)
  have ih: "in_graph h j \<longleftrightarrow> in_graph g j" for j by (rule more_dead_in_graph [OF md])
  have "\<not> dce_root g i" using 2 more_dead_fields(4,7) [OF md i] by (simp add: dce_root_def)
  then have nn: "\<not> needed g i" using needed_not_swept [OF inv i 2(5)] by simp
  have dead: "node_is_dead (node (mark_dead i h) j) \<longleftrightarrow> j = i \<or> node_is_dead (node h j)" if "in_graph g j" for j
    using that i ih by (auto simp: node_mark_dead node_is_dead_def or_flags_def flag_simps)
  have "node_is_dead (node g k)"
    if "in_graph g k" "in_graph g j" "node_is_dead (node (mark_dead i h) k)" "\<not> node_is_dead (node (mark_dead i h) j)"
      "refers g j k" for j k
  proof (cases "k = i")
    case True
    then have "j \<noteq> i" "\<not> node_is_dead (node h j)" using that dead by auto
    then show ?thesis using 2(5) that(2,5) True more_dead_refers [OF md that(2)] ih by (auto simp: count_uses_0)
  next
    case False
    then show ?thesis using that dead inv by (auto simp: dce_inv_def)
  qed
  moreover have "\<not> node_is_dead (node (mark_dead i h) j)" if "needed g j" for j
    using that nn dead [OF needed_in_graph [OF that]] inv by (auto simp: dce_inv_def)
  ultimately show ?thesis using more_dead_mark [OF md i] 2(1) by (simp add: dce_inv_def)
qed (use inv in simp)

lemma dce_loop_inv: "graph_wf g \<Longrightarrow> dce_inv g (dce_loop g)"
proof (rule dce.loop_inv [of "dce_inv g"])
  fix i h assume "i \<in> set (node_ids h)" "dce_inv g h"
  moreover from this have "in_graph g i" using more_dead_in_graph [of g h i] by (simp add: dce_inv_def)
  ultimately show "dce_inv g (snd (dce_step i h))" by (simp add: dce_step_inv)
qed (rule dce_inv_refl)

text \<open>At the fixpoint every live node is a root or has another live user.\<close>

lemma dce_fixpoint_user:
  assumes "in_graph (dce_loop g) i" "\<not> node_is_dead (node (dce_loop g) i)" "\<not> dce_root (dce_loop g) i"
  shows "\<exists>j. in_graph (dce_loop g) j \<and> j \<noteq> i \<and> \<not> node_is_dead (node (dce_loop g) j) \<and> refers (dce_loop g) j i"
proof -
  have "dce_step i (dce_loop g) = (False, dce_loop g)" using dce.loop_fixpoint assms(1) by simp
  then have "count_uses (dce_loop g) i \<noteq> 0" using assms by (auto simp: dce_step_def dce_root_def split: if_splits)
  then show ?thesis by (auto simp: count_uses_0)
qed

section \<open>The properties\<close>

lemma dce_run_eq: "dce_run debug g = Some (dce_loop g, Inr ())"
  by (simp add: dce_run_def)

lemma live_needed:
  assumes wf: "graph_wf g"
    and refs: "\<And>i j. in_graph g j \<Longrightarrow> \<not> dce_root g j \<Longrightarrow> refers g j i \<Longrightarrow> i \<le> j"
  shows "in_graph g i \<Longrightarrow> \<not> node_is_dead (node (dce_loop g) i) \<Longrightarrow> needed g i"
proof (induction "g_size g - i" arbitrary: i rule: less_induct)
  case less
  have md: "more_dead g (dce_loop g)" using dce_loop_inv [OF wf] by (simp add: dce_inv_def)
  note fields = more_dead_in_graph [OF md] more_dead_refers [OF md]
  have live: "\<not> node_is_dead (node g i)" using more_dead_fields(11) [OF md less.prems(1)] less.prems(2) by blast
  show ?case
  proof (cases "dce_root g i")
    case False
    then obtain j where j: "in_graph g j" "j \<noteq> i" "\<not> node_is_dead (node (dce_loop g) j)" "refers g j i"
      using dce_fixpoint_user [of g i] less.prems fields by metis
    have "needed g j"
    proof (cases "dce_root g j")
      case True
      then show ?thesis using needed_root j(1,3) more_dead_fields(11) [OF md j(1)] by blast
    next
      case False
      then have "i < j" using refs [OF j(1) False j(4)] j(2) by simp
      moreover have "i < g_size g" using calculation j(1) by (simp add: in_graph_def)
      ultimately show ?thesis using less.hyps [of j] j by auto
    qed
    then show ?thesis using needed_input j(4) less.prems(1) live by blast
  qed (use needed_root less.prems live in blast)
qed

text \<open>Dead code elimination only adds \<open>IsDead\<close> marks, never marks a node that control flow or an
  external side effect needs through inputs of live nodes, and always reports success.\<close>

lemma dce_keeps_needed:
  assumes "graph_wf g" "dce_run debug g = Some (g', r)"
  shows "more_dead g g' \<and> (\<forall>i. needed g i \<longrightarrow> \<not> node_is_dead (node g' i)) \<and> r = Inr ()"
  using dce_loop_inv [OF assms(1)] assms(2) by (auto simp: dce_run_eq dce_inv_def)

lemma needed_ex_fun: "needed ex_fun 4"
proof (rule needed_input)
  show "needed ex_fun 6"
    using nodes_ex_fun by (intro needed_root)
      (simp_all add: in_ex_fun dce_root_def node_queries flags_has_def del: One_nat_def)
qed (use nodes_ex_fun in \<open>simp_all add: refers_def in_ex_fun node_queries flags_has_def del: One_nat_def\<close>)

lemma dce_keeps_needed_witness:
  "\<exists>g' r. dce_run True ex_fun = Some (g', r) \<and> \<not> node_is_dead (node g' 4)"
  using dce_keeps_needed [OF wf_ex_fun dce_run_eq [of True]] needed_ex_fun dce_run_eq by blast

text \<open>C7: when nodes other than control flow and external side effects refer to earlier nodes only, dead
  code elimination leaves exactly the needed nodes live.\<close>

theorem dce_exact:
  assumes "graph_wf g" "dce_run debug g = Some (g', r)"
    and "\<forall>i j. in_graph g j \<longrightarrow> \<not> dce_root g j \<longrightarrow> refers g j i \<longrightarrow> i \<le> j"
    and "in_graph g i"
  shows "\<not> node_is_dead (node g' i) \<longleftrightarrow> needed g i"
proof
  have g': "g' = dce_loop g" using assms(2) by (simp add: dce_run_eq)
  show "needed g i" if "\<not> node_is_dead (node g' i)"
    using that live_needed [OF assms(1) _ assms(4)] assms(3) by (simp add: g')
  show "\<not> node_is_dead (node g' i)" if "needed g i"
    using that dce_loop_inv [OF assms(1)] by (simp add: g' dce_inv_def)
qed

lemma backward_ex_fun: "\<forall>i j. in_graph ex_fun j \<longrightarrow> \<not> dce_root ex_fun j \<longrightarrow> refers ex_fun j i \<longrightarrow> i \<le> j"
proof -
  have "\<forall>j. in_graph ex_fun j \<longrightarrow> (\<forall>x \<in> set (data_inputs ex_fun j). x \<le> j) \<and> ctrl_input ex_fun j \<le> j \<and> effect_input ex_fun j \<le> j"
    unfolding all_ex_fun using nodes_ex_fun by (simp del: One_nat_def)
  then show ?thesis by (auto simp: refers_def)
qed

lemma not_needed_ex_fun: "\<not> needed ex_fun 5"
proof -
  have "k \<noteq> 5" if "needed ex_fun k" for k
    using that
  proof (cases rule: needed.cases)
    case needed_root
    then show ?thesis using nodes_ex_fun
      by (auto simp: dce_root_def node_queries flags_has_def has_external_side_effects_def)
  next
    case (needed_input j)
    have "\<forall>j. in_graph ex_fun j \<longrightarrow> 5 \<notin> set (data_inputs ex_fun j) \<and> ctrl_input ex_fun j \<noteq> 5 \<and> effect_input ex_fun j \<noteq> 5"
      unfolding all_ex_fun using nodes_ex_fun by (simp del: One_nat_def)
    then show ?thesis using needed_input needed_in_graph by (auto simp: refers_def)
  qed
  then show ?thesis by blast
qed

theorem dce_exact_witness:
  "\<exists>g' r. dce_run True ex_fun = Some (g', r) \<and> node_is_dead (node g' 5) \<and> \<not> node_is_dead (node g' 4)"
  using dce_exact [OF wf_ex_fun dce_run_eq [of True] backward_ex_fun, of 4]
    dce_exact [OF wf_ex_fun dce_run_eq [of True] backward_ex_fun, of 5] needed_ex_fun not_needed_ex_fun dce_run_eq
  by (auto simp: in_ex_fun)

text \<open>C8: although its verifier call is unreachable, dead code elimination keeps every graph that
  satisfies the verifier acceptable to it.\<close>

theorem dce_keeps_verifier_ok:
  assumes "graph_wf g" "verifier_ok g" "dce_run debug g = Some (g', r)"
  shows "verify_graph g' = Inr ()"
proof -
  have inv: "dce_inv g g'" using dce_loop_inv [OF assms(1)] assms(3) by (simp add: dce_run_eq)
  then have md: "more_dead g g'" by (simp add: dce_inv_def)
  note f = more_dead_fields [OF md] more_dead_in_graph [OF md]
  have "no_dangling g'" "effects_chained g'" "guards_have_state g'"
    using assms(2) by (simp_all add: verifier_ok_def no_dangling_def effects_chained_def guards_have_state_def f)
  moreover have "dead_unreferenced g'"
    unfolding dead_unreferenced_def
  proof (intro allI impI)
    fix i j assume h: "in_graph g' i" "in_graph g' j" "node_is_dead (node g' i)" "\<not> node_is_dead (node g' j)"
    then have ij: "in_graph g i" "in_graph g j" by (simp_all add: f)
    have "\<not> refers g j i"
    proof
      assume r: "refers g j i"
      then have "node_is_dead (node g i)" using inv h ij by (auto simp: dce_inv_def)
      moreover have "\<not> node_is_dead (node g j)" using f(11) [OF ij(2)] h(4) by blast
      ultimately show False using assms(2) ij r by (auto simp: verifier_ok_def dead_unreferenced_def refers_def)
    qed
    then show "i \<notin> set (data_inputs g' j) \<and> ctrl_input g' j \<noteq> i \<and> effect_input g' j \<noteq> i"
      by (simp add: refers_def f ij)
  qed
  ultimately show ?thesis by (simp add: verify_Inr_iff verifier_ok_def)
qed

theorem dce_keeps_verifier_ok_witness:
  "verify_graph (fst (the (dce_run True ex_fun))) = Inr ()"
  using dce_keeps_verifier_ok [OF wf_ex_fun verifier_ok_ex_fun dce_run_eq [of True]] by (simp add: dce_run_eq)

end
