(* ===== verification/Local_Passes.thy ===== *)
theory Local_Passes
  imports Sweeps Const_Fold
begin

text \<open>
  The passes of \<^verbatim>\<open>ir/passes\<close> that make one sweep over the nodes and annotate each node by a local
  test: \<^verbatim>\<open>AlgebraicSimplification.cpp\<close>, \<^verbatim>\<open>Peephole.cpp\<close>, \<^verbatim>\<open>ControlFlowSimplification.cpp\<close>,
  \<^verbatim>\<open>NCE.cpp\<close>, \<^verbatim>\<open>TypeNarrowing.cpp\<close>, \<^verbatim>\<open>TailCallElimination.cpp\<close> and \<^verbatim>\<open>Inlining.cpp\<close>.
\<close>

section \<open>One sweep and the verifier\<close>

definition run_sweep :: "(node_id \<Rightarrow> graph \<Rightarrow> bool \<times> graph) \<Rightarrow> bool \<Rightarrow> graph \<Rightarrow> (graph \<times> unit result) ub" where
  "run_sweep step debug g =
     (let (changed, g') = sweep step (node_ids g) False g
      in Some (g', if changed then verify_if_enabled debug g' else Inr ()))"

section \<open>Algebraic simplification\<close>

definition is_const_int :: "graph \<Rightarrow> node_id \<Rightarrow> i64 \<Rightarrow> bool" where
  "is_const_int g nid v \<longleftrightarrow>
     (if \<not> id_valid nid \<or> nid > g_size g then False
      else if n_kind (node g nid) \<noteq> NK_ConstInt then False
      else const_value (side g nid) = v)"

text \<open>The switch: \<open>Some (t, v)\<close> sets \<open>IsConst\<close> and the payload \<open>v\<close>, and the type \<open>Int\<close> when \<open>t\<close>.\<close>

definition alg_switch :: "graph \<Rightarrow> node_kind \<Rightarrow> node_id \<Rightarrow> node_id \<Rightarrow> (bool \<times> i64) option" where
  "alg_switch g k a b =
     (if k = NK_Add then
        (if is_const_int g b 0 then Some (False, 0)
         else if is_const_int g a 0 then Some (False, 0) else None)
      else if k = NK_Sub then (if is_const_int g b 0 then Some (False, 0) else None)
      else if k = NK_Mul then
        (if is_const_int g b 1 \<or> is_const_int g a 1 then Some (False, 1)
         else if is_const_int g b 0 \<or> is_const_int g a 0 then Some (True, 0) else None)
      else if k = NK_Div then (if is_const_int g b 1 then Some (False, 1) else None)
      else if k = NK_And then
        (if is_const_int g b 0 \<or> is_const_int g a 0 then Some (True, 0)
         else if a = b then Some (False, 0) else None)
      else if k = NK_Or then
        (if is_const_int g b 0 \<or> is_const_int g a 0 then Some (False, 0)
         else if a = b then Some (False, 0) else None)
      else if k = NK_Xor then
        (if is_const_int g b 0 \<or> is_const_int g a 0 then Some (False, 0)
         else if a = b then Some (True, 0) else None)
      else if k = NK_Shl \<or> k = NK_Shr \<or> k = NK_Sar then
        (if is_const_int g b 0 then Some (False, 0) else None)
      else None)"

definition alg_action :: "graph \<Rightarrow> node_id \<Rightarrow> (bool \<times> i64) option" where
  "alg_action g nid =
     (let n = node g nid; inputs = data_inputs g nid
      in if node_is_dead n then None
         else if \<not> node_is_pure n then None
         else if length inputs \<noteq> 2 then None
         else alg_switch g (n_kind n) (inputs ! 0) (inputs ! 1))"

definition set_mark :: "node_id \<Rightarrow> bool \<Rightarrow> i64 \<Rightarrow> graph \<Rightarrow> graph" where
  "set_mark nid typed v g =
     upd_side nid (\<lambda>s. s\<lparr>const_value := v\<rparr>)
       (upd_node nid (\<lambda>n. let n = or_flags NF_IsConst n in if typed then n\<lparr>n_type := Ty_Int\<rparr> else n) g)"

definition alg_step :: "node_id \<Rightarrow> graph \<Rightarrow> bool \<times> graph" where
  "alg_step nid g =
     (case alg_action g nid of None \<Rightarrow> (False, g) | Some (t, v) \<Rightarrow> (True, set_mark nid t v g))"

definition algebraic_simplification_run :: "bool \<Rightarrow> graph \<Rightarrow> (graph \<times> unit result) ub" where
  "algebraic_simplification_run = run_sweep alg_step"

section \<open>Peephole\<close>

definition get_const_int_value :: "graph \<Rightarrow> node_id \<Rightarrow> i64 option" where
  "get_const_int_value g nid =
     (if \<not> id_valid nid \<or> nid > g_size g then None
      else if n_kind (node g nid) \<noteq> NK_ConstInt then None
      else Some (const_value (side g nid)))"

definition is_power_of_two :: "i64 \<Rightarrow> bool" where
  "is_power_of_two v \<longleftrightarrow> sint v > 0 \<and> v AND (v - 1) = 0"

text \<open>\<^verbatim>\<open>while (v > 1) { v >>= 1; ++shift; }\<close> on the mathematical value.\<close>

fun log2_loop :: "nat \<Rightarrow> nat \<Rightarrow> nat" where
  "log2_loop v shift = (if v > 1 then log2_loop (v div 2) (shift + 1) else shift)"

declare log2_loop.simps [simp del]

definition log2_of_power_of_two :: "i64 \<Rightarrow> nat" where
  "log2_of_power_of_two v = log2_loop (nat (sint v)) 0"

definition peephole_action :: "graph \<Rightarrow> node_id \<Rightarrow> i64 option" where
  "peephole_action g nid =
     (let n = node g nid; inputs = data_inputs g nid
      in if node_is_dead n then None
         else if \<not> node_is_pure n then None
         else if length inputs \<noteq> 2 then None
         else if n_kind n = NK_Mul
         then (case get_const_int_value g (inputs ! 1) of
                 Some bv \<Rightarrow> if is_power_of_two bv then Some (of_nat (log2_of_power_of_two bv)) else None
               | None \<Rightarrow> None)
         else None)"

definition peephole_step :: "node_id \<Rightarrow> graph \<Rightarrow> bool \<times> graph" where
  "peephole_step nid g =
     (case peephole_action g nid of None \<Rightarrow> (False, g) | Some k \<Rightarrow> (True, set_mark nid False k g))"

definition peephole_run :: "bool \<Rightarrow> graph \<Rightarrow> (graph \<times> unit result) ub" where
  "peephole_run = run_sweep peephole_step"

section \<open>Control flow simplification\<close>

definition cfs_test :: "graph \<Rightarrow> node_id \<Rightarrow> bool" where
  "cfs_test g nid =
     (let n = node g nid; inputs = data_inputs g nid
      in if node_is_dead n then False
         else if n_kind n \<noteq> NK_If then False
         else if length inputs \<noteq> 1 then False
         else let cond = inputs ! 0
           in if \<not> id_valid cond \<or> cond > g_size g then False
              else flags_has (n_flags (node g cond)) NF_IsConst)"

definition cfs_step :: "node_id \<Rightarrow> graph \<Rightarrow> bool \<times> graph" where
  "cfs_step nid g = (if cfs_test g nid then (True, mark_dead nid g) else (False, g))"

definition control_flow_simplification_run :: "bool \<Rightarrow> graph \<Rightarrow> (graph \<times> unit result) ub" where
  "control_flow_simplification_run = run_sweep cfs_step"

section \<open>Null check elimination\<close>

definition is_provably_non_null :: "graph \<Rightarrow> node_id \<Rightarrow> bool" where
  "is_provably_non_null g nid =
     (if \<not> id_valid nid \<or> nid > g_size g then False
      else n_kind (node g nid) \<in> set [NK_NewObj, NK_NewArr, NK_Allocate, NK_Box, NK_CheckNotNull, NK_LdStr])"

definition nce_test :: "graph \<Rightarrow> node_id \<Rightarrow> bool" where
  "nce_test g nid =
     (let n = node g nid; inputs = data_inputs g nid
      in if node_is_dead n then False
         else if n_kind n \<noteq> NK_CheckNotNull then False
         else if inputs = [] then False
         else is_provably_non_null g (inputs ! 0))"

definition nce_step :: "node_id \<Rightarrow> graph \<Rightarrow> bool \<times> graph" where
  "nce_step nid g = (if nce_test g nid then (True, mark_dead nid g) else (False, g))"

definition nce_run :: "bool \<Rightarrow> graph \<Rightarrow> (graph \<times> unit result) ub" where
  "nce_run = run_sweep nce_step"

section \<open>Type narrowing\<close>

definition narrow_test :: "graph \<Rightarrow> node_id \<Rightarrow> bool" where
  "narrow_test g nid =
     (let n = node g nid in if node_is_dead n then False else n_kind n = NK_CheckInt)"

definition narrow_step :: "node_id \<Rightarrow> graph \<Rightarrow> bool \<times> graph" where
  "narrow_step nid g =
     (if narrow_test g nid then (True, upd_node nid (or_flags NF_HasTypeNarrowing) g) else (False, g))"

definition type_narrowing_run :: "bool \<Rightarrow> graph \<Rightarrow> (graph \<times> unit result) ub" where
  "type_narrowing_run = run_sweep narrow_step"

section \<open>Tail call elimination\<close>

definition tce_target :: "graph \<Rightarrow> node_id \<Rightarrow> node_id option" where
  "tce_target g nid =
     (let n = node g nid; inputs = data_inputs g nid
      in if node_is_dead n then None
         else if n_kind n \<noteq> NK_Return then None
         else if length inputs \<noteq> 1 then None
         else let ret_val = inputs ! 0
           in if \<not> id_valid ret_val \<or> ret_val > g_size g then None
              else if n_kind (node g ret_val) = NK_Call \<or> n_kind (node g ret_val) = NK_CallVirt
                   \<or> n_kind (node g ret_val) = NK_CallKnown
              then (if effect_input g nid = ret_val then Some ret_val else None)
              else None)"

definition tce_step :: "node_id \<Rightarrow> graph \<Rightarrow> bool \<times> graph" where
  "tce_step nid g =
     (case tce_target g nid of
        None \<Rightarrow> (False, g)
      | Some c \<Rightarrow> (True, upd_node c (\<lambda>n. n\<lparr>n_kind := NK_TailCall\<rparr>) g))"

definition tail_call_elimination_run :: "bool \<Rightarrow> graph \<Rightarrow> (graph \<times> unit result) ub" where
  "tail_call_elimination_run = run_sweep tce_step"

section \<open>Inlining\<close>

text \<open>The loop over the \<open>CallKnown\<close> nodes changes nothing.\<close>

definition inlining_run :: "bool \<Rightarrow> graph \<Rightarrow> (graph \<times> unit result) ub" where
  "inlining_run debug g =
     (let (changed, g') = sweep (\<lambda>nid g. (False, g)) (node_ids g) False g
      in Some (g', if changed then verify_if_enabled debug g' else Inr ()))"

end
