(* ===== verification/Local_Passes_Correct.thy ===== *)
theory Local_Passes_Correct
  imports Local_Passes Const_Fold_Correct
begin

text \<open>
  Correctness of the local passes. The locale \<open>marking_pass\<close> states what they share: the step
  annotates its own node only, by a test that the annotations of other nodes do not change; then
  one sweep does to every node what the step does to it in the original graph.
\<close>

section \<open>Sweeps of independent annotations\<close>

locale marking_pass =
  fixes step :: "node_id \<Rightarrow> graph \<Rightarrow> bool \<times> graph"
    and act :: "graph \<Rightarrow> node_id \<Rightarrow> (node_view \<Rightarrow> node_view) option"
  assumes step_none: "act g i = None \<Longrightarrow> step i g = (False, g)"
    and step_some: "graph_wf g \<Longrightarrow> in_graph g i \<Longrightarrow> act g i = Some f \<Longrightarrow>
      fst (step i g) \<and> graph_wf (snd (step i g)) \<and> g_size (snd (step i g)) = g_size g
      \<and> (\<forall>j. in_graph g j \<longrightarrow> view (snd (step i g)) j = (if j = i then f (view g j) else view g j))"
    and act_stable: "graph_wf g \<Longrightarrow> in_graph g i \<Longrightarrow> in_graph g j \<Longrightarrow> i \<noteq> j \<Longrightarrow>
      act (snd (step i g)) j = act g j"
begin

definition annotated :: "graph \<Rightarrow> node_id \<Rightarrow> node_view" where
  "annotated g j = (case act g j of None \<Rightarrow> view g j | Some f \<Rightarrow> f (view g j))"

lemma step_basic:
  assumes "graph_wf g" "in_graph g i"
  shows "graph_wf (snd (step i g)) \<and> g_size (snd (step i g)) = g_size g
    \<and> (\<forall>j. in_graph g j \<longrightarrow> view (snd (step i g)) j = (if j = i then annotated g j else view g j))
    \<and> fst (step i g) = (act g i \<noteq> None)"
proof (cases "act g i")
  case None
  then show ?thesis using step_none [OF None] assms by (simp add: annotated_def)
next
  case (Some f)
  then show ?thesis using step_some [OF assms Some] by (simp add: annotated_def)
qed

lemma sweep_marks:
  "graph_wf g \<Longrightarrow> distinct is \<Longrightarrow> \<forall>i \<in> set is. in_graph g i \<Longrightarrow>
    (let g' = snd (sweep step is ch g) in
      graph_wf g' \<and> g_size g' = g_size g
      \<and> (\<forall>j. in_graph g j \<longrightarrow> view g' j = (if j \<in> set is then annotated g j else view g j)))
    \<and> fst (sweep step is ch g) = (ch \<or> (\<exists>i \<in> set is. act g i \<noteq> None))"
proof (induction "is" arbitrary: g ch)
  case (Cons i "is")
  obtain c h where st: "step i g = (c, h)" by fastforce
  have i: "in_graph g i" using Cons.prems(3) by simp
  note b = step_basic [OF Cons.prems(1) i, unfolded st fst_conv snd_conv]
  have stable: "act h j = act g j" if "in_graph g j" "j \<noteq> i" for j
    using act_stable [OF Cons.prems(1) i that(1)] that(2) st by simp
  have ih: "in_graph h j = in_graph g j" for j using b by (simp add: in_graph_def)
  have ann: "annotated h j = annotated g j" if "in_graph g j" "j \<noteq> i" for j
  proof -
    have "view h j = view g j" using b that by simp
    then show ?thesis using stable [OF that] by (simp add: annotated_def split: option.split)
  qed
  have acts: "(\<exists>k \<in> set is. act h k \<noteq> None) = (\<exists>k \<in> set is. act g k \<noteq> None)"
  proof (rule bex_cong [OF refl])
    fix k assume "k \<in> set is"
    then have "in_graph g k" "k \<noteq> i" using Cons.prems(2,3) by auto
    then show "(act h k \<noteq> None) = (act g k \<noteq> None)" using stable by simp
  qed
  have IH: "graph_wf (snd (sweep step is (ch \<or> c) h)) \<and> g_size (snd (sweep step is (ch \<or> c) h)) = g_size h
      \<and> (\<forall>j. in_graph h j \<longrightarrow> view (snd (sweep step is (ch \<or> c) h)) j = (if j \<in> set is then annotated h j else view h j))"
    "fst (sweep step is (ch \<or> c) h) = ((ch \<or> c) \<or> (\<exists>k \<in> set is. act h k \<noteq> None))"
    using Cons.IH [of h "ch \<or> c"] b Cons.prems ih by (simp_all add: Let_def)
  have "view (snd (sweep step is (ch \<or> c) h)) j = (if j \<in> set (i # is) then annotated g j else view g j)"
    if "in_graph g j" for j
    using IH(1) that ih b ann [OF that] Cons.prems(2) by (cases "j = i") auto
  then show ?case using IH b st acts by (simp add: Let_def)
qed simp

lemma run_marks:
  assumes "graph_wf g" "run_sweep step debug g = Some (g', r)"
  shows "graph_wf g' \<and> g_size g' = g_size g \<and> (\<forall>j. in_graph g j \<longrightarrow> view g' j = annotated g j)
    \<and> r = (if \<exists>i. in_graph g i \<and> act g i \<noteq> None then verify_if_enabled debug g' else Inr ())"
  using sweep_marks [OF assms(1), of "node_ids g" False] assms(2)
  by (auto simp: run_sweep_def split_beta Let_def distinct_node_ids prod_eq_iff)

end

section \<open>Views of the annotations\<close>

lemma view_upd_flags:
  "graph_wf g \<Longrightarrow> in_graph g i \<Longrightarrow> in_graph g j \<Longrightarrow>
    view (upd_node i (or_flags m) g) j = (if j = i then (view g j)\<lparr>v_flags := v_flags (view g j) OR m\<rparr> else view g j)"
  by (simp add: view_def node_upd data_inputs_upd_same or_flags_def)

lemma set_mark_basic [simp]:
  "in_graph (set_mark i t v g) j = in_graph g j" "g_size (set_mark i t v g) = g_size g"
  by (simp_all add: set_mark_def)

lemma wf_set_mark [graph_wf]: "graph_wf g \<Longrightarrow> in_graph g i \<Longrightarrow> graph_wf (set_mark i t v g)"
  by (auto simp: set_mark_def Let_def intro!: wf_upd_side wf_upd_node_slices)

definition mark_view :: "bool \<Rightarrow> i64 \<Rightarrow> node_view \<Rightarrow> node_view" where
  "mark_view t v w = w\<lparr>v_flags := v_flags w OR NF_IsConst, v_type := (if t then Ty_Int else v_type w),
     v_side := (v_side w)\<lparr>const_value := v\<rparr>\<rparr>"

lemma view_set_mark:
  "graph_wf g \<Longrightarrow> in_graph g i \<Longrightarrow> in_graph g j \<Longrightarrow>
    view (set_mark i t v g) j = (if j = i then mark_view t v (view g j) else view g j)"
  by (auto simp: set_mark_def Let_def view_def node_upd side_upd data_inputs_upd_same or_flags_def
      wf_upd_node_slices mark_view_def)

lemma view_fields:
  "n_kind (node g j) = v_kind (view g j)" "n_flags (node g j) = v_flags (view g j)"
  "n_type (node g j) = v_type (view g j)" "data_inputs g j = v_ins (view g j)"
  "ctrl_input g j = v_ctrl (view g j)" "effect_input g j = v_effect (view g j)" "side g j = v_side (view g j)"
  by (simp_all add: view_def)

text \<open>The tests read kinds, inputs and literals, and flags of the node itself.\<close>

lemma act_cong:
  assumes "g_size h = g_size g" "\<And>k. in_graph g k \<Longrightarrow> v_kind (view h k) = v_kind (view g k)"
    "\<And>k. in_graph g k \<Longrightarrow> v_kind (view g k) = NK_ConstInt \<Longrightarrow> const_value (side h k) = const_value (side g k)"
    "view h j = view g j" "in_graph g j"
  shows "alg_action h j = alg_action g j" "peephole_action h j = peephole_action g j" "nce_test h j = nce_test g j"
proof -
  have c: "is_const_int h a v = is_const_int g a v" for a v
    using assms(1) assms(2,3) [of a] by (auto simp: is_const_int_def id_valid_def in_graph_def view_fields(1))
  have p: "get_const_int_value h a = get_const_int_value g a" for a
    using assms(1) assms(2,3) [of a] by (auto simp: get_const_int_value_def id_valid_def in_graph_def view_fields(1))
  have n: "is_provably_non_null h a = is_provably_non_null g a" for a
    using assms(1) assms(2) [of a] by (auto simp: is_provably_non_null_def id_valid_def in_graph_def view_fields(1))
  have f: "n_kind (node h j) = n_kind (node g j)" "n_flags (node h j) = n_flags (node g j)"
    "data_inputs h j = data_inputs g j" by (simp_all add: view_fields assms(4))
  show "alg_action h j = alg_action g j"
    by (simp add: alg_action_def alg_switch_def Let_def c node_queries f cong: if_cong)
  show "peephole_action h j = peephole_action g j"
    by (simp add: peephole_action_def Let_def p node_queries f cong: if_cong)
  show "nce_test h j = nce_test g j"
    by (simp add: nce_test_def Let_def n node_queries f cong: if_cong)
qed

lemma alg_action_not_literal: "alg_action g i = Some x \<Longrightarrow> n_kind (node g i) \<noteq> NK_ConstInt"
  by (auto simp: alg_action_def alg_switch_def Let_def split: if_splits)

lemma peephole_action_mul: "peephole_action g i = Some x \<Longrightarrow> n_kind (node g i) = NK_Mul"
  by (auto simp: peephole_action_def Let_def split: if_splits option.splits)

lemma set_mark_stable:
  assumes "graph_wf g" "in_graph g i" "in_graph g j" "i \<noteq> j" "n_kind (node g i) \<noteq> NK_ConstInt"
  shows "alg_action (set_mark i t v g) j = alg_action g j" "peephole_action (set_mark i t v g) j = peephole_action g j"
proof -
  note v = view_set_mark [OF assms(1,2)]
  have k: "v_kind (view (set_mark i t v g) k) = v_kind (view g k)" if "in_graph g k" for k
    using v [OF that] by (simp add: mark_view_def)
  have s: "const_value (side (set_mark i t v g) k) = const_value (side g k)"
    if "in_graph g k" "v_kind (view g k) = NK_ConstInt" for k
    using v [OF that(1)] that assms(5) by (auto simp: view_fields)
  show "alg_action (set_mark i t v g) j = alg_action g j" "peephole_action (set_mark i t v g) j = peephole_action g j"
    using act_cong [of "set_mark i t v g" g j] k s v [OF assms(3)] assms(3,4) by auto
qed

section \<open>The passes as annotations\<close>

interpretation alg: marking_pass alg_step
  "\<lambda>g i. case alg_action g i of None \<Rightarrow> None | Some (t, v) \<Rightarrow> Some (mark_view t v)"
proof (unfold_locales, goal_cases)
  case (1 g i) then show ?case by (auto simp: alg_step_def split: option.splits)
next
  case (2 g i f)
  then obtain t v where "alg_action g i = Some (t, v)" "f = mark_view t v" by (auto split: option.splits)
  then show ?case using 2 by (auto simp: alg_step_def wf_set_mark view_set_mark)
next
  case (3 g i j)
  show ?case
  proof (cases "alg_action g i")
    case (Some tv)
    then show ?thesis
      using set_mark_stable(1) [OF 3] alg_action_not_literal [OF Some] by (cases tv) (simp add: alg_step_def)
  qed (simp add: alg_step_def)
qed

interpretation peep: marking_pass peephole_step "\<lambda>g i. map_option (mark_view False) (peephole_action g i)"
proof (unfold_locales, goal_cases)
  case (1 g i) then show ?case by (auto simp: peephole_step_def split: option.splits)
next
  case (2 g i f)
  then show ?case by (auto simp: peephole_step_def wf_set_mark view_set_mark)
next
  case (3 g i j)
  show ?case
  proof (cases "peephole_action g i")
    case (Some k)
    then show ?thesis
      using set_mark_stable(2) [OF 3] peephole_action_mul [OF Some] by (simp add: peephole_step_def)
  qed (simp add: peephole_step_def)
qed

definition dead_view :: "node_view \<Rightarrow> node_view" where
  "dead_view v = v\<lparr>v_flags := v_flags v OR NF_IsDead\<rparr>"

lemma view_mark_dead': "in_graph g i \<Longrightarrow> in_graph g j \<Longrightarrow>
    view (mark_dead i g) j = (if j = i then dead_view (view g j) else view g j)"
  by (simp add: view_mark_dead dead_view_def)

interpretation cfs: marking_pass cfs_step "\<lambda>g i. if cfs_test g i then Some dead_view else None"
proof (unfold_locales, goal_cases)
  case (1 g i) then show ?case by (simp add: cfs_step_def split: if_splits)
next
  case (2 g i f)
  then show ?case by (auto simp: cfs_step_def wf_mark_dead view_mark_dead' split: if_splits)
next
  case (3 g i j)
  have "cfs_test (mark_dead i g) j = cfs_test g j"
    using 3 node_mark_dead [OF 3(2)]
    by (auto simp: cfs_test_def Let_def inputs_mark_dead node_queries or_flags_def flag_simps id_valid_def in_graph_def)
  then show ?case by (simp add: cfs_step_def)
qed

interpretation nce: marking_pass nce_step "\<lambda>g i. if nce_test g i then Some dead_view else None"
proof (unfold_locales, goal_cases)
  case (1 g i) then show ?case by (simp add: nce_step_def split: if_splits)
next
  case (2 g i f)
  then show ?case by (auto simp: nce_step_def wf_mark_dead view_mark_dead' split: if_splits)
next
  case (3 g i j)
  have "nce_test (mark_dead i g) j = nce_test g j"
    by (rule act_cong(3)) (use 3 in \<open>simp_all add: view_mark_dead' dead_view_def\<close>)
  then show ?case by (simp add: nce_step_def)
qed

interpretation narrow: marking_pass narrow_step
  "\<lambda>g i. if narrow_test g i then Some (\<lambda>v. v\<lparr>v_flags := v_flags v OR NF_HasTypeNarrowing\<rparr>) else None"
proof (unfold_locales, goal_cases)
  case (1 g i) then show ?case by (simp add: narrow_step_def split: if_splits)
next
  case (2 g i f)
  then show ?case by (auto simp: narrow_step_def wf_upd_node_slices view_upd_flags split: if_splits)
next
  case (3 g i j)
  then show ?case by (simp add: narrow_step_def narrow_test_def node_upd)
qed

section \<open>Values\<close>

context node_semantics begin

lemma same_code_eval_iff_sem: "same_code g h \<Longrightarrow> eval F h j v \<longleftrightarrow> eval F g j v"
proof -
  have "eval F h j v" if "eval F g j v" "same_code g h" for g h
    using that
  proof (induction rule: eval.induct)
    case (evalI i vs v)
    have c: "n_kind (node h i) = n_kind (node g i)" "data_inputs h i = data_inputs g i"
      "n_kind (node g i) = NK_ConstInt \<Longrightarrow> const_value (side h i) = const_value (side g i)"
      using evalI.prems evalI.hyps(1) by (simp_all add: same_code_def)
    have "F (n_kind (node g i)) (side h i) vs = F (n_kind (node g i)) (side g i) vs"
      using payload [of "n_kind (node g i)"] literal c(3) by metis
    moreover have "list_all2 (eval F h) (data_inputs h i) vs"
      unfolding c(2) by (rule list_all2_mono [OF evalI.IH]) (use evalI.prems in blast)
    moreover have "in_graph h i" using evalI.prems evalI.hyps(1) by (simp add: same_code_def in_graph_def)
    ultimately show ?case using evalI.hyps(2) c(1) by (intro eval.evalI) simp_all
  qed
  then show "same_code g h \<Longrightarrow> eval F h j v \<longleftrightarrow> eval F g j v" using same_code_sym by blast
qed

end

lemma same_code_viewI:
  assumes "g_size h = g_size g"
    "\<And>j. in_graph g j \<Longrightarrow> v_kind (view h j) = v_kind (view g j) \<and> v_ins (view h j) = v_ins (view g j)
      \<and> (v_kind (view g j) = NK_ConstInt \<longrightarrow> const_value (v_side (view h j)) = const_value (v_side (view g j)))"
  shows "same_code g h"
  using assms unfolding same_code_def view_fields by blast

lemma eval_literal: "eval int_sem g i w \<Longrightarrow> n_kind (node g i) = NK_ConstInt \<Longrightarrow> w = const_value (side g i)"
  by (erule evalE) (auto simp: int_sem_def split: list.splits)

lemma eval_two:
  assumes "eval int_sem g i w" "data_inputs g i = [a, b]"
  obtains x y where "eval int_sem g a x" "eval int_sem g b y" "int_sem (n_kind (node g i)) (side g i) [x, y] = Some w"
proof -
  from assms(1) obtain vs where "list_all2 (eval int_sem g) (data_inputs g i) vs"
    "int_sem (n_kind (node g i)) (side g i) vs = Some w" by (rule evalE)
  then show ?thesis using that assms(2) by (auto simp: list_all2_Cons1)
qed

lemma is_const_int_eval: "is_const_int g b v \<Longrightarrow> eval int_sem g b y \<Longrightarrow> y = v"
  by (auto simp: is_const_int_def dest: eval_literal split: if_splits)

text \<open>A typed mark is the value of the node.\<close>

lemma alg_typed_mark:
  assumes "alg_action g i = Some (True, v)" "eval int_sem g i w"
  shows "w = v"
proof -
  let ?a = "data_inputs g i ! 0" and ?b = "data_inputs g i ! 1" and ?k = "n_kind (node g i)"
  have sw: "alg_switch g ?k ?a ?b = Some (True, v)" and "length (data_inputs g i) = 2"
    using assms(1) by (auto simp: alg_action_def Let_def split: if_splits)
  then have "data_inputs g i = [?a, ?b]" by (auto simp: numeral_2_eq_2 length_Suc_conv)
  from eval_two [OF assms(2) this] obtain x y where xy: "eval int_sem g ?a x" "eval int_sem g ?b y"
    "int_sem ?k (side g i) [x, y] = Some w" by blast
  note z = is_const_int_eval [OF _ xy(1), of 0] is_const_int_eval [OF _ xy(2), of 0]
  consider "?k = NK_Mul" "x = 0 \<or> y = 0" "v = 0" | "?k = NK_And" "x = 0 \<or> y = 0" "v = 0"
    | "?k = NK_Xor" "?a = ?b" "v = 0"
    using sw z by (auto simp: alg_switch_def split: if_splits)
  then show ?thesis
  proof cases
    case 3
    then have "x = y" using eval_det xy(1,2) by metis
    then show ?thesis using 3 xy(3) by (simp add: int_sem_def)
  qed (use xy(3) in \<open>auto simp: int_sem_def\<close>)
qed

lemma alg_run:
  assumes "graph_wf g" "algebraic_simplification_run debug g = Some (g', r)"
  shows "graph_wf g' \<and> g_size g' = g_size g \<and> (\<forall>j. in_graph g j \<longrightarrow> view g' j =
    (case alg_action g j of None \<Rightarrow> view g j | Some (t, v) \<Rightarrow> mark_view t v (view g j)))"
  using alg.run_marks [OF assms(1), of debug g' r] assms(2)
  by (auto simp: algebraic_simplification_run_def alg.annotated_def split: option.splits prod.splits)

lemma alg_same_code:
  assumes "graph_wf g" "algebraic_simplification_run debug g = Some (g', r)"
  shows "same_code g g'"
proof (rule same_code_viewI)
  fix j assume j: "in_graph g j"
  then show "v_kind (view g' j) = v_kind (view g j) \<and> v_ins (view g' j) = v_ins (view g j)
      \<and> (v_kind (view g j) = NK_ConstInt \<longrightarrow> const_value (v_side (view g' j)) = const_value (v_side (view g j)))"
    using alg_run [OF assms] alg_action_not_literal [of g j]
    by (cases "alg_action g j") (auto simp: mark_view_def view_fields)
qed (use alg_run [OF assms] in blast)

text \<open>Marks with the type \<open>Int\<close> belong to literals before the first folding pass.\<close>

definition untyped :: "graph \<Rightarrow> bool" where
  "untyped g \<longleftrightarrow> (\<forall>i. in_graph g i \<longrightarrow> n_kind (node g i) \<noteq> NK_ConstInt \<longrightarrow> n_type (node g i) \<noteq> Ty_Int)"

lemma alg_marks_agree:
  assumes "graph_wf g" "untyped g" "algebraic_simplification_run debug g = Some (g', r)"
    and j: "in_graph g j" "is_int_const g' j" "eval int_sem g j v"
  shows "v = const_value (side g' j)"
proof (cases "n_kind (node g j) = NK_ConstInt")
  case True
  then have "const_value (side g' j) = const_value (side g j)"
    using alg_same_code [OF assms(1,3)] j(1) by (simp add: same_code_def)
  then show ?thesis using eval_literal [OF j(3) True] by simp
next
  case False
  have k: "n_kind (node g' j) \<noteq> NK_ConstInt"
    using False alg_same_code [OF assms(1,3)] j(1) by (simp add: same_code_def)
  then have ty: "v_type (view g' j) = Ty_Int" using j(2) by (simp add: is_int_const_def view_fields)
  have un: "v_type (view g j) \<noteq> Ty_Int" using assms(2) False j(1) by (simp add: untyped_def view_fields)
  have vj: "view g' j = (case alg_action g j of None \<Rightarrow> view g j | Some (t, v) \<Rightarrow> mark_view t v (view g j))"
    using alg_run [OF assms(1,3)] j(1) by blast
  from ty un vj obtain u where "alg_action g j = Some (True, u)" "const_value (v_side (view g' j)) = u"
    by (auto simp: mark_view_def split: option.splits prod.splits if_splits)
  then show ?thesis using alg_typed_mark j(3) by (simp add: view_fields)
qed

text \<open>Algebraic simplification preserves the integer value of every node; on a graph whose other nodes
  carry no integer type yet, every node it leaves as an integer constant has that constant as its value.\<close>

lemma algebraic_simplification_sound:
  assumes "graph_wf g" "untyped g" "algebraic_simplification_run debug g = Some (g', r)"
  shows "graph_wf g' \<and> (\<forall>j v. eval int_sem g' j v \<longleftrightarrow> eval int_sem g j v)
    \<and> (\<forall>j v. in_graph g j \<longrightarrow> is_int_const g' j \<longrightarrow> eval int_sem g j v \<longrightarrow> v = const_value (side g' j))"
  using alg_run [OF assms(1,3)] int.same_code_eval_iff_sem [OF alg_same_code [OF assms(1,3)]]
    alg_marks_agree [OF assms] by blast

lemma algebraic_simplification_sound_witness:
  "\<exists>g' r. algebraic_simplification_run True ex_arith = Some (g', r) \<and> (eval int_sem g' 4 75 = eval int_sem ex_arith 4 75)"
proof -
  obtain g' r where run: "algebraic_simplification_run True ex_arith = Some (g', r)"
    by (simp add: algebraic_simplification_run_def run_sweep_def split_beta)
  have "untyped ex_arith"
    unfolding untyped_def all_ex_arith by (simp add: ex_arith_eq node_def)
  from algebraic_simplification_sound [OF wf_ex_arith this run] run show ?thesis by blast
qed

section \<open>Powers of two\<close>

lemma log2_loop_even: "m > 0 \<Longrightarrow> log2_loop (2 * m) s = log2_loop m (s + 1)"
  by (subst log2_loop.simps) simp

lemma nat_and_pred:
  fixes n :: nat
  shows "n > 0 \<Longrightarrow> n AND (n - 1) = 0 \<Longrightarrow> \<exists>k. log2_loop n s = s + k \<and> n = 2 ^ k"
proof (induction n arbitrary: s rule: less_induct)
  case (less n)
  show ?case
  proof (cases "even n")
    case True
    then obtain m where m: "n = 2 * m" by blast
    with less.prems have "m > 0" by simp
    then have "n - 1 = Suc (2 * (m - 1))" using m by simp
    then have "(n - 1) div 2 = m - 1" "n div 2 = m" using m by simp_all
    then have "2 * (m AND (m - 1)) = 0" using less.prems(2) and_nat_rec [of n "n - 1"] by simp
    then obtain k where "log2_loop m (s + 1) = s + 1 + k" "m = 2 ^ k"
      using less.IH [of m "s + 1"] m \<open>m > 0\<close> by auto
    then show ?thesis using m \<open>m > 0\<close> by (intro exI [of _ "k + 1"]) (simp add: log2_loop_even)
  next
    case False
    then obtain m where m: "n = 2 * m + 1" by (rule oddE)
    then have "(n - 1) div 2 = m" "n div 2 = m" by simp_all
    then have "2 * (m AND m) = 0" using less.prems(2) and_nat_rec [of n "n - 1"] by simp
    then have "n = 1" using m by simp
    then show ?thesis by (subst log2_loop.simps) simp
  qed
qed

lemma power_of_two_log2:
  assumes "is_power_of_two v"
  shows "sint v = 2 ^ log2_of_power_of_two v \<and> log2_of_power_of_two v < 63"
proof -
  have pos: "sint v > 0" and "v AND (v - 1) = 0" using assms by (simp_all add: is_power_of_two_def)
  then have nz: "v \<noteq> 0" by auto
  have "uint v = sint v"
    using pos sint_lt [of v] by (simp add: uint_sint take_bit_int_eq_self)
  then have u: "nat (sint v) = unat v" by (metis nat_uint_eq)
  have "unat v AND (unat v - 1) = 0"
    using \<open>v AND (v - 1) = 0\<close> unat_minus_one [OF nz] by (metis unsigned_0 unsigned_and_eq)
  then obtain k where k: "log2_loop (unat v) 0 = k" "unat v = 2 ^ k"
    using nat_and_pred [of "unat v" 0] nz by (metis add_0 unat_gt_0 word_gt_0)
  have "sint v < 2 ^ 63" using sint_lt [of v] by simp
  then have "(2 :: int) ^ k < 2 ^ 63" using k(2) u pos by (metis nat_0_le of_nat_numeral of_nat_power order_less_imp_le)
  then have "k < 63" by (rule power_less_imp_less_exp [rotated]) simp
  moreover have "sint v = 2 ^ k" using k(2) u pos by (metis nat_0_le of_nat_numeral of_nat_power order_less_imp_le)
  ultimately show ?thesis using k(1) u by (simp add: log2_of_power_of_two_def)
qed


text \<open>The strength reduction of the peephole pass recognises exactly the powers of two it can shift by:
  a positive literal with a single bit is \<open>2 ^ k\<close> for the shift \<open>k < 63\<close> the code computes.\<close>

lemma peephole_shift_exact:
  assumes "is_power_of_two v"
  shows "sint v = 2 ^ log2_of_power_of_two v \<and> log2_of_power_of_two v < 63"
  using power_of_two_log2 [OF assms] .

lemma peephole_shift_exact_witness: "sint (64 :: i64) = 2 ^ log2_of_power_of_two 64"
  using peephole_shift_exact [of 64] by (simp add: is_power_of_two_def)

section \<open>Dead marks\<close>

text \<open>Control flow simplification marks an \<open>If\<close> as dead exactly when its only input is a node of the
  graph with a constant mark, and changes nothing else.\<close>

lemma control_flow_simplification_exact:
  assumes "graph_wf g" "control_flow_simplification_run debug g = Some (g', r)" "in_graph g j"
  shows "view g' j = (if \<not> node_is_dead (node g j) \<and> n_kind (node g j) = NK_If
      \<and> (\<exists>c. data_inputs g j = [c] \<and> in_graph g c \<and> flags_has (n_flags (node g c)) NF_IsConst)
    then dead_view (view g j) else view g j)"
proof -
  have "cfs_test g j \<longleftrightarrow> \<not> node_is_dead (node g j) \<and> n_kind (node g j) = NK_If
      \<and> (\<exists>c. data_inputs g j = [c] \<and> in_graph g c \<and> flags_has (n_flags (node g c)) NF_IsConst)"
    by (auto simp: cfs_test_def Let_def id_valid_def in_graph_def length_Suc_conv)
  then show ?thesis
    using cfs.run_marks [OF assms(1)] assms(2,3)
    by (auto simp: control_flow_simplification_run_def cfs.annotated_def)
qed

text \<open>An \<open>If\<close> on a folded condition.\<close>

definition ex_if :: graph where
  "ex_if = snd (gb_if_node 1 (snd (create_const_int 1 empty_graph)))"

lemma built_ex_if: "built ex_if"
  unfolding ex_if_def by (intro built_builder built_const_int built_empty)

lemma nodes_ex_if:
  "g_size ex_if = 2" "n_kind (node ex_if 2) = NK_If" "data_inputs ex_if 2 = [1]"
  "\<not> node_is_dead (node ex_if 2)" "flags_has (n_flags (node ex_if 1)) NF_IsConst"
  by (simp_all add: ex_if_def gb_if_node_def build_simps g_size_def input_defs pool_get_def node_is_dead_def flags_has_def)

lemma control_flow_simplification_exact_witness:
  "\<exists>g' r. control_flow_simplification_run False ex_if = Some (g', r) \<and> view g' 2 = dead_view (view ex_if 2)"
proof -
  obtain g' r where run: "control_flow_simplification_run False ex_if = Some (g', r)"
    by (simp add: control_flow_simplification_run_def run_sweep_def split_beta)
  show ?thesis
    using control_flow_simplification_exact [OF built_wf [OF built_ex_if] run, of 2] run
    by (auto simp: nodes_ex_if in_graph_def simp del: One_nat_def)
qed

text \<open>Null check elimination marks exactly the live null checks whose operand is an allocation, a box, a
  string literal or another null check, and changes nothing else.\<close>

lemma nce_exact:
  assumes "graph_wf g" "nce_run debug g = Some (g', r)" "in_graph g j"
  shows "view g' j = (if \<not> node_is_dead (node g j) \<and> n_kind (node g j) = NK_CheckNotNull
      \<and> (\<exists>c cs. data_inputs g j = c # cs \<and> in_graph g c \<and> n_kind (node g c) \<in>
           {NK_NewObj, NK_NewArr, NK_Allocate, NK_Box, NK_CheckNotNull, NK_LdStr})
    then dead_view (view g j) else view g j)"
proof -
  have "nce_test g j \<longleftrightarrow> \<not> node_is_dead (node g j) \<and> n_kind (node g j) = NK_CheckNotNull
      \<and> (\<exists>c cs. data_inputs g j = c # cs \<and> in_graph g c \<and> n_kind (node g c) \<in>
           {NK_NewObj, NK_NewArr, NK_Allocate, NK_Box, NK_CheckNotNull, NK_LdStr})"
    by (cases "data_inputs g j") (auto simp: nce_test_def Let_def is_provably_non_null_def id_valid_def in_graph_def)
  then show ?thesis
    using nce.run_marks [OF assms(1)] assms(2,3) by (auto simp: nce_run_def nce.annotated_def)
qed

text \<open>A null check of a fresh object.\<close>

definition ex_check :: graph where
  "ex_check = snd (create_with NK_CheckNotNull [1] 0 0 (snd (gb_allocate 7 empty_graph)))"

lemma built_ex_check: "built ex_check"
  unfolding ex_check_def by (intro built_create_with built_allocate built_empty)

lemma nodes_ex_check:
  "g_size ex_check = 2" "n_kind (node ex_check 1) = NK_Allocate" "n_kind (node ex_check 2) = NK_CheckNotNull"
  "data_inputs ex_check 2 = [1]" "\<not> node_is_dead (node ex_check 2)"
  by (simp_all add: ex_check_def gb_allocate_def build_simps g_size_def input_defs pool_get_def node_is_dead_def flags_has_def)

lemma nce_exact_witness:
  "\<exists>g' r. nce_run False ex_check = Some (g', r) \<and> view g' 2 = dead_view (view ex_check 2)"
proof -
  obtain g' r where run: "nce_run False ex_check = Some (g', r)"
    by (simp add: nce_run_def run_sweep_def split_beta)
  show ?thesis
    using nce_exact [OF built_wf [OF built_ex_check] run, of 2] run
    by (auto simp: nodes_ex_check in_graph_def simp del: One_nat_def)
qed

section \<open>Marks that are not values\<close>

text \<open>
  \<open>7 + 0\<close>: the marker of \<open>x + 0\<close> is a constant mark with the payload 0, although the node has the
  value 7.
\<close>

definition ex_add0 :: graph where
  "ex_add0 = snd (gb_add 1 2 (snd (create_const_int 0 (snd (create_const_int 7 empty_graph)))))"

lemma nodes_ex_add0:
  "g_size ex_add0 = 3" "n_kind (node ex_add0 1) = NK_ConstInt" "n_kind (node ex_add0 2) = NK_ConstInt"
  "n_kind (node ex_add0 3) = NK_Add" "data_inputs ex_add0 1 = []" "data_inputs ex_add0 2 = []"
  "data_inputs ex_add0 3 = [1, 2]" "n_flags (node ex_add0 3) = 25"
  "const_value (side ex_add0 1) = 7" "const_value (side ex_add0 2) = 0"
  by (simp_all add: ex_add0_def gb_add_def build_simps g_size_def input_defs pool_get_def)

lemma alg_marker_is_not_the_value:
  "\<exists>g' r. algebraic_simplification_run False ex_add0 = Some (g', r) \<and> eval int_sem g' 3 7
     \<and> flags_has (n_flags (node g' 3)) NF_IsConst \<and> const_value (side g' 3) = 0"
proof -
  have wf: "graph_wf ex_add0"
    unfolding ex_add0_def by (intro built_wf built_builder built_const_int built_empty)
  obtain g' r where run: "algebraic_simplification_run False ex_add0 = Some (g', r)"
    by (simp add: algebraic_simplification_run_def run_sweep_def split_beta)
  have c: "eval int_sem ex_add0 1 7" "eval int_sem ex_add0 2 0"
    by (rule evalI [of _ _ _ "[]"]; simp add: in_graph_def nodes_ex_add0 int_sem_def del: One_nat_def)+
  have "eval int_sem ex_add0 3 7"
    by (rule evalI [of _ _ _ "[7, 0]"]) (simp_all add: in_graph_def nodes_ex_add0 int_sem_def c del: One_nat_def)
  then have "eval int_sem g' 3 7"
    using int.same_code_eval_iff_sem [OF alg_same_code [OF wf run]] by simp
  moreover have "alg_action ex_add0 3 = Some (False, 0)"
    by (simp add: alg_action_def alg_switch_def is_const_int_def node_queries flags_has_def nodes_ex_add0 id_valid_def
        del: One_nat_def)
  then have "view g' 3 = mark_view False 0 (view ex_add0 3)"
    using alg_run [OF wf run] by (simp add: in_graph_def nodes_ex_add0)
  then have "flags_has (n_flags (node g' 3)) NF_IsConst" "const_value (side g' 3) = 0"
    by (simp_all add: view_fields mark_view_def flag_simps)
  ultimately show ?thesis using run by blast
qed

text \<open>\<open>3 * 4\<close>, and the same graph after constant folding.\<close>

definition ex_mul4 :: graph where
  "ex_mul4 = snd (gb_mul 1 2 (snd (create_const_int 4 (snd (create_const_int 3 empty_graph)))))"

definition ex_folded :: graph where
  "ex_folded = set_folded 3 12 ex_mul4"

lemma ex_mul4_fold: "fold_loop ex_mul4 = Some ex_folded"
proof -
  have "fold_sweep (node_ids ex_mul4) False ex_mul4 = Some (True, ex_folded)"
    by (simp add: ex_mul4_def ex_folded_def gb_mul_def build_simps node_ids_def g_size_def upt_rec
        try_fold_binary_def is_foldable_kind_def input_defs pool_get_def in_graph_def is_int_const_def
        flags_has_def fold_switch_def wrap_defs set_folded_def)
  moreover have "fold_sweep (node_ids ex_folded) False ex_folded = Some (False, ex_folded)"
    by (simp add: ex_mul4_def ex_folded_def gb_mul_def build_simps node_ids_def g_size_def upt_rec
        try_fold_binary_def is_foldable_kind_def input_defs pool_get_def in_graph_def is_int_const_def
        flags_has_def fold_switch_def wrap_defs set_folded_def)
  ultimately show ?thesis
    by (subst fold_loop.simps, simp, subst fold_loop.simps, simp)
qed

lemma wf_ex_mul4: "graph_wf ex_mul4"
  unfolding ex_mul4_def by (intro built_wf built_builder built_const_int built_empty)

lemma nodes_ex_folded:
  "g_size ex_folded = 3" "n_kind (node ex_folded 2) = NK_ConstInt" "n_kind (node ex_folded 3) = NK_Mul"
  "data_inputs ex_folded 3 = [1, 2]" "n_flags (node ex_folded 3) = 281" "n_type (node ex_folded 3) = Ty_Int"
  "const_value (side ex_folded 3) = 12" "const_value (side ex_folded 2) = 4"
  by (simp_all add: ex_mul4_def ex_folded_def gb_mul_def build_simps g_size_def input_defs pool_get_def set_folded_def)

text \<open>The peephole pass, which runs after constant folding in the pipeline, does not respect folded
  nodes: \<open>3 * 4\<close>, folded to the integer constant 12, ends as the integer constant 2, the shift amount.\<close>

lemma peephole_overwrites_folded_value:
  "constant_folding_run False ex_mul4 = Some (ex_folded, Inr ())
   \<and> is_int_const ex_folded 3 \<and> const_value (side ex_folded 3) = 12
   \<and> (\<exists>g' r. peephole_run False ex_folded = Some (g', r) \<and> is_int_const g' 3 \<and> const_value (side g' 3) = 2)"
proof -
  have wf: "graph_wf ex_folded"
    unfolding ex_folded_def by (rule wf_set_folded [OF wf_ex_mul4])
      (simp add: ex_mul4_def gb_mul_def build_simps in_graph_def g_size_def)
  obtain g' r where run: "run_sweep peephole_step False ex_folded = Some (g', r)"
    by (simp add: run_sweep_def split_beta)
  have "log2_of_power_of_two 4 = 2"
    by (simp add: log2_of_power_of_two_def log2_loop.simps)
  then have "peephole_action ex_folded 3 = Some 2"
    by (simp add: peephole_action_def get_const_int_value_def is_power_of_two_def node_queries flags_has_def
        nodes_ex_folded id_valid_def)
  then have v: "view g' 3 = mark_view False 2 (view ex_folded 3)"
    using peep.run_marks [OF wf run] by (simp add: in_graph_def nodes_ex_folded peep.annotated_def)
  have "is_int_const g' 3" "const_value (side g' 3) = 2"
    using nodes_ex_folded by (simp_all add: is_int_const_def view_fields v mark_view_def flag_simps)
  moreover have "is_int_const ex_folded 3"
    by (simp add: is_int_const_def nodes_ex_folded flags_has_def)
  ultimately show ?thesis
    using run by (auto simp: constant_folding_run_def ex_mul4_fold verify_if_enabled_def nodes_ex_folded peephole_run_def)
qed

end
