(* ===== verification/Sccp.thy ===== *)
theory Sccp
  imports Local_Passes_Correct
begin

text \<open>
  \<^verbatim>\<open>ir/passes/SCCP.cpp\<close>: sparse constant propagation over a three-level lattice, computed by sweeps
  to a fixpoint and then written back as constant marks.
\<close>

section \<open>The lattice\<close>

datatype lattice_kind = LTop | LConst | LBottom

record lattice_value =
  lv_kind :: lattice_kind
  lv_const :: i64

definition lv_top :: lattice_value where
  "lv_top = \<lparr>lv_kind = LTop, lv_const = 0\<rparr>"

definition lv_bottom :: lattice_value where
  "lv_bottom = \<lparr>lv_kind = LBottom, lv_const = 0\<rparr>"

definition lv_constant :: "i64 \<Rightarrow> lattice_value" where
  "lv_constant v = \<lparr>lv_kind = LConst, lv_const = v\<rparr>"

definition lv_eq :: "lattice_value \<Rightarrow> lattice_value \<Rightarrow> bool" where
  "lv_eq a b \<longleftrightarrow> lv_kind a = lv_kind b \<and> (lv_kind a \<noteq> LConst \<or> lv_const a = lv_const b)"

definition lv_meet :: "lattice_value \<Rightarrow> lattice_value \<Rightarrow> lattice_value" where
  "lv_meet a b =
     (if lv_kind a = LTop then b
      else if lv_kind b = LTop then a
      else if lv_kind a = LBottom \<or> lv_kind b = LBottom then lv_bottom
      else if lv_const a = lv_const b then a
      else lv_bottom)"

section \<open>Abstract evaluation\<close>

definition lv_bool :: "bool \<Rightarrow> lattice_value" where
  "lv_bool b = lv_constant (if b then 1 else 0)"

text \<open>Signed \<open>+\<close>, \<open>-\<close> and \<open>*\<close> overflow and the quotient of the least value by \<open>-1\<close> are undefined.\<close>

definition eval_binary :: "node_kind \<Rightarrow> i64 \<Rightarrow> i64 \<Rightarrow> lattice_value ub" where
  "eval_binary k a b =
     (if k = NK_Add then map_option lv_constant (s_add a b)
      else if k = NK_Sub then map_option lv_constant (s_sub a b)
      else if k = NK_Mul then map_option lv_constant (s_mul a b)
      else if k = NK_Div then (if b = 0 then Some lv_top else map_option lv_constant (s_div a b))
      else if k = NK_Mod then (if b = 0 then Some lv_top else map_option lv_constant (s_mod a b))
      else if k = NK_And then Some (lv_constant (a AND b))
      else if k = NK_Or then Some (lv_constant (a OR b))
      else if k = NK_Xor then Some (lv_constant (a XOR b))
      else if k = NK_Shl then Some (lv_constant (push_bit (unat (b AND 63)) a))
      else if k = NK_Shr then Some (lv_constant (drop_bit (unat (b AND 63)) a))
      else if k = NK_Sar then Some (lv_constant (signed_drop_bit (unat (b AND 63)) a))
      else if k = NK_Eq then Some (lv_bool (a = b))
      else if k = NK_Ne then Some (lv_bool (a \<noteq> b))
      else if k = NK_Lt then Some (lv_bool (a <s b))
      else if k = NK_Gt then Some (lv_bool (b <s a))
      else if k = NK_Lte then Some (lv_bool (a \<le>s b))
      else if k = NK_Gte then Some (lv_bool (b \<le>s a))
      else Some lv_top)"

definition sccp_binary_kind :: "node_kind \<Rightarrow> bool" where
  "sccp_binary_kind k \<longleftrightarrow>
     k \<in> set [NK_Add, NK_Sub, NK_Mul, NK_Div, NK_Mod, NK_And, NK_Or, NK_Xor, NK_Shl, NK_Shr, NK_Sar,
       NK_Eq, NK_Ne, NK_Lt, NK_Gt, NK_Lte, NK_Gte]"

definition get_val :: "lattice_value list \<Rightarrow> node_id \<Rightarrow> lattice_value" where
  "get_val values nid = (if \<not> id_valid nid \<or> nid > length values then lv_top else values ! (nid - 1))"

text \<open>The switch on the kind: the new value of a node.\<close>

definition sccp_transfer :: "graph \<Rightarrow> lattice_value list \<Rightarrow> node_id \<Rightarrow> lattice_value ub" where
  "sccp_transfer g values nid =
     (let k = n_kind (node g nid); inputs = data_inputs g nid
      in if k = NK_ConstInt then Some (lv_constant (const_value (side g nid)))
         else if sccp_binary_kind k then
           (if length inputs \<noteq> 2 then Some lv_bottom
            else let a = get_val values (inputs ! 0); b = get_val values (inputs ! 1)
              in if lv_kind a = LTop \<or> lv_kind b = LTop then Some lv_top
                 else if lv_kind a = LBottom \<or> lv_kind b = LBottom then Some lv_bottom
                 else eval_binary k (lv_const a) (lv_const b))
         else Some lv_bottom)"

section \<open>The propagation loop\<close>

fun sccp_sweep :: "graph \<Rightarrow> node_id list \<Rightarrow> bool \<Rightarrow> lattice_value list \<Rightarrow> (bool \<times> lattice_value list) ub" where
  "sccp_sweep g [] changed values = Some (changed, values)"
| "sccp_sweep g (i # is) changed values =
     (if node_is_dead (node g i) then sccp_sweep g is changed values
      else case sccp_transfer g values i of
             None \<Rightarrow> None
           | Some neu \<Rightarrow>
               if \<not> lv_eq neu (values ! (i - 1)) then sccp_sweep g is True (values[i - 1 := neu])
               else sccp_sweep g is changed values)"

text \<open>The \<^verbatim>\<open>while (changed)\<close> loop, with a bound on the number of sweeps.\<close>

fun sccp_loop :: "graph \<Rightarrow> nat \<Rightarrow> lattice_value list \<Rightarrow> lattice_value list ub option" where
  "sccp_loop g 0 values = None"
| "sccp_loop g (Suc fuel) values =
     (case sccp_sweep g (node_ids g) False values of
        None \<Rightarrow> Some None
      | Some (changed, values') \<Rightarrow> if changed then sccp_loop g fuel values' else Some (Some values'))"

section \<open>Write back\<close>

definition sccp_mark_test :: "lattice_value list \<Rightarrow> graph \<Rightarrow> node_id \<Rightarrow> bool" where
  "sccp_mark_test values g nid =
     (let n = node g nid
      in if node_is_dead n then False
         else if \<not> node_is_pure n then False
         else lv_kind (values ! (nid - 1)) = LConst \<and> \<not> flags_has (n_flags n) NF_IsConst)"

definition sccp_mark_step :: "lattice_value list \<Rightarrow> node_id \<Rightarrow> graph \<Rightarrow> bool \<times> graph" where
  "sccp_mark_step values nid g =
     (if sccp_mark_test values g nid then (True, set_mark nid True (lv_const (values ! (nid - 1))) g)
      else (False, g))"

text \<open>The pass, with as many sweeps as a graph can need; running out of them is \<^const>\<open>None\<close>.\<close>

definition sccp_run :: "bool \<Rightarrow> graph \<Rightarrow> (graph \<times> unit result) ub" where
  "sccp_run debug g =
     (case sccp_loop g (g_size g + 1) (replicate (g_size g) lv_top) of
        Some (Some values) \<Rightarrow> run_sweep (sccp_mark_step values) debug g
      | _ \<Rightarrow> None)"

section \<open>Consistent values\<close>

lemma lv_simps [simp]:
  "lv_kind lv_top = LTop" "lv_kind lv_bottom = LBottom" "lv_kind (lv_constant v) = LConst"
  "lv_const (lv_constant v) = v" "lv_kind (lv_bool b) = LConst"
  by (simp_all add: lv_top_def lv_bottom_def lv_constant_def lv_bool_def)

text \<open>A known value is what the transfer function computes from the current values.\<close>

definition consistent :: "graph \<Rightarrow> lattice_value list \<Rightarrow> bool" where
  "consistent g vs \<longleftrightarrow> length vs = g_size g \<and> (\<forall>i. in_graph g i \<longrightarrow> lv_kind (vs ! (i - 1)) \<noteq> LTop \<longrightarrow>
     (\<exists>w. sccp_transfer g vs i = Some w \<and> lv_eq w (vs ! (i - 1))))"

definition tops :: "lattice_value list \<Rightarrow> nat" where
  "tops vs = length (filter (\<lambda>v. lv_kind v = LTop) vs)"

lemma get_val_update:
  "in_graph g i \<Longrightarrow> length vs = g_size g \<Longrightarrow>
    get_val (vs[i - 1 := w]) x = (if x = i then w else get_val vs x)"
  by (auto simp: get_val_def id_valid_def in_graph_def nth_list_update)

text \<open>Raising an unknown value keeps the transfer of the known ones.\<close>

lemma transfer_stable:
  assumes "in_graph g i" "length vs = g_size g" "lv_kind (vs ! (i - 1)) = LTop"
    and "sccp_transfer g vs j = Some w" "lv_kind w \<noteq> LTop"
  shows "sccp_transfer g (vs[i - 1 := u]) j = Some w"
proof (cases "sccp_binary_kind (n_kind (node g j)) \<and> n_kind (node g j) \<noteq> NK_ConstInt \<and> length (data_inputs g j) = 2")
  case True
  have i: "get_val vs i = vs ! (i - 1)" using assms(1,2) by (simp add: get_val_def id_valid_def in_graph_def)
  have "lv_kind (get_val vs (data_inputs g j ! 0)) \<noteq> LTop \<and> lv_kind (get_val vs (data_inputs g j ! 1)) \<noteq> LTop"
    using True assms(4,5) by (auto simp: sccp_transfer_def Let_def split: if_splits)
  then have "data_inputs g j ! 0 \<noteq> i" "data_inputs g j ! 1 \<noteq> i" using i assms(3) by auto
  then have "get_val (vs[i - 1 := u]) (data_inputs g j ! 0) = get_val vs (data_inputs g j ! 0)"
    "get_val (vs[i - 1 := u]) (data_inputs g j ! 1) = get_val vs (data_inputs g j ! 1)"
    using get_val_update [OF assms(1,2)] by simp_all
  then show ?thesis using assms(4) True by (simp add: sccp_transfer_def)
next
  case False
  then show ?thesis using assms(4) by (auto simp: sccp_transfer_def Let_def split: if_splits)
qed

lemma lv_eq_top: "lv_eq a b \<Longrightarrow> lv_kind a = LTop \<longleftrightarrow> lv_kind b = LTop"
  by (auto simp: lv_eq_def)

lemma lv_eq_refl [simp]: "lv_eq a a"
  by (simp add: lv_eq_def)

text \<open>A node whose value changes was unknown and becomes known.\<close>

lemma consistent_step:
  assumes c: "consistent g vs" and i: "in_graph g i" and w: "sccp_transfer g vs i = Some w"
    and ne: "\<not> lv_eq w (vs ! (i - 1))"
  shows "consistent g (vs[i - 1 := w])" "tops (vs[i - 1 := w]) < tops vs"
proof -
  have len: "length vs = g_size g" using c by (simp add: consistent_def)
  have top: "lv_kind (vs ! (i - 1)) = LTop" using c i w ne unfolding consistent_def by auto
  then have known: "lv_kind w \<noteq> LTop" using ne by (auto simp: lv_eq_def)
  have pos: "i - 1 < length vs" using i len by (auto simp: in_graph_def)
  show "tops (vs[i - 1 := w]) < tops vs"
    unfolding tops_def by (rule filter_update_less [OF pos top known])
  have "\<exists>u. sccp_transfer g (vs[i - 1 := w]) j = Some u \<and> lv_eq u (vs[i - 1 := w] ! (j - 1))"
    if j: "in_graph g j" "lv_kind (vs[i - 1 := w] ! (j - 1)) \<noteq> LTop" for j
  proof (cases "j = i")
    case True
    then show ?thesis using transfer_stable [OF i len top w known, of w] pos by simp
  next
    case False
    then have "i - 1 \<noteq> j - 1" using i j(1) by (auto simp: in_graph_def)
    then have at: "vs[i - 1 := w] ! (j - 1) = vs ! (j - 1)" by simp
    then obtain u where u: "sccp_transfer g vs j = Some u" "lv_eq u (vs ! (j - 1))"
      using c j unfolding consistent_def by auto
    then have "lv_kind u \<noteq> LTop" using j(2) at lv_eq_top by metis
    from transfer_stable [OF i len top u(1) this] u(2) at show ?thesis by auto
  qed
  then show "consistent g (vs[i - 1 := w])" using len by (simp add: consistent_def)
qed

lemma sccp_sweep_consistent:
  "sccp_sweep g is ch vs = Some (ch', vs') \<Longrightarrow> consistent g vs \<Longrightarrow> \<forall>i \<in> set is. in_graph g i \<Longrightarrow>
    consistent g vs' \<and> tops vs' \<le> tops vs \<and> (ch' \<longrightarrow> ch \<or> tops vs' < tops vs)"
proof (induction "is" arbitrary: ch vs)
  case (Cons i "is")
  show ?case
  proof (cases "node_is_dead (node g i)")
    case True
    then show ?thesis using Cons by simp
  next
    case False
    with Cons.prems(1) obtain w where w: "sccp_transfer g vs i = Some w" by (auto split: option.splits)
    show ?thesis
    proof (cases "lv_eq w (vs ! (i - 1))")
      case True
      then show ?thesis using Cons w \<open>\<not> node_is_dead (node g i)\<close> by simp
    next
      case ne: False
      have i: "in_graph g i" using Cons.prems(3) by simp
      note st = consistent_step [OF Cons.prems(2) i w ne]
      have "sccp_sweep g is True (vs[i - 1 := w]) = Some (ch', vs')" using Cons.prems(1) False w ne by simp
      from Cons.IH [OF this st(1)] Cons.prems(3) st(2) show ?thesis by auto
    qed
  qed
qed auto

lemma sccp_sweep_unchanged:
  "sccp_sweep g is ch vs = Some (False, vs') \<Longrightarrow> vs' = vs \<and> (\<forall>i \<in> set is. \<not> node_is_dead (node g i) \<longrightarrow>
    (\<exists>w. sccp_transfer g vs i = Some w \<and> lv_eq w (vs ! (i - 1))))"
proof (induction "is" arbitrary: ch vs)
  case (Cons i "is")
  have never: "sccp_sweep g is True us \<noteq> Some (False, vs')" for us
  proof (induction "is" arbitrary: us)
    case (Cons i "is")
    then show ?case by (auto split: option.splits)
  qed simp
  show ?case
  proof (cases "node_is_dead (node g i)")
    case False
    with Cons.prems obtain w where w: "sccp_transfer g vs i = Some w" by (auto split: option.splits)
    then have "lv_eq w (vs ! (i - 1))" using Cons.prems False never by (auto split: if_splits)
    then show ?thesis using Cons w False by auto
  qed (use Cons in auto)
qed simp

lemma consistent_init: "consistent g (replicate (g_size g) lv_top)"
proof -
  have "replicate (g_size g) lv_top ! (i - 1) = lv_top" if "in_graph g i" for i
    using that by (intro nth_replicate) (auto simp: in_graph_def)
  then show ?thesis by (simp add: consistent_def)
qed

text \<open>Enough sweeps: every sweep but the last makes an unknown value known.\<close>

lemma sccp_loop_enough:
  "consistent g vs \<Longrightarrow> tops vs < fuel \<Longrightarrow> sccp_loop g fuel vs \<noteq> None"
proof (induction fuel arbitrary: vs)
  case (Suc fuel)
  show ?case
  proof (cases "sccp_sweep g (node_ids g) False vs")
    case (Some r)
    then obtain ch vs' where r: "sccp_sweep g (node_ids g) False vs = Some (ch, vs')" by (cases r) auto
    from sccp_sweep_consistent [OF r Suc.prems(1)] Suc.prems(2) Suc.IH [of vs'] r show ?thesis by (cases ch) auto
  qed simp
qed simp

lemma sccp_loop_result:
  "sccp_loop g fuel vs = Some (Some vs') \<Longrightarrow> consistent g vs \<Longrightarrow> consistent g vs'
    \<and> (\<forall>i. in_graph g i \<longrightarrow> \<not> node_is_dead (node g i) \<longrightarrow>
        (\<exists>w. sccp_transfer g vs' i = Some w \<and> lv_eq w (vs' ! (i - 1))))"
proof (induction fuel arbitrary: vs)
  case (Suc fuel)
  from Suc.prems(1) obtain ch us where r: "sccp_sweep g (node_ids g) False vs = Some (ch, us)"
    and rest: "(if ch then sccp_loop g fuel us else Some (Some us)) = Some (Some vs')"
    by (auto split: option.splits)
  have cu: "consistent g us" using sccp_sweep_consistent [OF r Suc.prems(2)] by simp
  show ?case
  proof (cases ch)
    case True
    then show ?thesis using Suc.IH [OF _ cu] rest by simp
  next
    case False
    then show ?thesis using sccp_sweep_unchanged [of g "node_ids g" False vs us] r rest cu by simp
  qed
qed simp

section \<open>The values found are the values of the nodes\<close>

text \<open>Literals have no inputs.\<close>

definition literals_closed :: "graph \<Rightarrow> bool" where
  "literals_closed g \<longleftrightarrow> (\<forall>j. in_graph g j \<longrightarrow> n_kind (node g j) = NK_ConstInt \<longrightarrow> data_inputs g j = [])"

lemma eval_binary_sem:
  "eval_binary k a b = Some w \<Longrightarrow> lv_kind w = LConst \<Longrightarrow> int_sem k s [a, b] = Some (lv_const w)"
  by (auto simp: eval_binary_def int_sem_def lv_bool_def dest: s_add_Some s_sub_Some s_mul_Some split: if_splits)

lemma sem_eval_binary:
  "int_sem k s [a, b] = Some v \<Longrightarrow> eval_binary k a b = Some w \<Longrightarrow> lv_kind w = LConst \<and> lv_const w = v"
  by (auto simp: eval_binary_def int_sem_def lv_bool_def s_div_def s_mod_def
      dest: s_add_Some s_sub_Some s_mul_Some split: if_splits)

lemma int_sem_two_kind: "int_sem k s [a, b] = Some v \<Longrightarrow> sccp_binary_kind k \<and> k \<noteq> NK_ConstInt"
  by (auto simp: int_sem_def sccp_binary_kind_def split: if_splits)

lemma int_sem_cases:
  assumes "int_sem k s vs = Some v"
  obtains "vs = []" "k = NK_ConstInt" "v = const_value s" | x y where "vs = [x, y]" "int_sem k s [x, y] = Some v"
  using assms by (cases "(k, s, vs)" rule: prod_cases3) (auto simp: int_sem_def split: list.splits if_splits)

text \<open>A graph without dead nodes, so that every node is propagated.\<close>

definition all_live :: "graph \<Rightarrow> bool" where
  "all_live g \<longleftrightarrow> (\<forall>i. in_graph g i \<longrightarrow> \<not> node_is_dead (node g i))"

definition at_fixpoint :: "graph \<Rightarrow> lattice_value list \<Rightarrow> bool" where
  "at_fixpoint g vs \<longleftrightarrow> consistent g vs \<and> (\<forall>i. in_graph g i \<longrightarrow> \<not> node_is_dead (node g i) \<longrightarrow>
     (\<exists>w. sccp_transfer g vs i = Some w \<and> lv_eq w (vs ! (i - 1))))"

lemma get_val_in_graph: "in_graph g i \<Longrightarrow> length vs = g_size g \<Longrightarrow> get_val vs i = vs ! (i - 1)"
  by (simp add: get_val_def id_valid_def in_graph_def)

lemma get_val_known_in_graph: "length vs = g_size g \<Longrightarrow> lv_kind (get_val vs i) \<noteq> LTop \<Longrightarrow> in_graph g i"
  by (auto simp: get_val_def id_valid_def in_graph_def split: if_splits)

text \<open>
  Soundness needs an order of the nodes, as a cycle of known values would justify itself: the sweeps
  make a value known only after its inputs, which the next invariant records.
\<close>

definition justified :: "graph \<Rightarrow> lattice_value list \<Rightarrow> bool" where
  "justified g vs \<longleftrightarrow> length vs = g_size g \<and> (\<forall>i. in_graph g i \<longrightarrow> lv_kind (vs ! (i - 1)) = LConst \<longrightarrow>
     eval int_sem g i (lv_const (vs ! (i - 1))))"

lemma transfer_const_eval:
  assumes lit: "literals_closed g" and j: "justified g vs" and i: "in_graph g i"
    and w: "sccp_transfer g vs i = Some w" "lv_kind w = LConst"
  shows "eval int_sem g i (lv_const w)"
proof (cases "n_kind (node g i) = NK_ConstInt")
  case True
  then have "data_inputs g i = []" "w = lv_constant (const_value (side g i))"
    using lit i w(1) by (simp_all add: literals_closed_def sccp_transfer_def)
  then show ?thesis using i True by (intro evalI [of g i int_sem "[]"]) (simp_all add: int_sem_def)
next
  case False
  let ?a = "data_inputs g i ! 0" and ?b = "data_inputs g i ! 1"
  have h: "length (data_inputs g i) = 2" "lv_kind (get_val vs ?a) = LConst" "lv_kind (get_val vs ?b) = LConst"
    "eval_binary (n_kind (node g i)) (lv_const (get_val vs ?a)) (lv_const (get_val vs ?b)) = Some w"
    using w False by (auto simp: sccp_transfer_def Let_def split: if_splits)
      (metis lattice_kind.exhaust)+
  have two: "data_inputs g i = [?a, ?b]" using h(1) by (auto simp: numeral_2_eq_2 length_Suc_conv)
  have "eval int_sem g x (lv_const (get_val vs x))" if "lv_kind (get_val vs x) = LConst" for x
    using that j get_val_known_in_graph [of vs g x] get_val_in_graph [of g x vs] by (auto simp: justified_def)
  then show ?thesis
    using h two i eval_binary_sem [OF h(4) w(2)]
    by (intro evalI [of g i int_sem "[lv_const (get_val vs ?a), lv_const (get_val vs ?b)]"])
      (auto simp: list_all2_Cons2)
qed

lemma sccp_sweep_justified:
  "sccp_sweep g is ch vs = Some (ch', vs') \<Longrightarrow> literals_closed g \<Longrightarrow> justified g vs \<Longrightarrow>
    \<forall>i \<in> set is. in_graph g i \<Longrightarrow> justified g vs'"
proof (induction "is" arbitrary: ch vs)
  case (Cons i "is")
  have i: "in_graph g i" using Cons.prems(4) by simp
  show ?case
  proof (cases "node_is_dead (node g i)")
    case False
    with Cons.prems(1) obtain w where w: "sccp_transfer g vs i = Some w" by (auto split: option.splits)
    have "justified g (vs[i - 1 := w])"
      unfolding justified_def
    proof (intro conjI allI impI)
      fix k assume k: "in_graph g k" "lv_kind (vs[i - 1 := w] ! (k - 1)) = LConst"
      show "eval int_sem g k (lv_const (vs[i - 1 := w] ! (k - 1)))"
      proof (cases "k = i")
        case True
        have "i - 1 < length vs" using i Cons.prems(3) by (auto simp: justified_def in_graph_def)
        then have "vs[i - 1 := w] ! (k - 1) = w" using True by simp
        then show ?thesis using transfer_const_eval [OF Cons.prems(2,3) i w] k(2) True by simp
      next
        case False
        then have "i - 1 \<noteq> k - 1" using i k(1) by (auto simp: in_graph_def)
        then show ?thesis using Cons.prems(3) k by (simp add: justified_def)
      qed
    qed (use Cons.prems(3) in \<open>simp add: justified_def\<close>)
    then show ?thesis using Cons w False by (auto split: if_splits)
  qed (use Cons in auto)
qed auto

lemma sccp_loop_justified:
  "sccp_loop g fuel vs = Some (Some vs') \<Longrightarrow> literals_closed g \<Longrightarrow> justified g vs \<Longrightarrow> justified g vs'"
proof (induction fuel arbitrary: vs)
  case (Suc fuel)
  from Suc.prems(1) obtain ch us where r: "sccp_sweep g (node_ids g) False vs = Some (ch, us)"
    and rest: "(if ch then sccp_loop g fuel us else Some (Some us)) = Some (Some vs')"
    by (auto split: option.splits)
  have "justified g us" using sccp_sweep_justified [OF r Suc.prems(2,3)] by simp
  then show ?case using Suc.IH [OF _ Suc.prems(2)] rest by (cases ch) auto
qed simp

lemma justified_init: "justified g (replicate (g_size g) lv_top)"
proof -
  have "replicate (g_size g) lv_top ! (i - 1) = lv_top" if "in_graph g i" for i
    using that by (intro nth_replicate) (auto simp: in_graph_def)
  then show ?thesis by (simp add: justified_def)
qed

text \<open>Completeness at the fixpoint.\<close>

lemma fixpoint_complete:
  assumes fp: "at_fixpoint g vs" and live: "all_live g" and lit: "literals_closed g"
  shows "eval int_sem g i v \<Longrightarrow> lv_kind (vs ! (i - 1)) = LConst \<and> lv_const (vs ! (i - 1)) = v"
proof (induction rule: eval.induct)
  case (evalI i us v)
  have len: "length vs = g_size g" using fp by (simp add: at_fixpoint_def consistent_def)
  obtain w where w: "sccp_transfer g vs i = Some w" "lv_eq w (vs ! (i - 1))"
    using fp live evalI.hyps(1) unfolding at_fixpoint_def all_live_def by blast
  from evalI.hyps(2) have "lv_kind w = LConst \<and> lv_const w = v"
  proof (cases rule: int_sem_cases)
    case 1
    then show ?thesis using w(1) by (auto simp: sccp_transfer_def)
  next
    case (2 x y)
    then obtain a b where ab: "data_inputs g i = [a, b]" "eval int_sem g a x" "eval int_sem g b y"
      "lv_kind (vs ! (a - 1)) = LConst \<and> lv_const (vs ! (a - 1)) = x"
      "lv_kind (vs ! (b - 1)) = LConst \<and> lv_const (vs ! (b - 1)) = y"
      using evalI.IH by (auto simp: list_all2_Cons2)
    have "in_graph g a" "in_graph g b" using ab(2,3) by (auto elim: evalE)
    then have "eval_binary (n_kind (node g i)) x y = Some w"
      using w(1) ab int_sem_two_kind [OF 2(2)] len by (simp add: sccp_transfer_def get_val_in_graph)
    then show ?thesis using sem_eval_binary [OF 2(2)] by simp
  qed
  then show ?case using w(2) by (auto simp: lv_eq_def)
qed

section \<open>The pass\<close>

definition sccp_values :: "graph \<Rightarrow> lattice_value list ub option" where
  "sccp_values g = sccp_loop g (g_size g + 1) (replicate (g_size g) lv_top)"

lemma sccp_values_fixpoint:
  assumes "sccp_values g = Some (Some vs)"
  shows "at_fixpoint g vs"
  using sccp_loop_result [OF assms [unfolded sccp_values_def] consistent_init] by (simp add: at_fixpoint_def)

lemma sccp_values_justified:
  "sccp_values g = Some (Some vs) \<Longrightarrow> literals_closed g \<Longrightarrow> justified g vs"
  unfolding sccp_values_def by (rule sccp_loop_justified [OF _ _ justified_init])

lemma sccp_values_exact:
  assumes "literals_closed g" "all_live g" "sccp_values g = Some (Some vs)" "in_graph g i"
  shows "lv_kind (vs ! (i - 1)) = LConst \<and> lv_const (vs ! (i - 1)) = v \<longleftrightarrow> eval int_sem g i v"
  using fixpoint_complete [OF sccp_values_fixpoint [OF assms(3)] assms(2,1)]
    sccp_values_justified [OF assms(3,1)] assms(4) by (auto simp: justified_def)

interpretation sccp_mark: marking_pass "sccp_mark_step vs"
  "\<lambda>g i. if sccp_mark_test vs g i then Some (mark_view True (lv_const (vs ! (i - 1)))) else None" for vs
proof (unfold_locales, goal_cases)
  case (1 g i) then show ?case by (simp add: sccp_mark_step_def split: if_splits)
next
  case (2 g i f)
  then show ?case by (auto simp: sccp_mark_step_def wf_set_mark view_set_mark split: if_splits)
next
  case (3 g i j)
  have "view (snd (sccp_mark_step vs i g)) j = view g j"
    using view_set_mark [OF 3(1-3)] 3(4) by (simp add: sccp_mark_step_def)
  then have "sccp_mark_test vs (snd (sccp_mark_step vs i g)) j = sccp_mark_test vs g j"
    by (simp add: sccp_mark_test_def Let_def node_queries view_fields)
  then show ?case by simp
qed

lemma sccp_run_views:
  assumes "graph_wf g" "sccp_run debug g = Some (g', r)"
  obtains vs where "sccp_values g = Some (Some vs)" "graph_wf g'" "g_size g' = g_size g"
    "\<forall>j. in_graph g j \<longrightarrow> view g' j =
      (if sccp_mark_test vs g j then mark_view True (lv_const (vs ! (j - 1))) (view g j) else view g j)"
proof -
  obtain vs where vs: "sccp_values g = Some (Some vs)" "run_sweep (sccp_mark_step vs) debug g = Some (g', r)"
    using assms(2) by (auto simp: sccp_run_def sccp_values_def split: option.splits)
  from sccp_mark.run_marks [OF assms(1) vs(2)] vs(1) show ?thesis
    by (intro that) (auto simp: sccp_mark.annotated_def)
qed

text \<open>C9: the propagation always reaches its fixpoint within one sweep more than there are nodes.\<close>

theorem sccp_terminates:
  "sccp_loop g (g_size g + 1) (replicate (g_size g) lv_top) \<noteq> None"
proof (rule sccp_loop_enough [OF consistent_init])
  show "tops (replicate (g_size g) lv_top) < g_size g + 1"
    unfolding tops_def using length_filter_le [of "\<lambda>v. lv_kind v = LTop" "replicate (g_size g) lv_top"] by simp
qed



text \<open>The example graph \<open>(20 - 5) * 5\<close>.\<close>

lemma sccp_ex_arith_ok: "literals_closed ex_arith" "all_live ex_arith"
  unfolding literals_closed_def all_live_def all_ex_arith
  by (simp_all add: nodes_ex_arith node_queries flags_has_def del: One_nat_def)

lemma sccp_ex_arith_values:
  "sccp_loop ex_arith 5 (replicate 4 lv_top) = Some (Some [lv_constant 20, lv_constant 5, lv_constant 15, lv_constant 75])"
proof -
  have ids: "node_ids ex_arith = [1, 2, 3, 4]"
    by (simp add: node_ids_def g_size_def ex_arith_eq upt_rec)
  have s: "s_sub (20 :: i64) 5 = Some 15" "s_mul (15 :: i64) 5 = Some 75"
    by (simp_all add: s_sub_def s_mul_def srange_def)
  have live: "\<not> node_is_dead (node ex_arith 1)" "\<not> node_is_dead (node ex_arith 2)"
    "\<not> node_is_dead (node ex_arith 3)" "\<not> node_is_dead (node ex_arith 4)"
    using sccp_ex_arith_ok(2) by (simp_all add: all_live_def in_ex_arith)
  have init: "replicate 4 lv_top = [lv_top, lv_top, lv_top, lv_top]" by (simp add: eval_nat_numeral)
  have 1: "sccp_sweep ex_arith (node_ids ex_arith) False [lv_top, lv_top, lv_top, lv_top]
      = Some (True, [lv_constant 20, lv_constant 5, lv_constant 15, lv_constant 75])"
    by (simp add: ids live [simplified] sccp_transfer_def nodes_ex_arith [simplified] lv_eq_def get_val_def
        id_valid_def sccp_binary_kind_def eval_binary_def s)
  have 2: "sccp_sweep ex_arith (node_ids ex_arith) False [lv_constant 20, lv_constant 5, lv_constant 15, lv_constant 75]
      = Some (False, [lv_constant 20, lv_constant 5, lv_constant 15, lv_constant 75])"
    by (simp add: ids live [simplified] sccp_transfer_def nodes_ex_arith [simplified] lv_eq_def get_val_def
        id_valid_def sccp_binary_kind_def eval_binary_def s)
  have "sccp_loop ex_arith (Suc (Suc 3)) [lv_top, lv_top, lv_top, lv_top]
      = Some (Some [lv_constant 20, lv_constant 5, lv_constant 15, lv_constant 75])"
    by (simp only: sccp_loop.simps 1 2 option.case prod.case if_True if_False)
  then show ?thesis by (simp add: init eval_nat_numeral)
qed

lemma size_ex_arith: "g_size ex_arith = 4"
  by (simp add: g_size_def ex_arith_eq)



end
