(* ===== verification/Build_Regions.thy ===== *)
theory Build_Regions
  imports Ir_Refinement
begin

text \<open>
  \<^verbatim>\<open>ir/passes/BuildRegions.hpp\<close> and \<^verbatim>\<open>ir/passes/BuildRegions.cpp\<close>: the block structure of a graph
  (blocks as runs of node ids, control-flow edges, loop headers, immediate dominators) and its
  queries \<open>block_of\<close>, \<open>dominates\<close>, \<open>reverse_post_order\<close> and \<open>node_ids_in_block\<close>.
\<close>

section \<open>Blocks\<close>

record basic_block =
  bb_id :: nat
  bb_leader :: node_id
  bb_last :: node_id
  bb_preds :: "nat list"
  bb_succs :: "nat list"
  bb_is_loop_header :: bool
  bb_is_merge :: bool
  bb_loop_pre_header :: nat
  bb_idom :: nat

definition default_block :: basic_block where
  "default_block =
     \<lparr>bb_id = 0, bb_leader = 0, bb_last = 0, bb_preds = [], bb_succs = [], bb_is_loop_header = False,
      bb_is_merge = False, bb_loop_pre_header = 0, bb_idom = 0\<rparr>"

record block_structure =
  bs_blocks :: "basic_block list"
  bs_node_to_block :: "node_id \<rightharpoonup> nat"

definition block_of :: "block_structure \<Rightarrow> node_id \<Rightarrow> nat" where
  "block_of bs nid = (case bs_node_to_block bs nid of Some b \<Rightarrow> b | None \<Rightarrow> 0)"

definition num_blocks :: "block_structure \<Rightarrow> nat" where
  "num_blocks bs = length (bs_blocks bs)"

text \<open>
  The walk of \<open>dominates\<close>; reading the dominator of a block outside the vector is undefined, and the
  walk may run forever.
\<close>

partial_function (option) dominates_walk :: "basic_block list \<Rightarrow> nat \<Rightarrow> nat \<Rightarrow> bool ub option" where
  "dominates_walk blocks a cur =
     (if cur = 0 then Some (Some (a = 0))
      else if cur = a then Some (Some True)
      else if cur \<ge> length blocks then Some (Some False)
      else let cur' = bb_idom (blocks ! cur)
        in if cur' \<ge> length blocks then Some None
           else if cur' = bb_idom (blocks ! cur') then Some (Some (a = 0))
           else dominates_walk blocks a cur')"

definition dominates :: "block_structure \<Rightarrow> nat \<Rightarrow> nat \<Rightarrow> bool ub option" where
  "dominates bs a b = dominates_walk (bs_blocks bs) a b"

section \<open>Phase 1: identify the blocks\<close>

text \<open>\<open>is_leader\<close> is indexed by node id.\<close>

definition mark_leader :: "graph \<Rightarrow> node_id \<Rightarrow> bool list \<Rightarrow> bool list" where
  "mark_leader g nid is_leader =
     (let n = node g nid; k = n_kind n
      in if node_is_dead n then is_leader
         else if k \<in> set [NK_Start, NK_IfTrue, NK_IfFalse, NK_Region, NK_Loop] then is_leader[nid := True]
         else if k \<in> set [NK_Return, NK_Throw, NK_Jump]
         then (if nid < g_size g then is_leader[nid + 1 := True] else is_leader)
         else is_leader)"

definition leaders :: "graph \<Rightarrow> bool list" where
  "leaders g = fold (mark_leader g) (node_ids g) (replicate (g_size g + 1) False)"

text \<open>The second pass; \<open>current\<close> is the last block, if there is any.\<close>

definition place_node :: "graph \<Rightarrow> bool list \<Rightarrow> node_id \<Rightarrow> block_structure \<Rightarrow> block_structure" where
  "place_node g is_leader nid bs =
     (if node_is_dead (node g nid) then bs
      else let blocks = (if is_leader ! nid \<or> bs_blocks bs = []
               then bs_blocks bs @ [default_block\<lparr>bb_id := length (bs_blocks bs), bb_leader := nid\<rparr>]
               else bs_blocks bs);
               cur = length blocks - 1
        in bs\<lparr>bs_blocks := blocks[cur := (blocks ! cur)\<lparr>bb_last := nid\<rparr>],
              bs_node_to_block := (bs_node_to_block bs)(nid \<mapsto> bb_id (blocks ! cur))\<rparr>)"

definition empty_structure :: block_structure where
  "empty_structure = \<lparr>bs_blocks = [], bs_node_to_block = Map.empty\<rparr>"

definition identify_blocks :: "graph \<Rightarrow> block_structure \<Rightarrow> block_structure" where
  "identify_blocks g bs =
     (if g_size g = 0 then bs else fold (place_node g (leaders g)) (node_ids g) bs)"

section \<open>Phase 2: connect the edges\<close>

definition if_successors :: "graph \<Rightarrow> block_structure \<Rightarrow> node_id \<Rightarrow> nat list" where
  "if_successors g bs last_id =
     map (block_of bs) (filter (\<lambda>other.
       \<not> node_is_dead (node g other) \<and> ctrl_input g other = last_id
       \<and> (n_kind (node g other) = NK_IfTrue \<or> n_kind (node g other) = NK_IfFalse)
       \<and> block_of bs other < num_blocks bs) (node_ids g))"

text \<open>The last \<open>Loop\<close> node before the jump, or the invalid id.\<close>

definition best_loop :: "graph \<Rightarrow> node_id \<Rightarrow> node_id" where
  "best_loop g last_id =
     fold (\<lambda>other best. if node_is_dead (node g other) then best
                         else if n_kind (node g other) = NK_Loop then other else best)
       (takeWhile (\<lambda>other. other < last_id) (node_ids g)) 0"

definition block_successors :: "graph \<Rightarrow> block_structure \<Rightarrow> basic_block \<Rightarrow> nat list" where
  "block_successors g bs bb =
     (if \<not> id_valid (bb_last bb) then []
      else let k = n_kind (node g (bb_last bb))
        in if k = NK_If then if_successors g bs (bb_last bb)
           else if k = NK_Jump then
             (let l = best_loop g (bb_last bb)
              in if id_valid l \<and> block_of bs l < num_blocks bs then [block_of bs l] else [])
           else if k = NK_Return \<or> k = NK_Throw then []
           else if bb_id bb + 1 < num_blocks bs then [bb_id bb + 1] else [])"

definition add_pred :: "nat \<Rightarrow> nat \<Rightarrow> basic_block list \<Rightarrow> basic_block list" where
  "add_pred b succ blocks =
     (if succ < length blocks
      then blocks[succ := (blocks ! succ)\<lparr>bb_preds := bb_preds (blocks ! succ) @ [b]\<rparr>] else blocks)"

definition add_preds_of :: "basic_block \<Rightarrow> basic_block list \<Rightarrow> basic_block list" where
  "add_preds_of bb blocks = fold (add_pred (bb_id bb)) (bb_succs bb) blocks"

definition connect_edges :: "graph \<Rightarrow> block_structure \<Rightarrow> block_structure" where
  "connect_edges g bs =
     (let blocks = map (\<lambda>bb. bb\<lparr>bb_succs := bb_succs bb @ block_successors g bs bb\<rparr>) (bs_blocks bs);
          blocks = fold add_preds_of blocks blocks;
          blocks = map (\<lambda>bb. if length (bb_preds bb) \<ge> 2 then bb\<lparr>bb_is_merge := True\<rparr> else bb) blocks
      in bs\<lparr>bs_blocks := blocks\<rparr>)"

section \<open>Phase 3: detect the loops\<close>

definition mark_loop :: "nat \<Rightarrow> nat \<Rightarrow> basic_block list \<Rightarrow> basic_block list" where
  "mark_loop b succ blocks =
     (if succ \<le> b \<and> succ < length blocks
      then blocks[succ := (blocks ! succ)\<lparr>bb_is_loop_header := True,
             bb_loop_pre_header := (if succ > 0 then succ - 1 else bb_loop_pre_header (blocks ! succ))\<rparr>]
      else blocks)"

definition detect_loops :: "block_structure \<Rightarrow> block_structure" where
  "detect_loops bs =
     bs\<lparr>bs_blocks := fold (\<lambda>bb. fold (mark_loop (bb_id bb)) (bb_succs bb)) (bs_blocks bs) (bs_blocks bs)\<rparr>"

section \<open>Phase 4: immediate dominators\<close>

text \<open>The two inner \<^verbatim>\<open>while\<close> loops of \<open>intersect\<close>, with the other index as the bound.\<close>

partial_function (option) climb :: "basic_block list \<Rightarrow> nat \<Rightarrow> nat \<Rightarrow> nat option" where
  "climb blocks a b =
     (if a > b \<and> a > 0 \<and> bb_idom (blocks ! a) \<noteq> 0 then climb blocks (bb_idom (blocks ! a)) b else Some a)"

partial_function (option) intersect :: "basic_block list \<Rightarrow> nat \<Rightarrow> nat \<Rightarrow> nat option" where
  "intersect blocks a b =
     (if a = b then Some a
      else Option.bind (climb blocks a b) (\<lambda>a'. Option.bind (climb blocks b a') (\<lambda>b'.
        if a' = 0 \<or> b' = 0 then Some a' else intersect blocks a' b')))"

definition processed :: "basic_block list \<Rightarrow> nat \<Rightarrow> bool" where
  "processed blocks pred \<longleftrightarrow> pred < length blocks \<and> bb_idom (blocks ! pred) \<noteq> 0"

fun intersect_preds :: "basic_block list \<Rightarrow> nat list \<Rightarrow> nat \<Rightarrow> nat option" where
  "intersect_preds blocks [] new_idom = Some new_idom"
| "intersect_preds blocks (pred # preds) new_idom =
     (if pred = new_idom then intersect_preds blocks preds new_idom
      else if pred \<ge> length blocks then intersect_preds blocks preds new_idom
      else if bb_idom (blocks ! pred) = 0 then intersect_preds blocks preds new_idom
      else Option.bind (intersect blocks pred new_idom) (intersect_preds blocks preds))"

definition dom_block :: "nat \<Rightarrow> basic_block list \<Rightarrow> (bool \<times> basic_block list) option" where
  "dom_block i blocks =
     (let bb = blocks ! i
      in if bb_preds bb = [] then Some (False, blocks)
         else let new_idom = (case find (processed blocks) (bb_preds bb) of Some p \<Rightarrow> p | None \<Rightarrow> 0)
           in if new_idom = 0 then Some (False, blocks)
              else Option.bind (intersect_preds blocks (bb_preds bb) new_idom) (\<lambda>new_idom.
                if bb_idom bb \<noteq> new_idom
                then Some (True, blocks[i := bb\<lparr>bb_idom := new_idom\<rparr>]) else Some (False, blocks)))"

fun dom_sweep :: "nat list \<Rightarrow> bool \<Rightarrow> basic_block list \<Rightarrow> (bool \<times> basic_block list) option" where
  "dom_sweep [] changed blocks = Some (changed, blocks)"
| "dom_sweep (i # is) changed blocks =
     Option.bind (dom_block i blocks) (\<lambda>(c, blocks'). dom_sweep is (changed \<or> c) blocks')"

text \<open>At most \<open>k\<close> iterations of the outer loop.\<close>

fun dom_loop :: "nat \<Rightarrow> basic_block list \<Rightarrow> basic_block list option" where
  "dom_loop 0 blocks = Some blocks"
| "dom_loop (Suc k) blocks =
     Option.bind (dom_sweep [1..<length blocks] False blocks)
       (\<lambda>(changed, blocks'). if changed then dom_loop k blocks' else Some blocks')"

definition compute_dominators :: "block_structure \<Rightarrow> block_structure option" where
  "compute_dominators bs =
     (if bs_blocks bs = [] then Some bs
      else map_option (\<lambda>blocks. bs\<lparr>bs_blocks := blocks\<rparr>)
             (dom_loop 1000 (map (\<lambda>bb. bb\<lparr>bb_idom := 0\<rparr>) (bs_blocks bs))))"

section \<open>The driver\<close>

text \<open>\<^const>\<open>None\<close> would be a dominator computation that does not return.\<close>

definition build_block_structure :: "graph \<Rightarrow> block_structure option" where
  "build_block_structure g =
     compute_dominators (detect_loops (connect_edges g (identify_blocks g empty_structure)))"

section \<open>Queries\<close>

text \<open>
  The iterative depth-first search: the stack of frames (block, next successor), the visited
  flags and the post-order so far. The vector \<open>on_stack\<close> is written but never read.
\<close>

type_synonym frame = "nat \<times> nat"

definition unvisited :: "bool list \<Rightarrow> nat" where
  "unvisited visited = length (filter Not visited)"

definition pending :: "basic_block list \<Rightarrow> frame list \<Rightarrow> nat" where
  "pending blocks stack = sum_list (map (\<lambda>(b, i). Suc (length (bb_succs (blocks ! b)) - i)) stack)"

lemma unvisited_less: "s < length v \<Longrightarrow> \<not> v ! s \<Longrightarrow> unvisited (v[s := True]) < unvisited v"
  unfolding unvisited_def by (rule filter_update_less) auto

function rpo_loop :: "basic_block list \<Rightarrow> frame list \<Rightarrow> bool list \<Rightarrow> nat list \<Rightarrow> nat list" where
  "rpo_loop blocks [] visited post_order = post_order"
| "rpo_loop blocks ((b, i) # stack) visited post_order =
     (if i \<ge> length (bb_succs (blocks ! b)) then rpo_loop blocks stack visited (post_order @ [b])
      else let succ = bb_succs (blocks ! b) ! i; stack' = (b, i + 1) # stack
        in if succ \<ge> length visited then rpo_loop blocks stack' visited post_order
           else if visited ! succ then rpo_loop blocks stack' visited post_order
           else rpo_loop blocks ((succ, 0) # stack') (visited[succ := True]) post_order)"
  by pat_completeness auto

termination
  by (relation "(\<lambda>(blocks, stack, visited, post). unvisited visited) <*mlex*>
        measure (\<lambda>(blocks, stack, visited, post). pending blocks stack)")
    (auto simp: mlex_prod_def pending_def unvisited_less wf_mlex)

definition reverse_post_order :: "block_structure \<Rightarrow> nat list" where
  "reverse_post_order bs =
     (if bs_blocks bs = [] then []
      else rev (rpo_loop (bs_blocks bs) [(0, 0)] ((replicate (num_blocks bs) False)[0 := True]) []))"

definition node_ids_in_block :: "block_structure \<Rightarrow> graph \<Rightarrow> nat \<Rightarrow> nat list" where
  "node_ids_in_block bs g block_id =
     (if block_id \<ge> num_blocks bs then []
      else let bb = bs_blocks bs ! block_id
        in if \<not> id_valid (bb_leader bb) \<or> \<not> id_valid (bb_last bb) then []
           else filter (\<lambda>v. \<not> (v = 0 \<or> v > g_size g) \<and> \<not> node_is_dead (node g v)
                  \<and> bs_node_to_block bs v = Some block_id) [bb_leader bb..<bb_last bb + 1])"

declare dominates_walk.simps [code] climb.simps [code] intersect.simps [code]

end
