(* ===== verification/Build_Regions_Correct.thy ===== *)
theory Build_Regions_Correct
  imports Build_Regions
begin

text \<open>
  The block structure is a partition of the live nodes into consecutive runs with consistent edges;
  the reverse post-order lists the blocks reachable from the entry; the dominator phase computes
  nothing.
\<close>

section \<open>Blocks are consecutive runs\<close>

definition blocks_ok :: "graph \<Rightarrow> nat \<Rightarrow> block_structure \<Rightarrow> bool" where
  "blocks_ok g k bs \<longleftrightarrow>
     (\<forall>b < num_blocks bs. bb_id (bs_blocks bs ! b) = b \<and> 1 \<le> bb_leader (bs_blocks bs ! b)
        \<and> bb_leader (bs_blocks bs ! b) \<le> bb_last (bs_blocks bs ! b) \<and> bb_last (bs_blocks bs ! b) < k
        \<and> bs_node_to_block bs (bb_leader (bs_blocks bs ! b)) = Some b)
     \<and> (\<forall>b b'. b < b' \<longrightarrow> b' < num_blocks bs \<longrightarrow> bb_last (bs_blocks bs ! b) < bb_leader (bs_blocks bs ! b'))
     \<and> (\<forall>v. bs_node_to_block bs v = None \<longleftrightarrow> \<not> (1 \<le> v \<and> v < k \<and> \<not> node_is_dead (node g v)))
     \<and> (\<forall>v b. bs_node_to_block bs v = Some b \<longrightarrow> b < num_blocks bs \<and> bb_leader (bs_blocks bs ! b) \<le> v
          \<and> v \<le> bb_last (bs_blocks bs ! b))"

lemma blocks_okD:
  assumes "blocks_ok g k bs" "b < num_blocks bs"
  shows "bb_id (bs_blocks bs ! b) = b" "1 \<le> bb_leader (bs_blocks bs ! b)"
    "bb_leader (bs_blocks bs ! b) \<le> bb_last (bs_blocks bs ! b)" "bb_last (bs_blocks bs ! b) < k"
    "bs_node_to_block bs (bb_leader (bs_blocks bs ! b)) = Some b"
  using assms by (auto simp: blocks_ok_def)

lemma blocks_ok_order:
  "blocks_ok g k bs \<Longrightarrow> b < b' \<Longrightarrow> b' < num_blocks bs \<Longrightarrow> bb_last (bs_blocks bs ! b) < bb_leader (bs_blocks bs ! b')"
  by (simp add: blocks_ok_def)

lemma blocks_ok_map:
  "blocks_ok g k bs \<Longrightarrow> bs_node_to_block bs v = Some b \<Longrightarrow> b < num_blocks bs \<and> bb_leader (bs_blocks bs ! b) \<le> v
    \<and> v \<le> bb_last (bs_blocks bs ! b)"
  by (simp add: blocks_ok_def)

lemma blocks_ok_None:
  "blocks_ok g k bs \<Longrightarrow> bs_node_to_block bs v = None \<longleftrightarrow> \<not> (1 \<le> v \<and> v < k \<and> \<not> node_is_dead (node g v))"
  by (simp add: blocks_ok_def)

lemma blocks_ok_empty: "blocks_ok g 1 empty_structure"
  by (auto simp: blocks_ok_def num_blocks_def empty_structure_def)

text \<open>Placing the next id either opens a block or extends the last one.\<close>

lemma blocks_ok_open:
  assumes ok: "blocks_ok g k bs" and k: "1 \<le> k" "\<not> node_is_dead (node g k)"
  shows "blocks_ok g (Suc k) (bs\<lparr>bs_blocks := bs_blocks bs @
      [default_block\<lparr>bb_id := num_blocks bs, bb_leader := k, bb_last := k\<rparr>],
      bs_node_to_block := (bs_node_to_block bs)(k \<mapsto> num_blocks bs)\<rparr>)"
    (is "blocks_ok g (Suc k) ?new")
proof -
  have lt: "bb_last (bs_blocks bs ! b) < k" if "b < num_blocks bs" for b
    using blocks_okD(4) [OF ok that] .
  have old: "?new = bs\<lparr>bs_blocks := bs_blocks ?new, bs_node_to_block := bs_node_to_block ?new\<rparr>" by simp
  have at: "bs_blocks ?new ! b = (if b < num_blocks bs then bs_blocks bs ! b
      else default_block\<lparr>bb_id := num_blocks bs, bb_leader := k, bb_last := k\<rparr>)" if "b < num_blocks ?new" for b
    using that by (auto simp: nth_append num_blocks_def)
  have n: "num_blocks ?new = Suc (num_blocks bs)" by (simp add: num_blocks_def)
  have notk: "bb_leader (bs_blocks bs ! b) \<noteq> k" if "b < num_blocks bs" for b
    using lt [OF that] blocks_okD(3) [OF ok that] by simp
  show ?thesis
    unfolding blocks_ok_def
  proof (intro conjI allI impI)
    fix b assume "b < num_blocks ?new"
    note a = at [OF this]
    show "bb_id (bs_blocks ?new ! b) = b" "1 \<le> bb_leader (bs_blocks ?new ! b)"
      "bb_leader (bs_blocks ?new ! b) \<le> bb_last (bs_blocks ?new ! b)" "bb_last (bs_blocks ?new ! b) < Suc k"
      "bs_node_to_block ?new (bb_leader (bs_blocks ?new ! b)) = Some b"
      using a n \<open>b < num_blocks ?new\<close> blocks_okD [OF ok, of b] k lt notk by (auto simp: less_Suc_eq)
  next
    fix b b' assume b: "b < b'" "b' < num_blocks ?new"
    then show "bb_last (bs_blocks ?new ! b) < bb_leader (bs_blocks ?new ! b')"
      using at [of b] at [of b'] n lt blocks_ok_order [OF ok] by auto
  next
    fix v show "bs_node_to_block ?new v = None \<longleftrightarrow> \<not> (1 \<le> v \<and> v < Suc k \<and> \<not> node_is_dead (node g v))"
      using blocks_ok_None [OF ok, of v] k by (auto simp: less_Suc_eq)
  next
    fix v b assume v: "bs_node_to_block ?new v = Some b"
    show "b < num_blocks ?new" "bb_leader (bs_blocks ?new ! b) \<le> v" "v \<le> bb_last (bs_blocks ?new ! b)"
      using v n at [of b] blocks_ok_map [OF ok, of v b] by (auto split: if_splits)
  qed
qed

lemma blocks_ok_extend:
  assumes ok: "blocks_ok g k bs" and k: "1 \<le> k" "\<not> node_is_dead (node g k)" and ne: "bs_blocks bs \<noteq> []"
  shows "blocks_ok g (Suc k) (bs\<lparr>bs_blocks := (bs_blocks bs)[num_blocks bs - 1 := (bs_blocks bs ! (num_blocks bs - 1))\<lparr>bb_last := k\<rparr>],
      bs_node_to_block := (bs_node_to_block bs)(k \<mapsto> num_blocks bs - 1)\<rparr>)"
    (is "blocks_ok g (Suc k) ?new")
proof -
  have n: "num_blocks ?new = num_blocks bs" "0 < num_blocks bs" using ne by (simp_all add: num_blocks_def)
  have lt: "bb_last (bs_blocks bs ! b) < k" if "b < num_blocks bs" for b
    using blocks_okD(4) [OF ok that] .
  have at: "bs_blocks ?new ! b = (if b = num_blocks bs - 1 then (bs_blocks bs ! b)\<lparr>bb_last := k\<rparr> else bs_blocks bs ! b)"
    if "b < num_blocks bs" for b
    using that by (auto simp: num_blocks_def)
  have notk: "bb_leader (bs_blocks bs ! b) \<noteq> k" if "b < num_blocks bs" for b
    using lt [OF that] blocks_okD(3) [OF ok that] by simp
  show ?thesis
    unfolding blocks_ok_def n
  proof (intro conjI allI impI)
    fix b assume b: "b < num_blocks bs"
    note a = at [OF b]
    show "bb_id (bs_blocks ?new ! b) = b" "1 \<le> bb_leader (bs_blocks ?new ! b)"
      "bb_leader (bs_blocks ?new ! b) \<le> bb_last (bs_blocks ?new ! b)" "bb_last (bs_blocks ?new ! b) < Suc k"
      "bs_node_to_block ?new (bb_leader (bs_blocks ?new ! b)) = Some b"
      using a blocks_okD [OF ok b] lt [OF b] notk [OF b] by (auto simp: less_Suc_eq)
  next
    fix b b' assume b: "b < b'" "b' < num_blocks bs"
    then show "bb_last (bs_blocks ?new ! b) < bb_leader (bs_blocks ?new ! b')"
      using at [of b] at [of b'] blocks_ok_order [OF ok b] by (cases "b' = num_blocks bs - 1") auto
  next
    fix v show "bs_node_to_block ?new v = None \<longleftrightarrow> \<not> (1 \<le> v \<and> v < Suc k \<and> \<not> node_is_dead (node g v))"
      using blocks_ok_None [OF ok, of v] k by (auto simp: less_Suc_eq)
  next
    fix v b assume v: "bs_node_to_block ?new v = Some b"
    have "num_blocks bs - 1 < num_blocks bs" using n by simp
    note l = blocks_okD [OF ok this] lt [OF this]
    show "b < num_blocks bs" "bb_leader (bs_blocks ?new ! b) \<le> v" "v \<le> bb_last (bs_blocks ?new ! b)"
      using v n at [of b] blocks_ok_map [OF ok, of v b] l lt [of b] by (auto split: if_splits)
  qed
qed

lemma blocks_ok_place:
  assumes ok: "blocks_ok g k bs" and k: "1 \<le> k"
  shows "blocks_ok g (Suc k) (place_node g ls k bs)"
proof (cases "node_is_dead (node g k)")
  case True
  then show ?thesis using ok by (auto simp: place_node_def blocks_ok_def less_Suc_eq)
next
  case live: False
  show ?thesis
  proof (cases "ls ! k \<or> bs_blocks bs = []")
    case True
    then have "place_node g ls k bs = bs\<lparr>bs_blocks := bs_blocks bs @
        [default_block\<lparr>bb_id := num_blocks bs, bb_leader := k, bb_last := k\<rparr>],
        bs_node_to_block := (bs_node_to_block bs)(k \<mapsto> num_blocks bs)\<rparr>"
      using live by (auto simp: place_node_def Let_def num_blocks_def)
    then show ?thesis using blocks_ok_open [OF ok k live] by simp
  next
    case False
    then have b: "bb_id (bs_blocks bs ! (num_blocks bs - 1)) = num_blocks bs - 1"
      using blocks_okD(1) [OF ok, of "num_blocks bs - 1"] by (simp add: num_blocks_def)
    have "place_node g ls k bs = bs\<lparr>bs_blocks := (bs_blocks bs)[num_blocks bs - 1 := (bs_blocks bs ! (num_blocks bs - 1))\<lparr>bb_last := k\<rparr>],
        bs_node_to_block := (bs_node_to_block bs)(k \<mapsto> num_blocks bs - 1)\<rparr>"
      using live False b by (simp add: place_node_def Let_def num_blocks_def)
    then show ?thesis using blocks_ok_extend [OF ok k live] False by simp
  qed
qed

lemma blocks_ok_fold:
  "blocks_ok g k bs \<Longrightarrow> 1 \<le> k \<Longrightarrow> blocks_ok g (k + m) (fold (place_node g ls) [k..<k + m] bs)"
proof (induction m)
  case (Suc m)
  then show ?case using blocks_ok_place [of g "k + m"] by simp
qed simp

lemma blocks_ok_identify: "blocks_ok g (g_size g + 1) (identify_blocks g empty_structure)"
  using blocks_ok_fold [OF blocks_ok_empty, of g "g_size g" "leaders g"]
  by (auto simp: identify_blocks_def node_ids_def add.commute blocks_ok_empty)

section \<open>The later phases keep the runs\<close>

definition same_runs :: "block_structure \<Rightarrow> block_structure \<Rightarrow> bool" where
  "same_runs bs bs' \<longleftrightarrow> num_blocks bs' = num_blocks bs \<and> bs_node_to_block bs' = bs_node_to_block bs
     \<and> (\<forall>b < num_blocks bs. bb_id (bs_blocks bs' ! b) = bb_id (bs_blocks bs ! b)
          \<and> bb_leader (bs_blocks bs' ! b) = bb_leader (bs_blocks bs ! b)
          \<and> bb_last (bs_blocks bs' ! b) = bb_last (bs_blocks bs ! b))"

lemma same_runs_refl: "same_runs bs bs"
  by (simp add: same_runs_def)

lemma same_runs_trans: "same_runs a b \<Longrightarrow> same_runs b c \<Longrightarrow> same_runs a c"
  by (simp add: same_runs_def)

lemma same_runs_ok: "same_runs bs bs' \<Longrightarrow> blocks_ok g k bs \<Longrightarrow> blocks_ok g k bs'"
  by (simp add: same_runs_def blocks_ok_def)

text \<open>Updates of one block that keep its identity and its run.\<close>

definition keeps_runs :: "(basic_block list \<Rightarrow> basic_block list) \<Rightarrow> bool" where
  "keeps_runs f \<longleftrightarrow> (\<forall>blocks. length (f blocks) = length blocks \<and> (\<forall>b < length blocks.
     bb_id (f blocks ! b) = bb_id (blocks ! b) \<and> bb_leader (f blocks ! b) = bb_leader (blocks ! b)
     \<and> bb_last (f blocks ! b) = bb_last (blocks ! b)))"

lemma keeps_runs_fold:
  assumes "\<And>x. x \<in> set xs \<Longrightarrow> keeps_runs (f x)"
  shows "keeps_runs (fold f xs)"
  using assms
proof (induction xs)
  case (Cons x xs)
  have "keeps_runs (fold f xs)" "keeps_runs (f x)" using Cons by simp_all
  then show ?case by (simp add: keeps_runs_def)
qed (simp add: keeps_runs_def)

lemma same_runs_update:
  "keeps_runs f \<Longrightarrow> same_runs bs (bs\<lparr>bs_blocks := f (bs_blocks bs)\<rparr>)"
  by (simp add: keeps_runs_def same_runs_def num_blocks_def)

lemma keeps_runs_basic [simp]:
  "keeps_runs (add_pred b s)" "keeps_runs (mark_loop b s)"
  "keeps_runs (map (\<lambda>bb. bb\<lparr>bb_succs := h bb\<rparr>))" "keeps_runs (map (\<lambda>bb. bb\<lparr>bb_idom := 0\<rparr>))"
  "keeps_runs (map (\<lambda>bb. if P bb then bb\<lparr>bb_is_merge := True\<rparr> else bb))"
  by (auto simp: keeps_runs_def add_pred_def mark_loop_def nth_list_update)

lemma keeps_runs_preds [simp]: "keeps_runs (add_preds_of bb)"
  unfolding add_preds_of_def by (rule keeps_runs_fold) simp

lemma keeps_runs_comp: "keeps_runs f \<Longrightarrow> keeps_runs h \<Longrightarrow> keeps_runs (\<lambda>blocks. f (h blocks))"
  by (simp add: keeps_runs_def)

lemma same_runs_connect: "same_runs bs (connect_edges g bs)"
proof -
  let ?s = "map (\<lambda>bb. bb\<lparr>bb_succs := bb_succs bb @ block_successors g bs bb\<rparr>)"
  let ?p = "\<lambda>blocks. fold add_preds_of (?s (bs_blocks bs)) blocks"
  let ?m = "map (\<lambda>bb. if length (bb_preds bb) \<ge> 2 then bb\<lparr>bb_is_merge := True\<rparr> else bb)"
  have p: "keeps_runs ?p" by (rule keeps_runs_fold) simp
  have "keeps_runs (\<lambda>blocks. ?p (?s blocks))" by (rule keeps_runs_comp [OF p]) simp
  then have "keeps_runs (\<lambda>blocks. ?m (?p (?s blocks)))" by (rule keeps_runs_comp [rotated]) simp
  from same_runs_update [OF this, of bs] show ?thesis unfolding connect_edges_def Let_def .
qed

lemma same_runs_loops: "same_runs bs (detect_loops bs)"
  unfolding detect_loops_def by (intro same_runs_update keeps_runs_fold) simp_all

section \<open>The dominator phase\<close>

lemma dom_sweep_none:
  assumes "\<forall>bb \<in> set blocks. bb_idom bb = 0"
  shows "dom_sweep is ch blocks = Some (ch, blocks)"
proof (induction "is" arbitrary: ch)
  case (Cons i "is")
  have "\<not> processed blocks p" for p using assms by (auto simp: processed_def)
  then have "find (processed blocks) ps = None" for ps by (simp add: find_None_iff)
  then have "dom_block i blocks = Some (False, blocks)" by (simp add: dom_block_def Let_def)
  then show ?case using Cons by simp
qed simp

lemma compute_dominators_eq:
  "compute_dominators bs = Some (bs\<lparr>bs_blocks := map (\<lambda>bb. bb\<lparr>bb_idom := 0\<rparr>) (bs_blocks bs)\<rparr>)"
proof -
  have "dom_loop (Suc k) blocks = Some blocks" if "\<forall>bb \<in> set blocks. bb_idom bb = 0" for k blocks
    using dom_sweep_none [OF that] by simp
  from this [of _ 999] have "dom_loop 1000 blocks = Some blocks" if "\<forall>bb \<in> set blocks. bb_idom bb = 0" for blocks
    using that by simp
  then show ?thesis by (auto simp: compute_dominators_def)
qed

lemma build_block_structure_eq:
  "build_block_structure g = Some ((detect_loops (connect_edges g (identify_blocks g empty_structure)))
     \<lparr>bs_blocks := map (\<lambda>bb. bb\<lparr>bb_idom := 0\<rparr>)
        (bs_blocks (detect_loops (connect_edges g (identify_blocks g empty_structure))))\<rparr>)"
  by (simp add: build_block_structure_def compute_dominators_eq)

lemma same_runs_build:
  assumes "build_block_structure g = Some bs"
  shows "same_runs (identify_blocks g empty_structure) bs"
  using assms same_runs_trans [OF same_runs_connect same_runs_trans [OF same_runs_loops same_runs_update]]
  by (auto simp: build_block_structure_eq)

lemma build_ok: "build_block_structure g = Some bs \<Longrightarrow> blocks_ok g (g_size g + 1) bs"
  using same_runs_ok [OF same_runs_build blocks_ok_identify] .

lemma build_idom: "build_block_structure g = Some bs \<Longrightarrow> b < num_blocks bs \<Longrightarrow> bb_idom (bs_blocks bs ! b) = 0"
  by (auto simp: build_block_structure_eq num_blocks_def)

section \<open>The blocks partition the live nodes\<close>

lemma sorted_blocks:
  assumes "\<And>i. i < n \<Longrightarrow> sorted_wrt (<) (f i)" "\<And>i j x y. i < j \<Longrightarrow> j < n \<Longrightarrow> x \<in> set (f i) \<Longrightarrow> y \<in> set (f j) \<Longrightarrow> x < (y :: nat)"
  shows "sorted_wrt (<) (concat (map f [0..<n]))"
  using assms
proof (induction n)
  case (Suc n)
  have 1: "sorted_wrt (<) (concat (map f [0..<n]))"
    by (rule Suc.IH) (use Suc.prems in \<open>blast intro: less_SucI\<close>)+
  have 2: "x < y" if "x \<in> set (concat (map f [0..<n]))" "y \<in> set (f n)" for x y
  proof -
    from that(1) obtain i where "i < n" "x \<in> set (f i)" by auto
    then show ?thesis using Suc.prems(2) [of i n x y] that(2) by blast
  qed
  have 3: "concat (map f [0..<Suc n]) = concat (map f [0..<n]) @ f n" by simp
  show ?case unfolding 3 sorted_wrt_append using 1 2 Suc.prems(1) [of n] by blast
qed simp

lemma strict_sorted_eqI:
  "sorted_wrt (<) xs \<Longrightarrow> sorted_wrt (<) ys \<Longrightarrow> set xs = set ys \<Longrightarrow> xs = (ys :: nat list)"
  by (simp add: sorted_distinct_set_unique strict_sorted_iff)

lemma set_node_ids_in_block:
  assumes "blocks_ok g (g_size g + 1) bs" "b < num_blocks bs"
  shows "set (node_ids_in_block bs g b) = {v. bs_node_to_block bs v = Some b}"
proof -
  have 1: "1 \<le> v \<and> v \<le> g_size g \<and> \<not> node_is_dead (node g v)" if "bs_node_to_block bs v = Some b" for v
    using blocks_ok_None [OF assms(1), of v] that by auto
  have 2: "id_valid (bb_leader (bs_blocks bs ! b))" "id_valid (bb_last (bs_blocks bs ! b))"
    using blocks_okD(2,3) [OF assms] by (simp_all add: id_valid_def)
  show ?thesis
  proof (intro set_eqI iffI)
    fix v assume "v \<in> {v. bs_node_to_block bs v = Some b}"
    then have v: "bs_node_to_block bs v = Some b" by simp
    from 1 [OF v] blocks_ok_map [OF assms(1) v] show "v \<in> set (node_ids_in_block bs g b)"
      using v 2 assms(2) by (simp add: node_ids_in_block_def Let_def less_Suc_eq_le del: upt_Suc)
  next
    fix v assume "v \<in> set (node_ids_in_block bs g b)"
    then show "v \<in> {v. bs_node_to_block bs v = Some b}"
      by (simp add: node_ids_in_block_def Let_def del: upt_Suc split: if_splits)
  qed
qed

lemma sorted_node_ids_in_block: "sorted_wrt (<) (node_ids_in_block bs g b)"
  by (auto simp: node_ids_in_block_def Let_def intro!: sorted_wrt_filter simp del: upt_Suc)

lemma partition_blocks:
  assumes ok: "blocks_ok g (g_size g + 1) bs"
  shows "concat (map (node_ids_in_block bs g) [0..<num_blocks bs]) =
    filter (\<lambda>v. \<not> node_is_dead (node g v)) (node_ids g)"
proof (rule strict_sorted_eqI)
  show "sorted_wrt (<) (concat (map (node_ids_in_block bs g) [0..<num_blocks bs]))"
  proof (rule sorted_blocks)
    fix i j x y assume ij: "i < j" "j < num_blocks bs" "x \<in> set (node_ids_in_block bs g i)" "y \<in> set (node_ids_in_block bs g j)"
    then have "bs_node_to_block bs x = Some i" "bs_node_to_block bs y = Some j"
      using set_node_ids_in_block [OF ok] by auto
    then show "x < y"
      using blocks_ok_map [OF ok] blocks_ok_order [OF ok ij(1,2)] by (meson le_less_trans less_le_trans)
  qed (rule sorted_node_ids_in_block)
  show "sorted_wrt (<) (filter (\<lambda>v. \<not> node_is_dead (node g v)) (node_ids g))"
    by (intro sorted_wrt_filter) (simp add: node_ids_def del: upt_Suc)
  show "set (concat (map (node_ids_in_block bs g) [0..<num_blocks bs])) = set (filter (\<lambda>v. \<not> node_is_dead (node g v)) (node_ids g))"
  proof (rule set_eqI)
    fix v
    have "v \<in> set (concat (map (node_ids_in_block bs g) [0..<num_blocks bs])) \<longleftrightarrow> bs_node_to_block bs v \<noteq> None"
      using set_node_ids_in_block [OF ok] blocks_ok_map [OF ok] by fastforce
    also have "\<dots> \<longleftrightarrow> v \<in> set (filter (\<lambda>v. \<not> node_is_dead (node g v)) (node_ids g))"
      using blocks_ok_None [OF ok, of v] by (auto simp: in_graph_def)
    finally show "v \<in> set (concat (map (node_ids_in_block bs g) [0..<num_blocks bs])) \<longleftrightarrow>
        v \<in> set (filter (\<lambda>v. \<not> node_is_dead (node g v)) (node_ids g))" .
  qed
qed

text \<open>C16: the blocks of a graph, listed in order, enumerate its live nodes exactly once and in id order.\<close>

theorem blocks_partition_live_nodes:
  assumes "build_block_structure g = Some bs"
  shows "concat (map (node_ids_in_block bs g) [0..<num_blocks bs]) =
    filter (\<lambda>v. \<not> node_is_dead (node g v)) (node_ids g)"
  by (rule partition_blocks [OF build_ok [OF assms]])

theorem blocks_partition_live_nodes_witness:
  "\<exists>bs. build_block_structure ex_fun = Some bs
     \<and> concat (map (node_ids_in_block bs ex_fun) [0..<num_blocks bs]) = filter (\<lambda>v. \<not> node_is_dead (node ex_fun v)) (node_ids ex_fun)"
  using blocks_partition_live_nodes [OF build_block_structure_eq] build_block_structure_eq by blast

section \<open>Edges\<close>

lemma add_pred_length [simp]: "length (add_pred b s blocks) = length blocks"
  "length (fold (add_pred b) ss blocks) = length blocks" "length (add_preds_of bb blocks) = length blocks"
  "length (fold add_preds_of bbs blocks) = length blocks"
proof -
  show 1: "length (add_pred b s blocks) = length blocks" for b s blocks by (simp add: add_pred_def)
  show 2: "length (fold (add_pred b) ss blocks) = length blocks" for b ss blocks
    by (induction ss arbitrary: blocks) (simp_all add: 1)
  show 3: "length (add_preds_of bb blocks) = length blocks" for bb blocks by (simp add: add_preds_of_def 2)
  show "length (fold add_preds_of bbs blocks) = length blocks"
    by (induction bbs arbitrary: blocks) (simp_all add: 3)
qed

lemma add_pred_at:
  "s < length blocks \<Longrightarrow> add_pred b t blocks ! s =
    (if t = s then (blocks ! s)\<lparr>bb_preds := bb_preds (blocks ! s) @ [b]\<rparr> else blocks ! s)"
  by (auto simp: add_pred_def)

lemma preds_after_block:
  "s < length blocks \<Longrightarrow> count_list (bb_preds (fold (add_pred b) ss blocks ! s)) c =
    count_list (bb_preds (blocks ! s)) c + (if c = b then count_list ss s else 0)
   \<and> bb_succs (fold (add_pred b) ss blocks ! s) = bb_succs (blocks ! s)
   \<and> bb_id (fold (add_pred b) ss blocks ! s) = bb_id (blocks ! s)
   \<and> bb_is_loop_header (fold (add_pred b) ss blocks ! s) = bb_is_loop_header (blocks ! s)"
proof (induction ss arbitrary: blocks)
  case (Cons t ss)
  then show ?case using Cons.IH [of "add_pred b t blocks"] by (auto simp: add_pred_at)
qed simp

lemma preds_after_blocks:
  "s < length blocks \<Longrightarrow> count_list (bb_preds (fold add_preds_of bbs blocks ! s)) c =
    count_list (bb_preds (blocks ! s)) c + sum_list (map (\<lambda>bb. if bb_id bb = c then count_list (bb_succs bb) s else 0) bbs)
   \<and> bb_succs (fold add_preds_of bbs blocks ! s) = bb_succs (blocks ! s)
   \<and> bb_id (fold add_preds_of bbs blocks ! s) = bb_id (blocks ! s)
   \<and> bb_is_loop_header (fold add_preds_of bbs blocks ! s) = bb_is_loop_header (blocks ! s)"
proof (induction bbs arbitrary: blocks)
  case (Cons bb bbs)
  have "count_list (bb_preds (add_preds_of bb blocks ! s)) c =
      count_list (bb_preds (blocks ! s)) c + (if c = bb_id bb then count_list (bb_succs bb) s else 0)
      \<and> bb_succs (add_preds_of bb blocks ! s) = bb_succs (blocks ! s) \<and> bb_id (add_preds_of bb blocks ! s) = bb_id (blocks ! s)
      \<and> bb_is_loop_header (add_preds_of bb blocks ! s) = bb_is_loop_header (blocks ! s)"
    using preds_after_block [OF Cons.prems] by (simp add: add_preds_of_def)
  then show ?case using Cons.IH [of "add_preds_of bb blocks"] Cons.prems by auto
qed simp

lemma sum_over_index:
  assumes "\<And>i. i < length xs \<Longrightarrow> f (xs ! i) = i" "c < length xs"
  shows "sum_list (map (\<lambda>x. if f x = c then h x else (0 :: nat)) xs) = h (xs ! c)"
proof -
  have "map (\<lambda>x. if f x = c then h x else 0) xs = map (\<lambda>i. if i = c then h (xs ! c) else 0) [0..<length xs]"
    using assms(1) by (intro nth_equalityI) auto
  then show ?thesis using assms(2) by (simp add: interv_sum_list_conv_sum_set_nat sum.delta)
qed

definition no_edges :: "block_structure \<Rightarrow> bool" where
  "no_edges bs \<longleftrightarrow> (\<forall>bb \<in> set (bs_blocks bs). bb_preds bb = [] \<and> bb_succs bb = [] \<and> \<not> bb_is_loop_header bb)"

lemma all_update: "\<forall>x \<in> set xs. P x \<Longrightarrow> P y \<Longrightarrow> \<forall>x \<in> set (xs[i := y]). P x"
  using set_update_subset_insert by fastforce

lemma no_edges_place: "no_edges bs \<Longrightarrow> no_edges (place_node g ls i bs)"
proof -
  assume ne: "no_edges bs"
  define blocks where "blocks = (if ls ! i \<or> bs_blocks bs = []
    then bs_blocks bs @ [default_block\<lparr>bb_id := length (bs_blocks bs), bb_leader := i\<rparr>] else bs_blocks bs)"
  let ?P = "\<lambda>bb. bb_preds bb = [] \<and> bb_succs bb = [] \<and> \<not> bb_is_loop_header bb"
  have all: "\<forall>bb \<in> set blocks. ?P bb" and nil: "blocks \<noteq> []"
    using ne by (auto simp: blocks_def no_edges_def default_block_def)
  have "blocks ! (length blocks - 1) \<in> set blocks" using nil by (intro nth_mem) simp
  then have "?P ((blocks ! (length blocks - 1))\<lparr>bb_last := i\<rparr>)" using all by simp
  from all_update [OF all this] have "\<forall>bb \<in> set (blocks[length blocks - 1 := (blocks ! (length blocks - 1))\<lparr>bb_last := i\<rparr>]). ?P bb" .
  then show ?thesis using ne unfolding place_node_def Let_def no_edges_def blocks_def [symmetric] by simp
qed

lemma no_edges_identify: "no_edges (identify_blocks g empty_structure)"
proof -
  have f: "no_edges bs \<Longrightarrow> no_edges (fold (place_node g ls) is bs)" for ls "is" bs
  proof (induction "is" arbitrary: bs)
    case (Cons i "is")
    show ?case using Cons.IH [OF no_edges_place [OF Cons.prems]] by simp
  qed simp
  have "no_edges empty_structure" by (simp add: no_edges_def empty_structure_def)
  with f show ?thesis by (simp add: identify_blocks_def)
qed

lemma connect_edges_at:
  assumes ok: "blocks_ok g k bs" and ne: "no_edges bs" and s: "s < num_blocks bs"
  shows "bb_succs (bs_blocks (connect_edges g bs) ! s) = block_successors g bs (bs_blocks bs ! s)"
    and "c < num_blocks bs \<Longrightarrow> count_list (bb_preds (bs_blocks (connect_edges g bs) ! s)) c =
      count_list (block_successors g bs (bs_blocks bs ! c)) s"
    and "\<not> bb_is_loop_header (bs_blocks (connect_edges g bs) ! s)"
proof -
  let ?blocks = "map (\<lambda>bb. bb\<lparr>bb_succs := bb_succs bb @ block_successors g bs bb\<rparr>) (bs_blocks bs)"
  let ?r = "fold add_preds_of ?blocks ?blocks"
  have len: "length ?blocks = num_blocks bs" by (simp add: num_blocks_def)
  have at: "bs_blocks (connect_edges g bs) ! s =
      (if length (bb_preds (?r ! s)) \<ge> 2 then (?r ! s)\<lparr>bb_is_merge := True\<rparr> else ?r ! s)"
    using s by (simp add: connect_edges_def Let_def num_blocks_def)
  have e: "bb_preds (bs_blocks bs ! i) = [] \<and> bb_succs (bs_blocks bs ! i) = []" if "i < num_blocks bs" for i
    using ne that by (auto simp: no_edges_def num_blocks_def)
  have id: "bb_id (?blocks ! i) = i" if "i < length ?blocks" for i
    using that blocks_okD(1) [OF ok, of i] len by simp
  note p = preds_after_blocks [of s ?blocks ?blocks, unfolded len, OF s]
  show "bb_succs (bs_blocks (connect_edges g bs) ! s) = block_successors g bs (bs_blocks bs ! s)"
    using p e [OF s] s by (simp add: at num_blocks_def)
  show "count_list (bb_preds (bs_blocks (connect_edges g bs) ! s)) c =
      count_list (block_successors g bs (bs_blocks bs ! c)) s" if c: "c < num_blocks bs"
    using p sum_over_index [of ?blocks bb_id c "\<lambda>bb. count_list (bb_succs bb) s"] id e [OF s] e [OF c] c s len
    by (simp add: at num_blocks_def)
  show "\<not> bb_is_loop_header (bs_blocks (connect_edges g bs) ! s)"
    using p ne s by (auto simp: at num_blocks_def no_edges_def)
qed

text \<open>Loop headers are the targets of edges to the same or an earlier block.\<close>

lemma mark_loop_length [simp]: "length (mark_loop b s blocks) = length blocks"
  "length (fold (mark_loop b) ss blocks) = length blocks"
proof -
  show 1: "length (mark_loop b s blocks) = length blocks" for b s blocks by (simp add: mark_loop_def)
  show "length (fold (mark_loop b) ss blocks) = length blocks"
    by (induction ss arbitrary: blocks) (simp_all add: 1)
qed

lemma mark_loop_at:
  "s < length blocks \<Longrightarrow> bb_is_loop_header (mark_loop b t blocks ! s) \<longleftrightarrow> bb_is_loop_header (blocks ! s) \<or> (t = s \<and> t \<le> b)"
  "s < length blocks \<Longrightarrow> bb_succs (mark_loop b t blocks ! s) = bb_succs (blocks ! s)"
  "s < length blocks \<Longrightarrow> bb_preds (mark_loop b t blocks ! s) = bb_preds (blocks ! s)"
  by (auto simp: mark_loop_def nth_list_update)

lemma loops_after_block:
  "s < length blocks \<Longrightarrow> (bb_is_loop_header (fold (mark_loop b) ss blocks ! s) \<longleftrightarrow>
      bb_is_loop_header (blocks ! s) \<or> (s \<in> set ss \<and> s \<le> b))
    \<and> bb_succs (fold (mark_loop b) ss blocks ! s) = bb_succs (blocks ! s)
    \<and> bb_preds (fold (mark_loop b) ss blocks ! s) = bb_preds (blocks ! s)"
proof (induction ss arbitrary: blocks)
  case (Cons t ss)
  then show ?case using Cons.IH [of "mark_loop b t blocks"] by (auto simp: mark_loop_at)
qed simp

lemma loops_after_blocks:
  "s < length blocks \<Longrightarrow> (bb_is_loop_header (fold (\<lambda>bb. fold (mark_loop (bb_id bb)) (bb_succs bb)) bbs blocks ! s) \<longleftrightarrow>
      bb_is_loop_header (blocks ! s) \<or> (\<exists>bb \<in> set bbs. s \<in> set (bb_succs bb) \<and> s \<le> bb_id bb))
    \<and> bb_succs (fold (\<lambda>bb. fold (mark_loop (bb_id bb)) (bb_succs bb)) bbs blocks ! s) = bb_succs (blocks ! s)
    \<and> bb_preds (fold (\<lambda>bb. fold (mark_loop (bb_id bb)) (bb_succs bb)) bbs blocks ! s) = bb_preds (blocks ! s)"
proof (induction bbs arbitrary: blocks)
  case (Cons bb bbs)
  let ?m = "fold (mark_loop (bb_id bb)) (bb_succs bb) blocks"
  show ?case using Cons.IH [of ?m] loops_after_block [OF Cons.prems, of "bb_id bb" "bb_succs bb"] Cons.prems by auto
qed simp

text \<open>The edges of the finished structure.\<close>

lemma block_successors_bound: "t \<in> set (block_successors g bs bb) \<Longrightarrow> t < num_blocks bs"
  by (auto simp: block_successors_def if_successors_def Let_def split: if_splits)

definition edges_ok :: "block_structure \<Rightarrow> bool" where
  "edges_ok bs \<longleftrightarrow> (\<forall>b < num_blocks bs. \<forall>s < num_blocks bs.
     count_list (bb_preds (bs_blocks bs ! s)) b = count_list (bb_succs (bs_blocks bs ! b)) s)
   \<and> (\<forall>b < num_blocks bs. \<forall>s \<in> set (bb_succs (bs_blocks bs ! b)). s < num_blocks bs)
   \<and> (\<forall>s < num_blocks bs. bb_is_loop_header (bs_blocks bs ! s) \<longleftrightarrow>
        (\<exists>b < num_blocks bs. s \<in> set (bb_succs (bs_blocks bs ! b)) \<and> s \<le> b))"

lemma bex_nth: "(\<exists>x \<in> set xs. P x) \<longleftrightarrow> (\<exists>i < length xs. P (xs ! i))"
  by (metis in_set_conv_nth)

lemma edges_ok_build:
  assumes "build_block_structure g = Some bs"
  shows "edges_ok bs"
proof -
  let ?i = "identify_blocks g empty_structure"
  let ?c = "connect_edges g ?i"
  have ok: "blocks_ok g (g_size g + 1) ?i" by (rule blocks_ok_identify)
  note conn = connect_edges_at [OF ok no_edges_identify]
  have nc: "num_blocks ?c = num_blocks ?i" using same_runs_connect [of ?i g] by (simp add: same_runs_def)
  have ids: "bb_id (bs_blocks ?c ! b) = b" if "b < num_blocks ?i" for b
    using same_runs_connect [of ?i g] blocks_okD(1) [OF ok that] that by (simp add: same_runs_def)
  have bs: "bs_blocks bs = map (\<lambda>bb. bb\<lparr>bb_idom := 0\<rparr>) (bs_blocks (detect_loops ?c))"
    using assms by (auto simp: build_block_structure_eq)
  have n: "num_blocks bs = num_blocks ?i"
    using same_runs_build [OF assms] by (simp add: same_runs_def)
  have nd: "length (bs_blocks (detect_loops ?c)) = num_blocks ?i"
    using same_runs_loops [of ?c] nc by (simp add: same_runs_def num_blocks_def)
  have at: "bb_succs (bs_blocks bs ! s) = bb_succs (bs_blocks ?c ! s)"
    "bb_preds (bs_blocks bs ! s) = bb_preds (bs_blocks ?c ! s)"
    "bb_is_loop_header (bs_blocks bs ! s) \<longleftrightarrow> (\<exists>b < num_blocks ?i. s \<in> set (bb_succs (bs_blocks ?c ! b)) \<and> s \<le> b)"
    if s: "s < num_blocks ?i" for s
  proof -
    have sc: "s < length (bs_blocks ?c)" using s nc by (simp add: num_blocks_def)
    note l = loops_after_blocks [OF sc, of "bs_blocks ?c", folded detect_loops_def]
    have d: "bs_blocks (detect_loops ?c) = fold (\<lambda>bb. fold (mark_loop (bb_id bb)) (bb_succs bb)) (bs_blocks ?c) (bs_blocks ?c)"
      by (simp add: detect_loops_def)
    have "s < length (bs_blocks (detect_loops ?c))" using s nd by simp
    then have b: "bs_blocks bs ! s = (bs_blocks (detect_loops ?c) ! s)\<lparr>bb_idom := 0\<rparr>" by (simp add: bs)
    show "bb_succs (bs_blocks bs ! s) = bb_succs (bs_blocks ?c ! s)"
      "bb_preds (bs_blocks bs ! s) = bb_preds (bs_blocks ?c ! s)"
      using loops_after_blocks [OF sc, of "bs_blocks ?c"] by (simp_all add: b d)
    have "(\<exists>bb \<in> set (bs_blocks ?c). s \<in> set (bb_succs bb) \<and> s \<le> bb_id bb) \<longleftrightarrow>
        (\<exists>b < num_blocks ?i. s \<in> set (bb_succs (bs_blocks ?c ! b)) \<and> s \<le> b)"
      using ids nc bex_nth [of "bs_blocks ?c" "\<lambda>bb. s \<in> set (bb_succs bb) \<and> s \<le> bb_id bb"]
      by (simp add: num_blocks_def cong: conj_cong)
    then show "bb_is_loop_header (bs_blocks bs ! s) \<longleftrightarrow> (\<exists>b < num_blocks ?i. s \<in> set (bb_succs (bs_blocks ?c ! b)) \<and> s \<le> b)"
      using loops_after_blocks [OF sc, of "bs_blocks ?c"] conn(3) [OF s] by (simp add: b d)
  qed
  show ?thesis
    unfolding edges_ok_def n
    using at conn block_successors_bound by auto
qed

text \<open>The edges are consistent: block \<open>b\<close> occurs among the predecessors of \<open>s\<close> as often as \<open>s\<close> among the
  successors of \<open>b\<close>, successors exist, and the loop headers are exactly the targets of edges from the
  same or a later block.\<close>

lemma block_edges_consistent:
  assumes "build_block_structure g = Some bs" "b < num_blocks bs" "s < num_blocks bs"
  shows "count_list (bb_preds (bs_blocks bs ! s)) b = count_list (bb_succs (bs_blocks bs ! b)) s
    \<and> (\<forall>t \<in> set (bb_succs (bs_blocks bs ! b)). t < num_blocks bs)
    \<and> (bb_is_loop_header (bs_blocks bs ! s) \<longleftrightarrow> (\<exists>c < num_blocks bs. s \<in> set (bb_succs (bs_blocks bs ! c)) \<and> s \<le> c))"
  using edges_ok_build [OF assms(1)] assms(2,3) unfolding edges_ok_def by blast


text \<open>A graph with a live node has a block.\<close>

lemma build_some_block:
  assumes "build_block_structure g = Some bs" "in_graph g v" "\<not> node_is_dead (node g v)"
  shows "0 < num_blocks bs"
proof -
  have ok: "blocks_ok g (g_size g + 1) bs" by (rule build_ok [OF assms(1)])
  obtain b where "bs_node_to_block bs v = Some b"
    using blocks_ok_None [OF ok, of v] assms(2,3) by (fastforce simp: in_graph_def)
  then show ?thesis using blocks_ok_map [OF ok] by fastforce
qed

lemma ex_fun_blocks: "\<exists>bs. build_block_structure ex_fun = Some bs \<and> 0 < num_blocks bs"
proof -
  obtain bs where "build_block_structure ex_fun = Some bs" using build_block_structure_eq by blast
  moreover have "in_graph ex_fun 1" "\<not> node_is_dead (node ex_fun 1)"
    using nodes_ex_fun by (simp_all add: in_ex_fun node_queries flags_has_def del: One_nat_def)
  ultimately show ?thesis using build_some_block by blast
qed

lemma block_edges_consistent_witness:
  "\<exists>bs. build_block_structure ex_fun = Some bs
     \<and> count_list (bb_preds (bs_blocks bs ! 0)) 0 = count_list (bb_succs (bs_blocks bs ! 0)) 0"
  using block_edges_consistent [of ex_fun _ 0 0] ex_fun_blocks by blast

end
