(* ===== verification/Build_Regions_Order.thy ===== *)
theory Build_Regions_Order
  imports Build_Regions_Correct
begin

text \<open>
  The traversal order and the dominator queries of the block structure: \<open>reverse_post_order\<close> lists the
  blocks reachable from the entry, entry first, with every edge that leads backwards closing a cycle;
  the dominator phase leaves every immediate dominator undefined.
\<close>

section \<open>The depth-first search\<close>

definition flow :: "basic_block list \<Rightarrow> (nat \<times> nat) set" where
  "flow blocks = {(b, s). b < length blocks \<and> s < length blocks \<and> s \<in> set (bb_succs (blocks ! b))}"

text \<open>An edge of a finished block leads to a block finished earlier or to one that reaches it.\<close>

definition edges_down :: "basic_block list \<Rightarrow> nat list \<Rightarrow> bool" where
  "edges_down blocks post \<longleftrightarrow> (\<forall>i < length post. \<forall>s. (post ! i, s) \<in> flow blocks \<longrightarrow>
     s \<in> set (take i post) \<or> (s, post ! i) \<in> (flow blocks)\<^sup>*)"

definition frame_done :: "basic_block list \<Rightarrow> bool list \<Rightarrow> frame \<Rightarrow> bool" where
  "frame_done blocks visited x \<longleftrightarrow> (\<forall>j < min (snd x) (length (bb_succs (blocks ! fst x))).
     bb_succs (blocks ! fst x) ! j < length blocks \<longrightarrow> visited ! (bb_succs (blocks ! fst x) ! j))"

lemma frame_done_mono: "frame_done blocks visited x \<Longrightarrow> (\<And>v. visited ! v \<Longrightarrow> visited' ! v) \<Longrightarrow> frame_done blocks visited' x"
  by (auto simp: frame_done_def)

lemma frame_done_Suc:
  "frame_done blocks visited (b, i) \<Longrightarrow> (bb_succs (blocks ! b) ! i < length blocks \<Longrightarrow> visited ! (bb_succs (blocks ! b) ! i))
    \<Longrightarrow> frame_done blocks visited (b, i + 1)"
  by (auto simp: frame_done_def less_Suc_eq)

lemma frame_done_0 [simp]: "frame_done blocks visited (b, 0)"
  by (simp add: frame_done_def)

definition search_inv :: "basic_block list \<Rightarrow> frame list \<Rightarrow> bool list \<Rightarrow> nat list \<Rightarrow> bool" where
  "search_inv blocks stack visited post \<longleftrightarrow>
     length visited = length blocks
   \<and> distinct (post @ map fst stack)
   \<and> (\<forall>v < length blocks. visited ! v \<longleftrightarrow> v \<in> set post \<union> fst ` set stack)
   \<and> (\<forall>v \<in> set post \<union> fst ` set stack. v < length blocks \<and> (0, v) \<in> (flow blocks)\<^sup>*)
   \<and> (\<forall>x \<in> set stack. frame_done blocks visited x)
   \<and> sorted_wrt (\<lambda>x y. (fst y, fst x) \<in> (flow blocks)\<^sup>*) stack
   \<and> (\<forall>b \<in> set post. \<forall>s. (b, s) \<in> flow blocks \<longrightarrow> s \<in> set post \<union> fst ` set stack)
   \<and> edges_down blocks post"

lemma search_invD:
  assumes "search_inv blocks stack visited post"
  shows "length visited = length blocks" "distinct (post @ map fst stack)"
    "v < length blocks \<Longrightarrow> visited ! v \<longleftrightarrow> v \<in> set post \<union> fst ` set stack"
    "v \<in> set post \<union> fst ` set stack \<Longrightarrow> v < length blocks"
    "v \<in> set post \<union> fst ` set stack \<Longrightarrow> (0, v) \<in> (flow blocks)\<^sup>*"
    "x \<in> set stack \<Longrightarrow> frame_done blocks visited x"
    "sorted_wrt (\<lambda>x y. (fst y, fst x) \<in> (flow blocks)\<^sup>*) stack"
    "b \<in> set post \<Longrightarrow> (b, s) \<in> flow blocks \<Longrightarrow> s \<in> set post \<union> fst ` set stack"
    "edges_down blocks post"
  using assms unfolding search_inv_def by simp_all

lemma edges_down_snoc:
  assumes "edges_down blocks post" "\<And>s. (b, s) \<in> flow blocks \<Longrightarrow> s \<in> set post \<or> (s, b) \<in> (flow blocks)\<^sup>*"
  shows "edges_down blocks (post @ [b])"
  using assms by (auto simp: edges_down_def nth_append less_Suc_eq)

lemma search_inv_pop:
  assumes inv: "search_inv blocks ((b, i) # stack) visited post" and i: "length (bb_succs (blocks ! b)) \<le> i"
  shows "search_inv blocks stack visited (post @ [b])"
proof -
  note I = inv [unfolded search_inv_def]
  have succs: "s \<in> set post \<union> fst ` set ((b, i) # stack)" if e: "(b, s) \<in> flow blocks" for s
  proof -
    obtain j where "j < length (bb_succs (blocks ! b))" "bb_succs (blocks ! b) ! j = s" "s < length blocks"
      using e unfolding flow_def by (auto simp: in_set_conv_nth)
    moreover have "frame_done blocks visited (b, i)" using I by simp
    ultimately have "visited ! s" using i by (auto simp: frame_done_def)
    then show ?thesis using I \<open>s < length blocks\<close> by auto
  qed
  moreover have "(s, b) \<in> (flow blocks)\<^sup>*" if "s \<in> fst ` set ((b, i) # stack)" for s
    using I that by auto
  ultimately have "edges_down blocks (post @ [b])" using I by (intro edges_down_snoc) blast+
  then show ?thesis using I succs unfolding search_inv_def by auto
qed

lemma search_inv_skip:
  assumes inv: "search_inv blocks ((b, i) # stack) visited post" and i: "i < length (bb_succs (blocks ! b))"
    and s: "length visited \<le> bb_succs (blocks ! b) ! i \<or> visited ! (bb_succs (blocks ! b) ! i)"
  shows "search_inv blocks ((b, i + 1) # stack) visited post"
proof -
  note I = inv [unfolded search_inv_def]
  have "frame_done blocks visited (b, i)" using I by simp
  then have "frame_done blocks visited (b, i + 1)" using s I by (intro frame_done_Suc) auto
  then show ?thesis using I unfolding search_inv_def by auto
qed

lemma search_inv_push:
  assumes inv: "search_inv blocks ((b, i) # stack) visited post" and i: "i < length (bb_succs (blocks ! b))"
    and s: "s = bb_succs (blocks ! b) ! i" "s < length visited" "\<not> visited ! s"
  shows "search_inv blocks ((s, 0) # (b, i + 1) # stack) (visited[s := True]) post"
proof -
  note I = search_invD [OF inv]
  have e: "(b, s) \<in> flow blocks" using I(1) I(4) [of b] i s by (auto simp: flow_def)
  then have r: "(0, s) \<in> (flow blocks)\<^sup>*" using I(5) [of b] by (auto intro: rtrancl_into_rtrancl)
  have up: "(fst y, s) \<in> (flow blocks)\<^sup>*" if "y \<in> set ((b, i) # stack)" for y
    using I(7) that e by (auto intro: rtrancl_into_rtrancl)
  have new: "s \<notin> set post \<union> fst ` set ((b, i) # stack)" using I(1,3) s by auto
  have sl: "s < length blocks" using I(1) s by simp
  have vis: "visited[s := True] ! v \<longleftrightarrow> v = s \<or> visited ! v" for v
    using s(2) by (cases "v = s") simp_all
  show ?thesis unfolding search_inv_def
  proof (intro conjI)
    show "length (visited[s := True]) = length blocks" using I(1) by simp
    show "distinct (post @ map fst ((s, 0) # (b, i + 1) # stack))" using I(2) new by auto
    show "\<forall>v < length blocks. visited[s := True] ! v \<longleftrightarrow> v \<in> set post \<union> fst ` set ((s, 0) # (b, i + 1) # stack)"
    proof (intro allI impI)
      fix v assume "v < length blocks"
      then have "visited ! v \<longleftrightarrow> v \<in> set post \<union> fst ` set ((b, i) # stack)" by (rule I(3))
      then show "visited[s := True] ! v \<longleftrightarrow> v \<in> set post \<union> fst ` set ((s, 0) # (b, i + 1) # stack)"
        unfolding vis by auto
    qed
    show "\<forall>v \<in> set post \<union> fst ` set ((s, 0) # (b, i + 1) # stack). v < length blocks \<and> (0, v) \<in> (flow blocks)\<^sup>*"
      using I(4,5) r sl by auto
    show "\<forall>x \<in> set ((s, 0) # (b, i + 1) # stack). frame_done blocks (visited[s := True]) x"
    proof -
      have old: "frame_done blocks (visited[s := True]) x" if "x \<in> set ((b, i) # stack)" for x
        by (rule frame_done_mono [OF I(6) [OF that]]) (simp add: vis)
      then have "frame_done blocks (visited[s := True]) (b, i + 1)"
        using s(1) vis by (intro frame_done_Suc) simp_all
      then show ?thesis using old by auto
    qed
    show "sorted_wrt (\<lambda>x y. (fst y, fst x) \<in> (flow blocks)\<^sup>*) ((s, 0) # (b, i + 1) # stack)"
      using I(7) up by fastforce
    show "\<forall>b' \<in> set post. \<forall>t. (b', t) \<in> flow blocks \<longrightarrow> t \<in> set post \<union> fst ` set ((s, 0) # (b, i + 1) # stack)"
      using I(8) by auto
    show "edges_down blocks post" by (rule I(9))
  qed
qed

lemma search_inv_loop:
  "search_inv blocks stack visited post \<Longrightarrow> \<exists>visited'. search_inv blocks [] visited' (rpo_loop blocks stack visited post)"
proof (induction blocks stack visited post rule: rpo_loop.induct)
  case (1 blocks visited post)
  then show ?case by auto
next
  case (2 blocks b i stack visited post)
  show ?case
  proof (cases "length (bb_succs (blocks ! b)) \<le> i")
    case True
    then show ?thesis using "2.IH"(1) search_inv_pop [OF "2.prems"] by simp
  next
    case i: False
    let ?s = "bb_succs (blocks ! b) ! i"
    have i': "i < length (bb_succs (blocks ! b))" using i by simp
    show ?thesis
    proof (cases "length visited \<le> ?s \<or> visited ! ?s")
      case True
      then have "search_inv blocks ((b, i + 1) # stack) visited post" by (rule search_inv_skip [OF "2.prems" i'])
      then show ?thesis using "2.IH"(2,3) [OF i refl refl] i True by (cases "length visited \<le> ?s") (simp_all add: Let_def)
    next
      case False
      then have "search_inv blocks ((?s, 0) # (b, i + 1) # stack) (visited[?s := True]) post"
        by (intro search_inv_push [OF "2.prems" i']) auto
      then show ?thesis using "2.IH"(4) [OF i refl refl] i False by (simp add: Let_def)
    qed
  qed
qed

lemma rpo_loop_last: "stack \<noteq> [] \<Longrightarrow> rpo_loop blocks stack visited post \<noteq> []
    \<and> last (rpo_loop blocks stack visited post) = fst (last stack)"
proof (induction blocks stack visited post rule: rpo_loop.induct)
  case (2 blocks b i stack visited post)
  show ?case
  proof (cases "length (bb_succs (blocks ! b)) \<le> i")
    case True
    then show ?thesis using "2.IH"(1) by (cases "stack = []") simp_all
  next
    case i: False
    let ?s = "bb_succs (blocks ! b) ! i"
    show ?thesis using "2.IH"(2-4) [OF i refl refl] i
      by (cases "length visited \<le> ?s"; cases "visited ! ?s") (auto simp: Let_def)
  qed
qed simp

lemma search_inv_start:
  "0 < length blocks \<Longrightarrow> search_inv blocks [(0, 0)] ((replicate (length blocks) False)[0 := True]) []"
  by (auto simp: search_inv_def edges_down_def nth_list_update)

lemma closed_rtrancl: "(x, y) \<in> r\<^sup>* \<Longrightarrow> x \<in> X \<Longrightarrow> (\<And>u v. u \<in> X \<Longrightarrow> (u, v) \<in> r \<Longrightarrow> v \<in> X) \<Longrightarrow> y \<in> X"
  by (induction rule: rtrancl_induct) auto

lemma rpo_props:
  assumes n: "0 < num_blocks bs"
  defines "rpo \<equiv> reverse_post_order bs"
  shows "distinct rpo" "rpo \<noteq> []" "hd rpo = 0"
    "set rpo = {b. (0, b) \<in> (flow (bs_blocks bs))\<^sup>*}"
    "i < length rpo \<Longrightarrow> j < i \<Longrightarrow> (rpo ! i, rpo ! j) \<in> flow (bs_blocks bs) \<Longrightarrow>
       (rpo ! j, rpo ! i) \<in> (flow (bs_blocks bs))\<^sup>*"
proof -
  let ?B = "bs_blocks bs"
  let ?post = "rpo_loop ?B [(0, 0)] ((replicate (num_blocks bs) False)[0 := True]) []"
  have ne: "?B \<noteq> []" using n by (auto simp: num_blocks_def)
  then have rpo: "rpo = rev ?post" by (simp add: rpo_def reverse_post_order_def)
  obtain vis where "search_inv ?B [] vis ?post"
    using search_inv_loop [OF search_inv_start] n by (auto simp: num_blocks_def)
  then have I: "distinct ?post" "\<forall>v \<in> set ?post. (0, v) \<in> (flow ?B)\<^sup>*"
    "\<forall>b \<in> set ?post. \<forall>s. (b, s) \<in> flow ?B \<longrightarrow> s \<in> set ?post" "edges_down ?B ?post"
    by (auto simp: search_inv_def)
  have L: "?post \<noteq> []" "last ?post = 0" using rpo_loop_last [of "[(0, 0)]" ?B] by simp_all
  show "distinct rpo" "rpo \<noteq> []" "hd rpo = 0" using I L by (simp_all add: rpo hd_rev)
  have "0 \<in> set ?post" using L last_in_set by metis
  then have "b \<in> set ?post" if "(0, b) \<in> (flow ?B)\<^sup>*" for b
    using closed_rtrancl [OF that] I(3) by blast
  then show "set rpo = {b. (0, b) \<in> (flow ?B)\<^sup>*}"
    unfolding rpo set_rev using I(2) by blast
  assume ij: "i < length rpo" "j < i" "(rpo ! i, rpo ! j) \<in> flow ?B"
  let ?i = "length ?post - Suc i" and ?j = "length ?post - Suc j"
  have at: "rpo ! i = ?post ! ?i" "rpo ! j = ?post ! ?j" "?i < ?j" "?j < length ?post"
    using ij by (auto simp: rpo rev_nth)
  have "?post ! ?j \<notin> set (take ?i ?post)"
    using I(1) at(3,4) by (auto simp: in_set_conv_nth nth_eq_iff_index_eq)
  then show "(rpo ! j, rpo ! i) \<in> (flow ?B)\<^sup>*"
    using I(4) ij(3) at(3,4) unfolding edges_down_def at(1,2) by (meson order.strict_trans)
qed

text \<open>C15: \<open>reverse_post_order\<close> lists exactly the blocks reachable from block 0, each once and block 0 first,
  and an edge that goes backwards in the list closes a cycle.\<close>

theorem reverse_post_order_correct:
  assumes "0 < num_blocks bs"
  shows "distinct (reverse_post_order bs) \<and> hd (reverse_post_order bs) = 0
    \<and> set (reverse_post_order bs) = {b. (0, b) \<in> (flow (bs_blocks bs))\<^sup>*}
    \<and> (\<forall>i < length (reverse_post_order bs). \<forall>j < i.
         (reverse_post_order bs ! i, reverse_post_order bs ! j) \<in> flow (bs_blocks bs) \<longrightarrow>
         (reverse_post_order bs ! j, reverse_post_order bs ! i) \<in> (flow (bs_blocks bs))\<^sup>*)"
  using rpo_props [OF assms] by blast

text \<open>A diamond with a back edge.\<close>

definition ex_flow :: block_structure where
  "ex_flow = \<lparr>bs_blocks = map (\<lambda>ss. default_block\<lparr>bb_succs := ss\<rparr>) [[1, 2], [3], [3], [0], [1]], bs_node_to_block = Map.empty\<rparr>"

theorem reverse_post_order_correct_witness:
  "distinct (reverse_post_order ex_flow) \<and> set (reverse_post_order ex_flow) = {b. (0, b) \<in> (flow (bs_blocks ex_flow))\<^sup>*}
    \<and> reverse_post_order ex_flow = [0, 2, 1, 3]"
proof -
  have "0 < num_blocks ex_flow" by (simp add: num_blocks_def ex_flow_def)
  from reverse_post_order_correct [OF this] show ?thesis
    by (simp add: reverse_post_order_def ex_flow_def num_blocks_def numeral_nat)
qed

section \<open>Dominators\<close>

text \<open>The dominator phase of the code computes nothing: every block of a finished structure keeps the undefined
  dominator 0, and \<open>dominates\<close> answers that a block is dominated by the entry and by itself only.\<close>

lemma dominators_undefined:
  assumes "build_block_structure g = Some bs" "b < num_blocks bs"
  shows "bb_idom (bs_blocks bs ! b) = 0 \<and> dominates bs a b = Some (Some (a = 0 \<or> a = b))"
proof -
  have z: "bb_idom (bs_blocks bs ! c) = 0" if "c < num_blocks bs" for c by (rule build_idom [OF assms(1) that])
  have "0 < num_blocks bs" using assms(2) by simp
  then show ?thesis using z [OF assms(2)] z [of 0] assms(2)
    by (auto simp: dominates_def dominates_walk.simps [of _ a b] num_blocks_def Let_def)
qed

lemma dominators_undefined_witness:
  "\<exists>bs. build_block_structure ex_fun = Some bs \<and> bb_idom (bs_blocks bs ! 0) = 0 \<and> dominates bs 7 0 = Some (Some False)"
  using dominators_undefined [of ex_fun _ 0 7] ex_fun_blocks by auto

end
