(* ===== verification/Lsra.thy ===== *)
theory Lsra
  imports Build_Regions "HOL-Library.Product_Lexorder" "HOL-Library.Multiset"
begin

text \<open>
  \<^verbatim>\<open>tier1_jade/LinearScanRegAlloc.hpp\<close> and \<^verbatim>\<open>tier1_jade/LinearScanRegAlloc.cpp\<close>: linear scan register
  allocation. \<open>active_\<close>, a vector of pointers into \<open>intervals_\<close>, is a list of indices. Spill weights are
  doubles that only ever hold natural numbers. Positions are 32-bit in the code and natural numbers
  here; spill slots and the frame size keep their width.

  \<^verbatim>\<open>std::sort\<close> leaves the order of equal elements open, so the sort of the active list is a parameter
  that satisfies \<open>sorter\<close>; the two other sorts compare distinct keys. \<^verbatim>\<open>std::lower_bound\<close> requires a range
  partitioned by its predicate and is undefined on any other.
\<close>

section \<open>Registers\<close>

datatype x86_reg =
    RAX | RBX | RCX | RDX | RSI | RDI | RBP | RSP
  | R8 | R9 | R10 | R11 | R12 | R13 | R14 | R15
  | XMM0 | XMM1 | XMM2 | XMM3 | XMM4 | XMM5 | XMM6 | XMM7
  | XMM8 | XMM9 | XMM10 | XMM11 | XMM12 | XMM13 | XMM14 | XMM15
  | Reg_Invalid

fun reg_code :: "x86_reg \<Rightarrow> nat" where
  "reg_code RAX = 0" | "reg_code RBX = 1" | "reg_code RCX = 2" | "reg_code RDX = 3"
| "reg_code RSI = 4" | "reg_code RDI = 5" | "reg_code RBP = 6" | "reg_code RSP = 7"
| "reg_code R8 = 8" | "reg_code R9 = 9" | "reg_code R10 = 10" | "reg_code R11 = 11"
| "reg_code R12 = 12" | "reg_code R13 = 13" | "reg_code R14 = 14" | "reg_code R15 = 15"
| "reg_code XMM0 = 16" | "reg_code XMM1 = 17" | "reg_code XMM2 = 18" | "reg_code XMM3 = 19"
| "reg_code XMM4 = 20" | "reg_code XMM5 = 21" | "reg_code XMM6 = 22" | "reg_code XMM7 = 23"
| "reg_code XMM8 = 24" | "reg_code XMM9 = 25" | "reg_code XMM10 = 26" | "reg_code XMM11 = 27"
| "reg_code XMM12 = 28" | "reg_code XMM13 = 29" | "reg_code XMM14 = 30" | "reg_code XMM15 = 31"
| "reg_code Reg_Invalid = 255"

definition is_caller_saved :: "x86_reg \<Rightarrow> bool" where
  "is_caller_saved r \<longleftrightarrow> r \<in> set
     [RAX, RCX, RDX, RSI, RDI, R8, R9, R10, R11,
      XMM0, XMM1, XMM2, XMM3, XMM4, XMM5, XMM6, XMM7, XMM8, XMM9, XMM10, XMM11, XMM12, XMM13, XMM14, XMM15]"

definition allocatable_gprs :: "x86_reg list" where
  "allocatable_gprs =
     [RAX, RCX, RDX, RSI, RDI, R8, R9, R10, R11, RBX, R12, R13, R14, R15]"

definition allocatable_xmms :: "x86_reg list" where
  "allocatable_xmms =
     [XMM0, XMM1, XMM2, XMM3, XMM4, XMM5, XMM6, XMM7, XMM8, XMM9, XMM10, XMM11, XMM12, XMM13, XMM14, XMM15]"

definition is_float_type :: "type_id \<Rightarrow> bool" where
  "is_float_type t \<longleftrightarrow> t = Ty_Float"

fun x86_reg_name :: "x86_reg \<Rightarrow> string" where
  "x86_reg_name RAX = ''rax''" | "x86_reg_name RBX = ''rbx''" | "x86_reg_name RCX = ''rcx''"
| "x86_reg_name RDX = ''rdx''" | "x86_reg_name RSI = ''rsi''" | "x86_reg_name RDI = ''rdi''"
| "x86_reg_name RBP = ''rbp''" | "x86_reg_name RSP = ''rsp''" | "x86_reg_name R8 = ''r8''"
| "x86_reg_name R9 = ''r9''" | "x86_reg_name R10 = ''r10''" | "x86_reg_name R11 = ''r11''"
| "x86_reg_name R12 = ''r12''" | "x86_reg_name R13 = ''r13''" | "x86_reg_name R14 = ''r14''"
| "x86_reg_name R15 = ''r15''"
| "x86_reg_name XMM0 = ''xmm0''" | "x86_reg_name XMM1 = ''xmm1''" | "x86_reg_name XMM2 = ''xmm2''"
| "x86_reg_name XMM3 = ''xmm3''" | "x86_reg_name XMM4 = ''xmm4''" | "x86_reg_name XMM5 = ''xmm5''"
| "x86_reg_name XMM6 = ''xmm6''" | "x86_reg_name XMM7 = ''xmm7''" | "x86_reg_name XMM8 = ''xmm8''"
| "x86_reg_name XMM9 = ''xmm9''" | "x86_reg_name XMM10 = ''xmm10''" | "x86_reg_name XMM11 = ''xmm11''"
| "x86_reg_name XMM12 = ''xmm12''" | "x86_reg_name XMM13 = ''xmm13''" | "x86_reg_name XMM14 = ''xmm14''"
| "x86_reg_name XMM15 = ''xmm15''" | "x86_reg_name Reg_Invalid = ''<invalid>''"

section \<open>Intervals and results\<close>

record live_interval =
  li_vreg :: node_id
  li_start :: nat
  li_end :: nat
  li_is_float :: bool
  li_is_fixed :: bool
  li_fixed_reg :: x86_reg
  li_assigned_reg :: "x86_reg option"
  li_spill_slot :: "u32 option"
  li_spill_weight :: nat
  li_use_positions :: "nat list"

record allocation_result =
  ar_intervals :: "live_interval list"
  ar_spill_slots :: "u32 list"
  ar_frame_size :: u32
  ar_reloads :: "node_id list"
  ar_spills :: "node_id list"

record allocator =
  al_intervals :: "live_interval list"
  al_active :: "nat list"
  al_result :: allocation_result

definition empty_result :: allocation_result where
  "empty_result = \<lparr>ar_intervals = [], ar_spill_slots = [], ar_frame_size = 0, ar_reloads = [], ar_spills = []\<rparr>"

definition new_allocator :: allocator where
  "new_allocator = \<lparr>al_intervals = [], al_active = [], al_result = empty_result\<rparr>"

section \<open>Step 1: live intervals\<close>

definition initial_interval :: "graph \<Rightarrow> nat \<Rightarrow> live_interval" where
  "initial_interval g i =
     \<lparr>li_vreg = i + 1, li_start = i, li_end = i + 1, li_is_float = is_float_type (n_type (node g (i + 1))),
      li_is_fixed = False, li_fixed_reg = Reg_Invalid, li_assigned_reg = None, li_spill_slot = None,
      li_spill_weight = 1, li_use_positions = [i]\<rparr>"

definition add_use :: "graph \<Rightarrow> nat \<Rightarrow> node_id \<Rightarrow> live_interval list \<Rightarrow> live_interval list" where
  "add_use g use_pos inp ivs =
     (if \<not> id_valid inp \<or> inp > g_size g then ivs
      else let iv = ivs ! (inp - 1)
        in ivs[inp - 1 := iv\<lparr>li_end := (if use_pos \<ge> li_end iv then use_pos + 1 else li_end iv),
             li_use_positions := li_use_positions iv @ [use_pos], li_spill_weight := li_spill_weight iv + 1\<rparr>])"

definition compute_live_intervals :: "graph \<Rightarrow> live_interval list" where
  "compute_live_intervals g =
     fold (\<lambda>i. fold (add_use g i) (data_inputs g (i + 1))) [0..<g_size g] (map (initial_interval g) [0..<g_size g])"

text \<open>One loop: the last block from the header on with an edge to the header ends it.\<close>

definition loop_end_block :: "block_structure \<Rightarrow> nat \<Rightarrow> nat" where
  "loop_end_block bs h =
     fold (\<lambda>b e. if h \<in> set (bb_succs (bs_blocks bs ! b)) then b else e) [h..<num_blocks bs] h"

definition extend_interval :: "nat \<Rightarrow> nat \<Rightarrow> live_interval \<Rightarrow> live_interval" where
  "extend_interval lo hi iv =
     (if li_start iv < lo \<and> list_ex (\<lambda>pos. lo \<le> pos \<and> pos \<le> hi) (li_use_positions iv) \<and> li_end iv \<le> hi
      then iv\<lparr>li_end := hi + 1, li_spill_weight := li_spill_weight iv + 10\<rparr> else iv)"

definition extend_over_loop :: "block_structure \<Rightarrow> basic_block \<Rightarrow> live_interval list \<Rightarrow> live_interval list" where
  "extend_over_loop bs bb ivs =
     (if \<not> bb_is_loop_header bb then ivs
      else let first = bs_blocks bs ! bb_id bb; last_bb = bs_blocks bs ! loop_end_block bs (bb_id bb);
               lo = (if id_valid (bb_leader first) then bb_leader first - 1 else 0);
               hi = (if id_valid (bb_last last_bb) then bb_last last_bb else lo + 1)
        in map (extend_interval lo hi) ivs)"

definition extend_intervals_across_loops :: "graph \<Rightarrow> live_interval list \<Rightarrow> live_interval list option" where
  "extend_intervals_across_loops g ivs =
     map_option (\<lambda>bs. fold (extend_over_loop bs) (bs_blocks bs) ivs) (build_block_structure g)"

section \<open>Step 2: sort\<close>

definition sort_intervals :: "live_interval list \<Rightarrow> live_interval list" where
  "sort_intervals ivs = sort_key (\<lambda>iv. (li_start iv, li_end iv)) ivs"

text \<open>What \<^verbatim>\<open>std::sort\<close> promises of a list sorted by a key.\<close>

locale sorter =
  fixes srt :: "(nat \<Rightarrow> nat) \<Rightarrow> nat list \<Rightarrow> nat list"
  assumes mset_srt: "mset (srt k xs) = mset xs"
    and sorted_srt: "sorted (map k (srt k xs))"
begin

lemma set_srt [simp]: "set (srt k xs) = set xs"
  using mset_srt by (metis set_mset_mset)

lemma length_srt [simp]: "length (srt k xs) = length xs"
  using mset_srt by (metis size_mset)

lemma distinct_srt [simp]: "distinct (srt k xs) \<longleftrightarrow> distinct xs"
  using mset_srt mset_eq_imp_distinct_iff by blast

end

section \<open>Step 3: walk the intervals\<close>

definition in_use_mask :: "live_interval list \<Rightarrow> nat list \<Rightarrow> u32" where
  "in_use_mask ivs active =
     fold (\<lambda>a m. case li_assigned_reg (ivs ! a) of
         Some r \<Rightarrow> or m (push_bit (reg_code r) 1) | None \<Rightarrow> m) active 0"

definition pick_free_reg :: "live_interval list \<Rightarrow> nat list \<Rightarrow> live_interval \<Rightarrow> x86_reg option" where
  "pick_free_reg ivs active iv =
     (let mask = in_use_mask ivs active
      in find (\<lambda>r. and mask (push_bit (reg_code r) 1) = 0)
           (if li_is_float iv then allocatable_xmms else allocatable_gprs))"

text \<open>The last pointer takes the place of the first one.\<close>

function drop_expired :: "live_interval list \<Rightarrow> nat \<Rightarrow> nat list \<Rightarrow> nat list" where
  "drop_expired ivs pos active =
     (if active \<noteq> [] \<and> li_end (ivs ! hd active) \<le> pos
      then drop_expired ivs pos (butlast (active[0 := last active])) else active)"
  by pat_completeness auto
termination by (relation "measure (\<lambda>(ivs, pos, active). length active)") auto

declare drop_expired.simps [simp del]

definition expire_active ::
  "((nat \<Rightarrow> nat) \<Rightarrow> nat list \<Rightarrow> nat list) \<Rightarrow> live_interval list \<Rightarrow> nat \<Rightarrow> nat list \<Rightarrow> nat list" where
  "expire_active srt ivs pos active =
     (let active = drop_expired ivs pos active
      in if active \<noteq> [] then srt (\<lambda>a. li_end (ivs ! a)) active else active)"

text \<open>The position of the victim in the active list.\<close>

definition pick_spill_victim :: "live_interval list \<Rightarrow> nat list \<Rightarrow> live_interval \<Rightarrow> nat option" where
  "pick_spill_victim ivs active new_iv =
     fst (fold (\<lambda>p (victim, lowest). let iv = ivs ! (active ! p)
             in if li_is_float iv \<noteq> li_is_float new_iv then (victim, lowest)
                else if li_spill_weight iv < lowest then (Some p, li_spill_weight iv) else (victim, lowest))
           [0..<length active] (None, li_spill_weight new_iv))"

text \<open>\<^verbatim>\<open>lower_bound\<close> by the end of the interval, followed by the insertion.\<close>

definition insert_active :: "live_interval list \<Rightarrow> nat list \<Rightarrow> nat \<Rightarrow> nat list ub" where
  "insert_active ivs active i =
     (let before = takeWhile (\<lambda>a. li_end (ivs ! a) < li_end (ivs ! i)) active;
          after = dropWhile (\<lambda>a. li_end (ivs ! a) < li_end (ivs ! i)) active
      in if \<exists>a \<in> set after. li_end (ivs ! a) < li_end (ivs ! i) then None
         else Some (before @ [i] @ after))"

definition record_spill :: "node_id \<Rightarrow> allocation_result \<Rightarrow> allocation_result" where
  "record_spill v res = res\<lparr>ar_spills := ar_spills res @ [v], ar_reloads := ar_reloads res @ [v]\<rparr>"

definition walk_step ::
  "((nat \<Rightarrow> nat) \<Rightarrow> nat list \<Rightarrow> nat list) \<Rightarrow> nat \<Rightarrow> allocator \<Rightarrow> allocator ub" where
  "walk_step srt i st =
     (let ivs = al_intervals st; iv = ivs ! i; active = expire_active srt ivs (li_start iv) (al_active st)
      in case pick_free_reg ivs active iv of
        Some r \<Rightarrow>
          (let ivs = ivs[i := iv\<lparr>li_assigned_reg := Some r\<rparr>]
           in map_option (\<lambda>active. st\<lparr>al_intervals := ivs, al_active := active\<rparr>) (insert_active ivs active i))
      | None \<Rightarrow>
          (case pick_spill_victim ivs active iv of
             None \<Rightarrow> Some (st\<lparr>al_intervals := ivs[i := iv\<lparr>li_spill_slot := Some 0\<rparr>], al_active := active,
                       al_result := record_spill (li_vreg iv) (al_result st)\<rparr>)
           | Some p \<Rightarrow>
               (let v = active ! p;
                    ivs = ivs[v := (ivs ! v)\<lparr>li_assigned_reg := None, li_spill_slot := Some 0\<rparr>];
                    res = record_spill (li_vreg (ivs ! v)) (al_result st)
                in case pick_free_reg ivs active iv of
                  None \<Rightarrow> None
                | Some r \<Rightarrow>
                    (let ivs = ivs[i := iv\<lparr>li_assigned_reg := Some r\<rparr>];
                         active = butlast (active[p := last active])
                     in map_option (\<lambda>active. st\<lparr>al_intervals := ivs, al_active := active, al_result := res\<rparr>)
                          (insert_active ivs active i)))))"

fun walk_loop ::
  "((nat \<Rightarrow> nat) \<Rightarrow> nat list \<Rightarrow> nat list) \<Rightarrow> nat list \<Rightarrow> allocator \<Rightarrow> allocator ub" where
  "walk_loop srt [] st = Some st"
| "walk_loop srt (i # is) st = Option.bind (walk_step srt i st) (walk_loop srt is)"

definition unplaced :: "live_interval \<Rightarrow> bool" where
  "unplaced iv \<longleftrightarrow> li_assigned_reg iv = None \<and> li_spill_slot iv = None"

definition walk_intervals ::
  "((nat \<Rightarrow> nat) \<Rightarrow> nat list \<Rightarrow> nat list) \<Rightarrow> allocator \<Rightarrow> (allocator \<times> unit result) ub" where
  "walk_intervals srt st =
     map_option (\<lambda>st. (st, case find unplaced (al_intervals st) of
         None \<Rightarrow> Inr ()
       | Some iv \<Rightarrow> Inl (make_error OutOfBudget
           (''LinearScan: vreg %'' @ show_nat (li_vreg iv) @ '' has neither reg nor spill slot''))))
       (walk_loop srt [0..<length (al_intervals st)] st)"

section \<open>Step 4: spill slots\<close>

fun number_slots :: "live_interval list \<Rightarrow> u32 \<Rightarrow> live_interval list \<times> u32 list \<times> u32" where
  "number_slots [] next_slot = ([], [], next_slot)"
| "number_slots (iv # ivs) next_slot =
     (if li_spill_slot iv = Some 0
      then (let next_slot = next_slot + 8; (ivs', slots, end_slot) = number_slots ivs next_slot
            in (iv\<lparr>li_spill_slot := Some next_slot\<rparr> # ivs', next_slot # slots, end_slot))
      else (let (ivs', slots, end_slot) = number_slots ivs next_slot in (iv # ivs', slots, end_slot)))"

definition assign_spill_slots :: "allocator \<Rightarrow> allocator" where
  "assign_spill_slots st =
     (let (ivs, slots, next_slot) = number_slots (al_intervals st) 0;
          frame = (if next_slot mod 16 \<noteq> 0 then next_slot + (16 - next_slot mod 16) else next_slot)
      in st\<lparr>al_intervals := ivs, al_result := (al_result st)\<lparr>ar_spill_slots := ar_spill_slots (al_result st) @ slots,
           ar_frame_size := frame\<rparr>\<rparr>)"

section \<open>The driver\<close>

text \<open>
  \<open>allocate\<close> does not clear \<open>active_\<close>: on an allocator that was used before, its pointers refer to a
  vector that was given away, which is undefined as soon as the walk reads one.
\<close>

definition allocate ::
  "((nat \<Rightarrow> nat) \<Rightarrow> nat list \<Rightarrow> nat list) \<Rightarrow> allocator \<Rightarrow> graph \<Rightarrow> (allocator \<times> allocation_result result) ub" where
  "allocate srt st g =
     (if al_active st \<noteq> [] \<and> g_size g \<noteq> 0 then None
      else do {
        ivs \<leftarrow> extend_intervals_across_loops g (compute_live_intervals g);
        (st, r) \<leftarrow> walk_intervals srt (st\<lparr>al_intervals := sort_intervals ivs\<rparr>);
        case r of
          Inl e \<Rightarrow> Some (st, Inl e)
        | Inr _ \<Rightarrow>
            (let st = assign_spill_slots st;
                 res = (al_result st)\<lparr>ar_intervals := sort_key li_vreg (al_intervals st)\<rparr>
             in Some (st\<lparr>al_intervals := [], al_result := empty_result\<lparr>ar_frame_size := ar_frame_size res\<rparr>\<rparr>, Inr res))
      })"

section \<open>Printing\<close>

definition show_interval :: "live_interval \<Rightarrow> string" where
  "show_interval iv =
     ''vreg=%'' @ show_nat (li_vreg iv) @ '' ['' @ show_nat (li_start iv) @ '','' @ show_nat (li_end iv)
     @ '') weight='' @ show_nat (li_spill_weight iv) @ ''.0''
     @ (if li_is_float iv then '' float'' else '''')
     @ (if li_is_fixed iv then '' fixed='' @ x86_reg_name (li_fixed_reg iv) else '''')
     @ (case li_assigned_reg iv of Some r \<Rightarrow> '' -> '' @ x86_reg_name r | None \<Rightarrow> '''')
     @ (case li_spill_slot iv of Some s \<Rightarrow> '' spilled@'' @ show_nat (unat s) | None \<Rightarrow> '''')"

definition show_allocation :: "allocation_result \<Rightarrow> string" where
  "show_allocation r =
     ''AllocationResult: '' @ show_nat (length (ar_intervals r)) @ '' intervals, frame_size=''
     @ show_nat (unat (ar_frame_size r)) @ '', spills='' @ show_nat (length (ar_spills r)) @ [CHR 0x0A]
     @ concat (map (\<lambda>iv. ''  '' @ show_interval iv @ [CHR 0x0A]) (ar_intervals r))"

end
