(* ===== verification/Swap_Remove.thy ===== *)
theory Swap_Remove
  imports Prelude "HOL-Library.Multiset"
begin

text \<open>
  The idiom \<^verbatim>\<open>v[i] = v.back(); v.pop_back();\<close>, with which the register allocator and the collector remove an
  element of a vector in constant time: the other elements stay, in another order.
\<close>

lemma mset_swap_remove:
  assumes "p < length xs"
  shows "mset (butlast (xs[p := last xs])) = mset xs - {#xs ! p#}"
proof -
  obtain ys y where xs: "xs = ys @ [y]" using assms by (cases xs rule: rev_cases) auto
  show ?thesis
  proof (cases "p = length ys")
    case True
    then show ?thesis by (simp add: xs)
  next
    case False
    then have "p < length ys" using assms by (simp add: xs)
    then show ?thesis by (simp add: xs list_update_append nth_append mset_update)
  qed
qed

lemma mset_swap_remove_split:
  "p < length xs \<Longrightarrow> mset xs = add_mset (xs ! p) (mset (butlast (xs[p := last xs])))"
  by (simp add: mset_swap_remove)

end
