(* ===== verification/Lsra_Inv.thy ===== *)
theory Lsra_Inv
  imports Lsra Build_Regions_Correct Swap_Remove
begin

text \<open>
  The parts of the linear scan allocator: which register \<open>pick_free_reg\<close> finds, the invariant of the
  walk over abstract data with the effect of expiring, assigning and evicting on it, and the operations
  of the active list.
\<close>

section \<open>The free register\<close>

definition reg_class :: "bool \<Rightarrow> x86_reg set" where
  "reg_class fl = set (if fl then allocatable_xmms else allocatable_gprs)"

definition regs_by_code :: "x86_reg list" where
  "regs_by_code = [RAX, RBX, RCX, RDX, RSI, RDI, RBP, RSP, R8, R9, R10, R11, R12, R13, R14, R15,
     XMM0, XMM1, XMM2, XMM3, XMM4, XMM5, XMM6, XMM7, XMM8, XMM9, XMM10, XMM11, XMM12, XMM13, XMM14, XMM15]"

lemma regs_by_code: "r \<noteq> Reg_Invalid \<Longrightarrow> reg_code r < 32 \<and> regs_by_code ! reg_code r = r"
  by (cases r) (simp_all add: regs_by_code_def)

lemma reg_code_eq: "reg_code r < 32 \<Longrightarrow> reg_code r = reg_code s \<Longrightarrow> r = s"
proof -
  assume code: "reg_code r < 32" "reg_code r = reg_code s"
  then have "r \<noteq> Reg_Invalid" "s \<noteq> Reg_Invalid" by auto
  then show "r = s" using regs_by_code code(2) by metis
qed

lemma reg_class_code: "r \<in> reg_class fl \<Longrightarrow> reg_code r < 32"
  by (auto simp: reg_class_def allocatable_xmms_def allocatable_gprs_def split: if_splits)

lemma bit_mask_fold:
  "bit (fold (\<lambda>a m. case li_assigned_reg (ivs ! a) of Some r \<Rightarrow> or m (push_bit (reg_code r) 1) | None \<Rightarrow> m) act m) n
    \<longleftrightarrow> bit (m :: u32) n \<or> (n < 32 \<and> (\<exists>a \<in> set act. \<exists>r. li_assigned_reg (ivs ! a) = Some r \<and> reg_code r = n))"
proof (induction act arbitrary: m)
  case (Cons a act)
  show ?case
    by (cases "li_assigned_reg (ivs ! a)")
      (auto simp: Cons.IH bit_or_iff bit_exp_iff)
qed simp

lemma mask_free:
  assumes "reg_code r < 32"
  shows "and (in_use_mask ivs act) (push_bit (reg_code r) 1) = 0 \<longleftrightarrow> (\<forall>a \<in> set act. li_assigned_reg (ivs ! a) \<noteq> Some r)"
proof -
  have "and (in_use_mask ivs act) (push_bit (reg_code r) 1) = 0 \<longleftrightarrow> \<not> bit (in_use_mask ivs act) (reg_code r)"
    by (simp add: bit_iff_and_push_bit_not_eq_0)
  also have "\<dots> \<longleftrightarrow> (\<forall>a \<in> set act. li_assigned_reg (ivs ! a) \<noteq> Some r)"
    using assms reg_code_eq by (auto simp: in_use_mask_def bit_mask_fold)
  finally show ?thesis .
qed

lemma pick_free_Some:
  assumes "pick_free_reg ivs act iv = Some r"
  shows "r \<in> reg_class (li_is_float iv)" "\<forall>a \<in> set act. li_assigned_reg (ivs ! a) \<noteq> Some r"
proof -
  have r: "r \<in> reg_class (li_is_float iv)" "and (in_use_mask ivs act) (push_bit (reg_code r) 1) = 0"
    using assms unfolding pick_free_reg_def reg_class_def Let_def find_Some_iff by (auto simp: nth_mem)
  show "r \<in> reg_class (li_is_float iv)" by (rule r)
  show "\<forall>a \<in> set act. li_assigned_reg (ivs ! a) \<noteq> Some r"
    using r(2) mask_free [OF reg_class_code [OF r(1)]] by simp
qed

lemma pick_free_None:
  assumes "pick_free_reg ivs act iv = None" "r \<in> reg_class (li_is_float iv)"
  shows "\<exists>a \<in> set act. li_assigned_reg (ivs ! a) = Some r"
proof -
  have "and (in_use_mask ivs act) (push_bit (reg_code r) 1) \<noteq> 0"
    using assms unfolding pick_free_reg_def reg_class_def Let_def find_None_iff by blast
  then show ?thesis using mask_free [OF reg_class_code [OF assms(2)]] by simp
qed

section \<open>The allocation invariant\<close>

text \<open>
  The invariant over abstract data: \<open>E\<close> and \<open>St\<close> give the end and the start of every interval, \<open>Fl\<close> its
  class, \<open>A\<close> its register, \<open>V\<close> is the set of active intervals and the first \<open>k\<close> of \<open>n\<close> intervals are done.
\<close>

definition reg_inv ::
  "(nat \<Rightarrow> nat) \<Rightarrow> (nat \<Rightarrow> nat) \<Rightarrow> (nat \<Rightarrow> bool) \<Rightarrow> nat \<Rightarrow> nat \<Rightarrow> (nat \<Rightarrow> x86_reg option) \<Rightarrow> nat set \<Rightarrow> bool" where
  "reg_inv E St Fl n k A V \<longleftrightarrow>
     V \<subseteq> {..<k}
   \<and> (\<forall>a \<in> V. A a \<noteq> None)
   \<and> inj_on A V
   \<and> (\<forall>a < k. \<forall>r. A a = Some r \<longrightarrow> r \<in> reg_class (Fl a))
   \<and> (\<forall>a < k. A a \<noteq> None \<longrightarrow> a \<in> V \<or> (\<forall>j. k \<le> j \<longrightarrow> j < n \<longrightarrow> E a \<le> St j))
   \<and> (\<forall>a b. a < b \<longrightarrow> b < k \<longrightarrow> A a \<noteq> None \<longrightarrow> A a = A b \<longrightarrow> E a \<le> St b)"

lemma reg_invD:
  assumes "reg_inv E St Fl n k A V"
  shows "V \<subseteq> {..<k}" "a \<in> V \<Longrightarrow> A a \<noteq> None" "inj_on A V"
    "a < k \<Longrightarrow> A a = Some r \<Longrightarrow> r \<in> reg_class (Fl a)"
    "a < k \<Longrightarrow> A a \<noteq> None \<Longrightarrow> a \<notin> V \<Longrightarrow> k \<le> j \<Longrightarrow> j < n \<Longrightarrow> E a \<le> St j"
    "a < b \<Longrightarrow> b < k \<Longrightarrow> A a \<noteq> None \<Longrightarrow> A a = A b \<Longrightarrow> E a \<le> St b"
  using assms unfolding reg_inv_def by (simp_all del: not_None_eq) blast

lemma reg_inv_start: "reg_inv E St Fl n 0 A {}"
  by (simp add: reg_inv_def)

lemma reg_inv_cong:
  "reg_inv E St Fl n k A V \<Longrightarrow> (\<And>a. a < k \<Longrightarrow> A' a = A a) \<Longrightarrow> reg_inv E St Fl n k A' V"
  unfolding reg_inv_def inj_on_def by (simp add: subset_iff) (metis less_trans)

lemma reg_inv_expire:
  assumes inv: "reg_inv E St Fl n k A V" and W: "W \<subseteq> V" "\<And>a j. a \<in> V - W \<Longrightarrow> k \<le> j \<Longrightarrow> j < n \<Longrightarrow> E a \<le> St j"
  shows "reg_inv E St Fl n k A W"
  using inv W unfolding reg_inv_def by (auto intro: inj_on_subset)

lemma reg_inv_assign:
  assumes inv: "reg_inv E St Fl n k A V" and r: "r \<in> reg_class (Fl k)" "\<forall>a \<in> V. A a \<noteq> Some r" and k: "k < n"
  shows "reg_inv E St Fl n (Suc k) (A(k := Some r)) (insert k V)"
proof -
  note I = reg_invD [OF inv]
  have kV: "k \<notin> V" using I(1) by auto
  have 1: "E a \<le> St k" if "a < k" "A a = Some r" for a
    using I(5) [of a k] that r(2) k by auto
  have "inj_on (A(k := Some r)) (insert k V)"
    using I(3) r(2) kV by (auto simp: inj_on_def)
  then show ?thesis unfolding reg_inv_def using I(1,2,4,5,6) r(1) 1 kV
    by (auto simp: less_Suc_eq)
qed

lemma reg_inv_skip:
  assumes inv: "reg_inv E St Fl n k A V" and k: "A k = None"
  shows "reg_inv E St Fl n (Suc k) A V"
  using inv k unfolding reg_inv_def by (auto simp: less_Suc_eq)

lemma reg_inv_evict:
  assumes inv: "reg_inv E St Fl n k A V"
  shows "reg_inv E St Fl n k (A(v := None)) (V - {v})"
  using inv unfolding reg_inv_def by (auto simp: inj_on_def)

section \<open>The active list\<close>

lemma swap_remove:
  assumes "p < length xs" "distinct xs"
  shows "set (butlast (xs[p := last xs])) = set xs - {xs ! p}" "distinct (butlast (xs[p := last xs]))"
proof -
  have m: "mset (butlast (xs[p := last xs])) = mset (remove1 (xs ! p) xs)"
    by (simp add: mset_swap_remove [OF assms(1)])
  show "set (butlast (xs[p := last xs])) = set xs - {xs ! p}"
    using mset_eq_setD [OF m] assms(2) by simp
  show "distinct (butlast (xs[p := last xs]))"
    using mset_eq_imp_distinct_iff [OF m] assms(2) by simp
qed

lemma drop_expired_props:
  "distinct act \<Longrightarrow> set (drop_expired ivs pos act) \<subseteq> set act \<and> distinct (drop_expired ivs pos act)
    \<and> (\<forall>a \<in> set act - set (drop_expired ivs pos act). li_end (ivs ! a) \<le> pos)
    \<and> (drop_expired ivs pos act = act \<or> length (drop_expired ivs pos act) < length act)"
proof (induction ivs pos act rule: drop_expired.induct)
  case (1 ivs pos act)
  show ?case
  proof (cases "act \<noteq> [] \<and> li_end (ivs ! hd act) \<le> pos")
    case True
    let ?act = "butlast (act[0 := last act])"
    have sw: "set ?act = set act - {act ! 0}" "distinct ?act" using swap_remove [of 0 act] True "1.prems" by auto
    have l: "length ?act < length act" using True by simp
    have eq: "drop_expired ivs pos act = drop_expired ivs pos ?act"
      using True by (subst drop_expired.simps) simp
    show ?thesis unfolding eq using "1.IH" [OF True sw(2)] sw(1) True l by (auto simp: hd_conv_nth)
  next
    case False
    then have "drop_expired ivs pos act = act" by (subst drop_expired.simps) auto
    then show ?thesis using "1.prems" by simp
  qed
qed

lemma drop_expired_id:
  "drop_expired ivs pos act = act \<Longrightarrow> act \<noteq> [] \<Longrightarrow> pos < li_end (ivs ! hd act)"
proof (rule ccontr)
  assume id: "drop_expired ivs pos act = act" and ne: "act \<noteq> []" and "\<not> pos < li_end (ivs ! hd act)"
  then have eq: "drop_expired ivs pos act = drop_expired ivs pos (butlast (act[0 := last act]))"
    by (subst drop_expired.simps) simp
  have "length (drop_expired ivs pos xs) \<le> length xs" for xs
    by (induction ivs pos xs rule: drop_expired.induct) (subst drop_expired.simps, auto simp: le_diff_conv)
  from this [of "butlast (act[0 := last act])"] have "length act \<le> length (butlast (act[0 := last act]))"
    using id unfolding eq by (simp only:)
  moreover have "length (butlast (act[0 := last act])) = length act - 1" "0 < length act" using ne by simp_all
  ultimately show False by linarith
qed

context sorter
begin

lemma expire_props:
  assumes "distinct act"
  shows "set (expire_active srt ivs pos act) \<subseteq> set act" "distinct (expire_active srt ivs pos act)"
    "a \<in> set act \<Longrightarrow> a \<notin> set (expire_active srt ivs pos act) \<Longrightarrow> li_end (ivs ! a) \<le> pos"
    "sorted (map (\<lambda>a. li_end (ivs ! a)) (expire_active srt ivs pos act))"
    "length (expire_active srt ivs pos act) < length act \<or> (act \<noteq> [] \<longrightarrow> pos < li_end (ivs ! hd act))"
proof -
  have s: "set (expire_active srt ivs pos act) = set (drop_expired ivs pos act)"
    "length (expire_active srt ivs pos act) = length (drop_expired ivs pos act)"
    by (auto simp: expire_active_def Let_def)
  note d = drop_expired_props [OF assms, of ivs pos]
  show "set (expire_active srt ivs pos act) \<subseteq> set act" "distinct (expire_active srt ivs pos act)"
    "a \<in> set act \<Longrightarrow> a \<notin> set (expire_active srt ivs pos act) \<Longrightarrow> li_end (ivs ! a) \<le> pos"
    using d s(1) by (auto simp: expire_active_def Let_def)
  show "sorted (map (\<lambda>a. li_end (ivs ! a)) (expire_active srt ivs pos act))"
    by (auto simp: expire_active_def Let_def sorted_srt)
  show "length (expire_active srt ivs pos act) < length act \<or> (act \<noteq> [] \<longrightarrow> pos < li_end (ivs ! hd act))"
    using d s(2) drop_expired_id [of ivs pos act] by auto
qed

end

lemma insert_active_mset:
  assumes "insert_active ivs act i = Some act'"
  shows "mset act' = add_mset i (mset act)"
proof -
  define P where "P = (\<lambda>a. li_end (ivs ! a) < li_end (ivs ! i))"
  have "act' = takeWhile P act @ [i] @ dropWhile P act"
    using assms unfolding insert_active_def Let_def P_def
    by (simp only: option.inject option.distinct split: if_split_asm)
  moreover have "mset act = mset (takeWhile P act) + mset (dropWhile P act)"
    by (simp only: mset_append [symmetric] takeWhile_dropWhile_id)
  ultimately show ?thesis by simp
qed

lemma insert_active_set:
  assumes "insert_active ivs act i = Some act'"
  shows "set act' = insert i (set act)" "distinct act' \<longleftrightarrow> distinct (i # act)"
    "length act' = Suc (length act)"
proof -
  have m: "mset act' = mset (i # act)" using insert_active_mset [OF assms] by simp
  show "set act' = insert i (set act)" using mset_eq_setD [OF m] by simp
  show "distinct act' \<longleftrightarrow> distinct (i # act)" by (rule mset_eq_imp_distinct_iff [OF m])
  show "length act' = Suc (length act)" using mset_eq_length [OF m] by simp
qed

lemma insert_active_sorted:
  assumes "sorted (map (\<lambda>a. li_end (ivs ! a)) act)"
  shows "\<exists>act'. insert_active ivs act i = Some act' \<and> sorted (map (\<lambda>a. li_end (ivs ! a)) act')"
proof -
  let ?P = "\<lambda>a. li_end (ivs ! a) < li_end (ivs ! i)"
  have after: "li_end (ivs ! i) \<le> li_end (ivs ! a)" if a: "a \<in> set (dropWhile ?P act)" for a
  proof -
    obtain b bs where db: "dropWhile ?P act = b # bs" using a by (meson list.set_cases)
    have "sorted (map (\<lambda>a. li_end (ivs ! a)) (takeWhile ?P act @ dropWhile ?P act))" using assms by simp
    then have "li_end (ivs ! b) \<le> li_end (ivs ! a)" using a unfolding db map_append sorted_append by auto
    moreover have "\<not> ?P b" using db by (metis hd_dropWhile list.distinct(1) list.sel(1))
    ultimately show ?thesis by simp
  qed
  have before: "?P a" if "a \<in> set (takeWhile ?P act)" for a using that by (metis set_takeWhileD)
  have "sorted (map (\<lambda>a. li_end (ivs ! a)) (takeWhile ?P act @ dropWhile ?P act))" using assms by simp
  then have "sorted (map (\<lambda>a. li_end (ivs ! a)) (takeWhile ?P act @ [i] @ dropWhile ?P act))"
    unfolding map_append sorted_append using before after by fastforce
  moreover have "\<not> (\<exists>a \<in> set (dropWhile ?P act). ?P a)" using after by fastforce
  ultimately show ?thesis unfolding insert_active_def Let_def by (simp only: if_False option.inject) blast
qed

lemma victim_fold:
  fixes ivs act new_iv
  defines "f \<equiv> \<lambda>p (victim, lowest). let iv = ivs ! (act ! p)
       in if li_is_float iv \<noteq> li_is_float new_iv then (victim, lowest)
          else if li_spill_weight iv < lowest then (Some p, li_spill_weight iv) else (victim, lowest)"
  shows "(\<And>p. v = Some p \<Longrightarrow> p < length act \<and> li_is_float (ivs ! (act ! p)) = li_is_float new_iv) \<Longrightarrow> set ps \<subseteq> {..<length act} \<Longrightarrow>
    fst (fold f ps (v, w)) = Some p \<Longrightarrow> p < length act \<and> li_is_float (ivs ! (act ! p)) = li_is_float new_iv"
proof (induction ps arbitrary: v w)
  case (Cons q ps)
  obtain v' w' where q: "f q (v, w) = (v', w')" by fastforce
  have "p < length act \<and> li_is_float (ivs ! (act ! p)) = li_is_float new_iv" if "v' = Some p" for p
    using q that Cons.prems(1,2) by (auto simp: f_def Let_def split: if_splits)
  then show ?case using Cons.IH [of v' w'] Cons.prems(2,3) q by simp
qed simp

lemma pick_spill_victim_Some:
  "pick_spill_victim ivs act iv = Some p \<Longrightarrow> p < length act \<and> li_is_float (ivs ! (act ! p)) = li_is_float iv"
  unfolding pick_spill_victim_def by (erule victim_fold [rotated 2]) auto

end
