(* ===== verification/Lsra_Intervals.thy ===== *)
theory Lsra_Intervals
  imports Lsra_Inv
begin

text \<open>
  The live intervals that reach the walk: one per node in node order, each covering the definition and
  every use of its value, and the values used in a loop covering the loop.
\<close>

section \<open>The intervals before the walk\<close>

definition fresh_intervals :: "graph \<Rightarrow> live_interval list \<Rightarrow> bool" where
  "fresh_intervals g ivs \<longleftrightarrow> length ivs = g_size g \<and> (\<forall>a < g_size g. li_vreg (ivs ! a) = a + 1 \<and> li_start (ivs ! a) = a
     \<and> a < li_end (ivs ! a) \<and> li_assigned_reg (ivs ! a) = None \<and> li_spill_slot (ivs ! a) = None)"

text \<open>Intervals only grow, and they only gain uses.\<close>

definition grows :: "live_interval list \<Rightarrow> live_interval list \<Rightarrow> bool" where
  "grows ivs ivs' \<longleftrightarrow> length ivs' = length ivs \<and> (\<forall>a < length ivs.
     li_end (ivs ! a) \<le> li_end (ivs' ! a) \<and> set (li_use_positions (ivs ! a)) \<subseteq> set (li_use_positions (ivs' ! a))
     \<and> li_vreg (ivs' ! a) = li_vreg (ivs ! a) \<and> li_start (ivs' ! a) = li_start (ivs ! a)
     \<and> li_assigned_reg (ivs' ! a) = li_assigned_reg (ivs ! a) \<and> li_spill_slot (ivs' ! a) = li_spill_slot (ivs ! a))"

lemma grows_refl [simp]: "grows ivs ivs"
  by (simp add: grows_def)

lemma growsD: "grows ivs ivs' \<Longrightarrow> a < length ivs \<Longrightarrow> li_end (ivs ! a) \<le> li_end (ivs' ! a)
    \<and> set (li_use_positions (ivs ! a)) \<subseteq> set (li_use_positions (ivs' ! a))"
  by (simp add: grows_def)

lemma grows_trans: "grows a b \<Longrightarrow> grows b c \<Longrightarrow> grows a c"
  by (fastforce simp: grows_def)

lemma grows_fold: "(\<And>x ivs. x \<in> set xs \<Longrightarrow> grows ivs (f x ivs)) \<Longrightarrow> grows ivs (fold f xs ivs)"
proof (induction xs arbitrary: ivs)
  case (Cons x xs)
  then show ?case using grows_trans [of ivs "f x ivs"] by simp
qed simp

lemma grows_use: "grows ivs (add_use g i x ivs)"
  by (cases "x - 1 < length ivs") (auto simp: grows_def add_use_def Let_def nth_list_update list_update_beyond)

lemma grows_extend: "grows ivs (extend_over_loop bs bb ivs)"
  by (auto simp: grows_def extend_over_loop_def extend_interval_def Let_def)

lemma grows_fresh: "grows ivs ivs' \<Longrightarrow> fresh_intervals g ivs \<Longrightarrow> fresh_intervals g ivs'"
  by (fastforce simp: grows_def fresh_intervals_def)

lemma fresh_initial: "fresh_intervals g (map (initial_interval g) [0..<g_size g])"
  by (simp add: fresh_intervals_def initial_interval_def)

lemma fresh_compute: "fresh_intervals g (compute_live_intervals g)"
  unfolding compute_live_intervals_def by (rule grows_fresh [OF grows_fold fresh_initial]) (rule grows_fold, rule grows_use)

text \<open>Whatever one step of a fold makes true stays true when the other steps preserve it.\<close>

lemma fold_makes:
  assumes "x \<in> set xs" "\<And>s. I s \<Longrightarrow> P (f x s)" "\<And>y s. I s \<Longrightarrow> I (f y s)" "\<And>y s. I s \<Longrightarrow> P s \<Longrightarrow> P (f y s)" "I s"
  shows "P (fold f xs s)"
proof -
  obtain ys zs where xs: "xs = ys @ x # zs" using assms(1) by (auto simp: in_set_conv_decomp)
  have "I (fold f ws s)" if "I s" for ws s using that assms(3) by (induction ws arbitrary: s) auto
  then have "I (fold f ys s)" using assms(5) .
  then have "I (f x (fold f ys s)) \<and> P (f x (fold f ys s))" using assms(2,3) by blast
  then have "P (fold f zs (f x (fold f ys s)))" using assms(3,4)
    by (induction zs arbitrary: s rule: rev_induct) (auto simp: \<open>\<And>ws s. I s \<Longrightarrow> I (fold f ws s)\<close>)
  then show ?thesis by (simp add: xs)
qed

lemma compute_covers:
  assumes "i < g_size g" "x \<in> set (data_inputs g (i + 1))" "1 \<le> x" "x \<le> g_size g"
  shows "i < li_end (compute_live_intervals g ! (x - 1)) \<and> i \<in> set (li_use_positions (compute_live_intervals g ! (x - 1)))"
    (is "?P (compute_live_intervals g)")
proof -
  have idx: "x - 1 < g_size g" using assms(3,4) by linarith
  have keep: "?P ivs'" if "fresh_intervals g ivs" "?P ivs" "grows ivs ivs'" for ivs ivs'
    using growsD [OF that(3), of "x - 1"] that(1,2) idx by (auto simp: fresh_intervals_def simp del: One_nat_def)
  have inner: "?P (fold (add_use g i) (data_inputs g (i + 1)) ivs)" if "fresh_intervals g ivs" for ivs
  proof (rule fold_makes [where I = "fresh_intervals g", OF assms(2)])
    fix s assume s: "fresh_intervals g s"
    show "?P (add_use g i x s)" using s assms(3,4) by (auto simp: fresh_intervals_def add_use_def id_valid_def Let_def)
    show "fresh_intervals g (add_use g i y s)" for y by (rule grows_fresh [OF grows_use s])
    show "?P s \<Longrightarrow> ?P (add_use g i y s)" for y by (rule keep [OF s _ grows_use])
  qed (rule that)
  show ?thesis unfolding compute_live_intervals_def
  proof (rule fold_makes [where I = "fresh_intervals g" and x = i])
    fix s y assume s: "fresh_intervals g s"
    have gr: "grows s (fold (add_use g y) (data_inputs g (y + 1)) s)" by (rule grows_fold) (rule grows_use)
    show "fresh_intervals g (fold (add_use g y) (data_inputs g (y + 1)) s)" by (rule grows_fresh [OF gr s])
    show "?P s \<Longrightarrow> ?P (fold (add_use g y) (data_inputs g (y + 1)) s)" by (rule keep [OF s _ gr])
  qed (use assms(1) inner fresh_initial in auto)
qed

text \<open>The intervals that reach the walk; sorting changes nothing.\<close>

definition walk_input :: "graph \<Rightarrow> live_interval list" where
  "walk_input g = the (extend_intervals_across_loops g (compute_live_intervals g))"

lemma extend_eq: "extend_intervals_across_loops g (compute_live_intervals g) = Some (walk_input g)"
  using build_block_structure_eq [of g] by (simp add: walk_input_def extend_intervals_across_loops_def)

lemma walk_input_grows: "grows (compute_live_intervals g) (walk_input g)"
proof -
  obtain bs where "build_block_structure g = Some bs" using build_block_structure_eq by blast
  then show ?thesis
    by (simp add: walk_input_def extend_intervals_across_loops_def grows_fold grows_extend)
qed

lemma fresh_walk_input: "fresh_intervals g (walk_input g)"
  by (rule grows_fresh [OF walk_input_grows fresh_compute])

lemma walk_input_covers:
  assumes "i < g_size g" "x \<in> set (data_inputs g (i + 1))" "1 \<le> x" "x \<le> g_size g"
  shows "i < li_end (walk_input g ! (x - 1))"
proof -
  have "x - 1 < length (compute_live_intervals g)" using fresh_compute [of g] assms(3,4) by (simp add: fresh_intervals_def)
  then show ?thesis using compute_covers [OF assms] growsD [OF walk_input_grows [of g], of "x - 1"] by linarith
qed

lemma sorted_map_index: "(\<And>a b. a \<le> b \<Longrightarrow> b < length xs \<Longrightarrow> k (xs ! a) \<le> k (xs ! b)) \<Longrightarrow> sorted (map k xs)"
  by (simp add: sorted_iff_nth_mono)

lemma sort_intervals_id: "fresh_intervals g ivs \<Longrightarrow> sort_intervals ivs = ivs"
  unfolding sort_intervals_def by (intro sort_key_id_if_sorted sorted_map_index)
    (auto simp: fresh_intervals_def le_less)

section \<open>Loops\<close>

text \<open>The positions of the loop with the given header block.\<close>

definition loop_range :: "block_structure \<Rightarrow> nat \<Rightarrow> nat \<times> nat" where
  "loop_range bs h =
     (let first = bs_blocks bs ! h; last_bb = bs_blocks bs ! loop_end_block bs h;
          lo = (if id_valid (bb_leader first) then bb_leader first - 1 else 0)
      in (lo, if id_valid (bb_last last_bb) then bb_last last_bb else lo + 1))"

lemma extend_over_loop_eq:
  "extend_over_loop bs bb ivs = (if bb_is_loop_header bb
     then map (extend_interval (fst (loop_range bs (bb_id bb))) (snd (loop_range bs (bb_id bb)))) ivs else ivs)"
  by (simp add: extend_over_loop_def loop_range_def Let_def)

lemma fold_extend_covers:
  assumes "bb \<in> set bbs" "bb_is_loop_header bb" "a < length ivs" "li_start (ivs ! a) < fst (loop_range bs (bb_id bb))"
    "pos \<in> set (li_use_positions (ivs ! a))" "fst (loop_range bs (bb_id bb)) \<le> pos" "pos \<le> snd (loop_range bs (bb_id bb))"
  shows "snd (loop_range bs (bb_id bb)) < li_end (fold (extend_over_loop bs) bbs ivs ! a)"
proof (rule fold_makes [where I = "grows ivs", OF assms(1)])
  fix s assume s: "grows ivs s"
  then have "a < length s" "li_start (s ! a) = li_start (ivs ! a)" "pos \<in> set (li_use_positions (s ! a))"
    using assms(3,5) by (auto simp: grows_def)
  then show "snd (loop_range bs (bb_id bb)) < li_end (extend_over_loop bs bb s ! a)"
    using assms(2,4,6,7) by (auto simp: extend_over_loop_eq extend_interval_def list_ex_iff)
  show "grows ivs (extend_over_loop bs y s)" for y by (rule grows_trans [OF s grows_extend])
  show "snd (loop_range bs (bb_id bb)) < li_end (s ! a) \<Longrightarrow> snd (loop_range bs (bb_id bb)) < li_end (extend_over_loop bs y s ! a)" for y
    using growsD [OF grows_extend [of s bs y] \<open>a < length s\<close>] by linarith
qed simp

lemma walk_input_loops:
  assumes bs: "build_block_structure g = Some bs" "h < num_blocks bs" "bb_is_loop_header (bs_blocks bs ! h)"
    and use: "i < g_size g" "x \<in> set (data_inputs g (i + 1))" "1 \<le> x" "x \<le> g_size g"
    and loop: "x - 1 < fst (loop_range bs h)" "fst (loop_range bs h) \<le> i" "i \<le> snd (loop_range bs h)"
  shows "snd (loop_range bs h) < li_end (walk_input g ! (x - 1))"
proof -
  have h: "bs_blocks bs ! h \<in> set (bs_blocks bs)" "bb_id (bs_blocks bs ! h) = h"
    using bs(2) blocks_okD(1) [OF build_ok [OF bs(1)] bs(2)] by (simp_all add: num_blocks_def)
  have w: "walk_input g = fold (extend_over_loop bs) (bs_blocks bs) (compute_live_intervals g)"
    using bs(1) by (simp add: walk_input_def extend_intervals_across_loops_def)
  have x: "x - 1 < g_size g" using use(3,4) by linarith
  have f: "length (compute_live_intervals g) = g_size g" "li_start (compute_live_intervals g ! (x - 1)) = x - 1"
    using fresh_compute [of g] x unfolding fresh_intervals_def by blast+
  show ?thesis unfolding w
    using fold_extend_covers [OF h(1) bs(3), of "x - 1" "compute_live_intervals g" bs i, unfolded h(2) f] x loop
      compute_covers [OF use] by blast
qed

end
