(* ===== verification/Lsra_Correct.thy ===== *)
theory Lsra_Correct
  imports Lsra_Intervals
begin

text \<open>
  Correctness of the linear scan allocator: two values in the same register are never live at the same
  time, every value has a register or a spill slot of its own, a program with at most 14 overlapping
  intervals is allocated without spills, and an allocator cannot be used twice.
\<close>

section \<open>The walk keeps the invariant\<close>

text \<open>The part of an interval that the walk does not change.\<close>

definition core :: "live_interval \<Rightarrow> live_interval" where
  "core iv = iv\<lparr>li_assigned_reg := None, li_spill_slot := None\<rparr>"

lemma core_update [simp]:
  "core (iv\<lparr>li_assigned_reg := r\<rparr>) = core iv" "core (iv\<lparr>li_spill_slot := s\<rparr>) = core iv"
  by (simp_all add: core_def)

lemma core_fields:
  assumes "core iv = core iv'"
  shows "li_vreg iv = li_vreg iv'" "li_start iv = li_start iv'" "li_end iv = li_end iv'"
    "li_is_float iv = li_is_float iv'"
  using arg_cong [OF assms, of li_vreg] arg_cong [OF assms, of li_start] arg_cong [OF assms, of li_end]
    arg_cong [OF assms, of li_is_float] by (simp_all add: core_def)

definition placed :: "live_interval \<Rightarrow> bool" where
  "placed iv \<longleftrightarrow> (li_spill_slot iv = (if li_assigned_reg iv = None then Some 0 else None))"

text \<open>The walker state after the first \<open>k\<close> of the intervals \<open>ivs0\<close>.\<close>

definition walk_inv :: "live_interval list \<Rightarrow> nat \<Rightarrow> allocator \<Rightarrow> bool" where
  "walk_inv ivs0 k st \<longleftrightarrow>
     map core (al_intervals st) = map core ivs0
   \<and> distinct (al_active st)
   \<and> reg_inv (\<lambda>a. li_end (ivs0 ! a)) (\<lambda>a. li_start (ivs0 ! a)) (\<lambda>a. li_is_float (ivs0 ! a)) (length ivs0) k
       (\<lambda>a. li_assigned_reg (al_intervals st ! a)) (set (al_active st))
   \<and> (\<forall>a < k. placed (al_intervals st ! a))
   \<and> (\<forall>a. k \<le> a \<longrightarrow> a < length ivs0 \<longrightarrow> li_assigned_reg (al_intervals st ! a) = None \<and> li_spill_slot (al_intervals st ! a) = None)"

lemma walk_inv_length: "walk_inv ivs0 k st \<Longrightarrow> length (al_intervals st) = length ivs0"
  using map_eq_imp_length_eq by (auto simp: walk_inv_def)

lemma walk_inv_core:
  assumes "walk_inv ivs0 k st" "a < length ivs0"
  shows "core (al_intervals st ! a) = core (ivs0 ! a)"
proof -
  have "map core (al_intervals st) ! a = map core ivs0 ! a" using assms(1) by (simp add: walk_inv_def)
  then show ?thesis using assms(2) walk_inv_length [OF assms(1)] by simp
qed

lemmas walk_inv_fields = core_fields [OF walk_inv_core]

lemma map_core_update: "i < length ivs \<Longrightarrow> core y = core (ivs ! i) \<Longrightarrow> map core (ivs[i := y]) = map core ivs"
  by (simp add: map_update list_update_same_conv)

lemma walk_invD:
  assumes "walk_inv ivs0 k st"
  shows "map core (al_intervals st) = map core ivs0" "distinct (al_active st)"
    "reg_inv (\<lambda>a. li_end (ivs0 ! a)) (\<lambda>a. li_start (ivs0 ! a)) (\<lambda>a. li_is_float (ivs0 ! a)) (length ivs0) k
       (\<lambda>a. li_assigned_reg (al_intervals st ! a)) (set (al_active st))"
    "a < k \<Longrightarrow> placed (al_intervals st ! a)"
    "k \<le> a \<Longrightarrow> a < length ivs0 \<Longrightarrow> li_assigned_reg (al_intervals st ! a) = None"
    "k \<le> a \<Longrightarrow> a < length ivs0 \<Longrightarrow> li_spill_slot (al_intervals st ! a) = None"
  using assms unfolding walk_inv_def by blast+

lemma walk_inv_assign:
  assumes inv: "walk_inv ivs0 k st" and k: "k < length ivs0"
    and r: "r \<in> reg_class (li_is_float (ivs0 ! k))" "\<forall>a \<in> set (al_active st). li_assigned_reg (al_intervals st ! a) \<noteq> Some r"
    and st': "al_intervals st' = (al_intervals st)[k := (al_intervals st ! k)\<lparr>li_assigned_reg := Some r\<rparr>]"
      "set (al_active st') = insert k (set (al_active st))" "distinct (al_active st') \<longleftrightarrow> distinct (k # al_active st)"
  shows "walk_inv ivs0 (Suc k) st'"
proof -
  note I = walk_invD [OF inv]
  have len: "k < length (al_intervals st)" using walk_inv_length [OF inv] k by simp
  have "k \<notin> set (al_active st)" using reg_invD(1) [OF I(3)] by auto
  then have d: "distinct (al_active st')" using st'(3) I(2) by simp
  have R: "reg_inv (\<lambda>a. li_end (ivs0 ! a)) (\<lambda>a. li_start (ivs0 ! a)) (\<lambda>a. li_is_float (ivs0 ! a)) (length ivs0) (Suc k)
       (\<lambda>a. li_assigned_reg (al_intervals st' ! a)) (set (al_active st'))"
    unfolding st'(2) by (rule reg_inv_cong [OF reg_inv_assign [OF I(3) r k]])
      (use len in \<open>simp add: st'(1) nth_list_update\<close>)
  have "placed (al_intervals st' ! a)" if "a < Suc k" for a
    using that I(4) [of a] I(6) [of k] k len by (cases "a = k") (simp_all add: st'(1) placed_def)
  then show ?thesis unfolding walk_inv_def using I(1,5,6) d R len
    by (simp add: st'(1) map_core_update)
qed

lemma walk_inv_skip:
  assumes inv: "walk_inv ivs0 k st" and k: "k < length ivs0"
    and st': "al_intervals st' = (al_intervals st)[k := (al_intervals st ! k)\<lparr>li_spill_slot := Some 0\<rparr>]"
      "al_active st' = al_active st"
  shows "walk_inv ivs0 (Suc k) st'"
proof -
  note I = walk_invD [OF inv]
  have len: "k < length (al_intervals st)" using walk_inv_length [OF inv] k by simp
  have A: "li_assigned_reg (al_intervals st' ! a) = li_assigned_reg (al_intervals st ! a)" for a
    using len by (simp add: st'(1) nth_list_update)
  have "placed (al_intervals st' ! a)" if "a < Suc k" for a
    using that I(4) [of a] I(5) [of k] k len by (cases "a = k") (simp_all add: st'(1) placed_def)
  then show ?thesis unfolding walk_inv_def A st'(2)
    using I(1,2,5,6) reg_inv_skip [OF I(3)] I(5) [of k] k len by (simp add: st'(1) map_core_update)
qed

lemma walk_inv_evict:
  assumes inv: "walk_inv ivs0 k st" and k: "k \<le> length ivs0" and p: "p < length (al_active st)" "v = al_active st ! p"
    and st': "al_intervals st' = (al_intervals st)[v := (al_intervals st ! v)\<lparr>li_assigned_reg := None, li_spill_slot := Some 0\<rparr>]"
      "al_active st' = butlast ((al_active st)[p := last (al_active st)])"
  shows "walk_inv ivs0 k st'"
proof -
  note I = walk_invD [OF inv]
  have "v \<in> set (al_active st)" using p by simp
  then have v: "v < k" using reg_invD(1) [OF I(3)] by auto
  then have len: "v < length (al_intervals st)" using walk_inv_length [OF inv] k by simp
  note sw = swap_remove [OF p(1) I(2), folded p(2), folded st'(2)]
  have A: "li_assigned_reg (al_intervals st' ! a) = ((\<lambda>a. li_assigned_reg (al_intervals st ! a))(v := None)) a" for a
    using len by (simp add: st'(1) nth_list_update)
  have "placed (al_intervals st' ! a)" if "a < k" for a
    using that I(4) [of a] len by (cases "a = v") (simp_all add: st'(1) placed_def)
  moreover have "li_assigned_reg (al_intervals st' ! a) = None" "li_spill_slot (al_intervals st' ! a) = None"
    if "k \<le> a" "a < length ivs0" for a
    using that v I(5,6) by (simp_all add: st'(1))
  moreover have "map core (al_intervals st') = map core ivs0"
    using I(1) len by (simp add: st'(1) map_core_update)
  ultimately show ?thesis unfolding walk_inv_def using reg_inv_evict [OF I(3), of v] sw by (simp add: A fun_upd_def)
qed

context sorter
begin

lemma walk_inv_expire:
  assumes inv: "walk_inv ivs0 k st" and k: "k < length ivs0"
    and starts: "\<And>a b. a \<le> b \<Longrightarrow> b < length ivs0 \<Longrightarrow> li_start (ivs0 ! a) \<le> li_start (ivs0 ! b)"
    and st': "al_intervals st' = al_intervals st"
      "al_active st' = expire_active srt (al_intervals st) (li_start (al_intervals st ! k)) (al_active st)"
  shows "walk_inv ivs0 k st'"
proof -
  note I = walk_invD [OF inv] and fld = walk_inv_fields [OF inv]
  note ex = expire_props [OF I(2), where ivs = "al_intervals st" and pos = "li_start (al_intervals st ! k)", folded st'(2)]
  have "li_end (ivs0 ! a) \<le> li_start (ivs0 ! j)"
    if a: "a \<in> set (al_active st) - set (al_active st')" and j: "k \<le> j" "j < length ivs0" for a j
  proof -
    have "a < length ivs0" using reg_invD(1) [OF I(3)] a k by auto
    then have "li_end (ivs0 ! a) \<le> li_start (ivs0 ! k)" using ex(3) [of a] a fld(3) [of a] fld(2) [OF k] by simp
    also have "\<dots> \<le> li_start (ivs0 ! j)" by (rule starts [OF j])
    finally show ?thesis .
  qed
  then have "reg_inv (\<lambda>a. li_end (ivs0 ! a)) (\<lambda>a. li_start (ivs0 ! a)) (\<lambda>a. li_is_float (ivs0 ! a)) (length ivs0) k
       (\<lambda>a. li_assigned_reg (al_intervals st ! a)) (set (al_active st'))"
    by (rule reg_inv_expire [OF I(3) ex(1)])
  then show ?thesis unfolding walk_inv_def st'(1) using I(1,4,5,6) ex(2) by blast
qed

text \<open>One step of the walk; a failed second search for a register would be undefined.\<close>

lemma walk_step_inv:
  assumes inv: "walk_inv ivs0 k st" and k: "k < length ivs0"
    and starts: "\<And>a b. a \<le> b \<Longrightarrow> b < length ivs0 \<Longrightarrow> li_start (ivs0 ! a) \<le> li_start (ivs0 ! b)"
    and step: "walk_step srt k st = Some st'"
  shows "walk_inv ivs0 (Suc k) st'"
proof -
  define ivs where "ivs = al_intervals st"
  define act where "act = expire_active srt ivs (li_start (ivs ! k)) (al_active st)"
  define st1 where "st1 = st\<lparr>al_active := act\<rparr>"
  have inv1: "walk_inv ivs0 k st1"
    by (rule walk_inv_expire [OF inv k starts]) (simp_all add: st1_def act_def ivs_def)
  have fl: "li_is_float (ivs ! k) = li_is_float (ivs0 ! k)" using walk_inv_fields(4) [OF inv k] by (simp add: ivs_def)
  note step = step [unfolded walk_step_def Let_def, folded ivs_def, folded act_def]
  show ?thesis
  proof (cases "pick_free_reg ivs act (ivs ! k)")
    case (Some r)
    note r = pick_free_Some [OF Some, unfolded fl]
    obtain act' where st': "st' = st\<lparr>al_intervals := ivs[k := (ivs ! k)\<lparr>li_assigned_reg := Some r\<rparr>], al_active := act'\<rparr>"
      "insert_active (ivs[k := (ivs ! k)\<lparr>li_assigned_reg := Some r\<rparr>]) act k = Some act'"
      using step Some by auto
    show ?thesis
      by (rule walk_inv_assign [OF inv1 k r(1)])
        (use r(2) insert_active_set [OF st'(2)] in \<open>simp_all add: st'(1) st1_def ivs_def\<close>)
  next
    case no_reg: None
    show ?thesis
    proof (cases "pick_spill_victim ivs act (ivs ! k)")
      case None
      then have "st' = st\<lparr>al_intervals := ivs[k := (ivs ! k)\<lparr>li_spill_slot := Some 0\<rparr>], al_active := act,
          al_result := record_spill (li_vreg (ivs ! k)) (al_result st)\<rparr>"
        using step no_reg by simp
      then show ?thesis by (intro walk_inv_skip [OF inv1 k]) (simp_all add: st1_def ivs_def)
    next
      case (Some p)
      define ivs1 where "ivs1 = ivs[act ! p := (ivs ! (act ! p))\<lparr>li_assigned_reg := None, li_spill_slot := Some 0\<rparr>]"
      define st2 where "st2 = st\<lparr>al_intervals := ivs1, al_active := butlast (act[p := last act])\<rparr>"
      have p: "p < length act" using pick_spill_victim_Some [OF Some] by simp
      have inv2: "walk_inv ivs0 k st2"
        by (rule walk_inv_evict [OF inv1, of p "act ! p"]) (use k p in \<open>simp_all add: st1_def st2_def ivs1_def ivs_def\<close>)
      obtain r act' where r: "pick_free_reg ivs1 act (ivs ! k) = Some r"
        and st': "al_intervals st' = ivs1[k := (ivs ! k)\<lparr>li_assigned_reg := Some r\<rparr>]" "al_active st' = act'"
          "insert_active (ivs1[k := (ivs ! k)\<lparr>li_assigned_reg := Some r\<rparr>]) (butlast (act[p := last act])) k = Some act'"
        using step no_reg Some by (auto simp: ivs1_def split: option.split_asm)
      have "act ! p \<noteq> k" using reg_invD(1) [OF walk_invD(3) [OF inv1]] nth_mem [OF p] by (auto simp: st1_def)
      then have k1: "ivs1 ! k = ivs ! k" by (simp add: ivs1_def)
      have sub: "set (butlast (act[p := last act])) \<subseteq> set act"
        using swap_remove(1) [OF p] walk_invD(2) [OF inv1] by (simp add: st1_def)
      show ?thesis
        by (rule walk_inv_assign [OF inv2 k, of r])
          (use pick_free_Some [OF r, unfolded fl] sub insert_active_set [OF st'(3)] in \<open>auto simp: st' st2_def k1\<close>)
    qed
  qed
qed

lemma walk_loop_inv:
  assumes starts: "\<And>a b. a \<le> b \<Longrightarrow> b < length ivs0 \<Longrightarrow> li_start (ivs0 ! a) \<le> li_start (ivs0 ! b)"
  shows "walk_inv ivs0 k st \<Longrightarrow> k + m \<le> length ivs0 \<Longrightarrow> walk_loop srt [k..<k + m] st = Some st' \<Longrightarrow> walk_inv ivs0 (k + m) st'"
proof (induction m arbitrary: k st)
  case (Suc m)
  have "[k..<k + Suc m] = k # [Suc k..<Suc k + m]" by (simp add: upt_conv_Cons)
  then obtain st1 where "walk_step srt k st = Some st1" "walk_loop srt [Suc k..<Suc k + m] st1 = Some st'"
    using Suc.prems(3) by (auto simp: bind_eq_Some_conv)
  then show ?case using Suc.IH [of "Suc k" st1] walk_step_inv [OF Suc.prems(1) _ starts] Suc.prems(2) by simp
qed simp

end

section \<open>Spill slots\<close>

definition spilled :: "live_interval list \<Rightarrow> nat" where
  "spilled ivs = length (filter (\<lambda>iv. li_spill_slot iv = Some 0) ivs)"

lemma spilled_le: "spilled ivs \<le> length ivs"
  by (simp add: spilled_def)

lemma number_slots_props:
  "number_slots ivs s = (ivs', slots, e) \<Longrightarrow>
     length ivs' = length ivs \<and> e = s + 8 * of_nat (spilled ivs)
   \<and> (\<forall>a < length ivs. ivs' ! a = (if li_spill_slot (ivs ! a) = Some 0
        then (ivs ! a)\<lparr>li_spill_slot := Some (s + 8 * of_nat (Suc (spilled (take a ivs))))\<rparr> else ivs ! a))"
proof (induction ivs s arbitrary: ivs' slots e rule: number_slots.induct)
  case (2 iv ivs s)
  show ?case
  proof (cases "li_spill_slot iv = Some 0")
    case True
    obtain ivs1 sl1 where r: "number_slots ivs (s + 8) = (ivs1, sl1, e)" "ivs' = iv\<lparr>li_spill_slot := Some (s + 8)\<rparr> # ivs1"
      using "2.prems" True by (auto simp: Let_def split: prod.split_asm)
    show ?thesis using "2.IH"(1) [OF True refl r(1)] True unfolding r(2)
      by (auto simp: nth_Cons spilled_def algebra_simps split: nat.split)
  next
    case False
    obtain ivs1 sl1 where r: "number_slots ivs s = (ivs1, sl1, e)" "ivs' = iv # ivs1"
      using "2.prems" False by (auto simp: Let_def split: prod.split_asm)
    show ?thesis using "2.IH"(2) [OF False r(1)] False unfolding r(2)
      by (auto simp: nth_Cons spilled_def split: nat.split)
  qed
qed (simp add: spilled_def)

lemma number_slots_length: "number_slots ivs s = (ivs', slots, e) \<Longrightarrow> length slots = spilled ivs"
  by (induction ivs s arbitrary: ivs' slots e rule: number_slots.induct)
    (auto simp: spilled_def Let_def split: if_splits prod.splits)

lemma spilled_take_Suc: "a < length ivs \<Longrightarrow> spilled (take (Suc a) ivs) = spilled (take a ivs) + (if li_spill_slot (ivs ! a) = Some 0 then 1 else 0)"
  by (simp add: spilled_def take_Suc_conv_app_nth)

lemma spilled_take_mono: "a \<le> b \<Longrightarrow> spilled (take a ivs) \<le> spilled (take b ivs)"
  unfolding spilled_def by (metis filter_append le_add_diff_inverse length_append le_add1 take_add)

lemma unat_slot: "8 * k < 2 ^ 32 \<Longrightarrow> unat (8 * of_nat k :: u32) = 8 * k"
proof -
  assume "8 * k < 2 ^ 32"
  then have "unat (of_nat (8 * k) :: u32) = 8 * k" by (subst unat_of_nat) simp
  then show ?thesis by (simp only: of_nat_mult of_nat_numeral)
qed

section \<open>The allocator\<close>

text \<open>What a finished allocation looks like.\<close>

lemma new_allocator_active [simp]: "al_active new_allocator = []"
  by (simp add: new_allocator_def)

lemma assign_spill_slots_active [simp]: "al_active (assign_spill_slots st) = al_active st"
  by (simp add: assign_spill_slots_def Let_def split: prod.split)

text \<open>The walk does not touch the list of slots.\<close>

lemma walk_step_slots: "walk_step srt i st = Some st' \<Longrightarrow> ar_spill_slots (al_result st') = ar_spill_slots (al_result st)"
  by (auto simp: walk_step_def Let_def record_spill_def split: option.splits)

lemma walk_loop_slots: "walk_loop srt is st = Some st' \<Longrightarrow> ar_spill_slots (al_result st') = ar_spill_slots (al_result st)"
  by (induction srt "is" st arbitrary: st' rule: walk_loop.induct) (auto simp: bind_eq_Some_conv walk_step_slots)

lemma allocate_result:
  assumes "allocate srt new_allocator g = Some (st, r)"
  obtains stw where "walk_loop srt [0..<g_size g] (new_allocator\<lparr>al_intervals := walk_input g\<rparr>) = Some stw"
    "r = (case find unplaced (al_intervals stw) of
        None \<Rightarrow> Inr ((al_result (assign_spill_slots stw))\<lparr>ar_intervals := sort_key li_vreg (al_intervals (assign_spill_slots stw))\<rparr>)
      | Some iv \<Rightarrow> Inl (make_error OutOfBudget
           (''LinearScan: vreg %'' @ show_nat (li_vreg iv) @ '' has neither reg nor spill slot'')))"
    "al_active st = al_active stw"
proof -
  have len: "length (walk_input g) = g_size g" using fresh_walk_input by (simp add: fresh_intervals_def)
  obtain stw where w: "walk_loop srt [0..<g_size g] (new_allocator\<lparr>al_intervals := walk_input g\<rparr>) = Some stw"
    using assms by (auto simp: allocate_def extend_eq walk_intervals_def bind_eq_Some_conv len
        sort_intervals_id [OF fresh_walk_input])
  have "walk_intervals srt (new_allocator\<lparr>al_intervals := walk_input g\<rparr>) = Some (stw, case find unplaced (al_intervals stw) of
         None \<Rightarrow> Inr () | Some iv \<Rightarrow> Inl (make_error OutOfBudget
           (''LinearScan: vreg %'' @ show_nat (li_vreg iv) @ '' has neither reg nor spill slot'')))"
    by (simp add: walk_intervals_def len w)
  note res = assms [unfolded allocate_def extend_eq, simplified, unfolded sort_intervals_id [OF fresh_walk_input] this, simplified]
  show thesis
    using res by (intro that [OF w]; cases "find unplaced (al_intervals stw)") (auto simp: Let_def)
qed

lemma walk_starts: "a \<le> b \<Longrightarrow> b < length (walk_input g) \<Longrightarrow> li_start (walk_input g ! a) \<le> li_start (walk_input g ! b)"
  using fresh_walk_input [of g] by (simp add: fresh_intervals_def)

lemma walk_inv_start: "walk_inv (walk_input g) 0 (new_allocator\<lparr>al_intervals := walk_input g\<rparr>)"
  using fresh_walk_input [of g] by (simp add: walk_inv_def reg_inv_start new_allocator_def fresh_intervals_def)

context sorter
begin

lemma walk_done:
  assumes "walk_loop srt [0..<g_size g] (new_allocator\<lparr>al_intervals := walk_input g\<rparr>) = Some stw"
  shows "walk_inv (walk_input g) (g_size g) stw"
  using walk_loop_inv [OF walk_starts walk_inv_start, where m = "g_size g" and st' = stw] assms fresh_walk_input [of g]
  by (simp add: fresh_intervals_def)

lemma no_unplaced:
  assumes "walk_loop srt [0..<g_size g] (new_allocator\<lparr>al_intervals := walk_input g\<rparr>) = Some stw"
  shows "find unplaced (al_intervals stw) = None"
proof -
  note inv = walk_done [OF assms]
  have "length (al_intervals stw) = g_size g"
    using walk_inv_length [OF inv] fresh_walk_input [of g] by (simp add: fresh_intervals_def)
  then have "\<not> unplaced iv" if "iv \<in> set (al_intervals stw)" for iv
    using that walk_invD(4) [OF inv] by (auto simp: in_set_conv_nth placed_def unplaced_def)
  then show ?thesis by (simp add: find_None_iff)
qed

lemma allocate_final:
  assumes "allocate srt new_allocator g = Some (st, Inr res)"
  obtains stw slots e where "walk_inv (walk_input g) (g_size g) stw"
    "number_slots (al_intervals stw) 0 = (ar_intervals res, slots, e)"
    "ar_frame_size res = (if e mod 16 \<noteq> 0 then e + (16 - e mod 16) else e)"
    "ar_spills res = ar_spills (al_result stw)" "ar_spill_slots res = slots"
    "walk_loop srt [0..<g_size g] (new_allocator\<lparr>al_intervals := walk_input g\<rparr>) = Some stw"
proof -
  obtain stw where w: "walk_loop srt [0..<g_size g] (new_allocator\<lparr>al_intervals := walk_input g\<rparr>) = Some stw"
    "Inr res = (case find unplaced (al_intervals stw) of
        None \<Rightarrow> Inr ((al_result (assign_spill_slots stw))\<lparr>ar_intervals := sort_key li_vreg (al_intervals (assign_spill_slots stw))\<rparr>)
      | Some iv \<Rightarrow> Inl (make_error OutOfBudget
           (''LinearScan: vreg %'' @ show_nat (li_vreg iv) @ '' has neither reg nor spill slot'')))"
    "al_active st = al_active stw"
    by (rule allocate_result [OF assms])
  note inv = walk_done [OF w(1)]
  have fresh: "fresh_intervals g (walk_input g)" by (rule fresh_walk_input)
  have len: "length (al_intervals stw) = g_size g" using walk_inv_length [OF inv] fresh by (simp add: fresh_intervals_def)
  obtain ivs slots e where n: "number_slots (al_intervals stw) 0 = (ivs, slots, e)" by (metis prod_cases3)
  note N = number_slots_props [OF n]
  have v: "li_vreg (ivs ! a) = a + 1" if "a < g_size g" for a
    using N that len walk_inv_fields(1) [OF inv, of a] fresh by (simp add: fresh_intervals_def)
  have "sort_key li_vreg ivs = ivs"
    using v N len by (intro sort_key_id_if_sorted sorted_map_index) simp_all
  then have res: "res = (al_result (assign_spill_slots stw))\<lparr>ar_intervals := ivs\<rparr>"
    using w(2) no_unplaced [OF w(1)] n by (simp add: assign_spill_slots_def)
  have "ar_spill_slots (al_result stw) = []"
    using walk_loop_slots [OF w(1)] by (simp add: new_allocator_def empty_result_def)
  then show thesis
    by (intro that [OF inv]) (use n w(1) in \<open>simp_all add: res assign_spill_slots_def\<close>)
qed

end

text \<open>The standard sort is such a sorter.\<close>

interpretation std_sort: sorter sort_key
  by unfold_locales simp_all

text \<open>The register and the extent of a result interval.\<close>

lemma allocate_fields:
  assumes "sorter srt" "allocate srt new_allocator g = Some (st, Inr res)"
  obtains stw slots e where "walk_inv (walk_input g) (g_size g) stw"
    "number_slots (al_intervals stw) 0 = (ar_intervals res, slots, e)"
    "\<And>a. a < g_size g \<Longrightarrow> li_assigned_reg (ar_intervals res ! a) = li_assigned_reg (al_intervals stw ! a)"
    "\<And>a. a < g_size g \<Longrightarrow> li_start (ar_intervals res ! a) = a"
    "\<And>a. a < g_size g \<Longrightarrow> li_end (ar_intervals res ! a) = li_end (walk_input g ! a)"
    "\<And>a. a < g_size g \<Longrightarrow> li_is_float (ar_intervals res ! a) = li_is_float (walk_input g ! a)"
    "ar_frame_size res = (if e mod 16 \<noteq> 0 then e + (16 - e mod 16) else e)"
    "length (al_intervals stw) = g_size g" "length (ar_intervals res) = g_size g" "ar_spill_slots res = slots"
proof -
  obtain stw slots e where r: "walk_inv (walk_input g) (g_size g) stw"
    "number_slots (al_intervals stw) 0 = (ar_intervals res, slots, e)"
    "ar_frame_size res = (if e mod 16 \<noteq> 0 then e + (16 - e mod 16) else e)" "ar_spill_slots res = slots"
    by (rule sorter.allocate_final [OF assms])
  have len: "length (al_intervals stw) = g_size g" "length (walk_input g) = g_size g"
    using walk_inv_length [OF r(1)] fresh_walk_input [of g] by (simp_all add: fresh_intervals_def)
  note N = number_slots_props [OF r(2)] and F = walk_inv_fields [OF r(1), unfolded len(2)]
  have st: "li_start (walk_input g ! a) = a" if "a < g_size g" for a
    using fresh_walk_input [of g] that by (simp add: fresh_intervals_def)
  show thesis
    by (rule that [OF r(1,2) _ _ _ _ r(3)]) (use N len F st r(4) in simp_all)
qed

lemma registers_apart:
  assumes "sorter srt" "allocate srt new_allocator g = Some (st, Inr res)" "x < y" "in_graph g x" "in_graph g y"
    "li_assigned_reg (ar_intervals res ! (x - 1)) = Some r" "li_assigned_reg (ar_intervals res ! (y - 1)) = Some r"
  shows "li_end (ar_intervals res ! (x - 1)) \<le> li_start (ar_intervals res ! (y - 1))"
proof -
  obtain stw slots e where R: "walk_inv (walk_input g) (g_size g) stw"
    "\<And>a. a < g_size g \<Longrightarrow> li_assigned_reg (ar_intervals res ! a) = li_assigned_reg (al_intervals stw ! a)"
    "\<And>a. a < g_size g \<Longrightarrow> li_start (ar_intervals res ! a) = a"
    "\<And>a. a < g_size g \<Longrightarrow> li_end (ar_intervals res ! a) = li_end (walk_input g ! a)"
    using allocate_fields [OF assms(1,2)] by metis
  have i: "x - 1 < g_size g" "y - 1 < g_size g" "x - 1 < y - 1" using assms(3,4,5) by (auto simp: in_graph_def)
  have A: "li_assigned_reg (al_intervals stw ! (x - 1)) = Some r" "li_assigned_reg (al_intervals stw ! (y - 1)) = Some r"
    using R(2) [OF i(1)] R(2) [OF i(2)] assms(6,7) by simp_all
  have st: "li_start (walk_input g ! (y - 1)) = y - 1"
    using fresh_walk_input [of g] i(2) unfolding fresh_intervals_def by blast
  have "li_end (walk_input g ! (x - 1)) \<le> li_start (walk_input g ! (y - 1))"
    using reg_invD(6) [OF walk_invD(3) [OF R(1)] i(3,2)] unfolding A by simp
  then show ?thesis using R(3) [OF i(2)] R(4) [OF i(1)] unfolding st by simp
qed

lemma registers_kept:
  assumes "sorter srt" "allocate srt new_allocator g = Some (st, Inr res)" "x < y" "in_graph g x" "in_graph g y"
    "li_assigned_reg (ar_intervals res ! (x - 1)) = Some r" "li_assigned_reg (ar_intervals res ! (y - 1)) = Some r"
  shows "li_end (ar_intervals res ! (x - 1)) \<le> li_start (ar_intervals res ! (y - 1))
    \<and> (\<forall>u. in_graph g u \<longrightarrow> x \<in> set (data_inputs g u) \<longrightarrow> u < y)"
proof -
  note e = registers_apart [OF assms]
  obtain R: "\<And>a. a < g_size g \<Longrightarrow> li_start (ar_intervals res ! a) = a"
    "\<And>a. a < g_size g \<Longrightarrow> li_end (ar_intervals res ! a) = li_end (walk_input g ! a)"
    using allocate_fields [OF assms(1,2)] by metis
  have i: "x - 1 < g_size g" "y - 1 < g_size g" "1 \<le> x" "x \<le> g_size g" using assms(4,5) by (auto simp: in_graph_def)
  have "u < y" if u: "in_graph g u" "x \<in> set (data_inputs g u)" for u
  proof -
    have "u - 1 < g_size g" "u - 1 + 1 = u" using u(1) by (auto simp: in_graph_def)
    then have "u - 1 < li_end (walk_input g ! (x - 1))"
      using walk_input_covers [of "u - 1" g x] u(2) i(3,4) by simp
    then show ?thesis using e R(1) [OF i(2)] R(2) [OF i(1)] by linarith
  qed
  then show ?thesis using e by simp
qed

text \<open>C12: register assignment is safe: two values in the same register have disjoint live ranges, and a value kept
  in a register is not overwritten between its definition and any later use of it.\<close>

theorem registers_not_clobbered:
  assumes "sorter srt" "allocate srt new_allocator g = Some (st, Inr res)" "x < y" "in_graph g x" "in_graph g y"
    "li_assigned_reg (ar_intervals res ! (x - 1)) = Some r" "li_assigned_reg (ar_intervals res ! (y - 1)) = Some r"
  shows "li_end (ar_intervals res ! (x - 1)) \<le> li_start (ar_intervals res ! (y - 1))
    \<and> (\<forall>u. in_graph g u \<longrightarrow> x \<in> set (data_inputs g u) \<longrightarrow> u < y)"
  by (rule registers_kept [OF assms])

text \<open>A value defined before a loop and used in it keeps its register until the loop ends.\<close>

lemma loop_values_survive:
  assumes "sorter srt" "allocate srt new_allocator g = Some (st, Inr res)"
    "build_block_structure g = Some bs" "h < num_blocks bs" "bb_is_loop_header (bs_blocks bs ! h)"
    "in_graph g x" "in_graph g u" "x \<in> set (data_inputs g u)"
    "x - 1 < fst (loop_range bs h)" "fst (loop_range bs h) \<le> u - 1" "u - 1 \<le> snd (loop_range bs h)"
    "li_assigned_reg (ar_intervals res ! (x - 1)) = Some r"
    "in_graph g y" "x < y" "y - 1 \<le> snd (loop_range bs h)"
  shows "li_assigned_reg (ar_intervals res ! (y - 1)) \<noteq> Some r"
proof
  assume "li_assigned_reg (ar_intervals res ! (y - 1)) = Some r"
  then have "li_end (ar_intervals res ! (x - 1)) \<le> li_start (ar_intervals res ! (y - 1))"
    using registers_apart [OF assms(1,2,14,6,13,12)] by simp
  moreover have "u - 1 < g_size g" "u - 1 + 1 = u" "1 \<le> x" "x \<le> g_size g" "x - 1 < g_size g" "y - 1 < g_size g"
    using assms(6,7,13) by (auto simp: in_graph_def)
  moreover from this have "snd (loop_range bs h) < li_end (walk_input g ! (x - 1))"
    using walk_input_loops [OF assms(3,4,5), of "u - 1" x] assms(8-11) by simp
  moreover obtain "\<And>a. a < g_size g \<Longrightarrow> li_start (ar_intervals res ! a) = a"
    "\<And>a. a < g_size g \<Longrightarrow> li_end (ar_intervals res ! a) = li_end (walk_input g ! a)"
    using allocate_fields [OF assms(1,2)] by metis
  ultimately show False using assms(15) by (metis leD le_trans)
qed

section \<open>Storage\<close>

lemma frame_word:
  assumes "8 * c + 8 < 2 ^ 32"
  defines "e \<equiv> 8 * of_nat c :: u32"
  shows "unat (if e mod 16 \<noteq> 0 then e + (16 - e mod 16) else e) = 8 * (c + c mod 2)"
proof -
  have e: "e = of_nat (8 * c)" by (simp add: e_def)
  have u: "unat e = 8 * c" unfolding e using assms(1) by (subst unat_of_nat) simp
  have m: "e mod 16 = of_nat (8 * (c mod 2))" unfolding word_arith_nat_mod [of e] u by (simp add: mult_mod_right)
  show ?thesis
  proof (cases "c mod 2 = 0")
    case True
    then show ?thesis using m u by simp
  next
    case False
    then have c: "c mod 2 = 1" by simp
    then have "e mod 16 = 8" using m by simp
    moreover have "unat (e + 8) = 8 * c + 8"
    proof -
      have "e + 8 = of_nat (8 * c + 8)" by (simp add: e)
      then show ?thesis using assms(1) by (simp only: unat_of_nat) simp
    qed
    ultimately show ?thesis using c by simp
  qed
qed

lemma spilled_before:
  assumes "a < b" "b < length ivs" "li_spill_slot (ivs ! a) = Some 0"
  shows "spilled (take a ivs) < spilled (take b ivs)"
  using spilled_take_Suc [of a ivs] spilled_take_mono [of "Suc a" b ivs] assms by simp

text \<open>The slots given to the spilled intervals of a walk.\<close>

lemma slots_distinct:
  assumes n: "number_slots ivs 0 = (ivs', slots, e)" and pl: "\<forall>iv \<in> set ivs. placed iv"
    and sm: "8 * spilled ivs + 8 < 2 ^ 32" and a: "a < length ivs" "li_assigned_reg (ivs ! a) = None"
  obtains s where "li_spill_slot (ivs' ! a) = Some s" "0 < unat s" "8 dvd unat s" "unat s \<le> 8 * spilled ivs"
    "\<And>b. b < length ivs \<Longrightarrow> b \<noteq> a \<Longrightarrow> li_spill_slot (ivs' ! b) \<noteq> Some s"
proof -
  define c where "c a = Suc (spilled (take a ivs))" for a
  have N: "ivs' ! b = (if li_spill_slot (ivs ! b) = Some 0
      then (ivs ! b)\<lparr>li_spill_slot := Some (8 * of_nat (c b))\<rparr> else ivs ! b)" if "b < length ivs" for b
    using number_slots_props [OF n] that by (simp add: c_def)
  have pb: "li_spill_slot (ivs ! b) = (if li_assigned_reg (ivs ! b) = None then Some 0 else None)" if "b < length ivs" for b
    using pl nth_mem [OF that] by (auto simp: placed_def)
  have cle: "c b \<le> spilled ivs" if "b < length ivs" "li_assigned_reg (ivs ! b) = None" for b
    using spilled_take_Suc [of b ivs] spilled_take_mono [of "Suc b" "length ivs" ivs] that pb by (simp add: c_def)
  have uc: "unat (8 * of_nat (c b) :: u32) = 8 * c b" if "b < length ivs" "li_assigned_reg (ivs ! b) = None" for b
    using cle [OF that] sm by (intro unat_slot) simp
  have other: "li_spill_slot (ivs' ! b) \<noteq> Some (8 * of_nat (c a))" if b: "b < length ivs" "b \<noteq> a" for b
  proof (cases "li_assigned_reg (ivs ! b) = None")
    case True
    have "c b \<noteq> c a" using spilled_before [of a b ivs] spilled_before [of b a ivs] b a True pb
      by (cases "a < b") (auto simp: c_def)
    then have "8 * of_nat (c b) \<noteq> (8 * of_nat (c a) :: u32)" using uc [OF b(1) True] uc [OF a] by force
    then show ?thesis using N [OF b(1)] True pb [OF b(1)] by simp
  next
    case False
    then have "li_spill_slot (ivs ! b) = None" using pb [OF b(1)] by simp
    then show ?thesis using N [OF b(1)] by simp
  qed
  show thesis
    by (rule that [of "8 * of_nat (c a)"]) (use N [OF a(1)] pb [OF a(1)] a uc [OF a] cle [OF a] other in \<open>auto simp: c_def\<close>)
qed

lemma value_places:
  assumes "sorter srt" "allocate srt new_allocator g = Some (st, Inr res)" "g_size g < 2 ^ 29 - 1" "in_graph g x"
  shows "16 dvd unat (ar_frame_size res) \<and>
    (case li_assigned_reg (ar_intervals res ! (x - 1)) of
       Some r \<Rightarrow> r \<in> reg_class (li_is_float (ar_intervals res ! (x - 1))) \<and> li_spill_slot (ar_intervals res ! (x - 1)) = None
     | None \<Rightarrow> (\<exists>s. li_spill_slot (ar_intervals res ! (x - 1)) = Some s \<and> 0 < unat s \<and> 8 dvd unat s
         \<and> unat s \<le> unat (ar_frame_size res) \<and> unat s \<le> 8 * length (ar_spill_slots res)
         \<and> (\<forall>y. in_graph g y \<longrightarrow> y \<noteq> x \<longrightarrow> li_spill_slot (ar_intervals res ! (y - 1)) \<noteq> Some s)))"
proof -
  obtain stw slots e where R: "walk_inv (walk_input g) (g_size g) stw"
    "number_slots (al_intervals stw) 0 = (ar_intervals res, slots, e)"
    "\<And>a. a < g_size g \<Longrightarrow> li_assigned_reg (ar_intervals res ! a) = li_assigned_reg (al_intervals stw ! a)"
    "\<And>a. a < g_size g \<Longrightarrow> li_is_float (ar_intervals res ! a) = li_is_float (walk_input g ! a)"
    "ar_frame_size res = (if e mod 16 \<noteq> 0 then e + (16 - e mod 16) else e)"
    "length (al_intervals stw) = g_size g" "ar_spill_slots res = slots"
    using allocate_fields [OF assms(1,2)] by metis
  define ivs where "ivs = al_intervals stw"
  note N = number_slots_props [OF R(2), folded ivs_def]
  have pl: "\<forall>iv \<in> set ivs. placed iv" using walk_invD(4) [OF R(1)] R(6) by (auto simp: ivs_def in_set_conv_nth)
  have sm: "8 * spilled ivs + 8 < 2 ^ 32" using spilled_le [of ivs] assms(3) R(6) by (simp add: ivs_def)
  have frame: "unat (ar_frame_size res) = 8 * (spilled ivs + spilled ivs mod 2)"
  proof -
    have "e = 8 * of_nat (spilled ivs)" using N by simp
    then show ?thesis unfolding R(5) using frame_word [OF sm] by (simp only:)
  qed
  have "2 dvd spilled ivs + spilled ivs mod 2" by presburger
  then have dv: "16 dvd unat (ar_frame_size res)" unfolding frame by presburger
  have x: "x - 1 < g_size g" using assms(4) by (auto simp: in_graph_def)
  then have xl: "x - 1 < length ivs" using R(6) by (simp add: ivs_def)
  have y1: "y - 1 < length ivs \<and> y - 1 \<noteq> x - 1" if "in_graph g y" "y \<noteq> x" for y
    using that assms(4) R(6) by (auto simp: in_graph_def ivs_def)
  show ?thesis
  proof (cases "li_assigned_reg (ivs ! (x - 1))")
    case None
    obtain s where s: "li_spill_slot (ar_intervals res ! (x - 1)) = Some s" "0 < unat s" "8 dvd unat s" "unat s \<le> 8 * spilled ivs"
      "\<And>b. b < length ivs \<Longrightarrow> b \<noteq> x - 1 \<Longrightarrow> li_spill_slot (ar_intervals res ! b) \<noteq> Some s"
      by (rule slots_distinct [OF R(2) [folded ivs_def] pl sm xl None]) blast
    have "unat s \<le> unat (ar_frame_size res)" using s(4) frame by simp
    moreover have "unat s \<le> 8 * length (ar_spill_slots res)"
      using s(4) number_slots_length [OF R(2)] R(7) by (simp add: ivs_def)
    ultimately show ?thesis using None R(3) [OF x, folded ivs_def] s y1 dv by auto
  next
    case (Some r)
    then have "li_spill_slot (ivs ! (x - 1)) = None" using pl nth_mem [OF xl] by (auto simp: placed_def)
    moreover have "r \<in> reg_class (li_is_float (walk_input g ! (x - 1)))"
      using reg_invD(4) [OF walk_invD(3) [OF R(1)] x] Some by (simp add: ivs_def)
    ultimately show ?thesis using Some R(3) [OF x, folded ivs_def] R(4) [OF x] N xl dv by simp
  qed
qed

text \<open>C13: every value has a register of its class or a spill slot; the slots are distinct non-zero multiples of 8 inside
  a frame whose size is a multiple of 16.\<close>

theorem every_value_has_a_place:
  assumes "sorter srt" "allocate srt new_allocator g = Some (st, Inr res)" "g_size g < 2 ^ 29 - 1" "in_graph g x"
  shows "16 dvd unat (ar_frame_size res) \<and>
    (case li_assigned_reg (ar_intervals res ! (x - 1)) of
       Some r \<Rightarrow> r \<in> reg_class (li_is_float (ar_intervals res ! (x - 1))) \<and> li_spill_slot (ar_intervals res ! (x - 1)) = None
     | None \<Rightarrow> (\<exists>s. li_spill_slot (ar_intervals res ! (x - 1)) = Some s \<and> 0 < unat s \<and> 8 dvd unat s
         \<and> unat s \<le> unat (ar_frame_size res)
         \<and> (\<forall>y. in_graph g y \<longrightarrow> y \<noteq> x \<longrightarrow> li_spill_slot (ar_intervals res ! (y - 1)) \<noteq> Some s)))"
  using value_places [OF assms] by (auto split: option.splits)

lemma allocate_never_fails': "sorter srt \<Longrightarrow> allocate srt new_allocator g \<noteq> Some (st, Inl e)"
proof
  assume s: "sorter srt" and a: "allocate srt new_allocator g = Some (st, Inl e)"
  show False by (rule allocate_result [OF a]) (use sorter.no_unplaced [OF s] in auto)
qed

section \<open>Low register pressure\<close>

definition live_at :: "graph \<Rightarrow> nat \<Rightarrow> nat set" where
  "live_at g p = {a. a \<le> p \<and> a < g_size g \<and> p < li_end (walk_input g ! a)}"

lemma live_at_finite: "finite (live_at g p)"
  by (rule finite_subset [of _ "{..p}"]) (auto simp: live_at_def)

lemma card_reg_class: "14 \<le> card (reg_class fl)"
  by (simp add: reg_class_def allocatable_gprs_def allocatable_xmms_def)

definition low_inv :: "graph \<Rightarrow> nat \<Rightarrow> allocator \<Rightarrow> bool" where
  "low_inv g k st \<longleftrightarrow> walk_inv (walk_input g) k st \<and> length (al_active st) \<le> 14
     \<and> sorted (map (\<lambda>a. li_end (al_intervals st ! a)) (al_active st))
     \<and> (\<forall>a < k. li_assigned_reg (al_intervals st ! a) \<noteq> None) \<and> ar_spills (al_result st) = []"

lemma free_below_14:
  assumes "length act < 14"
  shows "\<exists>r. pick_free_reg ivs act iv = Some r"
proof (rule ccontr)
  assume "\<nexists>r. pick_free_reg ivs act iv = Some r"
  then have none: "pick_free_reg ivs act iv = None" by simp
  have "r \<in> (\<lambda>a. the (li_assigned_reg (ivs ! a))) ` set act" if r: "r \<in> reg_class (li_is_float iv)" for r
  proof -
    obtain a where "a \<in> set act" "li_assigned_reg (ivs ! a) = Some r" using pick_free_None [OF none r] by blast
    then show ?thesis by (intro image_eqI [of _ _ a]) simp_all
  qed
  then have "reg_class (li_is_float iv) \<subseteq> (\<lambda>a. the (li_assigned_reg (ivs ! a))) ` set act" by blast
  then have "card (reg_class (li_is_float iv)) \<le> card (set act)"
    using card_image_le card_mono finite_imageI finite_set le_trans by meson
  then show False using card_length [of act] card_reg_class [of "li_is_float iv"] assms by linarith
qed

context sorter
begin

lemma expire_low:
  assumes low: "low_inv g k st" and k: "k < g_size g" and p: "card (live_at g k) \<le> 14"
  shows "length (expire_active srt (al_intervals st) k (al_active st)) < 14"
proof -
  note inv = low [unfolded low_inv_def, THEN conjunct1]
  have ln: "length (walk_input g) = g_size g" using fresh_walk_input [of g] by (simp add: fresh_intervals_def)
  note fld = walk_inv_fields(3) [OF inv, unfolded ln]
  let ?act = "al_active st"
  note ex = expire_props [OF walk_invD(2) [OF inv], where ivs = "al_intervals st" and pos = k]
  show ?thesis
  proof (cases "length (expire_active srt (al_intervals st) k ?act) < length ?act")
    case True
    then show ?thesis using low by (simp add: low_inv_def)
  next
    case False
    have lt: "a < k" if "a \<in> set ?act" for a using reg_invD(1) [OF walk_invD(3) [OF inv]] that by auto
    have "k < li_end (al_intervals st ! a)" if a: "a \<in> set ?act" for a
    proof -
      obtain b bs where act: "?act = b # bs" using a by (cases ?act) auto
      then have "li_end (al_intervals st ! b) \<le> li_end (al_intervals st ! a)" using low a by (auto simp: low_inv_def)
      then show ?thesis using ex(5) False act by simp
    qed
    then have "a \<in> live_at g k" if "a \<in> set ?act" for a
      using lt [OF that] that k fld [of a] by (fastforce simp: live_at_def)
    moreover have "k \<in> live_at g k" using fresh_walk_input [of g] k by (simp add: live_at_def fresh_intervals_def)
    ultimately have "insert k (set ?act) \<subseteq> live_at g k" by blast
    then have "card (insert k (set ?act)) \<le> 14" by (rule le_trans [OF card_mono [OF live_at_finite] p])
    moreover have "k \<notin> set ?act" using lt by blast
    ultimately have "length ?act < 14" using walk_invD(2) [OF inv] by (simp add: distinct_card)
    moreover have "length (expire_active srt (al_intervals st) k ?act) \<le> length ?act"
      using card_mono [OF finite_set ex(1)] unfolding distinct_card [OF ex(2)] distinct_card [OF walk_invD(2) [OF inv]] .
    ultimately show ?thesis by simp
  qed
qed

lemma walk_step_low:
  assumes low: "low_inv g k st" and k: "k < g_size g" and p: "card (live_at g k) \<le> 14"
  shows "\<exists>st'. walk_step srt k st = Some st' \<and> low_inv g (Suc k) st'"
proof -
  note inv = low [unfolded low_inv_def, THEN conjunct1]
  have ln: "length (walk_input g) = g_size g" using fresh_walk_input [of g] by (simp add: fresh_intervals_def)
  define ivs where "ivs = al_intervals st"
  have st: "li_start (ivs ! k) = k"
    using walk_inv_fields(2) [OF inv, of k] fresh_walk_input [of g] k ln by (simp add: ivs_def fresh_intervals_def)
  define act where "act = expire_active srt ivs k (al_active st)"
  have l: "length act < 14" using expire_low [OF low k p] by (simp add: act_def ivs_def)
  obtain r where r: "pick_free_reg ivs act (ivs ! k) = Some r" using free_below_14 [OF l] by blast
  define ivs' where "ivs' = ivs[k := (ivs ! k)\<lparr>li_assigned_reg := Some r\<rparr>]"
  have kl: "k < length ivs" using walk_inv_length [OF inv] k ln by (simp add: ivs_def)
  have e: "li_end (ivs' ! a) = li_end (ivs ! a)" for a using kl by (simp add: ivs'_def nth_list_update)
  have "sorted (map (\<lambda>a. li_end (ivs' ! a)) act)"
    using expire_props(4) [OF walk_invD(2) [OF inv]] by (simp add: e act_def)
  then obtain act' where act': "insert_active ivs' act k = Some act'" "sorted (map (\<lambda>a. li_end (ivs' ! a)) act')"
    using insert_active_sorted by blast
  let ?st = "st\<lparr>al_intervals := ivs', al_active := act'\<rparr>"
  have step: "walk_step srt k st = Some ?st"
    using r act'(1) by (simp add: walk_step_def Let_def st [unfolded ivs_def] act_def ivs_def ivs'_def)
  have "walk_inv (walk_input g) (Suc k) ?st"
    using walk_step_inv [OF inv _ walk_starts step] k ln by simp
  moreover have "length act' \<le> 14" using insert_active_set(3) [OF act'(1)] l by simp
  moreover have "\<forall>a < Suc k. li_assigned_reg (ivs' ! a) \<noteq> None"
    using low kl by (auto simp: low_inv_def ivs'_def ivs_def nth_list_update less_Suc_eq)
  ultimately show ?thesis using step act'(2) low by (simp add: low_inv_def)
qed

lemma walk_loop_low:
  assumes p: "\<And>p. p < g_size g \<Longrightarrow> card (live_at g p) \<le> 14"
  shows "low_inv g k st \<Longrightarrow> k + m \<le> g_size g \<Longrightarrow> \<exists>st'. walk_loop srt [k..<k + m] st = Some st' \<and> low_inv g (k + m) st'"
proof (induction m arbitrary: k st)
  case (Suc m)
  obtain st1 where 1: "walk_step srt k st = Some st1" "low_inv g (Suc k) st1"
    using walk_step_low [OF Suc.prems(1) _ p] Suc.prems(2) by auto
  have "[k..<k + Suc m] = k # [Suc k..<Suc k + m]" by (simp add: upt_conv_Cons)
  then show ?case using Suc.IH [OF 1(2)] Suc.prems(2) 1(1) by simp
qed simp

lemma low_start: "low_inv g 0 (new_allocator\<lparr>al_intervals := walk_input g\<rparr>)"
  using walk_inv_start [of g] by (simp add: low_inv_def new_allocator_def empty_result_def)

end

lemma allocate_returns:
  assumes "walk_loop srt [0..<g_size g] (new_allocator\<lparr>al_intervals := walk_input g\<rparr>) = Some stw"
  shows "\<exists>st r. allocate srt new_allocator g = Some (st, r)"
proof -
  have len: "length (walk_input g) = g_size g" using fresh_walk_input by (simp add: fresh_intervals_def)
  obtain r where "walk_intervals srt (new_allocator\<lparr>al_intervals := walk_input g\<rparr>) = Some (stw, r)"
    by (simp add: walk_intervals_def len assms)
  then show ?thesis
    by (cases r) (simp_all add: allocate_def extend_eq Let_def sort_intervals_id [OF fresh_walk_input])
qed

lemma low_pressure:
  assumes "sorter srt" "\<And>p. p < g_size g \<Longrightarrow> card (live_at g p) \<le> 14"
  shows "\<exists>st res. allocate srt new_allocator g = Some (st, Inr res) \<and> ar_spills res = [] \<and> ar_frame_size res = 0 \<and> ar_spill_slots res = []
    \<and> (\<forall>x. in_graph g x \<longrightarrow> li_assigned_reg (ar_intervals res ! (x - 1)) \<noteq> None)"
proof -
  obtain stw where w: "walk_loop srt [0..<g_size g] (new_allocator\<lparr>al_intervals := walk_input g\<rparr>) = Some stw" "low_inv g (g_size g) stw"
    using sorter.walk_loop_low [OF assms sorter.low_start [OF assms(1)], of "g_size g"] by auto
  obtain st r where a: "allocate srt new_allocator g = Some (st, r)" using allocate_returns [OF w(1)] by blast
  then obtain res where r: "r = Inr res" using allocate_never_fails' [OF assms(1)] by (cases r) auto
  note a = a [unfolded r]
  obtain stw' slots e where R: "walk_inv (walk_input g) (g_size g) stw'"
    "number_slots (al_intervals stw') 0 = (ar_intervals res, slots, e)"
    "ar_frame_size res = (if e mod 16 \<noteq> 0 then e + (16 - e mod 16) else e)" "ar_spills res = ar_spills (al_result stw')" "ar_spill_slots res = slots"
    "walk_loop srt [0..<g_size g] (new_allocator\<lparr>al_intervals := walk_input g\<rparr>) = Some stw'"
    by (rule sorter.allocate_final [OF assms(1) a])
  have eq: "stw' = stw" using R(6) w(1) by simp
  have len: "length (al_intervals stw) = g_size g"
    using walk_inv_length [OF R(1)] fresh_walk_input [of g] eq by (simp add: fresh_intervals_def)
  have reg: "li_assigned_reg (al_intervals stw ! i) \<noteq> None" "li_spill_slot (al_intervals stw ! i) \<noteq> Some 0" if "i < g_size g" for i
    using w(2) walk_invD(4) [OF R(1) that] that unfolding eq by (auto simp: low_inv_def placed_def)
  have "spilled (al_intervals stw) = 0"
    using reg(2) len by (auto simp: spilled_def filter_empty_conv in_set_conv_nth)
  then have sl: "slots = []" using number_slots_length [OF R(2)] eq by simp
  have "spilled (al_intervals stw) = 0"
    using reg(2) len by (auto simp: spilled_def filter_empty_conv in_set_conv_nth)
  then have "e = 0" "\<And>i. i < g_size g \<Longrightarrow> ar_intervals res ! i = al_intervals stw ! i"
    using number_slots_props [OF R(2)] reg(2) len unfolding eq by auto
  then show ?thesis using a R(3,4,5) sl w(2) reg(1) unfolding eq by (auto simp: low_inv_def in_graph_def)
qed

text \<open>C14: when at most 14 live ranges overlap anywhere, the allocation completes without undefined behaviour, gives
  every value a register, spills nothing and needs no frame.\<close>

theorem low_pressure_no_spill:
  assumes "sorter srt" "\<And>p. p < g_size g \<Longrightarrow> card (live_at g p) \<le> 14"
  shows "\<exists>st res. allocate srt new_allocator g = Some (st, Inr res) \<and> ar_spills res = [] \<and> ar_frame_size res = 0
    \<and> (\<forall>x. in_graph g x \<longrightarrow> li_assigned_reg (ar_intervals res ! (x - 1)) \<noteq> None)"
  using low_pressure [OF assms] by blast

section \<open>One allocation per allocator\<close>

lemma walk_step_active:
  assumes "walk_step srt k st = Some st'"
  shows "al_active st' \<noteq> []"
proof -
  have ins: "act' \<noteq> []" if "insert_active ivs act i = Some act'" for ivs act i act'
    using insert_active_set(1) [OF that] by auto
  define act where "act = expire_active srt (al_intervals st) (li_start (al_intervals st ! k)) (al_active st)"
  have "act \<noteq> []" if "pick_free_reg (al_intervals st) act (al_intervals st ! k) = None"
    using pick_free_None [OF that] card_reg_class [of "li_is_float (al_intervals st ! k)"] by fastforce
  then show ?thesis using assms ins
    by (auto simp: walk_step_def Let_def act_def [symmetric] split: option.split_asm)
qed

lemma walk_loop_active: "is \<noteq> [] \<Longrightarrow> walk_loop srt is st = Some st' \<Longrightarrow> al_active st' \<noteq> []"
proof (induction "is" arbitrary: st)
  case (Cons i "is")
  then show ?case using walk_step_active by (cases "is") (auto simp: bind_eq_Some_conv)
qed simp

text \<open>An allocator that has allocated a non-empty graph is left with pointers to the intervals it gave away;
  using it for another non-empty graph is undefined.\<close>

lemma allocator_not_reusable:
  assumes "sorter srt" "allocate srt new_allocator g = Some (st, Inr res)" "g_size g \<noteq> 0" "g_size g' \<noteq> 0"
  shows "allocate srt st g' = None"
proof -
  obtain stw where w: "walk_loop srt [0..<g_size g] (new_allocator\<lparr>al_intervals := walk_input g\<rparr>) = Some stw"
    "al_active st = al_active stw"
    using allocate_result [OF assms(2)] by metis
  have "al_active stw \<noteq> []" by (rule walk_loop_active [OF _ w(1)]) (use assms(3) in simp)
  then show ?thesis using w(2) assms(4) by (simp add: allocate_def)
qed

end
