(* ===== verification/Lsra_Examples.thy ===== *)
theory Lsra_Examples
  imports Lsra_Correct
begin

text \<open>
  Concrete allocations: the witnesses of the allocator's properties, and a program with fifteen values
  live at once on which the spill path inserts into an unsorted list.
\<close>

definition allocated_regs :: "graph \<Rightarrow> x86_reg option list option" where
  "allocated_regs g =
     (case allocate sort_key new_allocator g of
        Some (st, Inr res) \<Rightarrow> Some (map li_assigned_reg (ar_intervals res)) | _ \<Rightarrow> None)"

lemma allocated_regsD:
  assumes "allocated_regs g = Some rs"
  obtains st res where "allocate sort_key new_allocator g = Some (st, Inr res)" "map li_assigned_reg (ar_intervals res) = rs"
  using assms by (auto simp: allocated_regs_def split: option.split_asm prod.split_asm sum.split_asm)

lemma map_nth_eq: "map f xs = ys \<Longrightarrow> i < length ys \<Longrightarrow> f (xs ! i) = ys ! i"
  by auto

lemma ex_fun_regs: "allocated_regs ex_fun = Some (map Some [RAX, RAX, RCX, RDX, RSI, RSI])"
  by code_simp

theorem registers_not_clobbered_witness:
  "\<exists>st res. allocate sort_key new_allocator ex_fun = Some (st, Inr res)
     \<and> li_end (ar_intervals res ! 0) \<le> li_start (ar_intervals res ! 1)"
proof -
  obtain st res where a: "allocate sort_key new_allocator ex_fun = Some (st, Inr res)"
    and m: "map li_assigned_reg (ar_intervals res) = map Some [RAX, RAX, RCX, RDX, RSI, RSI]"
    by (rule allocated_regsD [OF ex_fun_regs])
  have "li_assigned_reg (ar_intervals res ! (1 - 1)) = Some RAX" "li_assigned_reg (ar_intervals res ! (2 - 1)) = Some RAX"
    using map_nth_eq [OF m, of 0] map_nth_eq [OF m, of 1] by simp_all
  then show ?thesis using registers_not_clobbered [OF std_sort.sorter_axioms a, of 1 2 RAX] a by (auto simp: in_ex_fun)
qed

theorem every_value_has_a_place_witness:
  "\<exists>st res. allocate sort_key new_allocator ex_fun = Some (st, Inr res) \<and> 16 dvd unat (ar_frame_size res)"
proof -
  obtain st res where a: "allocate sort_key new_allocator ex_fun = Some (st, Inr res)"
    by (rule allocated_regsD [OF ex_fun_regs])
  have "g_size ex_fun < 2 ^ 29 - 1" by (simp add: ex_fun_eq g_size_def)
  from every_value_has_a_place [OF std_sort.sorter_axioms a this, of 1] a show ?thesis by (auto simp: in_ex_fun)
qed

theorem low_pressure_no_spill_witness:
  "\<exists>st res. allocate sort_key new_allocator ex_fun = Some (st, Inr res) \<and> ar_spills res = []"
proof -
  have "card (live_at ex_fun p) \<le> 14" for p
  proof -
    have "live_at ex_fun p \<subseteq> {..<6}" by (auto simp: live_at_def ex_fun_eq g_size_def)
    then have "card (live_at ex_fun p) \<le> card {..<6 :: nat}" by (rule card_mono [rotated]) simp
    then show ?thesis by simp
  qed
  from low_pressure_no_spill [OF std_sort.sorter_axioms this] show ?thesis by blast
qed

theorem allocator_not_reusable_witness:
  "\<exists>st res. allocate sort_key new_allocator ex_fun = Some (st, Inr res) \<and> allocate sort_key st ex_fun = None"
proof -
  obtain st res where a: "allocate sort_key new_allocator ex_fun = Some (st, Inr res)"
    by (rule allocated_regsD [OF ex_fun_regs])
  have "g_size ex_fun \<noteq> 0" by (simp add: ex_fun_eq g_size_def)
  from allocator_not_reusable [OF std_sort.sorter_axioms a this this] a show ?thesis by blast
qed

text \<open>A loop that doubles a constant defined before it.\<close>

definition ex_loop :: graph where
  "ex_loop = snd (create_with NK_Return [4] 5 0 (snd (create_with NK_Jump [] 3 0 (snd (gb_add 2 2
     (snd (create_with NK_Loop [] 1 0 (snd (create_const_int 7 (snd (gb_start empty_graph)))))))))))"

lemma ex_loop_regs: "allocated_regs ex_loop = Some (map Some [RAX, RAX, RCX, RCX, RDX, RDX])"
  by code_simp

lemma ex_loop_blocks:
  "map_option (\<lambda>bs. (num_blocks bs, bb_is_loop_header (bs_blocks bs ! 1), loop_range bs 1)) (build_block_structure ex_loop) = Some (3, True, 2, 5)"
  by code_simp

lemma ex_loop_graph: "g_size ex_loop = 6" "data_inputs ex_loop 4 = [2, 2]"
  by code_simp+

theorem loop_values_survive_witness:
  "\<exists>st res. allocate sort_key new_allocator ex_loop = Some (st, Inr res) \<and> li_assigned_reg (ar_intervals res ! 4) \<noteq> Some RAX"
proof -
  obtain st res where a: "allocate sort_key new_allocator ex_loop = Some (st, Inr res)"
    and m: "map li_assigned_reg (ar_intervals res) = map Some [RAX, RAX, RCX, RCX, RDX, RDX]"
    by (rule allocated_regsD [OF ex_loop_regs])
  obtain bs where bs: "build_block_structure ex_loop = Some bs" "1 < num_blocks bs" "bb_is_loop_header (bs_blocks bs ! 1)"
    "loop_range bs 1 = (2, 5)"
    using ex_loop_blocks by auto
  have r: "li_assigned_reg (ar_intervals res ! (2 - 1)) = Some RAX" using map_nth_eq [OF m, of 1] by simp
  have "in_graph ex_loop 2" "in_graph ex_loop 4" "in_graph ex_loop 5" by (simp_all add: in_graph_def ex_loop_graph)
  then have "li_assigned_reg (ar_intervals res ! (5 - 1)) \<noteq> Some RAX"
    using loop_values_survive [OF std_sort.sorter_axioms a bs(1-3), of 2 4 RAX 5] r by (simp add: ex_loop_graph bs(4) [simplified])
  then show ?thesis using a by auto
qed

text \<open>Fifteen constants, the first with the fewest uses and the fifteenth needed longer than the second and third.\<close>

definition ex_pressure :: graph where
  "ex_pressure =
     fold (\<lambda>(a, b) g. snd (gb_add a b g))
       [(1, 15), (2, 3), (2, 3), (4, 15), (4, 5), (5, 6), (6, 7), (7, 8), (8, 9), (9, 10), (10, 11), (11, 12),
        (12, 13), (13, 14), (14, 14)]
       (fold (\<lambda>n g. snd (create_const_int n g)) (map word_of_nat [0..<15]) empty_graph)"

text \<open>Spilling can break the sorting of the active list: on this program the allocator calls \<^verbatim>\<open>std::lower_bound\<close> on a
  list that is not partitioned, which is undefined.\<close>

lemma spilling_unsorts_active_list:
  "allocate sort_key new_allocator ex_pressure = None"
  by code_simp

end
