(* ===== verification/Jvm_Opcode.thy ===== *)
theory Jvm_Opcode
  imports Prelude
begin

text \<open>
  \<^verbatim>\<open>jvm/Opcode.hpp\<close> and \<^verbatim>\<open>jvm/Opcode.cpp\<close>: the opcodes of the Java virtual machine, the table of
  their properties and the decoder of one instruction.

  \<^verbatim>\<open>JvmOpcode\<close> has underlying type \<^verbatim>\<open>uint16_t\<close> and the decoder casts any byte to it, so opcodes are
  16-bit words, one abbreviation per enumerator (prefix \<open>BC_\<close>). The bytes handed to the decoder are
  a list. The fields \<open>operand_i64\<close>, \<open>operand_r8\<close> and \<open>operand_r4\<close> of the result, which nothing ever
  writes or reads, are left out. The pointer \<open>switch_data\<close> is an offset into the bytes. \<^verbatim>\<open>memcpy\<close> of a
  word is little-endian, as on the x86-64 hosts the compiler targets.
\<close>

section \<open>The enumeration\<close>

type_synonym jvm_opcode = u16

abbreviation BC_Nop :: jvm_opcode where "BC_Nop \<equiv> 0"
abbreviation BC_AconstNull :: jvm_opcode where "BC_AconstNull \<equiv> 1"
abbreviation BC_IconstM1 :: jvm_opcode where "BC_IconstM1 \<equiv> 2"
abbreviation BC_Iconst0 :: jvm_opcode where "BC_Iconst0 \<equiv> 3"
abbreviation BC_Iconst1 :: jvm_opcode where "BC_Iconst1 \<equiv> 4"
abbreviation BC_Iconst2 :: jvm_opcode where "BC_Iconst2 \<equiv> 5"
abbreviation BC_Iconst3 :: jvm_opcode where "BC_Iconst3 \<equiv> 6"
abbreviation BC_Iconst4 :: jvm_opcode where "BC_Iconst4 \<equiv> 7"
abbreviation BC_Iconst5 :: jvm_opcode where "BC_Iconst5 \<equiv> 8"
abbreviation BC_Lconst0 :: jvm_opcode where "BC_Lconst0 \<equiv> 9"
abbreviation BC_Lconst1 :: jvm_opcode where "BC_Lconst1 \<equiv> 0xa"
abbreviation BC_Fconst0 :: jvm_opcode where "BC_Fconst0 \<equiv> 0xb"
abbreviation BC_Fconst1 :: jvm_opcode where "BC_Fconst1 \<equiv> 0xc"
abbreviation BC_Fconst2 :: jvm_opcode where "BC_Fconst2 \<equiv> 0xd"
abbreviation BC_Dconst0 :: jvm_opcode where "BC_Dconst0 \<equiv> 0xe"
abbreviation BC_Dconst1 :: jvm_opcode where "BC_Dconst1 \<equiv> 0xf"
abbreviation BC_Bipush :: jvm_opcode where "BC_Bipush \<equiv> 0x10"
abbreviation BC_Sipush :: jvm_opcode where "BC_Sipush \<equiv> 0x11"
abbreviation BC_Ldc :: jvm_opcode where "BC_Ldc \<equiv> 0x12"
abbreviation BC_LdcW :: jvm_opcode where "BC_LdcW \<equiv> 0x13"
abbreviation BC_Ldc2W :: jvm_opcode where "BC_Ldc2W \<equiv> 0x14"
abbreviation BC_Iload :: jvm_opcode where "BC_Iload \<equiv> 0x15"
abbreviation BC_Lload :: jvm_opcode where "BC_Lload \<equiv> 0x16"
abbreviation BC_Fload :: jvm_opcode where "BC_Fload \<equiv> 0x17"
abbreviation BC_Dload :: jvm_opcode where "BC_Dload \<equiv> 0x18"
abbreviation BC_Aload :: jvm_opcode where "BC_Aload \<equiv> 0x19"
abbreviation BC_Iload0 :: jvm_opcode where "BC_Iload0 \<equiv> 0x1a"
abbreviation BC_Iload1 :: jvm_opcode where "BC_Iload1 \<equiv> 0x1b"
abbreviation BC_Iload2 :: jvm_opcode where "BC_Iload2 \<equiv> 0x1c"
abbreviation BC_Iload3 :: jvm_opcode where "BC_Iload3 \<equiv> 0x1d"
abbreviation BC_Lload0 :: jvm_opcode where "BC_Lload0 \<equiv> 0x1e"
abbreviation BC_Lload1 :: jvm_opcode where "BC_Lload1 \<equiv> 0x1f"
abbreviation BC_Lload2 :: jvm_opcode where "BC_Lload2 \<equiv> 0x20"
abbreviation BC_Lload3 :: jvm_opcode where "BC_Lload3 \<equiv> 0x21"
abbreviation BC_Fload0 :: jvm_opcode where "BC_Fload0 \<equiv> 0x22"
abbreviation BC_Fload1 :: jvm_opcode where "BC_Fload1 \<equiv> 0x23"
abbreviation BC_Fload2 :: jvm_opcode where "BC_Fload2 \<equiv> 0x24"
abbreviation BC_Fload3 :: jvm_opcode where "BC_Fload3 \<equiv> 0x25"
abbreviation BC_Dload0 :: jvm_opcode where "BC_Dload0 \<equiv> 0x26"
abbreviation BC_Dload1 :: jvm_opcode where "BC_Dload1 \<equiv> 0x27"
abbreviation BC_Dload2 :: jvm_opcode where "BC_Dload2 \<equiv> 0x28"
abbreviation BC_Dload3 :: jvm_opcode where "BC_Dload3 \<equiv> 0x29"
abbreviation BC_Aload0 :: jvm_opcode where "BC_Aload0 \<equiv> 0x2a"
abbreviation BC_Aload1 :: jvm_opcode where "BC_Aload1 \<equiv> 0x2b"
abbreviation BC_Aload2 :: jvm_opcode where "BC_Aload2 \<equiv> 0x2c"
abbreviation BC_Aload3 :: jvm_opcode where "BC_Aload3 \<equiv> 0x2d"
abbreviation BC_Iaload :: jvm_opcode where "BC_Iaload \<equiv> 0x2e"
abbreviation BC_Laload :: jvm_opcode where "BC_Laload \<equiv> 0x2f"
abbreviation BC_Faload :: jvm_opcode where "BC_Faload \<equiv> 0x30"
abbreviation BC_Daload :: jvm_opcode where "BC_Daload \<equiv> 0x31"
abbreviation BC_Aaload :: jvm_opcode where "BC_Aaload \<equiv> 0x32"
abbreviation BC_Baload :: jvm_opcode where "BC_Baload \<equiv> 0x33"
abbreviation BC_Caload :: jvm_opcode where "BC_Caload \<equiv> 0x34"
abbreviation BC_Saload :: jvm_opcode where "BC_Saload \<equiv> 0x35"
abbreviation BC_Istore :: jvm_opcode where "BC_Istore \<equiv> 0x36"
abbreviation BC_Lstore :: jvm_opcode where "BC_Lstore \<equiv> 0x37"
abbreviation BC_Fstore :: jvm_opcode where "BC_Fstore \<equiv> 0x38"
abbreviation BC_Dstore :: jvm_opcode where "BC_Dstore \<equiv> 0x39"
abbreviation BC_Astore :: jvm_opcode where "BC_Astore \<equiv> 0x3a"
abbreviation BC_Istore0 :: jvm_opcode where "BC_Istore0 \<equiv> 0x3b"
abbreviation BC_Istore1 :: jvm_opcode where "BC_Istore1 \<equiv> 0x3c"
abbreviation BC_Istore2 :: jvm_opcode where "BC_Istore2 \<equiv> 0x3d"
abbreviation BC_Istore3 :: jvm_opcode where "BC_Istore3 \<equiv> 0x3e"
abbreviation BC_Lstore0 :: jvm_opcode where "BC_Lstore0 \<equiv> 0x3f"
abbreviation BC_Lstore1 :: jvm_opcode where "BC_Lstore1 \<equiv> 0x40"
abbreviation BC_Lstore2 :: jvm_opcode where "BC_Lstore2 \<equiv> 0x41"
abbreviation BC_Lstore3 :: jvm_opcode where "BC_Lstore3 \<equiv> 0x42"
abbreviation BC_Fstore0 :: jvm_opcode where "BC_Fstore0 \<equiv> 0x43"
abbreviation BC_Fstore1 :: jvm_opcode where "BC_Fstore1 \<equiv> 0x44"
abbreviation BC_Fstore2 :: jvm_opcode where "BC_Fstore2 \<equiv> 0x45"
abbreviation BC_Fstore3 :: jvm_opcode where "BC_Fstore3 \<equiv> 0x46"
abbreviation BC_Dstore0 :: jvm_opcode where "BC_Dstore0 \<equiv> 0x47"
abbreviation BC_Dstore1 :: jvm_opcode where "BC_Dstore1 \<equiv> 0x48"
abbreviation BC_Dstore2 :: jvm_opcode where "BC_Dstore2 \<equiv> 0x49"
abbreviation BC_Dstore3 :: jvm_opcode where "BC_Dstore3 \<equiv> 0x4a"
abbreviation BC_Astore0 :: jvm_opcode where "BC_Astore0 \<equiv> 0x4b"
abbreviation BC_Astore1 :: jvm_opcode where "BC_Astore1 \<equiv> 0x4c"
abbreviation BC_Astore2 :: jvm_opcode where "BC_Astore2 \<equiv> 0x4d"
abbreviation BC_Astore3 :: jvm_opcode where "BC_Astore3 \<equiv> 0x4e"
abbreviation BC_Iastore :: jvm_opcode where "BC_Iastore \<equiv> 0x4f"
abbreviation BC_Lastore :: jvm_opcode where "BC_Lastore \<equiv> 0x50"
abbreviation BC_Fastore :: jvm_opcode where "BC_Fastore \<equiv> 0x51"
abbreviation BC_Dastore :: jvm_opcode where "BC_Dastore \<equiv> 0x52"
abbreviation BC_Aastore :: jvm_opcode where "BC_Aastore \<equiv> 0x53"
abbreviation BC_Bastore :: jvm_opcode where "BC_Bastore \<equiv> 0x54"
abbreviation BC_Castore :: jvm_opcode where "BC_Castore \<equiv> 0x55"
abbreviation BC_Sastore :: jvm_opcode where "BC_Sastore \<equiv> 0x56"
abbreviation BC_Pop :: jvm_opcode where "BC_Pop \<equiv> 0x57"
abbreviation BC_Pop2 :: jvm_opcode where "BC_Pop2 \<equiv> 0x58"
abbreviation BC_Dup :: jvm_opcode where "BC_Dup \<equiv> 0x59"
abbreviation BC_DupX1 :: jvm_opcode where "BC_DupX1 \<equiv> 0x5a"
abbreviation BC_DupX2 :: jvm_opcode where "BC_DupX2 \<equiv> 0x5b"
abbreviation BC_Dup2 :: jvm_opcode where "BC_Dup2 \<equiv> 0x5c"
abbreviation BC_Dup2X1 :: jvm_opcode where "BC_Dup2X1 \<equiv> 0x5d"
abbreviation BC_Dup2X2 :: jvm_opcode where "BC_Dup2X2 \<equiv> 0x5e"
abbreviation BC_Swap :: jvm_opcode where "BC_Swap \<equiv> 0x5f"
abbreviation BC_Iadd :: jvm_opcode where "BC_Iadd \<equiv> 0x60"
abbreviation BC_Ladd :: jvm_opcode where "BC_Ladd \<equiv> 0x61"
abbreviation BC_Fadd :: jvm_opcode where "BC_Fadd \<equiv> 0x62"
abbreviation BC_Dadd :: jvm_opcode where "BC_Dadd \<equiv> 0x63"
abbreviation BC_Isub :: jvm_opcode where "BC_Isub \<equiv> 0x64"
abbreviation BC_Lsub :: jvm_opcode where "BC_Lsub \<equiv> 0x65"
abbreviation BC_Fsub :: jvm_opcode where "BC_Fsub \<equiv> 0x66"
abbreviation BC_Dsub :: jvm_opcode where "BC_Dsub \<equiv> 0x67"
abbreviation BC_Imul :: jvm_opcode where "BC_Imul \<equiv> 0x68"
abbreviation BC_Lmul :: jvm_opcode where "BC_Lmul \<equiv> 0x69"
abbreviation BC_Fmul :: jvm_opcode where "BC_Fmul \<equiv> 0x6a"
abbreviation BC_Dmul :: jvm_opcode where "BC_Dmul \<equiv> 0x6b"
abbreviation BC_Idiv :: jvm_opcode where "BC_Idiv \<equiv> 0x6c"
abbreviation BC_Ldiv :: jvm_opcode where "BC_Ldiv \<equiv> 0x6d"
abbreviation BC_Fdiv :: jvm_opcode where "BC_Fdiv \<equiv> 0x6e"
abbreviation BC_Ddiv :: jvm_opcode where "BC_Ddiv \<equiv> 0x6f"
abbreviation BC_Irem :: jvm_opcode where "BC_Irem \<equiv> 0x70"
abbreviation BC_Lrem :: jvm_opcode where "BC_Lrem \<equiv> 0x71"
abbreviation BC_Frem :: jvm_opcode where "BC_Frem \<equiv> 0x72"
abbreviation BC_Drem :: jvm_opcode where "BC_Drem \<equiv> 0x73"
abbreviation BC_Ineg :: jvm_opcode where "BC_Ineg \<equiv> 0x74"
abbreviation BC_Lneg :: jvm_opcode where "BC_Lneg \<equiv> 0x75"
abbreviation BC_Fneg :: jvm_opcode where "BC_Fneg \<equiv> 0x76"
abbreviation BC_Dneg :: jvm_opcode where "BC_Dneg \<equiv> 0x77"
abbreviation BC_Ishl :: jvm_opcode where "BC_Ishl \<equiv> 0x78"
abbreviation BC_Lshl :: jvm_opcode where "BC_Lshl \<equiv> 0x79"
abbreviation BC_Ishr :: jvm_opcode where "BC_Ishr \<equiv> 0x7a"
abbreviation BC_Lshr :: jvm_opcode where "BC_Lshr \<equiv> 0x7b"
abbreviation BC_Iushr :: jvm_opcode where "BC_Iushr \<equiv> 0x7c"
abbreviation BC_Lushr :: jvm_opcode where "BC_Lushr \<equiv> 0x7d"
abbreviation BC_Iand :: jvm_opcode where "BC_Iand \<equiv> 0x7e"
abbreviation BC_Land :: jvm_opcode where "BC_Land \<equiv> 0x7f"
abbreviation BC_Ior :: jvm_opcode where "BC_Ior \<equiv> 0x80"
abbreviation BC_Lor :: jvm_opcode where "BC_Lor \<equiv> 0x81"
abbreviation BC_Ixor :: jvm_opcode where "BC_Ixor \<equiv> 0x82"
abbreviation BC_Lxor :: jvm_opcode where "BC_Lxor \<equiv> 0x83"
abbreviation BC_Iinc :: jvm_opcode where "BC_Iinc \<equiv> 0x84"
abbreviation BC_I2l :: jvm_opcode where "BC_I2l \<equiv> 0x85"
abbreviation BC_I2f :: jvm_opcode where "BC_I2f \<equiv> 0x86"
abbreviation BC_I2d :: jvm_opcode where "BC_I2d \<equiv> 0x87"
abbreviation BC_L2i :: jvm_opcode where "BC_L2i \<equiv> 0x88"
abbreviation BC_L2f :: jvm_opcode where "BC_L2f \<equiv> 0x89"
abbreviation BC_L2d :: jvm_opcode where "BC_L2d \<equiv> 0x8a"
abbreviation BC_F2i :: jvm_opcode where "BC_F2i \<equiv> 0x8b"
abbreviation BC_F2l :: jvm_opcode where "BC_F2l \<equiv> 0x8c"
abbreviation BC_F2d :: jvm_opcode where "BC_F2d \<equiv> 0x8d"
abbreviation BC_D2i :: jvm_opcode where "BC_D2i \<equiv> 0x8e"
abbreviation BC_D2l :: jvm_opcode where "BC_D2l \<equiv> 0x8f"
abbreviation BC_D2f :: jvm_opcode where "BC_D2f \<equiv> 0x90"
abbreviation BC_I2b :: jvm_opcode where "BC_I2b \<equiv> 0x91"
abbreviation BC_I2c :: jvm_opcode where "BC_I2c \<equiv> 0x92"
abbreviation BC_I2s :: jvm_opcode where "BC_I2s \<equiv> 0x93"
abbreviation BC_Lcmp :: jvm_opcode where "BC_Lcmp \<equiv> 0x94"
abbreviation BC_Fcmpl :: jvm_opcode where "BC_Fcmpl \<equiv> 0x95"
abbreviation BC_Fcmpg :: jvm_opcode where "BC_Fcmpg \<equiv> 0x96"
abbreviation BC_Dcmpl :: jvm_opcode where "BC_Dcmpl \<equiv> 0x97"
abbreviation BC_Dcmpg :: jvm_opcode where "BC_Dcmpg \<equiv> 0x98"
abbreviation BC_Ifeq :: jvm_opcode where "BC_Ifeq \<equiv> 0x99"
abbreviation BC_Ifne :: jvm_opcode where "BC_Ifne \<equiv> 0x9a"
abbreviation BC_Iflt :: jvm_opcode where "BC_Iflt \<equiv> 0x9b"
abbreviation BC_Ifge :: jvm_opcode where "BC_Ifge \<equiv> 0x9c"
abbreviation BC_Ifgt :: jvm_opcode where "BC_Ifgt \<equiv> 0x9d"
abbreviation BC_Ifle :: jvm_opcode where "BC_Ifle \<equiv> 0x9e"
abbreviation BC_IfIcmpeq :: jvm_opcode where "BC_IfIcmpeq \<equiv> 0x9f"
abbreviation BC_IfIcmpne :: jvm_opcode where "BC_IfIcmpne \<equiv> 0xa0"
abbreviation BC_IfIcmplt :: jvm_opcode where "BC_IfIcmplt \<equiv> 0xa1"
abbreviation BC_IfIcmpge :: jvm_opcode where "BC_IfIcmpge \<equiv> 0xa2"
abbreviation BC_IfIcmpgt :: jvm_opcode where "BC_IfIcmpgt \<equiv> 0xa3"
abbreviation BC_IfIcmple :: jvm_opcode where "BC_IfIcmple \<equiv> 0xa4"
abbreviation BC_IfAcmpeq :: jvm_opcode where "BC_IfAcmpeq \<equiv> 0xa5"
abbreviation BC_IfAcmpne :: jvm_opcode where "BC_IfAcmpne \<equiv> 0xa6"
abbreviation BC_Goto :: jvm_opcode where "BC_Goto \<equiv> 0xa7"
abbreviation BC_Jsr :: jvm_opcode where "BC_Jsr \<equiv> 0xa8"
abbreviation BC_Ret :: jvm_opcode where "BC_Ret \<equiv> 0xa9"
abbreviation BC_TableSwitch :: jvm_opcode where "BC_TableSwitch \<equiv> 0xaa"
abbreviation BC_LookupSwitch :: jvm_opcode where "BC_LookupSwitch \<equiv> 0xab"
abbreviation BC_Ireturn :: jvm_opcode where "BC_Ireturn \<equiv> 0xac"
abbreviation BC_Lreturn :: jvm_opcode where "BC_Lreturn \<equiv> 0xad"
abbreviation BC_Freturn :: jvm_opcode where "BC_Freturn \<equiv> 0xae"
abbreviation BC_Dreturn :: jvm_opcode where "BC_Dreturn \<equiv> 0xaf"
abbreviation BC_Areturn :: jvm_opcode where "BC_Areturn \<equiv> 0xb0"
abbreviation BC_Return :: jvm_opcode where "BC_Return \<equiv> 0xb1"
abbreviation BC_Getstatic :: jvm_opcode where "BC_Getstatic \<equiv> 0xb2"
abbreviation BC_Putstatic :: jvm_opcode where "BC_Putstatic \<equiv> 0xb3"
abbreviation BC_Getfield :: jvm_opcode where "BC_Getfield \<equiv> 0xb4"
abbreviation BC_Putfield :: jvm_opcode where "BC_Putfield \<equiv> 0xb5"
abbreviation BC_Invokevirtual :: jvm_opcode where "BC_Invokevirtual \<equiv> 0xb6"
abbreviation BC_Invokespecial :: jvm_opcode where "BC_Invokespecial \<equiv> 0xb7"
abbreviation BC_Invokestatic :: jvm_opcode where "BC_Invokestatic \<equiv> 0xb8"
abbreviation BC_Invokeinterface :: jvm_opcode where "BC_Invokeinterface \<equiv> 0xb9"
abbreviation BC_Invokedynamic :: jvm_opcode where "BC_Invokedynamic \<equiv> 0xba"
abbreviation BC_New :: jvm_opcode where "BC_New \<equiv> 0xbb"
abbreviation BC_Newarray :: jvm_opcode where "BC_Newarray \<equiv> 0xbc"
abbreviation BC_Anewarray :: jvm_opcode where "BC_Anewarray \<equiv> 0xbd"
abbreviation BC_Arraylength :: jvm_opcode where "BC_Arraylength \<equiv> 0xbe"
abbreviation BC_Athrow :: jvm_opcode where "BC_Athrow \<equiv> 0xbf"
abbreviation BC_Checkcast :: jvm_opcode where "BC_Checkcast \<equiv> 0xc0"
abbreviation BC_Instanceof :: jvm_opcode where "BC_Instanceof \<equiv> 0xc1"
abbreviation BC_Monitorenter :: jvm_opcode where "BC_Monitorenter \<equiv> 0xc2"
abbreviation BC_Monitorexit :: jvm_opcode where "BC_Monitorexit \<equiv> 0xc3"
abbreviation BC_Wide :: jvm_opcode where "BC_Wide \<equiv> 0xc4"
abbreviation BC_Multianewarray :: jvm_opcode where "BC_Multianewarray \<equiv> 0xc5"
abbreviation BC_Ifnull :: jvm_opcode where "BC_Ifnull \<equiv> 0xc6"
abbreviation BC_Ifnonnull :: jvm_opcode where "BC_Ifnonnull \<equiv> 0xc7"
abbreviation BC_GotoW :: jvm_opcode where "BC_GotoW \<equiv> 0xc8"
abbreviation BC_JsrW :: jvm_opcode where "BC_JsrW \<equiv> 0xc9"
abbreviation BC_Breakpoint :: jvm_opcode where "BC_Breakpoint \<equiv> 0xca"
abbreviation BC_Impdep1 :: jvm_opcode where "BC_Impdep1 \<equiv> 0xfe"
abbreviation BC_Impdep2 :: jvm_opcode where "BC_Impdep2 \<equiv> 0xff"
abbreviation BC_WideIload :: jvm_opcode where "BC_WideIload \<equiv> 0x115"
abbreviation BC_WideFload :: jvm_opcode where "BC_WideFload \<equiv> 0x117"
abbreviation BC_WideAload :: jvm_opcode where "BC_WideAload \<equiv> 0x119"
abbreviation BC_WideLload :: jvm_opcode where "BC_WideLload \<equiv> 0x116"
abbreviation BC_WideDload :: jvm_opcode where "BC_WideDload \<equiv> 0x118"
abbreviation BC_WideIstore :: jvm_opcode where "BC_WideIstore \<equiv> 0x136"
abbreviation BC_WideFstore :: jvm_opcode where "BC_WideFstore \<equiv> 0x138"
abbreviation BC_WideAstore :: jvm_opcode where "BC_WideAstore \<equiv> 0x13a"
abbreviation BC_WideLstore :: jvm_opcode where "BC_WideLstore \<equiv> 0x137"
abbreviation BC_WideDstore :: jvm_opcode where "BC_WideDstore \<equiv> 0x139"
abbreviation BC_WideRet :: jvm_opcode where "BC_WideRet \<equiv> 0x1a9"
abbreviation BC_WideIinc :: jvm_opcode where "BC_WideIinc \<equiv> 0x184"
abbreviation BC_Invalid :: jvm_opcode where "BC_Invalid \<equiv> 0xffff"

text \<open>The one-byte enumerators with their identifiers.\<close>

definition jvm_opcodes_low :: "(jvm_opcode \<times> string) list" where
  "jvm_opcodes_low =
     [(BC_Nop, ''Nop''), (BC_AconstNull, ''AconstNull''), (BC_IconstM1, ''IconstM1''),
      (BC_Iconst0, ''Iconst0''), (BC_Iconst1, ''Iconst1''), (BC_Iconst2, ''Iconst2''),
      (BC_Iconst3, ''Iconst3''), (BC_Iconst4, ''Iconst4''), (BC_Iconst5, ''Iconst5''),
      (BC_Lconst0, ''Lconst0''), (BC_Lconst1, ''Lconst1''), (BC_Fconst0, ''Fconst0''),
      (BC_Fconst1, ''Fconst1''), (BC_Fconst2, ''Fconst2''), (BC_Dconst0, ''Dconst0''),
      (BC_Dconst1, ''Dconst1''), (BC_Bipush, ''Bipush''), (BC_Sipush, ''Sipush''), (BC_Ldc, ''Ldc''),
      (BC_LdcW, ''LdcW''), (BC_Ldc2W, ''Ldc2W''), (BC_Iload, ''Iload''), (BC_Lload, ''Lload''),
      (BC_Fload, ''Fload''), (BC_Dload, ''Dload''), (BC_Aload, ''Aload''), (BC_Iload0, ''Iload0''),
      (BC_Iload1, ''Iload1''), (BC_Iload2, ''Iload2''), (BC_Iload3, ''Iload3''), (BC_Lload0, ''Lload0''),
      (BC_Lload1, ''Lload1''), (BC_Lload2, ''Lload2''), (BC_Lload3, ''Lload3''), (BC_Fload0, ''Fload0''),
      (BC_Fload1, ''Fload1''), (BC_Fload2, ''Fload2''), (BC_Fload3, ''Fload3''), (BC_Dload0, ''Dload0''),
      (BC_Dload1, ''Dload1''), (BC_Dload2, ''Dload2''), (BC_Dload3, ''Dload3''), (BC_Aload0, ''Aload0''),
      (BC_Aload1, ''Aload1''), (BC_Aload2, ''Aload2''), (BC_Aload3, ''Aload3''), (BC_Iaload, ''Iaload''),
      (BC_Laload, ''Laload''), (BC_Faload, ''Faload''), (BC_Daload, ''Daload''), (BC_Aaload, ''Aaload''),
      (BC_Baload, ''Baload''), (BC_Caload, ''Caload''), (BC_Saload, ''Saload''), (BC_Istore, ''Istore''),
      (BC_Lstore, ''Lstore''), (BC_Fstore, ''Fstore''), (BC_Dstore, ''Dstore''), (BC_Astore, ''Astore''),
      (BC_Istore0, ''Istore0''), (BC_Istore1, ''Istore1''), (BC_Istore2, ''Istore2''),
      (BC_Istore3, ''Istore3''), (BC_Lstore0, ''Lstore0''), (BC_Lstore1, ''Lstore1''),
      (BC_Lstore2, ''Lstore2''), (BC_Lstore3, ''Lstore3''), (BC_Fstore0, ''Fstore0''),
      (BC_Fstore1, ''Fstore1''), (BC_Fstore2, ''Fstore2''), (BC_Fstore3, ''Fstore3''),
      (BC_Dstore0, ''Dstore0''), (BC_Dstore1, ''Dstore1''), (BC_Dstore2, ''Dstore2''),
      (BC_Dstore3, ''Dstore3''), (BC_Astore0, ''Astore0''), (BC_Astore1, ''Astore1''),
      (BC_Astore2, ''Astore2''), (BC_Astore3, ''Astore3''), (BC_Iastore, ''Iastore''),
      (BC_Lastore, ''Lastore''), (BC_Fastore, ''Fastore''), (BC_Dastore, ''Dastore''),
      (BC_Aastore, ''Aastore''), (BC_Bastore, ''Bastore''), (BC_Castore, ''Castore''),
      (BC_Sastore, ''Sastore''), (BC_Pop, ''Pop''), (BC_Pop2, ''Pop2''), (BC_Dup, ''Dup''),
      (BC_DupX1, ''DupX1''), (BC_DupX2, ''DupX2''), (BC_Dup2, ''Dup2''), (BC_Dup2X1, ''Dup2X1''),
      (BC_Dup2X2, ''Dup2X2''), (BC_Swap, ''Swap''), (BC_Iadd, ''Iadd''), (BC_Ladd, ''Ladd''),
      (BC_Fadd, ''Fadd''), (BC_Dadd, ''Dadd''), (BC_Isub, ''Isub''), (BC_Lsub, ''Lsub''),
      (BC_Fsub, ''Fsub''), (BC_Dsub, ''Dsub''), (BC_Imul, ''Imul''), (BC_Lmul, ''Lmul''),
      (BC_Fmul, ''Fmul''), (BC_Dmul, ''Dmul''), (BC_Idiv, ''Idiv''), (BC_Ldiv, ''Ldiv''),
      (BC_Fdiv, ''Fdiv''), (BC_Ddiv, ''Ddiv''), (BC_Irem, ''Irem''), (BC_Lrem, ''Lrem''),
      (BC_Frem, ''Frem''), (BC_Drem, ''Drem''), (BC_Ineg, ''Ineg''), (BC_Lneg, ''Lneg''),
      (BC_Fneg, ''Fneg''), (BC_Dneg, ''Dneg''), (BC_Ishl, ''Ishl''), (BC_Lshl, ''Lshl''),
      (BC_Ishr, ''Ishr''), (BC_Lshr, ''Lshr''), (BC_Iushr, ''Iushr''), (BC_Lushr, ''Lushr''),
      (BC_Iand, ''Iand''), (BC_Land, ''Land''), (BC_Ior, ''Ior''), (BC_Lor, ''Lor''), (BC_Ixor, ''Ixor''),
      (BC_Lxor, ''Lxor'')]"

text \<open>The rest of them.\<close>

definition jvm_opcodes_high :: "(jvm_opcode \<times> string) list" where
  "jvm_opcodes_high =
     [(BC_Iinc, ''Iinc''), (BC_I2l, ''I2l''), (BC_I2f, ''I2f''), (BC_I2d, ''I2d''), (BC_L2i, ''L2i''),
      (BC_L2f, ''L2f''), (BC_L2d, ''L2d''), (BC_F2i, ''F2i''), (BC_F2l, ''F2l''), (BC_F2d, ''F2d''),
      (BC_D2i, ''D2i''), (BC_D2l, ''D2l''), (BC_D2f, ''D2f''), (BC_I2b, ''I2b''), (BC_I2c, ''I2c''),
      (BC_I2s, ''I2s''), (BC_Lcmp, ''Lcmp''), (BC_Fcmpl, ''Fcmpl''), (BC_Fcmpg, ''Fcmpg''),
      (BC_Dcmpl, ''Dcmpl''), (BC_Dcmpg, ''Dcmpg''), (BC_Ifeq, ''Ifeq''), (BC_Ifne, ''Ifne''),
      (BC_Iflt, ''Iflt''), (BC_Ifge, ''Ifge''), (BC_Ifgt, ''Ifgt''), (BC_Ifle, ''Ifle''),
      (BC_IfIcmpeq, ''IfIcmpeq''), (BC_IfIcmpne, ''IfIcmpne''), (BC_IfIcmplt, ''IfIcmplt''),
      (BC_IfIcmpge, ''IfIcmpge''), (BC_IfIcmpgt, ''IfIcmpgt''), (BC_IfIcmple, ''IfIcmple''),
      (BC_IfAcmpeq, ''IfAcmpeq''), (BC_IfAcmpne, ''IfAcmpne''), (BC_Goto, ''Goto''), (BC_Jsr, ''Jsr''),
      (BC_Ret, ''Ret''), (BC_TableSwitch, ''TableSwitch''), (BC_LookupSwitch, ''LookupSwitch''),
      (BC_Ireturn, ''Ireturn''), (BC_Lreturn, ''Lreturn''), (BC_Freturn, ''Freturn''),
      (BC_Dreturn, ''Dreturn''), (BC_Areturn, ''Areturn''), (BC_Return, ''Return''),
      (BC_Getstatic, ''Getstatic''), (BC_Putstatic, ''Putstatic''), (BC_Getfield, ''Getfield''),
      (BC_Putfield, ''Putfield''), (BC_Invokevirtual, ''Invokevirtual''),
      (BC_Invokespecial, ''Invokespecial''), (BC_Invokestatic, ''Invokestatic''),
      (BC_Invokeinterface, ''Invokeinterface''), (BC_Invokedynamic, ''Invokedynamic''), (BC_New, ''New''),
      (BC_Newarray, ''Newarray''), (BC_Anewarray, ''Anewarray''), (BC_Arraylength, ''Arraylength''),
      (BC_Athrow, ''Athrow''), (BC_Checkcast, ''Checkcast''), (BC_Instanceof, ''Instanceof''),
      (BC_Monitorenter, ''Monitorenter''), (BC_Monitorexit, ''Monitorexit''), (BC_Wide, ''Wide''),
      (BC_Multianewarray, ''Multianewarray''), (BC_Ifnull, ''Ifnull''), (BC_Ifnonnull, ''Ifnonnull''),
      (BC_GotoW, ''GotoW''), (BC_JsrW, ''JsrW''), (BC_Breakpoint, ''Breakpoint''), (BC_Impdep1, ''Impdep1''),
      (BC_Impdep2, ''Impdep2'')]"

text \<open>The wide forms.\<close>

definition jvm_opcodes_wide :: "(jvm_opcode \<times> string) list" where
  "jvm_opcodes_wide =
     [(BC_WideIload, ''WideIload''), (BC_WideFload, ''WideFload''), (BC_WideAload, ''WideAload''),
      (BC_WideLload, ''WideLload''), (BC_WideDload, ''WideDload''), (BC_WideIstore, ''WideIstore''),
      (BC_WideFstore, ''WideFstore''), (BC_WideAstore, ''WideAstore''), (BC_WideLstore, ''WideLstore''),
      (BC_WideDstore, ''WideDstore''), (BC_WideRet, ''WideRet''), (BC_WideIinc, ''WideIinc'')]"

section \<open>The table\<close>

datatype operand_format =
    OF_None | OF_U1 | OF_S1 | OF_U2 | OF_S2 | OF_S4 | OF_U1U1 | OF_U2U1U1 | OF_U2U2 | OF_U2U1
  | OF_TableSwitch | OF_LookupSwitch | OF_Wide

record opcode_info =
  oi_name :: string
  oi_operand :: operand_format
  oi_loads_value :: bool
  oi_stores_value :: bool
  oi_is_branch :: bool
  oi_is_call :: bool
  oi_can_throw :: bool
  oi_is_wide :: bool

definition op_row ::
  "string \<Rightarrow> operand_format \<Rightarrow> bool \<Rightarrow> bool \<Rightarrow> bool \<Rightarrow> bool \<Rightarrow> bool \<Rightarrow> bool \<Rightarrow> opcode_info" where
  "op_row n f l s b c t w =
     \<lparr>oi_name = n, oi_operand = f, oi_loads_value = l, oi_stores_value = s, oi_is_branch = b, oi_is_call = c,
      oi_can_throw = t, oi_is_wide = w\<rparr>"

definition kUnknown :: opcode_info where
  "kUnknown = op_row ''<unknown>'' OF_None False False False False False False"

text \<open>The table in four parts, by the leading bits of the opcode.\<close>

definition jvm_table_0 :: "opcode_info list" where
  "jvm_table_0 =
     [op_row ''nop'' OF_None False False False False False False,
      op_row ''aconst_null'' OF_None True False False False False False,
      op_row ''iconst_m1'' OF_None True False False False False False,
      op_row ''iconst_0'' OF_None True False False False False False,
      op_row ''iconst_1'' OF_None True False False False False False,
      op_row ''iconst_2'' OF_None True False False False False False,
      op_row ''iconst_3'' OF_None True False False False False False,
      op_row ''iconst_4'' OF_None True False False False False False,
      op_row ''iconst_5'' OF_None True False False False False False,
      op_row ''lconst_0'' OF_None True False False False False False,
      op_row ''lconst_1'' OF_None True False False False False False,
      op_row ''fconst_0'' OF_None True False False False False False,
      op_row ''fconst_1'' OF_None True False False False False False,
      op_row ''fconst_2'' OF_None True False False False False False,
      op_row ''dconst_0'' OF_None True False False False False False,
      op_row ''dconst_1'' OF_None True False False False False False,
      op_row ''bipush'' OF_S1 True False False False False False,
      op_row ''sipush'' OF_S2 True False False False False False,
      op_row ''ldc'' OF_U1 True False False False False False,
      op_row ''ldc_w'' OF_U2 True False False False False False,
      op_row ''ldc2_w'' OF_U2 True False False False False False,
      op_row ''iload'' OF_U1 True False False False False False,
      op_row ''lload'' OF_U1 True False False False False False,
      op_row ''fload'' OF_U1 True False False False False False,
      op_row ''dload'' OF_U1 True False False False False False,
      op_row ''aload'' OF_U1 True False False False False False,
      op_row ''iload_0'' OF_None True False False False False False,
      op_row ''iload_1'' OF_None True False False False False False,
      op_row ''iload_2'' OF_None True False False False False False,
      op_row ''iload_3'' OF_None True False False False False False,
      op_row ''lload_0'' OF_None True False False False False False,
      op_row ''lload_1'' OF_None True False False False False False,
      op_row ''lload_2'' OF_None True False False False False False,
      op_row ''lload_3'' OF_None True False False False False False,
      op_row ''fload_0'' OF_None True False False False False False,
      op_row ''fload_1'' OF_None True False False False False False,
      op_row ''fload_2'' OF_None True False False False False False,
      op_row ''fload_3'' OF_None True False False False False False,
      op_row ''dload_0'' OF_None True False False False False False,
      op_row ''dload_1'' OF_None True False False False False False,
      op_row ''dload_2'' OF_None True False False False False False,
      op_row ''dload_3'' OF_None True False False False False False,
      op_row ''aload_0'' OF_None True False False False False False,
      op_row ''aload_1'' OF_None True False False False False False,
      op_row ''aload_2'' OF_None True False False False False False,
      op_row ''aload_3'' OF_None True False False False False False,
      op_row ''iaload'' OF_None True True False False True False,
      op_row ''laload'' OF_None True True False False True False,
      op_row ''faload'' OF_None True True False False True False,
      op_row ''daload'' OF_None True True False False True False,
      op_row ''aaload'' OF_None True True False False True False,
      op_row ''baload'' OF_None True True False False True False,
      op_row ''caload'' OF_None True True False False True False,
      op_row ''saload'' OF_None True True False False True False,
      op_row ''istore'' OF_U1 False True False False False False,
      op_row ''lstore'' OF_U1 False True False False False False,
      op_row ''fstore'' OF_U1 False True False False False False,
      op_row ''dstore'' OF_U1 False True False False False False,
      op_row ''astore'' OF_U1 False True False False False False,
      op_row ''istore_0'' OF_None False True False False False False,
      op_row ''istore_1'' OF_None False True False False False False,
      op_row ''istore_2'' OF_None False True False False False False,
      op_row ''istore_3'' OF_None False True False False False False,
      op_row ''lstore_0'' OF_None False True False False False False]"

definition jvm_table_1 :: "opcode_info list" where
  "jvm_table_1 =
     [op_row ''lstore_1'' OF_None False True False False False False,
      op_row ''lstore_2'' OF_None False True False False False False,
      op_row ''lstore_3'' OF_None False True False False False False,
      op_row ''fstore_0'' OF_None False True False False False False,
      op_row ''fstore_1'' OF_None False True False False False False,
      op_row ''fstore_2'' OF_None False True False False False False,
      op_row ''fstore_3'' OF_None False True False False False False,
      op_row ''dstore_0'' OF_None False True False False False False,
      op_row ''dstore_1'' OF_None False True False False False False,
      op_row ''dstore_2'' OF_None False True False False False False,
      op_row ''dstore_3'' OF_None False True False False False False,
      op_row ''astore_0'' OF_None False True False False False False,
      op_row ''astore_1'' OF_None False True False False False False,
      op_row ''astore_2'' OF_None False True False False False False,
      op_row ''astore_3'' OF_None False True False False False False,
      op_row ''iastore'' OF_None False True False False True False,
      op_row ''lastore'' OF_None False True False False True False,
      op_row ''fastore'' OF_None False True False False True False,
      op_row ''dastore'' OF_None False True False False True False,
      op_row ''aastore'' OF_None False True False False True False,
      op_row ''bastore'' OF_None False True False False True False,
      op_row ''castore'' OF_None False True False False True False,
      op_row ''sastore'' OF_None False True False False True False,
      op_row ''pop'' OF_None False True False False False False,
      op_row ''pop2'' OF_None False True False False False False,
      op_row ''dup'' OF_None True True False False False False,
      op_row ''dup_x1'' OF_None True True False False False False,
      op_row ''dup_x2'' OF_None True True False False False False,
      op_row ''dup2'' OF_None True True False False False False,
      op_row ''dup2_x1'' OF_None True True False False False False,
      op_row ''dup2_x2'' OF_None True True False False False False,
      op_row ''swap'' OF_None True True False False False False,
      op_row ''iadd'' OF_None True True False False False False,
      op_row ''ladd'' OF_None True True False False False False,
      op_row ''fadd'' OF_None True True False False False False,
      op_row ''dadd'' OF_None True True False False False False,
      op_row ''isub'' OF_None True True False False False False,
      op_row ''lsub'' OF_None True True False False False False,
      op_row ''fsub'' OF_None True True False False False False,
      op_row ''dsub'' OF_None True True False False False False,
      op_row ''imul'' OF_None True True False False False False,
      op_row ''lmul'' OF_None True True False False False False,
      op_row ''fmul'' OF_None True True False False False False,
      op_row ''dmul'' OF_None True True False False False False,
      op_row ''idiv'' OF_None True True False False True False,
      op_row ''ldiv'' OF_None True True False False True False,
      op_row ''fdiv'' OF_None True True False False False False,
      op_row ''ddiv'' OF_None True True False False False False,
      op_row ''irem'' OF_None True True False False True False,
      op_row ''lrem'' OF_None True True False False True False,
      op_row ''frem'' OF_None True True False False False False,
      op_row ''drem'' OF_None True True False False False False,
      op_row ''ineg'' OF_None True True False False False False,
      op_row ''lneg'' OF_None True True False False False False,
      op_row ''fneg'' OF_None True True False False False False,
      op_row ''dneg'' OF_None True True False False False False,
      op_row ''ishl'' OF_None True True False False False False,
      op_row ''lshl'' OF_None True True False False False False,
      op_row ''ishr'' OF_None True True False False False False,
      op_row ''lshr'' OF_None True True False False False False,
      op_row ''iushr'' OF_None True True False False False False,
      op_row ''lushr'' OF_None True True False False False False,
      op_row ''iand'' OF_None True True False False False False,
      op_row ''land'' OF_None True True False False False False]"

definition jvm_table_2 :: "opcode_info list" where
  "jvm_table_2 =
     [op_row ''ior'' OF_None True True False False False False,
      op_row ''lor'' OF_None True True False False False False,
      op_row ''ixor'' OF_None True True False False False False,
      op_row ''lxor'' OF_None True True False False False False,
      op_row ''iinc'' OF_U1U1 False False False False False False,
      op_row ''i2l'' OF_None True True False False False False,
      op_row ''i2f'' OF_None True True False False False False,
      op_row ''i2d'' OF_None True True False False False False,
      op_row ''l2i'' OF_None True True False False False False,
      op_row ''l2f'' OF_None True True False False False False,
      op_row ''l2d'' OF_None True True False False False False,
      op_row ''f2i'' OF_None True True False False False False,
      op_row ''f2l'' OF_None True True False False False False,
      op_row ''f2d'' OF_None True True False False False False,
      op_row ''d2i'' OF_None True True False False False False,
      op_row ''d2l'' OF_None True True False False False False,
      op_row ''d2f'' OF_None True True False False False False,
      op_row ''i2b'' OF_None True True False False False False,
      op_row ''i2c'' OF_None True True False False False False,
      op_row ''i2s'' OF_None True True False False False False,
      op_row ''lcmp'' OF_None True True False False False False,
      op_row ''fcmpl'' OF_None True True False False False False,
      op_row ''fcmpg'' OF_None True True False False False False,
      op_row ''dcmpl'' OF_None True True False False False False,
      op_row ''dcmpg'' OF_None True True False False False False,
      op_row ''ifeq'' OF_S2 False True True False False False,
      op_row ''ifne'' OF_S2 False True True False False False,
      op_row ''iflt'' OF_S2 False True True False False False,
      op_row ''ifge'' OF_S2 False True True False False False,
      op_row ''ifgt'' OF_S2 False True True False False False,
      op_row ''ifle'' OF_S2 False True True False False False,
      op_row ''if_icmpeq'' OF_S2 False True True False False False,
      op_row ''if_icmpne'' OF_S2 False True True False False False,
      op_row ''if_icmplt'' OF_S2 False True True False False False,
      op_row ''if_icmpge'' OF_S2 False True True False False False,
      op_row ''if_icmpgt'' OF_S2 False True True False False False,
      op_row ''if_icmple'' OF_S2 False True True False False False,
      op_row ''if_acmpeq'' OF_S2 False True True False False False,
      op_row ''if_acmpne'' OF_S2 False True True False False False,
      op_row ''goto'' OF_S2 False False True False False False,
      op_row ''jsr'' OF_S2 True False True False False False,
      op_row ''ret'' OF_U1 False False True False False False,
      op_row ''tableswitch'' OF_TableSwitch False False True False False False,
      op_row ''lookupswitch'' OF_LookupSwitch False False True False False False,
      op_row ''ireturn'' OF_None False True False False False False,
      op_row ''lreturn'' OF_None False True False False False False,
      op_row ''freturn'' OF_None False True False False False False,
      op_row ''dreturn'' OF_None False True False False False False,
      op_row ''areturn'' OF_None False True False False False False,
      op_row ''return'' OF_None False False False False False False,
      op_row ''getstatic'' OF_U2 True False False False True False,
      op_row ''putstatic'' OF_U2 False True False False True False,
      op_row ''getfield'' OF_U2 True True False False True False,
      op_row ''putfield'' OF_U2 False True False False True False,
      op_row ''invokevirtual'' OF_U2 False True False True True False,
      op_row ''invokespecial'' OF_U2 False True False True True False,
      op_row ''invokestatic'' OF_U2 False True False True True False,
      op_row ''invokeinterface'' OF_U2U1U1 False True False True True False,
      op_row ''invokedynamic'' OF_U2U2 False True False True True False,
      op_row ''new'' OF_U2 True False False False True False,
      op_row ''newarray'' OF_U1 True True False False True False,
      op_row ''anewarray'' OF_U2 True True False False True False,
      op_row ''arraylength'' OF_None True True False False True False,
      op_row ''athrow'' OF_None False True False False True False]"

definition jvm_table_3 :: "opcode_info list" where
  "jvm_table_3 =
     [op_row ''checkcast'' OF_U2 True True False False True False,
      op_row ''instanceof'' OF_U2 True True False False True False,
      op_row ''monitorenter'' OF_None False True False False True False,
      op_row ''monitorexit'' OF_None False True False False True False,
      op_row ''wide'' OF_Wide False False False False False False,
      op_row ''multianewarray'' OF_U2U1 True True False False True False,
      op_row ''ifnull'' OF_S2 False True True False False False,
      op_row ''ifnonnull'' OF_S2 False True True False False False,
      op_row ''goto_w'' OF_S4 False False True False False False,
      op_row ''jsr_w'' OF_S4 True False True False False False,
      op_row ''breakpoint'' OF_None False False False False False False]
     @ replicate 51 kUnknown
     @ [op_row ''impdep1'' OF_None False False False False False False,
        op_row ''impdep2'' OF_None False False False False False False]"

definition jvm_table :: "opcode_info list" where
  "jvm_table = jvm_table_0 @ jvm_table_1 @ jvm_table_2 @ jvm_table_3"

text \<open>The wide forms with their base opcodes.\<close>

definition kWide :: "(jvm_opcode \<times> jvm_opcode) list" where
  "kWide =
     [(BC_WideIload, BC_Iload), (BC_WideFload, BC_Fload), (BC_WideAload, BC_Aload), (BC_WideLload, BC_Lload),
      (BC_WideDload, BC_Dload), (BC_WideIstore, BC_Istore), (BC_WideFstore, BC_Fstore), (BC_WideAstore, BC_Astore),
      (BC_WideLstore, BC_Lstore), (BC_WideDstore, BC_Dstore), (BC_WideRet, BC_Ret), (BC_WideIinc, BC_Iinc)]"

text \<open>The reference into a static buffer that the code returns for a wide form is the row it holds at that moment.\<close>

definition opcode_info_of :: "jvm_opcode \<Rightarrow> opcode_info" where
  "opcode_info_of op =
     (if op \<le> 0xFF then jvm_table ! unat op
      else case find (\<lambda>e. fst e = op) kWide of
          None \<Rightarrow> kUnknown
        | Some e \<Rightarrow>
            (let base = jvm_table ! unat (ucast (snd e) :: u8)
             in base\<lparr>oi_is_wide := True, oi_operand := (if snd e = BC_Iinc then OF_U1U1 else OF_U2)\<rparr>))"

definition opcode_name :: "jvm_opcode \<Rightarrow> string" where
  "opcode_name op = oi_name (opcode_info_of op)"

definition newarray_type_name :: "u8 \<Rightarrow> string" where
  "newarray_type_name t =
     (if t = 4 then ''boolean[]'' else if t = 5 then ''char[]'' else if t = 6 then ''float[]''
      else if t = 7 then ''double[]'' else if t = 8 then ''byte[]'' else if t = 9 then ''short[]''
      else if t = 10 then ''int[]'' else if t = 11 then ''long[]'' else ''unknown[]'')"

section \<open>The decoder\<close>

record decoded =
  d_op :: jvm_opcode
  d_length :: u8
  d_i32 :: i32
  d_u32 :: u32
  d_switch_default :: i32
  d_switch_low :: i32
  d_switch_high :: i32
  d_switch_count :: i32
  d_switch_data :: "nat option"

definition empty_decoded :: decoded where
  "empty_decoded = \<lparr>d_op = 0, d_length = 0, d_i32 = 0, d_u32 = 0, d_switch_default = 0, d_switch_low = 0,
     d_switch_high = 0, d_switch_count = 0, d_switch_data = None\<rparr>"

text \<open>Big-endian words by shifting, little-endian words by \<^verbatim>\<open>memcpy\<close>.\<close>

definition be16 :: "u8 list \<Rightarrow> nat \<Rightarrow> u16" where
  "be16 bs i = or (push_bit 8 (ucast (bs ! i))) (ucast (bs ! (i + 1)))"

definition be32 :: "u8 list \<Rightarrow> nat \<Rightarrow> u32" where
  "be32 bs i = or (or (or (push_bit 24 (ucast (bs ! i))) (push_bit 16 (ucast (bs ! (i + 1)))))
     (push_bit 8 (ucast (bs ! (i + 2))))) (ucast (bs ! (i + 3)))"

definition le32 :: "u8 list \<Rightarrow> nat \<Rightarrow> u32" where
  "le32 bs i = or (or (or (ucast (bs ! i)) (push_bit 8 (ucast (bs ! (i + 1)))))
     (push_bit 16 (ucast (bs ! (i + 2))))) (push_bit 24 (ucast (bs ! (i + 3))))"

definition invalid :: "decoded \<Rightarrow> decoded" where
  "invalid d = d\<lparr>d_op := BC_Invalid\<rparr>"

definition decode_wide :: "u8 list \<Rightarrow> decoded" where
  "decode_wide bs =
     (let d = empty_decoded\<lparr>d_length := 1\<rparr>
      in if length bs < 2 then invalid d
         else let d = d\<lparr>d_length := 2\<rparr>
           in case find (\<lambda>e. ucast (snd e) = bs ! 1) kWide of
                None \<Rightarrow> invalid d
              | Some e \<Rightarrow>
                  (let d = d\<lparr>d_op := fst e\<rparr>
                   in if d_op d = BC_WideIinc
                      then (if length bs < 6 then invalid d
                            else d\<lparr>d_u32 := ucast (be16 bs 2), d_i32 := scast (be16 bs 4), d_length := 6\<rparr>)
                      else (if length bs < 4 then invalid d else d\<lparr>d_u32 := ucast (be16 bs 2), d_length := 4\<rparr>)))"

text \<open>The operand after a one-byte opcode; \<open>d\<close> has length 1.\<close>

definition switch_pad :: nat where
  "switch_pad = (4 - 1 mod 4) mod 4"

definition decode_tableswitch :: "u8 list \<Rightarrow> decoded \<Rightarrow> decoded ub" where
  "decode_tableswitch bs d =
     (if length bs < 1 + switch_pad + 12 then Some (invalid d)
      else let off = 1 + switch_pad; low = le32 bs (off + 4); high = le32 bs (off + 8)
        in do {
          diff \<leftarrow> s_sub high low;
          count \<leftarrow> s_add diff 1;
          bytes \<leftarrow> s_mul count 4;
          Some (d\<lparr>d_switch_default := le32 bs off, d_switch_low := low, d_switch_high := high, d_switch_count := count,
            d_switch_data := Some (off + 12), d_length := word_of_int (int (off + 12) + sint bytes)\<rparr>)
        })"

definition decode_lookupswitch :: "u8 list \<Rightarrow> decoded \<Rightarrow> decoded ub" where
  "decode_lookupswitch bs d =
     (if length bs < 1 + switch_pad + 8 then Some (invalid d)
      else let off = 1 + switch_pad; npairs = le32 bs (off + 4)
        in do {
          bytes \<leftarrow> s_mul npairs 8;
          Some (d\<lparr>d_switch_default := le32 bs off, d_switch_count := npairs, d_switch_data := Some (off + 8),
            d_length := word_of_int (int (off + 8) + sint bytes)\<rparr>)
        })"

definition decode_operand :: "operand_format \<Rightarrow> u8 list \<Rightarrow> decoded \<Rightarrow> decoded ub" where
  "decode_operand f bs d =
     (case f of
        OF_None \<Rightarrow> Some d
      | OF_U1 \<Rightarrow> Some (if length bs < 2 then invalid d
          else d\<lparr>d_u32 := ucast (bs ! 1), d_i32 := ucast (bs ! 1), d_length := 2\<rparr>)
      | OF_S1 \<Rightarrow> Some (if length bs < 2 then invalid d
          else d\<lparr>d_i32 := scast (bs ! 1), d_u32 := ucast (bs ! 1), d_length := 2\<rparr>)
      | OF_U2 \<Rightarrow> Some (if length bs < 3 then invalid d
          else d\<lparr>d_u32 := ucast (be16 bs 1), d_i32 := ucast (be16 bs 1), d_length := 3\<rparr>)
      | OF_S2 \<Rightarrow> Some (if length bs < 3 then invalid d
          else d\<lparr>d_i32 := scast (be16 bs 1), d_u32 := ucast (be16 bs 1), d_length := 3\<rparr>)
      | OF_S4 \<Rightarrow> Some (if length bs < 5 then invalid d
          else d\<lparr>d_i32 := be32 bs 1, d_u32 := be32 bs 1, d_length := 5\<rparr>)
      | OF_U1U1 \<Rightarrow> Some (if length bs < 3 then invalid d
          else d\<lparr>d_u32 := ucast (bs ! 1), d_i32 := scast (bs ! 2), d_length := 3\<rparr>)
      | OF_U2U1U1 \<Rightarrow> Some (if length bs < 5 then invalid d else d\<lparr>d_u32 := ucast (be16 bs 1), d_length := 5\<rparr>)
      | OF_U2U2 \<Rightarrow> Some (if length bs < 5 then invalid d else d\<lparr>d_u32 := ucast (be16 bs 1), d_length := 5\<rparr>)
      | OF_U2U1 \<Rightarrow> Some (if length bs < 4 then invalid d
          else d\<lparr>d_u32 := ucast (be16 bs 1), d_switch_count := ucast (bs ! 3), d_length := 4\<rparr>)
      | OF_TableSwitch \<Rightarrow> decode_tableswitch bs d
      | OF_LookupSwitch \<Rightarrow> decode_lookupswitch bs d
      | OF_Wide \<Rightarrow> Some (invalid d))"

definition decode_opcode :: "u8 list \<Rightarrow> decoded ub" where
  "decode_opcode bs =
     (if bs = [] then Some (invalid empty_decoded)
      else let first = bs ! 0; d = empty_decoded\<lparr>d_length := 1\<rparr>
        in if first = 0xC4 then Some (decode_wide bs)
           else if first \<ge> 0xCB \<and> first \<noteq> 0xFE \<and> first \<noteq> 0xFF then Some (invalid d)
           else let d = d\<lparr>d_op := ucast first\<rparr>; info = jvm_table ! unat first
             in if oi_name info = oi_name kUnknown then Some (invalid d)
                else decode_operand (oi_operand info) bs d)"

end
