(* ===== verification/Granit_Value.thy ===== *)
theory Granit_Value
  imports Prelude
begin

text \<open>
  \<^verbatim>\<open>tier0_granit/Value.hpp\<close> and \<^verbatim>\<open>tier0_granit/Value.cpp\<close>: the tagged values of the interpreters. The
  payload is the union as its 64 bits. Doubles are their IEEE 754 bits; the arithmetic of the host on
  them is the record \<open>fp_ops\<close>.
\<close>

section \<open>Doubles\<close>

type_synonym f64 = u64

record fp_ops =
  fp_add :: "f64 \<Rightarrow> f64 \<Rightarrow> f64"
  fp_sub :: "f64 \<Rightarrow> f64 \<Rightarrow> f64"
  fp_mul :: "f64 \<Rightarrow> f64 \<Rightarrow> f64"
  fp_div :: "f64 \<Rightarrow> f64 \<Rightarrow> f64"
  fp_less :: "f64 \<Rightarrow> f64 \<Rightarrow> bool"
  fp_of_i32 :: "i32 \<Rightarrow> f64"
  fp_of_i64 :: "i64 \<Rightarrow> f64"
  fp_to_i32 :: "f64 \<Rightarrow> i32 ub"
  fp_to_i64 :: "f64 \<Rightarrow> i64 ub"
  fp_show :: "f64 \<Rightarrow> string"

text \<open>The literals 0.0, 1.0 and 2.0, and the comparison with zero (the sign bit apart, some bit is set).\<close>

definition f64_0 :: f64 where "f64_0 = 0"

definition f64_1 :: f64 where "f64_1 = 0x3FF0000000000000"

definition f64_2 :: f64 where "f64_2 = 0x4000000000000000"

definition f64_nonzero :: "f64 \<Rightarrow> bool" where
  "f64_nonzero x \<longleftrightarrow> and x 0x7FFFFFFFFFFFFFFF \<noteq> 0"

section \<open>Handles and pointers\<close>

type_synonym object_handle = u64

definition handle_is_null :: "object_handle \<Rightarrow> bool" where
  "handle_is_null h \<longleftrightarrow> h = 0"

definition handle_index :: "object_handle \<Rightarrow> u32" where
  "handle_index h = ucast (and h 0xFFFFFFFF)"

definition handle_generation :: "object_handle \<Rightarrow> u32" where
  "handle_generation h = ucast (drop_bit 32 h)"

type_synonym managed_pointer = u64

definition managed_pointer :: "object_handle \<Rightarrow> i64 \<Rightarrow> managed_pointer" where
  "managed_pointer b off = or (push_bit 32 (ucast (handle_index b))) (ucast (ucast off :: u32))"

section \<open>Values\<close>

datatype value_tag =
    Tag_Uninit | Tag_Int32 | Tag_Int64 | Tag_Float | Tag_ObjectRef | Tag_Null | Tag_ManagedPtr | Tag_NativePtr

record gvalue =
  v_tag :: value_tag
  v_payload :: u64

definition v_uninit :: gvalue where
  "v_uninit = \<lparr>v_tag = Tag_Uninit, v_payload = 0\<rparr>"

definition is_int32 :: "gvalue \<Rightarrow> bool" where "is_int32 v \<longleftrightarrow> v_tag v = Tag_Int32"

definition is_int64 :: "gvalue \<Rightarrow> bool" where "is_int64 v \<longleftrightarrow> v_tag v = Tag_Int64"

definition is_float :: "gvalue \<Rightarrow> bool" where "is_float v \<longleftrightarrow> v_tag v = Tag_Float"

definition is_object :: "gvalue \<Rightarrow> bool" where "is_object v \<longleftrightarrow> v_tag v = Tag_ObjectRef \<or> v_tag v = Tag_Null"

definition is_null :: "gvalue \<Rightarrow> bool" where "is_null v \<longleftrightarrow> v_tag v = Tag_Null"

definition as_int32 :: "gvalue \<Rightarrow> i32" where "as_int32 v = ucast (v_payload v)"

definition as_int64 :: "gvalue \<Rightarrow> i64" where "as_int64 v = v_payload v"

definition as_float :: "gvalue \<Rightarrow> f64" where "as_float v = v_payload v"

definition from_int32 :: "i32 \<Rightarrow> gvalue" where
  "from_int32 x = \<lparr>v_tag = Tag_Int32, v_payload = scast x\<rparr>"

definition from_int64 :: "i64 \<Rightarrow> gvalue" where
  "from_int64 x = \<lparr>v_tag = Tag_Int64, v_payload = x\<rparr>"

definition from_float :: "f64 \<Rightarrow> gvalue" where
  "from_float x = \<lparr>v_tag = Tag_Float, v_payload = x\<rparr>"

definition from_object :: "object_handle \<Rightarrow> gvalue" where
  "from_object h = (if handle_is_null h then \<lparr>v_tag = Tag_Null, v_payload = 0\<rparr>
     else \<lparr>v_tag = Tag_ObjectRef, v_payload = h\<rparr>)"

definition from_managed_ptr :: "managed_pointer \<Rightarrow> gvalue" where
  "from_managed_ptr p = \<lparr>v_tag = Tag_ManagedPtr, v_payload = p\<rparr>"

definition from_native_ptr :: "u64 \<Rightarrow> gvalue" where
  "from_native_ptr p = \<lparr>v_tag = Tag_NativePtr, v_payload = p\<rparr>"

definition null_value :: gvalue where
  "null_value = \<lparr>v_tag = Tag_Null, v_payload = 0\<rparr>"

definition value_eq :: "gvalue \<Rightarrow> gvalue \<Rightarrow> bool" where
  "value_eq a b \<longleftrightarrow> v_tag a = v_tag b \<and> v_payload a = v_payload b"

definition value_equals :: "gvalue \<Rightarrow> gvalue \<Rightarrow> bool" where
  "value_equals a b = (if v_tag a \<noteq> v_tag b then False else value_eq a b)"

datatype eval_stack_type =
    EST_Uninitialized | EST_Int32 | EST_Int64 | EST_Float | EST_ObjectRef | EST_ManagedPtr | EST_NativePtr

definition eval_type_of :: "gvalue \<Rightarrow> eval_stack_type" where
  "eval_type_of v = (case v_tag v of
      Tag_Int32 \<Rightarrow> EST_Int32 | Tag_Int64 \<Rightarrow> EST_Int64 | Tag_Float \<Rightarrow> EST_Float
    | Tag_ObjectRef \<Rightarrow> EST_ObjectRef | Tag_Null \<Rightarrow> EST_ObjectRef | Tag_ManagedPtr \<Rightarrow> EST_ManagedPtr
    | Tag_NativePtr \<Rightarrow> EST_NativePtr | Tag_Uninit \<Rightarrow> EST_Uninitialized)"

definition truthy :: "gvalue \<Rightarrow> bool" where
  "truthy v = (case v_tag v of
      Tag_Int32 \<Rightarrow> as_int32 v \<noteq> 0 | Tag_Int64 \<Rightarrow> as_int64 v \<noteq> 0 | Tag_Float \<Rightarrow> f64_nonzero (as_float v)
    | Tag_ObjectRef \<Rightarrow> \<not> handle_is_null (v_payload v) | Tag_Null \<Rightarrow> False | Tag_ManagedPtr \<Rightarrow> v_payload v \<noteq> 0
    | Tag_NativePtr \<Rightarrow> v_payload v \<noteq> 0 | Tag_Uninit \<Rightarrow> False)"

section \<open>Printing\<close>

definition show_int :: "int \<Rightarrow> string" where
  "show_int i = (if i < 0 then ''-'' @ show_nat (nat (- i)) else show_nat (nat i))"

definition hex_digit :: "bool \<Rightarrow> nat \<Rightarrow> char" where
  "hex_digit upper d = (if upper then ''0123456789ABCDEF'' else ''0123456789abcdef'') ! d"

text \<open>The last \<open>n\<close> hexadecimal digits of a number.\<close>

fun show_hex :: "bool \<Rightarrow> nat \<Rightarrow> nat \<Rightarrow> string" where
  "show_hex upper 0 x = ''''"
| "show_hex upper (Suc n) x = show_hex upper n (x div 16) @ [hex_digit upper (x mod 16)]"

definition show_value :: "fp_ops \<Rightarrow> gvalue \<Rightarrow> string" where
  "show_value fp v = (case v_tag v of
      Tag_Uninit \<Rightarrow> ''uninit''
    | Tag_Int32 \<Rightarrow> ''int32:'' @ show_int (sint (as_int32 v))
    | Tag_Int64 \<Rightarrow> ''int64:'' @ show_int (sint (as_int64 v))
    | Tag_Float \<Rightarrow> ''float:'' @ fp_show fp (as_float v)
    | Tag_ObjectRef \<Rightarrow> (if handle_is_null (v_payload v) then ''null''
        else ''obj:#'' @ show_nat (unat (handle_index (v_payload v))) @ ''@'' @ show_nat (unat (handle_generation (v_payload v))))
    | Tag_Null \<Rightarrow> ''null''
    | Tag_ManagedPtr \<Rightarrow> ''mptr:0x'' @ show_hex False 16 (unat (v_payload v))
    | Tag_NativePtr \<Rightarrow> ''nptr:0x'' @ show_hex False 16 (unat (v_payload v)))"

section \<open>Integer arithmetic\<close>

definition wrap_add_i32 :: "i32 \<Rightarrow> i32 \<Rightarrow> i32" where "wrap_add_i32 a b = a + b"

definition wrap_sub_i32 :: "i32 \<Rightarrow> i32 \<Rightarrow> i32" where "wrap_sub_i32 a b = a - b"

definition wrap_mul_i32 :: "i32 \<Rightarrow> i32 \<Rightarrow> i32" where "wrap_mul_i32 a b = a * b"

definition wrap_add_i64 :: "i64 \<Rightarrow> i64 \<Rightarrow> i64" where "wrap_add_i64 a b = a + b"

definition wrap_sub_i64 :: "i64 \<Rightarrow> i64 \<Rightarrow> i64" where "wrap_sub_i64 a b = a - b"

definition wrap_mul_i64 :: "i64 \<Rightarrow> i64 \<Rightarrow> i64" where "wrap_mul_i64 a b = a * b"

text \<open>The checked operations compute in 64 bits; the result is the out parameter when they return true.\<close>

definition checked_i32 :: "i64 \<Rightarrow> i32 option" where
  "checked_i32 r = (if sint r < - (2 ^ 31) \<or> 2 ^ 31 - 1 < sint r then None else Some (ucast r))"

definition checked_add_i32 :: "i32 \<Rightarrow> i32 \<Rightarrow> i32 option" where
  "checked_add_i32 a b = checked_i32 (scast a + scast b)"

definition checked_sub_i32 :: "i32 \<Rightarrow> i32 \<Rightarrow> i32 option" where
  "checked_sub_i32 a b = checked_i32 (scast a - scast b)"

definition checked_mul_i32 :: "i32 \<Rightarrow> i32 \<Rightarrow> i32 option" where
  "checked_mul_i32 a b = checked_i32 (scast a * scast b)"

section \<open>Properties of values\<close>

lemma tags [simp]:
  "v_tag (from_int32 x) = Tag_Int32" "v_tag (from_int64 y) = Tag_Int64" "v_tag (from_float z) = Tag_Float"
  "v_tag null_value = Tag_Null" "v_tag v_uninit = Tag_Uninit"
  by (simp_all add: from_int32_def from_int64_def from_float_def null_value_def v_uninit_def)

lemma as_int32_from [simp]: "as_int32 (from_int32 x) = x"
proof -
  have "ucast (scast x :: u64) = x"
  proof (rule bit_word_eqI)
    fix n assume "n < LENGTH(32)"
    then have "n < 32" "min 31 n = n" by simp_all
    then show "bit (ucast (scast x :: u64) :: i32) n = bit x n"
      by (simp add: bit_ucast_iff bit_signed_iff)
  qed
  then show ?thesis by (simp add: as_int32_def from_int32_def)
qed

lemma as_from [simp]: "as_int64 (from_int64 y) = y" "as_float (from_float z) = z"
  by (simp_all add: as_int64_def from_int64_def as_float_def from_float_def)

text \<open>The checked operations are exact: they return the mathematical result when it fits and refuse it otherwise.\<close>

lemma checked_i32_exact:
  assumes "sint (r :: i64) = x"
  shows "checked_i32 r = (if srange TYPE(32) x then Some (word_of_int x) else None)"
proof -
  have "ucast r = (scast r :: i32)"
  proof (rule bit_word_eqI)
    fix n assume "n < LENGTH(32)"
    then have "n < 32" "min 63 n = n" by simp_all
    then show "bit (ucast r :: i32) n = bit (scast r :: i32) n" by (simp add: bit_ucast_iff bit_signed_iff)
  qed
  also have "\<dots> = word_of_int x" unfolding assms [symmetric] by (rule scast_eq)
  finally show ?thesis using assms by (auto simp: checked_i32_def srange_def)
qed

lemma sint_abs_i32: "\<bar>sint (a :: i32)\<bar> \<le> 2 ^ 31"
  using sint_ge [of a] sint_lt [of a] by simp

lemma scast_of_int: "(scast (a :: i32) :: i64) = word_of_int (sint a)"
  by (rule scast_eq)

lemma sint_i64: "\<bar>x\<bar> \<le> 2 ^ 62 \<Longrightarrow> sint (word_of_int x :: i64) = x"
  by (rule sint_word_of_int_srange) (auto simp: srange_def)

text \<open>The checked 32-bit operations compute the exact result when it fits into 32 bits and refuse it otherwise.\<close>

lemma checked_arithmetic_exact:
  "checked_add_i32 a b = (if srange TYPE(32) (sint a + sint b) then Some (word_of_int (sint a + sint b)) else None)
   \<and> checked_sub_i32 a b = (if srange TYPE(32) (sint a - sint b) then Some (word_of_int (sint a - sint b)) else None)
   \<and> checked_mul_i32 a b = (if srange TYPE(32) (sint a * sint b) then Some (word_of_int (sint a * sint b)) else None)"
proof (intro conjI)
  note ab = sint_abs_i32 [of a] sint_abs_i32 [of b]
  show "checked_add_i32 a b = (if srange TYPE(32) (sint a + sint b) then Some (word_of_int (sint a + sint b)) else None)"
    unfolding checked_add_i32_def scast_of_int wi_hom_add
    by (rule checked_i32_exact, rule sint_i64, rule order.trans [of _ "2 ^ 31 + 2 ^ 31"]) (use ab in linarith, simp)
  show "checked_sub_i32 a b = (if srange TYPE(32) (sint a - sint b) then Some (word_of_int (sint a - sint b)) else None)"
    unfolding checked_sub_i32_def scast_of_int wi_hom_sub
    by (rule checked_i32_exact, rule sint_i64, rule order.trans [of _ "2 ^ 31 + 2 ^ 31"]) (use ab in linarith, simp)
  have "\<bar>sint a * sint b\<bar> \<le> 2 ^ 31 * 2 ^ 31"
    unfolding abs_mult by (rule mult_mono) (use ab in auto)
  then show "checked_mul_i32 a b = (if srange TYPE(32) (sint a * sint b) then Some (word_of_int (sint a * sint b)) else None)"
    unfolding checked_mul_i32_def scast_of_int wi_hom_mult
    by (intro checked_i32_exact sint_i64) simp
qed

end
