(* ===== verification/Jvm_Interp.thy ===== *)
theory Jvm_Interp
  imports Jvm_Opcode Granit_Value Core_Result
begin

text \<open>
  \<^verbatim>\<open>tier0_granit/JvmInterpreter.hpp\<close> and \<^verbatim>\<open>tier0_granit/JvmInterpreter.cpp\<close>: the interpreter of Java
  bytecode. The evaluation stack is a list with the top first; the array slots above the stack pointer
  are never read. Cases of the big switch that differ in a constant or an operator only are tables,
  indexed by the opcode. Polling a safepoint waits for the manager and leaves the frame alone.

  Reading or writing a local variable past the end of the vector is undefined, as is converting a double
  outside the range of the target type (the partial operations of \<open>fp_ops\<close>).
\<close>

section \<open>Frames\<close>

definition kMaxJvmStack :: nat where
  "kMaxJvmStack = 256"

record jvm_frame =
  f_pc :: u32
  f_stack :: "gvalue list"
  f_locals :: "gvalue list"
  f_error :: "string option"

definition set_error :: "string \<Rightarrow> jvm_frame \<Rightarrow> jvm_frame" where
  "set_error m f = f\<lparr>f_error := Some m\<rparr>"

definition push :: "gvalue \<Rightarrow> jvm_frame \<Rightarrow> jvm_frame" where
  "push v f = (if length (f_stack f) < kMaxJvmStack then f\<lparr>f_stack := v # f_stack f\<rparr>
     else set_error ''JVM: stack overflow'' f)"

definition pop :: "jvm_frame \<Rightarrow> gvalue \<times> jvm_frame" where
  "pop f = (case f_stack f of v # s \<Rightarrow> (v, f\<lparr>f_stack := s\<rparr>)
     | [] \<Rightarrow> (v_uninit, set_error ''JVM: stack underflow'' f))"

definition top_value :: "jvm_frame \<Rightarrow> gvalue \<times> jvm_frame" where
  "top_value f = (case f_stack f of v # s \<Rightarrow> (v, f) | [] \<Rightarrow> (v_uninit, set_error ''JVM: stack empty'' f))"

text \<open>The conversions of operands report a wrong tag in the frame.\<close>

definition as_i32 :: "gvalue \<Rightarrow> jvm_frame \<Rightarrow> i32 \<times> jvm_frame" where
  "as_i32 v f = (if is_int32 v then (as_int32 v, f) else if is_int64 v then (ucast (as_int64 v), f)
     else (0, set_error ''JVM: expected int'' f))"

definition as_i64 :: "gvalue \<Rightarrow> jvm_frame \<Rightarrow> i64 \<times> jvm_frame" where
  "as_i64 v f = (if is_int64 v then (as_int64 v, f) else if is_int32 v then (scast (as_int32 v), f)
     else (0, set_error ''JVM: expected long'' f))"

definition as_f64 :: "fp_ops \<Rightarrow> gvalue \<Rightarrow> jvm_frame \<Rightarrow> f64 \<times> jvm_frame" where
  "as_f64 fp v f = (if is_float v then (as_float v, f) else if is_int32 v then (fp_of_i32 fp (as_int32 v), f)
     else if is_int64 v then (fp_of_i64 fp (as_int64 v), f) else (f64_0, set_error ''JVM: expected float/double'' f))"

section \<open>The cases of the switch\<close>

text \<open>What a case does: fall out of the switch, jump with \<^verbatim>\<open>continue\<close>, return a value, return an error.\<close>

datatype jvm_outcome =
    J_next jvm_frame
  | J_jump jvm_frame
  | J_return gvalue
  | J_fail error

definition constant_table :: "(jvm_opcode \<times> gvalue) list" where
  "constant_table =
     [(BC_AconstNull, null_value), (BC_IconstM1, from_int32 (- 1)), (BC_Iconst0, from_int32 0), (BC_Iconst1, from_int32 1),
      (BC_Iconst2, from_int32 2), (BC_Iconst3, from_int32 3), (BC_Iconst4, from_int32 4), (BC_Iconst5, from_int32 5),
      (BC_Lconst0, from_int64 0), (BC_Lconst1, from_int64 1), (BC_Fconst0, from_float f64_0), (BC_Fconst1, from_float f64_1),
      (BC_Fconst2, from_float f64_2), (BC_Dconst0, from_float f64_0), (BC_Dconst1, from_float f64_1)]"

text \<open>Every constant of the constant pool is pushed as its index.\<close>

definition constant_value :: "decoded \<Rightarrow> gvalue option" where
  "constant_value d =
     (if d_op d = BC_Bipush \<or> d_op d = BC_Sipush then Some (from_int32 (d_i32 d))
      else if d_op d \<in> set [BC_Ldc, BC_LdcW, BC_Ldc2W] then Some (from_int64 (ucast (d_u32 d)))
      else map_of constant_table (d_op d))"

definition load_table :: "(jvm_opcode \<times> nat) list" where
  "load_table =
     [(BC_Iload0, 0), (BC_Iload1, 1), (BC_Iload2, 2), (BC_Iload3, 3), (BC_Lload0, 0), (BC_Lload1, 1), (BC_Lload2, 2),
      (BC_Lload3, 3), (BC_Fload0, 0), (BC_Fload1, 1), (BC_Fload2, 2), (BC_Fload3, 3), (BC_Dload0, 0), (BC_Dload1, 1),
      (BC_Dload2, 2), (BC_Dload3, 3), (BC_Aload0, 0), (BC_Aload1, 1), (BC_Aload2, 2), (BC_Aload3, 3)]"

definition load_index :: "decoded \<Rightarrow> nat option" where
  "load_index d =
     (if d_op d \<in> set [BC_Iload, BC_Lload, BC_Fload, BC_Dload, BC_Aload] then Some (unat (d_u32 d))
      else map_of load_table (d_op d))"

definition store_table :: "(jvm_opcode \<times> nat) list" where
  "store_table =
     [(BC_Istore0, 0), (BC_Istore1, 1), (BC_Istore2, 2), (BC_Istore3, 3), (BC_Lstore0, 0), (BC_Lstore1, 1), (BC_Lstore2, 2),
      (BC_Lstore3, 3), (BC_Fstore0, 0), (BC_Fstore1, 1), (BC_Fstore2, 2), (BC_Fstore3, 3), (BC_Dstore0, 0), (BC_Dstore1, 1),
      (BC_Dstore2, 2), (BC_Dstore3, 3), (BC_Astore0, 0), (BC_Astore1, 1), (BC_Astore2, 2), (BC_Astore3, 3)]"

definition store_index :: "decoded \<Rightarrow> nat option" where
  "store_index d =
     (if d_op d \<in> set [BC_Istore, BC_Lstore, BC_Fstore, BC_Dstore, BC_Astore] then Some (unat (d_u32 d))
      else map_of store_table (d_op d))"

definition do_load :: "nat \<Rightarrow> jvm_frame \<Rightarrow> jvm_outcome ub" where
  "do_load i f = (if i < length (f_locals f) then Some (J_next (push (f_locals f ! i) f)) else None)"

definition do_store :: "nat \<Rightarrow> jvm_frame \<Rightarrow> jvm_outcome ub" where
  "do_store i f =
     (let (v, f) = pop f
      in if i < length (f_locals f) then Some (J_next (f\<lparr>f_locals := (f_locals f)[i := v]\<rparr>)) else None)"

definition do_iinc :: "decoded \<Rightarrow> jvm_frame \<Rightarrow> jvm_outcome ub" where
  "do_iinc d f =
     (let i = unat (d_u32 d)
      in if i < length (f_locals f)
         then (let (cur, f) = as_i32 (f_locals f ! i) f
               in Some (J_next (f\<lparr>f_locals := (f_locals f)[i := from_int32 (wrap_add_i32 cur (d_i32 d))]\<rparr>)))
         else None)"

text \<open>Stack manipulation.\<close>

definition stack_op :: "jvm_opcode \<Rightarrow> (jvm_frame \<Rightarrow> jvm_frame) option" where
  "stack_op op =
     (if op = BC_Nop \<or> op = BC_F2d \<or> op = BC_D2f then Some (\<lambda>f. f)
      else if op = BC_Pop then Some (\<lambda>f. snd (pop f))
      else if op = BC_Pop2 then Some (\<lambda>f. let f = snd (pop f) in if f_stack f \<noteq> [] then snd (pop f) else f)
      else if op = BC_Dup then Some (\<lambda>f. let (v, f) = top_value f in push v f)
      else if op = BC_DupX1 then Some (\<lambda>f. let (v1, f) = pop f; (v2, f) = pop f in push v1 (push v2 (push v1 f)))
      else if op = BC_Swap then Some (\<lambda>f. let (v1, f) = pop f; (v2, f) = pop f in push v2 (push v1 f))
      else None)"

text \<open>Two operands of the same type: \<open>b\<close> is popped first.\<close>

definition int_op_table :: "(jvm_opcode \<times> (i32 \<Rightarrow> i32 \<Rightarrow> i32)) list" where
  "int_op_table =
     [(BC_Iadd, wrap_add_i32), (BC_Isub, wrap_sub_i32), (BC_Imul, wrap_mul_i32),
      (BC_Iand, \<lambda>a b. and a b), (BC_Ior, \<lambda>a b. or a b), (BC_Ixor, \<lambda>a b. xor a b),
      (BC_Ishl, \<lambda>a b. push_bit (unat (and b 31)) a), (BC_Ishr, \<lambda>a b. signed_drop_bit (unat (and b 31)) a),
      (BC_Iushr, \<lambda>a b. drop_bit (unat (and b 31)) a)]"

definition long_op_table :: "(jvm_opcode \<times> (i64 \<Rightarrow> i64 \<Rightarrow> i64)) list" where
  "long_op_table = [(BC_Ladd, wrap_add_i64), (BC_Lsub, wrap_sub_i64), (BC_Lmul, wrap_mul_i64)]"

definition float_op_table :: "fp_ops \<Rightarrow> (jvm_opcode \<times> (f64 \<Rightarrow> f64 \<Rightarrow> f64)) list" where
  "float_op_table fp =
     [(BC_Fadd, fp_add fp), (BC_Dadd, fp_add fp), (BC_Fsub, fp_sub fp), (BC_Dsub, fp_sub fp), (BC_Fmul, fp_mul fp),
      (BC_Dmul, fp_mul fp), (BC_Fdiv, fp_div fp), (BC_Ddiv, fp_div fp)]"

definition binary_int :: "(i32 \<Rightarrow> i32 \<Rightarrow> i32) \<Rightarrow> jvm_frame \<Rightarrow> jvm_frame" where
  "binary_int h f = (let (b, f) = pop f; (a, f) = pop f; (x, f) = as_i32 a f; (y, f) = as_i32 b f in push (from_int32 (h x y)) f)"

definition binary_long :: "(i64 \<Rightarrow> i64 \<Rightarrow> gvalue) \<Rightarrow> jvm_frame \<Rightarrow> jvm_frame" where
  "binary_long h f = (let (b, f) = pop f; (a, f) = pop f; (x, f) = as_i64 a f; (y, f) = as_i64 b f in push (h x y) f)"

definition binary_float :: "fp_ops \<Rightarrow> (f64 \<Rightarrow> f64 \<Rightarrow> gvalue) \<Rightarrow> jvm_frame \<Rightarrow> jvm_frame" where
  "binary_float fp h f =
     (let (b, f) = pop f; (a, f) = pop f; (x, f) = as_f64 fp a f; (y, f) = as_f64 fp b f in push (h x y) f)"

text \<open>Division and remainder; the error message replaces one set before.\<close>

definition divide_int :: "(i32 \<Rightarrow> i32 \<Rightarrow> i32 ub) \<Rightarrow> jvm_frame \<Rightarrow> jvm_frame ub" where
  "divide_int h f =
     (let (b, f) = pop f; (a, f) = pop f; (y, f) = as_i32 b f
      in if y = 0 then Some (set_error ''ArithmeticException: / by zero'' f)
         else (let (x, f) = as_i32 a f in map_option (\<lambda>r. push (from_int32 r) f) (h x y)))"

text \<open>One operand: the value to push, computed from the popped one.\<close>

definition unary_op :: "fp_ops \<Rightarrow> jvm_opcode \<Rightarrow> (gvalue \<Rightarrow> jvm_frame \<Rightarrow> (gvalue \<times> jvm_frame) ub) option" where
  "unary_op fp op =
     (if op = BC_Ineg then Some (\<lambda>a f. let (x, f) = as_i32 a f in map_option (\<lambda>r. (from_int32 r, f)) (s_neg x))
      else if op = BC_I2l then Some (\<lambda>a f. let (x, f) = as_i32 a f in Some (from_int64 (scast x), f))
      else if op = BC_I2f \<or> op = BC_I2d then Some (\<lambda>a f. let (x, f) = as_i32 a f in Some (from_float (fp_of_i32 fp x), f))
      else if op = BC_L2i then Some (\<lambda>a f. let (x, f) = as_i64 a f in Some (from_int32 (ucast x), f))
      else if op = BC_L2f \<or> op = BC_L2d then Some (\<lambda>a f. let (x, f) = as_i64 a f in Some (from_float (fp_of_i64 fp x), f))
      else if op = BC_F2i \<or> op = BC_D2i then
        Some (\<lambda>a f. let (x, f) = as_f64 fp a f in map_option (\<lambda>r. (from_int32 r, f)) (fp_to_i32 fp x))
      else if op = BC_F2l \<or> op = BC_D2l then
        Some (\<lambda>a f. let (x, f) = as_f64 fp a f in map_option (\<lambda>r. (from_int64 r, f)) (fp_to_i64 fp x))
      else if op = BC_I2b then Some (\<lambda>a f. let (x, f) = as_i32 a f in Some (from_int32 (scast (ucast x :: u8)), f))
      else if op = BC_I2c then Some (\<lambda>a f. let (x, f) = as_i32 a f in Some (from_int32 (ucast (ucast x :: u16)), f))
      else if op = BC_I2s then Some (\<lambda>a f. let (x, f) = as_i32 a f in Some (from_int32 (scast (ucast x :: u16)), f))
      else None)"

definition do_unary :: "(gvalue \<Rightarrow> jvm_frame \<Rightarrow> (gvalue \<times> jvm_frame) ub) \<Rightarrow> jvm_frame \<Rightarrow> jvm_outcome ub" where
  "do_unary h f = (let (a, f) = pop f in map_option (\<lambda>(v, f). J_next (push v f)) (h a f))"

definition compare_long :: "i64 \<Rightarrow> i64 \<Rightarrow> gvalue" where
  "compare_long a b = from_int32 (if sint a < sint b then - 1 else if sint a > sint b then 1 else 0)"

definition compare_float :: "fp_ops \<Rightarrow> f64 \<Rightarrow> f64 \<Rightarrow> gvalue" where
  "compare_float fp a b = from_int32 (if fp_less fp a b then - 1 else if fp_less fp b a then 1 else 0)"

text \<open>Branches.\<close>

definition branch1_table :: "(jvm_opcode \<times> (int \<Rightarrow> bool)) list" where
  "branch1_table =
     [(BC_Ifeq, \<lambda>x. x = 0), (BC_Ifne, \<lambda>x. x \<noteq> 0), (BC_Iflt, \<lambda>x. x < 0), (BC_Ifge, \<lambda>x. x \<ge> 0), (BC_Ifgt, \<lambda>x. x > 0),
      (BC_Ifle, \<lambda>x. x \<le> 0)]"

definition branch2_table :: "(jvm_opcode \<times> (int \<Rightarrow> int \<Rightarrow> bool)) list" where
  "branch2_table =
     [(BC_IfIcmpeq, \<lambda>x y. x = y), (BC_IfIcmpne, \<lambda>x y. x \<noteq> y), (BC_IfIcmplt, \<lambda>x y. x < y), (BC_IfIcmpge, \<lambda>x y. x \<ge> y),
      (BC_IfIcmpgt, \<lambda>x y. x > y), (BC_IfIcmple, \<lambda>x y. x \<le> y)]"

definition branch :: "bool \<Rightarrow> decoded \<Rightarrow> jvm_frame \<Rightarrow> jvm_outcome ub" where
  "branch taken d f = Some (if taken then J_jump (f\<lparr>f_pc := f_pc f + d_i32 d\<rparr>) else J_next f)"

definition do_branch1 :: "(int \<Rightarrow> bool) \<Rightarrow> decoded \<Rightarrow> jvm_frame \<Rightarrow> jvm_outcome ub" where
  "do_branch1 p d f = (let (v, f) = pop f; (x, f) = as_i32 v f in branch (p (sint x)) d f)"

definition do_branch2 :: "(int \<Rightarrow> int \<Rightarrow> bool) \<Rightarrow> decoded \<Rightarrow> jvm_frame \<Rightarrow> jvm_outcome ub" where
  "do_branch2 p d f =
     (let (b, f) = pop f; (a, f) = pop f; (x, f) = as_i32 a f; (y, f) = as_i32 b f in branch (p (sint x) (sint y)) d f)"

definition do_null_branch :: "bool \<Rightarrow> decoded \<Rightarrow> jvm_frame \<Rightarrow> jvm_outcome ub" where
  "do_null_branch want d f = (let (v, f) = pop f in branch (is_null v = want) d f)"

definition value_returns :: "jvm_opcode list" where
  "value_returns = [BC_Ireturn, BC_Lreturn, BC_Freturn, BC_Dreturn, BC_Areturn]"

definition unsupported :: "decoded \<Rightarrow> jvm_frame \<Rightarrow> error" where
  "unsupported d f = make_error UnsupportedNode
     (''JVM: opcode '' @ [CHR 0x27] @ opcode_name (d_op d) @ [CHR 0x27] @ '' (0x'' @ show_hex True 4 (unat (d_op d)) @ '') at pc=''
      @ show_nat (unat (f_pc f)))"

section \<open>The switch and the loop\<close>

definition next_frame :: "jvm_frame \<Rightarrow> jvm_outcome ub" where
  "next_frame f = Some (J_next f)"

definition exec_control :: "decoded \<Rightarrow> jvm_frame \<Rightarrow> jvm_outcome ub" where
  "exec_control d f =
     (case map_of branch1_table (d_op d) of Some p \<Rightarrow> do_branch1 p d f | None \<Rightarrow>
      case map_of branch2_table (d_op d) of Some p \<Rightarrow> do_branch2 p d f | None \<Rightarrow>
      if d_op d = BC_Ifnull then do_null_branch True d f
      else if d_op d = BC_Ifnonnull then do_null_branch False d f
      else if d_op d = BC_Goto \<or> d_op d = BC_GotoW then branch True d f
      else if d_op d = BC_Return then Some (J_return v_uninit)
      else if d_op d \<in> set value_returns then Some (J_return (fst (pop f)))
      else Some (J_fail (unsupported d f)))"

definition exec_arith :: "fp_ops \<Rightarrow> decoded \<Rightarrow> jvm_frame \<Rightarrow> jvm_outcome ub" where
  "exec_arith fp d f =
     (case map_of int_op_table (d_op d) of Some h \<Rightarrow> next_frame (binary_int h f) | None \<Rightarrow>
      case map_of long_op_table (d_op d) of Some h \<Rightarrow> next_frame (binary_long (\<lambda>x y. from_int64 (h x y)) f) | None \<Rightarrow>
      case map_of (float_op_table fp) (d_op d) of Some h \<Rightarrow> next_frame (binary_float fp (\<lambda>x y. from_float (h x y)) f) | None \<Rightarrow>
      case unary_op fp (d_op d) of Some h \<Rightarrow> do_unary h f | None \<Rightarrow>
      if d_op d = BC_Idiv then map_option J_next (divide_int s_div f)
      else if d_op d = BC_Irem then map_option J_next (divide_int s_mod f)
      else if d_op d = BC_Lcmp then next_frame (binary_long compare_long f)
      else if d_op d \<in> set [BC_Fcmpl, BC_Fcmpg, BC_Dcmpl, BC_Dcmpg] then next_frame (binary_float fp (compare_float fp) f)
      else exec_control d f)"

definition exec_op :: "fp_ops \<Rightarrow> decoded \<Rightarrow> jvm_frame \<Rightarrow> jvm_outcome ub" where
  "exec_op fp d f =
     (case stack_op (d_op d) of Some h \<Rightarrow> next_frame (h f) | None \<Rightarrow>
      case constant_value d of Some v \<Rightarrow> next_frame (push v f) | None \<Rightarrow>
      case load_index d of Some i \<Rightarrow> do_load i f | None \<Rightarrow>
      case store_index d of Some i \<Rightarrow> do_store i f | None \<Rightarrow>
      if d_op d = BC_Iinc then do_iinc d f else exec_arith fp d f)"

text \<open>One iteration; only a case that falls out of the switch reaches the check of the error flag.\<close>

definition jvm_step :: "fp_ops \<Rightarrow> u8 list \<Rightarrow> jvm_frame \<Rightarrow> jvm_outcome ub" where
  "jvm_step fp code f = do {
     d \<leftarrow> decode_opcode (drop (unat (f_pc f)) code);
     if d_op d = BC_Invalid
     then Some (J_fail (make_error BadInput (''JVM: invalid opcode at pc='' @ show_nat (unat (f_pc f)))))
     else do {
       out \<leftarrow> exec_op fp d f;
       Some (case out of
           J_next f' \<Rightarrow> (case f_error f' of
               Some m \<Rightarrow> J_fail (make_error Internal (''JVM error at pc='' @ show_nat (unat (f_pc f')) @ '': '' @ m))
             | None \<Rightarrow> J_jump (f'\<lparr>f_pc := f_pc f' + ucast (d_length d)\<rparr>))
         | _ \<Rightarrow> out)
     }
   }"

definition finish :: "jvm_frame \<Rightarrow> gvalue" where
  "finish f = (if f_stack f \<noteq> [] then fst (pop f) else v_uninit)"

text \<open>The loop may run forever.\<close>

partial_function (option) jvm_loop :: "fp_ops \<Rightarrow> u8 list \<Rightarrow> jvm_frame \<Rightarrow> gvalue result ub option" where
  "jvm_loop fp code f =
     (if unat (f_pc f) < length code
      then (case jvm_step fp code f of
          None \<Rightarrow> Some None
        | Some (J_next f') \<Rightarrow> jvm_loop fp code f'
        | Some (J_jump f') \<Rightarrow> jvm_loop fp code f'
        | Some (J_return v) \<Rightarrow> Some (Some (Inr v))
        | Some (J_fail e) \<Rightarrow> Some (Some (Inl e)))
      else Some (Some (Inr (finish f))))"

declare jvm_loop.simps [code]

definition jvm_run :: "fp_ops \<Rightarrow> u8 list \<Rightarrow> u16 \<Rightarrow> u16 \<Rightarrow> gvalue list \<Rightarrow> gvalue result ub option" where
  "jvm_run fp code num_locals num_args args =
     (if code = [] then Some (Some (Inl (make_error BadInput ''JVM: empty code'')))
      else if unat num_locals < min (unat num_args) (length args) then Some None
      else let n = min (unat num_args) (length args)
        in jvm_loop fp code \<lparr>f_pc = 0, f_stack = [], f_locals = take n args @ replicate (unat num_locals - n) v_uninit,
             f_error = None\<rparr>)"

end
