(* ===== verification/Jvm_Decode.thy ===== *)
theory Jvm_Decode
  imports Jvm_Opcode
begin

text \<open>
  The decoder against the class file format: it inverts the encoding of every instruction without a
  jump table, it reads exactly the bytes it reports, and it misreads the jump tables.
\<close>

section \<open>The table\<close>

lemma length_jvm_tables: "length jvm_table_0 = 64" "length jvm_table_1 = 64" "length jvm_table_2 = 64" "length jvm_table_3 = 64"
  by (simp_all add: jvm_table_0_def jvm_table_1_def jvm_table_2_def jvm_table_3_def)

lemma length_jvm_table: "length jvm_table = 256"
  by (simp add: jvm_table_def length_jvm_tables)

definition known :: "u8 \<Rightarrow> bool" where
  "known op \<longleftrightarrow> oi_name (jvm_table ! unat op) \<noteq> oi_name kUnknown"

text \<open>The rows without a name are the reserved opcodes, and the enumerators have the positions of their rows.\<close>

lemma table_names:
  "map (\<lambda>r. oi_name r \<noteq> oi_name kUnknown) jvm_table = replicate 0xCB True @ replicate 51 False @ [True, True]"
  by code_simp

lemma known_iff: "known op \<longleftrightarrow> op < 0xCB \<or> 0xFE \<le> op"
proof -
  have op: "unat op < 256" using unsigned_less [of op] by simp
  have "known op \<longleftrightarrow> (replicate 0xCB True @ replicate 51 False @ [True, True]) ! unat op"
    using arg_cong [OF table_names, of "\<lambda>xs. xs ! unat op"] op by (simp add: length_jvm_table known_def)
  also have "\<dots> \<longleftrightarrow> unat op < 0xCB \<or> 0xFE \<le> unat op"
    using op by (auto simp: nth_append nth_Cons split: nat.split)
  finally show ?thesis by (simp add: word_less_nat_alt word_le_nat_alt)
qed

lemma enum_rows:
  "map (unat \<circ> fst) (jvm_opcodes_low @ jvm_opcodes_high) = [0..<0xCB] @ [0xFE, 0xFF]"
  by code_simp

section \<open>Big-endian numbers\<close>

definition bytes16 :: "u16 \<Rightarrow> u8 list" where
  "bytes16 v = [ucast (drop_bit 8 v), ucast v]"

definition bytes32 :: "u32 \<Rightarrow> u8 list" where
  "bytes32 v = [ucast (drop_bit 24 v), ucast (drop_bit 16 v), ucast (drop_bit 8 v), ucast v]"

lemma be16_bytes16: "or (push_bit 8 (ucast (ucast (drop_bit 8 v) :: u8))) (ucast (ucast v :: u8)) = (v :: u16)"
  by (rule bit_word_eqI) (auto simp: bit_or_iff bit_push_bit_iff bit_ucast_iff bit_drop_bit_eq)

lemma be32_bytes32:
  "or (or (or (push_bit 24 (ucast (ucast (drop_bit 24 v) :: u8))) (push_bit 16 (ucast (ucast (drop_bit 16 v) :: u8))))
    (push_bit 8 (ucast (ucast (drop_bit 8 v) :: u8)))) (ucast (ucast v :: u8)) = (v :: u32)"
proof (rule bit_word_eqI)
  fix n assume "n < LENGTH(32)"
  then consider "n < 8" | "8 \<le> n" "n < 16" | "16 \<le> n" "n < 24" | "24 \<le> n" "n < 32" by (simp; linarith)
  then show "bit (or (or (or (push_bit 24 (ucast (ucast (drop_bit 24 v) :: u8))) (push_bit 16 (ucast (ucast (drop_bit 16 v) :: u8))))
    (push_bit 8 (ucast (ucast (drop_bit 8 v) :: u8)))) (ucast (ucast v :: u8)) :: u32) n = bit v n"
    by cases (auto simp: bit_or_iff bit_push_bit_iff bit_ucast_iff bit_drop_bit_eq)
qed

section \<open>Instructions\<close>

text \<open>
  The instructions of the class file format without a jump table, with the layout of their operands; the
  format prescribes zeros for the last arguments of \<open>I_interface\<close> and \<open>I_dynamic\<close>, the decoder ignores them.
\<close>

datatype jvm_instr =
    I_plain u8
  | I_u1 u8 u8
  | I_s1 u8 u8
  | I_u2 u8 u16
  | I_s2 u8 u16
  | I_s4 u8 u32
  | I_iinc u8 u8 u8
  | I_interface u8 u16 u8 u8
  | I_dynamic u8 u16 u8 u8
  | I_multi u8 u16 u8
  | I_wide jvm_opcode u16
  | I_wide_iinc u16 u16

fun encode_instr :: "jvm_instr \<Rightarrow> u8 list" where
  "encode_instr (I_plain op) = [op]"
| "encode_instr (I_u1 op x) = [op, x]"
| "encode_instr (I_s1 op x) = [op, x]"
| "encode_instr (I_u2 op x) = op # bytes16 x"
| "encode_instr (I_s2 op x) = op # bytes16 x"
| "encode_instr (I_s4 op x) = op # bytes32 x"
| "encode_instr (I_iinc op x c) = [op, x, c]"
| "encode_instr (I_interface op x n z) = op # bytes16 x @ [n, z]"
| "encode_instr (I_dynamic op x y z) = op # bytes16 x @ [y, z]"
| "encode_instr (I_multi op x n) = op # bytes16 x @ [n]"
| "encode_instr (I_wide op x) = [0xC4, ucast op] @ bytes16 x"
| "encode_instr (I_wide_iinc x c) = [0xC4, 0x84] @ bytes16 x @ bytes16 c"

definition has_format :: "u8 \<Rightarrow> operand_format \<Rightarrow> bool" where
  "has_format op f \<longleftrightarrow> known op \<and> oi_operand (jvm_table ! unat op) = f"

fun instr_ok :: "jvm_instr \<Rightarrow> bool" where
  "instr_ok (I_plain op) = has_format op OF_None"
| "instr_ok (I_u1 op x) = has_format op OF_U1"
| "instr_ok (I_s1 op x) = has_format op OF_S1"
| "instr_ok (I_u2 op x) = has_format op OF_U2"
| "instr_ok (I_s2 op x) = has_format op OF_S2"
| "instr_ok (I_s4 op x) = has_format op OF_S4"
| "instr_ok (I_iinc op x c) = has_format op OF_U1U1"
| "instr_ok (I_interface op x n z) = has_format op OF_U2U1U1"
| "instr_ok (I_dynamic op x y z) = has_format op OF_U2U2"
| "instr_ok (I_multi op x n) = has_format op OF_U2U1"
| "instr_ok (I_wide op x) = (op \<in> set [BC_WideIload, BC_WideFload, BC_WideAload, BC_WideLload, BC_WideDload,
     BC_WideIstore, BC_WideFstore, BC_WideAstore, BC_WideLstore, BC_WideDstore, BC_WideRet])"
| "instr_ok (I_wide_iinc x c) = True"

text \<open>The operands that the decoder is to deliver.\<close>

definition result :: "jvm_opcode \<Rightarrow> nat \<Rightarrow> u32 \<Rightarrow> i32 \<Rightarrow> decoded" where
  "result op n u i = empty_decoded\<lparr>d_op := op, d_length := word_of_nat n, d_u32 := u, d_i32 := i\<rparr>"

fun instr_decoded :: "jvm_instr \<Rightarrow> decoded" where
  "instr_decoded (I_plain op) = result (ucast op) 1 0 0"
| "instr_decoded (I_u1 op x) = result (ucast op) 2 (ucast x) (ucast x)"
| "instr_decoded (I_s1 op x) = result (ucast op) 2 (ucast x) (scast x)"
| "instr_decoded (I_u2 op x) = result (ucast op) 3 (ucast x) (ucast x)"
| "instr_decoded (I_s2 op x) = result (ucast op) 3 (ucast x) (scast x)"
| "instr_decoded (I_s4 op x) = result (ucast op) 5 x x"
| "instr_decoded (I_iinc op x c) = result (ucast op) 3 (ucast x) (scast c)"
| "instr_decoded (I_interface op x n z) = result (ucast op) 5 (ucast x) 0"
| "instr_decoded (I_dynamic op x y z) = result (ucast op) 5 (ucast x) 0"
| "instr_decoded (I_multi op x n) = (result (ucast op) 4 (ucast x) 0)\<lparr>d_switch_count := ucast n\<rparr>"
| "instr_decoded (I_wide op x) = result op 4 (ucast x) 0"
| "instr_decoded (I_wide_iinc x c) = result BC_WideIinc 6 (ucast x) (scast c)"

lemma set_consE: "x \<in> set (y # ys) \<Longrightarrow> (x = y \<Longrightarrow> P) \<Longrightarrow> (x \<in> set ys \<Longrightarrow> P) \<Longrightarrow> P"
  by auto

text \<open>The header of the decoder for an opcode with a row.\<close>

lemma wide_row: "oi_operand (jvm_table ! unat (0xC4 :: u8)) = OF_Wide"
  by code_simp

lemma decode_opcode_row:
  fixes op :: u8 and bs :: "u8 list"
  assumes "has_format op f" "f \<noteq> OF_Wide"
  shows "decode_opcode (op # bs) = decode_operand f (op # bs) (empty_decoded\<lparr>d_length := 1, d_op := ucast op\<rparr>)"
proof -
  have k: "known op" "oi_operand (jvm_table ! unat op) = f" using assms(1) by (simp_all add: has_format_def)
  then have "op \<noteq> 0xC4" using assms(2) wide_row by auto
  moreover have "\<not> (0xCB \<le> op \<and> op \<noteq> 0xFE \<and> op \<noteq> 0xFF)"
  proof -
    have "unat op < 256" using unsigned_less [of op] by simp
    moreover have "unat op < 0xCB \<or> 0xFE \<le> unat op" using k(1) by (simp add: known_iff word_less_nat_alt word_le_nat_alt)
    ultimately show ?thesis by (auto simp: word_le_nat_alt word_unat_eq_iff)
  qed
  ultimately show ?thesis using k by (auto simp: decode_opcode_def known_def Let_def)
qed

lemma decode_plain:
  assumes "instr_ok i" "\<forall>op x. i \<noteq> I_wide op x" "\<forall>x c. i \<noteq> I_wide_iinc x c"
  shows "decode_opcode (encode_instr i @ rest) = Some (instr_decoded i)"
  using assms
  by (cases i) (simp_all add: decode_opcode_row decode_operand_def result_def empty_decoded_def bytes16_def bytes32_def be16_def be32_def
      be16_bytes16 be32_bytes32)

lemma decode_prefix: "decode_opcode (0xC4 # bs) = Some (decode_wide (0xC4 # bs))"
  by (simp add: decode_opcode_def)

lemma decode_wide_ok:
  "instr_ok (I_wide op x) \<Longrightarrow> decode_opcode (encode_instr (I_wide op x) @ rest) = Some (instr_decoded (I_wide op x))"
  "decode_opcode (encode_instr (I_wide_iinc x c) @ rest) = Some (instr_decoded (I_wide_iinc x c))"
proof -
  have w: "decode_wide (0xC4 # b # bytes16 x @ rest) = result op 4 (ucast x) 0"
    if "(op, b) \<in> set [(BC_WideIload, 0x15), (BC_WideFload, 0x17), (BC_WideAload, 0x19), (BC_WideLload, 0x16), (BC_WideDload, 0x18),
      (BC_WideIstore, 0x36), (BC_WideFstore, 0x38), (BC_WideAstore, 0x3A), (BC_WideLstore, 0x37), (BC_WideDstore, 0x39), (BC_WideRet, 0xA9)]" for op b
    using that by (elim set_consE)
      (simp_all add: decode_wide_def kWide_def Let_def result_def empty_decoded_def bytes16_def be16_def be16_bytes16)
  show "instr_ok (I_wide op x) \<Longrightarrow> decode_opcode (encode_instr (I_wide op x) @ rest) = Some (instr_decoded (I_wide op x))"
    by (auto simp: decode_prefix intro!: w)
  show "decode_opcode (encode_instr (I_wide_iinc x c) @ rest) = Some (instr_decoded (I_wide_iinc x c))"
    by (simp add: decode_prefix decode_wide_def kWide_def Let_def result_def empty_decoded_def bytes16_def be16_def be16_bytes16)
qed



section \<open>Only encodings are decoded\<close>

lemma no_high_bit: "8 \<le> k \<Longrightarrow> \<not> bit (w :: u8) (k + n)"
  using bit_imp_le_length [of w "k + n"] by auto

lemma bytes16_be16: "bytes16 (or (push_bit 8 (ucast a)) (ucast b)) = [a, b]"
  unfolding bytes16_def
  by (auto intro!: bit_word_eqI simp: bit_or_iff bit_push_bit_iff bit_ucast_iff bit_drop_bit_eq no_high_bit)

lemma bytes32_be32:
  "bytes32 (or (or (or (push_bit 24 (ucast a)) (push_bit 16 (ucast b))) (push_bit 8 (ucast c))) (ucast d)) = [a, b, c, d]"
  unfolding bytes32_def
  by (auto intro!: bit_word_eqI simp: bit_or_iff bit_push_bit_iff bit_ucast_iff bit_drop_bit_eq no_high_bit)

lemma list_ge2: "2 \<le> length xs \<Longrightarrow> \<exists>a b ys. xs = a # b # ys"
  by (cases xs; cases "tl xs") auto

lemma list_ge3: "3 \<le> length xs \<Longrightarrow> \<exists>a b c ys. xs = a # b # c # ys"
  by (cases xs; cases "tl xs"; cases "tl (tl xs)") auto

lemma list_ge4: "4 \<le> length xs \<Longrightarrow> \<exists>a b c d ys. xs = a # b # c # d # ys"
  using list_ge2 [of xs] list_ge2 [of "tl (tl xs)"] by auto

lemma list_ge5: "5 \<le> length xs \<Longrightarrow> \<exists>a b c d e ys. xs = a # b # c # d # e # ys"
  using list_ge3 [of xs] list_ge2 [of "tl (tl (tl xs))"] by auto

lemma ucast_op_valid: "ucast (op :: u8) \<noteq> (BC_Invalid :: u16)"
proof
  assume "ucast op = (BC_Invalid :: u16)"
  then have "bit (ucast op :: u16) 15" by simp
  then have "bit op 15" by (simp add: bit_ucast_iff)
  then show False by (auto dest: bit_imp_le_length)
qed

lemma invalid_op [simp]: "d_op (invalid d) = BC_Invalid"
  by (simp add: invalid_def)

text \<open>The wide forms.\<close>

lemma decode_wide_only:
  assumes "d_op (decode_wide (0xC4 # bs)) \<noteq> BC_Invalid"
  shows "\<exists>i rest. instr_ok i \<and> 0xC4 # bs = encode_instr i @ rest \<and> decode_wide (0xC4 # bs) = instr_decoded i"
proof -
  obtain b cs where bs: "bs = b # cs" using assms by (cases bs) (auto simp: decode_wide_def Let_def)
  obtain e where e: "find (\<lambda>e. ucast (snd e) = b) kWide = Some e"
    using assms by (cases "find (\<lambda>e. ucast (snd e) = b) kWide") (auto simp: bs decode_wide_def Let_def)
  have b: "b = ucast (snd e)" "e \<in> set kWide" using e by (auto simp: find_Some_iff nth_mem)
  show ?thesis
  proof (cases "fst e = BC_WideIinc")
    case True
    then have "e = (BC_WideIinc, BC_Iinc)" using b(2) by (auto simp: kWide_def)
    moreover have "4 \<le> length cs" using assms e True by (auto simp: bs decode_wide_def Let_def split: if_splits)
    then obtain x y z w ds where "cs = x # y # z # w # ds" using list_ge4 by blast
    ultimately show ?thesis using e b(1)
      by (intro exI [of _ "I_wide_iinc (be16 (0xC4 # bs) 2) (be16 (0xC4 # bs) 4)"] exI [of _ ds])
        (simp add: bs decode_wide_def Let_def result_def empty_decoded_def be16_def bytes16_be16)
  next
    case False
    then have "2 \<le> length cs" using assms e by (auto simp: bs decode_wide_def Let_def split: if_splits)
    then obtain x y ds where "cs = x # y # ds" using list_ge2 by blast
    moreover have "instr_ok (I_wide (fst e) v)" for v using b(2) False by (auto simp: kWide_def)
    moreover have "ucast (fst e) = b" using b by (auto simp: kWide_def)
    ultimately show ?thesis using e False
      by (intro exI [of _ "I_wide (fst e) (be16 (0xC4 # bs) 2)"] exI [of _ ds])
        (simp add: bs decode_wide_def Let_def result_def empty_decoded_def be16_def bytes16_be16)
  qed
qed

text \<open>The operands behind a one-byte opcode.\<close>

lemma decode_row_only:
  assumes f: "has_format op f" "f \<notin> {OF_Wide, OF_TableSwitch, OF_LookupSwitch}"
    and d: "decode_operand f (op # bs) (empty_decoded\<lparr>d_length := 1, d_op := ucast op\<rparr>) = Some d" "d_op d \<noteq> BC_Invalid"
  shows "\<exists>i rest. instr_ok i \<and> op # bs = encode_instr i @ rest \<and> d = instr_decoded i"
proof -
  note defs = decode_operand_def result_def empty_decoded_def be16_def be32_def bytes16_be16 bytes32_be32 invalid_def
  consider "f = OF_None" | "f = OF_U1" | "f = OF_S1" | "f = OF_U2" | "f = OF_S2" | "f = OF_S4" | "f = OF_U1U1"
    | "f = OF_U2U1U1" | "f = OF_U2U2" | "f = OF_U2U1"
    using f(2) by (cases f) auto
  then show ?thesis
  proof cases
    case 1
    then show ?thesis using f d by (intro exI [of _ "I_plain op"] exI [of _ bs]) (auto simp: defs)
  next
    case 2
    then obtain a cs where "bs = a # cs" using d by (cases bs) (auto simp: defs)
    then show ?thesis using f d 2 by (intro exI [of _ "I_u1 op a"] exI [of _ cs]) (auto simp: defs)
  next
    case 3
    then obtain a cs where "bs = a # cs" using d by (cases bs) (auto simp: defs)
    then show ?thesis using f d 3 by (intro exI [of _ "I_s1 op a"] exI [of _ cs]) (auto simp: defs)
  next
    case 4
    then obtain a b cs where "bs = a # b # cs" using d list_ge2 [of bs] by (auto simp: defs split: if_splits)
    then show ?thesis using f d 4 by (intro exI [of _ "I_u2 op (be16 (op # bs) 1)"] exI [of _ cs]) (auto simp: defs)
  next
    case 5
    then obtain a b cs where "bs = a # b # cs" using d list_ge2 [of bs] by (auto simp: defs split: if_splits)
    then show ?thesis using f d 5 by (intro exI [of _ "I_s2 op (be16 (op # bs) 1)"] exI [of _ cs]) (auto simp: defs)
  next
    case 6
    then obtain a b c e cs where "bs = a # b # c # e # cs" using d list_ge4 [of bs] by (auto simp: defs split: if_splits)
    then show ?thesis using f d 6 by (intro exI [of _ "I_s4 op (be32 (op # bs) 1)"] exI [of _ cs]) (auto simp: defs)
  next
    case 7
    then obtain a b cs where "bs = a # b # cs" using d list_ge2 [of bs] by (auto simp: defs split: if_splits)
    then show ?thesis using f d 7 by (intro exI [of _ "I_iinc op a b"] exI [of _ cs]) (auto simp: defs)
  next
    case 8
    then obtain a b c e cs where "bs = a # b # c # e # cs" using d list_ge4 [of bs] by (auto simp: defs split: if_splits)
    then show ?thesis using f d 8 by (intro exI [of _ "I_interface op (be16 (op # bs) 1) c e"] exI [of _ cs]) (auto simp: defs)
  next
    case 9
    then obtain a b c e cs where "bs = a # b # c # e # cs" using d list_ge4 [of bs] by (auto simp: defs split: if_splits)
    then show ?thesis using f d 9 by (intro exI [of _ "I_dynamic op (be16 (op # bs) 1) c e"] exI [of _ cs]) (auto simp: defs)
  next
    case 10
    then obtain a b c cs where "bs = a # b # c # cs" using d list_ge3 [of bs] by (auto simp: defs split: if_splits)
    then show ?thesis using f d 10 by (intro exI [of _ "I_multi op (be16 (op # bs) 1) c"] exI [of _ cs]) (auto simp: defs)
  qed
qed

lemma switch_rows: "oi_operand (jvm_table ! unat (0xAA :: u8)) = OF_TableSwitch" "oi_operand (jvm_table ! unat (0xAB :: u8)) = OF_LookupSwitch"
  by code_simp+

lemma switch_ops:
  "map (\<lambda>r. oi_operand r = OF_TableSwitch \<or> oi_operand r = OF_LookupSwitch) jvm_table =
    replicate 0xAA False @ [True, True] @ replicate 84 False"
  by code_simp

lemma decode_switch_op:
  assumes "oi_operand (jvm_table ! unat (op :: u8)) \<in> {OF_TableSwitch, OF_LookupSwitch}"
  shows "op = 0xAA \<or> op = 0xAB"
proof -
  have op: "unat op < 256" using unsigned_less [of op] by simp
  then have "(replicate 0xAA False @ [True, True] @ replicate 84 False) ! unat op"
    using arg_cong [OF switch_ops, of "\<lambda>xs. xs ! unat op"] assms by (simp add: length_jvm_table)
  then have "unat op = 0xAA \<or> unat op = 0xAB"
    using op by (auto simp: nth_append nth_Cons split: if_splits nat.split_asm)
  then show ?thesis by (simp add: word_unat_eq_iff)
qed

lemma decoded_encoding:
  assumes d: "decode_opcode bs = Some d" "d_op d \<noteq> BC_Invalid" "bs ! 0 \<noteq> 0xAA" "bs ! 0 \<noteq> 0xAB"
  shows "\<exists>i rest. instr_ok i \<and> bs = encode_instr i @ rest \<and> d = instr_decoded i \<and> unat (d_length d) = length (encode_instr i)"
proof -
  obtain op cs where bs: "bs = op # cs" using d(1,2) by (cases bs) (auto simp: decode_opcode_def)
  have "\<exists>i rest. instr_ok i \<and> bs = encode_instr i @ rest \<and> d = instr_decoded i"
  proof (cases "op = 0xC4")
    case True
    then show ?thesis using decode_wide_only [of cs] d(1,2) decode_prefix [of cs] by (auto simp: bs)
  next
    case False
    have "known op"
    proof (rule ccontr)
      assume "\<not> known op"
      then show False using d(1,2) False by (auto simp: bs decode_opcode_def known_def Let_def split: if_splits)
    qed
    then have f: "has_format op (oi_operand (jvm_table ! unat op))" by (simp add: has_format_def)
    have "oi_operand (jvm_table ! unat op) \<noteq> OF_Wide"
      using d(1,2) False \<open>known op\<close> by (auto simp: bs decode_opcode_def known_def Let_def decode_operand_def split: if_splits)
    moreover have "oi_operand (jvm_table ! unat op) \<notin> {OF_TableSwitch, OF_LookupSwitch}"
      using decode_switch_op d(3,4) by (auto simp: bs)
    ultimately show ?thesis using decode_row_only [OF f, of cs d] decode_opcode_row [OF f, of cs] d(1,2) by (auto simp: bs)
  qed
  then obtain i rest where i: "instr_ok i" "bs = encode_instr i @ rest" "d = instr_decoded i" by blast
  have "unat (d_length (instr_decoded i)) = length (encode_instr i)"
    by (cases i) (simp_all add: result_def bytes16_def bytes32_def)
  then show ?thesis using i by blast
qed

text \<open>C19: whatever the decoder accepts, apart from the two switches, is the encoding of an instruction with the decoded
  operands: it reads no byte past the reported length, which is at least 1 and at most the bytes there are.\<close>

theorem decode_only_encodings:
  assumes d: "decode_opcode bs = Some d" "d_op d \<noteq> BC_Invalid" "bs ! 0 \<noteq> 0xAA" "bs ! 0 \<noteq> 0xAB"
  shows "\<exists>i rest. instr_ok i \<and> bs = encode_instr i @ rest \<and> d = instr_decoded i \<and> unat (d_length d) = length (encode_instr i)"
  using assms by (rule decoded_encoding)

theorem decode_only_encodings_witness:
  "\<exists>i rest. instr_ok i \<and> [0x60, 0x11] = encode_instr i @ rest \<and> result BC_Iadd 1 0 0 = instr_decoded i"
proof -
  have "decode_opcode [0x60, 0x11] = Some (result BC_Iadd 1 0 0)" by code_simp
  from decode_only_encodings [OF this] show ?thesis by (auto simp: result_def)
qed

section \<open>The jump tables are misread\<close>

lemma lookup_lengths:
  "list_all (\<lambda>n. map_option (\<lambda>b. word_of_int (12 + sint b) :: u8) (s_mul (push_bit 24 (ucast (word_of_nat n :: u8))) (8 :: u32))
     = (if n < 16 then Some 12 else None)) [0..<240]"
  by code_simp

text \<open>For a \<^verbatim>\<open>lookupswitch\<close> with \<open>n\<close> pairs, encoded as the class file format prescribes, the decoder reports 12 bytes
  instead of \<open>12 + 8 * n\<close> when \<open>n < 16\<close>, and its arithmetic overflows from 16 pairs on (stated below 240 pairs).\<close>

lemma lookupswitch_misread:
  assumes "n < 240"
  shows "map_option d_length (decode_opcode ([0xAB, 0, 0, 0] @ bytes32 target @ bytes32 (word_of_nat n) @ pairs)) =
    (if n < 16 then Some 12 else None)"
proof -
  have b: "bytes32 (word_of_nat n) = [0, 0, 0, word_of_nat n]"
  proof -
    have "list_all (\<lambda>n. bytes32 (word_of_nat n) = [0, 0, 0, word_of_nat n]) [0..<256]" by code_simp
    then show ?thesis using assms by (simp add: list_all_iff)
  qed
  have "decode_opcode ([0xAB, 0, 0, 0] @ bytes32 target @ bytes32 (word_of_nat n) @ pairs) =
    decode_lookupswitch ([0xAB, 0, 0, 0] @ bytes32 target @ [0, 0, 0, word_of_nat n] @ pairs)
      (empty_decoded\<lparr>d_length := 1, d_op := ucast (0xAB :: u8)\<rparr>)"
    using switch_rows(2) decode_opcode_row [of "0xAB" OF_LookupSwitch] by (simp add: has_format_def known_iff decode_operand_def b)
  moreover have "le32 ([0xAB, 0, 0, 0] @ bytes32 target @ [0, 0, 0, word_of_nat n] @ pairs) 8 = push_bit 24 (ucast (word_of_nat n :: u8))"
    by (simp add: le32_def bytes32_def)
  moreover have "map_option (\<lambda>b. word_of_int (12 + sint b) :: u8) (s_mul (push_bit 24 (ucast (word_of_nat n :: u8))) (8 :: u32))
     = (if n < 16 then Some 12 else None)"
    using lookup_lengths assms by (simp add: list_all_iff)
  ultimately show ?thesis
    by (auto simp: decode_lookupswitch_def switch_pad_def bytes32_def bind_eq_None_conv split: if_splits option.splits)
qed

lemma lookupswitch_misread_witness:
  "map_option d_length (decode_opcode ([0xAB, 0, 0, 0] @ bytes32 100 @ bytes32 (word_of_nat 2) @ bytes32 1 @ bytes32 20 @ bytes32 2 @ bytes32 40)) = Some 12"
  using lookupswitch_misread [of 2 100 "bytes32 1 @ bytes32 20 @ bytes32 2 @ bytes32 40"] by simp

end
