(* ===== verification/Jvm_Effect.thy ===== *)
theory Jvm_Effect
  imports Jvm_Interp Jvm_Decode
begin

text \<open>
  A bytecode verifier for the instructions of the interpreter: its types are the tags the interpreter
  distinguishes, and the effect of an instruction on the types is shown to agree with the switch.
\<close>

section \<open>Types of values and frames\<close>

datatype jty = T_Any | T_Int | T_Long | T_Float | T_Ref

type_synonym jstate = "jty list \<times> jty list"

fun has_ty :: "gvalue \<Rightarrow> jty \<Rightarrow> bool" where
  "has_ty v T_Any = True"
| "has_ty v T_Int = is_int32 v"
| "has_ty v T_Long = is_int64 v"
| "has_ty v T_Float = is_float v"
| "has_ty v T_Ref = is_object v"

definition ty_of :: "gvalue \<Rightarrow> jty" where
  "ty_of v = (case v_tag v of Tag_Int32 \<Rightarrow> T_Int | Tag_Int64 \<Rightarrow> T_Long | Tag_Float \<Rightarrow> T_Float
     | Tag_ObjectRef \<Rightarrow> T_Ref | Tag_Null \<Rightarrow> T_Ref | _ \<Rightarrow> T_Any)"

definition sub_ty :: "jty \<Rightarrow> jty \<Rightarrow> bool" where
  "sub_ty a b \<longleftrightarrow> b = T_Any \<or> a = b"

definition sub_state :: "jstate \<Rightarrow> jstate \<Rightarrow> bool" where
  "sub_state S T \<longleftrightarrow> list_all2 sub_ty (fst S) (fst T) \<and> list_all2 sub_ty (snd S) (snd T)"

text \<open>The frame has the types of its locals and its stack, the stack fits, and no error is pending.\<close>

definition conf :: "jvm_frame \<Rightarrow> jstate \<Rightarrow> bool" where
  "conf f T \<longleftrightarrow> list_all2 has_ty (f_locals f) (fst T) \<and> list_all2 has_ty (f_stack f) (snd T)
     \<and> length (f_stack f) \<le> kMaxJvmStack \<and> f_error f = None"

section \<open>The effect of an instruction on the types\<close>

text \<open>The types of the operands, the top of the stack first, and of the result.\<close>

definition int_ops :: "jvm_opcode list" where
  "int_ops = [BC_Iadd, BC_Isub, BC_Imul, BC_Iand, BC_Ior, BC_Ixor, BC_Ishl, BC_Ishr, BC_Iushr, BC_Idiv, BC_Irem]"

definition long_ops :: "jvm_opcode list" where
  "long_ops = [BC_Ladd, BC_Lsub, BC_Lmul]"

definition float_ops :: "jvm_opcode list" where
  "float_ops = [BC_Fadd, BC_Dadd, BC_Fsub, BC_Dsub, BC_Fmul, BC_Dmul, BC_Fdiv, BC_Ddiv]"

definition conversions :: "(jvm_opcode \<times> jty \<times> jty) list" where
  "conversions =
     [(BC_Ineg, T_Int, T_Int), (BC_I2l, T_Int, T_Long), (BC_I2f, T_Int, T_Float), (BC_I2d, T_Int, T_Float),
      (BC_L2i, T_Long, T_Int), (BC_L2f, T_Long, T_Float), (BC_L2d, T_Long, T_Float), (BC_F2i, T_Float, T_Int),
      (BC_D2i, T_Float, T_Int), (BC_F2l, T_Float, T_Long), (BC_D2l, T_Float, T_Long), (BC_F2d, T_Float, T_Float),
      (BC_D2f, T_Float, T_Float), (BC_I2b, T_Int, T_Int), (BC_I2c, T_Int, T_Int), (BC_I2s, T_Int, T_Int)]"

definition branches1 :: "(jvm_opcode \<times> jty) list" where
  "branches1 = [(BC_Ifeq, T_Int), (BC_Ifne, T_Int), (BC_Iflt, T_Int), (BC_Ifge, T_Int), (BC_Ifgt, T_Int), (BC_Ifle, T_Int),
     (BC_Ifnull, T_Ref), (BC_Ifnonnull, T_Ref)]"

definition branches2 :: "jvm_opcode list" where
  "branches2 = [BC_IfIcmpeq, BC_IfIcmpne, BC_IfIcmplt, BC_IfIcmpge, BC_IfIcmpgt, BC_IfIcmple]"

definition returns :: "(jvm_opcode \<times> jty) list" where
  "returns = [(BC_Ireturn, T_Int), (BC_Lreturn, T_Long), (BC_Freturn, T_Float), (BC_Dreturn, T_Float), (BC_Areturn, T_Ref)]"

definition signature :: "jvm_opcode \<Rightarrow> (jty list \<times> jty list) option" where
  "signature op =
     (if op \<in> set int_ops then Some ([T_Int, T_Int], [T_Int])
      else if op \<in> set long_ops then Some ([T_Long, T_Long], [T_Long])
      else if op \<in> set float_ops then Some ([T_Float, T_Float], [T_Float])
      else if op = BC_Lcmp then Some ([T_Long, T_Long], [T_Int])
      else if op \<in> set [BC_Fcmpl, BC_Fcmpg, BC_Dcmpl, BC_Dcmpg] then Some ([T_Float, T_Float], [T_Int])
      else if op \<in> set branches2 then Some ([T_Int, T_Int], [])
      else if op = BC_Nop \<or> op = BC_Goto \<or> op = BC_GotoW \<or> op = BC_Return then Some ([], [])
      else case map_of conversions op of Some (a, r) \<Rightarrow> Some ([a], [r])
      | None \<Rightarrow> map_option (\<lambda>a. ([a], [])) (map_of (branches1 @ returns) op))"

fun pop_tys :: "jty list \<Rightarrow> jty list \<Rightarrow> jty list option" where
  "pop_tys [] s = Some s"
| "pop_tys (a # as) (t # s) = (if t = a then pop_tys as s else None)"
| "pop_tys (a # as) [] = None"

definition fits :: "jty list \<Rightarrow> jty list option" where
  "fits s = (if length s \<le> kMaxJvmStack then Some s else None)"

text \<open>Loads, stores and the operations on the stack are polymorphic.\<close>

fun eff_stack :: "jvm_opcode \<Rightarrow> jty list \<Rightarrow> jty list option" where
  "eff_stack op (a # b # s) =
     (if op = BC_Pop then Some (b # s) else if op = BC_Pop2 then Some s else if op = BC_Dup then fits (a # a # b # s)
      else if op = BC_DupX1 then fits (a # b # a # s) else if op = BC_Swap then Some (b # a # s) else None)"
| "eff_stack op [a] =
     (if op = BC_Pop then Some [] else if op = BC_Dup then fits [a, a] else None)"
| "eff_stack op [] = None"

definition eff :: "decoded \<Rightarrow> jstate \<Rightarrow> jstate option" where
  "eff d T =
     (let (l, s) = T in
      case signature (d_op d) of
        Some (args, res) \<Rightarrow> map_option (\<lambda>s. (l, res @ s)) (pop_tys args s)
      | None \<Rightarrow> case constant_value d of Some v \<Rightarrow> map_option (Pair l) (fits (ty_of v # s))
      | None \<Rightarrow> case load_index d of Some i \<Rightarrow> (if i < length l then map_option (Pair l) (fits (l ! i # s)) else None)
      | None \<Rightarrow> case store_index d of
          Some i \<Rightarrow> (case s of t # s \<Rightarrow> if i < length l then Some (l[i := t], s) else None | [] \<Rightarrow> None)
      | None \<Rightarrow> if d_op d = BC_Iinc
          then (if unat (d_u32 d) < length l \<and> l ! unat (d_u32 d) = T_Int then Some (l, s) else None)
          else map_option (Pair l) (eff_stack (d_op d) s))"

section \<open>Verified code\<close>

definition jumps :: "jvm_opcode \<Rightarrow> bool" where
  "jumps op \<longleftrightarrow> op \<in> set (branches2 @ map fst branches1 @ [BC_Goto, BC_GotoW])"

definition leaves :: "jvm_opcode \<Rightarrow> bool" where
  "leaves op \<longleftrightarrow> op \<in> set (BC_Return # map fst returns)"

definition successors :: "u32 \<Rightarrow> decoded \<Rightarrow> u32 list" where
  "successors pc d =
     (if leaves (d_op d) then [] else if d_op d = BC_Goto \<or> d_op d = BC_GotoW then [pc + d_i32 d]
      else if jumps (d_op d) then [pc + d_i32 d, pc + ucast (d_length d)] else [pc + ucast (d_length d)])"

text \<open>A typing gives the types before the instruction at each position; \<open>r\<close> is the type of the returned value.\<close>

type_synonym typing = "(u32 \<times> jstate) list"

definition instr_at :: "u8 list \<Rightarrow> u32 \<Rightarrow> decoded ub" where
  "instr_at code pc = decode_opcode (drop (unat pc) code)"

definition flows :: "typing \<Rightarrow> jstate \<Rightarrow> u32 \<Rightarrow> bool" where
  "flows phi S q \<longleftrightarrow> (case map_of phi q of None \<Rightarrow> False | Some T \<Rightarrow> sub_state S T)"

definition wt_instr :: "u8 list \<Rightarrow> typing \<Rightarrow> jty \<Rightarrow> u32 \<Rightarrow> jstate \<Rightarrow> bool" where
  "wt_instr code phi r pc T \<longleftrightarrow> unat pc < length code \<and>
     (case instr_at code pc of None \<Rightarrow> False
      | Some d \<Rightarrow> d_op d \<noteq> BC_Invalid \<and>
          (case map_of returns (d_op d) of None \<Rightarrow> True | Some t \<Rightarrow> t = r) \<and>
          (case eff d T of None \<Rightarrow> False
           | Some T' \<Rightarrow> list_all (flows phi T') (successors pc d)))"

definition wt_code :: "u8 list \<Rightarrow> typing \<Rightarrow> jty \<Rightarrow> bool" where
  "wt_code code phi r \<longleftrightarrow> list_all (\<lambda>(pc, T). wt_instr code phi r pc T) phi"

text \<open>The instructions whose host arithmetic is partial, and the two that raise an error of the program.\<close>

definition partial_ops :: "jvm_opcode list" where
  "partial_ops = [BC_Idiv, BC_Irem, BC_Ineg, BC_F2i, BC_D2i, BC_F2l, BC_D2l]"

definition has_partial :: "u8 list \<Rightarrow> typing \<Rightarrow> bool" where
  "has_partial code phi \<longleftrightarrow>
     list_ex (\<lambda>(pc, T). case instr_at code pc of None \<Rightarrow> False | Some d \<Rightarrow> d_op d \<in> set partial_ops) phi"

definition by_zero :: string where
  "by_zero = ''ArithmeticException: / by zero''"

definition forward :: "u8 list \<Rightarrow> typing \<Rightarrow> bool" where
  "forward code phi \<longleftrightarrow>
     list_all (\<lambda>(pc, T). case instr_at code pc of None \<Rightarrow> True | Some d \<Rightarrow> list_all (\<lambda>q. pc < q) (successors pc d)) phi"

section \<open>Which case of the switch runs\<close>

named_theorems switch \<open>the tables of the interpreter\<close>

lemmas [switch] = exec_op_def exec_arith_def exec_control_def stack_op_def constant_value_def constant_table_def load_index_def
  load_table_def store_index_def store_table_def int_op_table_def long_op_table_def float_op_table_def unary_op_def
  branch1_table_def branch2_table_def value_returns_def

lemma exec_int_op:
  "d_op d \<in> set int_ops \<Longrightarrow> d_op d \<noteq> BC_Idiv \<Longrightarrow> d_op d \<noteq> BC_Irem \<Longrightarrow>
   exec_op fp d f = next_frame (binary_int (the (map_of int_op_table (d_op d))) f)"
  unfolding int_ops_def by (elim set_consE) (simp_all add: switch)

lemma exec_division:
  "d_op d = BC_Idiv \<Longrightarrow> exec_op fp d f = map_option J_next (divide_int s_div f)"
  "d_op d = BC_Irem \<Longrightarrow> exec_op fp d f = map_option J_next (divide_int s_mod f)"
  by (simp_all add: switch)

lemma exec_long_op:
  "d_op d \<in> set long_ops \<Longrightarrow>
   exec_op fp d f = next_frame (binary_long (\<lambda>x y. from_int64 (the (map_of long_op_table (d_op d)) x y)) f)"
  unfolding long_ops_def by (elim set_consE) (simp_all add: switch)

lemma exec_float_op:
  "d_op d \<in> set float_ops \<Longrightarrow>
   exec_op fp d f = next_frame (binary_float fp (\<lambda>x y. from_float (the (map_of (float_op_table fp) (d_op d)) x y)) f)"
  unfolding float_ops_def by (elim set_consE) (simp_all add: switch)

lemma exec_lcmp: "d_op d = BC_Lcmp \<Longrightarrow> exec_op fp d f = next_frame (binary_long compare_long f)"
  by (simp add: switch)

lemma exec_fcmp:
  assumes "d_op d \<in> set [BC_Fcmpl, BC_Fcmpg, BC_Dcmpl, BC_Dcmpg]"
  shows "exec_op fp d f = next_frame (binary_float fp (compare_float fp) f)"
  using assms by (elim set_consE) (simp_all add: switch)

lemma exec_branch2: "d_op d \<in> set branches2 \<Longrightarrow> \<exists>p. exec_op fp d f = do_branch2 p d f"
  unfolding branches2_def by (elim set_consE) (auto simp: switch)

lemma exec_branch1:
  "map_of branches1 (d_op d) = Some t \<Longrightarrow>
   t = T_Int \<and> (\<exists>p. exec_op fp d f = do_branch1 p d f) \<or> (\<exists>w. exec_op fp d f = do_null_branch w d f)"
  unfolding branches1_def by (drule map_of_SomeD, elim set_consE) (auto simp: switch)

lemma exec_goto: "d_op d = BC_Goto \<or> d_op d = BC_GotoW \<Longrightarrow> exec_op fp d f = branch True d f"
  by (elim disjE) (simp_all add: switch)

lemma exec_return:
  "d_op d = BC_Return \<Longrightarrow> exec_op fp d f = Some (J_return v_uninit)"
  "map_of returns (d_op d) = Some t \<Longrightarrow> exec_op fp d f = Some (J_return (fst (pop f)))"
  unfolding returns_def by (simp add: switch) (drule map_of_SomeD, elim set_consE; simp add: switch)

text \<open>A conversion leaves the frame as it is or pushes a value of the result type.\<close>

definition converts :: "(gvalue \<Rightarrow> jvm_frame \<Rightarrow> (gvalue \<times> jvm_frame) ub) \<Rightarrow> jvm_opcode \<Rightarrow> jty \<Rightarrow> jty \<Rightarrow> bool" where
  "converts h op a r \<longleftrightarrow>
     (\<forall>v f. has_ty v a \<longrightarrow> (case h v f of None \<Rightarrow> op \<in> set partial_ops | Some (v', g) \<Rightarrow> g = f \<and> has_ty v' r))"

lemma exec_conversion:
  "map_of conversions (d_op d) = Some (a, r) \<Longrightarrow>
   exec_op fp d f = next_frame f \<and> a = r \<or> (\<exists>h. exec_op fp d f = do_unary h f \<and> converts h (d_op d) a r)"
  unfolding conversions_def
  by (drule map_of_SomeD, elim set_consE)
    (auto simp: switch converts_def partial_ops_def as_i32_def as_i64_def as_f64_def is_int32_def is_int64_def is_float_def
      intro!: exI [of _ "the (unary_op fp (d_op d))"] split: option.splits)

section \<open>The effect is sound\<close>

definition sound_outcome :: "decoded \<Rightarrow> jvm_frame \<Rightarrow> jstate \<Rightarrow> jvm_outcome ub \<Rightarrow> bool" where
  "sound_outcome d f T r = (case r of None \<Rightarrow> d_op d \<in> set partial_ops
     | Some (J_next g) \<Rightarrow> f_pc g = f_pc f \<and> \<not> leaves (d_op d) \<and> d_op d \<noteq> BC_Goto \<and> d_op d \<noteq> BC_GotoW
         \<and> (conf g T \<or> d_op d \<in> set [BC_Idiv, BC_Irem] \<and> f_error g = Some by_zero)
     | Some (J_jump g) \<Rightarrow> jumps (d_op d) \<and> \<not> leaves (d_op d) \<and> f_pc g = f_pc f + d_i32 d \<and> conf g T
     | Some (J_return v) \<Rightarrow> leaves (d_op d) \<and> (d_op d = BC_Return \<and> v = v_uninit \<or> (\<exists>t. map_of returns (d_op d) = Some t \<and> has_ty v t))
     | Some (J_fail e) \<Rightarrow> False)"

lemma pop_conf:
  assumes "conf f (l, t # s)"
  obtains v g where "pop f = (v, g)" "has_ty v t" "conf g (l, s)" "f_pc g = f_pc f" "length s < kMaxJvmStack"
proof -
  obtain v r where f: "f_stack f = v # r" "has_ty v t" "list_all2 has_ty r s"
    using assms by (auto simp: conf_def list_all2_Cons2)
  with assms have "conf (f\<lparr>f_stack := r\<rparr>) (l, s)" "length s < kMaxJvmStack"
    by (auto simp: conf_def list_all2_lengthD [symmetric])
  with f that show thesis by (auto simp: pop_def)
qed

lemma push_conf:
  assumes "conf f (l, s)" "has_ty v t" "length s < kMaxJvmStack"
  shows "conf (push v f) (l, t # s)"
  using assms list_all2_lengthD [of has_ty "f_stack f" s] by (auto simp: conf_def push_def)

lemma pc_kept [simp]: "f_pc (push v f) = f_pc f" "f_pc (set_error m f) = f_pc f" "f_error (set_error m f) = Some m"
  by (simp_all add: push_def set_error_def)

lemma as_typed:
  "is_int32 v \<Longrightarrow> as_i32 v f = (as_int32 v, f)"
  "is_int64 v \<Longrightarrow> as_i64 v f = (as_int64 v, f)"
  "is_float v \<Longrightarrow> as_f64 fp v f = (as_float v, f)"
  by (auto simp: as_i32_def as_i64_def as_f64_def is_int64_def is_float_def)

lemma has_ty_from [simp]:
  "is_int32 (from_int32 x)" "is_int64 (from_int64 y)" "is_float (from_float z)" "has_ty v (ty_of v)"
  by (auto simp: is_int32_def is_int64_def is_float_def is_object_def ty_of_def split: value_tag.split)

text \<open>Two operands of a type and a result.\<close>

lemma pop2_conf:
  assumes "conf f (l, t # u # s)"
  obtains v w g h where "pop f = (v, g)" "pop g = (w, h)" "has_ty v t" "has_ty w u" "conf h (l, s)" "f_pc h = f_pc f" "length s < kMaxJvmStack"
    "Suc (length s) < kMaxJvmStack"
  using assms by (auto elim!: pop_conf)

lemma binary_long_conf:
  "conf f (l, T_Long # T_Long # s) \<Longrightarrow> (\<And>x y. has_ty (h x y) t) \<Longrightarrow>
   conf (binary_long h f) (l, t # s) \<and> f_pc (binary_long h f) = f_pc f"
  by (auto elim!: pop2_conf simp: binary_long_def as_typed push_conf)

lemma binary_float_conf:
  "conf f (l, T_Float # T_Float # s) \<Longrightarrow> (\<And>x y. has_ty (h x y) t) \<Longrightarrow>
   conf (binary_float fp h f) (l, t # s) \<and> f_pc (binary_float fp h f) = f_pc f"
  by (auto elim!: pop2_conf simp: binary_float_def as_typed push_conf)

lemma binary_int_conf:
  "conf f (l, T_Int # T_Int # s) \<Longrightarrow> conf (binary_int h f) (l, T_Int # s) \<and> f_pc (binary_int h f) = f_pc f"
  by (auto elim!: pop2_conf simp: binary_int_def as_typed push_conf)

lemma divide_conf:
  assumes "conf f (l, T_Int # T_Int # s)"
  shows "case divide_int h f of None \<Rightarrow> True
    | Some g \<Rightarrow> f_pc g = f_pc f \<and> (conf g (l, T_Int # s) \<or> f_error g = Some by_zero)"
  using assms
  by (auto elim!: pop2_conf simp: divide_int_def as_typed push_conf by_zero_def split: option.split if_splits)

text \<open>The groups of instructions.\<close>

definition stays :: "jvm_opcode \<Rightarrow> bool" where
  "stays op \<longleftrightarrow> \<not> leaves op \<and> op \<noteq> BC_Goto \<and> op \<noteq> BC_GotoW"

lemmas groups = int_ops_def long_ops_def float_ops_def branches1_def branches2_def returns_def conversions_def

lemma stays_arith:
  "list_all stays (int_ops @ long_ops @ float_ops @ [BC_Lcmp, BC_Fcmpl, BC_Fcmpg, BC_Dcmpl, BC_Dcmpg, BC_Nop])"
  "list_all stays (map fst conversions @ map fst branches1 @ branches2)"
  by (code_simp, code_simp)

lemma stays_no_signature: "signature op = None \<Longrightarrow> stays op"
proof (rule ccontr)
  assume "signature op = None" "\<not> stays op"
  then have "op \<in> set (BC_Goto # BC_GotoW # BC_Return # map fst returns)" by (auto simp: stays_def leaves_def)
  moreover have "list_all (\<lambda>op. signature op \<noteq> None) (BC_Goto # BC_GotoW # BC_Return # map fst returns)" by code_simp
  ultimately show False using \<open>signature op = None\<close> by (auto simp: list_all_iff)
qed

lemma sound_next:
  "stays (d_op d) \<Longrightarrow> conf g T \<and> f_pc g = f_pc f \<Longrightarrow> sound_outcome d f T (next_frame g)"
  by (simp add: stays_def sound_outcome_def next_frame_def)

lemma sound_branch:
  assumes "conf g T" "f_pc g = f_pc f" "jumps (d_op d)" "stays (d_op d) \<or> taken \<and> \<not> leaves (d_op d)"
  shows "sound_outcome d f T (branch taken d g)"
  using assms by (auto simp: stays_def sound_outcome_def branch_def conf_def)

text \<open>The operands of an instruction with a signature.\<close>

lemma if_eqE: "(if c then x else y) = z \<Longrightarrow> (c \<Longrightarrow> x = z \<Longrightarrow> P) \<Longrightarrow> (\<not> c \<Longrightarrow> y = z \<Longrightarrow> P) \<Longrightarrow> P"
  by (simp split: if_splits)

lemma signature_eqE: "Some (a, r) = Some (args, res) \<Longrightarrow> (args = a \<Longrightarrow> res = r \<Longrightarrow> P) \<Longrightarrow> P"
  by simp

lemma signatureE:
  assumes "signature op = Some (args, res)"
  obtains "op \<in> set int_ops" "args = [T_Int, T_Int]" "res = [T_Int]"
  | "op \<in> set long_ops" "args = [T_Long, T_Long]" "res = [T_Long]"
  | "op \<in> set float_ops" "args = [T_Float, T_Float]" "res = [T_Float]"
  | "op = BC_Lcmp" "args = [T_Long, T_Long]" "res = [T_Int]"
  | "op \<in> set [BC_Fcmpl, BC_Fcmpg, BC_Dcmpl, BC_Dcmpg]" "args = [T_Float, T_Float]" "res = [T_Int]"
  | "op \<in> set branches2" "args = [T_Int, T_Int]" "res = []"
  | "op = BC_Nop \<or> op = BC_Goto \<or> op = BC_GotoW \<or> op = BC_Return" "args = []" "res = []"
  | a r where "map_of conversions op = Some (a, r)" "args = [a]" "res = [r]"
  | a where "map_of branches1 op = Some a" "args = [a]" "res = []"
  | a where "map_of returns op = Some a" "args = [a]" "res = []"
  using assms unfolding signature_def
proof (elim if_eqE, goal_cases)
  case 1
  then show ?case by (elim signature_eqE) (rule that(1))
next
  case 2
  then show ?case by (elim signature_eqE) (rule that(2))
next
  case 3
  then show ?case by (elim signature_eqE) (rule that(3))
next
  case 4
  then show ?case by (elim signature_eqE) (rule that(4))
next
  case 5
  then show ?case by (elim signature_eqE) (rule that(5))
next
  case 6
  then show ?case by (elim signature_eqE) (rule that(6))
next
  case 7
  then show ?case by (elim signature_eqE) (rule that(7))
next
  case 8
  then show ?case by (auto simp: map_add_def split: option.splits intro: that(8-))
qed

lemma pop_tys_append: "pop_tys as s = Some s' \<Longrightarrow> s = as @ s'"
  by (induction as s rule: pop_tys.induct) (auto split: if_splits)

text \<open>Loads, stores and constants are not operations on the stack.\<close>

lemma stack_op_none:
  assumes "constant_value d \<noteq> None \<or> load_index d \<noteq> None \<or> store_index d \<noteq> None"
  shows "stack_op (d_op d) = None"
proof (rule ccontr)
  assume "stack_op (d_op d) \<noteq> None"
  then have "d_op d \<in> set [BC_Nop, BC_F2d, BC_D2f, BC_Pop, BC_Pop2, BC_Dup, BC_DupX1, BC_Swap]"
    by (auto simp: stack_op_def split: if_splits)
  then have "constant_value d = None" "load_index d = None" "store_index d = None"
    by (elim set_consE; simp add: switch)+
  with assms show False by simp
qed

lemma load_sound:
  assumes "conf f (l, s)" "i < length l" "fits (l ! i # s) = Some s'" "stays (d_op d)"
  shows "sound_outcome d f (l, s') (do_load i f)"
proof -
  have "length (f_locals f) = length l" "has_ty (f_locals f ! i) (l ! i)" "length s < kMaxJvmStack" "s' = l ! i # s"
    using assms by (auto simp: conf_def fits_def list_all2_conv_all_nth split: if_splits)
  then show ?thesis
    using assms sound_next [of d "push (f_locals f ! i) f" "(l, s')" f] push_conf [of f l s] by (simp add: do_load_def next_frame_def)
qed

lemma store_sound:
  assumes "conf f (l, t # s)" "i < length l" "stays (d_op d)"
  shows "sound_outcome d f (l[i := t], s) (do_store i f)"
proof -
  obtain v g where g: "pop f = (v, g)" "has_ty v t" "conf g (l, s)" "f_pc g = f_pc f" using assms(1) by (rule pop_conf)
  then have "conf (g\<lparr>f_locals := (f_locals g)[i := v]\<rparr>) (l[i := t], s)" "i < length (f_locals g)"
    using assms(2) by (auto simp: conf_def list_all2_update_cong dest: list_all2_lengthD)
  then show ?thesis using g sound_next [of d "g\<lparr>f_locals := (f_locals g)[i := v]\<rparr>" "(l[i := t], s)" f] assms(3)
    by (simp add: do_store_def next_frame_def)
qed

lemma iinc_sound:
  assumes "conf f (l, s)" "unat (d_u32 d) < length l" "l ! unat (d_u32 d) = T_Int" "stays (d_op d)"
  shows "sound_outcome d f (l, s) (do_iinc d f)"
proof -
  let ?i = "unat (d_u32 d)"
  have i: "?i < length (f_locals f)" "is_int32 (f_locals f ! ?i)"
    using assms(1-3) by (auto simp: conf_def list_all2_conv_all_nth)
  have "list_all2 has_ty ((f_locals f)[?i := from_int32 x]) (l[?i := T_Int])" for x
    by (rule list_all2_update_cong) (use assms(1) in \<open>simp_all add: conf_def\<close>)
  moreover have "l[?i := T_Int] = l" using assms(3) by (metis list_update_id)
  ultimately have "conf (f\<lparr>f_locals := (f_locals f)[?i := from_int32 x]\<rparr>) (l, s)" for x
    using assms(1) by (simp add: conf_def)
  then show ?thesis using i assms(4) by (auto simp: do_iinc_def as_typed Let_def intro!: sound_next [unfolded next_frame_def])
qed

text \<open>The operations on the stack one by one.\<close>

lemma top_conf:
  "conf f (l, t # s) \<Longrightarrow> \<exists>v. top_value f = (v, f) \<and> has_ty v t"
  by (auto simp: conf_def list_all2_Cons2 top_value_def)

lemma pop_effect: "conf f (l, a # s) \<Longrightarrow> conf (snd (pop f)) (l, s) \<and> f_pc (snd (pop f)) = f_pc f"
  by (erule pop_conf) simp

lemma pop2_effect:
  "conf f (l, a # b # s) \<Longrightarrow> conf (let f = snd (pop f) in if f_stack f \<noteq> [] then snd (pop f) else f) (l, s)
     \<and> f_pc (let f = snd (pop f) in if f_stack f \<noteq> [] then snd (pop f) else f) = f_pc f"
  using pop_effect [of f l a "b # s"] pop_effect [of "snd (pop f)" l b s] by (auto simp: Let_def conf_def)

lemma dup_effect:
  "conf f (l, a # s) \<Longrightarrow> Suc (length s) < kMaxJvmStack \<Longrightarrow>
   conf (case top_value f of (v, f) \<Rightarrow> push v f) (l, a # a # s) \<and> f_pc (case top_value f of (v, f) \<Rightarrow> push v f) = f_pc f"
  by (frule top_conf) (auto simp: push_conf)

lemma stack_op_effect:
  assumes "eff_stack op s = Some s'" "conf f (l, s)"
  shows "\<exists>h. stack_op op = Some h \<and> conf (h f) (l, s') \<and> f_pc (h f) = f_pc f"
proof (cases "op = BC_DupX1 \<or> op = BC_Swap")
  case True
  with assms show ?thesis
    by (induction op s rule: eff_stack.induct) (auto elim!: pop2_conf simp: stack_op_def fits_def push_conf split: if_splits)
next
  case False
  with assms show ?thesis
    by (induction op s rule: eff_stack.induct)
      (auto simp: stack_op_def fits_def Suc_le_eq dup_effect pop_effect simp del: Let_def split: if_splits intro!: pop2_effect)
qed

lemma stack_sound:
  "eff_stack (d_op d) s = Some s' \<Longrightarrow> conf f (l, s) \<Longrightarrow> stays (d_op d) \<Longrightarrow> sound_outcome d f (l, s') (exec_op fp d f)"
  using stack_op_effect [of "d_op d" s s' f l] by (auto simp: exec_op_def intro!: sound_next)

text \<open>The effect computed by the verifier holds after the instruction.\<close>

lemma unary_sound:
  assumes "conf f (l, a # s)" "converts h (d_op d) a r" "stays (d_op d)"
  shows "sound_outcome d f (l, r # s) (do_unary h f)"
proof -
  obtain v g where g: "pop f = (v, g)" "has_ty v a" "conf g (l, s)" "f_pc g = f_pc f" "length s < kMaxJvmStack"
    using assms(1) by (rule pop_conf)
  have h: "case h v g of None \<Rightarrow> d_op d \<in> set partial_ops | Some (v', g') \<Rightarrow> g' = g \<and> has_ty v' r"
    using assms(2) g(2) unfolding converts_def by blast
  show ?thesis
  proof (cases "h v g")
    case None
    then have "d_op d \<in> set partial_ops" using h by simp
    then show ?thesis using None g by (simp add: do_unary_def sound_outcome_def)
  next
    case (Some p)
    then have "snd p = g" "has_ty (fst p) r" using h by (auto split: prod.splits)
    then show ?thesis using Some g assms(3) sound_next [of d "push (fst p) g" "(l, r # s)" f]
      by (auto simp: do_unary_def next_frame_def push_conf split: prod.splits)
  qed
qed

lemma branch_ops:
  "op \<in> set branches2 \<Longrightarrow> jumps op \<and> stays op" "map_of branches1 op = Some t \<Longrightarrow> jumps op \<and> stays op"
  "op = BC_Goto \<or> op = BC_GotoW \<Longrightarrow> jumps op \<and> \<not> leaves op"
proof -
  show "op \<in> set branches2 \<Longrightarrow> jumps op \<and> stays op" using stays_arith(2) by (simp add: jumps_def list_all_iff)
  show "map_of branches1 op = Some t \<Longrightarrow> jumps op \<and> stays op"
    using stays_arith(2) by (auto simp: jumps_def list_all_iff dest!: map_of_SomeD) force+
  have "list_all (\<lambda>op. jumps op \<and> \<not> leaves op) [BC_Goto, BC_GotoW]" by code_simp
  then show "op = BC_Goto \<or> op = BC_GotoW \<Longrightarrow> jumps op \<and> \<not> leaves op" by auto
qed

lemma branch1_sound:
  "conf f (l, T_Int # s) \<Longrightarrow> jumps (d_op d) \<Longrightarrow> stays (d_op d) \<Longrightarrow> sound_outcome d f (l, s) (do_branch1 p d f)"
  "conf f (l, a # s) \<Longrightarrow> jumps (d_op d) \<Longrightarrow> stays (d_op d) \<Longrightarrow> sound_outcome d f (l, s) (do_null_branch w d f)"
  "conf f (l, T_Int # T_Int # s) \<Longrightarrow> jumps (d_op d) \<Longrightarrow> stays (d_op d) \<Longrightarrow> sound_outcome d f (l, s) (do_branch2 q d f)"
  by (auto elim!: pop2_conf pop_conf simp: do_branch1_def do_branch2_def do_null_branch_def as_typed intro!: sound_branch)

lemma return_sound:
  "d_op d = BC_Return \<Longrightarrow> sound_outcome d f T (exec_op fp d f)"
  "map_of returns (d_op d) = Some t \<Longrightarrow> conf f (l, t # s) \<Longrightarrow> sound_outcome d f T (exec_op fp d f)"
proof -
  have "list_all leaves (BC_Return # map fst returns)" by code_simp
  then have l: "leaves BC_Return" "map_of returns op = Some t \<Longrightarrow> leaves op" for op
    by (auto simp: list_all_iff dest!: map_of_SomeD)
  show "d_op d = BC_Return \<Longrightarrow> sound_outcome d f T (exec_op fp d f)"
    using l(1) by (simp add: exec_return sound_outcome_def)
  show "map_of returns (d_op d) = Some t \<Longrightarrow> conf f (l, t # s) \<Longrightarrow> sound_outcome d f T (exec_op fp d f)"
    using l(2) by (auto simp: exec_return sound_outcome_def elim!: pop_conf)
qed

lemma conversion_sound:
  assumes "map_of conversions (d_op d) = Some (a, r)" "conf f (l, a # s)"
  shows "sound_outcome d f (l, r # s) (exec_op fp d f)"
proof -
  have "stays (d_op d)" using assms(1) stays_arith(2) by (auto simp: list_all_iff dest!: map_of_SomeD) force
  then show ?thesis
    using exec_conversion [OF assms(1), of fp f] assms(2) by (auto intro: unary_sound sound_next)
qed

lemma arith_sound:
  "d_op d \<in> set int_ops \<Longrightarrow> conf f (l, T_Int # T_Int # s) \<Longrightarrow> sound_outcome d f (l, T_Int # s) (exec_op fp d f)"
  "d_op d \<in> set long_ops \<Longrightarrow> conf f (l, T_Long # T_Long # s) \<Longrightarrow> sound_outcome d f (l, T_Long # s) (exec_op fp d f)"
  "d_op d \<in> set float_ops \<Longrightarrow> conf f (l, T_Float # T_Float # s) \<Longrightarrow> sound_outcome d f (l, T_Float # s) (exec_op fp d f)"
proof -
  have stays: "op \<in> set int_ops \<or> op \<in> set long_ops \<or> op \<in> set float_ops \<Longrightarrow> stays op" for op
    using stays_arith(1) by (auto simp: list_all_iff)
  show "d_op d \<in> set long_ops \<Longrightarrow> conf f (l, T_Long # T_Long # s) \<Longrightarrow> sound_outcome d f (l, T_Long # s) (exec_op fp d f)"
    by (simp only: exec_long_op) (rule sound_next [OF stays binary_long_conf], simp_all)
  show "d_op d \<in> set float_ops \<Longrightarrow> conf f (l, T_Float # T_Float # s) \<Longrightarrow> sound_outcome d f (l, T_Float # s) (exec_op fp d f)"
    by (simp only: exec_float_op) (rule sound_next [OF stays binary_float_conf], simp_all)
  assume op: "d_op d \<in> set int_ops" and f: "conf f (l, T_Int # T_Int # s)"
  have div: "sound_outcome d f (l, T_Int # s) (map_option J_next (divide_int h f))" if "d_op d \<in> set [BC_Idiv, BC_Irem]" for h
    using divide_conf [OF f, of h] stays [of "d_op d"] op that
    by (auto simp: sound_outcome_def partial_ops_def stays_def split: option.split)
  show "sound_outcome d f (l, T_Int # s) (exec_op fp d f)"
  proof (cases "d_op d \<in> set [BC_Idiv, BC_Irem]")
    case True
    then consider "d_op d = BC_Idiv" | "d_op d = BC_Irem" by auto
    then show ?thesis using div True by cases (simp_all only: exec_division)
  next
    case False
    then show ?thesis using op f by (simp add: exec_int_op binary_int_conf sound_next stays)
  qed
qed

lemma compare_sound:
  "d_op d = BC_Lcmp \<Longrightarrow> conf f (l, T_Long # T_Long # s) \<Longrightarrow> sound_outcome d f (l, T_Int # s) (exec_op fp d f)"
  "d_op d \<in> set [BC_Fcmpl, BC_Fcmpg, BC_Dcmpl, BC_Dcmpg] \<Longrightarrow> conf f (l, T_Float # T_Float # s) \<Longrightarrow>
   sound_outcome d f (l, T_Int # s) (exec_op fp d f)"
proof -
  have stays: "d_op d \<in> set [BC_Lcmp, BC_Fcmpl, BC_Fcmpg, BC_Dcmpl, BC_Dcmpg] \<Longrightarrow> stays (d_op d)"
    using stays_arith(1) by (auto simp: list_all_iff)
  show "d_op d = BC_Lcmp \<Longrightarrow> conf f (l, T_Long # T_Long # s) \<Longrightarrow> sound_outcome d f (l, T_Int # s) (exec_op fp d f)"
    unfolding exec_lcmp by (rule sound_next [OF stays binary_long_conf]) (auto simp: compare_long_def)
  show "d_op d \<in> set [BC_Fcmpl, BC_Fcmpg, BC_Dcmpl, BC_Dcmpg] \<Longrightarrow> conf f (l, T_Float # T_Float # s) \<Longrightarrow>
   sound_outcome d f (l, T_Int # s) (exec_op fp d f)"
    unfolding exec_fcmp by (rule sound_next [OF stays binary_float_conf]) (auto simp: compare_float_def)
qed

lemma plain_sound:
  assumes "d_op d = BC_Nop \<or> d_op d = BC_Goto \<or> d_op d = BC_GotoW \<or> d_op d = BC_Return" "conf f T"
  shows "sound_outcome d f T (exec_op fp d f)"
proof -
  have nop: "d_op d = BC_Nop \<Longrightarrow> exec_op fp d f = next_frame f" "stays BC_Nop"
    using stays_arith(1) by (simp_all add: exec_op_def stack_op_def)
  consider "d_op d = BC_Nop" | "d_op d = BC_Goto \<or> d_op d = BC_GotoW" | "d_op d = BC_Return" using assms(1) by blast
  then show ?thesis
  proof cases
    case 1
    then show ?thesis using nop assms(2) sound_next [of d f T f] by simp
  next
    case 2
    then show ?thesis using branch_ops(3) [OF 2] assms(2) by (simp add: exec_goto sound_branch)
  next
    case 3
    then show ?thesis by (rule return_sound)
  qed
qed

lemma eff_sound:
  assumes "eff d (l, s) = Some T" "conf f (l, s)"
  shows "sound_outcome d f T (exec_op fp d f)"
proof (cases "signature (d_op d)")
  case (Some sig)
  obtain args res where sig: "signature (d_op d) = Some (args, res)" using Some by (cases sig) simp
  with assms(1) obtain s' where s': "s = args @ s'" "T = (l, res @ s')" by (auto simp: eff_def dest!: pop_tys_append)
  note f = assms(2) [unfolded s'(1)]
  from sig have "sound_outcome d f (l, res @ s') (exec_op fp d f)"
  proof (cases rule: signatureE)
    case 7
    then show ?thesis using f plain_sound [OF 7(1), of f "(l, s')" fp] by simp
  next
    case (9 a)
    then show ?thesis using f exec_branch1 [OF 9(1), of fp f] branch_ops(2) [OF 9(1)] branch1_sound(1,2) by fastforce
  next
    case 6
    then show ?thesis using f exec_branch2 [OF 6(1), of fp f] branch_ops(1) [OF 6(1)] branch1_sound(3) by fastforce
  qed (use f in \<open>simp_all add: arith_sound compare_sound conversion_sound return_sound\<close>)
  then show ?thesis unfolding s'(2) .
next
  case None
  then have st: "stays (d_op d)" by (rule stays_no_signature)
  note sn = stack_op_none [of d]
  show ?thesis
  proof (cases "constant_value d = None \<and> load_index d = None \<and> store_index d = None")
    case True
    then show ?thesis
      using assms None st iinc_sound [of f l s d] stack_sound [of d s _ f l fp]
      by (auto simp: eff_def exec_op_def stack_op_def split: if_splits)
  next
    case False
    then show ?thesis
      using assms None st sn load_sound [of f l s _ _ d] store_sound [of f l] sound_next [of d "push (the (constant_value d)) f" T f]
      by (auto simp: eff_def exec_op_def fits_def push_conf split: if_splits option.splits list.splits)
  qed
qed

end
