(* ===== verification/Jvm_Safe.thy ===== *)
theory Jvm_Safe
  imports Jvm_Effect
begin

text \<open>
  Soundness of the verifier for whole runs: verified code never makes the interpreter report an error of
  the stack or of a tag, and never reaches a local variable out of range; verified code that jumps forward
  only returns.
\<close>

section \<open>One step\<close>

definition division_error :: "nat \<Rightarrow> error" where
  "division_error pc = make_error Internal (''JVM error at pc='' @ show_nat pc @ '': '' @ by_zero)"

definition typed :: "typing \<Rightarrow> jvm_frame \<Rightarrow> bool" where
  "typed phi f \<longleftrightarrow> (\<exists>T. map_of phi (f_pc f) = Some T \<and> conf f T)"

definition safe_result :: "u8 list \<Rightarrow> typing \<Rightarrow> jty \<Rightarrow> gvalue result ub \<Rightarrow> bool" where
  "safe_result code phi r x = (case x of None \<Rightarrow> has_partial code phi
     | Some (Inl e) \<Rightarrow> \<exists>pc. e = division_error pc
     | Some (Inr v) \<Rightarrow> v = v_uninit \<or> has_ty v r)"

lemma sub_ty_sound: "has_ty v a \<Longrightarrow> sub_ty a b \<Longrightarrow> has_ty v b"
  by (auto simp: sub_ty_def)

lemma conf_sub: "conf f S \<Longrightarrow> sub_state S T \<Longrightarrow> conf f T"
  by (auto simp: conf_def sub_state_def intro: list_all2_trans [rotated 1] sub_ty_sound)

lemma conf_pc [simp]: "conf (f\<lparr>f_pc := p\<rparr>) T = conf f T"
  by (simp add: conf_def)

lemma wt_instrD:
  assumes "wt_code code phi r" "typed phi f"
  obtains d T T' where "unat (f_pc f) < length code" "(f_pc f, T) \<in> set phi" "instr_at code (f_pc f) = Some d" "d_op d \<noteq> BC_Invalid"
    "conf f T" "eff d T = Some T'" "\<And>t. map_of returns (d_op d) = Some t \<Longrightarrow> t = r"
    "\<And>q. q \<in> set (successors (f_pc f) d) \<Longrightarrow> flows phi T' q"
proof -
  obtain T where T: "map_of phi (f_pc f) = Some T" "conf f T" using assms(2) by (auto simp: typed_def)
  then have phi: "(f_pc f, T) \<in> set phi" by (auto dest: map_of_SomeD)
  then have "wt_instr code phi r (f_pc f) T" using assms(1) by (auto simp: wt_code_def list_all_iff)
  then obtain d T' where "unat (f_pc f) < length code" "instr_at code (f_pc f) = Some d" "d_op d \<noteq> BC_Invalid"
    "case map_of returns (d_op d) of None \<Rightarrow> True | Some t \<Rightarrow> t = r" "eff d T = Some T'" "list_all (flows phi T') (successors (f_pc f) d)"
    unfolding wt_instr_def by (auto split: option.split_asm)
  moreover from this(4) have "t = r" if "map_of returns (d_op d) = Some t" for t using that by simp
  ultimately show thesis using that [of T d T'] T phi by (simp add: list_all_iff)
qed

lemma flows_typed: "flows phi S (f_pc g) \<Longrightarrow> conf g S \<Longrightarrow> typed phi g"
  by (auto simp: flows_def typed_def intro: conf_sub split: option.split_asm)

text \<open>Where the next iteration is.\<close>

lemma jump_successor:
  "sound_outcome d f T (Some (J_jump g)) \<Longrightarrow> f_pc g \<in> set (successors (f_pc f) d) \<and> conf g T"
  by (auto simp: sound_outcome_def successors_def)

lemma next_successor:
  "sound_outcome d f T (Some (J_next g)) \<Longrightarrow> f_error g = None \<Longrightarrow>
   f_pc g + ucast (d_length d) \<in> set (successors (f_pc f) d) \<and> conf g T"
  by (auto simp: sound_outcome_def successors_def)

text \<open>One iteration of the loop of verified code.\<close>

definition sound_step :: "u8 list \<Rightarrow> typing \<Rightarrow> jty \<Rightarrow> jvm_frame \<Rightarrow> jvm_outcome ub \<Rightarrow> bool" where
  "sound_step code phi r f x = (case x of
       Some (J_next g) \<Rightarrow> False
     | Some (J_jump g) \<Rightarrow> typed phi g \<and> (\<exists>d. instr_at code (f_pc f) = Some d \<and> f_pc g \<in> set (successors (f_pc f) d))
     | Some (J_return v) \<Rightarrow> safe_result code phi r (Some (Inr v))
     | Some (J_fail e) \<Rightarrow> safe_result code phi r (Some (Inl e))
     | None \<Rightarrow> safe_result code phi r None)"

lemma jvm_step_sound:
  assumes "wt_code code phi r" "typed phi f"
  shows "sound_step code phi r f (jvm_step fp code f)"
proof -
  obtain d T T' where d: "(f_pc f, T) \<in> set phi" "instr_at code (f_pc f) = Some d" "d_op d \<noteq> BC_Invalid" "conf f T" "eff d T = Some T'"
    and r: "\<And>t. map_of returns (d_op d) = Some t \<Longrightarrow> t = r"
    and q: "\<And>q. q \<in> set (successors (f_pc f) d) \<Longrightarrow> flows phi T' q"
    using assms by (rule wt_instrD) blast
  have s: "sound_outcome d f T' (exec_op fp d f)" using d(4,5) eff_sound [of d "fst T" "snd T"] by simp
  have step: "jvm_step fp code f = do { out \<leftarrow> exec_op fp d f; Some (case out of
      J_next f' \<Rightarrow> (case f_error f' of
               Some m \<Rightarrow> J_fail (make_error Internal (''JVM error at pc='' @ show_nat (unat (f_pc f')) @ '': '' @ m))
             | None \<Rightarrow> J_jump (f'\<lparr>f_pc := f_pc f' + ucast (d_length d)\<rparr>))
         | _ \<Rightarrow> out) }"
    using d(2,3) by (simp add: jvm_step_def instr_at_def)
  show ?thesis
  proof (cases "exec_op fp d f")
    case None
    then show ?thesis using s d(1,2) unfolding step
      by (auto simp: sound_outcome_def sound_step_def safe_result_def has_partial_def list_ex_iff intro!: bexI [of _ "(f_pc f, T)"])
  next
    case (Some out)
    note s = s [unfolded Some]
    show ?thesis
    proof (cases out)
      case (J_next g)
      show ?thesis
      proof (cases "f_error g")
        case None
        then show ?thesis using next_successor [OF s [unfolded J_next]] q flows_typed [of phi T'] d(2)
          unfolding step Some J_next by (auto simp: sound_step_def)
      next
        case (Some m)
        then have "m = by_zero" using s J_next by (auto simp: sound_outcome_def conf_def)
        then show ?thesis using Some unfolding step \<open>exec_op fp d f = Some out\<close> J_next
          by (auto simp: sound_step_def safe_result_def division_error_def)
      qed
    next
      case (J_jump g)
      then show ?thesis using jump_successor [OF s [unfolded J_jump]] q flows_typed [of phi T'] d(2)
        unfolding step Some J_jump by (auto simp: sound_step_def)
    next
      case (J_return v)
      then show ?thesis using s r unfolding step Some J_return by (auto simp: sound_outcome_def sound_step_def safe_result_def)
    next
      case (J_fail e)
      then show ?thesis using s by (simp add: sound_outcome_def)
    qed
  qed
qed

section \<open>Runs\<close>

lemma list_all2_replicate: "P x y \<Longrightarrow> list_all2 P (replicate n x) (replicate n y)"
  by (induction n) auto

text \<open>The interpreter starts with the arguments in the first locals and nothing in the others.\<close>

definition start_types :: "u16 \<Rightarrow> u16 \<Rightarrow> jty list \<Rightarrow> jty list" where
  "start_types num_locals num_args ts =
     (let n = min (unat num_args) (length ts) in take n ts @ replicate (unat num_locals - n) T_Any)"

definition starts :: "typing \<Rightarrow> u16 \<Rightarrow> u16 \<Rightarrow> jty list \<Rightarrow> bool" where
  "starts phi num_locals num_args ts \<longleftrightarrow> min (unat num_args) (length ts) \<le> unat num_locals
     \<and> map_of phi 0 = Some (start_types num_locals num_args ts, [])"

definition start_frame :: "u16 \<Rightarrow> u16 \<Rightarrow> gvalue list \<Rightarrow> jvm_frame" where
  "start_frame num_locals num_args args =
     (let n = min (unat num_args) (length args) in
      \<lparr>f_pc = 0, f_stack = [], f_locals = take n args @ replicate (unat num_locals - n) v_uninit, f_error = None\<rparr>)"

lemma start_typed:
  assumes "starts phi num_locals num_args ts" "list_all2 has_ty args ts" "wt_code code phi r"
  shows "typed phi (start_frame num_locals num_args args)"
    "jvm_run fp code num_locals num_args args = jvm_loop fp code (start_frame num_locals num_args args)"
proof -
  have len: "length args = length ts" using assms(2) by (rule list_all2_lengthD)
  show typed: "typed phi (start_frame num_locals num_args args)"
    using assms(1,2) len
    by (auto simp: typed_def conf_def starts_def start_types_def start_frame_def Let_def list_all2_replicate
        intro!: list_all2_appendI list_all2_takeI)
  then obtain T where "wt_instr code phi r 0 T"
    using assms(3) by (auto simp: typed_def wt_code_def list_all_iff start_frame_def Let_def dest!: map_of_SomeD)
  then have "code \<noteq> []" by (auto simp: wt_instr_def)
  then show "jvm_run fp code num_locals num_args args = jvm_loop fp code (start_frame num_locals num_args args)"
    using assms(1) len by (auto simp: jvm_run_def start_frame_def starts_def Let_def)
qed

lemma jvm_loop_sound:
  "jvm_loop fp code f = Some x \<Longrightarrow> wt_code code phi r \<Longrightarrow> typed phi f \<Longrightarrow> safe_result code phi r x"
proof (induction fp code f x rule: jvm_loop.raw_induct [rotated, consumes 1, case_names step])
  case (step loop fp code f x)
  have "sound_step code phi r f (jvm_step fp code f)" using step by (intro jvm_step_sound)
  moreover have "unat (f_pc f) < length code" using step by (blast elim: wt_instrD)
  ultimately show ?case using step
    by (auto simp: sound_step_def split: option.splits jvm_outcome.splits)
qed


text \<open>Code that only jumps forward comes to an end.\<close>

lemma jvm_loop_returns:
  "wt_code code phi r \<Longrightarrow> forward code phi \<Longrightarrow> typed phi f \<Longrightarrow> \<exists>x. jvm_loop fp code f = Some x"
proof (induction "length code - unat (f_pc f)" arbitrary: f rule: less_induct)
  case less
  obtain d T where d: "unat (f_pc f) < length code" "(f_pc f, T) \<in> set phi" "instr_at code (f_pc f) = Some d"
    using less.prems(1,3) by (rule wt_instrD)
  then have fwd: "\<forall>q \<in> set (successors (f_pc f) d). f_pc f < q"
    using less.prems(2) by (fastforce simp: forward_def list_all_iff)
  have s: "sound_step code phi r f (jvm_step fp code f)" using less.prems by (intro jvm_step_sound)
  show ?case
  proof (cases "jvm_step fp code f")
    case (Some out)
    show ?thesis
    proof (cases out)
      case (J_jump g)
      then have "typed phi g" "f_pc g \<in> set (successors (f_pc f) d)" using s Some d(3) by (auto simp: sound_step_def)
      then have "\<exists>x. jvm_loop fp code g = Some x"
        using fwd d(1) by (intro less.hyps less.prems) (auto simp: word_less_nat_alt)
      then show ?thesis using Some J_jump d(1) by (simp add: jvm_loop.simps [of fp code f])
    qed (use s Some d(1) in \<open>simp_all add: sound_step_def jvm_loop.simps [of fp code f]\<close>)
  qed (use d(1) in \<open>simp add: jvm_loop.simps [of fp code f]\<close>)
qed

text \<open>Verified code whose branches all lead forward returns from every start.\<close>

lemma forward_code_returns:
  assumes "wt_code code phi r" "forward code phi" "starts phi num_locals num_args ts" "list_all2 has_ty args ts"
  shows "\<exists>x. jvm_run fp code num_locals num_args args = Some x"
  using jvm_loop_returns [OF assms(1,2)] start_typed [OF assms(3,4,1)] by simp

section \<open>An example\<close>

text \<open>The maximum of two arguments, with a branch.\<close>

definition max_code :: "u8 list" where
  "max_code = [0x1A, 0x1B, 0xA1, 0x00, 0x05, 0x1A, 0xAC, 0x1B, 0xAC]"

definition max_typing :: typing where
  "max_typing = (let l = [T_Int, T_Int] in
     [(0, l, []), (1, l, [T_Int]), (2, l, [T_Int, T_Int]), (5, l, []), (6, l, [T_Int]), (7, l, []), (8, l, [T_Int])])"

lemma max_verified:
  "wt_code max_code max_typing T_Int" "forward max_code max_typing" "starts max_typing 2 2 [T_Int, T_Int]"
  "\<not> has_partial max_code max_typing"
  by (code_simp, code_simp, code_simp, code_simp)

lemma max_args: "list_all2 has_ty [from_int32 3, from_int32 8] [T_Int, T_Int]"
  by simp

lemma max_run: "jvm_run fp max_code 2 2 [from_int32 3, from_int32 8] = Some (Some (Inr (from_int32 8)))"
  by code_simp


lemma forward_code_returns_witness: "\<forall>fp. \<exists>x. jvm_run fp max_code 2 2 [from_int32 3, from_int32 8] = Some x"
  by (intro allI) (rule forward_code_returns [OF max_verified(1,2,3) max_args])

end
