(* ===== verification/Epoch_Gc.thy ===== *)
theory Epoch_Gc
  imports Swap_Remove
begin

text \<open>
  \<^verbatim>\<open>runtime/Epoch.hpp\<close>: epoch-based reclamation. Epochs are 64-bit words, pointers and deleters are
  numbers. Every operation is a function on the collector; the interleavings of several threads are the
  steps of \<^verbatim>\<open>Epoch_Safe\<close>. An index past the 64 slots is undefined.
\<close>

section \<open>The collector\<close>

type_synonym epoch = u64

record retired_node =
  rn_retired_at :: epoch
  rn_ptr :: nat
  rn_deleter :: "nat option"

definition kMaxThreads :: nat where
  "kMaxThreads = 64"

record epoch_gc =
  eg_global :: epoch
  eg_threads :: "epoch list"
  eg_next_slot :: u32
  eg_retired :: "retired_node list"

definition new_gc :: epoch_gc where
  "new_gc = \<lparr>eg_global = 1, eg_threads = replicate kMaxThreads 0, eg_next_slot = 0, eg_retired = []\<rparr>"

definition register_thread :: "epoch_gc \<Rightarrow> u32 \<times> epoch_gc" where
  "register_thread gc =
     (let slot = eg_next_slot gc; gc = gc\<lparr>eg_next_slot := slot + 1\<rparr>
      in (if unat slot \<ge> kMaxThreads then 0 else slot, gc))"

definition gc_enter :: "nat \<Rightarrow> epoch_gc \<Rightarrow> (epoch \<times> epoch_gc) ub" where
  "gc_enter slot gc =
     (if slot < kMaxThreads
      then (let e = eg_global gc in Some (e, gc\<lparr>eg_threads := (eg_threads gc)[slot := e]\<rparr>)) else None)"

definition gc_exit :: "nat \<Rightarrow> epoch_gc \<Rightarrow> epoch_gc ub" where
  "gc_exit slot gc = (if slot < kMaxThreads then Some (gc\<lparr>eg_threads := (eg_threads gc)[slot := 0]\<rparr>) else None)"

definition gc_retire :: "epoch \<Rightarrow> nat \<Rightarrow> nat option \<Rightarrow> epoch_gc \<Rightarrow> epoch_gc" where
  "gc_retire now ptr deleter gc =
     gc\<lparr>eg_retired := eg_retired gc @ [\<lparr>rn_retired_at = now, rn_ptr = ptr, rn_deleter = deleter\<rparr>]\<rparr>"

section \<open>Reclamation\<close>

text \<open>The minimum of the published epochs, and whether there is one: one slot, and all of them.\<close>

definition scan_slot :: "epoch \<Rightarrow> bool \<times> epoch \<Rightarrow> bool \<times> epoch" where
  "scan_slot e s = (if e \<noteq> 0 then (True, min (snd s) e) else s)"

definition max_epoch :: epoch where
  "max_epoch = - 1"

definition scan_epochs :: "epoch list \<Rightarrow> bool \<times> epoch" where
  "scan_epochs es = fold scan_slot es (False, max_epoch)"

definition safe_epoch :: "bool \<times> epoch \<Rightarrow> epoch" where
  "safe_epoch s = (if fst s then snd s else max_epoch)"

text \<open>The sweep: a reclaimed entry is replaced by the last one; the calls of deleters are collected in order.\<close>

function gc_sweep :: "epoch \<Rightarrow> nat \<Rightarrow> retired_node list \<Rightarrow> retired_node list \<Rightarrow> retired_node list \<times> retired_node list" where
  "gc_sweep safe i rs freed =
     (if i < length rs
      then (if rn_retired_at (rs ! i) < safe
            then gc_sweep safe i (butlast (rs[i := last rs])) (freed @ [rs ! i])
            else gc_sweep safe (i + 1) rs freed)
      else (rs, freed))"
  by pat_completeness auto
termination by (relation "measure (\<lambda>(safe, i, rs, freed). length rs - i)") auto

declare gc_sweep.simps [simp del]

definition deleter_calls :: "retired_node list \<Rightarrow> (nat \<times> nat) list" where
  "deleter_calls freed = concat (map (\<lambda>r. case rn_deleter r of None \<Rightarrow> [] | Some d \<Rightarrow> [(d, rn_ptr r)]) freed)"

definition reclaim_with :: "bool \<times> epoch \<Rightarrow> epoch_gc \<Rightarrow> retired_node list \<times> epoch_gc" where
  "reclaim_with s gc =
     (let (kept, freed) = gc_sweep (safe_epoch s) 0 (eg_retired gc) []
      in (freed, gc\<lparr>eg_retired := kept, eg_global :=
          (if fst s \<and> snd s = eg_global gc then eg_global gc + 1
           else if \<not> fst s then eg_global gc + 1 else eg_global gc)\<rparr>))"

definition try_reclaim :: "epoch_gc \<Rightarrow> retired_node list \<times> epoch_gc" where
  "try_reclaim gc = reclaim_with (scan_epochs (eg_threads gc)) gc"

definition current_epoch :: "epoch_gc \<Rightarrow> epoch" where
  "current_epoch gc = eg_global gc"

definition retired_count :: "epoch_gc \<Rightarrow> nat" where
  "retired_count gc = length (eg_retired gc)"

section \<open>Laws\<close>

text \<open>The slots with a published epoch.\<close>

definition active :: "epoch_gc \<Rightarrow> nat set" where
  "active gc = {t. t < length (eg_threads gc) \<and> eg_threads gc ! t \<noteq> 0}"

lemma scan_slot_simps [simp]: "e \<noteq> 0 \<Longrightarrow> scan_slot e s = (True, min (snd s) e)" "scan_slot 0 s = s"
  by (simp_all add: scan_slot_def)

lemma scan_slots_le: "snd (fold scan_slot es s) \<le> snd s"
proof (induction es arbitrary: s)
  case (Cons e es)
  show ?case
    using order.trans [OF Cons [of "(True, min (snd s) e)"], of "snd s"] Cons [of s] by (cases "e = 0") simp_all
qed simp

lemma scan_slots_fst: "fst (fold scan_slot es s) \<longleftrightarrow> fst s \<or> (\<exists>e \<in> set es. e \<noteq> 0)"
proof (induction es arbitrary: s)
  case (Cons e es)
  show ?case using Cons by (cases "e = 0") simp_all
qed simp

lemma scan_slots_lower: "e \<in> set es \<Longrightarrow> e \<noteq> 0 \<Longrightarrow> snd (fold scan_slot es s) \<le> e"
proof (induction es arbitrary: s)
  case (Cons x es)
  show ?case
  proof (cases "e = x")
    case True
    then show ?thesis
      using Cons.prems order.trans [OF scan_slots_le [of es "(True, min (snd s) e)"], of e] by simp
  next
    case False
    then have "e \<in> set es" using Cons.prems by simp
    then show ?thesis using Cons.IH [OF _ Cons.prems(2)] by simp
  qed
qed simp

lemma scan_epochs_active: "fst (scan_epochs (eg_threads gc)) \<longleftrightarrow> active gc \<noteq> {}"
  by (fastforce simp: scan_epochs_def scan_slots_fst active_def in_set_conv_nth)

lemma safe_epoch_le: "t \<in> active gc \<Longrightarrow> safe_epoch (scan_epochs (eg_threads gc)) \<le> eg_threads gc ! t"
  using scan_epochs_active [of gc] scan_slots_lower [OF nth_mem, of t "eg_threads gc"]
  by (auto simp: scan_epochs_def active_def safe_epoch_def)

lemma scan_slots_attained:
  "snd (fold scan_slot es s) = snd s \<or> (\<exists>e \<in> set es. e \<noteq> 0 \<and> snd (fold scan_slot es s) = e)"
proof (induction es arbitrary: s)
  case (Cons e es)
  show ?case
    using Cons [of "scan_slot e s"] by (cases "e = 0") (auto simp: min_def split: if_splits)
qed simp

lemma safe_epoch_attained:
  "safe_epoch (scan_epochs (eg_threads gc)) < max_epoch \<Longrightarrow>
   \<exists>t \<in> active gc. eg_threads gc ! t = safe_epoch (scan_epochs (eg_threads gc))"
  using scan_slots_attained [of "eg_threads gc" "(False, max_epoch)"]
  by (auto simp: safe_epoch_def scan_epochs_def active_def in_set_conv_nth split: if_splits)

lemma safe_epoch_idle: "active gc = {} \<Longrightarrow> safe_epoch (scan_epochs (eg_threads gc)) = max_epoch"
  by (simp add: safe_epoch_def scan_epochs_active)

text \<open>The sweep splits the list at the safe epoch.\<close>

lemma sweep_spec:
  assumes "gc_sweep safe i rs freed = (kept, freed')" "\<forall>j < i. j < length rs \<longrightarrow> \<not> rn_retired_at (rs ! j) < safe"
  shows "mset kept = filter_mset (\<lambda>r. \<not> rn_retired_at r < safe) (mset rs)
    \<and> mset freed' = mset freed + filter_mset (\<lambda>r. rn_retired_at r < safe) (mset rs)"
  using assms
proof (induction safe i rs freed rule: gc_sweep.induct)
  case (1 safe i rs freed)
  show ?case
  proof (cases "i < length rs")
    case True
    show ?thesis
    proof (cases "rn_retired_at (rs ! i) < safe")
      case old: True
      let ?rs = "butlast (rs[i := last rs])"
      have "\<forall>j < i. j < length ?rs \<longrightarrow> \<not> rn_retired_at (?rs ! j) < safe"
        using 1(4) True by (auto simp: nth_butlast)
      moreover have "gc_sweep safe i ?rs (freed @ [rs ! i]) = (kept, freed')"
        using 1(3) True old by (simp add: gc_sweep.simps [of safe i rs])
      ultimately show ?thesis
        using 1(1) [OF True old] mset_swap_remove_split [OF True] old by simp
    next
      case False
      have "\<forall>j < i + 1. j < length rs \<longrightarrow> \<not> rn_retired_at (rs ! j) < safe"
        using 1(4) False by (auto simp: less_Suc_eq)
      then show ?thesis using 1(2) [OF True False] 1(3) True False by (simp add: gc_sweep.simps [of safe i rs])
    qed
  next
    case False
    then have k: "kept = rs" "freed' = freed" using 1(3) by (simp_all add: gc_sweep.simps [of safe i rs])
    have "\<forall>r \<in># mset rs. \<not> rn_retired_at r < safe" using 1(4) False by (auto simp: in_set_conv_nth)
    then have "filter_mset (\<lambda>r. \<not> rn_retired_at r < safe) (mset rs) = mset rs"
      "filter_mset (\<lambda>r. rn_retired_at r < safe) (mset rs) = {#}"
      by (auto simp: filter_mset_eq_conv multiset_eq_iff count_eq_zero_iff)
    then show ?thesis using k by simp
  qed
qed

text \<open>What a reclamation frees and keeps.\<close>

lemma reclaim_with_spec:
  assumes "reclaim_with s gc = (freed, gc')"
  shows "mset freed = filter_mset (\<lambda>r. rn_retired_at r < safe_epoch s) (mset (eg_retired gc))"
    "mset (eg_retired gc') = filter_mset (\<lambda>r. \<not> rn_retired_at r < safe_epoch s) (mset (eg_retired gc))"
    "eg_threads gc' = eg_threads gc"
    "eg_global gc' = (if \<not> fst s \<or> snd s = eg_global gc then eg_global gc + 1 else eg_global gc)"
proof -
  obtain kept fr where k: "gc_sweep (safe_epoch s) 0 (eg_retired gc) [] = (kept, fr)" by (meson surj_pair)
  show "mset freed = filter_mset (\<lambda>r. rn_retired_at r < safe_epoch s) (mset (eg_retired gc))"
    "mset (eg_retired gc') = filter_mset (\<lambda>r. \<not> rn_retired_at r < safe_epoch s) (mset (eg_retired gc))"
    "eg_threads gc' = eg_threads gc"
    "eg_global gc' = (if \<not> fst s \<or> snd s = eg_global gc then eg_global gc + 1 else eg_global gc)"
    using assms sweep_spec [OF k] by (auto simp: reclaim_with_def k)
qed

end
