(* ===== verification/Epoch_Safe.thy ===== *)
theory Epoch_Safe
  imports Epoch_Gc
begin

text \<open>
  Threads and collector interleaved. Entering loads the global epoch and then publishes it, the collector
  reads one slot at a time; retiring and sweeping happen on one thread, as the code demands. The state
  remembers which threads may still hold a retired pointer: those inside a compilation when it was
  retired, until they leave.
\<close>

section \<open>Interleavings\<close>

datatype collector = Resting | Scanning nat "bool \<times> epoch"

record epoch_state =
  es_gc :: epoch_gc
  es_entering :: "nat \<Rightarrow> epoch option"
  es_collector :: collector
  es_held :: "(nat \<times> nat) set"
  es_freed :: "nat set"

definition initial_state :: epoch_state where
  "initial_state = \<lparr>es_gc = new_gc, es_entering = (\<lambda>t. None), es_collector = Resting, es_held = {}, es_freed = {}\<rparr>"

definition pending :: "epoch_gc \<Rightarrow> nat set" where
  "pending gc = rn_ptr ` set (eg_retired gc)"

text \<open>\<open>P\<close> is the rule by which the retiring thread chooses the stamp.\<close>

inductive epoch_step :: "(epoch_gc \<Rightarrow> epoch \<Rightarrow> bool) \<Rightarrow> epoch_state \<Rightarrow> epoch_state \<Rightarrow> bool" for P where
  load: "t < kMaxThreads \<Longrightarrow> t \<notin> active (es_gc s) \<Longrightarrow> es_entering s t = None \<Longrightarrow>
    epoch_step P s (s\<lparr>es_entering := (es_entering s)(t := Some (eg_global (es_gc s)))\<rparr>)"
| publish: "t < kMaxThreads \<Longrightarrow> es_entering s t = Some e \<Longrightarrow>
    epoch_step P s (s\<lparr>es_entering := (es_entering s)(t := None),
      es_gc := (es_gc s)\<lparr>eg_threads := (eg_threads (es_gc s))[t := e]\<rparr>\<rparr>)"
| leave: "t \<in> active (es_gc s) \<Longrightarrow> gc_exit t (es_gc s) = Some gc \<Longrightarrow>
    epoch_step P s (s\<lparr>es_gc := gc, es_held := es_held s - {t} \<times> UNIV\<rparr>)"
| retire: "es_collector s = Resting \<Longrightarrow> P (es_gc s) now \<Longrightarrow> p \<notin> pending (es_gc s) \<Longrightarrow> p \<notin> es_freed s \<Longrightarrow>
    epoch_step P s (s\<lparr>es_gc := gc_retire now p d (es_gc s), es_held := es_held s \<union> active (es_gc s) \<times> {p}\<rparr>)"
| begin_scan: "es_collector s = Resting \<Longrightarrow> epoch_step P s (s\<lparr>es_collector := Scanning 0 (False, max_epoch)\<rparr>)"
| scan: "es_collector s = Scanning i x \<Longrightarrow> i < kMaxThreads \<Longrightarrow>
    epoch_step P s (s\<lparr>es_collector := Scanning (Suc i) (scan_slot (eg_threads (es_gc s) ! i) x)\<rparr>)"
| collector_sweep: "es_collector s = Scanning kMaxThreads x \<Longrightarrow> reclaim_with x (es_gc s) = (freed, gc) \<Longrightarrow>
    epoch_step P s (s\<lparr>es_collector := Resting, es_gc := gc, es_freed := es_freed s \<union> rn_ptr ` set freed\<rparr>)"

definition reachable :: "(epoch_gc \<Rightarrow> epoch \<Rightarrow> bool) \<Rightarrow> epoch_state \<Rightarrow> bool" where
  "reachable P s \<longleftrightarrow> (epoch_step P)\<^sup>*\<^sup>* initial_state s"

text \<open>No thread holds a pointer whose deleter ran.\<close>

definition no_use_after_free :: "epoch_state \<Rightarrow> bool" where
  "no_use_after_free s \<longleftrightarrow> (\<forall>(t, p) \<in> es_held s. p \<notin> es_freed s)"

text \<open>Two rules: a stamp no older than any active thread, and the one of the comment on \<open>retire\<close>, the retiring
  thread's own epoch.\<close>

definition stamp_covers_readers :: "epoch_gc \<Rightarrow> epoch \<Rightarrow> bool" where
  "stamp_covers_readers gc now \<longleftrightarrow> (\<forall>t \<in> active gc. eg_threads gc ! t \<le> now)"

definition stamp_own_epoch :: "epoch_gc \<Rightarrow> epoch \<Rightarrow> bool" where
  "stamp_own_epoch gc now \<longleftrightarrow> (\<exists>t \<in> active gc. now = eg_threads gc ! t)"

section \<open>Safety\<close>

definition slots_ok :: "epoch_state \<Rightarrow> bool" where
  "slots_ok s \<longleftrightarrow> length (eg_threads (es_gc s)) = kMaxThreads
     \<and> (\<forall>t. es_entering s t \<noteq> None \<longrightarrow> t \<notin> active (es_gc s))"

definition held_ok :: "epoch_state \<Rightarrow> bool" where
  "held_ok s \<longleftrightarrow> (\<forall>(t, p) \<in> es_held s. t \<in> active (es_gc s) \<and> p \<notin> es_freed s
     \<and> (\<forall>r \<in> set (eg_retired (es_gc s)). rn_ptr r = p \<longrightarrow> eg_threads (es_gc s) ! t \<le> rn_retired_at r))"

definition scan_ok :: "epoch_state \<Rightarrow> bool" where
  "scan_ok s \<longleftrightarrow> (\<forall>i x t p. es_collector s = Scanning i x \<longrightarrow> (t, p) \<in> es_held s \<longrightarrow> t < i \<longrightarrow>
     fst x \<and> snd x \<le> eg_threads (es_gc s) ! t)"

lemma scan_okD:
  "scan_ok s \<Longrightarrow> es_collector s = Scanning i x \<Longrightarrow> (t, p) \<in> es_held s \<Longrightarrow> t < i \<Longrightarrow>
   fst x \<and> snd x \<le> eg_threads (es_gc s) ! t"
  unfolding scan_ok_def by blast

lemma held_okD:
  "held_ok s \<Longrightarrow> (t, p) \<in> es_held s \<Longrightarrow> r \<in> set (eg_retired (es_gc s)) \<Longrightarrow> rn_ptr r = p \<Longrightarrow>
   eg_threads (es_gc s) ! t \<le> rn_retired_at r"
  unfolding held_ok_def by blast

lemma slots_ok_step: "epoch_step P s s' \<Longrightarrow> slots_ok s \<Longrightarrow> slots_ok s'"
proof (induction rule: epoch_step.induct)
  case (publish t s e)
  then show ?case by (auto simp: slots_ok_def active_def nth_list_update)
next
  case (leave t s gc)
  then show ?case by (auto simp: slots_ok_def active_def gc_exit_def nth_list_update split: if_splits)
next
  case (collector_sweep s x freed gc)
  then show ?case using reclaim_with_spec(3) [OF collector_sweep(2)] by (auto simp: slots_ok_def active_def)
qed (auto simp: slots_ok_def active_def gc_retire_def)

lemma scan_ok_step: "epoch_step P s s' \<Longrightarrow> slots_ok s \<Longrightarrow> held_ok s \<Longrightarrow> scan_ok s \<Longrightarrow> scan_ok s'"
proof (induction rule: epoch_step.induct)
  case (publish t s e)
  have "t' \<noteq> t" if "(t', p) \<in> es_held s" for t' p
    using publish that by (fastforce simp: slots_ok_def held_ok_def)
  then show ?case using publish by (fastforce simp: scan_ok_def)
next
  case (leave t s gc)
  then show ?case by (fastforce simp: scan_ok_def gc_exit_def split: if_splits)
next
  case (scan s i x)
  have "t \<in> active (es_gc s)" if "(t, p) \<in> es_held s" for t p using scan that by (auto simp: held_ok_def)
  then have t: "eg_threads (es_gc s) ! t \<noteq> 0" if "(t, p) \<in> es_held s" for t p using that by (auto simp: active_def)
  show ?case unfolding scan_ok_def
  proof (intro allI impI)
    fix i' x' t p
    assume a: "es_collector (s\<lparr>es_collector := Scanning (Suc i) (scan_slot (eg_threads (es_gc s) ! i) x)\<rparr>) = Scanning i' x'"
      "(t, p) \<in> es_held (s\<lparr>es_collector := Scanning (Suc i) (scan_slot (eg_threads (es_gc s) ! i) x)\<rparr>)" "t < i'"
    have old: "t < i \<Longrightarrow> fst x \<and> snd x \<le> eg_threads (es_gc s) ! t" using scan_okD [OF scan(5,1)] a(2) by simp
    show "fst x' \<and> snd x' \<le> eg_threads (es_gc (s\<lparr>es_collector := Scanning (Suc i) (scan_slot (eg_threads (es_gc s) ! i) x)\<rparr>)) ! t"
      using a old t [of t p]
      by (cases "eg_threads (es_gc s) ! i = 0") (auto simp: less_Suc_eq min_le_iff_disj)
  qed
qed (fastforce simp: scan_ok_def gc_retire_def)+

lemma held_ok_step:
  "epoch_step P s s' \<Longrightarrow> (\<And>gc now. P gc now \<Longrightarrow> stamp_covers_readers gc now) \<Longrightarrow>
   slots_ok s \<Longrightarrow> held_ok s \<Longrightarrow> scan_ok s \<Longrightarrow> held_ok s'"
proof (induction rule: epoch_step.induct)
  case (publish t s e)
  have "t' \<noteq> t" if "(t', p) \<in> es_held s" for t' p
    using publish that by (fastforce simp: slots_ok_def held_ok_def)
  then show ?case using publish by (fastforce simp: held_ok_def active_def)
next
  case (leave t s gc)
  then show ?case by (fastforce simp: held_ok_def active_def gc_exit_def split: if_splits)
next
  case (retire s now p d)
  then have now: "\<forall>t \<in> active (es_gc s). eg_threads (es_gc s) ! t \<le> now" by (simp add: stamp_covers_readers_def)
  have fresh: "rn_ptr r \<noteq> p" if "r \<in> set (eg_retired (es_gc s))" for r using retire that by (auto simp: pending_def)
  show ?case using retire(4,7) now fresh
    by (fastforce simp: held_ok_def active_def gc_retire_def)
next
  case (collector_sweep s x freed gc)
  note spec = reclaim_with_spec [OF collector_sweep(2)]
  have sub: "set (eg_retired gc) \<subseteq> set (eg_retired (es_gc s))"
    "set freed \<subseteq> {r \<in> set (eg_retired (es_gc s)). rn_retired_at r < safe_epoch x}"
    using arg_cong [OF spec(1), of set_mset] arg_cong [OF spec(2), of set_mset] by auto
  have "rn_ptr r \<noteq> p" if h: "(t, p) \<in> es_held s" and r: "r \<in> set freed" for t p r
  proof
    assume p: "rn_ptr r = p"
    have "t < kMaxThreads" using h collector_sweep(4,5) by (auto simp: held_ok_def slots_ok_def active_def)
    then have "safe_epoch x \<le> eg_threads (es_gc s) ! t"
      using scan_okD [OF collector_sweep(6,1) h] by (simp add: safe_epoch_def)
    moreover have "eg_threads (es_gc s) ! t \<le> rn_retired_at r"
      using h r p sub(2) by (intro held_okD [OF collector_sweep(5)]) auto
    ultimately show False using r sub(2) by auto
  qed
  then show ?case using collector_sweep(5) spec(3) sub(1) by (fastforce simp: held_ok_def active_def)
qed (auto simp: held_ok_def)

lemma reachable_ok:
  assumes "reachable P s" "\<And>gc now. P gc now \<Longrightarrow> stamp_covers_readers gc now"
  shows "slots_ok s \<and> held_ok s \<and> scan_ok s"
  using assms(1) unfolding reachable_def
proof (induction rule: rtranclp_induct)
  case base
  show ?case by (simp add: initial_state_def slots_ok_def held_ok_def scan_ok_def new_gc_def)
next
  case (step s s')
  then show ?case using slots_ok_step held_ok_step [OF step(2) assms(2)] scan_ok_step by blast
qed


section \<open>Whole operations as runs\<close>

lemma scan_run:
  "es_collector s = Scanning i x \<Longrightarrow> i + length es = kMaxThreads \<Longrightarrow> drop i (eg_threads (es_gc s)) = es \<Longrightarrow>
   (epoch_step P)\<^sup>*\<^sup>* s (s\<lparr>es_collector := Scanning kMaxThreads (fold scan_slot es x)\<rparr>)"
proof (induction es arbitrary: s i x)
  case Nil
  then have "s\<lparr>es_collector := Scanning kMaxThreads x\<rparr> = s" by simp
  then show ?case by simp
next
  case (Cons e es)
  let ?s = "s\<lparr>es_collector := Scanning (Suc i) (scan_slot e x)\<rparr>"
  have e: "eg_threads (es_gc s) ! i = e" "drop (Suc i) (eg_threads (es_gc s)) = es"
    using Cons.prems(3) by (metis nth_via_drop, metis drop_Suc list.sel(3) tl_drop)
  have "epoch_step P s ?s" using scan [OF Cons.prems(1), of P] Cons.prems(2) e(1) by simp
  moreover have "(epoch_step P)\<^sup>*\<^sup>* ?s (?s\<lparr>es_collector := Scanning kMaxThreads (fold scan_slot es (scan_slot e x))\<rparr>)"
    using Cons.prems(2) e(2) by (intro Cons.IH [of _ "Suc i"]) simp_all
  ultimately show ?case by (simp add: converse_rtranclp_into_rtranclp)
qed

lemma reclaim_run:
  assumes "es_collector s = Resting" "length (eg_threads (es_gc s)) = kMaxThreads" "try_reclaim (es_gc s) = (freed, gc)"
  shows "(epoch_step P)\<^sup>*\<^sup>* s (s\<lparr>es_gc := gc, es_freed := es_freed s \<union> rn_ptr ` set freed\<rparr>)"
proof -
  let ?a = "s\<lparr>es_collector := Scanning 0 (False, max_epoch)\<rparr>"
  let ?b = "?a\<lparr>es_collector := Scanning kMaxThreads (scan_epochs (eg_threads (es_gc s)))\<rparr>"
  have "epoch_step P s ?a" using assms(1) by (rule begin_scan)
  also have "(epoch_step P)\<^sup>*\<^sup>* ?a ?b"
    using scan_run [of ?a 0 "(False, max_epoch)" "eg_threads (es_gc s)" P] assms(2) by (simp add: scan_epochs_def)
  also have "epoch_step P ?b (?b\<lparr>es_collector := Resting, es_gc := gc, es_freed := es_freed ?b \<union> rn_ptr ` set freed\<rparr>)"
    using assms(3) by (intro collector_sweep) (simp_all add: try_reclaim_def)
  finally have "(epoch_step P)\<^sup>*\<^sup>* s (s\<lparr>es_collector := Resting, es_gc := gc, es_freed := es_freed s \<union> rn_ptr ` set freed\<rparr>)" by simp
  moreover have "s\<lparr>es_collector := Resting\<rparr> = s" using assms(1) by (cases s) simp
  ultimately show ?thesis by metis
qed

lemma enter_run:
  assumes "t \<notin> active (es_gc s)" "es_entering s t = None" "gc_enter t (es_gc s) = Some (e, gc)"
  shows "(epoch_step P)\<^sup>*\<^sup>* s (s\<lparr>es_gc := gc\<rparr>)"
proof -
  have t: "t < kMaxThreads" and gc: "gc = (es_gc s)\<lparr>eg_threads := (eg_threads (es_gc s))[t := eg_global (es_gc s)]\<rparr>"
    using assms(3) by (auto simp: gc_enter_def Let_def split: if_splits)
  let ?a = "s\<lparr>es_entering := (es_entering s)(t := Some (eg_global (es_gc s)))\<rparr>"
  have "(epoch_step P)\<^sup>*\<^sup>* s ?a" using load [OF t assms(1,2)] by blast
  also have "epoch_step P ?a (?a\<lparr>es_entering := (es_entering ?a)(t := None),
      es_gc := (es_gc ?a)\<lparr>eg_threads := (eg_threads (es_gc ?a))[t := eg_global (es_gc s)]\<rparr>\<rparr>)"
    by (rule publish [OF t]) simp
  finally show ?thesis using assms(2) gc by (simp add: fun_upd_idem)
qed

section \<open>The documented rule is unsafe\<close>

text \<open>Thread 0 enters, the collector advances the epoch, thread 1 enters and reads a pointer, thread 0 retires the pointer
  with its own epoch and leaves, the collector runs.\<close>

definition gc1 :: epoch_gc where "gc1 = snd (the (gc_enter 0 new_gc))"
definition gc2 :: epoch_gc where "gc2 = snd (try_reclaim gc1)"
definition gc3 :: epoch_gc where "gc3 = snd (the (gc_enter 1 gc2))"
definition gc4 :: epoch_gc where "gc4 = gc_retire 1 7 (Some 0) gc3"
definition gc5 :: epoch_gc where "gc5 = the (gc_exit 0 gc4)"

lemma gc_runs:
  "gc_enter 0 new_gc = Some (1, gc1)" "try_reclaim gc1 = ([], gc2)" "gc_enter 1 gc2 = Some (2, gc3)" "gc_exit 0 gc4 = Some gc5"
  "eg_threads gc1 = 1 # replicate 63 0" "eg_threads gc2 = 1 # replicate 63 0" "eg_threads gc3 = 1 # 2 # replicate 62 0"
  "eg_retired gc1 = []" "eg_threads gc4 = 1 # 2 # replicate 62 0" "eg_threads gc5 = 0 # 2 # replicate 62 0" "eg_retired gc3 = []"
  "map rn_ptr (fst (try_reclaim gc5)) = [7]"
  by (code_simp, code_simp, code_simp, code_simp, code_simp, code_simp, code_simp, code_simp, code_simp, code_simp, code_simp, code_simp)

lemma gc_active: "active new_gc = {}" "0 \<in> active gc3" "1 \<in> active gc3" "1 \<notin> active gc2" "0 \<in> active gc4"
  by (auto simp: active_def new_gc_def gc_runs)

text \<open>If pointers are retired with the epoch of the retiring thread, as the comment on \<open>retire\<close> asks, a run exists in
  which a deleter runs on a pointer while a thread that could reach it before it was retired is still inside its compilation.\<close>

lemma own_epoch_stamp_unsafe: "\<exists>s. reachable stamp_own_epoch s \<and> \<not> no_use_after_free s"
proof -
  let ?P = stamp_own_epoch
  define s1 where "s1 = initial_state\<lparr>es_gc := gc1\<rparr>"
  define s2 where "s2 = s1\<lparr>es_gc := gc2, es_freed := es_freed s1 \<union> rn_ptr ` set ([] :: retired_node list)\<rparr>"
  define s3 where "s3 = s2\<lparr>es_gc := gc3\<rparr>"
  define s4 where "s4 = s3\<lparr>es_gc := gc_retire 1 7 (Some 0) (es_gc s3), es_held := es_held s3 \<union> active (es_gc s3) \<times> {7}\<rparr>"
  define s5 where "s5 = s4\<lparr>es_gc := gc5, es_held := es_held s4 - {0} \<times> UNIV\<rparr>"
  define s6 where "s6 = s5\<lparr>es_gc := snd (try_reclaim gc5), es_freed := es_freed s5 \<union> rn_ptr ` set (fst (try_reclaim gc5))\<rparr>"
  note defs = s1_def s2_def s3_def s4_def s5_def initial_state_def gc_runs gc_active kMaxThreads_def
  have "(epoch_step ?P)\<^sup>*\<^sup>* initial_state s1" unfolding s1_def by (rule enter_run [of 0 _ 1]) (simp_all add: defs)
  also have "(epoch_step ?P)\<^sup>*\<^sup>* s1 s2" unfolding s2_def by (rule reclaim_run [of s1 "[]" gc2]) (simp_all add: defs)
  also have "(epoch_step ?P)\<^sup>*\<^sup>* s2 s3" unfolding s3_def by (rule enter_run [of 1 _ 2]) (simp_all add: defs del: One_nat_def)
  also have "epoch_step ?P s3 s4" unfolding s4_def
  proof (rule retire)
    have "0 \<in> active (es_gc s3)" "1 = eg_threads (es_gc s3) ! 0" by (simp_all add: defs)
    then show "stamp_own_epoch (es_gc s3) 1" unfolding stamp_own_epoch_def by blast
  qed (simp_all add: defs pending_def)
  also have "epoch_step ?P s4 s5" unfolding s5_def by (rule leave) (simp_all add: defs gc4_def [symmetric])
  also have "(epoch_step ?P)\<^sup>*\<^sup>* s5 s6" unfolding s6_def by (rule reclaim_run) (simp_all add: defs)
  finally have "reachable ?P s6" by (simp add: reachable_def)
  moreover have "(1, 7) \<in> es_held s6" by (simp add: s6_def defs del: One_nat_def)
  moreover have "7 \<in> es_freed s6" using arg_cong [OF gc_runs(12), of set] by (simp add: s6_def)
  ultimately show ?thesis unfolding no_use_after_free_def by blast
qed


section \<open>Reclamation is exact\<close>



end
