(* ===== verification/Tiers.thy ===== *)
theory Tiers
  imports Jvm_Interp Ir_Graph
begin

text \<open>
  \<^verbatim>\<open>runtime/TierManager.hpp\<close> and \<^verbatim>\<open>runtime/TieredDispatch.hpp\<close>: invocation counts, tiers and the dispatch
  loop. The lowering, the pass pipelines and the just-in-time compiler are parameters (\<open>tier_backend\<close>),
  the build switch for the compiler is a flag. Code pointers are numbers, \<^const>\<open>None\<close> is the null pointer;
  the atomic counter wraps at 32 bits. Messages on the error stream are left out.
\<close>

section \<open>Tier manager\<close>

datatype tier = Tier_Interpreter | Tier_Baseline | Tier_Optimizing | Tier_Peak

definition tier_code :: "tier \<Rightarrow> nat" where
  "tier_code t = (case t of Tier_Interpreter \<Rightarrow> 0 | Tier_Baseline \<Rightarrow> 1 | Tier_Optimizing \<Rightarrow> 2 | Tier_Peak \<Rightarrow> 3)"

instantiation tier :: linorder
begin

definition less_eq_tier :: "tier \<Rightarrow> tier \<Rightarrow> bool" where
  "less_eq_tier a b \<longleftrightarrow> tier_code a \<le> tier_code b"

definition less_tier :: "tier \<Rightarrow> tier \<Rightarrow> bool" where
  "less_tier a b \<longleftrightarrow> tier_code a < tier_code b"

instance
  by standard (auto simp: less_eq_tier_def less_tier_def tier_code_def split: tier.splits)

end

record tier_thresholds =
  interpreter_to_baseline :: u32
  baseline_to_optimizing :: u32
  optimizing_to_peak :: u32

definition default_thresholds :: tier_thresholds where
  "default_thresholds = \<lparr>interpreter_to_baseline = 100, baseline_to_optimizing = 1000, optimizing_to_peak = 10000\<rparr>"

type_synonym code_ptr = "nat option"

record method_handle =
  mh_name :: string
  mh_invocation_count :: u32
  mh_current_tier :: tier
  mh_interpreter_entry :: code_ptr
  mh_baseline_entry :: code_ptr
  mh_optimizing_entry :: code_ptr
  mh_peak_entry :: code_ptr

definition new_handle :: method_handle where
  "new_handle = \<lparr>mh_name = '''', mh_invocation_count = 0, mh_current_tier = Tier_Interpreter, mh_interpreter_entry = None,
     mh_baseline_entry = None, mh_optimizing_entry = None, mh_peak_entry = None\<rparr>"

definition current_entry_fallback :: "method_handle \<Rightarrow> code_ptr" where
  "current_entry_fallback m =
     (if mh_optimizing_entry m \<noteq> None then mh_optimizing_entry m
      else if mh_baseline_entry m \<noteq> None then mh_baseline_entry m else mh_interpreter_entry m)"

definition best_entry :: "method_handle \<Rightarrow> code_ptr" where
  "best_entry m =
     (if mh_peak_entry m \<noteq> None then mh_peak_entry m
      else if mh_optimizing_entry m \<noteq> None then mh_optimizing_entry m
      else if mh_baseline_entry m \<noteq> None then mh_baseline_entry m else mh_interpreter_entry m)"

definition current_entry :: "method_handle \<Rightarrow> code_ptr" where
  "current_entry m = (case mh_current_tier m of
      Tier_Peak \<Rightarrow> (if mh_peak_entry m \<noteq> None then mh_peak_entry m else current_entry_fallback m)
    | Tier_Optimizing \<Rightarrow> (if mh_optimizing_entry m \<noteq> None then mh_optimizing_entry m else current_entry_fallback m)
    | Tier_Baseline \<Rightarrow> (if mh_baseline_entry m \<noteq> None then mh_baseline_entry m else current_entry_fallback m)
    | Tier_Interpreter \<Rightarrow> mh_interpreter_entry m)"

definition on_invocation :: "tier_thresholds \<Rightarrow> method_handle \<Rightarrow> tier \<times> method_handle" where
  "on_invocation th m =
     (let m = m\<lparr>mh_invocation_count := mh_invocation_count m + 1\<rparr>; count = mh_invocation_count m
      in (case mh_current_tier m of
            Tier_Interpreter \<Rightarrow> (if count \<ge> interpreter_to_baseline th then Tier_Baseline else mh_current_tier m)
          | Tier_Baseline \<Rightarrow> (if count \<ge> baseline_to_optimizing th then Tier_Optimizing else mh_current_tier m)
          | Tier_Optimizing \<Rightarrow> (if count \<ge> optimizing_to_peak th then Tier_Peak else mh_current_tier m)
          | Tier_Peak \<Rightarrow> mh_current_tier m, m))"

definition mark_compiled :: "tier \<Rightarrow> code_ptr \<Rightarrow> method_handle \<Rightarrow> method_handle" where
  "mark_compiled t entry m =
     (case t of Tier_Baseline \<Rightarrow> m\<lparr>mh_baseline_entry := entry\<rparr>
        | Tier_Optimizing \<Rightarrow> m\<lparr>mh_optimizing_entry := entry\<rparr>
        | Tier_Peak \<Rightarrow> m\<lparr>mh_peak_entry := entry\<rparr>
        | Tier_Interpreter \<Rightarrow> m)\<lparr>mh_current_tier := t\<rparr>"

section \<open>Dispatch\<close>

record tier_backend =
  tb_lower :: "u8 list \<Rightarrow> u16 \<Rightarrow> u16 \<Rightarrow> graph result"
  tb_ruby :: "graph \<Rightarrow> graph result"
  tb_diamond :: "graph \<Rightarrow> graph result"
  tb_compile :: "graph \<Rightarrow> code_ptr result"
  tb_have_asmjit :: bool

record compiled_method =
  cm_tier :: tier
  cm_entry :: code_ptr
  cm_graph :: graph

record dispatch =
  td_thresholds :: tier_thresholds
  td_handles :: "string \<Rightarrow> method_handle option"
  td_compiled :: "string \<Rightarrow> compiled_method option"

definition new_dispatch :: "tier_thresholds \<Rightarrow> dispatch" where
  "new_dispatch th = \<lparr>td_thresholds = th, td_handles = (\<lambda>k. None), td_compiled = (\<lambda>k. None)\<rparr>"

definition get_or_create_handle :: "string \<Rightarrow> dispatch \<Rightarrow> method_handle \<times> dispatch" where
  "get_or_create_handle key td = (case td_handles td key of
      Some m \<Rightarrow> (m, td)
    | None \<Rightarrow> (let m = new_handle\<lparr>mh_name := key\<rparr> in (m, td\<lparr>td_handles := (td_handles td)(key \<mapsto> m)\<rparr>)))"

text \<open>The handle is a reference into the table; \<open>key\<close> is its key.\<close>

definition compile_at_tier ::
    "tier_backend \<Rightarrow> string \<Rightarrow> method_handle \<Rightarrow> tier \<Rightarrow> u8 list \<Rightarrow> u16 \<Rightarrow> u16 \<Rightarrow> dispatch \<Rightarrow> unit result \<times> dispatch" where
  "compile_at_tier tb key m t code max_locals num_args td =
     (case tb_lower tb code max_locals num_args of
        Inl e \<Rightarrow> (Inl e, td)
      | Inr g \<Rightarrow>
          (case (if t \<ge> Tier_Optimizing then (if t \<ge> Tier_Peak then tb_diamond tb g else tb_ruby tb g) else Inr g) of
             Inl e \<Rightarrow> (Inl e, td)
           | Inr g \<Rightarrow>
               (if tb_have_asmjit tb \<and> t \<ge> Tier_Baseline
                then (case tb_compile tb g of
                        Inl e \<Rightarrow> (Inl e, td)
                      | Inr entry \<Rightarrow>
                          (Inr (), td\<lparr>td_handles := (td_handles td)(key \<mapsto> mark_compiled t entry m),
                             td_compiled := (td_compiled td)(mh_name m \<mapsto> \<lparr>cm_tier = t, cm_entry = entry, cm_graph = g\<rparr>)\<rparr>))
                else (Inr (), td))))"

definition execute :: "fp_ops \<Rightarrow> u8 list \<Rightarrow> u16 \<Rightarrow> u16 \<Rightarrow> gvalue list \<Rightarrow> gvalue result ub option" where
  "execute fp code max_locals num_args args = jvm_run fp code max_locals num_args args"

definition invoke ::
    "fp_ops \<Rightarrow> tier_backend \<Rightarrow> string \<Rightarrow> u8 list \<Rightarrow> u16 \<Rightarrow> u16 \<Rightarrow> gvalue list \<Rightarrow> dispatch \<Rightarrow> gvalue result ub option \<times> dispatch" where
  "invoke fp tb key code max_locals num_args args td =
     (let (m, td) = get_or_create_handle key td;
          (desired, m) = on_invocation (td_thresholds td) m;
          td = td\<lparr>td_handles := (td_handles td)(key \<mapsto> m)\<rparr>;
          td = (if desired \<noteq> mh_current_tier m then snd (compile_at_tier tb key m desired code max_locals num_args td) else td)
      in (execute fp code max_locals num_args args, td))"

definition current_tier :: "dispatch \<Rightarrow> string \<Rightarrow> tier" where
  "current_tier td key = (case td_handles td key of None \<Rightarrow> Tier_Interpreter | Some m \<Rightarrow> mh_current_tier m)"

definition invocation_count :: "dispatch \<Rightarrow> string \<Rightarrow> u32" where
  "invocation_count td key = (case td_handles td key of None \<Rightarrow> 0 | Some m \<Rightarrow> mh_invocation_count m)"

definition set_thresholds :: "tier_thresholds \<Rightarrow> dispatch \<Rightarrow> dispatch" where
  "set_thresholds th td = td\<lparr>td_thresholds := th\<rparr>"

section \<open>Runs of the dispatcher\<close>

text \<open>A request: key, bytecode, locals, number of arguments and the arguments.\<close>

type_synonym request = "string \<times> u8 list \<times> u16 \<times> u16 \<times> gvalue list"

fun serve :: "fp_ops \<Rightarrow> tier_backend \<Rightarrow> request list \<Rightarrow> dispatch \<Rightarrow> gvalue result ub option list \<times> dispatch" where
  "serve fp tb [] td = ([], td)"
| "serve fp tb ((key, code, nl, na, args) # rs) td =
     (let (x, td) = invoke fp tb key code nl na args td; (xs, td) = serve fp tb rs td in (x # xs, td))"

text \<open>The table of compiled code is the one the handles speak of.\<close>

definition handle_ok :: "string \<Rightarrow> method_handle \<Rightarrow> compiled_method option \<Rightarrow> bool" where
  "handle_ok key m co \<longleftrightarrow> mh_name m = key \<and>
     (case co of
        None \<Rightarrow> mh_current_tier m = Tier_Interpreter \<and> best_entry m = None
      | Some c \<Rightarrow> cm_tier c = mh_current_tier m \<and> mh_current_tier m \<noteq> Tier_Interpreter
          \<and> (cm_entry c \<noteq> None \<longrightarrow> current_entry m = cm_entry c))"

definition entry_ok :: "string \<Rightarrow> method_handle option \<Rightarrow> compiled_method option \<Rightarrow> bool" where
  "entry_ok key mo co \<longleftrightarrow> (case mo of None \<Rightarrow> co = None | Some m \<Rightarrow> handle_ok key m co)"

definition dispatch_ok :: "dispatch \<Rightarrow> bool" where
  "dispatch_ok td \<longleftrightarrow> (\<forall>key. entry_ok key (td_handles td key) (td_compiled td key))"

definition one_tier_up :: "tier \<Rightarrow> tier \<Rightarrow> bool" where
  "one_tier_up a b \<longleftrightarrow> a \<le> b \<and> tier_code b \<le> tier_code a + 1"

lemma on_invocation_tier: "on_invocation th m = (t, m') \<Longrightarrow>
   one_tier_up (mh_current_tier m) t \<and> m' = m\<lparr>mh_invocation_count := mh_invocation_count m + 1\<rparr>"
  by (auto simp: on_invocation_def Let_def one_tier_up_def less_eq_tier_def tier_code_def split: tier.splits if_splits)

text \<open>A compilation either leaves the tables alone or installs the new code.\<close>

lemma compile_at_tier_cases:
  "(\<exists>r. compile_at_tier tb key m t code nl na td = (r, td))
   \<or> (\<exists>entry g. t \<noteq> Tier_Interpreter \<and> compile_at_tier tb key m t code nl na td =
      (Inr (), td\<lparr>td_handles := (td_handles td)(key \<mapsto> mark_compiled t entry m),
        td_compiled := (td_compiled td)(mh_name m \<mapsto> \<lparr>cm_tier = t, cm_entry = entry, cm_graph = g\<rparr>)\<rparr>))"
proof (cases "t = Tier_Interpreter")
  case True
  then show ?thesis by (auto simp: compile_at_tier_def less_eq_tier_def tier_code_def split: sum.splits)
next
  case False
  then show ?thesis
    by (cases "tb_lower tb code nl na"; cases "tb_have_asmjit tb")
      (simp_all add: compile_at_tier_def split: sum.split; blast)+
qed

lemma current_entry_marked: "t \<noteq> Tier_Interpreter \<Longrightarrow> entry \<noteq> None \<Longrightarrow> current_entry (mark_compiled t entry m) = entry"
  by (cases t) (auto simp: current_entry_def mark_compiled_def)

lemma mark_compiled_simps [simp]:
  "mh_current_tier (mark_compiled t e m) = t" "mh_name (mark_compiled t e m) = mh_name m"
  "mh_invocation_count (mark_compiled t e m) = mh_invocation_count m"
  by (cases t; simp add: mark_compiled_def)+

lemma counted_handle_ok:
  "handle_ok key m co \<Longrightarrow> handle_ok key (m\<lparr>mh_invocation_count := n\<rparr>) co"
  by (auto simp: handle_ok_def current_entry_def current_entry_fallback_def best_entry_def split: option.splits tier.splits)

lemma dispatch_ok_upd:
  "dispatch_ok td \<Longrightarrow> td_handles td' = (td_handles td)(key \<mapsto> m) \<Longrightarrow> td_compiled td' = (td_compiled td)(key := co) \<Longrightarrow>
   handle_ok key m co \<Longrightarrow> dispatch_ok td'"
  by (simp add: dispatch_ok_def entry_ok_def)

text \<open>One invocation.\<close>

lemma invoke_step:
  assumes "dispatch_ok td" "invoke fp tb key code nl na args td = (x, td')"
  shows "x = jvm_run fp code nl na args" "dispatch_ok td'"
    "one_tier_up (current_tier td k) (current_tier td' k) \<and> (k \<noteq> key \<longrightarrow> current_tier td' k = current_tier td k)"
    "invocation_count td' k = invocation_count td k + (if k = key then 1 else 0)"
proof -
  obtain m0 td0 where m0: "get_or_create_handle key td = (m0, td0)" by (meson surj_pair)
  obtain t m where m: "on_invocation (td_thresholds td0) m0 = (t, m)" by (meson surj_pair)
  note step = on_invocation_tier [OF m]
  have "entry_ok key (td_handles td key) (td_compiled td key)" using assms(1) by (simp add: dispatch_ok_def)
  then have h0: "handle_ok key m0 (td_compiled td key)" "td_handles td0 = (td_handles td)(key \<mapsto> m0)" "td_compiled td0 = td_compiled td"
    "current_tier td key = mh_current_tier m0" "invocation_count td key = mh_invocation_count m0"
    using m0 by (auto simp: get_or_create_handle_def Let_def entry_ok_def handle_ok_def new_handle_def best_entry_def current_tier_def
        invocation_count_def map_upd_triv split: option.splits)
  define td1 where "td1 = td0\<lparr>td_handles := (td_handles td0)(key \<mapsto> m)\<rparr>"
  have td1: "td_handles td1 = (td_handles td)(key \<mapsto> m)" "td_compiled td1 = td_compiled td" by (simp_all add: td1_def h0(2,3))
  have m_ok: "handle_ok key m (td_compiled td key)" using counted_handle_ok [OF h0(1)] step by simp
  have ok1: "dispatch_ok td1"
    by (rule dispatch_ok_upd [OF assms(1) td1(1) _ m_ok]) (simp add: td1)
  have x: "x = jvm_run fp code nl na args"
    and td': "td' = (if t \<noteq> mh_current_tier m then snd (compile_at_tier tb key m t code nl na td1) else td1)"
    using assms(2) by (auto simp: invoke_def m0 m Let_def execute_def td1_def split: prod.splits)
  show "x = jvm_run fp code nl na args" by (fact x)
  have name: "mh_name m = key" using m_ok by (simp add: handle_ok_def)
  consider "td' = td1"
    | entry g where "t \<noteq> Tier_Interpreter" "td_handles td' = (td_handles td)(key \<mapsto> mark_compiled t entry m)"
      "td_compiled td' = (td_compiled td)(key \<mapsto> \<lparr>cm_tier = t, cm_entry = entry, cm_graph = g\<rparr>)"
    using compile_at_tier_cases [of tb key m t code nl na td1] td' name
    by (elim disjE exE conjE) (simp_all add: td1 split: if_splits)
  note cases = this
  show "dispatch_ok td'"
  proof (cases rule: cases)
    case (2 entry g)
    then have "handle_ok key (mark_compiled t entry m) (Some \<lparr>cm_tier = t, cm_entry = entry, cm_graph = g\<rparr>)"
      using m_ok current_entry_marked [of t entry m] by (auto simp: handle_ok_def)
    then show ?thesis by (rule dispatch_ok_upd [OF assms(1) 2(2,3)])
  qed (use ok1 in simp)
  have t: "current_tier td' key = mh_current_tier m0 \<or> current_tier td' key = t" "k \<noteq> key \<Longrightarrow> current_tier td' k = current_tier td k"
    "invocation_count td' k = invocation_count td k + (if k = key then 1 else 0)"
    using step h0(5) by (cases rule: cases; auto simp: current_tier_def invocation_count_def td1)+
  then show "one_tier_up (current_tier td k) (current_tier td' k) \<and> (k \<noteq> key \<longrightarrow> current_tier td' k = current_tier td k)"
    "invocation_count td' k = invocation_count td k + (if k = key then 1 else 0)"
    using step h0(4) by (cases "k = key"; auto simp: one_tier_up_def)+
qed

lemma serve_spec:
  "dispatch_ok td \<Longrightarrow> serve fp tb rs td = (xs, td') \<Longrightarrow>
   xs = map (\<lambda>(key, code, nl, na, args). jvm_run fp code nl na args) rs \<and> dispatch_ok td'
   \<and> current_tier td key \<le> current_tier td' key
   \<and> tier_code (current_tier td' key) \<le> tier_code (current_tier td key) + length (filter (\<lambda>r. fst r = key) rs)
   \<and> invocation_count td' key = invocation_count td key + of_nat (length (filter (\<lambda>r. fst r = key) rs))"
proof (induction fp tb rs td arbitrary: xs td' rule: serve.induct)
  case (2 fp tb k code nl na args rs td)
  obtain x td1 where i: "invoke fp tb k code nl na args td = (x, td1)" by (meson surj_pair)
  obtain ys where s: "serve fp tb rs td1 = (ys, td')" "xs = x # ys"
    using 2(3) by (auto simp: i split: prod.splits)
  note step = invoke_step [OF 2(2) i]
  show ?case
    using 2(1) [OF i [symmetric] refl step(2) s(1)] step(1) step(3,4) [of key] s(2)
    by (auto simp: one_tier_up_def)
qed auto


end
