(* ===== verification/Jvm_Lower.thy ===== *)
theory Jvm_Lower
  imports Jvm_Decode Ir_Verifier Granit_Value
begin

text \<open>
  \<^verbatim>\<open>jvm/Lowerer.hpp\<close> and \<^verbatim>\<open>jvm/Lowerer.cpp\<close>: the translation of Java bytecode into a graph. The lowerer is
  a record; an exception and an error that the code returns both end as the error of \<open>lower\<close>. The text of
  \<^verbatim>\<open>std::out_of_range\<close> belongs to the standard library and is the parameter \<open>oor\<close>, a function of the index
  and the size. A lowerer translates one method.
\<close>

section \<open>The lowerer\<close>

record lowerer =
  lw_graph :: graph
  lw_effect :: node_id
  lw_ctrl :: node_id
  lw_stack :: "node_id list"
  lw_locals :: "node_id list"
  lw_args :: "node_id list"

definition new_lowerer :: lowerer where
  "new_lowerer = (let (start, g) = gb_start empty_graph
     in \<lparr>lw_graph = g, lw_effect = start, lw_ctrl = start, lw_stack = [], lw_locals = [], lw_args = []\<rparr>)"

text \<open>An operation that may throw; \<^verbatim>\<open>what()\<close> becomes the message of an internal error.\<close>

definition thrown :: "string \<Rightarrow> 'a result" where
  "thrown what = Inl (make_error Internal what)"

definition lw_push :: "node_id \<Rightarrow> lowerer \<Rightarrow> lowerer" where
  "lw_push v s = s\<lparr>lw_stack := v # lw_stack s\<rparr>"

definition lw_pop :: "lowerer \<Rightarrow> (node_id \<times> lowerer) result" where
  "lw_pop s = (case lw_stack s of [] \<Rightarrow> thrown ''JVM lowerer: eval stack underflow'' | v # vs \<Rightarrow> Inr (v, s\<lparr>lw_stack := vs\<rparr>))"

definition lw_peek :: "nat \<Rightarrow> lowerer \<Rightarrow> node_id result" where
  "lw_peek depth s = (if depth \<ge> length (lw_stack s) then thrown ''JVM lowerer: eval stack underflow on peek''
     else Inr (lw_stack s ! depth))"

text \<open>Several pops, the first popped value first.\<close>

fun lw_pops :: "nat \<Rightarrow> lowerer \<Rightarrow> (node_id list \<times> lowerer) result" where
  "lw_pops 0 s = Inr ([], s)"
| "lw_pops (Suc n) s = rbind (lw_pop s) (\<lambda>(v, s). rbind (lw_pops n s) (\<lambda>(vs, s). Inr (v # vs, s)))"

text \<open>Run a builder on the graph of the lowerer.\<close>

definition lw_build :: "(graph \<Rightarrow> node_id \<times> graph) \<Rightarrow> lowerer \<Rightarrow> node_id \<times> lowerer" where
  "lw_build f s = (let (nid, g) = f (lw_graph s) in (nid, s\<lparr>lw_graph := g\<rparr>))"

definition lw_push_new :: "(graph \<Rightarrow> node_id \<times> graph) \<Rightarrow> lowerer \<Rightarrow> lowerer" where
  "lw_push_new f s = (let (nid, s) = lw_build f s in lw_push nid s)"

definition make_effectful :: "node_kind \<Rightarrow> node_id list \<Rightarrow> lowerer \<Rightarrow> node_id \<times> lowerer" where
  "make_effectful k inputs s =
     (let (nid, s) = lw_build (create_with k inputs (lw_ctrl s) (lw_effect s)) s
      in (nid, if node_is_effect (node (lw_graph s) nid) then s\<lparr>lw_effect := nid\<rparr> else s))"

definition lw_at :: "(nat \<Rightarrow> nat \<Rightarrow> string) \<Rightarrow> nat \<Rightarrow> lowerer \<Rightarrow> node_id result" where
  "lw_at oor i s = (if i < length (lw_locals s) then Inr (lw_locals s ! i) else thrown (oor i (length (lw_locals s))))"

definition lw_set_local :: "(nat \<Rightarrow> nat \<Rightarrow> string) \<Rightarrow> nat \<Rightarrow> node_id \<Rightarrow> lowerer \<Rightarrow> lowerer result" where
  "lw_set_local oor i v s = (if i < length (lw_locals s) then Inr (s\<lparr>lw_locals := (lw_locals s)[i := v]\<rparr>)
     else thrown (oor i (length (lw_locals s))))"

section \<open>The cases of the switch\<close>

definition lower_constants :: "(jvm_opcode \<times> (graph \<Rightarrow> node_id \<times> graph)) list" where
  "lower_constants =
     [(BC_IconstM1, create_const_int (- 1)), (BC_Iconst0, create_const_int 0), (BC_Iconst1, create_const_int 1),
      (BC_Iconst2, create_const_int 2), (BC_Iconst3, create_const_int 3), (BC_Iconst4, create_const_int 4),
      (BC_Iconst5, create_const_int 5), (BC_Lconst0, create_const_int 0), (BC_Lconst1, create_const_int 1),
      (BC_Fconst0, create_const_float f64_0), (BC_Fconst1, create_const_float f64_1), (BC_Fconst2, create_const_float f64_2),
      (BC_Dconst0, create_const_float f64_0), (BC_Dconst1, create_const_float f64_1), (BC_AconstNull, create NK_LdNull)]"

definition lower_constant :: "decoded \<Rightarrow> (graph \<Rightarrow> node_id \<times> graph) option" where
  "lower_constant d =
     (if d_op d = BC_Bipush \<or> d_op d = BC_Sipush then Some (create_const_int (scast (d_i32 d)))
      else if d_op d \<in> set [BC_Ldc, BC_LdcW, BC_Ldc2W] then Some (create_const_int (ucast (d_u32 d)))
      else map_of lower_constants (d_op d))"

text \<open>The local of a load or a store: an operand, or the distance to the first of four opcodes.\<close>

definition short_index :: "(jvm_opcode \<times> nat) list \<Rightarrow> jvm_opcode \<Rightarrow> nat option" where
  "short_index bases op =
     map_option (\<lambda>(base, n). unat op - unat base) (find (\<lambda>(base, n). unat base \<le> unat op \<and> unat op < unat base + n) bases)"

definition lower_load_index :: "decoded \<Rightarrow> nat option" where
  "lower_load_index d =
     (if d_op d \<in> set [BC_Iload, BC_Lload, BC_Fload, BC_Dload, BC_Aload,
          BC_WideIload, BC_WideLload, BC_WideFload, BC_WideDload, BC_WideAload] then Some (unat (d_u32 d))
      else short_index [(BC_Iload0, 4), (BC_Lload0, 4), (BC_Fload0, 4), (BC_Dload0, 4), (BC_Aload0, 4)] (d_op d))"

definition lower_store_index :: "decoded \<Rightarrow> nat option" where
  "lower_store_index d =
     (if d_op d \<in> set [BC_Istore, BC_Lstore, BC_Fstore, BC_Dstore, BC_Astore,
          BC_WideIstore, BC_WideLstore, BC_WideFstore, BC_WideDstore, BC_WideAstore] then Some (unat (d_u32 d))
      else short_index [(BC_Istore0, 4), (BC_Lstore0, 4), (BC_Fstore0, 4), (BC_Dstore0, 4), (BC_Astore0, 4)] (d_op d))"

definition lower_iinc :: "(nat \<Rightarrow> nat \<Rightarrow> string) \<Rightarrow> decoded \<Rightarrow> lowerer \<Rightarrow> lowerer result" where
  "lower_iinc oor d s =
     rbind (lw_at oor (unat (d_u32 d)) s) (\<lambda>cur.
       let (delta, s) = lw_build (create_const_int (scast (d_i32 d))) s;
           (nid, s) = lw_build (create_with NK_Add [cur, delta] 0 0) s
       in lw_set_local oor (unat (d_u32 d)) nid s)"

text \<open>Operations on the evaluation stack.\<close>

definition lower_stack :: "jvm_opcode \<Rightarrow> (lowerer \<Rightarrow> lowerer result) option" where
  "lower_stack op =
     (if op = BC_Nop \<or> op = BC_Goto \<or> op = BC_GotoW then Some Inr
      else if op = BC_Pop then Some (\<lambda>s. rbind (lw_pop s) (\<lambda>(v, s). Inr s))
      else if op = BC_Pop2 then Some (\<lambda>s. rbind (lw_pop s) (\<lambda>(v, s).
        if lw_stack s \<noteq> [] then rbind (lw_pop s) (\<lambda>(v, s). Inr s) else Inr s))
      else if op = BC_Dup then Some (\<lambda>s. rbind (lw_peek 0 s) (\<lambda>v. Inr (lw_push v s)))
      else if op = BC_DupX1 then Some (\<lambda>s. rbind (lw_pop s) (\<lambda>(v1, s). rbind (lw_pop s) (\<lambda>(v2, s).
        Inr (lw_push v1 (lw_push v2 (lw_push v1 s))))))
      else if op = BC_DupX2 then Some (\<lambda>s. rbind (lw_pop s) (\<lambda>(v1, s). rbind (lw_pop s) (\<lambda>(v2, s). rbind (lw_pop s) (\<lambda>(v3, s).
        Inr (lw_push v1 (lw_push v2 (lw_push v3 (lw_push v1 s))))))))
      else if op = BC_Dup2 then Some (\<lambda>s. rbind (lw_peek 0 s) (\<lambda>v1. rbind (lw_peek 1 s) (\<lambda>v2. Inr (lw_push v1 (lw_push v2 s)))))
      else if op = BC_Swap then Some (\<lambda>s. rbind (lw_pop s) (\<lambda>(v1, s). rbind (lw_pop s) (\<lambda>(v2, s).
        Inr (lw_push v2 (lw_push v1 s)))))
      else None)"

text \<open>Pure nodes on two operands, \<open>b\<close> popped first, and on one.\<close>

definition lower_binary :: "(jvm_opcode \<times> (node_id \<Rightarrow> node_id \<Rightarrow> graph \<Rightarrow> node_id \<times> graph)) list" where
  "lower_binary =
     (let k = (\<lambda>k a b. create_with k [a, b] 0 0) in
      [(BC_Iadd, gb_add), (BC_Ladd, gb_add), (BC_Fadd, gb_add), (BC_Dadd, gb_add),
       (BC_Isub, gb_sub), (BC_Lsub, gb_sub), (BC_Fsub, gb_sub), (BC_Dsub, gb_sub),
       (BC_Imul, gb_mul), (BC_Lmul, gb_mul), (BC_Fmul, gb_mul), (BC_Dmul, gb_mul),
       (BC_Idiv, gb_div), (BC_Ldiv, gb_div), (BC_Fdiv, gb_div), (BC_Ddiv, gb_div),
       (BC_Irem, k NK_Mod), (BC_Lrem, k NK_Mod), (BC_Frem, k NK_Mod), (BC_Drem, k NK_Mod),
       (BC_Ishl, k NK_Shl), (BC_Lshl, k NK_Shl), (BC_Ishr, k NK_Sar), (BC_Lshr, k NK_Sar),
       (BC_Iushr, k NK_Shr), (BC_Lushr, k NK_Shr), (BC_Iand, k NK_And), (BC_Land, k NK_And),
       (BC_Ior, k NK_Or), (BC_Lor, k NK_Or), (BC_Ixor, k NK_Xor), (BC_Lxor, k NK_Xor),
       (BC_Lcmp, k NK_Lt), (BC_Fcmpl, k NK_Lt), (BC_Fcmpg, k NK_Lt), (BC_Dcmpl, k NK_Lt), (BC_Dcmpg, k NK_Lt)])"

definition lower_unary :: "(jvm_opcode \<times> node_kind) list" where
  "lower_unary =
     [(BC_Ineg, NK_Neg), (BC_Lneg, NK_Neg), (BC_Fneg, NK_Neg), (BC_Dneg, NK_Neg),
      (BC_I2l, NK_ConvI8), (BC_F2l, NK_ConvI8), (BC_D2l, NK_ConvI8), (BC_I2f, NK_ConvR4), (BC_L2f, NK_ConvR4), (BC_D2f, NK_ConvR4),
      (BC_I2d, NK_ConvR8), (BC_F2d, NK_ConvR8), (BC_L2d, NK_ConvR8), (BC_L2i, NK_ConvI4), (BC_F2i, NK_ConvI4), (BC_D2i, NK_ConvI4),
      (BC_I2b, NK_ConvI1), (BC_I2c, NK_ConvU2), (BC_I2s, NK_ConvI2)]"

definition do_lower_binary :: "(node_id \<Rightarrow> node_id \<Rightarrow> graph \<Rightarrow> node_id \<times> graph) \<Rightarrow> lowerer \<Rightarrow> lowerer result" where
  "do_lower_binary f s = rbind (lw_pop s) (\<lambda>(b, s). rbind (lw_pop s) (\<lambda>(a, s). Inr (lw_push_new (f a b) s)))"

definition do_lower_unary :: "node_kind \<Rightarrow> lowerer \<Rightarrow> lowerer result" where
  "do_lower_unary k s = rbind (lw_pop s) (\<lambda>(a, s). Inr (lw_push_new (create_with k [a] 0 0) s))"

text \<open>Nodes in the effect chain: kind, number of popped inputs (the last popped is the first input), and
  whether the node is pushed.\<close>

definition lower_effects :: "(jvm_opcode \<times> node_kind \<times> nat \<times> bool) list" where
  "lower_effects =
     [(BC_Iaload, NK_LdElem, 2, True), (BC_Laload, NK_LdElem, 2, True), (BC_Faload, NK_LdElem, 2, True),
      (BC_Daload, NK_LdElem, 2, True), (BC_Aaload, NK_LdElem, 2, True), (BC_Baload, NK_LdElem, 2, True),
      (BC_Caload, NK_LdElem, 2, True), (BC_Saload, NK_LdElem, 2, True),
      (BC_Iastore, NK_StElem, 3, False), (BC_Lastore, NK_StElem, 3, False), (BC_Fastore, NK_StElem, 3, False),
      (BC_Dastore, NK_StElem, 3, False), (BC_Aastore, NK_StElem, 3, False), (BC_Bastore, NK_StElem, 3, False),
      (BC_Castore, NK_StElem, 3, False), (BC_Sastore, NK_StElem, 3, False),
      (BC_Getfield, NK_LdFld, 1, True), (BC_Putfield, NK_StFld, 2, False), (BC_Getstatic, NK_LdFld, 0, True),
      (BC_Putstatic, NK_StFld, 1, False),
      (BC_Invokevirtual, NK_CallVirt, 0, True), (BC_Invokespecial, NK_CallVirt, 0, True),
      (BC_Invokestatic, NK_CallVirt, 0, True), (BC_Invokeinterface, NK_CallVirt, 0, True),
      (BC_Invokedynamic, NK_InvokeDynamic, 0, True), (BC_New, NK_NewObj, 0, True), (BC_Newarray, NK_NewArr, 1, True),
      (BC_Anewarray, NK_NewArr, 1, True), (BC_Arraylength, NK_ArrayLength, 1, True), (BC_Checkcast, NK_CastClass, 1, True),
      (BC_Instanceof, NK_IsInst, 1, True), (BC_Athrow, NK_Throw, 1, False), (BC_Monitorenter, NK_MonitorEnter, 1, False),
      (BC_Monitorexit, NK_MonitorExit, 1, False)]"

definition do_lower_effect :: "node_kind \<times> nat \<times> bool \<Rightarrow> lowerer \<Rightarrow> lowerer result" where
  "do_lower_effect e s = (case e of (k, n, pushes) \<Rightarrow>
     rbind (lw_pops n s) (\<lambda>(vs, s). let (nid, s) = make_effectful k (rev vs) s in Inr (if pushes then lw_push nid s else s)))"

fun pop_lengths :: "nat \<Rightarrow> nat \<Rightarrow> lowerer \<Rightarrow> (node_id list \<times> lowerer) result" where
  "pop_lengths i 0 s = Inr ([], s)"
| "pop_lengths i (Suc n) s =
     (if lw_stack s = [] then Inl (make_error BadInput (''multianewarray: stack underflow for dim '' @ show_nat i))
      else rbind (lw_pop s) (\<lambda>(v, s). rbind (pop_lengths (i + 1) n s) (\<lambda>(vs, s). Inr (v # vs, s))))"

definition lower_multianewarray :: "decoded \<Rightarrow> lowerer \<Rightarrow> lowerer result" where
  "lower_multianewarray d s =
     rbind (pop_lengths 0 (nat (sint (d_switch_count d))) s) (\<lambda>(lens, s).
       let (nid, s) = make_effectful NK_NewArr lens s in Inr (lw_push nid s))"

text \<open>Branches: a comparison and an \<^verbatim>\<open>If\<close> node with its two projections; the following code hangs off the \<^verbatim>\<open>If\<close> node.\<close>

definition lower_if :: "node_id \<Rightarrow> lowerer \<Rightarrow> lowerer" where
  "lower_if cmp s =
     (let (if_node, s) = lw_build (gb_if_node cmp) s;
          s = s\<lparr>lw_graph := set_ctrl_input if_node (lw_ctrl s) (lw_graph s)\<rparr>;
          (iftrue, s) = lw_build (create NK_IfTrue) s;
          s = s\<lparr>lw_graph := set_ctrl_input iftrue if_node (lw_graph s)\<rparr>;
          (iffalse, s) = lw_build (create NK_IfFalse) s;
          s = s\<lparr>lw_graph := set_ctrl_input iffalse if_node (lw_graph s)\<rparr>
      in s\<lparr>lw_ctrl := if_node\<rparr>)"

definition lower_if_zero :: "(jvm_opcode \<times> node_kind) list" where
  "lower_if_zero =
     [(BC_Ifeq, NK_Eq), (BC_Ifne, NK_Eq), (BC_Iflt, NK_Lt), (BC_Ifge, NK_Lt), (BC_Ifgt, NK_Gt), (BC_Ifle, NK_Gt)]"

definition lower_if_icmp :: "(jvm_opcode \<times> node_kind) list" where
  "lower_if_icmp =
     [(BC_IfIcmpeq, NK_Eq), (BC_IfIcmpne, NK_Eq), (BC_IfIcmplt, NK_Lt), (BC_IfIcmpge, NK_Lt), (BC_IfIcmpgt, NK_Gt),
      (BC_IfIcmple, NK_Gt)]"

definition do_if_zero :: "node_kind \<Rightarrow> lowerer \<Rightarrow> lowerer result" where
  "do_if_zero k s = rbind (lw_pop s) (\<lambda>(v, s).
     let (zero, s) = lw_build (create_const_int 0) s; (cmp, s) = lw_build (create_with k [v, zero] 0 0) s
     in Inr (lower_if cmp s))"

definition do_if_icmp :: "node_kind \<Rightarrow> lowerer \<Rightarrow> lowerer result" where
  "do_if_icmp k s = rbind (lw_pop s) (\<lambda>(b, s). rbind (lw_pop s) (\<lambda>(a, s).
     let (cmp, s) = lw_build (create_with k [a, b] 0 0) s in Inr (lower_if cmp s)))"

definition do_if_null :: "lowerer \<Rightarrow> lowerer result" where
  "do_if_null s = rbind (lw_pop s) (\<lambda>(v, s).
     let (null_v, s) = lw_build (create NK_LdNull) s; (cmp, s) = lw_build (create_with NK_Eq [v, null_v] 0 0) s
     in Inr (lower_if cmp s))"

definition lower_return :: "node_id \<Rightarrow> lowerer \<Rightarrow> lowerer" where
  "lower_return v s =
     (let (ret, s) = lw_build (gb_return_node v) s
      in s\<lparr>lw_graph := set_effect_input ret (lw_effect s) (set_ctrl_input ret (lw_ctrl s) (lw_graph s))\<rparr>)"

definition lower_return_void :: "lowerer \<Rightarrow> lowerer" where
  "lower_return_void s = (let (null_v, s) = lw_build (create NK_LdNull) s in lower_return null_v s)"

definition at_pc :: "nat \<Rightarrow> string" where
  "at_pc pc = '' at pc='' @ show_nat pc"

definition lower_unsupported :: "decoded \<Rightarrow> nat \<Rightarrow> error" where
  "lower_unsupported d pc =
     (if d_op d \<in> set [BC_TableSwitch, BC_LookupSwitch]
      then make_error UnsupportedNode (''JVM lowerer: switch opcodes not yet supported'' @ at_pc pc)
      else if d_op d = BC_WideRet then make_error UnsupportedNode ''JVM lowerer: wide ret not yet supported''
      else if d_op d \<in> set [BC_Jsr, BC_JsrW, BC_Ret]
      then make_error UnsupportedNode (''JVM lowerer: jsr/ret deprecated and not supported'' @ at_pc pc)
      else if d_op d \<in> set [BC_Breakpoint, BC_Impdep1, BC_Impdep2]
      then make_error UnsupportedNode (''JVM lowerer: reserved opcode '' @ opcode_name (d_op d) @ at_pc pc)
      else make_error UnsupportedNode (''JVM lowerer: opcode '' @ [CHR 0x27] @ opcode_name (d_op d) @ [CHR 0x27] @ '' (0x''
        @ show_hex True 4 (unat (d_op d)) @ '') not yet supported'' @ at_pc pc))"

definition lower_control :: "decoded \<Rightarrow> nat \<Rightarrow> lowerer \<Rightarrow> lowerer result" where
  "lower_control d pc s =
     (case map_of lower_if_zero (d_op d) of Some k \<Rightarrow> do_if_zero k s | None \<Rightarrow>
      case map_of lower_if_icmp (d_op d) of Some k \<Rightarrow> do_if_icmp k s | None \<Rightarrow>
      if d_op d \<in> set [BC_IfAcmpeq, BC_IfAcmpne, BC_Ifnull, BC_Ifnonnull] then do_if_null s
      else if d_op d = BC_Return then Inr (lower_return_void s)
      else if d_op d \<in> set [BC_Ireturn, BC_Lreturn, BC_Freturn, BC_Dreturn, BC_Areturn]
      then rbind (lw_pop s) (\<lambda>(v, s). Inr (lower_return v s))
      else Inl (lower_unsupported d pc))"

definition lower_op :: "(nat \<Rightarrow> nat \<Rightarrow> string) \<Rightarrow> decoded \<Rightarrow> nat \<Rightarrow> lowerer \<Rightarrow> lowerer result" where
  "lower_op oor d pc s =
     (case lower_stack (d_op d) of Some f \<Rightarrow> f s | None \<Rightarrow>
      case lower_constant d of Some f \<Rightarrow> Inr (lw_push_new f s) | None \<Rightarrow>
      case lower_load_index d of Some i \<Rightarrow> rbind (lw_at oor i s) (\<lambda>v. Inr (lw_push v s)) | None \<Rightarrow>
      case lower_store_index d of Some i \<Rightarrow> rbind (lw_pop s) (\<lambda>(v, s). lw_set_local oor i v s) | None \<Rightarrow>
      if d_op d \<in> set [BC_Iinc, BC_WideIinc] then lower_iinc oor d s
      else case map_of lower_binary (d_op d) of Some f \<Rightarrow> do_lower_binary f s | None \<Rightarrow>
      case map_of lower_unary (d_op d) of Some k \<Rightarrow> do_lower_unary k s | None \<Rightarrow>
      case map_of lower_effects (d_op d) of Some e \<Rightarrow> do_lower_effect e s | None \<Rightarrow>
      if d_op d = BC_Multianewarray then lower_multianewarray d s else lower_control d pc s)"

section \<open>The method\<close>

lemma decoded_length:
  assumes "decode_opcode bs = Some d" "d_op d \<noteq> BC_Invalid" "d_op d \<notin> set [BC_TableSwitch, BC_LookupSwitch]"
  shows "0 < unat (d_length d)"
proof -
  have ne: "bs \<noteq> []" using assms(1,2) by (auto simp: decode_opcode_def)
  have "bs ! 0 \<noteq> 0xAA \<and> bs ! 0 \<noteq> 0xAB"
  proof (rule ccontr)
    assume "\<not> ?thesis"
    then have op: "bs ! 0 = 0xAA \<or> bs ! 0 = 0xAB" by blast
    then have row: "oi_operand (jvm_table ! unat (bs ! 0)) \<in> {OF_TableSwitch, OF_LookupSwitch}" using switch_rows by auto
    have "d_op d = BC_Invalid \<or> d_op d = ucast (bs ! 0)"
      using assms(1) ne op row
      by (auto simp: decode_opcode_def Let_def decode_operand_def decode_tableswitch_def decode_lookupswitch_def
          split: if_splits option.splits bind_splits)
    then show False using assms(2,3) op by auto
  qed
  then obtain i rest where "instr_ok i" "unat (d_length d) = length (encode_instr i)"
    using decoded_encoding [OF assms(1,2)] by blast
  then show ?thesis by (cases i) simp_all
qed

lemma lower_switch:
  assumes "d_op d \<in> set [BC_TableSwitch, BC_LookupSwitch]"
  shows "lower_op oor d pc s = Inl (lower_unsupported d pc)"
  using assms
  by (elim set_consE) (simp_all add: lower_op_def lower_stack_def lower_constant_def lower_constants_def lower_load_index_def
      lower_store_index_def short_index_def lower_binary_def lower_unary_def lower_effects_def lower_control_def
      lower_if_zero_def lower_if_icmp_def)

lemma lower_advances:
  assumes "decode_opcode bs = Some d" "d_op d \<noteq> BC_Invalid" "lower_op oor d pc s = Inr s'"
  shows "0 < unat (d_length d)"
  using assms decoded_length [OF assms(1,2)] lower_switch [of d oor pc s] by auto

text \<open>The loop over the instructions; it ends because an instruction that is translated is not empty.\<close>

function lower_loop :: "(nat \<Rightarrow> nat \<Rightarrow> string) \<Rightarrow> u8 list \<Rightarrow> nat \<Rightarrow> lowerer \<Rightarrow> lowerer result ub" where
  "lower_loop oor bytes pc s =
     (if pc < length bytes
      then (case decode_opcode (drop pc bytes) of None \<Rightarrow> None
        | Some d \<Rightarrow>
            if d_op d = BC_Invalid then Some (Inl (make_error BadInput (''invalid JVM opcode at pc='' @ show_nat pc)))
            else (case lower_op oor d pc s of Inl e \<Rightarrow> Some (Inl e)
              | Inr s' \<Rightarrow> lower_loop oor bytes (pc + unat (d_length d)) s'))
      else Some (Inr s))"
  by pat_completeness auto
termination
  by (relation "measure (\<lambda>(oor, bytes, pc, s). length bytes - pc)") (auto dest: lower_advances)

declare lower_loop.simps [simp del]

fun create_phis :: "nat \<Rightarrow> graph \<Rightarrow> node_id list \<times> graph" where
  "create_phis 0 g = ([], g)"
| "create_phis (Suc n) g = (let (nid, g) = create NK_Phi g; (ids, g) = create_phis n g in (nid # ids, g))"

definition lower_start :: "u16 \<Rightarrow> u16 \<Rightarrow> lowerer" where
  "lower_start num_locals num_args =
     (let s = new_lowerer;
          (ls, g) = create_phis (unat num_locals) (lw_graph s);
          (as, g) = create_phis (unat num_args) g
      in s\<lparr>lw_graph := g, lw_locals := ls, lw_args := as\<rparr>)"

text \<open>The return at the end, which is added whether or not there was an explicit one.\<close>

definition lower_end :: "lowerer \<Rightarrow> lowerer" where
  "lower_end s = (case lw_stack s of [] \<Rightarrow> lower_return_void s | v # vs \<Rightarrow> lower_return v (s\<lparr>lw_stack := vs\<rparr>))"

definition jvm_lower :: "(nat \<Rightarrow> nat \<Rightarrow> string) \<Rightarrow> u8 list \<Rightarrow> u16 \<Rightarrow> u16 \<Rightarrow> graph result ub" where
  "jvm_lower oor bytes num_locals num_args =
     map_option (\<lambda>r. rbind r (\<lambda>s. let s = lower_end s in rbind (verify_graph (lw_graph s)) (\<lambda>_. Inr (lw_graph s))))
       (lower_loop oor bytes 0 (lower_start num_locals num_args))"

end
