(* ===== verification/Jvm_Lower_Valid.thy ===== *)
theory Jvm_Lower_Valid
  imports Jvm_Lower Ir_Refinement
begin

text \<open>
  Every graph the lowerer makes passes the verifier: nodes are only added, and an added node is complete
  when the next one is made.
\<close>

section \<open>Growing graphs\<close>

text \<open>A node that the verifier accepts whatever comes after it; its inputs are older than the node.\<close>

definition good_view :: "node_id \<Rightarrow> node_view \<Rightarrow> bool" where
  "good_view i v \<longleftrightarrow> (\<forall>x \<in> set (v_ins v). 0 < x \<and> x < i) \<and> v_ctrl v < i \<and> v_effect v < i
     \<and> \<not> flags_has (v_flags v) NF_IsDead \<and> \<not> flags_has (v_flags v) NF_IsGuard
     \<and> (flags_has (v_flags v) NF_Effect \<longrightarrow> v_kind v \<noteq> NK_Start \<longrightarrow> v_effect v \<noteq> 0)
     \<and> (flags_has (v_flags v) NF_Pure \<longrightarrow> v_effect v = 0)"

definition good_graph :: "graph \<Rightarrow> bool" where
  "good_graph g \<longleftrightarrow> built g \<and> (\<forall>i. in_graph g i \<longrightarrow> good_view i (view g i))"

definition extends :: "graph \<Rightarrow> graph \<Rightarrow> bool" where
  "extends g h \<longleftrightarrow> g_size g \<le> g_size h \<and> (\<forall>i. in_graph g i \<longrightarrow> view h i = view g i)"

lemma extends_refl [simp]: "extends g g"
  by (simp add: extends_def)

lemma extends_trans: "extends g h \<Longrightarrow> extends h k \<Longrightarrow> extends g k"
  by (auto simp: extends_def in_graph_def)

lemma extends_in_graph: "extends g h \<Longrightarrow> in_graph g i \<Longrightarrow> in_graph h i"
  by (auto simp: extends_def in_graph_def)

lemma good_graph_wf: "good_graph g \<Longrightarrow> graph_wf g"
  by (simp add: good_graph_def built_wf)

lemma good_graph_verifies:
  assumes "good_graph g"
  shows "verifier_ok g"
proof -
  have "good_view i (view g i)" if "in_graph g i" for i using assms that by (simp add: good_graph_def)
  then show ?thesis
    unfolding verifier_ok_def no_dangling_def effects_chained_def guards_have_state_def dead_unreferenced_def
    by (auto simp: good_view_def view_def node_queries in_graph_def) fastforce+
qed

text \<open>A builder that adds one good node; \<open>v\<close> is its view.\<close>

definition adds :: "(graph \<Rightarrow> node_id \<times> graph) \<Rightarrow> graph \<Rightarrow> node_view \<Rightarrow> bool" where
  "adds f g v \<longleftrightarrow> fst (f g) = g_size g + 1 \<and> g_size (snd (f g)) = g_size g + 1 \<and> built (snd (f g))
     \<and> view (snd (f g)) (g_size g + 1) = v \<and> (\<forall>i. in_graph g i \<longrightarrow> view (snd (f g)) i = view g i)"

lemma in_graph_Suc: "g_size h = g_size g + 1 \<Longrightarrow> in_graph h i \<longleftrightarrow> in_graph g i \<or> i = g_size g + 1"
  by (auto simp: in_graph_def)

lemma adds_good:
  assumes "adds f g v" "good_graph g" "good_view (g_size g + 1) v"
  shows "good_graph (snd (f g))" "extends g (snd (f g))" "in_graph (snd (f g)) (fst (f g))"
proof -
  have new: "in_graph (snd (f g)) i \<longleftrightarrow> in_graph g i \<or> i = g_size g + 1" for i
    using assms(1) by (intro in_graph_Suc) (simp add: adds_def)
  show "good_graph (snd (f g))"
    using assms by (auto simp: good_graph_def new adds_def)
  show "extends g (snd (f g))" "in_graph (snd (f g)) (fst (f g))"
    using assms(1) by (auto simp: adds_def extends_def in_graph_def)
qed

lemma adds_create: "good_graph g \<Longrightarrow> adds (create k) g (new_view k)"
  by (simp add: adds_def good_graph_wf view_create) (simp add: good_graph_def built_create in_graph_def)

lemma adds_create_with: "good_graph g \<Longrightarrow> adds (create_with k ins c e) g ((new_view k)\<lparr>v_ins := ins, v_ctrl := c, v_effect := e\<rparr>)"
  by (simp add: adds_def good_graph_wf view_create_with) (simp add: good_graph_def built_create_with in_graph_def)

lemma view_literal:
  assumes "graph_wf g" "in_graph g i" "in_graph g j"
  shows "view (upd_side i h (upd_node i (\<lambda>n. (or_flags m n)\<lparr>n_type := t\<rparr>) g)) j =
     (if j = i then (view g j)\<lparr>v_flags := v_flags (view g j) OR m, v_type := t, v_side := h (v_side (view g j))\<rparr> else view g j)"
  using assms by (simp add: view_def node_upd data_inputs_upd_same side_upd upd_node_type_flags_wf)

lemma adds_const:
  assumes "good_graph g"
  shows "adds (create_const_int v) g ((new_view NK_ConstInt)\<lparr>v_flags := v_flags (new_view NK_ConstInt) OR NF_IsConst, v_type := Ty_Int,
      v_side := default_side\<lparr>const_value := v\<rparr>\<rparr>)"
    and "adds (create_const_float v) g ((new_view NK_ConstFloat)\<lparr>v_flags := v_flags (new_view NK_ConstFloat) OR NF_IsConst,
      v_type := Ty_Float, v_side := default_side\<lparr>const_value := v\<rparr>\<rparr>)"
proof -
  note wf = good_graph_wf [OF assms]
  note view = view_literal [OF wf_create [OF wf]]
  have "built g" using assms by (simp add: good_graph_def)
  note b = built_const_int [OF this] built_const_float [OF this]
  have side: "v_side (new_view k) = default_side" for k by (simp add: new_view_def)
  have old: "in_graph g i \<Longrightarrow> i \<noteq> Suc (g_size g)" for i by (simp add: in_graph_def)
  show "adds (create_const_int v) g ((new_view NK_ConstInt)\<lparr>v_flags := v_flags (new_view NK_ConstInt) OR NF_IsConst, v_type := Ty_Int,
      v_side := default_side\<lparr>const_value := v\<rparr>\<rparr>)"
    using b(1) [of v] old unfolding adds_def const_pairs by (simp add: view view_create [OF wf] side)
  show "adds (create_const_float v) g ((new_view NK_ConstFloat)\<lparr>v_flags := v_flags (new_view NK_ConstFloat) OR NF_IsConst,
      v_type := Ty_Float, v_side := default_side\<lparr>const_value := v\<rparr>\<rparr>)"
    using b(2) [of v] old unfolding adds_def const_pairs by (simp add: view view_create [OF wf] side)
qed

text \<open>Setting the control and the effect input of the new node.\<close>

definition with_ctrl :: "node_id \<Rightarrow> (graph \<Rightarrow> node_id \<times> graph) \<Rightarrow> graph \<Rightarrow> node_id \<times> graph" where
  "with_ctrl c f g = (let (i, g) = f g in (i, set_ctrl_input i c g))"

definition with_effect :: "node_id \<Rightarrow> (graph \<Rightarrow> node_id \<times> graph) \<Rightarrow> graph \<Rightarrow> node_id \<times> graph" where
  "with_effect e f g = (let (i, g) = f g in (i, set_effect_input i e g))"

lemma adds_with:
  assumes "adds f g v"
  shows "adds (with_ctrl c f) g (v\<lparr>v_ctrl := c\<rparr>)" "adds (with_effect e f) g (v\<lparr>v_effect := e\<rparr>)"
proof -
  obtain h where h: "f g = (g_size g + 1, h)" using assms by (cases "f g") (simp add: adds_def)
  have b: "g_size h = g_size g + 1" "built h" "view h (g_size g + 1) = v" "\<And>i. in_graph g i \<Longrightarrow> view h i = view g i"
    using assms by (simp_all add: adds_def h)
  have new: "in_graph h (g_size g + 1)" using b(1) by (simp add: in_graph_def)
  have old: "in_graph g i \<Longrightarrow> in_graph h i \<and> i \<noteq> g_size g + 1" for i using b(1) by (auto simp: in_graph_def)
  note views = view_set_ctrl_input [OF built_wf [OF b(2)] new] view_set_effect_input [OF built_wf [OF b(2)] new]
  show "adds (with_ctrl c f) g (v\<lparr>v_ctrl := c\<rparr>)" "adds (with_effect e f) g (v\<lparr>v_effect := e\<rparr>)"
    unfolding adds_def with_ctrl_def with_effect_def h using b new old views
    by (auto intro: built_set_ctrl built_set_effect)
qed

section \<open>Kinds\<close>

lemma new_view_flags:
  "\<not> flags_has (v_flags (new_view k)) NF_IsDead"
  "flags_has (v_flags (new_view k)) NF_IsGuard = nki_guard (lookup_node_kind_info k)"
  "flags_has (v_flags (new_view k)) NF_Effect = nki_effect (lookup_node_kind_info k)"
  "flags_has (v_flags (new_view k)) NF_Pure = nki_pure (lookup_node_kind_info k)"
  by (simp_all add: new_view_def create_flags_def Let_def flag_simps)

lemma new_view_basic [simp]:
  "v_kind (new_view k) = k" "v_ins (new_view k) = []" "v_ctrl (new_view k) = 0" "v_effect (new_view k) = 0"
  by (simp_all add: new_view_def)

definition pure_kind :: "node_kind \<Rightarrow> bool" where
  "pure_kind k = (let info = lookup_node_kind_info k in \<not> nki_effect info \<and> \<not> nki_guard info)"

definition effect_kind :: "node_kind \<Rightarrow> bool" where
  "effect_kind k = (let info = lookup_node_kind_info k in nki_effect info \<and> \<not> nki_pure info \<and> \<not> nki_guard info)"

lemma good_pure:
  assumes "pure_kind k" "\<forall>x \<in> set ins. 0 < x \<and> x < i" "c < i"
  shows "good_view i ((new_view k)\<lparr>v_ins := ins, v_ctrl := c, v_effect := 0\<rparr>)"
  using assms by (simp add: good_view_def new_view_flags pure_kind_def Let_def)

lemma good_effect:
  assumes "effect_kind k" "\<forall>x \<in> set ins. 0 < x \<and> x < i" "c < i" "e < i" "e \<noteq> 0"
  shows "good_view i ((new_view k)\<lparr>v_ins := ins, v_ctrl := c, v_effect := e\<rparr>)"
  using assms by (simp add: good_view_def new_view_flags effect_kind_def Let_def)

lemma pure_kinds: "list_all pure_kind ([NK_Phi, NK_If, NK_IfTrue, NK_IfFalse, NK_LdNull, NK_ConstInt, NK_ConstFloat, NK_Add, NK_Sub, NK_Mul,
   NK_Div, NK_Mod, NK_And, NK_Or, NK_Xor, NK_Shl, NK_Shr, NK_Sar, NK_Eq, NK_Lt, NK_Gt] @ map snd lower_unary)"
  by code_simp

lemma effect_kinds: "list_all effect_kind (NK_Return # NK_NewArr # map (fst o snd) lower_effects)"
  by code_simp

section \<open>The operations of the lowerer\<close>

definition lw_ok :: "lowerer \<Rightarrow> bool" where
  "lw_ok s \<longleftrightarrow> good_graph (lw_graph s) \<and>
     (\<forall>v \<in> set (lw_ctrl s # lw_effect s # lw_stack s @ lw_locals s). in_graph (lw_graph s) v)"

definition reach :: "graph \<Rightarrow> lowerer \<Rightarrow> bool" where
  "reach g s \<longleftrightarrow> lw_ok s \<and> extends g (lw_graph s)"

definition lowering_error :: "error \<Rightarrow> bool" where
  "lowering_error e \<longleftrightarrow> error_kind e \<in> {BadInput, UnsupportedNode, Internal}"

text \<open>An operation fails with an error of the lowerer or its result satisfies \<open>P\<close>.\<close>

definition ok_res :: "('a \<Rightarrow> bool) \<Rightarrow> 'a result \<Rightarrow> bool" where
  "ok_res P r = (case r of Inl e \<Rightarrow> lowering_error e | Inr x \<Rightarrow> P x)"

lemma ok_res_simps [simp]: "ok_res P (Inr x) = P x" "ok_res P (thrown m)" "ok_res P (Inl (make_error BadInput m))"
  "ok_res P (Inl (make_error UnsupportedNode m))"
  by (simp_all add: ok_res_def thrown_def lowering_error_def make_error_def)

lemma ok_bind: "ok_res P r \<Longrightarrow> (\<And>x. P x \<Longrightarrow> ok_res Q (f x)) \<Longrightarrow> ok_res Q (rbind r f)"
  by (cases r) (auto simp: ok_res_def)

lemma ok_if: "(b \<Longrightarrow> ok_res P r) \<Longrightarrow> (\<not> b \<Longrightarrow> ok_res P r') \<Longrightarrow> ok_res P (if b then r else r')"
  by simp

lemma ok_option:
  "(x = None \<Longrightarrow> ok_res P r) \<Longrightarrow> (\<And>y. x = Some y \<Longrightarrow> ok_res P (f y)) \<Longrightarrow> ok_res P (case x of None \<Rightarrow> r | Some y \<Rightarrow> f y)"
  by (cases x) auto

text \<open>A builder that makes one good node from whatever the graph has.\<close>

definition adds_good :: "(graph \<Rightarrow> node_id \<times> graph) \<Rightarrow> graph \<Rightarrow> bool" where
  "adds_good f g \<longleftrightarrow> (\<exists>v. adds f g v \<and> good_view (g_size g + 1) v)"

lemma lw_build_ok:
  assumes "reach g s" "adds_good f (lw_graph s)" "lw_build f s = (nid, s')"
  shows "reach g s'" "in_graph (lw_graph s') nid" "extends (lw_graph s) (lw_graph s')"
    "lw_ctrl s' = lw_ctrl s" "lw_effect s' = lw_effect s" "lw_stack s' = lw_stack s" "lw_locals s' = lw_locals s"
proof -
  obtain v where v: "adds f (lw_graph s) v" "good_view (g_size (lw_graph s) + 1) v" using assms(2) by (auto simp: adds_good_def)
  have s: "lw_ok s" "good_graph (lw_graph s)" "extends g (lw_graph s)" using assms(1) by (simp_all add: reach_def lw_ok_def)
  note a = adds_good [OF v(1) s(2) v(2)]
  have s': "s' = s\<lparr>lw_graph := snd (f (lw_graph s))\<rparr>" "nid = fst (f (lw_graph s))"
    using assms(3) by (auto simp: lw_build_def split: prod.splits)
  show "reach g s'"
    using a s by (auto simp: reach_def s' lw_ok_def intro: extends_trans extends_in_graph)
  show "in_graph (lw_graph s') nid" "extends (lw_graph s) (lw_graph s')" using a by (simp_all add: s')
  show "lw_ctrl s' = lw_ctrl s" "lw_effect s' = lw_effect s" "lw_stack s' = lw_stack s" "lw_locals s' = lw_locals s"
    by (simp_all add: s')
qed

lemma push_ok: "reach g s \<Longrightarrow> in_graph (lw_graph s) v \<Longrightarrow> reach g (lw_push v s)"
  by (auto simp: reach_def lw_ok_def lw_push_def)

lemma push_graph [simp]: "lw_graph (lw_push v s) = lw_graph s"
  by (simp add: lw_push_def)

lemma push_new_ok: "reach g s \<Longrightarrow> adds_good f (lw_graph s) \<Longrightarrow> reach g (lw_push_new f s)"
  by (auto simp: lw_push_new_def split: prod.split intro: push_ok lw_build_ok)

lemma pop_ok:
  "reach g s \<Longrightarrow> ok_res (\<lambda>(v, s'). reach g s' \<and> in_graph (lw_graph s) v \<and> lw_graph s' = lw_graph s
      \<and> lw_ctrl s' = lw_ctrl s \<and> lw_effect s' = lw_effect s \<and> lw_locals s' = lw_locals s) (lw_pop s)"
  by (cases "lw_stack s") (auto simp: lw_pop_def reach_def lw_ok_def)

lemma pops_ok:
  "reach g s \<Longrightarrow> ok_res (\<lambda>(vs, s'). reach g s' \<and> (\<forall>v \<in> set vs. in_graph (lw_graph s) v) \<and> lw_graph s' = lw_graph s
      \<and> lw_ctrl s' = lw_ctrl s \<and> lw_effect s' = lw_effect s) (lw_pops n s)"
proof (induction n arbitrary: s)
  case (Suc n)
  show ?case unfolding lw_pops.simps
  proof (rule ok_bind [OF pop_ok [OF Suc.prems]], clarify)
    fix v t assume t: "reach g t" "in_graph (lw_graph s) v" "lw_graph t = lw_graph s" "lw_ctrl t = lw_ctrl s" "lw_effect t = lw_effect s"
    show "ok_res (\<lambda>(vs, s'). reach g s' \<and> (\<forall>v \<in> set vs. in_graph (lw_graph s) v) \<and> lw_graph s' = lw_graph s
      \<and> lw_ctrl s' = lw_ctrl s \<and> lw_effect s' = lw_effect s) (rbind (lw_pops n t) (\<lambda>(vs, s). Inr (v # vs, s)))"
      by (rule ok_bind [OF Suc.IH [OF t(1)]]) (use t in auto)
  qed
qed simp

lemma peek_ok: "reach g s \<Longrightarrow> ok_res (\<lambda>v. in_graph (lw_graph s) v) (lw_peek n s)"
  by (auto simp: lw_peek_def reach_def lw_ok_def)

lemma at_ok: "reach g s \<Longrightarrow> ok_res (\<lambda>v. in_graph (lw_graph s) v) (lw_at oor i s)"
  by (auto simp: lw_at_def reach_def lw_ok_def)

lemma set_local_ok: "reach g s \<Longrightarrow> in_graph (lw_graph s) v \<Longrightarrow> ok_res (reach g) (lw_set_local oor i v s)"
  by (auto simp: lw_set_local_def reach_def lw_ok_def dest: set_update_subset_insert [THEN subsetD])

section \<open>The instructions\<close>

lemma adds_good_pure:
  assumes "reach g s" "pure_kind k" "\<forall>x \<in> set ins. in_graph (lw_graph s) x"
  shows "adds_good (create_with k ins 0 0) (lw_graph s)"
proof -
  have "good_graph (lw_graph s)" using assms(1) by (simp add: reach_def lw_ok_def)
  from adds_create_with [OF this, of k ins 0 0] show ?thesis unfolding adds_good_def
    using assms(2,3) by (auto intro!: exI good_pure simp: in_graph_def)
qed

lemma adds_good_effect:
  assumes "reach g s" "effect_kind k" "\<forall>x \<in> set ins. in_graph (lw_graph s) x"
  shows "adds_good (create_with k ins (lw_ctrl s) (lw_effect s)) (lw_graph s)"
proof -
  have g: "good_graph (lw_graph s)" "in_graph (lw_graph s) (lw_ctrl s)" "in_graph (lw_graph s) (lw_effect s)"
    using assms(1) by (simp_all add: reach_def lw_ok_def)
  from adds_create_with [OF g(1), of k ins "lw_ctrl s" "lw_effect s"] show ?thesis unfolding adds_good_def
    using assms(2,3) g(2,3) by (auto intro!: exI good_effect simp: in_graph_def)
qed

lemma adds_good_leaf:
  assumes "reach g s" "pure_kind k"
  shows "adds_good (create k) (lw_graph s)"
proof -
  have "good_graph (lw_graph s)" using assms(1) by (simp add: reach_def lw_ok_def)
  from adds_create [OF this, of k] show ?thesis unfolding adds_good_def
    using good_pure [OF assms(2), of "[]" "g_size (lw_graph s) + 1" 0] by (auto simp: good_view_def)
qed

lemma adds_good_const:
  assumes "reach g s"
  shows "adds_good (create_const_int v) (lw_graph s)" "adds_good (create_const_float w) (lw_graph s)"
proof -
  have g: "good_graph (lw_graph s)" using assms(1) by (simp add: reach_def lw_ok_def)
  have p: "pure_kind NK_ConstInt" "pure_kind NK_ConstFloat" using pure_kinds by simp_all
  note flags = new_view_flags flag_simps
  have k: "good_view i ((new_view k)\<lparr>v_flags := v_flags (new_view k) OR NF_IsConst, v_type := t, v_side := h\<rparr>)"
    if "pure_kind k" "0 < i" for k t h i
    using that by (simp add: good_view_def flags pure_kind_def Let_def)
  show "adds_good (create_const_int v) (lw_graph s)" "adds_good (create_const_float w) (lw_graph s)"
    unfolding adds_good_def using adds_const [OF g] k [OF p(1)] k [OF p(2)] zero_less_Suc Suc_eq_plus1 by metis+
qed

lemma create_with_eqs:
  "gb_add a b = create_with NK_Add [a, b] 0 0" "gb_sub a b = create_with NK_Sub [a, b] 0 0"
  "gb_mul a b = create_with NK_Mul [a, b] 0 0" "gb_div a b = create_with NK_Div [a, b] 0 0"
  "gb_if_node a = create_with NK_If [a] 0 0" "gb_return_node a = create_with NK_Return [a] 0 0"
  by (simp_all add: gb_add_def gb_sub_def gb_mul_def gb_div_def gb_if_node_def gb_return_node_def)

lemma lower_binary_kind:
  "map_of lower_binary op = Some f \<Longrightarrow> \<exists>k. pure_kind k \<and> f = (\<lambda>a b. create_with k [a, b] 0 0)"
  using pure_kinds unfolding lower_binary_def Let_def
  by (drule_tac map_of_SomeD) (elim set_consE; auto simp: create_with_eqs fun_eq_iff)

lemma pop_bind:
  assumes "reach g s" "\<And>v t. reach g t \<Longrightarrow> in_graph (lw_graph s) v \<Longrightarrow> lw_graph t = lw_graph s \<Longrightarrow> lw_locals t = lw_locals s \<Longrightarrow> ok_res Q (f (v, t))"
  shows "ok_res Q (rbind (lw_pop s) f)"
  using pop_ok [OF assms(1)] by (rule ok_bind) (use assms(2) in auto)

lemma do_lower_binary_ok: "reach g s \<Longrightarrow> map_of lower_binary op = Some f \<Longrightarrow> ok_res (reach g) (do_lower_binary f s)"
  unfolding do_lower_binary_def
  by (auto dest!: lower_binary_kind intro!: pop_bind push_new_ok adds_good_pure)

lemma lower_unary_kind: "map_of lower_unary op = Some k \<Longrightarrow> pure_kind k"
  using pure_kinds by (force dest!: map_of_SomeD simp: list_all_iff)

lemma do_lower_unary_ok: "reach g s \<Longrightarrow> map_of lower_unary op = Some k \<Longrightarrow> ok_res (reach g) (do_lower_unary k s)"
  unfolding do_lower_unary_def by (auto dest!: lower_unary_kind intro!: pop_bind push_new_ok adds_good_pure)

lemma make_effectful_ok:
  assumes "reach g s" "effect_kind k" "\<forall>x \<in> set ins. in_graph (lw_graph s) x" "make_effectful k ins s = (nid, s')"
  shows "reach g s' \<and> in_graph (lw_graph s') nid"
proof -
  obtain t where t: "lw_build (create_with k ins (lw_ctrl s) (lw_effect s)) s = (nid, t)"
    using assms(4) by (auto simp: make_effectful_def split: prod.splits)
  note b = lw_build_ok [OF assms(1) adds_good_effect [OF assms(1-3)] t]
  have "s' = (if node_is_effect (node (lw_graph t) nid) then t\<lparr>lw_effect := nid\<rparr> else t)"
    using assms(4) t by (auto simp: make_effectful_def)
  then show ?thesis using b by (auto simp: reach_def lw_ok_def)
qed

lemma lower_effects_kind: "map_of lower_effects op = Some (k, n, p) \<Longrightarrow> effect_kind k"
  using effect_kinds by (force dest!: map_of_SomeD simp: list_all_iff)

lemma effect_push_ok:
  assumes "reach g s" "effect_kind k" "\<forall>x \<in> set ins. in_graph (lw_graph s) x"
  shows "ok_res (reach g) (let (nid, s) = make_effectful k ins s in Inr (if p then lw_push nid s else s))"
  by (cases "make_effectful k ins s") (use make_effectful_ok [OF assms] in \<open>auto intro: push_ok\<close>)

lemma do_lower_effect_ok:
  assumes "reach g s" "map_of lower_effects op = Some e"
  shows "ok_res (reach g) (do_lower_effect e s)"
proof -
  obtain k n p where e: "e = (k, n, p)" by (cases e) auto
  note k = lower_effects_kind [OF assms(2) [unfolded e]]
  show ?thesis unfolding do_lower_effect_def e prod.case
  proof (rule ok_bind [OF pops_ok [OF assms(1)]], goal_cases)
    case (1 x)
    then show ?case by (cases x) (simp only: prod.case, rule effect_push_ok [OF _ k], auto)
  qed
qed

lemma pop_lengths_ok:
  "reach g s \<Longrightarrow> ok_res (\<lambda>(vs, s'). reach g s' \<and> (\<forall>v \<in> set vs. in_graph (lw_graph s) v) \<and> lw_graph s' = lw_graph s) (pop_lengths i n s)"
proof (induction n arbitrary: s i)
  case (Suc n)
  show ?case unfolding pop_lengths.simps
  proof (intro ok_if pop_bind [OF Suc.prems], goal_cases)
    case (2 v t)
    show ?case unfolding prod.case by (rule ok_bind [OF Suc.IH [OF 2(2)]]) (use 2 in auto)
  qed simp
qed simp

lemma lower_multianewarray_ok:
  assumes "reach g s"
  shows "ok_res (reach g) (lower_multianewarray d s)"
  unfolding lower_multianewarray_def
  by (rule ok_bind [OF pop_lengths_ok [OF assms]])
    (use effect_kinds effect_push_ok [of g _ NK_NewArr _ True] in auto)

lemma lower_iinc_ok:
  assumes "reach g s"
  shows "ok_res (reach g) (lower_iinc oor d s)"
  unfolding lower_iinc_def
proof (rule ok_bind [OF at_ok [OF assms]])
  fix cur assume cur: "in_graph (lw_graph s) cur"
  obtain delta t where t: "lw_build (create_const_int (scast (d_i32 d))) s = (delta, t)" by fastforce
  note b = lw_build_ok [OF assms adds_good_const(1) [OF assms] t]
  obtain nid u where u: "lw_build (create_with NK_Add [cur, delta] 0 0) t = (nid, u)" by fastforce
  have "adds_good (create_with NK_Add [cur, delta] 0 0) (lw_graph t)"
    using pure_kinds b cur by (intro adds_good_pure [OF b(1)]) (auto intro: extends_in_graph)
  note c = lw_build_ok [OF b(1) this u]
  show "ok_res (reach g) (let (delta, s) = lw_build (create_const_int (scast (d_i32 d))) s;
      (nid, s) = lw_build (create_with NK_Add [cur, delta] 0 0) s in lw_set_local oor (unat (d_u32 d)) nid s)"
    by (simp add: t u set_local_ok c)
qed

lemma lower_stack_ok:
  assumes "reach g s" "lower_stack op = Some f"
  shows "ok_res (reach g) (f s)"
  using assms(2)
  by (auto simp: lower_stack_def split: if_splits
      intro!: pop_bind [OF assms(1)] pop_bind push_ok ok_if ok_bind [OF peek_ok [OF assms(1)]] simp: assms(1))

lemma lower_if_eq:
  "lower_if cmp s =
     (let (i, s) = lw_build (with_ctrl (lw_ctrl s) (gb_if_node cmp)) s;
          (t, s) = lw_build (with_ctrl i (create NK_IfTrue)) s;
          (t, s) = lw_build (with_ctrl i (create NK_IfFalse)) s
      in s\<lparr>lw_ctrl := i\<rparr>)"
  by (simp add: lower_if_def lw_build_def with_ctrl_def Let_def split_beta)

lemma lower_return_eq:
  "lower_return v s = snd (lw_build (with_effect (lw_effect s) (with_ctrl (lw_ctrl s) (gb_return_node v))) s)"
  by (simp add: lower_return_def lw_build_def with_ctrl_def with_effect_def Let_def split_beta)

lemma adds_good_ctrl:
  assumes "reach g s" "pure_kind k" "\<forall>x \<in> set ins. in_graph (lw_graph s) x" "in_graph (lw_graph s) c"
  shows "adds_good (with_ctrl c (create_with k ins 0 0)) (lw_graph s)"
proof -
  have "good_graph (lw_graph s)" using assms(1) by (simp add: reach_def lw_ok_def)
  note a = adds_with(1) [OF adds_create_with [OF this, of k ins 0 0], of c]
  have "good_view (g_size (lw_graph s) + 1) ((new_view k)\<lparr>v_ins := ins, v_ctrl := c, v_effect := 0\<rparr>)"
    using assms(2-4) by (intro good_pure) (auto simp: in_graph_def)
  then show ?thesis using a unfolding adds_good_def by (auto simp: good_view_def)
qed

lemma adds_good_proj:
  assumes "reach g s" "pure_kind k" "in_graph (lw_graph s) c"
  shows "adds_good (with_ctrl c (create k)) (lw_graph s)"
proof -
  have "good_graph (lw_graph s)" using assms(1) by (simp add: reach_def lw_ok_def)
  note a = adds_with(1) [OF adds_create [OF this, of k], of c]
  have "good_view (g_size (lw_graph s) + 1) ((new_view k)\<lparr>v_ins := [], v_ctrl := c, v_effect := 0\<rparr>)"
    using assms(2,3) by (intro good_pure) (auto simp: in_graph_def)
  then show ?thesis using a unfolding adds_good_def by (auto simp: good_view_def)
qed

lemma lower_if_ok:
  assumes "reach g s" "in_graph (lw_graph s) cmp"
  shows "reach g (lower_if cmp s)"
proof -
  have p: "pure_kind NK_If" "pure_kind NK_IfTrue" "pure_kind NK_IfFalse" using pure_kinds by simp_all
  have c: "in_graph (lw_graph s) (lw_ctrl s)" using assms(1) by (simp add: reach_def lw_ok_def)
  obtain i t where t: "lw_build (with_ctrl (lw_ctrl s) (gb_if_node cmp)) s = (i, t)" by fastforce
  note a = lw_build_ok [OF assms(1) _ t, unfolded create_with_eqs, OF adds_good_ctrl [OF assms(1) p(1) _ c]]
  have a: "reach g t" "in_graph (lw_graph t) i" using a(1,2) assms(2) by simp_all
  obtain j u where u: "lw_build (with_ctrl i (create NK_IfTrue)) t = (j, u)" by fastforce
  note b = lw_build_ok [OF a(1) adds_good_proj [OF a(1) p(2) a(2)] u]
  have i: "in_graph (lw_graph u) i" using b(3) a(2) by (rule extends_in_graph)
  obtain k v where v: "lw_build (with_ctrl i (create NK_IfFalse)) u = (k, v)" by fastforce
  note d = lw_build_ok [OF b(1) adds_good_proj [OF b(1) p(3) i] v]
  have "in_graph (lw_graph v) i" using d(3) i by (rule extends_in_graph)
  then show ?thesis using d(1) unfolding lower_if_eq t u v by (auto simp: reach_def lw_ok_def t u v)
qed

lemma lower_return_ok:
  assumes "reach g s" "in_graph (lw_graph s) v"
  shows "reach g (lower_return v s)"
proof -
  let ?f = "with_effect (lw_effect s) (with_ctrl (lw_ctrl s) (gb_return_node v))"
  have g: "good_graph (lw_graph s)" "in_graph (lw_graph s) (lw_ctrl s)" "in_graph (lw_graph s) (lw_effect s)"
    using assms(1) by (simp_all add: reach_def lw_ok_def)
  note a = adds_with(2) [OF adds_with(1) [OF adds_create_with [OF g(1), of NK_Return "[v]" 0 0], of "lw_ctrl s"], of "lw_effect s"]
  have "good_view (g_size (lw_graph s) + 1) ((new_view NK_Return)\<lparr>v_ins := [v], v_ctrl := lw_ctrl s, v_effect := lw_effect s\<rparr>)"
    using effect_kinds assms(2) g(2,3) by (intro good_effect) (auto simp: in_graph_def)
  then have "adds_good ?f (lw_graph s)" using a unfolding adds_good_def create_with_eqs by (auto simp: good_view_def)
  then show ?thesis using lw_build_ok(1) [OF assms(1), of ?f] by (cases "lw_build ?f s") (auto simp: lower_return_eq)
qed

lemma lower_return_void_ok:
  assumes "reach g s"
  shows "reach g (lower_return_void s)"
proof -
  have "pure_kind NK_LdNull" using pure_kinds by simp
  note a = lw_build_ok [OF assms adds_good_leaf [OF assms this]]
  show ?thesis using a lower_return_ok by (cases "lw_build (create NK_LdNull) s") (auto simp: lower_return_void_def)
qed

lemma if_kinds: "list_all pure_kind (map snd (lower_if_zero @ lower_if_icmp))"
  by code_simp

lemma if_kind: "map_of lower_if_zero op = Some k \<Longrightarrow> pure_kind k" "map_of lower_if_icmp op = Some k \<Longrightarrow> pure_kind k"
  using if_kinds by (force dest!: map_of_SomeD simp: list_all_iff)+

lemma compare_if_ok:
  assumes "reach g s" "pure_kind k" "\<forall>x \<in> set ins. in_graph (lw_graph s) x"
  shows "ok_res (reach g) (let (cmp, s) = lw_build (create_with k ins 0 0) s in Inr (lower_if cmp s))"
  using lw_build_ok [OF assms(1) adds_good_pure [OF assms]]
  by (cases "lw_build (create_with k ins 0 0) s") (auto intro: lower_if_ok)

lemma compare_with_ok:
  assumes "reach g s" "pure_kind k" "in_graph (lw_graph s) v" "adds_good f (lw_graph s)"
  shows "ok_res (reach g) (let (w, s) = lw_build f s; (cmp, s) = lw_build (create_with k [v, w] 0 0) s in Inr (lower_if cmp s))"
proof -
  obtain w t where t: "lw_build f s = (w, t)" by fastforce
  note b = lw_build_ok [OF assms(1,4) t]
  show ?thesis using compare_if_ok [OF b(1) assms(2), of "[v, w]"] b(2,3) assms(3) by (simp add: t extends_in_graph)
qed

lemma lower_control_ok:
  assumes "reach g s"
  shows "ok_res (reach g) (lower_control d pc s)"
proof -
  have eq: "pure_kind NK_Eq" "pure_kind NK_LdNull" using pure_kinds by simp_all
  have "ok_res (reach g) (do_if_zero k s)" if "pure_kind k" for k
    unfolding do_if_zero_def
    by (rule pop_bind [OF assms]) (simp only: prod.case, rule compare_with_ok, auto intro: that adds_good_const [OF assms])
  moreover have "ok_res (reach g) (do_if_icmp k s)" if "pure_kind k" for k
    unfolding do_if_icmp_def
    by (rule pop_bind [OF assms], simp only: prod.case, rule pop_bind, assumption, simp only: prod.case,
        rule compare_if_ok) (auto intro: that)
  moreover have "ok_res (reach g) (do_if_null s)"
    unfolding do_if_null_def
    by (rule pop_bind [OF assms]) (simp only: prod.case, rule compare_with_ok, auto intro: eq adds_good_leaf [OF assms])
  moreover have "ok_res (reach g) (rbind (lw_pop s) (\<lambda>(v, s). Inr (lower_return v s)))"
    by (rule pop_bind [OF assms]) (auto intro: lower_return_ok)
  moreover have "ok_res (reach g) (Inr (lower_return_void s))" using assms by (simp add: lower_return_void_ok)
  moreover have "ok_res (reach g) (Inl (lower_unsupported d pc))" by (simp add: lower_unsupported_def)
  ultimately show ?thesis
    unfolding lower_control_def
    by (cases "map_of lower_if_zero (d_op d)"; cases "map_of lower_if_icmp (d_op d)")
      (auto dest: if_kind intro!: ok_if simp del: list.set)
qed

lemma lower_constant_ok: "reach g s \<Longrightarrow> lower_constant d = Some f \<Longrightarrow> adds_good f (lw_graph s)"
  unfolding lower_constant_def lower_constants_def using pure_kinds
  by (auto simp: adds_good_const adds_good_leaf split: if_splits dest!: map_of_SomeD)

lemma lower_op_ok:
  assumes "reach g s"
  shows "ok_res (reach g) (lower_op oor d pc s)"
proof -
  have load: "ok_res (reach g) (rbind (lw_at oor i s) (\<lambda>v. Inr (lw_push v s)))" for i
    by (rule ok_bind [OF at_ok [OF assms]]) (simp add: push_ok assms)
  have store: "ok_res (reach g) (rbind (lw_pop s) (\<lambda>(v, s). lw_set_local oor i v s))" for i
    by (rule pop_bind [OF assms]) (simp add: set_local_ok)
  have const: "ok_res (reach g) (Inr (lw_push_new f s))" if "lower_constant d = Some f" for f
    using lower_constant_ok [OF assms that] by (simp add: push_new_ok assms)
  show ?thesis
    unfolding lower_op_def
    by (intro ok_option ok_if lower_stack_ok [OF assms] const load store lower_iinc_ok [OF assms]
        do_lower_binary_ok [OF assms] do_lower_unary_ok [OF assms] do_lower_effect_ok [OF assms]
        lower_multianewarray_ok [OF assms] lower_control_ok [OF assms]; assumption)
qed

lemma lower_loop_ok:
  "reach g s \<Longrightarrow> lower_loop oor bytes pc s = Some r \<Longrightarrow> ok_res (reach g) r"
proof (induction oor bytes pc s rule: lower_loop.induct)
  case (1 oor bytes pc s)
  show ?case
  proof (cases "pc < length bytes")
    case True
    then obtain d where d: "decode_opcode (drop pc bytes) = Some d"
      using "1.prems"(2) by (subst (asm) lower_loop.simps) (auto split: option.splits)
    show ?thesis
    proof (cases "d_op d = BC_Invalid")
      case True
      then show ?thesis using "1.prems"(2) \<open>pc < length bytes\<close> d by (subst (asm) lower_loop.simps) auto
    next
      case False
      note op = lower_op_ok [OF "1.prems"(1), of oor d pc]
      show ?thesis
      proof (cases "lower_op oor d pc s")
        case (Inl e)
        then show ?thesis using "1.prems"(2) True d False op
          by (subst (asm) lower_loop.simps) (auto simp: ok_res_def)
      next
        case (Inr t)
        then have "reach g t" using op by simp
        then show ?thesis
          using "1.IH" [OF True d False Inr] "1.prems"(2) True d False Inr by (subst (asm) (2) lower_loop.simps) auto
      qed
    qed
  next
    case False
    then show ?thesis using "1.prems" by (subst (asm) lower_loop.simps) auto
  qed
qed

text \<open>The first nodes: the start node and the phis of the locals and the arguments.\<close>

lemma create_phis_spec:
  assumes "good_graph g" "create_phis n g = (ids, h)"
  shows "good_graph h \<and> extends g h \<and> ids = [g_size g + 1..<g_size g + 1 + n] \<and> g_size h = g_size g + n
     \<and> (\<forall>i \<in> set ids. view h i = new_view NK_Phi)"
  using assms
proof (induction n arbitrary: g ids h)
  case (Suc n)
  have phi: "good_view (g_size g + 1) (new_view NK_Phi)"
    using good_pure [of NK_Phi "[]" "g_size g + 1" 0] pure_kinds by (simp add: good_view_def)
  note a = adds_create [OF Suc.prems(1), of NK_Phi]
  note b = adds_good [OF a Suc.prems(1) phi]
  obtain ks where ks: "create_phis n (snd (create NK_Phi g)) = (ks, h)" "ids = (g_size g + 1) # ks"
    using Suc.prems(2) create_pair [of NK_Phi g] by (auto simp: Let_def split: prod.splits)
  note ih = Suc.IH [OF b(1) ks(1)]
  have "view h (g_size g + 1) = new_view NK_Phi" using a ih b(3) by (auto simp: adds_def extends_def)
  then show ?case using ih b(2) ks(2) by (auto simp: upt_conv_Cons intro: extends_trans)
qed simp

lemma new_lowerer_graph: "lw_graph new_lowerer = snd (gb_start empty_graph)" "lw_ctrl new_lowerer = 1" "lw_effect new_lowerer = 1"
  "lw_stack new_lowerer = []"
  by (simp_all add: new_lowerer_def gb_start_def create_def allocate_id_def empty_graph_def Let_def)

lemma start_graph: "good_graph (lw_graph new_lowerer)" "g_size (lw_graph new_lowerer) = 1" "n_kind (node (lw_graph new_lowerer) 1) = NK_Start"
proof -
  have b: "built (lw_graph new_lowerer)" unfolding new_lowerer_graph by (intro built_start built_empty)
  have v: "view (lw_graph new_lowerer) 1 = new_view NK_Start"
    unfolding new_lowerer_graph gb_start_def using view_create [OF built_wf [OF built_empty], of NK_Start 1]
    by (simp add: view_def Let_def split_beta node_def side_def input_defs)
       (simp add: empty_graph_def g_size_def in_graph_def create_def allocate_id_def Let_def)
  show size: "g_size (lw_graph new_lowerer) = 1"
    by (simp add: new_lowerer_graph gb_start_def create_def allocate_id_def empty_graph_def Let_def g_size_def upd_node_def)
  have "good_view 1 (new_view NK_Start)"
    by (simp add: good_view_def new_view_flags) (simp add: lookup_node_kind_info_def kTable_def info_row_def)
  then show "good_graph (lw_graph new_lowerer)"
    using b v size by (auto simp: good_graph_def in_graph_def le_Suc_eq)
  show "n_kind (node (lw_graph new_lowerer) 1) = NK_Start" using v by (simp add: view_def new_view_def)
qed

lemma lower_start_spec:
  obtains as h where "lower_start num_locals num_args = new_lowerer\<lparr>lw_graph := h, lw_locals := [2..<2 + unat num_locals], lw_args := as\<rparr>"
    "good_graph h" "extends (lw_graph new_lowerer) h" "g_size h = 1 + unat num_locals + unat num_args"
    "\<forall>i. 2 \<le> i \<and> in_graph h i \<longrightarrow> view h i = new_view NK_Phi"
proof -
  obtain ls g as h where e: "create_phis (unat num_locals) (lw_graph new_lowerer) = (ls, g)" "create_phis (unat num_args) g = (as, h)"
    by (metis surj_pair)
  note a = create_phis_spec [OF start_graph(1) e(1)]
  note b = create_phis_spec [OF conjunct1 [OF a] e(2)]
  have size: "g_size g = 1 + unat num_locals" "g_size h = 1 + unat num_locals + unat num_args"
    using a b start_graph(2) by simp_all
  have "view h i = new_view NK_Phi" if "2 \<le> i" "in_graph h i" for i
  proof (cases "i \<le> g_size g")
    case True
    then have "in_graph g i" "i \<in> set ls" using that a start_graph(2) size by (auto simp: in_graph_def)
    then show ?thesis using a b by (simp add: extends_def)
  next
    case False
    then have "i \<in> set as" using that b size by (auto simp: in_graph_def)
    then show ?thesis using b by simp
  qed
  moreover have "lower_start num_locals num_args = new_lowerer\<lparr>lw_graph := h, lw_locals := [2..<2 + unat num_locals], lw_args := as\<rparr>"
    using a start_graph(2) by (simp add: lower_start_def e Let_def numeral_2_eq_2 del: upt_Suc)
  ultimately show thesis using that a b size(2) extends_trans by blast
qed

lemma lower_start_ok: "reach (lw_graph new_lowerer) (lower_start num_locals num_args)"
proof -
  obtain as h where h: "lower_start num_locals num_args = new_lowerer\<lparr>lw_graph := h, lw_locals := [2..<2 + unat num_locals], lw_args := as\<rparr>"
    "good_graph h" "extends (lw_graph new_lowerer) h" "g_size h = 1 + unat num_locals + unat num_args"
    by (rule lower_start_spec)
  then show ?thesis using new_lowerer_graph(2-4) by (auto simp: reach_def lw_ok_def in_graph_def simp del: upt_Suc)
qed

lemma lower_end_ok:
  assumes "reach g s"
  shows "reach g (lower_end s)"
proof (cases "lw_stack s")
  case (Cons v vs)
  then have "reach g (s\<lparr>lw_stack := vs\<rparr>)" "in_graph (lw_graph s) v" using assms by (auto simp: reach_def lw_ok_def)
  then show ?thesis using Cons by (simp add: lower_end_def lower_return_ok)
qed (simp add: lower_end_def lower_return_void_ok assms)

lemma jvm_lower_cases:
  assumes "jvm_lower oor bytes num_locals num_args = Some r"
  obtains e where "r = Inl e" "lowering_error e"
  | s where "lower_loop oor bytes 0 (lower_start num_locals num_args) = Some (Inr s)" "r = Inr (lw_graph (lower_end s))"
      "reach (lw_graph new_lowerer) s" "good_graph (lw_graph (lower_end s))"
proof -
  obtain q where q: "lower_loop oor bytes 0 (lower_start num_locals num_args) = Some q"
    "r = rbind q (\<lambda>s. let s = lower_end s in rbind (verify_graph (lw_graph s)) (\<lambda>_. Inr (lw_graph s)))"
    using assms by (auto simp: jvm_lower_def)
  note ok = lower_loop_ok [OF lower_start_ok q(1)]
  show thesis
  proof (cases q)
    case (Inl e)
    then show ?thesis using that(1) ok q(2) by (simp add: ok_res_def)
  next
    case (Inr s)
    then have s: "reach (lw_graph new_lowerer) s" using ok by simp
    then have g: "good_graph (lw_graph (lower_end s))" using lower_end_ok [OF s] by (simp add: reach_def lw_ok_def)
    then have "verify_graph (lw_graph (lower_end s)) = Inr ()" by (simp add: verify_Inr_iff good_graph_verifies)
    then show ?thesis using that(2) [of s] q s g Inr by (simp add: Let_def)
  qed
qed

text \<open>C21: whatever the bytes are, the verification at the end of \<open>lower\<close> never fails. A call that succeeds
  returns a graph made by the public operations that the verifier accepts, in which every input of a node
  is older than the node, so the graph has no cycle although the code may have loops; a call that fails
  does so with an error of the lowerer itself.\<close>

theorem lowered_graphs_verify:
  assumes "jvm_lower oor bytes num_locals num_args = Some r"
  shows "case r of Inr g \<Rightarrow> built g \<and> verify_graph g = Inr ()
       \<and> (\<forall>i. in_graph g i \<longrightarrow> (\<forall>x \<in> set (data_inputs g i). 0 < x \<and> x < i) \<and> ctrl_input g i < i \<and> effect_input g i < i)
     | Inl e \<Rightarrow> error_kind e \<in> {BadInput, UnsupportedNode, Internal}"
  using assms
proof (cases rule: jvm_lower_cases)
  case (2 s)
  then have "good_graph (lw_graph (lower_end s))" by simp
  then show ?thesis using 2(2)
    by (auto simp: verify_Inr_iff good_graph_verifies) (auto simp: good_graph_def good_view_def view_def)
qed (auto simp: lowering_error_def)

end
