(* ===== verification/Jvm_Lower_Correct.thy ===== *)
theory Jvm_Lower_Correct
  imports Jvm_Lower_Valid Ir_Semantics Jvm_Safe
begin

text \<open>
  The interpreter and the lowerer agree: for verified straight-line code over the operations that commute with
  taking the low 32 bits, the return node of the graph denotes the value the interpreter returns.
\<close>

section \<open>The low half of a word\<close>

lemma low_of_int: "(ucast (word_of_int a :: i64) :: i32) = word_of_int a"
  by (transfer, simp)

lemma low_arith:
  fixes x y :: i64
  shows "(ucast (x + y) :: i32) = ucast x + ucast y" "(ucast (x - y) :: i32) = ucast x - ucast y"
    "(ucast (x * y) :: i32) = ucast x * ucast y"
  by (rule word_of_int_uint [of x, THEN subst], rule word_of_int_uint [of y, THEN subst], simp only: low_of_int wi_homs)+

lemma low_bits:
  fixes x y :: i64
  shows "(ucast (and x y) :: i32) = and (ucast x) (ucast y)" "(ucast (or x y) :: i32) = or (ucast x) (ucast y)"
    "(ucast (xor x y) :: i32) = xor (ucast x) (ucast y)"
  by (rule bit_word_eqI, simp add: bit_simps)+

lemma low_extended: "(ucast (scast x :: i64) :: i32) = x"
  by (rule bit_word_eqI) (simp add: bit_simps)

lemmas low_half = low_arith low_bits low_extended

section \<open>What a node denotes\<close>

text \<open>A phi stands for the initial value of a local; the other nodes have their integer meaning.\<close>

inductive denotes :: "(node_id \<Rightarrow> i64) \<Rightarrow> graph \<Rightarrow> node_id \<Rightarrow> i64 \<Rightarrow> bool" for rho g where
  denotes_phi: "in_graph g i \<Longrightarrow> v_kind (view g i) = NK_Phi \<Longrightarrow> denotes rho g i (rho i)"
| denotes_node: "in_graph g i \<Longrightarrow> list_all2 (denotes rho g) (v_ins (view g i)) xs \<Longrightarrow>
    int_sem (v_kind (view g i)) (v_side (view g i)) xs = Some x \<Longrightarrow> denotes rho g i x"
  monos list_all2_mono

lemma denotes_extends:
  assumes "extends g h"
  shows "denotes rho g i x \<Longrightarrow> denotes rho h i x"
proof (induction rule: denotes.induct)
  case (denotes_phi i)
  then show ?case using assms denotes.denotes_phi [of h i rho] extends_in_graph [OF assms] by (auto simp: extends_def)
next
  case (denotes_node i xs x)
  show ?case
  proof (rule denotes.denotes_node)
    show "in_graph h i" using denotes_node(1) assms by (rule extends_in_graph [rotated])
    have v: "view h i = view g i" using denotes_node(1) assms by (simp add: extends_def)
    show "list_all2 (denotes rho h) (v_ins (view h i)) xs"
      unfolding v using denotes_node.IH by (rule list_all2_mono) blast
    show "int_sem (v_kind (view h i)) (v_side (view h i)) xs = Some x" unfolding v by (rule denotes_node.hyps(2))
  qed
qed

text \<open>An integer value is the low half of what its node denotes, a long value is all of it.\<close>

definition agrees :: "gvalue \<Rightarrow> i64 \<Rightarrow> bool" where
  "agrees v x \<longleftrightarrow> (is_int32 v \<longrightarrow> as_int32 v = ucast x) \<and> (is_int64 v \<longrightarrow> as_int64 v = x)"

definition means :: "(node_id \<Rightarrow> i64) \<Rightarrow> graph \<Rightarrow> gvalue \<Rightarrow> node_id \<Rightarrow> bool" where
  "means rho g v i \<longleftrightarrow> in_graph g i \<and> (is_int32 v \<or> is_int64 v \<longrightarrow> (\<exists>x. denotes rho g i x \<and> agrees v x))"

lemma means_extends: "extends g h \<Longrightarrow> means rho g v i \<Longrightarrow> means rho h v i"
  by (auto simp: means_def intro: extends_in_graph denotes_extends)

lemma means_list_extends: "extends g h \<Longrightarrow> list_all2 (means rho g) vs is \<Longrightarrow> list_all2 (means rho h) vs is"
  by (erule list_all2_mono) (rule means_extends)

section \<open>Straight-line code\<close>

definition ring_int_ops :: "jvm_opcode list" where
  "ring_int_ops = [BC_Iadd, BC_Isub, BC_Imul, BC_Iand, BC_Ior, BC_Ixor]"

definition stack_ops :: "jvm_opcode list" where
  "stack_ops = [BC_Nop, BC_Pop, BC_Pop2, BC_Dup, BC_DupX1, BC_Swap]"

definition straight :: "decoded \<Rightarrow> bool" where
  "straight d \<longleftrightarrow> d_op d \<in> set (ring_int_ops @ long_ops @ stack_ops @ [BC_Iinc]) \<or> constant_value d \<noteq> None
     \<or> load_index d \<noteq> None \<or> store_index d \<noteq> None"

text \<open>Straight operations up to a return at the end of the code.\<close>

definition straight_code :: "u8 list \<Rightarrow> typing \<Rightarrow> bool" where
  "straight_code code phi \<longleftrightarrow> int (length code) < 2 ^ 31 \<and> list_all (\<lambda>(pc, T). case instr_at code pc of None \<Rightarrow> False
     | Some d \<Rightarrow> straight d \<or> leaves (d_op d) \<and> unat pc + unat (d_length d) = length code) phi"

section \<open>The simulation\<close>

definition no_return :: "graph \<Rightarrow> bool" where
  "no_return g \<longleftrightarrow> (\<forall>i. in_graph g i \<longrightarrow> v_kind (view g i) \<noteq> NK_Return)"

definition sim :: "(node_id \<Rightarrow> i64) \<Rightarrow> jvm_frame \<Rightarrow> lowerer \<Rightarrow> bool" where
  "sim rho f s \<longleftrightarrow> lw_ok s \<and> no_return (lw_graph s) \<and> list_all2 (means rho (lw_graph s)) (f_stack f) (lw_stack s)
     \<and> list_all2 (means rho (lw_graph s)) (f_locals f) (lw_locals s)"

text \<open>A value and its node are pushed.\<close>

lemma sim_push:
  assumes "sim rho f s" "means rho (lw_graph s) v i" "length (f_stack f) < kMaxJvmStack"
  shows "sim rho (push v f) (lw_push i s)"
  using assms by (auto simp: sim_def push_def lw_push_def lw_ok_def means_def)

lemma sim_pop:
  assumes "sim rho f s" "f_stack f = v # vs"
  obtains i t where "lw_pop s = Inr (i, t)" "means rho (lw_graph s) v i" "sim rho (f\<lparr>f_stack := vs\<rparr>) t" "lw_graph t = lw_graph s"
    "pop f = (v, f\<lparr>f_stack := vs\<rparr>)" "lw_stack s = i # lw_stack t"
proof -
  obtain i js where s: "lw_stack s = i # js" "means rho (lw_graph s) v i" "list_all2 (means rho (lw_graph s)) vs js"
    using assms by (auto simp: sim_def list_all2_Cons1)
  then show thesis using that [of i "s\<lparr>lw_stack := js\<rparr>"] assms by (auto simp: sim_def pop_def lw_pop_def lw_ok_def)
qed

text \<open>A builder that makes one node other than a return.\<close>

lemma sim_build:
  assumes "sim rho f s" "adds b (lw_graph s) v" "good_view (g_size (lw_graph s) + 1) v" "v_kind v \<noteq> NK_Return"
  obtains i t where "lw_build b s = (i, t)" "sim rho f t" "extends (lw_graph s) (lw_graph t)" "in_graph (lw_graph t) i"
    "view (lw_graph t) i = v" "lw_stack t = lw_stack s" "lw_locals t = lw_locals s"
proof -
  obtain i t where t: "lw_build b s = (i, t)" by fastforce
  have "reach (lw_graph s) s" using assms(1) by (simp add: reach_def sim_def)
  note o = lw_build_ok [OF this _ t] 
  have o: "reach (lw_graph s) t" "in_graph (lw_graph t) i" "lw_stack t = lw_stack s" "lw_locals t = lw_locals s"
    using o assms(2,3) by (auto simp: adds_good_def)
  have t': "i = g_size (lw_graph s) + 1" "lw_graph t = snd (b (lw_graph s))"
    using t assms(2) by (auto simp: lw_build_def adds_def split: prod.splits)
  have v: "view (lw_graph t) i = v" "g_size (lw_graph t) = g_size (lw_graph s) + 1"
    using assms(2) by (simp_all add: t' adds_def)
  have ext: "extends (lw_graph s) (lw_graph t)" using o(1) by (simp add: reach_def)
  have "no_return (lw_graph t)"
    using assms(1,4) v ext by (auto simp: no_return_def sim_def in_graph_Suc [OF v(2)] extends_def t'(1))
  then have "sim rho f t"
    using assms(1) o(1,3,4) means_list_extends [OF ext] by (auto simp: sim_def reach_def)
  then show thesis using that t o v(1) ext by blast
qed

section \<open>Instructions\<close>

text \<open>The node of an operation on two operands.\<close>

definition computes :: "node_kind \<Rightarrow> (i64 \<Rightarrow> i64 \<Rightarrow> i64) \<Rightarrow> bool" where
  "computes k h \<longleftrightarrow> pure_kind k \<and> k \<noteq> NK_Return \<and> (\<forall>sd x y. int_sem k sd [x, y] = Some (h x y))"

lemma computes_kinds:
  "computes NK_Add (+)" "computes NK_Sub (-)" "computes NK_Mul (*)" "computes NK_And and" "computes NK_Or or" "computes NK_Xor xor"
  using pure_kinds by (simp_all add: computes_def int_sem_def)

lemma sim_node:
  assumes "sim rho f s" "computes k h" "denotes rho (lw_graph s) i x" "denotes rho (lw_graph s) j y"
  obtains n t where "lw_build (create_with k [i, j] 0 0) s = (n, t)" "sim rho f t" "denotes rho (lw_graph t) n (h x y)"
    "in_graph (lw_graph t) n" "lw_stack t = lw_stack s" "lw_locals t = lw_locals s" "extends (lw_graph s) (lw_graph t)"
proof -
  have g: "good_graph (lw_graph s)" using assms(1) by (simp add: sim_def lw_ok_def)
  have ij: "in_graph (lw_graph s) i" "in_graph (lw_graph s) j" using assms(3,4) by (auto elim: denotes.cases)
  let ?v = "(new_view k)\<lparr>v_ins := [i, j], v_ctrl := 0, v_effect := 0\<rparr>"
  have k: "pure_kind k" "k \<noteq> NK_Return" "int_sem k sd [x, y] = Some (h x y)" for sd using assms(2) by (auto simp: computes_def)
  have good: "good_view (g_size (lw_graph s) + 1) ?v" using k(1) ij by (intro good_pure) (auto simp: in_graph_def)
  have kind: "v_kind ?v \<noteq> NK_Return" using k(2) by simp
  obtain n t where t: "lw_build (create_with k [i, j] 0 0) s = (n, t)" "sim rho f t" "extends (lw_graph s) (lw_graph t)"
    "in_graph (lw_graph t) n" "view (lw_graph t) n = ?v" "lw_stack t = lw_stack s" "lw_locals t = lw_locals s"
    by (rule sim_build [OF assms(1) adds_create_with [OF g] good kind])
  have "denotes rho (lw_graph t) n (h x y)"
    using t(3-5) assms(3,4) k(3) by (intro denotes_node [of _ _ _ "[x, y]"]) (auto intro: denotes_extends)
  then show thesis using that t by blast
qed

text \<open>Pushing the value and the node of a binary operation.\<close>

lemma sim_binary:
  assumes "sim rho f s" "f_stack f = b # a # vs" "length vs < kMaxJvmStack" "computes k h"
    and "is_int32 a \<or> is_int64 a" "is_int32 b \<or> is_int64 b"
    and "\<And>x y. agrees a x \<Longrightarrow> agrees b y \<Longrightarrow> agrees v (h x y)"
  shows "\<exists>t. do_lower_binary (\<lambda>a b. create_with k [a, b] 0 0) s = Inr t \<and> sim rho (push v (f\<lparr>f_stack := vs\<rparr>)) t"
proof -
  obtain j t where t: "lw_pop s = Inr (j, t)" "means rho (lw_graph s) b j" "sim rho (f\<lparr>f_stack := a # vs\<rparr>) t" "lw_graph t = lw_graph s"
    by (rule sim_pop [OF assms(1,2)])
  have "f_stack (f\<lparr>f_stack := a # vs\<rparr>) = a # vs" by simp
  then obtain i u where u: "lw_pop t = Inr (i, u)" "means rho (lw_graph t) a i"
    "sim rho (f\<lparr>f_stack := vs\<rparr>) u" "lw_graph u = lw_graph t" by (rule sim_pop [OF t(3)]) auto
  obtain x y where xy: "denotes rho (lw_graph u) i x" "agrees a x" "denotes rho (lw_graph u) j y" "agrees b y"
    using t(2,4) u(2,4) assms(5,6) by (auto simp: means_def)
  obtain n w where w: "lw_build (create_with k [i, j] 0 0) u = (n, w)" "sim rho (f\<lparr>f_stack := vs\<rparr>) w" "denotes rho (lw_graph w) n (h x y)"
    "in_graph (lw_graph w) n"
    by (rule sim_node [OF u(3) assms(4) xy(1,3)])
  have "means rho (lw_graph w) v n" using w(3,4) assms(7) [OF xy(2,4)] by (auto simp: means_def)
  then have "sim rho (push v (f\<lparr>f_stack := vs\<rparr>)) (lw_push n w)" using w(2) assms(3) by (intro sim_push) simp_all
  then show ?thesis using t(1) u(1) w(1) by (simp add: do_lower_binary_def lw_push_new_def)
qed

named_theorems lowering \<open>the tables of the lowerer\<close>

lemmas [lowering] = lower_op_def lower_stack_def lower_constant_def lower_constants_def lower_load_index_def lower_store_index_def
  short_index_def lower_binary_def lower_unary_def lower_effects_def

lemma builders:
  "gb_add = (\<lambda>a b. create_with NK_Add [a, b] 0 0)" "gb_sub = (\<lambda>a b. create_with NK_Sub [a, b] 0 0)"
  "gb_mul = (\<lambda>a b. create_with NK_Mul [a, b] 0 0)"
  by (intro ext, simp add: create_with_eqs)+

lemma ring_int_cases:
  assumes "d_op d \<in> set ring_int_ops"
  obtains k h h' where "computes k h" "\<And>x y :: i64. h' (ucast x) (ucast y) = (ucast (h x y) :: i32)"
    "\<And>f. exec_op fp d f = next_frame (binary_int h' f)"
    "\<And>s. lower_op oor d pc s = do_lower_binary (\<lambda>a b. create_with k [a, b] 0 0) s" "signature (d_op d) = Some ([T_Int, T_Int], [T_Int])"
  using assms unfolding ring_int_ops_def
proof (elim set_consE, goal_cases)
  case 1
  show ?case by (rule 1(1) [OF computes_kinds(1), of wrap_add_i32])
      (simp_all add: 1(2) wrap_add_i32_def low_half switch lowering builders signature_def int_ops_def)
next
  case 2
  show ?case by (rule 2(1) [OF computes_kinds(2), of wrap_sub_i32])
      (simp_all add: 2(2) wrap_sub_i32_def low_half switch lowering builders signature_def int_ops_def)
next
  case 3
  show ?case by (rule 3(1) [OF computes_kinds(3), of wrap_mul_i32])
      (simp_all add: 3(2) wrap_mul_i32_def low_half switch lowering builders signature_def int_ops_def)
next
  case 4
  show ?case by (rule 4(1) [OF computes_kinds(4), of "and"])
      (simp_all add: 4(2) low_half switch lowering builders signature_def int_ops_def)
next
  case 5
  show ?case by (rule 5(1) [OF computes_kinds(5), of "or"])
      (simp_all add: 5(2) low_half switch lowering builders signature_def int_ops_def)
next
  case 6
  show ?case by (rule 6(1) [OF computes_kinds(6), of "xor"])
      (simp_all add: 6(2) low_half switch lowering builders signature_def int_ops_def)
qed simp

lemma long_cases:
  assumes "d_op d \<in> set long_ops"
  obtains k h where "computes k h" "\<And>f. exec_op fp d f = next_frame (binary_long (\<lambda>x y. from_int64 (h x y)) f)"
    "\<And>s. lower_op oor d pc s = do_lower_binary (\<lambda>a b. create_with k [a, b] 0 0) s" "signature (d_op d) = Some ([T_Long, T_Long], [T_Long])"
  using assms unfolding long_ops_def
proof (elim set_consE, goal_cases)
  case 1
  show ?case by (rule 1(1) [OF computes_kinds(1)])
      (simp_all add: 1(2) wrap_add_i64_def switch lowering builders signature_def int_ops_def long_ops_def)
next
  case 2
  show ?case by (rule 2(1) [OF computes_kinds(2)])
      (simp_all add: 2(2) wrap_sub_i64_def switch lowering builders signature_def int_ops_def long_ops_def)
next
  case 3
  show ?case by (rule 3(1) [OF computes_kinds(3)])
      (simp_all add: 3(2) wrap_mul_i64_def switch lowering builders signature_def int_ops_def long_ops_def)
qed simp

section \<open>The simulation of an instruction\<close>

definition matched :: "(node_id \<Rightarrow> i64) \<Rightarrow> jvm_outcome ub \<Rightarrow> lowerer result \<Rightarrow> bool" where
  "matched rho x r \<longleftrightarrow> (\<exists>f s. x = Some (J_next f) \<and> r = Inr s \<and> sim rho f s)"

lemma pop_tys_two: "pop_tys [a, b] st = Some st' \<Longrightarrow> st = a # b # st'"
  by (cases st; cases "tl st") (auto split: if_splits)

lemma conf_top2:
  assumes "conf f (l, ta # tb # st)"
  obtains a b vs where "f_stack f = a # b # vs" "has_ty a ta" "has_ty b tb" "length vs < kMaxJvmStack"
  using assms that by (auto simp: conf_def list_all2_Cons2)

lemma match_int:
  assumes "conf f T" "eff d T = Some T'" "sim rho f s" "d_op d \<in> set ring_int_ops"
  shows "matched rho (exec_op fp d f) (lower_op oor d pc s)"
proof -
  obtain k h h' where o: "computes k h" "\<And>x y :: i64. h' (ucast x) (ucast y) = (ucast (h x y) :: i32)"
    "exec_op fp d f = next_frame (binary_int h' f)"
    "lower_op oor d pc s = do_lower_binary (\<lambda>a b. create_with k [a, b] 0 0) s" "signature (d_op d) = Some ([T_Int, T_Int], [T_Int])"
    using assms(4) by (rule ring_int_cases) blast
  obtain l st where T: "T = (l, T_Int # T_Int # st)" using assms(2) o(5) by (cases T) (auto simp: eff_def dest: pop_tys_two)
  obtain b a vs where f: "f_stack f = b # a # vs" "is_int32 b" "is_int32 a" "length vs < kMaxJvmStack"
    using conf_top2 [OF assms(1) [unfolded T]] by auto
  have x: "binary_int h' f = push (from_int32 (h' (as_int32 a) (as_int32 b))) (f\<lparr>f_stack := vs\<rparr>)"
    using f by (simp add: binary_int_def pop_def as_typed)
  have "agrees (from_int32 (h' (as_int32 a) (as_int32 b))) (h x y)" if "agrees a x" "agrees b y" for x y
    using that f(2,3) o(2) by (simp add: agrees_def is_int64_def is_int32_def)
  then show ?thesis
    using sim_binary [OF assms(3) f(1,4) o(1), of "from_int32 (h' (as_int32 a) (as_int32 b))"] f(2,3)
    by (auto simp: matched_def o(3,4) x next_frame_def)
qed

lemma match_long:
  assumes "conf f T" "eff d T = Some T'" "sim rho f s" "d_op d \<in> set long_ops"
  shows "matched rho (exec_op fp d f) (lower_op oor d pc s)"
proof -
  obtain k h where o: "computes k h" "exec_op fp d f = next_frame (binary_long (\<lambda>x y. from_int64 (h x y)) f)"
    "lower_op oor d pc s = do_lower_binary (\<lambda>a b. create_with k [a, b] 0 0) s" "signature (d_op d) = Some ([T_Long, T_Long], [T_Long])"
    using assms(4) by (rule long_cases) blast
  obtain l st where T: "T = (l, T_Long # T_Long # st)" using assms(2) o(4) by (cases T) (auto simp: eff_def dest: pop_tys_two)
  obtain b a vs where f: "f_stack f = b # a # vs" "is_int64 b" "is_int64 a" "length vs < kMaxJvmStack"
    using conf_top2 [OF assms(1) [unfolded T]] by auto
  have x: "binary_long (\<lambda>x y. from_int64 (h x y)) f = push (from_int64 (h (as_int64 a) (as_int64 b))) (f\<lparr>f_stack := vs\<rparr>)"
    using f by (simp add: binary_long_def pop_def as_typed)
  have "agrees (from_int64 (h (as_int64 a) (as_int64 b))) (h x y)" if "agrees a x" "agrees b y" for x y
    using that f(2,3) by (simp add: agrees_def is_int64_def is_int32_def)
  then show ?thesis
    using sim_binary [OF assms(3) f(1,4) o(1), of "from_int64 (h (as_int64 a) (as_int64 b))"] f(2,3)
    by (auto simp: matched_def o(2,3) x next_frame_def)
qed

text \<open>Operations that only move values and nodes.\<close>

lemma sim_move:
  assumes "sim rho f s" "list_all2 (means rho (lw_graph s)) vs js"
  shows "sim rho (f\<lparr>f_stack := vs\<rparr>) (s\<lparr>lw_stack := js\<rparr>)"
proof -
  have "in_graph (lw_graph s) j" if "j \<in> set js" for j
    using assms(2) that by (auto simp: in_set_conv_nth list_all2_conv_all_nth means_def)
  then show ?thesis using assms by (auto simp: sim_def lw_ok_def)
qed

lemma stack_exec:
  assumes "d_op d \<in> set stack_ops"
  shows "exec_op fp d f = next_frame (the (stack_op (d_op d)) f)" "lower_op oor d pc s = the (lower_stack (d_op d)) s"
    "lower_stack (d_op d) \<noteq> None"
  using assms unfolding stack_ops_def by (elim set_consE; simp add: switch lowering)+

lemma match_stack:
  assumes "conf f T" "eff d T = Some T'" "sim rho f s" "d_op d \<in> set stack_ops"
  shows "matched rho (exec_op fp d f) (lower_op oor d pc s)"
proof -
  obtain l st where T: "T = (l, st)" by fastforce
  have ops: "signature op = None \<and> constant_value d = None \<and> load_index d = None \<and> store_index d = None \<and> op \<noteq> BC_Iinc"
    if "op \<in> set (tl stack_ops)" "d_op d = op" for op
    using that unfolding stack_ops_def list.sel
    by (elim set_consE) (simp_all add: switch signature_def int_ops_def long_ops_def float_ops_def branches1_def branches2_def returns_def
        conversions_def)
  show ?thesis
  proof (cases "d_op d = BC_Nop")
    case True
    then show ?thesis using assms(3) stack_exec [OF assms(4)] by (simp add: matched_def next_frame_def stack_op_def lower_stack_def)
  next
    case False
    then have op: "d_op d \<in> set (tl stack_ops)" using assms(4) by (auto simp: stack_ops_def)
    then obtain st' where e: "eff_stack (d_op d) st = Some st'" using assms(2) ops [OF op] by (auto simp: eff_def T)
    have st: "list_all2 has_ty (f_stack f) st" "length (f_stack f) \<le> kMaxJvmStack" using assms(1) by (simp_all add: conf_def T)
    have js: "list_all2 (means rho (lw_graph s)) (f_stack f) (lw_stack s)" using assms(3) by (simp add: sim_def)
    note defs = matched_def next_frame_def stack_op_def lower_stack_def pop_def lw_pop_def push_def lw_push_def top_value_def
      lw_peek_def
    consider (one) a where "st = [a]" | (two) a b r where "st = a # b # r"
      using e by (cases st; cases "tl st") auto
    then show ?thesis
    proof cases
      case one
      then obtain v i where v: "f_stack f = [v]" "lw_stack s = [i]" "means rho (lw_graph s) v i"
        using st js by (auto simp: list_all2_Cons1 list_all2_Cons2)
      then show ?thesis using op e one sim_move [OF assms(3)] unfolding stack_exec [OF assms(4)] stack_ops_def list.sel
        by (elim set_consE) (auto simp: defs kMaxJvmStack_def fits_def)
    next
      case two
      then obtain v w vs i j js where v: "f_stack f = v # w # vs" "lw_stack s = i # j # js" "means rho (lw_graph s) v i"
          "means rho (lw_graph s) w j" "list_all2 (means rho (lw_graph s)) vs js" "list_all2 has_ty vs r"
        using st js by (auto simp: list_all2_Cons1 list_all2_Cons2)
      then have "length vs = length r" "length r + 2 \<le> kMaxJvmStack" using st(2) by (auto dest: list_all2_lengthD)
      then show ?thesis using v op e two sim_move [OF assms(3)] unfolding stack_exec [OF assms(4)] stack_ops_def list.sel
        by (elim set_consE) (auto simp: defs kMaxJvmStack_def fits_def split: if_splits)
    qed
  qed
qed

text \<open>Constants.\<close>

lemma minus_one_node: "\<exists>x. create_const_int (- 1) = create_const_int x \<and> (- 1 :: i32) = ucast x"
  by (intro exI [of _ "- 1"]) (simp add: low_of_int [of "- 1", simplified])

lemma constant_lower:
  assumes "constant_value d = Some v"
  shows "lower_stack (d_op d) = None" "stack_op (d_op d) = None" "signature (d_op d) = None"
    "is_int32 v \<or> is_int64 v \<Longrightarrow> \<exists>x. lower_constant d = Some (create_const_int x) \<and> agrees v x"
    "\<not> (is_int32 v \<or> is_int64 v) \<Longrightarrow> \<exists>w. lower_constant d = Some (create_const_float w) \<or> lower_constant d = Some (create NK_LdNull)"
proof -
  have "d_op d \<in> set (BC_Bipush # BC_Sipush # [BC_Ldc, BC_LdcW, BC_Ldc2W] @ map fst constant_table)"
    using assms by (auto simp: constant_value_def dest!: map_of_SomeD split: if_splits) (force intro: rev_image_eqI)+
  then have "lower_stack (d_op d) = None \<and> stack_op (d_op d) = None \<and> signature (d_op d) = None \<and>
     (is_int32 v \<or> is_int64 v \<longrightarrow> (\<exists>x. lower_constant d = Some (create_const_int x) \<and> agrees v x)) \<and>
     (\<not> (is_int32 v \<or> is_int64 v) \<longrightarrow> (\<exists>w. lower_constant d = Some (create_const_float w) \<or> lower_constant d = Some (create NK_LdNull)))"
    using assms unfolding constant_table_def list.map fst_conv append.simps
    by (elim set_consE)
      (auto simp: constant_value_def constant_table_def lower_constant_def lower_constants_def lower_stack_def stack_op_def
        signature_def int_ops_def long_ops_def float_ops_def branches1_def branches2_def returns_def conversions_def
        agrees_def is_int32_def is_int64_def low_half null_value_def minus_one_node)
  then show "lower_stack (d_op d) = None" "stack_op (d_op d) = None" "signature (d_op d) = None"
    "is_int32 v \<or> is_int64 v \<Longrightarrow> \<exists>x. lower_constant d = Some (create_const_int x) \<and> agrees v x"
    "\<not> (is_int32 v \<or> is_int64 v) \<Longrightarrow> \<exists>w. lower_constant d = Some (create_const_float w) \<or> lower_constant d = Some (create NK_LdNull)"
    by blast+
qed

lemma sim_push_new:
  assumes "sim rho f s" "length (f_stack f) < kMaxJvmStack" "adds b (lw_graph s) v" "good_view (g_size (lw_graph s) + 1) v"
    and "v_kind v \<noteq> NK_Return" "is_int32 w \<or> is_int64 w \<Longrightarrow> \<exists>x. int_sem (v_kind v) (v_side v) [] = Some x \<and> v_ins v = [] \<and> agrees w x"
  shows "sim rho (push w f) (lw_push_new b s)"
proof -
  obtain i t where t: "lw_build b s = (i, t)" "sim rho f t" "in_graph (lw_graph t) i" "view (lw_graph t) i = v"
    by (rule sim_build [OF assms(1,3-5)])
  have "means rho (lw_graph t) w i"
    unfolding means_def using t(3,4) assms(6) by (auto intro!: denotes_node [of _ _ _ "[]"])
  then show ?thesis using sim_push [OF t(2) _ assms(2)] t(1) by (simp add: lw_push_new_def)
qed

lemma sim_push_const:
  assumes "sim rho f s" "length (f_stack f) < kMaxJvmStack"
  shows "agrees w x \<Longrightarrow> sim rho (push w f) (lw_push_new (create_const_int x) s)"
    and "\<not> (is_int32 w \<or> is_int64 w) \<Longrightarrow> sim rho (push w f) (lw_push_new (create_const_float y) s)"
    and "\<not> (is_int32 w \<or> is_int64 w) \<Longrightarrow> sim rho (push w f) (lw_push_new (create NK_LdNull) s)"
proof -
  have g: "good_graph (lw_graph s)" using assms(1) by (simp add: sim_def lw_ok_def)
  have good: "good_view i ((new_view k)\<lparr>v_flags := v_flags (new_view k) OR NF_IsConst, v_type := t, v_side := h\<rparr>)" "good_view i (new_view k)"
    if "pure_kind k" "0 < i" for k t h i
    using that by (simp_all add: good_view_def new_view_flags flag_simps pure_kind_def Let_def)
  have p: "pure_kind NK_ConstInt" "pure_kind NK_ConstFloat" "pure_kind NK_LdNull" using pure_kinds by simp_all
  show "agrees w x \<Longrightarrow> sim rho (push w f) (lw_push_new (create_const_int x) s)"
    by (rule sim_push_new [OF assms adds_const(1) [OF g] good(1) [OF p(1)]]) (simp_all add: int_sem_def)
  show "\<not> (is_int32 w \<or> is_int64 w) \<Longrightarrow> sim rho (push w f) (lw_push_new (create_const_float y) s)"
    by (rule sim_push_new [OF assms adds_const(2) [OF g] good(1) [OF p(2)]]) simp_all
  show "\<not> (is_int32 w \<or> is_int64 w) \<Longrightarrow> sim rho (push w f) (lw_push_new (create NK_LdNull) s)"
    by (rule sim_push_new [OF assms adds_create [OF g] good(2) [OF p(3)]]) simp_all
qed

lemma conf_room: "conf f (l, st) \<Longrightarrow> fits (t # st) = Some st' \<Longrightarrow> length (f_stack f) < kMaxJvmStack"
  by (auto simp: conf_def fits_def dest: list_all2_lengthD split: if_splits)

lemma match_constant:
  assumes "conf f T" "eff d T = Some T'" "sim rho f s" "constant_value d = Some v"
  shows "matched rho (exec_op fp d f) (lower_op oor d pc s)"
proof -
  note c = constant_lower [OF assms(4)]
  have room: "length (f_stack f) < kMaxJvmStack"
    using assms(1,2,4) c(3) by (cases T) (auto simp: eff_def intro: conf_room)
  have x: "exec_op fp d f = next_frame (push v f)" using c(2) assms(4) by (simp add: exec_op_def)
  show ?thesis
  proof (cases "is_int32 v \<or> is_int64 v")
    case True
    then obtain x where "lower_constant d = Some (create_const_int x)" "agrees v x" using c(4) by blast
    then show ?thesis using sim_push_const(1) [OF assms(3) room] c(1) unfolding x by (simp add: matched_def lower_op_def next_frame_def)
  next
    case False
    then show ?thesis using c(5) sim_push_const(2,3) [OF assms(3) room False] c(1) unfolding x
      by (auto simp: matched_def lower_op_def next_frame_def)
  qed
qed

text \<open>Local variables.\<close>

text \<open>The earlier cases of both switches pass an operation on a local.\<close>

definition passes :: "jvm_opcode \<Rightarrow> bool" where
  "passes op \<longleftrightarrow> Option.is_none (lower_stack op) \<and> Option.is_none (stack_op op) \<and> Option.is_none (signature op)
     \<and> op \<notin> set [BC_Bipush, BC_Sipush, BC_Ldc, BC_LdcW, BC_Ldc2W] \<and> Option.is_none (map_of constant_table op)
     \<and> Option.is_none (map_of lower_constants op)"

lemma passesD:
  assumes "passes (d_op d)"
  shows "lower_stack (d_op d) = None" "stack_op (d_op d) = None" "signature (d_op d) = None" "constant_value d = None" "lower_constant d = None"
  using assms by (simp_all add: passes_def is_none_simps constant_value_def lower_constant_def Option.is_none_def)

definition long_loads :: "jvm_opcode list" where
  "long_loads = [BC_Iload, BC_Lload, BC_Fload, BC_Dload, BC_Aload, BC_WideIload, BC_WideLload, BC_WideFload, BC_WideDload, BC_WideAload]"

definition long_stores :: "jvm_opcode list" where
  "long_stores = [BC_Istore, BC_Lstore, BC_Fstore, BC_Dstore, BC_Astore, BC_WideIstore, BC_WideLstore, BC_WideFstore, BC_WideDstore, BC_WideAstore]"

lemma local_tables:
  "list_all passes (take 5 long_loads @ take 5 long_stores @ map fst (load_table @ store_table))"
  "list_all (\<lambda>(op, i). op \<notin> set long_loads \<and> short_index [(BC_Iload0, 4), (BC_Lload0, 4), (BC_Fload0, 4), (BC_Dload0, 4), (BC_Aload0, 4)] op = Some i) load_table"
  "list_all (\<lambda>(op, i). op \<notin> set long_stores \<and> short_index [(BC_Istore0, 4), (BC_Lstore0, 4), (BC_Fstore0, 4), (BC_Dstore0, 4), (BC_Astore0, 4)] op = Some i) store_table"
  "list_all (\<lambda>op. op \<notin> set (take 5 long_loads) \<and> Option.is_none (map_of load_table op) \<and> op \<notin> set long_loads
     \<and> Option.is_none (short_index [(BC_Iload0, 4), (BC_Lload0, 4), (BC_Fload0, 4), (BC_Dload0, 4), (BC_Aload0, 4)] op))
     (take 5 long_stores @ map fst store_table)"
  by (code_simp, code_simp, code_simp, code_simp)

lemma short_forms:
  "take 5 long_loads = [BC_Iload, BC_Lload, BC_Fload, BC_Dload, BC_Aload]"
  "take 5 long_stores = [BC_Istore, BC_Lstore, BC_Fstore, BC_Dstore, BC_Astore]"
  by (simp_all add: long_loads_def long_stores_def)

lemma index_eqs:
  "load_index d = (if d_op d \<in> set (take 5 long_loads) then Some (unat (d_u32 d)) else map_of load_table (d_op d))"
  "store_index d = (if d_op d \<in> set (take 5 long_stores) then Some (unat (d_u32 d)) else map_of store_table (d_op d))"
  "lower_load_index d = (if d_op d \<in> set long_loads then Some (unat (d_u32 d))
     else short_index [(BC_Iload0, 4), (BC_Lload0, 4), (BC_Fload0, 4), (BC_Dload0, 4), (BC_Aload0, 4)] (d_op d))"
  "lower_store_index d = (if d_op d \<in> set long_stores then Some (unat (d_u32 d))
     else short_index [(BC_Istore0, 4), (BC_Lstore0, 4), (BC_Fstore0, 4), (BC_Dstore0, 4), (BC_Astore0, 4)] (d_op d))"
  unfolding short_forms
  by (simp_all only: load_index_def store_index_def lower_load_index_def lower_store_index_def long_loads_def long_stores_def)

lemma load_lower:
  assumes "load_index d = Some i"
  shows "passes (d_op d)" "lower_load_index d = Some i"
  using assms local_tables(1,2) unfolding index_eqs list_all_iff
  by (force dest: map_of_SomeD in_set_takeD split: if_splits)+

lemma store_lower:
  assumes "store_index d = Some i"
  shows "passes (d_op d)" "lower_load_index d = None" "load_index d = None" "lower_store_index d = Some i"
proof -
  have "d_op d \<in> set (take 5 long_stores @ map fst store_table)"
    using assms unfolding index_eqs by (force dest: map_of_SomeD split: if_splits)
  then show "passes (d_op d)" "lower_load_index d = None" "load_index d = None"
    using local_tables(1,4) unfolding index_eqs list_all_iff by (auto simp: Option.is_none_def)
  show "lower_store_index d = Some i"
    using assms local_tables(3) unfolding index_eqs list_all_iff by (force dest: map_of_SomeD in_set_takeD split: if_splits)
qed

lemma sim_local:
  assumes "sim rho f s" "i < length (f_locals f)"
  shows "i < length (lw_locals s)" "means rho (lw_graph s) (f_locals f ! i) (lw_locals s ! i)"
  using assms by (auto simp: sim_def list_all2_conv_all_nth)

lemma sim_set_local:
  assumes "sim rho f s" "means rho (lw_graph s) v j"
  shows "sim rho (f\<lparr>f_locals := (f_locals f)[i := v]\<rparr>) (s\<lparr>lw_locals := (lw_locals s)[i := j]\<rparr>)"
  using assms
  by (auto simp: sim_def lw_ok_def means_def list_all2_update_cong dest!: set_update_subset_insert [THEN subsetD])

lemma match_load:
  assumes "conf f T" "eff d T = Some T'" "sim rho f s" "load_index d = Some i"
  shows "matched rho (exec_op fp d f) (lower_op oor d pc s)"
proof -
  note o = load_lower [OF assms(4)] passesD [OF load_lower(1) [OF assms(4)]]
  obtain l st where T: "T = (l, st)" by fastforce
  then have l: "i < length l" "fits (l ! i # st) \<noteq> None" using assms(2,4) o by (auto simp: eff_def split: if_splits)
  have i: "i < length (f_locals f)" using l(1) assms(1) by (auto simp: conf_def T dest: list_all2_lengthD)
  have room: "length (f_stack f) < kMaxJvmStack" using l(2) assms(1) unfolding T by (auto intro: conf_room)
  note m = sim_local [OF assms(3) i]
  show ?thesis using sim_push [OF assms(3) m(2) room] o m(1) i assms(4)
    by (simp add: matched_def exec_op_def do_load_def lower_op_def lw_at_def)
qed

lemma match_store:
  assumes "conf f T" "eff d T = Some T'" "sim rho f s" "store_index d = Some i"
  shows "matched rho (exec_op fp d f) (lower_op oor d pc s)"
proof -
  note o = store_lower [OF assms(4)] passesD [OF store_lower(1) [OF assms(4)]]
  obtain l st where T: "T = (l, st)" by fastforce
  then obtain t r where l: "i < length l" "st = t # r" using assms(2,4) o by (auto simp: eff_def split: if_splits list.splits)
  have i: "i < length (f_locals f)" using l(1) assms(1) by (auto simp: conf_def T dest: list_all2_lengthD)
  obtain v vs where f: "f_stack f = v # vs" using assms(1) l(2) by (auto simp: conf_def T list_all2_Cons2)
  obtain j u where u: "lw_pop s = Inr (j, u)" "means rho (lw_graph s) v j" "sim rho (f\<lparr>f_stack := vs\<rparr>) u" "lw_graph u = lw_graph s"
      "pop f = (v, f\<lparr>f_stack := vs\<rparr>)"
    by (rule sim_pop [OF assms(3) f])
  have "i < length (lw_locals u)" using sim_local(1) [OF u(3)] i by simp
  then show ?thesis using sim_set_local [OF u(3), of v j i] u o i assms(4)
    by (simp add: matched_def exec_op_def do_store_def lower_op_def lw_set_local_def)
qed

lemma match_iinc:
  assumes "conf f T" "eff d T = Some T'" "sim rho f s" "d_op d = BC_Iinc"
  shows "matched rho (exec_op fp d f) (lower_op oor d pc s)"
proof -
  obtain l st where T: "T = (l, st)" by fastforce
  let ?i = "unat (d_u32 d)"
  have none: "signature BC_Iinc = None" "constant_value d = None" "load_index d = None" "store_index d = None"
    by (simp_all add: switch assms(4) signature_def int_ops_def long_ops_def float_ops_def branches1_def branches2_def returns_def
        conversions_def)
  then have l: "?i < length l" "l ! ?i = T_Int" using assms(2,4) T by (auto simp: eff_def split: if_splits)
  have i: "?i < length (f_locals f)" "is_int32 (f_locals f ! ?i)"
    using l assms(1) by (auto simp: conf_def T list_all2_conv_all_nth dest: spec [of _ ?i])
  note m = sim_local [OF assms(3) i(1)]
  obtain x where x: "denotes rho (lw_graph s) (lw_locals s ! ?i) x" "as_int32 (f_locals f ! ?i) = ucast x"
    using m(2) i(2) by (auto simp: means_def agrees_def)
  have g: "good_graph (lw_graph s)" using assms(3) by (simp add: sim_def lw_ok_def)
  let ?c = "scast (d_i32 d) :: i64"
  let ?v = "(new_view NK_ConstInt)\<lparr>v_flags := v_flags (new_view NK_ConstInt) OR NF_IsConst, v_type := Ty_Int, v_side := default_side\<lparr>const_value := ?c\<rparr>\<rparr>"
  have good: "good_view (g_size (lw_graph s) + 1) ?v" "v_kind ?v \<noteq> NK_Return"
    using pure_kinds by (simp_all add: good_view_def new_view_flags flag_simps pure_kind_def Let_def)
  obtain j t where t: "lw_build (create_const_int ?c) s = (j, t)" "sim rho f t" "extends (lw_graph s) (lw_graph t)"
    "in_graph (lw_graph t) j" "view (lw_graph t) j = ?v" "lw_stack t = lw_stack s" "lw_locals t = lw_locals s"
    by (rule sim_build [OF assms(3) adds_const(1) [OF g] good])
  have "denotes rho (lw_graph t) j ?c" using t(4,5) by (intro denotes_node [of _ _ _ "[]"]) (simp_all add: int_sem_def)
  then obtain n u where u: "lw_build (create_with NK_Add [lw_locals s ! ?i, j] 0 0) t = (n, u)" "sim rho f u"
    "denotes rho (lw_graph u) n (x + ?c)" "in_graph (lw_graph u) n" "lw_locals u = lw_locals t"
    using sim_node [OF t(2) computes_kinds(1) denotes_extends [OF t(3) x(1)]] by metis
  have "means rho (lw_graph u) (from_int32 (wrap_add_i32 (as_int32 (f_locals f ! ?i)) (d_i32 d))) n"
    using u(3,4) by (auto simp: means_def agrees_def is_int64_def wrap_add_i32_def x(2) low_half)
  note r = sim_set_local [OF u(2) this, of ?i]
  show ?thesis using r i m(1) none t(1,7) u(1,5)
    by (simp add: matched_def exec_op_def stack_op_def assms(4) do_iinc_def Let_def as_typed lowering lower_iinc_def lw_at_def lw_set_local_def)
qed

lemma sim_step:
  assumes "conf f T" "eff d T = Some T'" "sim rho f s" "straight d"
  shows "matched rho (exec_op fp d f) (lower_op oor d pc s)"
  using assms(4) match_int [OF assms(1-3)] match_long [OF assms(1-3)] match_stack [OF assms(1-3)] match_iinc [OF assms(1-3)]
    match_constant [OF assms(1-3)] match_load [OF assms(1-3)] match_store [OF assms(1-3)]
  unfolding straight_def by auto

section \<open>Returning\<close>

text \<open>The first return node of the graph returns a node that stands for the value.\<close>

definition returned :: "(node_id \<Rightarrow> i64) \<Rightarrow> graph \<Rightarrow> gvalue \<Rightarrow> bool" where
  "returned rho g v \<longleftrightarrow> (\<exists>ret x. find (\<lambda>i. n_kind (node g i) = NK_Return) (node_ids g) = Some ret
     \<and> data_inputs g ret = [x] \<and> means rho g v x)"

lemma find_skip: "\<forall>x \<in> set xs. \<not> P x \<Longrightarrow> P y \<Longrightarrow> find P (xs @ y # ys) = Some y"
  by (induction xs) auto

lemma find_first:
  assumes "in_graph g r" "n_kind (node g r) = NK_Return" "\<And>i. in_graph g i \<Longrightarrow> i < r \<Longrightarrow> n_kind (node g i) \<noteq> NK_Return"
  shows "find (\<lambda>i. n_kind (node g i) = NK_Return) (node_ids g) = Some r"
proof -
  have "node_ids g = [1..<r] @ r # [r + 1..<g_size g + 1]"
    using assms(1) upt_add_eq_append [of 1 r "g_size g + 1 - r"] by (auto simp: node_ids_def in_graph_def upt_conv_Cons simp del: upt_Suc)
  moreover have "\<forall>i \<in> set [1..<r]. n_kind (node g i) \<noteq> NK_Return" using assms(1,3) by (auto simp: in_graph_def)
  ultimately show ?thesis using assms(2) find_skip [of "[1..<r]" "\<lambda>i. n_kind (node g i) = NK_Return" r] by simp
qed

definition first_return :: "(node_id \<Rightarrow> i64) \<Rightarrow> graph \<Rightarrow> gvalue \<Rightarrow> bool" where
  "first_return rho g v \<longleftrightarrow> (\<exists>r x. in_graph g r \<and> v_kind (view g r) = NK_Return \<and> v_ins (view g r) = [x] \<and> means rho g v x
     \<and> (\<forall>i. in_graph g i \<longrightarrow> i < r \<longrightarrow> v_kind (view g i) \<noteq> NK_Return))"

lemma first_return_returned: "first_return rho g v \<Longrightarrow> returned rho g v"
  unfolding first_return_def returned_def view_def by simp (blast intro: find_first)

lemma first_return_extends:
  assumes "extends g h" "first_return rho g v"
  shows "first_return rho h v"
proof -
  obtain r x where r: "in_graph g r" "v_kind (view g r) = NK_Return" "v_ins (view g r) = [x]" "means rho g v x"
    "\<And>i. in_graph g i \<Longrightarrow> i < r \<Longrightarrow> v_kind (view g i) \<noteq> NK_Return"
    using assms(2) by (auto simp: first_return_def)
  moreover have "in_graph g i" if "in_graph h i" "i < r" for i using that r(1) by (simp add: in_graph_def)
  ultimately show ?thesis unfolding first_return_def using assms(1)
    by (intro exI [of _ r] exI [of _ x]) (auto simp: extends_def means_extends [OF assms(1)] intro: extends_in_graph [OF assms(1)])
qed

lemma lower_return_first:
  assumes "sim rho f s" "means rho (lw_graph s) v x"
  shows "first_return rho (lw_graph (lower_return x s)) v" "lw_ok (lower_return x s)"
proof -
  have s: "reach (lw_graph s) s" "in_graph (lw_graph s) x" "good_graph (lw_graph s)" "no_return (lw_graph s)"
    using assms by (simp_all add: reach_def sim_def means_def lw_ok_def)
  let ?t = "lower_return x s"
  have r: "reach (lw_graph s) ?t" by (rule lower_return_ok [OF s(1,2)])
  then show "lw_ok ?t" by (simp add: reach_def)
  have ext: "extends (lw_graph s) (lw_graph ?t)" using r by (simp add: reach_def)
  let ?f = "with_effect (lw_effect s) (with_ctrl (lw_ctrl s) (gb_return_node x))"
  have a: "adds ?f (lw_graph s) ((new_view NK_Return)\<lparr>v_ins := [x], v_ctrl := lw_ctrl s, v_effect := lw_effect s\<rparr>)"
    using adds_with(2) [OF adds_with(1) [OF adds_create_with [OF s(3), of NK_Return "[x]" 0 0], of "lw_ctrl s"], of "lw_effect s"]
    by (simp add: create_with_eqs)
  have t: "lw_graph ?t = snd (?f (lw_graph s))" by (simp add: lower_return_eq lw_build_def split: prod.split)
  let ?r = "g_size (lw_graph s) + 1"
  have v: "in_graph (lw_graph ?t) ?r" "v_kind (view (lw_graph ?t) ?r) = NK_Return" "v_ins (view (lw_graph ?t) ?r) = [x]"
    using a by (simp_all add: t adds_def in_graph_def)
  have "v_kind (view (lw_graph ?t) i) \<noteq> NK_Return" if "in_graph (lw_graph ?t) i" "i < ?r" for i
    using that s(4) ext by (auto simp: no_return_def extends_def in_graph_def)
  then show "first_return rho (lw_graph ?t) v"
    unfolding first_return_def using v means_extends [OF ext assms(2)] by blast
qed

lemma lower_return_void_first:
  assumes "sim rho f s"
  shows "first_return rho (lw_graph (lower_return_void s)) v_uninit" "lw_ok (lower_return_void s)"
proof -
  have g: "good_graph (lw_graph s)" using assms by (simp add: sim_def lw_ok_def)
  have "good_view (g_size (lw_graph s) + 1) (new_view NK_LdNull)" "v_kind (new_view NK_LdNull) \<noteq> NK_Return"
    using pure_kinds by (simp_all add: good_view_def new_view_flags pure_kind_def Let_def)
  then obtain i t where t: "lw_build (create NK_LdNull) s = (i, t)" "sim rho f t" "in_graph (lw_graph t) i"
    by (rule sim_build [OF assms adds_create [OF g]])
  have "means rho (lw_graph t) v_uninit i" using t(3) by (simp add: means_def is_int32_def is_int64_def v_uninit_def)
  from lower_return_first [OF t(2) this]
  show "first_return rho (lw_graph (lower_return_void s)) v_uninit" "lw_ok (lower_return_void s)"
    by (simp_all add: lower_return_void_def t(1))
qed

lemma leaves_lower:
  assumes "leaves (d_op d)"
  shows "d_op d = BC_Return \<and> lower_op oor d pc s = Inr (lower_return_void s)
    \<or> (\<exists>t. map_of returns (d_op d) = Some t) \<and> lower_op oor d pc s = rbind (lw_pop s) (\<lambda>(v, s). Inr (lower_return v s))"
proof -
  have "d_op d \<in> set (BC_Return # [BC_Ireturn, BC_Lreturn, BC_Freturn, BC_Dreturn, BC_Areturn])"
    using assms by (simp add: leaves_def returns_def)
  then show ?thesis
    by (elim set_consE)
      (simp_all add: lowering lower_control_def lower_if_zero_def lower_if_icmp_def returns_def)
qed

lemma match_return:
  assumes "conf f T" "eff d T = Some T'" "sim rho f s" "leaves (d_op d)"
  shows "\<exists>v t. exec_op fp d f = Some (J_return v) \<and> lower_op oor d pc s = Inr t \<and> first_return rho (lw_graph t) v \<and> lw_ok t"
  using leaves_lower [OF assms(4), of oor pc s]
proof (elim disjE conjE exE)
  assume "d_op d = BC_Return" "lower_op oor d pc s = Inr (lower_return_void s)"
  then show ?thesis using exec_return(1) [of d fp f] lower_return_void_first [OF assms(3)] by auto
next
  fix t assume t: "map_of returns (d_op d) = Some t" "lower_op oor d pc s = rbind (lw_pop s) (\<lambda>(v, s). Inr (lower_return v s))"
  have sig: "signature (d_op d) = Some ([t], [])"
    using t(1) unfolding returns_def
    by (drule_tac map_of_SomeD, elim set_consE)
      (simp_all add: signature_def int_ops_def long_ops_def float_ops_def branches1_def branches2_def conversions_def returns_def)
  obtain l st where T: "T = (l, t # st)"
    using assms(2) sig by (cases T; cases "snd T") (auto simp: eff_def split: if_splits)
  obtain v vs where f: "f_stack f = v # vs" using assms(1) by (auto simp: conf_def T list_all2_Cons2)
  obtain j u where u: "lw_pop s = Inr (j, u)" "means rho (lw_graph s) v j" "sim rho (f\<lparr>f_stack := vs\<rparr>) u" "lw_graph u = lw_graph s"
      "pop f = (v, f\<lparr>f_stack := vs\<rparr>)"
    by (rule sim_pop [OF assms(3) f])
  have "means rho (lw_graph u) v j" using u(2,4) by simp
  then show ?thesis using exec_return(2) [OF t(1), of fp f] lower_return_first [OF u(3), of v j] u(1,5) t(2) by auto
qed

section \<open>Runs\<close>

lemma straight_total: "straight d \<Longrightarrow> d_op d \<notin> set [BC_Idiv, BC_Irem]"
  unfolding straight_def
  by (auto simp: ring_int_ops_def long_ops_def stack_ops_def switch)

lemma unat_length_u32: "unat (ucast (x :: u8) :: u32) = unat x"
  using unsigned_less [of x, where ?'a = nat] by (simp add: unsigned_ucast_eq take_bit_nat_eq_self_iff)

lemma straight_step:
  assumes "wt_code code phi r" "typed phi f" "sim rho f s" "instr_at code (f_pc f) = Some d" "straight d" "length code < 2 ^ 31"
  obtains g t where "jvm_step fp code f = Some (J_jump g)" "lower_op oor d pc s = Inr t" "sim rho g t" "typed phi g"
    "unat (f_pc g) = unat (f_pc f) + unat (d_length d)" "unat (f_pc g) < length code" "d_op d \<noteq> BC_Invalid"
proof -
  obtain d' T T' where d: "(f_pc f, T) \<in> set phi" "instr_at code (f_pc f) = Some d'" "d_op d' \<noteq> BC_Invalid" "conf f T" "eff d' T = Some T'"
    "unat (f_pc f) < length code" and q: "\<And>q. q \<in> set (successors (f_pc f) d') \<Longrightarrow> flows phi T' q"
    using assms(1,2) by (rule wt_instrD) blast
  have [simp]: "d' = d" using d(2) assms(4) by simp
  obtain g t where g: "exec_op fp d f = Some (J_next g)" "lower_op oor d pc s = Inr t" "sim rho g t"
    using sim_step [OF d(4) _ assms(3,5), of T' fp oor pc] d(5) by (auto simp: matched_def)
  have "sound_outcome d f T' (Some (J_next g))" using eff_sound [of d "fst T" "snd T"] d(4,5) g(1) by (metis \<open>d' = d\<close> prod.collapse)
  then have c: "conf g T'" "f_pc g = f_pc f" using straight_total [OF assms(5)] by (auto simp: sound_outcome_def)
  moreover have "f_error g = None" using c(1) by (simp add: conf_def)
  ultimately have j: "jvm_step fp code f = Some (J_jump (g\<lparr>f_pc := f_pc f + ucast (d_length d)\<rparr>))"
    using assms(4) d(3) g(1) by (simp add: jvm_step_def instr_at_def)
  let ?g = "g\<lparr>f_pc := f_pc f + ucast (d_length d)\<rparr>"
  have "f_pc ?g \<in> set (successors (f_pc f) d)"
    using \<open>sound_outcome d f T' (Some (J_next g))\<close> by (auto simp: sound_outcome_def successors_def)
  then have "flows phi T' (f_pc ?g)" using q by simp
  moreover have "conf ?g T'" using c(1) by simp
  ultimately have typed: "typed phi ?g" by (rule flows_typed)
  have "sim rho ?g t" using g(3) by (simp add: sim_def)
  moreover have "unat (f_pc ?g) = unat (f_pc f) + unat (d_length d)"
    using d(6) assms(6) unsigned_less [of "d_length d", where ?'a = nat] by (simp add: unat_word_ariths unat_length_u32)
  moreover have "unat (f_pc ?g) < length code" using assms(1) typed by (rule wt_instrD)
  ultimately show thesis using that j g(2) typed d(3) by simp
qed

lemma straight_run:
  "wt_code code phi r \<Longrightarrow> straight_code code phi \<Longrightarrow> typed phi f \<Longrightarrow> sim rho f s \<Longrightarrow>
   \<exists>v t. jvm_loop fp code f = Some (Some (Inr v)) \<and> lower_loop oor code (unat (f_pc f)) s = Some (Inr t)
     \<and> first_return rho (lw_graph t) v \<and> lw_ok t"
proof (induction "length code - unat (f_pc f)" arbitrary: f s rule: less_induct)
  case less
  obtain d T T' where d: "(f_pc f, T) \<in> set phi" "instr_at code (f_pc f) = Some d" "d_op d \<noteq> BC_Invalid" "conf f T" "eff d T = Some T'"
    "unat (f_pc f) < length code"
    using less.prems(1,3) by (rule wt_instrD) blast
  have st: "straight d \<or> leaves (d_op d) \<and> unat (f_pc f) + unat (d_length d) = length code" "length code < 2 ^ 31"
    using less.prems(2) d(1,2) by (fastforce simp: straight_code_def list_all_iff)
      (use less.prems(2) in \<open>simp add: straight_code_def\<close>)
  have dec: "decode_opcode (drop (unat (f_pc f)) code) = Some d" using d(2) by (simp add: instr_at_def)
  show ?case
  proof (cases "straight d")
    case True
    obtain g t where g: "jvm_step fp code f = Some (J_jump g)" "lower_op oor d (unat (f_pc f)) s = Inr t" "sim rho g t" "typed phi g"
      "unat (f_pc g) = unat (f_pc f) + unat (d_length d)" "unat (f_pc g) < length code"
      by (rule straight_step [OF less.prems(1,3,4) d(2) True st(2)])
    have "0 < unat (d_length d)" by (rule lower_advances [OF dec d(3) g(2)])
    then have "length code - unat (f_pc g) < length code - unat (f_pc f)" using g(5,6) by simp
    from less.hyps [OF this less.prems(1,2) g(4,3)]
    show ?thesis using g(1,2,5) d(3,6) dec by (simp add: jvm_loop.simps [of fp code f] lower_loop.simps [of oor code "unat (f_pc f)" s])
  next
    case False
    then obtain v t where v: "exec_op fp d f = Some (J_return v)" "lower_op oor d (unat (f_pc f)) s = Inr t"
      "first_return rho (lw_graph t) v" "lw_ok t"
      using match_return [OF d(4,5) less.prems(4), of fp oor "unat (f_pc f)"] st(1) by blast
    have "jvm_step fp code f = Some (J_return v)" using v(1) d(3) dec by (simp add: jvm_step_def)
    then show ?thesis using v(2-4) d(3,6) dec st(1) False
      by (simp add: jvm_loop.simps [of fp code f] lower_loop.simps [of oor code "unat (f_pc f)" s] lower_loop.simps [of oor code "length code" t])
  qed
qed

lemma sim_start:
  assumes "min (unat num_args) (length args) \<le> unat num_locals"
    and "list_all2 agrees (f_locals (start_frame num_locals num_args args)) (map rho [2..<2 + unat num_locals])"
  shows "sim rho (start_frame num_locals num_args args) (lower_start num_locals num_args)"
proof -
  obtain as h where h: "lower_start num_locals num_args = new_lowerer\<lparr>lw_graph := h, lw_locals := [2..<2 + unat num_locals], lw_args := as\<rparr>"
    "good_graph h" "extends (lw_graph new_lowerer) h" "g_size h = 1 + unat num_locals + unat num_args"
    "\<forall>i. 2 \<le> i \<and> in_graph h i \<longrightarrow> view h i = new_view NK_Phi"
    by (rule lower_start_spec)
  have ok: "lw_ok (lower_start num_locals num_args)" using lower_start_ok by (simp add: reach_def)
  have one: "v_kind (view h 1) = NK_Start"
    using h(3) start_graph(2,3) by (simp add: extends_def in_graph_def view_def)
  have "v_kind (view h i) \<noteq> NK_Return" if "in_graph h i" for i
  proof (cases "i = 1")
    case False
    then have "2 \<le> i" using that by (simp add: in_graph_def)
    then show ?thesis using h(5) that by simp
  qed (simp add: one del: One_nat_def)
  moreover have "means rho h v i" if "i \<in> set [2..<2 + unat num_locals]" "agrees v (rho i)" for v i
  proof -
    have i: "in_graph h i" "2 \<le> i" using that(1) h(4) by (auto simp: in_graph_def)
    then have "denotes rho h i (rho i)" using h(5) by (intro denotes_phi) simp_all
    then show ?thesis using i(1) that(2) by (auto simp: means_def)
  qed
  then have "list_all2 (means rho h) (f_locals (start_frame num_locals num_args args)) [2..<2 + unat num_locals]"
    using assms(2) unfolding list_all2_map2 list_all2_conv_all_nth by (auto simp del: upt_Suc)
  ultimately show ?thesis using ok h(1)
    by (simp add: sim_def no_return_def new_lowerer_graph start_frame_def Let_def del: upt_Suc)
qed

text \<open>C20: the lowerer is correct on verified straight-line code over the operations that commute with taking
  the low half of a word (constants, locals, stack operations, \<open>iinc\<close>, addition, subtraction, multiplication and
  bitwise operations of both widths) up to a return at the end. The interpreter returns a value, the lowerer
  a graph, and the first return node of the graph returns a node that denotes the value: all of a long, the low
  half for an int, when each phi of a local stands for the initial value of the local.\<close>

theorem lowering_agrees_with_interpreter:
  assumes "wt_code code phi r" "straight_code code phi" "starts phi num_locals num_args ts" "list_all2 has_ty args ts"
    and "list_all2 agrees (f_locals (start_frame num_locals num_args args)) (map rho [2..<2 + unat num_locals])"
  shows "\<exists>v g. jvm_run fp code num_locals num_args args = Some (Some (Inr v)) \<and> jvm_lower oor code num_locals num_args = Some (Inr g)
    \<and> returned rho g v"
proof -
  let ?f = "start_frame num_locals num_args args" and ?s = "lower_start num_locals num_args"
  note st = start_typed [OF assms(3,4,1)]
  have "sim rho ?f ?s" using sim_start [OF _ assms(5)] assms(3,4) by (simp add: starts_def list_all2_lengthD)
  from straight_run [OF assms(1,2) st(1) this, of fp oor]
  obtain v t where v: "jvm_loop fp code ?f = Some (Some (Inr v))" "lower_loop oor code 0 ?s = Some (Inr t)"
    "first_return rho (lw_graph t) v" "lw_ok t" by (auto simp: start_frame_def Let_def)
  have "reach (lw_graph t) (lower_end t)" using v(4) by (intro lower_end_ok) (simp add: reach_def)
  then have e: "extends (lw_graph t) (lw_graph (lower_end t))" "verifier_ok (lw_graph (lower_end t))"
    by (simp_all add: reach_def lw_ok_def good_graph_verifies)
  then have "jvm_lower oor code num_locals num_args = Some (Inr (lw_graph (lower_end t)))"
    using v(2) by (simp add: jvm_lower_def Let_def verify_Inr_iff [THEN iffD2])
  then show ?thesis using v(1) st(2) first_return_extends [OF e(1) v(3)] first_return_returned by auto
qed

end
