(* ===== verification/Jvm_Lower_Examples.thy ===== *)
theory Jvm_Lower_Examples
  imports Jvm_Lower_Correct
begin

text \<open>
  Runs of the lowerer on concrete methods: the inputs of the witnesses, and two verified methods on which the
  graph and the interpreter disagree.
\<close>

section \<open>Concrete graphs\<close>

text \<open>What the meaning of a node depends on.\<close>

definition outline :: "graph \<Rightarrow> (node_kind \<times> node_id list \<times> u64) list" where
  "outline g = map (\<lambda>i. (n_kind (node g i), data_inputs g i, const_value (side g i))) (node_ids g)"

lemma outline_in_graph: "in_graph g i \<longleftrightarrow> 1 \<le> i \<and> i \<le> length (outline g)"
  by (auto simp: outline_def in_graph_def node_ids_def simp del: upt_Suc)

lemma outline_view:
  assumes "in_graph g i" "outline g ! (i - 1) = (k, ins, c)"
  shows "v_kind (view g i) = k" "v_ins (view g i) = ins" "const_value (v_side (view g i)) = c"
  using assms by (auto simp: outline_def view_def in_graph_def node_ids_def simp del: upt_Suc)

lemma denotes_literal:
  assumes "in_graph g i" "outline g ! (i - 1) = (NK_ConstInt, [], c)" "denotes rho g i x"
  shows "x = c"
  using assms(3) outline_view [OF assms(1,2)] by cases (auto simp: int_sem_def)

lemma denotes_binary:
  assumes "in_graph g i" "outline g ! (i - 1) = (k, [a, b], c)" "denotes rho g i x" "k \<noteq> NK_Phi"
  obtains y z sd where "denotes rho g a y" "denotes rho g b z" "int_sem k sd [y, z] = Some x"
  using assms(3)
proof cases
  case denotes_phi
  then show ?thesis using outline_view [OF assms(1,2)] assms(4) by simp
next
  case (denotes_node xs)
  then show ?thesis using outline_view [OF assms(1,2)] that by (auto simp: list_all2_Cons1)
qed

lemma find_same: "\<forall>x \<in> set xs. P x = Q x \<Longrightarrow> find P xs = find Q xs"
  by (induction xs) auto

lemma find_outline:
  "find (\<lambda>i. n_kind (node g i) = k) (node_ids g) = find (\<lambda>i. fst (outline g ! (i - 1)) = k) [1..<length (outline g) + 1]"
proof -
  have "node_ids g = [1..<length (outline g) + 1]" by (simp add: outline_def node_ids_def del: upt_Suc)
  then show ?thesis
    by (auto intro!: find_same simp: outline_def node_ids_def simp del: upt_Suc)
qed

section \<open>The sum of two arguments\<close>

definition sum_code :: "u8 list" where
  "sum_code = [0x1A, 0x1B, 0x60, 0xAC]"

definition sum_typing :: typing where
  "sum_typing = (let l = [T_Int, T_Int] in [(0, l, []), (1, l, [T_Int]), (2, l, [T_Int, T_Int]), (3, l, [T_Int])])"

definition sum_locals :: "node_id \<Rightarrow> i64" where
  "sum_locals i = (if i = 2 then 0x7FFFFFFF else 0x100000001)"

lemma sum_verified:
  "wt_code sum_code sum_typing T_Int" "straight_code sum_code sum_typing" "starts sum_typing 2 2 [T_Int, T_Int]"
  by (code_simp, code_simp, code_simp)

lemma sum_args: "list_all2 has_ty [from_int32 0x7FFFFFFF, from_int32 1] [T_Int, T_Int]"
  by simp

lemma sum_agrees:
  "list_all2 agrees (f_locals (start_frame 2 2 [from_int32 0x7FFFFFFF, from_int32 1])) (map sum_locals [2..<2 + unat (2 :: u16)])"
  by code_simp

text \<open>The sum overflows as an int and carries into the high half of the node.\<close>

theorem lowering_agrees_with_interpreter_witness:
  "\<forall>fp oor. \<exists>v g. jvm_run fp sum_code 2 2 [from_int32 0x7FFFFFFF, from_int32 1] = Some (Some (Inr v))
    \<and> jvm_lower oor sum_code 2 2 = Some (Inr g) \<and> returned sum_locals g v"
  by (intro allI) (rule lowering_agrees_with_interpreter [OF sum_verified sum_args sum_agrees])

section \<open>Where the graph and the interpreter disagree\<close>

text \<open>\<open>-1 >>> 1\<close> as an int.\<close>

definition shift_code :: "u8 list" where
  "shift_code = [0x02, 0x04, 0x7C, 0xAC]"

definition shift_typing :: typing where
  "shift_typing = [(0, [], []), (1, [], [T_Int]), (2, [], [T_Int, T_Int]), (3, [], [T_Int])]"

text \<open>A jump over a return.\<close>

definition goto_code :: "u8 list" where
  "goto_code = [0xA7, 0x00, 0x05, 0x04, 0xAC, 0x05, 0xAC]"

definition goto_typing :: typing where
  "goto_typing = [(0, [], []), (5, [], []), (6, [], [T_Int])]"

text \<open>The translation of the instructions of the two methods, instruction by instruction.\<close>

definition ends :: "u8 list \<Rightarrow> nat \<Rightarrow> (lowerer \<Rightarrow> lowerer result) \<Rightarrow> bool" where
  "ends code pc F \<longleftrightarrow> (\<forall>oor s. lower_loop oor code pc s = Some (F s))"

lemma ends_step:
  assumes "ends code pc' F" "decode_opcode (drop pc code) = Some d" "\<And>oor s. lower_op oor d pc s = G s"
    and "pc < length code" "d_op d \<noteq> BC_Invalid" "pc + unat (d_length d) = pc'"
  shows "ends code pc (\<lambda>s. rbind (G s) F)"
  using assms by (simp add: ends_def lower_loop.simps [of _ code pc] split: sum.split)

lemma ends_length: "length code = n \<Longrightarrow> ends code n Inr"
  by (simp add: ends_def lower_loop.simps [of _ code n])

definition plain :: "jvm_opcode \<Rightarrow> decoded" where
  "plain op = empty_decoded\<lparr>d_op := op, d_length := 1\<rparr>"

lemma plain [simp]: "d_op (plain op) = op" "d_length (plain op) = 1"
  by (simp_all add: plain_def)

definition return_top :: "lowerer \<Rightarrow> lowerer result" where
  "return_top s = rbind (lw_pop s) (\<lambda>(v, s). Inr (lower_return v s))"

lemma plain_ops:
  "lower_op oor (plain BC_IconstM1) pc s = Inr (lw_push_new (create_const_int (- 1)) s)"
  "lower_op oor (plain BC_Iconst1) pc s = Inr (lw_push_new (create_const_int 1) s)"
  "lower_op oor (plain BC_Iconst2) pc s = Inr (lw_push_new (create_const_int 2) s)"
  "lower_op oor (plain BC_Iushr) pc s = do_lower_binary (\<lambda>a b. create_with NK_Shr [a, b] 0 0) s"
  "lower_op oor (plain BC_Ireturn) pc s = return_top s"
  "d_op d = BC_Goto \<Longrightarrow> lower_op oor d pc s = Inr s"
  by (simp_all add: lowering lower_control_def lower_if_zero_def lower_if_icmp_def return_top_def)

lemma shift_ends:
  "ends shift_code 0 (\<lambda>s. rbind (Inr (lw_push_new (create_const_int (- 1)) s)) (\<lambda>s. rbind (Inr (lw_push_new (create_const_int 1) s))
     (\<lambda>s. rbind (do_lower_binary (\<lambda>a b. create_with NK_Shr [a, b] 0 0) s) (\<lambda>s. rbind (return_top s) Inr))))"
proof -
  have i: "decode_opcode (drop 0 shift_code) = Some (plain BC_IconstM1)" "decode_opcode (drop 1 shift_code) = Some (plain BC_Iconst1)"
    "decode_opcode (drop 2 shift_code) = Some (plain BC_Iushr)" "decode_opcode (drop 3 shift_code) = Some (plain BC_Ireturn)"
    by (code_simp, code_simp, code_simp, code_simp)
  have n: "length shift_code = 4" by (simp add: shift_code_def)
  show ?thesis
    by (rule ends_step [OF ends_step [OF ends_step [OF ends_step [OF ends_length [OF n] i(4) plain_ops(5)] i(3) plain_ops(4)]
      i(2) plain_ops(2)] i(1) plain_ops(1)]) (simp_all add: n)
qed

lemma goto_ends:
  "ends goto_code 0 (\<lambda>s. rbind (Inr s) (\<lambda>s. rbind (Inr (lw_push_new (create_const_int 1) s)) (\<lambda>s. rbind (return_top s)
     (\<lambda>s. rbind (Inr (lw_push_new (create_const_int 2) s)) (\<lambda>s. rbind (return_top s) Inr)))))"
proof -
  let ?g = "empty_decoded\<lparr>d_op := BC_Goto, d_length := 3, d_i32 := 5, d_u32 := 5\<rparr>"
  have i: "decode_opcode (drop 0 goto_code) = Some ?g" "decode_opcode (drop 3 goto_code) = Some (plain BC_Iconst1)"
    "decode_opcode (drop 4 goto_code) = Some (plain BC_Ireturn)" "decode_opcode (drop 5 goto_code) = Some (plain BC_Iconst2)"
    "decode_opcode (drop 6 goto_code) = Some (plain BC_Ireturn)"
    by (code_simp, code_simp, code_simp, code_simp, code_simp)
  have n: "length goto_code = 7" by (simp add: goto_code_def)
  have g: "lower_op oor ?g 0 s = Inr s" for oor s by (rule plain_ops(6)) simp
  show ?thesis
    by (rule ends_step [OF ends_step [OF ends_step [OF ends_step [OF ends_step [OF ends_length [OF n] i(5) plain_ops(5)]
      i(4) plain_ops(3)] i(3) plain_ops(5)] i(2) plain_ops(2)] i(1) g]) (simp_all add: n)
qed

text \<open>What the builders append to the outline.\<close>

definition tracks :: "lowerer \<Rightarrow> (node_kind \<times> node_id list \<times> u64) list \<Rightarrow> node_id list \<Rightarrow> bool" where
  "tracks s os st \<longleftrightarrow> lw_ok s \<and> outline (lw_graph s) = os \<and> lw_stack s = st"

lemma outline_adds:
  assumes "adds f g v"
  shows "outline (snd (f g)) = outline g @ [(v_kind v, v_ins v, const_value (v_side v))]" "fst (f g) = length (outline g) + 1"
proof -
  have n: "outline h = map (\<lambda>i. (v_kind (view h i), v_ins (view h i), const_value (v_side (view h i)))) [1..<g_size h + 1]" for h
    by (simp add: outline_def view_def node_ids_def del: upt_Suc)
  have s: "g_size (snd (f g)) = g_size g + 1" and v: "view (snd (f g)) (g_size g + 1) = v"
    and old: "\<And>i. in_graph g i \<Longrightarrow> view (snd (f g)) i = view g i" using assms by (simp_all add: adds_def)
  have up: "[1..<g_size g + 1 + 1] = [1..<g_size g + 1] @ [g_size g + 1]" by simp
  show "outline (snd (f g)) = outline g @ [(v_kind v, v_ins v, const_value (v_side v))]"
    unfolding n s up map_append using old v by (auto simp: in_graph_def simp del: upt_Suc)
  show "fst (f g) = length (outline g) + 1" using assms by (simp add: adds_def n)
qed

lemma tracks_build:
  assumes "tracks s os st" "adds f (lw_graph s) v" "good_view (g_size (lw_graph s) + 1) v" "lw_build f s = (i, t)"
  shows "tracks t (os @ [(v_kind v, v_ins v, const_value (v_side v))]) st" "i = length os + 1" "in_graph (lw_graph t) i"
proof -
  have "reach (lw_graph s) s" "adds_good f (lw_graph s)" using assms(1-3) by (auto simp: tracks_def reach_def adds_good_def)
  note b = lw_build_ok [OF this assms(4)]
  have "i = fst (f (lw_graph s))" "lw_graph t = snd (f (lw_graph s))" using assms(4) by (auto simp: lw_build_def split: prod.splits)
  then show "tracks t (os @ [(v_kind v, v_ins v, const_value (v_side v))]) st" "i = length os + 1" "in_graph (lw_graph t) i"
    using b assms(1) outline_adds [OF assms(2)] by (auto simp: tracks_def reach_def)
qed

lemma tracks_push_new:
  assumes "tracks s os st" "adds f (lw_graph s) v" "good_view (g_size (lw_graph s) + 1) v"
  shows "tracks (lw_push_new f s) (os @ [(v_kind v, v_ins v, const_value (v_side v))]) ((length os + 1) # st)"
proof -
  obtain i t where t: "lw_build f s = (i, t)" by fastforce
  note b = tracks_build [OF assms t]
  then show ?thesis by (auto simp: lw_push_new_def t tracks_def lw_push_def lw_ok_def)
qed

lemma tracks_const:
  assumes "tracks s os st"
  shows "tracks (lw_push_new (create_const_int c) s) (os @ [(NK_ConstInt, [], c)]) ((length os + 1) # st)"
proof -
  have g: "good_graph (lw_graph s)" using assms by (simp add: tracks_def lw_ok_def)
  have p: "pure_kind NK_ConstInt" using pure_kinds by simp
  show ?thesis using tracks_push_new [OF assms adds_const(1) [OF g, of c]] p
    by (simp add: good_view_def new_view_flags flag_simps pure_kind_def Let_def)
qed

lemma tracks_pop:
  assumes "tracks s os (v # st)"
  obtains t where "lw_pop s = Inr (v, t)" "tracks t os st" "in_graph (lw_graph t) v"
  using assms that [of "s\<lparr>lw_stack := st\<rparr>"] by (auto simp: tracks_def lw_pop_def lw_ok_def)

lemma tracks_binary:
  assumes "tracks s os (b # a # st)" "pure_kind k"
  obtains t where "do_lower_binary (\<lambda>a b. create_with k [a, b] 0 0) s = Inr t" "tracks t (os @ [(k, [a, b], 0)]) ((length os + 1) # st)"
proof -
  obtain t where t: "lw_pop s = Inr (b, t)" "tracks t os (a # st)" "in_graph (lw_graph t) b" by (rule tracks_pop [OF assms(1)])
  obtain u where u: "lw_pop t = Inr (a, u)" "tracks u os st" "in_graph (lw_graph u) a" by (rule tracks_pop [OF t(2)])
  have b: "in_graph (lw_graph u) b" using t(3) u(1) by (auto simp: lw_pop_def thrown_def split: list.splits)
  have g: "good_graph (lw_graph u)" using u(2) by (simp add: tracks_def lw_ok_def)
  have "good_view (g_size (lw_graph u) + 1) ((new_view k)\<lparr>v_ins := [a, b], v_ctrl := 0, v_effect := 0\<rparr>)"
    using u(3) b by (intro good_pure [OF assms(2)]) (auto simp: in_graph_def)
  from tracks_push_new [OF u(2) adds_create_with [OF g] this]
  show thesis using that by (simp add: do_lower_binary_def t(1) u(1) new_view_def default_side_def)
qed

lemma tracks_lower_return:
  assumes "tracks s os st" "in_graph (lw_graph s) v"
  shows "tracks (lower_return v s) (os @ [(NK_Return, [v], 0)]) st"
proof -
  let ?f = "with_effect (lw_effect s) (with_ctrl (lw_ctrl s) (gb_return_node v))"
  let ?v = "(new_view NK_Return)\<lparr>v_ins := [v], v_ctrl := lw_ctrl s, v_effect := lw_effect s\<rparr>"
  have g: "good_graph (lw_graph s)" "in_graph (lw_graph s) (lw_ctrl s)" "in_graph (lw_graph s) (lw_effect s)"
    using assms(1) by (simp_all add: tracks_def lw_ok_def)
  have "adds ?f (lw_graph s) ?v"
    using adds_with(2) [OF adds_with(1) [OF adds_create_with [OF g(1), of NK_Return "[v]" 0 0], of "lw_ctrl s"], of "lw_effect s"]
    by (simp add: create_with_eqs)
  moreover have "good_view (g_size (lw_graph s) + 1) ?v"
    using effect_kinds assms(2) g(2,3) by (intro good_effect) (auto simp: in_graph_def)
  ultimately show ?thesis using tracks_build(1) [OF assms(1), of ?f ?v]
    by (cases "lw_build ?f s") (simp add: lower_return_eq new_view_def default_side_def)
qed

lemma tracks_return_top:
  assumes "tracks s os (v # st)"
  obtains t where "return_top s = Inr t" "tracks t (os @ [(NK_Return, [v], 0)]) st"
  by (rule tracks_pop [OF assms]) (auto simp: return_top_def intro: that tracks_lower_return)

lemma tracks_end:
  assumes "tracks s os []"
  shows "tracks (lower_end s) (os @ [(NK_LdNull, [], 0), (NK_Return, [length os + 1], 0)]) []"
proof -
  have g: "good_graph (lw_graph s)" using assms by (simp add: tracks_def lw_ok_def)
  have good: "good_view (g_size (lw_graph s) + 1) (new_view NK_LdNull)"
    using pure_kinds by (simp add: good_view_def new_view_flags pure_kind_def Let_def)
  obtain i t where t: "lw_build (create NK_LdNull) s = (i, t)" by fastforce
  note b = tracks_build [OF assms adds_create [OF g] good t]
  show ?thesis using tracks_lower_return [OF b(1,3)] b(2) assms
    by (simp add: lower_end_def lower_return_void_def t new_view_def default_side_def tracks_def)
qed

lemma tracks_start: "tracks (lower_start 0 0) [(NK_Start, [], 0)] []"
proof -
  have "lw_ok (lower_start 0 0)" using lower_start_ok by (simp add: reach_def)
  moreover have "outline (lw_graph (lower_start 0 0)) = [(NK_Start, [], 0)]" "lw_stack (lower_start 0 0) = []" by (code_simp, code_simp)
  ultimately show ?thesis by (simp add: tracks_def)
qed

lemma tracks_lower:
  assumes "ends code 0 F" "F (lower_start 0 0) = Inr t" "tracks t os []"
  obtains g where "jvm_lower oor code 0 0 = Some (Inr g)" "outline g = os @ [(NK_LdNull, [], 0), (NK_Return, [length os + 1], 0)]"
proof -
  have "lw_ok (lower_end t)" using tracks_end [OF assms(3)] by (simp add: tracks_def)
  then have "verify_graph (lw_graph (lower_end t)) = Inr ()" by (simp add: lw_ok_def good_graph_verifies verify_Inr_iff)
  then have "jvm_lower oor code 0 0 = Some (Inr (lw_graph (lower_end t)))"
    using assms(1,2) by (simp add: jvm_lower_def ends_def Let_def)
  then show thesis using that tracks_end [OF assms(3)] by (simp add: tracks_def)
qed

lemma shift_outline:
  obtains g where "jvm_lower oor shift_code 0 0 = Some (Inr g)" "outline g =
     [(NK_Start, [], 0), (NK_ConstInt, [], - 1), (NK_ConstInt, [], 1), (NK_Shr, [2, 3], 0), (NK_Return, [4], 0), (NK_LdNull, [], 0),
      (NK_Return, [6], 0)]"
proof -
  have "pure_kind NK_Shr" using pure_kinds by simp
  note s = tracks_const [OF tracks_const [OF tracks_start, of "- 1"], of 1, simplified]
  obtain t where t: "do_lower_binary (\<lambda>a b. create_with NK_Shr [a, b] 0 0)
      (lw_push_new (create_const_int 1) (lw_push_new (create_const_int (- 1)) (lower_start 0 0))) = Inr t"
    "tracks t [(NK_Start, [], 0), (NK_ConstInt, [], - 1), (NK_ConstInt, [], 1), (NK_Shr, [2, 3], 0)] [4]"
    using tracks_binary [OF s \<open>pure_kind NK_Shr\<close>] by (auto simp: eval_nat_numeral)
  obtain u where u: "return_top t = Inr u" "tracks u [(NK_Start, [], 0), (NK_ConstInt, [], - 1), (NK_ConstInt, [], 1), (NK_Shr, [2, 3], 0),
      (NK_Return, [4], 0)] []"
    using tracks_return_top [OF t(2)] by auto
  show thesis by (rule tracks_lower [OF shift_ends _ u(2)]) (use t(1) u(1) in \<open>auto intro: that\<close>)
qed

lemma goto_outline:
  obtains g where "jvm_lower oor goto_code 0 0 = Some (Inr g)" "outline g =
     [(NK_Start, [], 0), (NK_ConstInt, [], 1), (NK_Return, [2], 0), (NK_ConstInt, [], 2), (NK_Return, [4], 0), (NK_LdNull, [], 0),
      (NK_Return, [6], 0)]"
proof -
  note s = tracks_const [OF tracks_start, of 1, simplified]
  obtain t where t: "return_top (lw_push_new (create_const_int 1) (lower_start 0 0)) = Inr t"
    "tracks t [(NK_Start, [], 0), (NK_ConstInt, [], 1), (NK_Return, [2], 0)] []"
    using tracks_return_top [OF s] by (auto simp: eval_nat_numeral)
  note r = tracks_const [OF t(2), of 2, simplified]
  obtain u where u: "return_top (lw_push_new (create_const_int 2) t) = Inr u"
    "tracks u [(NK_Start, [], 0), (NK_ConstInt, [], 1), (NK_Return, [2], 0), (NK_ConstInt, [], 2), (NK_Return, [4], 0)] []"
    using tracks_return_top [OF r] by (auto simp: eval_nat_numeral)
  show thesis by (rule tracks_lower [OF goto_ends _ u(2)]) (use t(1) u(1) in \<open>auto intro: that\<close>)
qed

lemma disagree_verified: "wt_code shift_code shift_typing T_Int" "wt_code goto_code goto_typing T_Int"
  by (code_simp, code_simp)

lemma disagree_runs:
  "jvm_run fp shift_code 0 0 [] = Some (Some (Inr (from_int32 0x7FFFFFFF)))" "jvm_run fp goto_code 0 0 [] = Some (Some (Inr (from_int32 2)))"
  by (code_simp, code_simp)

lemma shift_denotes:
  assumes "outline g = [(NK_Start, [], 0), (NK_ConstInt, [], - 1), (NK_ConstInt, [], 1), (NK_Shr, [2, 3], 0), (NK_Return, [4], 0),
      (NK_LdNull, [], 0), (NK_Return, [6], 0)]" "denotes rho g 4 x"
  shows "x = 0x7FFFFFFFFFFFFFFF"
proof -
  note o = assms(1)
  have i: "in_graph g 2" "in_graph g 3" "in_graph g 4" by (simp_all add: outline_in_graph o)
  have n: "outline g ! (2 - 1) = (NK_ConstInt, [], - 1)" "outline g ! (3 - 1) = (NK_ConstInt, [], 1)" "outline g ! (4 - 1) = (NK_Shr, [2, 3], 0)"
    by (simp_all add: o)
  obtain y z sd where "denotes rho g 2 y" "denotes rho g 3 z" "int_sem NK_Shr sd [y, z] = Some x"
    by (rule denotes_binary [OF i(3) n(3) assms(2)]) auto
  moreover from this have "y = - 1" "z = 1" using denotes_literal [OF i(1) n(1)] denotes_literal [OF i(2) n(2)] by blast+
  ultimately have "x = drop_bit 1 (- 1)" by (simp add: int_sem_def)
  also have "\<dots> = 0x7FFFFFFFFFFFFFFF" by code_simp
  finally show ?thesis .
qed

lemma returned_outline:
  assumes "returned rho g v" "find (\<lambda>i. fst (outline g ! (i - 1)) = NK_Return) [1..<length (outline g) + 1] = Some r"
    "outline g ! (r - 1) = (NK_Return, [x], c)" "in_graph g r"
  shows "means rho g v x"
  using assms(1) outline_view(2) [OF assms(4,3)] unfolding returned_def find_outline assms(2) by (auto simp: view_def)

text \<open>Two verified methods on which the graph disagrees with the interpreter. The unsigned shift of an int
  becomes a shift of the 64-bit value, so \<open>-1 >>> 1\<close> is \<open>-1\<close> in the low half of the graph's result and the largest
  int in the interpreter; and a jump is dropped, so the graph returns from the code the jump skips.\<close>

lemma lowering_disagrees:
  "wt_code shift_code shift_typing T_Int \<and> jvm_run fp shift_code 0 0 [] = Some (Some (Inr (from_int32 0x7FFFFFFF)))
   \<and> (\<exists>g. jvm_lower oor shift_code 0 0 = Some (Inr g) \<and> \<not> returned rho g (from_int32 0x7FFFFFFF))
   \<and> wt_code goto_code goto_typing T_Int \<and> jvm_run fp goto_code 0 0 [] = Some (Some (Inr (from_int32 2)))
   \<and> (\<exists>g. jvm_lower oor goto_code 0 0 = Some (Inr g) \<and> \<not> returned rho g (from_int32 2) \<and> returned rho g (from_int32 1))"
proof -
  obtain g where g: "jvm_lower oor shift_code 0 0 = Some (Inr g)" "outline g = [(NK_Start, [], 0), (NK_ConstInt, [], - 1), (NK_ConstInt, [], 1),
      (NK_Shr, [2, 3], 0), (NK_Return, [4], 0), (NK_LdNull, [], 0), (NK_Return, [6], 0)]"
    by (rule shift_outline)
  have "\<not> returned rho g (from_int32 0x7FFFFFFF)"
  proof
    assume r: "returned rho g (from_int32 0x7FFFFFFF)"
    have "means rho g (from_int32 0x7FFFFFFF) 4"
      by (rule returned_outline [OF r, of 5]) (simp_all add: g(2) outline_in_graph upt_conv_Cons)
    then obtain x where "denotes rho g 4 x" "0x7FFFFFFF = (ucast x :: i32)" by (auto simp: means_def agrees_def)
    then have "0x7FFFFFFF = (ucast (0x7FFFFFFFFFFFFFFF :: i64) :: i32)" using shift_denotes [OF g(2)] by metis
    moreover have "0x7FFFFFFF \<noteq> (ucast (0x7FFFFFFFFFFFFFFF :: i64) :: i32)" by code_simp
    ultimately show False by simp
  qed
  moreover obtain h where h: "jvm_lower oor goto_code 0 0 = Some (Inr h)" "outline h = [(NK_Start, [], 0), (NK_ConstInt, [], 1), (NK_Return, [2], 0),
      (NK_ConstInt, [], 2), (NK_Return, [4], 0), (NK_LdNull, [], 0), (NK_Return, [6], 0)]"
    by (rule goto_outline)
  have i: "in_graph h 2" "in_graph h 3" "outline h ! (2 - 1) = (NK_ConstInt, [], 1)" "outline h ! (3 - 1) = (NK_Return, [2], 0)"
    "find (\<lambda>i. fst (outline h ! (i - 1)) = NK_Return) [1..<length (outline h) + 1] = Some 3"
    by (simp_all add: h(2) outline_in_graph upt_conv_Cons)
  have "\<not> returned rho h (from_int32 2)"
  proof
    assume "returned rho h (from_int32 2)"
    from returned_outline [OF this i(5,4,2)] obtain x where "denotes rho h 2 x" "2 = (ucast x :: i32)"
      by (auto simp: means_def agrees_def)
    then have "2 = (ucast (1 :: i64) :: i32)" using denotes_literal [OF i(1,3)] by metis
    then show False by simp
  qed
  moreover have "returned rho h (from_int32 1)"
  proof -
    have "denotes rho h 2 1"
      using outline_view [OF i(1,3)] i(1) by (intro denotes_node [of _ _ _ "[]"]) (simp_all add: int_sem_def)
    then have "means rho h (from_int32 1) 2" using i(1) by (auto simp: means_def agrees_def is_int64_def)
    then show ?thesis using outline_view(2) [OF i(2,4)] i(5) by (auto simp: returned_def find_outline view_def)
  qed
  ultimately show ?thesis using g(1) h(1) disagree_verified disagree_runs by blast
qed

theorem lowered_graphs_verify_witness:
  "\<forall>oor. \<exists>g. jvm_lower oor shift_code 0 0 = Some (Inr g) \<and> built g \<and> verify_graph g = Inr ()"
proof
  fix oor
  obtain g where g: "jvm_lower oor shift_code 0 0 = Some (Inr g)" by (rule shift_outline)
  show "\<exists>g. jvm_lower oor shift_code 0 0 = Some (Inr g) \<and> built g \<and> verify_graph g = Inr ()"
    using lowered_graphs_verify [OF g] g by auto
qed

end
