(* ===== verification/Class_File.thy ===== *)
theory Class_File
  imports Core_Result Granit_Value
begin

text \<open>
  \<^verbatim>\<open>jvm/ClassFile.hpp\<close> and \<^verbatim>\<open>jvm/ClassFile.cpp\<close>: the parser of class files. The cursor \<^verbatim>\<open>ByteReader\<close> is a
  reader: a function of the bytes and the position that returns a value with the new position, or an error.
  Positions are unbounded; the code adds 32-bit counts to a 64-bit position. Widening a float of the class file
  to a double is the parameter \<open>widen\<close> on bit patterns. Reading the bytes from disk is left out.
\<close>

section \<open>The reader\<close>

type_synonym 'a reader = "u8 list \<Rightarrow> nat \<Rightarrow> ('a \<times> nat) result"

definition rd_return :: "'a \<Rightarrow> 'a reader" where
  "rd_return x data pos = Inr (x, pos)"

definition rd_bind :: "'a reader \<Rightarrow> ('a \<Rightarrow> 'b reader) \<Rightarrow> 'b reader" where
  "rd_bind p f data pos = rbind (p data pos) (\<lambda>(x, pos). f x data pos)"

definition unexpected_eof :: "string \<Rightarrow> nat \<Rightarrow> error" where
  "unexpected_eof what pos = make_error BadInput (''ClassFile: unexpected EOF reading '' @ what @ '' at offset '' @ show_nat pos)"

definition read_u1 :: "u8 reader" where
  "read_u1 data pos = (if pos + 1 > length data then Inl (unexpected_eof ''u1'' pos) else Inr (data ! pos, pos + 1))"

definition read_u2 :: "u16 reader" where
  "read_u2 data pos = (if pos + 2 > length data then Inl (unexpected_eof ''u2'' pos)
     else Inr (or (push_bit 8 (ucast (data ! pos))) (ucast (data ! (pos + 1))), pos + 2))"

definition read_u4 :: "u32 reader" where
  "read_u4 data pos = (if pos + 4 > length data then Inl (unexpected_eof ''u4'' pos)
     else Inr (or (or (or (push_bit 24 (ucast (data ! pos))) (push_bit 16 (ucast (data ! (pos + 1)))))
       (push_bit 8 (ucast (data ! (pos + 2))))) (ucast (data ! (pos + 3))), pos + 4))"

definition read_bytes :: "nat \<Rightarrow> u8 list reader" where
  "read_bytes n data pos = (if pos + n > length data then Inl (unexpected_eof (show_nat n @ '' bytes'') pos)
     else Inr (take n (drop pos data), pos + n))"

definition string_of_bytes :: "u8 list \<Rightarrow> string" where
  "string_of_bytes bs = map (\<lambda>b. char_of (unat b)) bs"

definition read_utf8 :: "u16 \<Rightarrow> string reader" where
  "read_utf8 len data pos =
     (if pos + unat len > length data then Inl (unexpected_eof (''Utf8 (len='' @ show_nat (unat len) @ '')'') pos)
      else Inr (string_of_bytes (take (unat len) (drop pos data)), pos + unat len))"

text \<open>The counted loops.\<close>

fun rd_list :: "nat \<Rightarrow> 'a reader \<Rightarrow> 'a list reader" where
  "rd_list 0 p = rd_return []"
| "rd_list (Suc n) p = rd_bind p (\<lambda>x. rd_bind (rd_list n p) (\<lambda>xs. rd_return (x # xs)))"

fun rd_fold :: "nat \<Rightarrow> ('s \<Rightarrow> 's reader) \<Rightarrow> 's \<Rightarrow> 's reader" where
  "rd_fold 0 p s = rd_return s"
| "rd_fold (Suc n) p s = rd_bind (p s) (rd_fold n p)"

section \<open>The constant pool\<close>

type_synonym cp_tag = u8

abbreviation "CP_Utf8 \<equiv> 1 :: cp_tag"
abbreviation "CP_Integer \<equiv> 3 :: cp_tag"
abbreviation "CP_Float \<equiv> 4 :: cp_tag"
abbreviation "CP_Long \<equiv> 5 :: cp_tag"
abbreviation "CP_Double \<equiv> 6 :: cp_tag"
abbreviation "CP_Class \<equiv> 7 :: cp_tag"
abbreviation "CP_String \<equiv> 8 :: cp_tag"
abbreviation "CP_Fieldref \<equiv> 9 :: cp_tag"
abbreviation "CP_Methodref \<equiv> 10 :: cp_tag"
abbreviation "CP_InterfaceMethodref \<equiv> 11 :: cp_tag"
abbreviation "CP_NameAndType \<equiv> 12 :: cp_tag"
abbreviation "CP_MethodHandle \<equiv> 15 :: cp_tag"
abbreviation "CP_MethodType \<equiv> 16 :: cp_tag"
abbreviation "CP_Dynamic \<equiv> 17 :: cp_tag"
abbreviation "CP_InvokeDynamic \<equiv> 18 :: cp_tag"
abbreviation "CP_Module \<equiv> 19 :: cp_tag"
abbreviation "CP_Package \<equiv> 20 :: cp_tag"

record cp_entry =
  ce_tag :: cp_tag
  ce_utf8 :: string
  ce_i64 :: i64
  ce_f64 :: f64
  ce_index1 :: u16
  ce_index2 :: u16

definition empty_entry :: cp_entry where
  "empty_entry = \<lparr>ce_tag = 0, ce_utf8 = '''', ce_i64 = 0, ce_f64 = f64_0, ce_index1 = 0, ce_index2 = 0\<rparr>"

definition read_constant_pool_entry :: "(u32 \<Rightarrow> f64) \<Rightarrow> cp_tag \<Rightarrow> cp_entry reader" where
  "read_constant_pool_entry widen tag =
     (let e = empty_entry\<lparr>ce_tag := tag\<rparr> in
      if tag = CP_Utf8 then rd_bind read_u2 (\<lambda>len. rd_bind (read_utf8 len) (\<lambda>s. rd_return (e\<lparr>ce_utf8 := s\<rparr>)))
      else if tag = CP_Integer then rd_bind read_u4 (\<lambda>v. rd_return (e\<lparr>ce_i64 := scast v\<rparr>))
      else if tag = CP_Float then rd_bind read_u4 (\<lambda>v. rd_return (e\<lparr>ce_f64 := widen v\<rparr>))
      else if tag = CP_Long \<or> tag = CP_Double then
        rd_bind read_u4 (\<lambda>hi. rd_bind read_u4 (\<lambda>lo.
          let bits = or (push_bit 32 (ucast hi)) (ucast lo)
          in rd_return (if tag = CP_Long then e\<lparr>ce_i64 := bits\<rparr> else e\<lparr>ce_f64 := bits\<rparr>)))
      else if tag \<in> set [CP_Class, CP_String, CP_MethodType, CP_Module, CP_Package] then
        rd_bind read_u2 (\<lambda>i1. rd_return (e\<lparr>ce_index1 := i1\<rparr>))
      else if tag \<in> set [CP_Fieldref, CP_Methodref, CP_InterfaceMethodref, CP_NameAndType, CP_Dynamic, CP_InvokeDynamic] then
        rd_bind read_u2 (\<lambda>i1. rd_bind read_u2 (\<lambda>i2. rd_return (e\<lparr>ce_index1 := i1, ce_index2 := i2\<rparr>)))
      else if tag = CP_MethodHandle then
        rd_bind read_u1 (\<lambda>kind. rd_bind read_u2 (\<lambda>ref. rd_return (e\<lparr>ce_index1 := ucast kind, ce_index2 := ref\<rparr>)))
      else (\<lambda>data pos. Inl (make_error BadInput (''ClassFile: unknown constant pool tag '' @ show_nat (unat tag)))))"

text \<open>The reader only moves forward.\<close>

definition forward_reader :: "'a reader \<Rightarrow> bool" where
  "forward_reader p \<longleftrightarrow> (\<forall>data pos x pos'. p data pos = Inr (x, pos') \<longrightarrow> pos \<le> pos')"

named_theorems forward_intros \<open>readers that only move forward\<close>

lemma forward_basic [forward_intros]:
  "forward_reader (rd_return x)" "forward_reader read_u1" "forward_reader read_u2" "forward_reader read_u4"
  "forward_reader (read_bytes n)" "forward_reader (read_utf8 len)" "forward_reader (\<lambda>data pos. Inl e)"
  by (auto simp: forward_reader_def rd_return_def read_u1_def read_u2_def read_u4_def read_bytes_def read_utf8_def)

lemma forward_bind [forward_intros]: "forward_reader p \<Longrightarrow> (\<And>x. forward_reader (f x)) \<Longrightarrow> forward_reader (rd_bind p f)"
  unfolding forward_reader_def rd_bind_def rbind_Inr_iff by (fastforce intro: order_trans)

lemma forward_if [forward_intros]: "(b \<Longrightarrow> forward_reader p) \<Longrightarrow> (\<not> b \<Longrightarrow> forward_reader q) \<Longrightarrow> forward_reader (if b then p else q)"
  by simp

lemma forward_entry: "forward_reader (read_constant_pool_entry widen tag)"
  unfolding read_constant_pool_entry_def Let_def by (intro forward_intros)

lemma rbind_cong [fundef_cong]: "r = r' \<Longrightarrow> (\<And>x. r' = Inr x \<Longrightarrow> f x = f' x) \<Longrightarrow> rbind r f = rbind r' f'"
  by (cases r') auto

text \<open>The counter of the loop over the pool is a 16-bit integer that skips the second slot of a long or a double.\<close>

function read_pool :: "(u32 \<Rightarrow> f64) \<Rightarrow> u16 \<Rightarrow> u16 \<Rightarrow> cp_entry list \<Rightarrow> cp_entry list reader" where
  "read_pool widen cp_count i pool data pos =
     (if i < cp_count
      then rbind (read_u1 data pos) (\<lambda>(tag, pos1).
        rbind (read_constant_pool_entry widen tag data pos1) (\<lambda>(e, pos2).
          if tag = CP_Long \<or> tag = CP_Double then read_pool widen cp_count (i + 2) (pool @ [e, empty_entry]) data pos2
          else read_pool widen cp_count (i + 1) (pool @ [e]) data pos2))
      else Inr (pool, pos))"
  by pat_completeness auto
termination
  by (relation "measure (\<lambda>(widen, cp_count, i, pool, data, pos). length data - pos)")
    (auto simp: read_u1_def split: if_splits dest!: forward_entry [unfolded forward_reader_def, rule_format])

declare read_pool.simps [simp del]

section \<open>The class file\<close>

record method_info =
  mi_access_flags :: u16
  mi_name_index :: u16
  mi_descriptor_index :: u16
  mi_max_stack :: u16
  mi_max_locals :: u16
  mi_code :: "u8 list"
  mi_name :: string
  mi_descriptor :: string

definition empty_method :: method_info where
  "empty_method = \<lparr>mi_access_flags = 0, mi_name_index = 0, mi_descriptor_index = 0, mi_max_stack = 0, mi_max_locals = 0, mi_code = [],
     mi_name = '''', mi_descriptor = ''''\<rparr>"

record class_file =
  cf_minor_version :: u16
  cf_major_version :: u16
  cf_constant_pool :: "cp_entry list"
  cf_access_flags :: u16
  cf_this_class :: u16
  cf_super_class :: u16
  cf_interfaces :: "u16 list"
  cf_methods :: "method_info list"
  cf_class_name :: string

text \<open>The queries take the pool, the part of the class file they read; the pool is indexed from 1.\<close>

definition cp :: "cp_entry list \<Rightarrow> u16 \<Rightarrow> cp_entry option" where
  "cp pool index = (if index = 0 \<or> unat index > length pool then None else Some (pool ! (unat index - 1)))"

definition cp_utf8 :: "cp_entry list \<Rightarrow> u16 \<Rightarrow> string" where
  "cp_utf8 pool index = (case cp pool index of Some e \<Rightarrow> if ce_tag e = CP_Utf8 then ce_utf8 e else '''' | None \<Rightarrow> '''')"

definition cp_class_name :: "cp_entry list \<Rightarrow> u16 \<Rightarrow> string" where
  "cp_class_name pool index =
     (case cp pool index of Some e \<Rightarrow> if ce_tag e = CP_Class then cp_utf8 pool (ce_index1 e) else '''' | None \<Rightarrow> '''')"

definition find_method :: "class_file \<Rightarrow> string \<Rightarrow> method_info option" where
  "find_method cf name = find (\<lambda>m. mi_name m = name) (cf_methods cf)"

definition find_main :: "class_file \<Rightarrow> method_info option" where
  "find_main cf = find_method cf ''main''"

section \<open>Parsing\<close>

text \<open>An attribute that is skipped: its name and its contents are read and dropped.\<close>

definition skip_attribute :: "unit reader" where
  "skip_attribute = rd_bind read_u2 (\<lambda>name. rd_bind read_u4 (\<lambda>len. rd_bind (read_bytes (unat len)) (\<lambda>skip. rd_return ())))"

definition skip_attributes :: "unit reader" where
  "skip_attributes = rd_bind read_u2 (\<lambda>count. rd_bind (rd_list (unat count) skip_attribute) (\<lambda>skip. rd_return ()))"

definition skip_field :: "unit reader" where
  "skip_field = rd_bind (rd_list 3 read_u2) (\<lambda>skip. skip_attributes)"

definition skip_handler :: "unit reader" where
  "skip_handler = rd_bind (rd_list 4 read_u2) (\<lambda>skip. rd_return ())"

definition read_code_attribute :: "method_info \<Rightarrow> method_info reader" where
  "read_code_attribute m =
     rd_bind read_u2 (\<lambda>ms. rd_bind read_u2 (\<lambda>ml. rd_bind read_u4 (\<lambda>code_length. rd_bind (read_bytes (unat code_length)) (\<lambda>code.
     rd_bind read_u2 (\<lambda>etl. rd_bind (rd_list (unat etl) skip_handler) (\<lambda>skip. rd_bind skip_attributes (\<lambda>skip.
       rd_return (m\<lparr>mi_max_stack := ms, mi_max_locals := ml, mi_code := code\<rparr>))))))))"

definition read_method_attribute :: "cp_entry list \<Rightarrow> method_info \<Rightarrow> method_info reader" where
  "read_method_attribute pool m =
     rd_bind read_u2 (\<lambda>name. rd_bind read_u4 (\<lambda>len.
       if cp_utf8 pool name = ''Code'' then read_code_attribute m
       else rd_bind (read_bytes (unat len)) (\<lambda>skip. rd_return m)))"

definition read_method :: "cp_entry list \<Rightarrow> method_info reader" where
  "read_method pool =
     rd_bind read_u2 (\<lambda>access. rd_bind read_u2 (\<lambda>name. rd_bind read_u2 (\<lambda>desc. rd_bind read_u2 (\<lambda>count.
       rd_fold (unat count) (read_method_attribute pool)
         (empty_method\<lparr>mi_access_flags := access, mi_name_index := name, mi_name := cp_utf8 pool name, mi_descriptor_index := desc,
           mi_descriptor := cp_utf8 pool desc\<rparr>)))))"

text \<open>The part before the constant pool: the versions and the count.\<close>

definition read_header :: "(u16 \<times> u16 \<times> u16) reader" where
  "read_header =
     rd_bind read_u4 (\<lambda>magic.
       if magic \<noteq> 0xCAFEBABE
       then (\<lambda>data pos. Inl (make_error BadInput
         (''ClassFile: bad magic number 0x'' @ show_hex True 8 (unat magic) @ '' (expected 0xCAFEBABE)'')))
       else rd_bind read_u2 (\<lambda>minor. rd_bind read_u2 (\<lambda>major. rd_bind read_u2 (\<lambda>cp_count. rd_return (minor, major, cp_count)))))"

definition read_body :: "(u32 \<Rightarrow> f64) \<Rightarrow> u16 \<times> u16 \<times> u16 \<Rightarrow> class_file reader" where
  "read_body widen h = (case h of (minor, major, cp_count) \<Rightarrow>
     rd_bind (read_pool widen cp_count 1 []) (\<lambda>pool.
     rd_bind read_u2 (\<lambda>access. rd_bind read_u2 (\<lambda>this. rd_bind read_u2 (\<lambda>super.
     rd_bind read_u2 (\<lambda>iface_count. rd_bind (rd_list (unat iface_count) read_u2) (\<lambda>ifaces.
     rd_bind read_u2 (\<lambda>field_count. rd_bind (rd_list (unat field_count) skip_field) (\<lambda>skip.
     rd_bind read_u2 (\<lambda>method_count. rd_bind (rd_list (unat method_count) (read_method pool)) (\<lambda>methods.
     rd_bind skip_attributes (\<lambda>skip.
       rd_return \<lparr>cf_minor_version = minor, cf_major_version = major, cf_constant_pool = pool, cf_access_flags = access,
         cf_this_class = this, cf_super_class = super, cf_interfaces = ifaces, cf_methods = methods,
         cf_class_name = cp_class_name pool this\<rparr>))))))))))))"

text \<open>With a count of zero the code reserves \<open>-1\<close> entries: \<^verbatim>\<open>reserve\<close> throws, which is \<^const>\<open>None\<close>.\<close>

definition parse_class_file :: "(u32 \<Rightarrow> f64) \<Rightarrow> u8 list \<Rightarrow> class_file result option" where
  "parse_class_file widen bytes = (case read_header bytes 0 of
       Inl e \<Rightarrow> Some (Inl e)
     | Inr ((minor, major, cp_count), pos) \<Rightarrow>
         if cp_count = 0 then None
         else Some (rbind (read_body widen (minor, major, cp_count) bytes pos) (\<lambda>(cf, pos). Inr cf)))"

end
