(* ===== verification/Class_File_Correct.thy ===== *)
theory Class_File_Correct
  imports Class_File Jvm_Decode
begin

text \<open>
  The class file format as an encoding: the parser returns the contents of every encoded class file, whatever
  follows it, and reads no byte past the end.
\<close>

section \<open>Readers and encodings\<close>

text \<open>The reader \<open>p\<close> finds the bytes \<open>bs\<close> at its position, returns \<open>x\<close> and stops after them.\<close>

definition parses :: "'a reader \<Rightarrow> u8 list \<Rightarrow> 'a \<Rightarrow> bool" where
  "parses p bs x \<longleftrightarrow> (\<forall>pre rest. p (pre @ bs @ rest) (length pre) = Inr (x, length pre + length bs))"

lemma parses_return: "parses (rd_return x) [] x"
  by (simp add: parses_def rd_return_def)

lemma parses_bind: "parses p bs x \<Longrightarrow> parses (f x) cs y \<Longrightarrow> parses (rd_bind p f) (bs @ cs) y"
  unfolding parses_def rd_bind_def by (metis (no_types, lifting) append.assoc case_prod_conv length_append rbind.simps(2) add.assoc)

lemma parses_last: "parses p bs x \<Longrightarrow> parses (rd_bind p (\<lambda>x. rd_return (g x))) bs (g x)"
  using parses_bind [of p bs x "\<lambda>x. rd_return (g x)" "[]" "g x"] by (simp add: parses_return)

lemma parses_u1: "parses read_u1 [b] b"
  by (simp add: parses_def read_u1_def nth_append)

lemma parses_u1_bind: "parses (f b) cs y \<Longrightarrow> parses (rd_bind read_u1 f) (b # cs) y"
  using parses_bind [OF parses_u1, of f b cs y] by simp

lemma parses_u2: "parses read_u2 (bytes16 v) v"
  using be16_bytes16 [of v] by (simp add: parses_def read_u2_def bytes16_def nth_append)

lemma parses_u4: "parses read_u4 (bytes32 v) v"
  using be32_bytes32 [of v] by (simp add: parses_def read_u4_def bytes32_def nth_append)

lemma parses_bytes: "n = length bs \<Longrightarrow> parses (read_bytes n) bs bs"
  by (simp add: parses_def read_bytes_def)

lemma parses_utf8: "unat len = length bs \<Longrightarrow> parses (read_utf8 len) bs (string_of_bytes bs)"
  by (simp add: parses_def read_utf8_def)

lemmas parses_basic = parses_u1 parses_u2 parses_u4 parses_bytes parses_utf8 parses_return

text \<open>A reader with an encoding of what it returns; the counted loops inherit the law.\<close>

locale codec =
  fixes enc :: "'a \<Rightarrow> u8 list" and rd :: "'b reader" and out :: "'a \<Rightarrow> 'b" and ok :: "'a \<Rightarrow> bool"
  assumes reads: "ok x \<Longrightarrow> parses rd (enc x) (out x)"
begin

lemma reads_list: "list_all ok xs \<Longrightarrow> parses (rd_list (length xs) rd) (concat (map enc xs)) (map out xs)"
  by (induction xs) (auto intro!: parses_return parses_bind parses_last reads)

lemma reads_counted:
  assumes "list_all ok xs" "length xs < 2 ^ 16" "parses (f (map out xs)) cs y"
  shows "parses (rd_bind read_u2 (\<lambda>n. rd_bind (rd_list (unat n) rd) f)) (bytes16 (of_nat (length xs)) @ concat (map enc xs) @ cs) y"
proof (rule parses_bind [OF parses_u2])
  have n: "unat (of_nat (length xs) :: u16) = length xs" using assms(2) by (simp add: unat_of_nat take_bit_nat_eq_self_iff)
  show "parses (rd_bind (rd_list (unat (of_nat (length xs) :: u16)) rd) f) (concat (map enc xs) @ cs) y"
    unfolding n by (rule parses_bind, rule reads_list [OF assms(1)], rule assms(3))
qed

end

interpretation u2_codec: codec bytes16 read_u2 "\<lambda>v. v" "\<lambda>v. True"
  by unfold_locales (rule parses_u2)

section \<open>Constants\<close>

datatype cp_const =
    K_Utf8 "u8 list"
  | K_Integer u32
  | K_Float u32
  | K_Long u64
  | K_Double u64
  | K_Index cp_tag u16
  | K_Pair cp_tag u16 u16
  | K_Handle u8 u16

definition bytes64 :: "u64 \<Rightarrow> u8 list" where
  "bytes64 v = bytes32 (ucast (drop_bit 32 v)) @ bytes32 (ucast v)"

fun encode_const :: "cp_const \<Rightarrow> u8 list" where
  "encode_const (K_Utf8 s) = [CP_Utf8] @ bytes16 (of_nat (length s)) @ s"
| "encode_const (K_Integer v) = [CP_Integer] @ bytes32 v"
| "encode_const (K_Float v) = [CP_Float] @ bytes32 v"
| "encode_const (K_Long v) = [CP_Long] @ bytes64 v"
| "encode_const (K_Double v) = [CP_Double] @ bytes64 v"
| "encode_const (K_Index tag i) = [tag] @ bytes16 i"
| "encode_const (K_Pair tag i j) = [tag] @ bytes16 i @ bytes16 j"
| "encode_const (K_Handle k i) = [CP_MethodHandle] @ [k] @ bytes16 i"

fun const_ok :: "cp_const \<Rightarrow> bool" where
  "const_ok (K_Utf8 s) = (length s < 2 ^ 16)"
| "const_ok (K_Index tag i) = (tag \<in> set [CP_Class, CP_String, CP_MethodType, CP_Module, CP_Package])"
| "const_ok (K_Pair tag i j) =
     (tag \<in> set [CP_Fieldref, CP_Methodref, CP_InterfaceMethodref, CP_NameAndType, CP_Dynamic, CP_InvokeDynamic])"
| "const_ok _ = True"

fun const_entry :: "(u32 \<Rightarrow> f64) \<Rightarrow> cp_const \<Rightarrow> cp_entry" where
  "const_entry widen (K_Utf8 s) = empty_entry\<lparr>ce_tag := CP_Utf8, ce_utf8 := string_of_bytes s\<rparr>"
| "const_entry widen (K_Integer v) = empty_entry\<lparr>ce_tag := CP_Integer, ce_i64 := scast v\<rparr>"
| "const_entry widen (K_Float v) = empty_entry\<lparr>ce_tag := CP_Float, ce_f64 := widen v\<rparr>"
| "const_entry widen (K_Long v) = empty_entry\<lparr>ce_tag := CP_Long, ce_i64 := v\<rparr>"
| "const_entry widen (K_Double v) = empty_entry\<lparr>ce_tag := CP_Double, ce_f64 := v\<rparr>"
| "const_entry widen (K_Index tag i) = empty_entry\<lparr>ce_tag := tag, ce_index1 := i\<rparr>"
| "const_entry widen (K_Pair tag i j) = empty_entry\<lparr>ce_tag := tag, ce_index1 := i, ce_index2 := j\<rparr>"
| "const_entry widen (K_Handle k i) = empty_entry\<lparr>ce_tag := CP_MethodHandle, ce_index1 := ucast k, ce_index2 := i\<rparr>"

text \<open>A long or a double takes two slots of the pool.\<close>

fun wide_const :: "cp_const \<Rightarrow> bool" where
  "wide_const (K_Long v) = True"
| "wide_const (K_Double v) = True"
| "wide_const _ = False"

definition const_slots :: "(u32 \<Rightarrow> f64) \<Rightarrow> cp_const \<Rightarrow> cp_entry list" where
  "const_slots widen k = const_entry widen k # (if wide_const k then [empty_entry] else [])"

definition pool_of :: "(u32 \<Rightarrow> f64) \<Rightarrow> cp_const list \<Rightarrow> cp_entry list" where
  "pool_of widen ks = concat (map (const_slots widen) ks)"

definition const_tag :: "cp_const \<Rightarrow> cp_tag" where
  "const_tag k = hd (encode_const k)"

lemma encode_const_tag: "encode_const k = [const_tag k] @ tl (encode_const k)"
  by (cases k) (simp_all add: const_tag_def)

lemma word64_halves: "or (push_bit 32 (ucast (ucast (drop_bit 32 v) :: u32))) (ucast (ucast v :: u32)) = (v :: u64)"
  by (rule bit_word_eqI) (auto simp: bit_or_iff bit_push_bit_iff bit_ucast_iff bit_drop_bit_eq)

lemma unat_of_length: "length xs < 2 ^ 16 \<Longrightarrow> unat (of_nat (length xs) :: u16) = length xs"
  "length xs < 2 ^ 32 \<Longrightarrow> unat (of_nat (length xs) :: u32) = length xs"
  by (simp_all add: unat_of_nat take_bit_nat_eq_self_iff)

lemma parses_two_words: "parses (rd_bind read_u4 (\<lambda>hi. rd_bind read_u4 (\<lambda>lo. rd_return (g (or (push_bit 32 (ucast hi)) (ucast lo)))))) (bytes64 v) (g v)"
  unfolding bytes64_def
  by (rule parses_bind [OF parses_u4])
    (use parses_last [OF parses_u4, of "\<lambda>lo. g (or (push_bit 32 (ucast (ucast (drop_bit 32 v) :: u32))) (ucast lo))" "ucast v"]
     in \<open>simp add: word64_halves\<close>)

lemma parses_entry:
  assumes "const_ok k"
  shows "parses (read_constant_pool_entry widen (const_tag k)) (tl (encode_const k)) (const_entry widen k)"
proof (cases k)
  case (K_Utf8 s)
  then show ?thesis using assms unat_of_length(1) [of s]
    by (auto simp: const_tag_def read_constant_pool_entry_def intro!: parses_bind parses_u2 parses_last parses_utf8)
next
  case (K_Long v)
  then show ?thesis using parses_two_words [of "\<lambda>b. empty_entry\<lparr>ce_tag := CP_Long, ce_i64 := b\<rparr>" v]
    by (simp add: const_tag_def read_constant_pool_entry_def Let_def)
next
  case (K_Double v)
  then show ?thesis using parses_two_words [of "\<lambda>b. empty_entry\<lparr>ce_tag := CP_Double, ce_f64 := b\<rparr>" v]
    by (simp add: const_tag_def read_constant_pool_entry_def Let_def)
next
  case (K_Index tag i)
  then show ?thesis using assms
    by (auto simp: const_tag_def read_constant_pool_entry_def Let_def intro!: parses_bind parses_basic parses_last)
next
  case (K_Pair tag i j)
  then show ?thesis using assms
    by (auto simp: const_tag_def read_constant_pool_entry_def Let_def intro!: parses_bind parses_basic parses_last)
qed (auto simp: const_tag_def read_constant_pool_entry_def Let_def intro!: parses_u1_bind parses_bind parses_basic parses_last)

lemma word_count_less: "unat (i :: u16) + n = unat c \<Longrightarrow> 0 < n \<Longrightarrow> i < c"
  by (simp add: word_less_nat_alt)

lemma word_count_next: "unat (i :: u16) + n = unat (c :: u16) \<Longrightarrow> m \<le> n \<Longrightarrow> unat (i + of_nat m) = unat i + m"
  using unsigned_less [of c, where ?'a = nat] by (subst unat_plus_if_size) (simp add: word_size unat_of_nat take_bit_nat_eq_self_iff)

lemma parses_pool:
  "list_all const_ok ks \<Longrightarrow> unat i + length (pool_of widen ks) = unat c \<Longrightarrow>
   parses (read_pool widen c i pool) (concat (map encode_const ks)) (pool @ pool_of widen ks)"
proof (induction ks arbitrary: i pool)
  case Nil
  then show ?case by (simp add: parses_def read_pool.simps [of widen c i] pool_of_def word_less_nat_alt)
next
  case (Cons k ks)
  let ?m = "length (const_slots widen k)"
  have m: "0 < ?m" "?m \<le> ?m + length (pool_of widen ks)" by (simp_all add: const_slots_def)
  have c: "unat i + (?m + length (pool_of widen ks)) = unat c" using Cons.prems(2) by (simp add: pool_of_def)
  have i: "i < c" "unat (i + of_nat ?m) = unat i + ?m"
    using word_count_less [OF c] word_count_next [OF c m(2)] m(1) by simp_all
  have rest: "parses (read_pool widen c (i + of_nat ?m) (pool @ const_slots widen k)) (concat (map encode_const ks)) (pool @ pool_of widen (k # ks))"
    using Cons.IH [of "i + of_nat ?m" "pool @ const_slots widen k"] Cons.prems(1) c i(2) by (simp add: pool_of_def)
  have step: "read_pool widen c i pool = rd_bind read_u1 (\<lambda>tag. rd_bind (read_constant_pool_entry widen tag) (\<lambda>e.
      if tag = CP_Long \<or> tag = CP_Double then read_pool widen c (i + 2) (pool @ [e, empty_entry]) else read_pool widen c (i + 1) (pool @ [e])))"
    using i(1) by (intro ext) (subst read_pool.simps, simp add: rd_bind_def split_beta if_distrib if_distribR cong: if_cong)
  have wide: "wide_const k \<longleftrightarrow> const_tag k = CP_Long \<or> const_tag k = CP_Double"
    using Cons.prems(1) by (cases k) (auto simp: const_tag_def)
  have k: "encode_const k @ bs = const_tag k # (tl (encode_const k) @ bs)" for bs
    using encode_const_tag [of k] by (metis append_Cons append_assoc append_Nil)
  have entry: "parses (read_constant_pool_entry widen (const_tag k)) (tl (encode_const k)) (const_entry widen k)"
    using Cons.prems(1) by (intro parses_entry) simp
  show ?case unfolding step list.map concat.simps k
    by (rule parses_u1_bind, rule parses_bind [OF entry]) (use rest wide in \<open>auto simp: const_slots_def split: if_splits\<close>)
qed

section \<open>Attributes, fields and methods\<close>

type_synonym attribute = "u16 \<times> u8 list"

definition encode_attribute :: "attribute \<Rightarrow> u8 list" where
  "encode_attribute a = bytes16 (fst a) @ bytes32 (of_nat (length (snd a))) @ snd a"

definition attribute_ok :: "attribute \<Rightarrow> bool" where
  "attribute_ok a \<longleftrightarrow> length (snd a) < 2 ^ 32"

definition encode_attributes :: "attribute list \<Rightarrow> u8 list" where
  "encode_attributes as = bytes16 (of_nat (length as)) @ concat (map encode_attribute as)"

definition attributes_ok :: "attribute list \<Rightarrow> bool" where
  "attributes_ok as \<longleftrightarrow> length as < 2 ^ 16 \<and> list_all attribute_ok as"

interpretation attribute_codec: codec encode_attribute skip_attribute "\<lambda>a. ()" attribute_ok
  by unfold_locales (auto simp: encode_attribute_def attribute_ok_def skip_attribute_def unat_of_length(2)
      intro!: parses_bind parses_u2 parses_u4 parses_last parses_bytes)

lemma parses_attributes: "attributes_ok as \<Longrightarrow> parses skip_attributes (encode_attributes as) ()"
  using attribute_codec.reads_counted [of as "\<lambda>skip. rd_return ()" "[]" "()"]
  by (simp add: skip_attributes_def encode_attributes_def attributes_ok_def parses_return)

type_synonym field_desc = "u16 \<times> u16 \<times> u16 \<times> attribute list"

fun encode_field :: "field_desc \<Rightarrow> u8 list" where
  "encode_field (access, name, desc, as) = concat (map bytes16 [access, name, desc]) @ encode_attributes as"

fun field_ok :: "field_desc \<Rightarrow> bool" where
  "field_ok (access, name, desc, as) = attributes_ok as"

lemma parses_three: "parses (rd_list 3 read_u2) (concat (map bytes16 [a, b, c])) [a, b, c]"
  using u2_codec.reads_list [of "[a, b, c]"] by (simp add: numeral_3_eq_3)

interpretation field_codec: codec encode_field skip_field "\<lambda>f. ()" field_ok
proof
  fix f assume "field_ok f"
  then show "parses skip_field (encode_field f) ()"
    by (cases f) (simp only: encode_field.simps field_ok.simps skip_field_def, intro parses_bind [OF parses_three] parses_attributes)
qed

type_synonym handler = "u16 \<times> u16 \<times> u16 \<times> u16"

fun encode_handler :: "handler \<Rightarrow> u8 list" where
  "encode_handler (a, b, c, d) = concat (map bytes16 [a, b, c, d])"

lemma parses_four: "parses (rd_list 4 read_u2) (concat (map bytes16 [a, b, c, d])) [a, b, c, d]"
  using u2_codec.reads_list [of "[a, b, c, d]"] by (simp add: eval_nat_numeral)

interpretation handler_codec: codec encode_handler skip_handler "\<lambda>h. ()" "\<lambda>h. True"
proof
  fix h :: handler
  show "parses skip_handler (encode_handler h) ()"
    by (cases h) (simp only: encode_handler.simps skip_handler_def, rule parses_last [OF parses_four])
qed

record code_desc =
  cd_max_stack :: u16
  cd_max_locals :: u16
  cd_code :: "u8 list"
  cd_handlers :: "handler list"
  cd_attributes :: "attribute list"

definition encode_code :: "code_desc \<Rightarrow> u8 list" where
  "encode_code c = bytes16 (cd_max_stack c) @ bytes16 (cd_max_locals c) @ bytes32 (of_nat (length (cd_code c))) @ cd_code c
     @ bytes16 (of_nat (length (cd_handlers c))) @ concat (map encode_handler (cd_handlers c)) @ encode_attributes (cd_attributes c)"

definition code_ok :: "code_desc \<Rightarrow> bool" where
  "code_ok c \<longleftrightarrow> length (cd_code c) < 2 ^ 32 \<and> length (cd_handlers c) < 2 ^ 16 \<and> attributes_ok (cd_attributes c)"

definition with_code :: "code_desc \<Rightarrow> method_info \<Rightarrow> method_info" where
  "with_code c m = m\<lparr>mi_max_stack := cd_max_stack c, mi_max_locals := cd_max_locals c, mi_code := cd_code c\<rparr>"

lemma parses_code:
  assumes "code_ok c"
  shows "parses (read_code_attribute m) (encode_code c) (with_code c m)"
proof -
  let ?fin = "\<lambda>skip. rd_bind skip_attributes (\<lambda>skip. rd_return (with_code c m))"
  have e: "parses (?fin skip) (encode_attributes (cd_attributes c)) (with_code c m)" for skip :: "unit list"
    using parses_last [OF parses_attributes, of "cd_attributes c" "\<lambda>_. with_code c m"] assms by (simp add: code_ok_def)
  have h: "parses (rd_bind read_u2 (\<lambda>n. rd_bind (rd_list (unat n) skip_handler) ?fin))
      (bytes16 (of_nat (length (cd_handlers c))) @ concat (map encode_handler (cd_handlers c)) @ encode_attributes (cd_attributes c)) (with_code c m)"
    using assms e by (intro handler_codec.reads_counted) (simp_all add: code_ok_def list_all_iff)
  have n: "unat (of_nat (length (cd_code c)) :: u32) = length (cd_code c)" using assms by (simp add: code_ok_def unat_of_length(2))
  show ?thesis unfolding read_code_attribute_def encode_code_def
    by (rule parses_bind [OF parses_u2], rule parses_bind [OF parses_u2], rule parses_bind [OF parses_u4], rule parses_bind [OF parses_bytes])
      (use n h in \<open>simp_all add: with_code_def\<close>)
qed

datatype method_attr = MA_Code u16 code_desc | MA_Other u16 "u8 list"

fun encode_method_attr :: "method_attr \<Rightarrow> u8 list" where
  "encode_method_attr (MA_Code name c) = bytes16 name @ bytes32 (of_nat (length (encode_code c))) @ encode_code c"
| "encode_method_attr (MA_Other name bs) = bytes16 name @ bytes32 (of_nat (length bs)) @ bs"

fun method_attr_ok :: "cp_entry list \<Rightarrow> method_attr \<Rightarrow> bool" where
  "method_attr_ok pool (MA_Code name c) = (cp_utf8 pool name = ''Code'' \<and> code_ok c)"
| "method_attr_ok pool (MA_Other name bs) = (cp_utf8 pool name \<noteq> ''Code'' \<and> length bs < 2 ^ 32)"

fun apply_attr :: "method_attr \<Rightarrow> method_info \<Rightarrow> method_info" where
  "apply_attr (MA_Code name c) m = with_code c m"
| "apply_attr (MA_Other name bs) m = m"

text \<open>The length field of a \<^verbatim>\<open>Code\<close> attribute is read and not used: any length is accepted.\<close>

lemma code_attribute_length_ignored:
  "cp_utf8 pool name = ''Code'' \<Longrightarrow> code_ok c \<Longrightarrow>
   parses (read_method_attribute pool m) (bytes16 name @ bytes32 len @ encode_code c) (with_code c m)"
  using parses_code [of c m] by (auto simp: read_method_attribute_def intro!: parses_bind parses_u2 parses_u4)

lemma parses_method_attr:
  assumes "method_attr_ok pool a"
  shows "parses (read_method_attribute pool m) (encode_method_attr a) (apply_attr a m)"
proof (cases a)
  case (MA_Code name c)
  then show ?thesis using assms code_attribute_length_ignored by simp
next
  case (MA_Other name bs)
  then show ?thesis using assms parses_last [OF parses_bytes [of _ bs], of "unat (of_nat (length bs) :: u32)" "\<lambda>_. m"]
    by (auto simp: read_method_attribute_def unat_of_length(2) intro!: parses_bind parses_u2 parses_u4)
qed

lemma parses_method_attrs:
  "list_all (method_attr_ok pool) as \<Longrightarrow>
   parses (rd_fold (length as) (read_method_attribute pool) m) (concat (map encode_method_attr as)) (fold apply_attr as m)"
  by (induction as arbitrary: m) (auto intro!: parses_return parses_bind parses_method_attr)

type_synonym method_desc = "u16 \<times> u16 \<times> u16 \<times> method_attr list"

fun encode_method :: "method_desc \<Rightarrow> u8 list" where
  "encode_method (access, name, desc, as) =
     bytes16 access @ bytes16 name @ bytes16 desc @ bytes16 (of_nat (length as)) @ concat (map encode_method_attr as)"

fun method_ok :: "cp_entry list \<Rightarrow> method_desc \<Rightarrow> bool" where
  "method_ok pool (access, name, desc, as) = (length as < 2 ^ 16 \<and> list_all (method_attr_ok pool) as)"

fun method_of :: "cp_entry list \<Rightarrow> method_desc \<Rightarrow> method_info" where
  "method_of pool (access, name, desc, as) =
     fold apply_attr as (empty_method\<lparr>mi_access_flags := access, mi_name_index := name, mi_name := cp_utf8 pool name,
       mi_descriptor_index := desc, mi_descriptor := cp_utf8 pool desc\<rparr>)"

interpretation method_codec: codec encode_method "read_method pool" "method_of pool" "method_ok pool" for pool
proof
  fix m assume ok: "method_ok pool m"
  obtain access name desc as where m: "m = (access, name, desc, as)" by (cases m) auto
  have n: "unat (of_nat (length as) :: u16) = length as" "list_all (method_attr_ok pool) as" using ok by (simp_all add: m unat_of_length(1))
  show "parses (read_method pool) (encode_method m) (method_of pool m)"
    unfolding m encode_method.simps method_of.simps read_method_def
    by (rule parses_bind [OF parses_u2], rule parses_bind [OF parses_u2], rule parses_bind [OF parses_u2], rule parses_bind [OF parses_u2])
      (simp only: n(1), rule parses_method_attrs [OF n(2)])
qed

section \<open>Class files\<close>

record class_desc =
  k_minor :: u16
  k_major :: u16
  k_constants :: "cp_const list"
  k_access :: u16
  k_this :: u16
  k_super :: u16
  k_interfaces :: "u16 list"
  k_fields :: "field_desc list"
  k_methods :: "method_desc list"
  k_attributes :: "attribute list"

definition pool_count :: "cp_const list \<Rightarrow> u16" where
  "pool_count ks = of_nat (1 + length (pool_of (\<lambda>v. 0) ks))"

definition encode_class :: "class_desc \<Rightarrow> u8 list" where
  "encode_class k = bytes32 0xCAFEBABE @ bytes16 (k_minor k) @ bytes16 (k_major k) @ bytes16 (pool_count (k_constants k))
     @ concat (map encode_const (k_constants k)) @ bytes16 (k_access k) @ bytes16 (k_this k) @ bytes16 (k_super k)
     @ bytes16 (of_nat (length (k_interfaces k))) @ concat (map bytes16 (k_interfaces k))
     @ bytes16 (of_nat (length (k_fields k))) @ concat (map encode_field (k_fields k))
     @ bytes16 (of_nat (length (k_methods k))) @ concat (map encode_method (k_methods k)) @ encode_attributes (k_attributes k)"

definition class_ok :: "(u32 \<Rightarrow> f64) \<Rightarrow> class_desc \<Rightarrow> bool" where
  "class_ok widen k \<longleftrightarrow> list_all const_ok (k_constants k) \<and> length (pool_of widen (k_constants k)) < 2 ^ 16 - 1
     \<and> length (k_interfaces k) < 2 ^ 16 \<and> length (k_fields k) < 2 ^ 16 \<and> list_all field_ok (k_fields k)
     \<and> length (k_methods k) < 2 ^ 16 \<and> list_all (method_ok (pool_of widen (k_constants k))) (k_methods k) \<and> attributes_ok (k_attributes k)"

definition class_of :: "(u32 \<Rightarrow> f64) \<Rightarrow> class_desc \<Rightarrow> class_file" where
  "class_of widen k = (let pool = pool_of widen (k_constants k) in
     \<lparr>cf_minor_version = k_minor k, cf_major_version = k_major k, cf_constant_pool = pool, cf_access_flags = k_access k,
      cf_this_class = k_this k, cf_super_class = k_super k, cf_interfaces = k_interfaces k,
      cf_methods = map (method_of pool) (k_methods k), cf_class_name = cp_class_name pool (k_this k)\<rparr>)"

lemma length_pool_of: "length (pool_of widen ks) = length (pool_of widen' ks)"
  by (induction ks) (simp_all add: pool_of_def const_slots_def)

lemma pool_count:
  assumes "length (pool_of widen ks) < 2 ^ 16 - 1"
  shows "unat (pool_count ks) = 1 + length (pool_of widen ks)"
  using assms length_pool_of [of widen ks "\<lambda>v. 0"] by (simp add: pool_count_def unat_of_nat take_bit_nat_eq_self_iff del: of_nat_add of_nat_Suc)

lemma parses_body:
  assumes "class_ok widen k"
  shows "parses (read_body widen (k_minor k, k_major k, pool_count (k_constants k)))
     (concat (map encode_const (k_constants k)) @ bytes16 (k_access k) @ bytes16 (k_this k) @ bytes16 (k_super k)
      @ bytes16 (of_nat (length (k_interfaces k))) @ concat (map bytes16 (k_interfaces k))
      @ bytes16 (of_nat (length (k_fields k))) @ concat (map encode_field (k_fields k))
      @ bytes16 (of_nat (length (k_methods k))) @ concat (map encode_method (k_methods k)) @ encode_attributes (k_attributes k))
     (class_of widen k)"
proof -
  let ?pool = "pool_of widen (k_constants k)"
  have ok: "list_all const_ok (k_constants k)" "length (k_interfaces k) < 2 ^ 16" "length (k_fields k) < 2 ^ 16"
    "list_all field_ok (k_fields k)" "length (k_methods k) < 2 ^ 16" "list_all (method_ok ?pool) (k_methods k)"
    "attributes_ok (k_attributes k)" "length ?pool < 2 ^ 16 - 1" using assms by (simp_all add: class_ok_def)
  have pool: "parses (read_pool widen (pool_count (k_constants k)) 1 []) (concat (map encode_const (k_constants k))) ?pool"
    using parses_pool [OF ok(1), of 1 widen "pool_count (k_constants k)" "[]"] pool_count [OF ok(8)] by simp
  have ifs: "list_all (\<lambda>v. True) (k_interfaces k)" by (simp add: list_all_iff)
  have atts: "parses (rd_bind skip_attributes (\<lambda>skip. rd_return (class_of widen k))) (encode_attributes (k_attributes k)) (class_of widen k)"
    by (rule parses_last [OF parses_attributes [OF ok(7)]])
  show ?thesis unfolding read_body_def prod.case
    by (rule parses_bind [OF pool], rule parses_bind [OF parses_u2], rule parses_bind [OF parses_u2], rule parses_bind [OF parses_u2],
        rule u2_codec.reads_counted [OF ifs ok(2)], rule field_codec.reads_counted [OF ok(4,3)],
        rule method_codec.reads_counted [OF ok(6,5)])
      (use atts in \<open>simp add: class_of_def Let_def\<close>)
qed

lemma parses_header: "parses read_header (bytes32 0xCAFEBABE @ bytes16 a @ bytes16 b @ bytes16 c) (a, b, c)"
  unfolding read_header_def
  by (rule parses_bind [OF parses_u4], simp, rule parses_bind [OF parses_u2], rule parses_bind [OF parses_u2], rule parses_last [OF parses_u2])

text \<open>The positions after the header and after the class file.\<close>

lemma parse_encoding:
  assumes "class_ok widen k"
  obtains pos where "read_header (encode_class k @ rest) 0 = Inr ((k_minor k, k_major k, pool_count (k_constants k)), pos)"
    "pool_count (k_constants k) \<noteq> 0"
    "read_body widen (k_minor k, k_major k, pool_count (k_constants k)) (encode_class k @ rest) pos = Inr (class_of widen k, length (encode_class k))"
proof -
  let ?h = "bytes32 0xCAFEBABE @ bytes16 (k_minor k) @ bytes16 (k_major k) @ bytes16 (pool_count (k_constants k))"
  obtain bs where k: "encode_class k = ?h @ bs" and
    body: "parses (read_body widen (k_minor k, k_major k, pool_count (k_constants k))) bs (class_of widen k)"
    using parses_body [OF assms] by (simp add: encode_class_def)
  have e: "encode_class k @ rest = [] @ ?h @ bs @ rest" "encode_class k @ rest = ?h @ bs @ rest" unfolding k by simp_all
  have "read_header (encode_class k @ rest) 0 = Inr ((k_minor k, k_major k, pool_count (k_constants k)), length ?h)"
    using parses_header [of "k_minor k" "k_major k" "pool_count (k_constants k)", unfolded parses_def, rule_format, of "[]" "bs @ rest"]
    unfolding e(1) by simp
  moreover have "read_body widen (k_minor k, k_major k, pool_count (k_constants k)) (encode_class k @ rest) (length ?h)
      = Inr (class_of widen k, length (encode_class k))"
    using body [unfolded parses_def, rule_format, of ?h rest] unfolding k by simp
  moreover have "pool_count (k_constants k) \<noteq> 0"
    using pool_count [of widen "k_constants k"] assms by (auto simp: class_ok_def)
  ultimately show thesis using that by blast
qed

text \<open>C25: the parser inverts the class file format: it returns the contents of every class file whose counts and lengths
  fit their fields, whatever bytes follow.\<close>

theorem parse_encoded_class:
  assumes "class_ok widen k"
  shows "parse_class_file widen (encode_class k @ rest) = Some (Inr (class_of widen k))"
  by (rule parse_encoding [OF assms, of rest]) (simp add: parse_class_file_def)

section \<open>Reading inside the buffer\<close>

text \<open>A reader that succeeds has read inside the buffer, so more bytes do not change its result; one that fails reports
  bad input.\<close>

definition local_reader :: "'a reader \<Rightarrow> bool" where
  "local_reader p \<longleftrightarrow> (\<forall>data pos. pos \<le> length data \<longrightarrow> (case p data pos of
      Inr (x, pos') \<Rightarrow> pos \<le> pos' \<and> pos' \<le> length data \<and> (\<forall>rest. p (data @ rest) pos = Inr (x, pos'))
    | Inl e \<Rightarrow> error_kind e = BadInput))"

named_theorems local_intros \<open>readers that stay inside the buffer\<close>

lemma local_readerD:
  assumes "local_reader p" "pos \<le> length data"
  shows "p data pos = Inr (x, pos') \<Longrightarrow> pos \<le> pos' \<and> pos' \<le> length data \<and> (\<forall>rest. p (data @ rest) pos = Inr (x, pos'))"
    and "p data pos = Inl e \<Longrightarrow> error_kind e = BadInput"
proof -
  note l = assms(1) [unfolded local_reader_def, rule_format, OF assms(2)]
  show "p data pos = Inr (x, pos') \<Longrightarrow> pos \<le> pos' \<and> pos' \<le> length data \<and> (\<forall>rest. p (data @ rest) pos = Inr (x, pos'))"
    "p data pos = Inl e \<Longrightarrow> error_kind e = BadInput" using l by simp_all
qed

lemma local_basic [local_intros]:
  "local_reader (rd_return x)" "local_reader read_u1" "local_reader read_u2" "local_reader read_u4"
  "local_reader (read_bytes n)" "local_reader (read_utf8 len)" "local_reader (\<lambda>data pos. Inl (make_error BadInput (m data pos)))"
  by (auto simp: local_reader_def rd_return_def read_u1_def read_u2_def read_u4_def read_bytes_def read_utf8_def nth_append
      unexpected_eof_def make_error_def)

lemma local_bind [local_intros]:
  assumes "local_reader p" "\<And>x. local_reader (f x)"
  shows "local_reader (rd_bind p f)"
  unfolding local_reader_def
proof (intro allI impI)
  fix data :: "u8 list" and pos assume pos: "pos \<le> length data"
  show "case rd_bind p f data pos of Inl e \<Rightarrow> error_kind e = BadInput
    | Inr (x, pos') \<Rightarrow> pos \<le> pos' \<and> pos' \<le> length data \<and> (\<forall>rest. rd_bind p f (data @ rest) pos = Inr (x, pos'))"
  proof (cases "p data pos")
    case (Inl e)
    then show ?thesis using local_readerD(2) [OF assms(1) pos] by (simp add: rd_bind_def)
  next
    case (Inr xp)
    then obtain x pos1 where x: "p data pos = Inr (x, pos1)" by (cases xp) auto
    note a = local_readerD(1) [OF assms(1) pos x]
    then have pos1: "pos1 \<le> length data" by simp
    show ?thesis
    proof (cases "f x data pos1")
      case (Inl e)
      then show ?thesis using local_readerD(2) [OF assms(2) pos1, of x] by (simp add: rd_bind_def x)
    next
      case (Inr yp)
      then obtain y pos2 where y: "f x data pos1 = Inr (y, pos2)" by (cases yp) auto
      note b = local_readerD(1) [OF assms(2) pos1 y]
      then show ?thesis using a by (simp add: rd_bind_def x y)
    qed
  qed
qed

lemma local_if [local_intros]: "(b \<Longrightarrow> local_reader p) \<Longrightarrow> (\<not> b \<Longrightarrow> local_reader q) \<Longrightarrow> local_reader (if b then p else q)"
  by simp

lemma local_list [local_intros]: "local_reader p \<Longrightarrow> local_reader (rd_list n p)"
  by (induction n) (auto intro!: local_intros)

lemma local_fold [local_intros]: "(\<And>s. local_reader (p s)) \<Longrightarrow> local_reader (rd_fold n p s)"
  by (induction n arbitrary: s) (auto intro!: local_intros)

lemma local_entry: "local_reader (read_constant_pool_entry widen tag)"
  unfolding read_constant_pool_entry_def Let_def by (intro local_intros)

lemma local_parts [local_intros]:
  "local_reader skip_attribute" "local_reader skip_attributes" "local_reader skip_field" "local_reader skip_handler"
  "local_reader (read_code_attribute m)" "local_reader (read_method_attribute pool m)" "local_reader (read_method pool)" "local_reader read_header"
  unfolding skip_attribute_def skip_attributes_def skip_field_def skip_handler_def read_code_attribute_def read_method_attribute_def
    read_method_def read_header_def
  by (intro local_intros)+

lemma local_pool:
  assumes "pos \<le> length data"
  shows "case read_pool widen c i pool data pos of
      Inr (x, pos') \<Rightarrow> pos \<le> pos' \<and> pos' \<le> length data \<and> (\<forall>rest. read_pool widen c i pool (data @ rest) pos = Inr (x, pos'))
    | Inl e \<Rightarrow> error_kind e = BadInput"
  using assms
proof (induction widen c i pool data pos rule: read_pool.induct)
  case (1 widen c i pool data pos)
  note step = read_pool.simps [of widen c i]
  show ?case
  proof (cases "i < c")
    case False
    then show ?thesis using 1(3) by (simp add: step)
  next
    case True
    let ?entry = "\<lambda>tag. rd_bind (read_constant_pool_entry widen tag) (\<lambda>e. rd_return (tag, e))"
    have l: "local_reader (rd_bind read_u1 ?entry)" by (intro local_intros local_entry)
    show ?thesis
    proof (cases "rd_bind read_u1 ?entry data pos")
      case (Inl e)
      then show ?thesis using local_readerD(2) [OF l 1(3) Inl] True
        by (cases "read_u1 data pos") (auto simp: step rd_bind_def rd_return_def elim!: rbind.elims)
    next
      case (Inr r)
      then obtain tag e pos2 where r: "rd_bind read_u1 ?entry data pos = Inr ((tag, e), pos2)" by (cases r) auto
      note inside = local_readerD(1) [OF l 1(3) r]
      obtain pos1 where p: "read_u1 data pos = Inr (tag, pos1)" "read_constant_pool_entry widen tag data pos1 = Inr (e, pos2)"
        using r by (auto simp: rd_bind_def rd_return_def rbind_Inr_iff)
      have more: "\<exists>pos1. read_u1 (data @ rest) pos = Inr (tag, pos1) \<and> read_constant_pool_entry widen tag (data @ rest) pos1 = Inr (e, pos2)" for rest
        using inside by (auto simp: rd_bind_def rd_return_def rbind_Inr_iff dest!: spec [of _ rest])
      let ?next = "\<lambda>d. if tag = CP_Long \<or> tag = CP_Double then read_pool widen c (i + 2) (pool @ [e, empty_entry]) d pos2
         else read_pool widen c (i + 1) (pool @ [e]) d pos2"
      have unfold: "read_pool widen c i pool data pos = ?next data" "read_pool widen c i pool (data @ rest) pos = ?next (data @ rest)" for rest
        using True p more [of rest] by (auto simp: step)
      have "case ?next data of
          Inr (x, pos') \<Rightarrow> pos2 \<le> pos' \<and> pos' \<le> length data \<and> (\<forall>rest. ?next (data @ rest) = Inr (x, pos'))
        | Inl e \<Rightarrow> error_kind e = BadInput"
      proof (cases "tag = CP_Long \<or> tag = CP_Double")
        case True
        show ?thesis unfolding if_P [OF True] by (rule 1(1) [OF \<open>i < c\<close> p(1) refl p(2) refl True]) (use inside in simp)
      next
        case False
        show ?thesis unfolding if_not_P [OF False] by (rule 1(2) [OF \<open>i < c\<close> p(1) refl p(2) refl False]) (use inside in simp)
      qed
      then show ?thesis using inside unfolding unfold by (fastforce split: sum.splits)
    qed
  qed
qed

lemma local_read_pool [local_intros]: "local_reader (read_pool widen c i pool)"
  unfolding local_reader_def using local_pool by blast

lemma local_body: "local_reader (read_body widen h)"
  unfolding read_body_def by (cases h) (simp only: prod.case, intro local_intros)

text \<open>C26: a class file cut short anywhere is rejected as bad input: the parser neither reads past the end nor accepts a part
  of a class.\<close>

theorem truncated_class_rejected:
  assumes "class_ok widen k" "n < length (encode_class k)"
  shows "\<exists>e. parse_class_file widen (take n (encode_class k)) = Some (Inl e) \<and> error_kind e = BadInput"
proof -
  let ?bs = "take n (encode_class k)" and ?rest = "drop n (encode_class k)"
  obtain pos where full: "read_header (?bs @ ?rest) 0 = Inr ((k_minor k, k_major k, pool_count (k_constants k)), pos)"
    "pool_count (k_constants k) \<noteq> 0"
    "read_body widen (k_minor k, k_major k, pool_count (k_constants k)) (?bs @ ?rest) pos = Inr (class_of widen k, length (encode_class k))"
    using parse_encoding [OF assms(1), of "[]"] by auto
  have h: "local_reader read_header" by (intro local_intros)
  show ?thesis
  proof (cases "read_header ?bs 0")
    case (Inl e)
    then show ?thesis using local_readerD(2) [OF h _ Inl] by (simp add: parse_class_file_def)
  next
    case (Inr r)
    then obtain hd pos1 where r: "read_header ?bs 0 = Inr (hd, pos1)" by (cases r) auto
    note l = local_readerD(1) [OF h _ r]
    then have hd: "hd = (k_minor k, k_major k, pool_count (k_constants k))" "pos1 = pos" "pos \<le> length ?bs"
      using full(1) by (auto dest!: spec [of _ ?rest])
    show ?thesis
    proof (cases "read_body widen hd ?bs pos")
      case (Inl e)
      then show ?thesis using local_readerD(2) [OF local_body hd(3) Inl] r full(2) by (simp add: parse_class_file_def hd)
    next
      case (Inr b)
      then obtain cf pos2 where b: "read_body widen hd ?bs pos = Inr (cf, pos2)" by (cases b) auto
      have "pos2 \<le> length ?bs" "read_body widen hd (?bs @ ?rest) pos = Inr (cf, pos2)"
        using local_readerD(1) [OF local_body hd(3) b] by blast+
      then show ?thesis using full(3) assms(2) hd(1) by simp
    qed
  qed
qed

section \<open>A class file with a count of zero\<close>

lemma zero_pool_count_throws: "parse_class_file widen (bytes32 0xCAFEBABE @ bytes16 a @ bytes16 b @ bytes16 0 @ rest) = None"
  using parses_header [of a b 0, unfolded parses_def, rule_format, of "[]" rest] by (simp add: parse_class_file_def)

section \<open>An example\<close>

definition bytes_of_string :: "string \<Rightarrow> u8 list" where
  "bytes_of_string s = map (\<lambda>c. of_nat (of_char c)) s"

text \<open>A class with a long constant, a skipped field and a method \<^verbatim>\<open>main\<close> that returns.\<close>

definition demo_class :: class_desc where
  "demo_class = \<lparr>k_minor = 0, k_major = 52,
     k_constants = [K_Utf8 (bytes_of_string ''Code''), K_Long 5, K_Utf8 (bytes_of_string ''main''), K_Index CP_Class 4],
     k_access = 1, k_this = 5, k_super = 0, k_interfaces = [5], k_fields = [(0, 4, 4, [(4, [7])])],
     k_methods = [(9, 4, 4, [MA_Code 1 \<lparr>cd_max_stack = 1, cd_max_locals = 1, cd_code = [177], cd_handlers = [(0, 1, 0, 0)],
       cd_attributes = []\<rparr>, MA_Other 4 [1, 2]])],
     k_attributes = []\<rparr>"

lemma demo_names: "cp_utf8 (pool_of (\<lambda>v. 0) (k_constants demo_class)) 1 = ''Code''" "cp_utf8 (pool_of (\<lambda>v. 0) (k_constants demo_class)) 4 = ''main''"
  "length (pool_of (\<lambda>v. 0) (k_constants demo_class)) = 5" "list_all const_ok [K_Long 5, K_Index CP_Class 4]"
  by code_simp+

lemma demo_class_ok: "class_ok (\<lambda>v. 0) demo_class"
  using demo_names by (simp add: class_ok_def demo_class_def attributes_ok_def attribute_ok_def code_ok_def bytes_of_string_def)

theorem parse_encoded_class_witness:
  "parse_class_file (\<lambda>v. 0) (encode_class demo_class @ [0]) = Some (Inr (class_of (\<lambda>v. 0) demo_class))
   \<and> map_option mi_code (find_main (class_of (\<lambda>v. 0) demo_class)) = Some [177] \<and> cf_class_name (class_of (\<lambda>v. 0) demo_class) = ''main''"
  by (intro conjI parse_encoded_class demo_class_ok; code_simp)

theorem truncated_class_rejected_witness:
  "\<exists>e. parse_class_file (\<lambda>v. 0) (take 40 (encode_class demo_class)) = Some (Inl e) \<and> error_kind e = BadInput"
  by (rule truncated_class_rejected [OF demo_class_ok]; code_simp)

end
