(* ===== verification/Cil_Opcode.thy ===== *)
theory Cil_Opcode
  imports Jvm_Opcode
begin

text \<open>
  \<^verbatim>\<open>cil/Opcode.hpp\<close> and \<^verbatim>\<open>cil/Opcode.cpp\<close>: the opcodes of the Common Intermediate Language, the two tables of
  their properties and the decoder of one instruction.

  Opcodes are 16-bit words, one abbreviation per enumerator (prefix \<open>IL_\<close>); the decoder casts any byte to one.
  The operands that are floating-point numbers are kept as their bits. \<^verbatim>\<open>memcpy\<close> of a word is little-endian, as on
  the x86-64 hosts the compiler targets, and as the file format wants it.
\<close>

section \<open>The enumeration\<close>

type_synonym cil_opcode = u16

abbreviation IL_Nop :: cil_opcode where "IL_Nop \<equiv> 0"
abbreviation IL_Break :: cil_opcode where "IL_Break \<equiv> 1"
abbreviation IL_LdArg_0 :: cil_opcode where "IL_LdArg_0 \<equiv> 2"
abbreviation IL_LdArg_1 :: cil_opcode where "IL_LdArg_1 \<equiv> 3"
abbreviation IL_LdArg_2 :: cil_opcode where "IL_LdArg_2 \<equiv> 4"
abbreviation IL_LdArg_3 :: cil_opcode where "IL_LdArg_3 \<equiv> 5"
abbreviation IL_LdLoc_0 :: cil_opcode where "IL_LdLoc_0 \<equiv> 6"
abbreviation IL_LdLoc_1 :: cil_opcode where "IL_LdLoc_1 \<equiv> 7"
abbreviation IL_LdLoc_2 :: cil_opcode where "IL_LdLoc_2 \<equiv> 8"
abbreviation IL_LdLoc_3 :: cil_opcode where "IL_LdLoc_3 \<equiv> 9"
abbreviation IL_StLoc_0 :: cil_opcode where "IL_StLoc_0 \<equiv> 0xa"
abbreviation IL_StLoc_1 :: cil_opcode where "IL_StLoc_1 \<equiv> 0xb"
abbreviation IL_StLoc_2 :: cil_opcode where "IL_StLoc_2 \<equiv> 0xc"
abbreviation IL_StLoc_3 :: cil_opcode where "IL_StLoc_3 \<equiv> 0xd"
abbreviation IL_LdArg_S :: cil_opcode where "IL_LdArg_S \<equiv> 0xe"
abbreviation IL_LdArga_S :: cil_opcode where "IL_LdArga_S \<equiv> 0xf"
abbreviation IL_StArg_S :: cil_opcode where "IL_StArg_S \<equiv> 0x10"
abbreviation IL_LdLoc_S :: cil_opcode where "IL_LdLoc_S \<equiv> 0x11"
abbreviation IL_LdLoca_S :: cil_opcode where "IL_LdLoca_S \<equiv> 0x12"
abbreviation IL_StLoc_S :: cil_opcode where "IL_StLoc_S \<equiv> 0x13"
abbreviation IL_LdNull :: cil_opcode where "IL_LdNull \<equiv> 0x14"
abbreviation IL_LdI4_M1 :: cil_opcode where "IL_LdI4_M1 \<equiv> 0x15"
abbreviation IL_LdI4_0 :: cil_opcode where "IL_LdI4_0 \<equiv> 0x16"
abbreviation IL_LdI4_1 :: cil_opcode where "IL_LdI4_1 \<equiv> 0x17"
abbreviation IL_LdI4_2 :: cil_opcode where "IL_LdI4_2 \<equiv> 0x18"
abbreviation IL_LdI4_3 :: cil_opcode where "IL_LdI4_3 \<equiv> 0x19"
abbreviation IL_LdI4_4 :: cil_opcode where "IL_LdI4_4 \<equiv> 0x1a"
abbreviation IL_LdI4_5 :: cil_opcode where "IL_LdI4_5 \<equiv> 0x1b"
abbreviation IL_LdI4_6 :: cil_opcode where "IL_LdI4_6 \<equiv> 0x1c"
abbreviation IL_LdI4_7 :: cil_opcode where "IL_LdI4_7 \<equiv> 0x1d"
abbreviation IL_LdI4_8 :: cil_opcode where "IL_LdI4_8 \<equiv> 0x1e"
abbreviation IL_LdI4_S :: cil_opcode where "IL_LdI4_S \<equiv> 0x1f"
abbreviation IL_LdI4 :: cil_opcode where "IL_LdI4 \<equiv> 0x20"
abbreviation IL_LdI8 :: cil_opcode where "IL_LdI8 \<equiv> 0x21"
abbreviation IL_LdR4 :: cil_opcode where "IL_LdR4 \<equiv> 0x22"
abbreviation IL_LdR8 :: cil_opcode where "IL_LdR8 \<equiv> 0x23"
abbreviation IL_LdStr :: cil_opcode where "IL_LdStr \<equiv> 0x72"
abbreviation IL_Dup :: cil_opcode where "IL_Dup \<equiv> 0x25"
abbreviation IL_Pop :: cil_opcode where "IL_Pop \<equiv> 0x26"
abbreviation IL_Jmp :: cil_opcode where "IL_Jmp \<equiv> 0x27"
abbreviation IL_Call :: cil_opcode where "IL_Call \<equiv> 0x28"
abbreviation IL_Calli :: cil_opcode where "IL_Calli \<equiv> 0x29"
abbreviation IL_Ret :: cil_opcode where "IL_Ret \<equiv> 0x2a"
abbreviation IL_Br_S :: cil_opcode where "IL_Br_S \<equiv> 0x2b"
abbreviation IL_Brfalse_S :: cil_opcode where "IL_Brfalse_S \<equiv> 0x2c"
abbreviation IL_Brtrue_S :: cil_opcode where "IL_Brtrue_S \<equiv> 0x2d"
abbreviation IL_Beq_S :: cil_opcode where "IL_Beq_S \<equiv> 0x2e"
abbreviation IL_Bge_S :: cil_opcode where "IL_Bge_S \<equiv> 0x2f"
abbreviation IL_Bgt_S :: cil_opcode where "IL_Bgt_S \<equiv> 0x30"
abbreviation IL_Ble_S :: cil_opcode where "IL_Ble_S \<equiv> 0x31"
abbreviation IL_Blt_S :: cil_opcode where "IL_Blt_S \<equiv> 0x32"
abbreviation IL_Bne_Un_S :: cil_opcode where "IL_Bne_Un_S \<equiv> 0x33"
abbreviation IL_Bge_Un_S :: cil_opcode where "IL_Bge_Un_S \<equiv> 0x34"
abbreviation IL_Bgt_Un_S :: cil_opcode where "IL_Bgt_Un_S \<equiv> 0x35"
abbreviation IL_Ble_Un_S :: cil_opcode where "IL_Ble_Un_S \<equiv> 0x36"
abbreviation IL_Blt_Un_S :: cil_opcode where "IL_Blt_Un_S \<equiv> 0x37"
abbreviation IL_Br :: cil_opcode where "IL_Br \<equiv> 0x38"
abbreviation IL_Brfalse :: cil_opcode where "IL_Brfalse \<equiv> 0x39"
abbreviation IL_Brtrue :: cil_opcode where "IL_Brtrue \<equiv> 0x3a"
abbreviation IL_Beq :: cil_opcode where "IL_Beq \<equiv> 0x3b"
abbreviation IL_Bge :: cil_opcode where "IL_Bge \<equiv> 0x3c"
abbreviation IL_Bgt :: cil_opcode where "IL_Bgt \<equiv> 0x3d"
abbreviation IL_Ble :: cil_opcode where "IL_Ble \<equiv> 0x3e"
abbreviation IL_Blt :: cil_opcode where "IL_Blt \<equiv> 0x3f"
abbreviation IL_Bne_Un :: cil_opcode where "IL_Bne_Un \<equiv> 0x40"
abbreviation IL_Bge_Un :: cil_opcode where "IL_Bge_Un \<equiv> 0x41"
abbreviation IL_Bgt_Un :: cil_opcode where "IL_Bgt_Un \<equiv> 0x42"
abbreviation IL_Ble_Un :: cil_opcode where "IL_Ble_Un \<equiv> 0x43"
abbreviation IL_Blt_Un :: cil_opcode where "IL_Blt_Un \<equiv> 0x44"
abbreviation IL_Switch :: cil_opcode where "IL_Switch \<equiv> 0x45"
abbreviation IL_LdInd_I1 :: cil_opcode where "IL_LdInd_I1 \<equiv> 0x46"
abbreviation IL_LdInd_U1 :: cil_opcode where "IL_LdInd_U1 \<equiv> 0x47"
abbreviation IL_LdInd_I2 :: cil_opcode where "IL_LdInd_I2 \<equiv> 0x48"
abbreviation IL_LdInd_U2 :: cil_opcode where "IL_LdInd_U2 \<equiv> 0x49"
abbreviation IL_LdInd_I4 :: cil_opcode where "IL_LdInd_I4 \<equiv> 0x4a"
abbreviation IL_LdInd_U4 :: cil_opcode where "IL_LdInd_U4 \<equiv> 0x4b"
abbreviation IL_LdInd_I8 :: cil_opcode where "IL_LdInd_I8 \<equiv> 0x4c"
abbreviation IL_LdInd_I :: cil_opcode where "IL_LdInd_I \<equiv> 0x4d"
abbreviation IL_LdInd_R4 :: cil_opcode where "IL_LdInd_R4 \<equiv> 0x4e"
abbreviation IL_LdInd_R8 :: cil_opcode where "IL_LdInd_R8 \<equiv> 0x4f"
abbreviation IL_LdInd_Ref :: cil_opcode where "IL_LdInd_Ref \<equiv> 0x50"
abbreviation IL_StInd_Ref :: cil_opcode where "IL_StInd_Ref \<equiv> 0x51"
abbreviation IL_StInd_I1 :: cil_opcode where "IL_StInd_I1 \<equiv> 0x52"
abbreviation IL_StInd_I2 :: cil_opcode where "IL_StInd_I2 \<equiv> 0x53"
abbreviation IL_StInd_I4 :: cil_opcode where "IL_StInd_I4 \<equiv> 0x54"
abbreviation IL_StInd_I8 :: cil_opcode where "IL_StInd_I8 \<equiv> 0x55"
abbreviation IL_StInd_R4 :: cil_opcode where "IL_StInd_R4 \<equiv> 0x56"
abbreviation IL_StInd_R8 :: cil_opcode where "IL_StInd_R8 \<equiv> 0x57"
abbreviation IL_Add :: cil_opcode where "IL_Add \<equiv> 0x58"
abbreviation IL_Sub :: cil_opcode where "IL_Sub \<equiv> 0x59"
abbreviation IL_Mul :: cil_opcode where "IL_Mul \<equiv> 0x5a"
abbreviation IL_Div :: cil_opcode where "IL_Div \<equiv> 0x5b"
abbreviation IL_Div_Un :: cil_opcode where "IL_Div_Un \<equiv> 0x5c"
abbreviation IL_Rem :: cil_opcode where "IL_Rem \<equiv> 0x5d"
abbreviation IL_Rem_Un :: cil_opcode where "IL_Rem_Un \<equiv> 0x5e"
abbreviation IL_And :: cil_opcode where "IL_And \<equiv> 0x5f"
abbreviation IL_Or :: cil_opcode where "IL_Or \<equiv> 0x60"
abbreviation IL_Xor :: cil_opcode where "IL_Xor \<equiv> 0x61"
abbreviation IL_Shl :: cil_opcode where "IL_Shl \<equiv> 0x62"
abbreviation IL_Shr :: cil_opcode where "IL_Shr \<equiv> 0x63"
abbreviation IL_Shr_Un :: cil_opcode where "IL_Shr_Un \<equiv> 0x64"
abbreviation IL_Neg :: cil_opcode where "IL_Neg \<equiv> 0x65"
abbreviation IL_Not :: cil_opcode where "IL_Not \<equiv> 0x66"
abbreviation IL_Conv_I1 :: cil_opcode where "IL_Conv_I1 \<equiv> 0x67"
abbreviation IL_Conv_I2 :: cil_opcode where "IL_Conv_I2 \<equiv> 0x68"
abbreviation IL_Conv_I4 :: cil_opcode where "IL_Conv_I4 \<equiv> 0x69"
abbreviation IL_Conv_I8 :: cil_opcode where "IL_Conv_I8 \<equiv> 0x6a"
abbreviation IL_Conv_R4 :: cil_opcode where "IL_Conv_R4 \<equiv> 0x6b"
abbreviation IL_Conv_R8 :: cil_opcode where "IL_Conv_R8 \<equiv> 0x6c"
abbreviation IL_Conv_U4 :: cil_opcode where "IL_Conv_U4 \<equiv> 0x6d"
abbreviation IL_Conv_U8 :: cil_opcode where "IL_Conv_U8 \<equiv> 0x6e"
abbreviation IL_Conv_I :: cil_opcode where "IL_Conv_I \<equiv> 0xd1"
abbreviation IL_Conv_U :: cil_opcode where "IL_Conv_U \<equiv> 0xd2"
abbreviation IL_CallVirt :: cil_opcode where "IL_CallVirt \<equiv> 0x6f"
abbreviation IL_LdObj :: cil_opcode where "IL_LdObj \<equiv> 0x71"
abbreviation IL_LdStr2 :: cil_opcode where "IL_LdStr2 \<equiv> 0x72"
abbreviation IL_NewObj :: cil_opcode where "IL_NewObj \<equiv> 0x73"
abbreviation IL_CastClass :: cil_opcode where "IL_CastClass \<equiv> 0x74"
abbreviation IL_IsInst :: cil_opcode where "IL_IsInst \<equiv> 0x75"
abbreviation IL_Conv_R_Un :: cil_opcode where "IL_Conv_R_Un \<equiv> 0x76"
abbreviation IL_Unbox :: cil_opcode where "IL_Unbox \<equiv> 0x79"
abbreviation IL_Throw :: cil_opcode where "IL_Throw \<equiv> 0x7a"
abbreviation IL_LdFld :: cil_opcode where "IL_LdFld \<equiv> 0x7b"
abbreviation IL_LdFlda :: cil_opcode where "IL_LdFlda \<equiv> 0x7c"
abbreviation IL_StFld :: cil_opcode where "IL_StFld \<equiv> 0x7d"
abbreviation IL_LdsFld :: cil_opcode where "IL_LdsFld \<equiv> 0x7e"
abbreviation IL_LdsFlda :: cil_opcode where "IL_LdsFlda \<equiv> 0x7f"
abbreviation IL_StsFld :: cil_opcode where "IL_StsFld \<equiv> 0x80"
abbreviation IL_StObj :: cil_opcode where "IL_StObj \<equiv> 0x81"
abbreviation IL_Conv_Ovf_I1_Un :: cil_opcode where "IL_Conv_Ovf_I1_Un \<equiv> 0x82"
abbreviation IL_Conv_Ovf_I2_Un :: cil_opcode where "IL_Conv_Ovf_I2_Un \<equiv> 0x83"
abbreviation IL_Conv_Ovf_I4_Un :: cil_opcode where "IL_Conv_Ovf_I4_Un \<equiv> 0x84"
abbreviation IL_Conv_Ovf_I8_Un :: cil_opcode where "IL_Conv_Ovf_I8_Un \<equiv> 0x85"
abbreviation IL_Conv_Ovf_U1_Un :: cil_opcode where "IL_Conv_Ovf_U1_Un \<equiv> 0x86"
abbreviation IL_Conv_Ovf_U2_Un :: cil_opcode where "IL_Conv_Ovf_U2_Un \<equiv> 0x87"
abbreviation IL_Conv_Ovf_U4_Un :: cil_opcode where "IL_Conv_Ovf_U4_Un \<equiv> 0x88"
abbreviation IL_Conv_Ovf_U8_Un :: cil_opcode where "IL_Conv_Ovf_U8_Un \<equiv> 0x89"
abbreviation IL_Conv_Ovf_I1 :: cil_opcode where "IL_Conv_Ovf_I1 \<equiv> 0xb3"
abbreviation IL_Conv_Ovf_I2 :: cil_opcode where "IL_Conv_Ovf_I2 \<equiv> 0xb4"
abbreviation IL_Conv_Ovf_I4 :: cil_opcode where "IL_Conv_Ovf_I4 \<equiv> 0xb5"
abbreviation IL_Conv_Ovf_I8 :: cil_opcode where "IL_Conv_Ovf_I8 \<equiv> 0xb6"
abbreviation IL_Conv_Ovf_U1 :: cil_opcode where "IL_Conv_Ovf_U1 \<equiv> 0xb7"
abbreviation IL_Conv_Ovf_U2 :: cil_opcode where "IL_Conv_Ovf_U2 \<equiv> 0xb8"
abbreviation IL_Conv_Ovf_U4 :: cil_opcode where "IL_Conv_Ovf_U4 \<equiv> 0xb9"
abbreviation IL_Conv_Ovf_U8 :: cil_opcode where "IL_Conv_Ovf_U8 \<equiv> 0xba"
abbreviation IL_Box :: cil_opcode where "IL_Box \<equiv> 0x8c"
abbreviation IL_NewArr :: cil_opcode where "IL_NewArr \<equiv> 0x8d"
abbreviation IL_LdLen :: cil_opcode where "IL_LdLen \<equiv> 0x8e"
abbreviation IL_LdElema :: cil_opcode where "IL_LdElema \<equiv> 0x8f"
abbreviation IL_LdElem_I1 :: cil_opcode where "IL_LdElem_I1 \<equiv> 0x90"
abbreviation IL_LdElem_U1 :: cil_opcode where "IL_LdElem_U1 \<equiv> 0x91"
abbreviation IL_LdElem_I2 :: cil_opcode where "IL_LdElem_I2 \<equiv> 0x92"
abbreviation IL_LdElem_U2 :: cil_opcode where "IL_LdElem_U2 \<equiv> 0x93"
abbreviation IL_LdElem_I4 :: cil_opcode where "IL_LdElem_I4 \<equiv> 0x94"
abbreviation IL_LdElem_U4 :: cil_opcode where "IL_LdElem_U4 \<equiv> 0x95"
abbreviation IL_LdElem_I8 :: cil_opcode where "IL_LdElem_I8 \<equiv> 0x96"
abbreviation IL_LdElem_I :: cil_opcode where "IL_LdElem_I \<equiv> 0x97"
abbreviation IL_LdElem_R4 :: cil_opcode where "IL_LdElem_R4 \<equiv> 0x98"
abbreviation IL_LdElem_R8 :: cil_opcode where "IL_LdElem_R8 \<equiv> 0x99"
abbreviation IL_LdElem_Ref :: cil_opcode where "IL_LdElem_Ref \<equiv> 0x9a"
abbreviation IL_StElem_I1 :: cil_opcode where "IL_StElem_I1 \<equiv> 0x9b"
abbreviation IL_StElem_I2 :: cil_opcode where "IL_StElem_I2 \<equiv> 0x9c"
abbreviation IL_StElem_I4 :: cil_opcode where "IL_StElem_I4 \<equiv> 0x9d"
abbreviation IL_StElem_I8 :: cil_opcode where "IL_StElem_I8 \<equiv> 0x9e"
abbreviation IL_StElem_R4 :: cil_opcode where "IL_StElem_R4 \<equiv> 0x9f"
abbreviation IL_StElem_R8 :: cil_opcode where "IL_StElem_R8 \<equiv> 0xa0"
abbreviation IL_StElem_Ref :: cil_opcode where "IL_StElem_Ref \<equiv> 0xa2"
abbreviation IL_LdElem :: cil_opcode where "IL_LdElem \<equiv> 0xa3"
abbreviation IL_StElem :: cil_opcode where "IL_StElem \<equiv> 0xa4"
abbreviation IL_UnboxAny :: cil_opcode where "IL_UnboxAny \<equiv> 0xa5"
abbreviation IL_Conv_Ovf_I :: cil_opcode where "IL_Conv_Ovf_I \<equiv> 0xd3"
abbreviation IL_Conv_Ovf_U :: cil_opcode where "IL_Conv_Ovf_U \<equiv> 0xd4"
abbreviation IL_Argiterator :: cil_opcode where "IL_Argiterator \<equiv> 0x100"
abbreviation IL_Ceq :: cil_opcode where "IL_Ceq \<equiv> 0x101"
abbreviation IL_Cgt :: cil_opcode where "IL_Cgt \<equiv> 0x102"
abbreviation IL_Cgt_Un :: cil_opcode where "IL_Cgt_Un \<equiv> 0x103"
abbreviation IL_Clt :: cil_opcode where "IL_Clt \<equiv> 0x104"
abbreviation IL_Clt_Un :: cil_opcode where "IL_Clt_Un \<equiv> 0x105"
abbreviation IL_LdFtn :: cil_opcode where "IL_LdFtn \<equiv> 0x106"
abbreviation IL_LdVirtFtn :: cil_opcode where "IL_LdVirtFtn \<equiv> 0x107"
abbreviation IL_LdArg :: cil_opcode where "IL_LdArg \<equiv> 0x109"
abbreviation IL_LdArga :: cil_opcode where "IL_LdArga \<equiv> 0x10a"
abbreviation IL_StArg :: cil_opcode where "IL_StArg \<equiv> 0x10b"
abbreviation IL_LdLoc :: cil_opcode where "IL_LdLoc \<equiv> 0x10c"
abbreviation IL_LdLoca :: cil_opcode where "IL_LdLoca \<equiv> 0x10d"
abbreviation IL_StLoc :: cil_opcode where "IL_StLoc \<equiv> 0x10e"
abbreviation IL_LocalLoc :: cil_opcode where "IL_LocalLoc \<equiv> 0x10f"
abbreviation IL_EndFilter :: cil_opcode where "IL_EndFilter \<equiv> 0x111"
abbreviation IL_Unaligned :: cil_opcode where "IL_Unaligned \<equiv> 0x112"
abbreviation IL_Volatile :: cil_opcode where "IL_Volatile \<equiv> 0x113"
abbreviation IL_Tail :: cil_opcode where "IL_Tail \<equiv> 0x114"
abbreviation IL_InitObj :: cil_opcode where "IL_InitObj \<equiv> 0x115"
abbreviation IL_Constrained :: cil_opcode where "IL_Constrained \<equiv> 0x116"
abbreviation IL_CpBlk :: cil_opcode where "IL_CpBlk \<equiv> 0x117"
abbreviation IL_InitBlk :: cil_opcode where "IL_InitBlk \<equiv> 0x118"
abbreviation IL_No :: cil_opcode where "IL_No \<equiv> 0x119"
abbreviation IL_ReThrow :: cil_opcode where "IL_ReThrow \<equiv> 0x11a"
abbreviation IL_SizeOf :: cil_opcode where "IL_SizeOf \<equiv> 0x11b"
abbreviation IL_RefAnyType :: cil_opcode where "IL_RefAnyType \<equiv> 0x11c"
abbreviation IL_Readonly :: cil_opcode where "IL_Readonly \<equiv> 0x11e"
abbreviation IL_Leave :: cil_opcode where "IL_Leave \<equiv> 0xdd"
abbreviation IL_Leave_S :: cil_opcode where "IL_Leave_S \<equiv> 0xde"
abbreviation IL_EndFinally :: cil_opcode where "IL_EndFinally \<equiv> 0xdc"
abbreviation IL_Invalid :: cil_opcode where "IL_Invalid \<equiv> 0xffff"

text \<open>The enumerators of one byte with their identifiers, in two parts.\<close>

definition cil_opcodes_low :: "(cil_opcode \<times> string) list" where
  "cil_opcodes_low =
     [(IL_Nop, ''Nop''), (IL_Break, ''Break''), (IL_LdArg_0, ''LdArg_0''), (IL_LdArg_1, ''LdArg_1''),
      (IL_LdArg_2, ''LdArg_2''), (IL_LdArg_3, ''LdArg_3''), (IL_LdLoc_0, ''LdLoc_0''), (IL_LdLoc_1, ''LdLoc_1''),
      (IL_LdLoc_2, ''LdLoc_2''), (IL_LdLoc_3, ''LdLoc_3''), (IL_StLoc_0, ''StLoc_0''), (IL_StLoc_1, ''StLoc_1''),
      (IL_StLoc_2, ''StLoc_2''), (IL_StLoc_3, ''StLoc_3''), (IL_LdArg_S, ''LdArg_S''), (IL_LdArga_S, ''LdArga_S''),
      (IL_StArg_S, ''StArg_S''), (IL_LdLoc_S, ''LdLoc_S''), (IL_LdLoca_S, ''LdLoca_S''), (IL_StLoc_S, ''StLoc_S''),
      (IL_LdNull, ''LdNull''), (IL_LdI4_M1, ''LdI4_M1''), (IL_LdI4_0, ''LdI4_0''), (IL_LdI4_1, ''LdI4_1''),
      (IL_LdI4_2, ''LdI4_2''), (IL_LdI4_3, ''LdI4_3''), (IL_LdI4_4, ''LdI4_4''), (IL_LdI4_5, ''LdI4_5''),
      (IL_LdI4_6, ''LdI4_6''), (IL_LdI4_7, ''LdI4_7''), (IL_LdI4_8, ''LdI4_8''), (IL_LdI4_S, ''LdI4_S''),
      (IL_LdI4, ''LdI4''), (IL_LdI8, ''LdI8''), (IL_LdR4, ''LdR4''), (IL_LdR8, ''LdR8''), (IL_LdStr, ''LdStr''),
      (IL_Dup, ''Dup''), (IL_Pop, ''Pop''), (IL_Jmp, ''Jmp''), (IL_Call, ''Call''), (IL_Calli, ''Calli''),
      (IL_Ret, ''Ret''), (IL_Br_S, ''Br_S''), (IL_Brfalse_S, ''Brfalse_S''), (IL_Brtrue_S, ''Brtrue_S''),
      (IL_Beq_S, ''Beq_S''), (IL_Bge_S, ''Bge_S''), (IL_Bgt_S, ''Bgt_S''), (IL_Ble_S, ''Ble_S''),
      (IL_Blt_S, ''Blt_S''), (IL_Bne_Un_S, ''Bne_Un_S''), (IL_Bge_Un_S, ''Bge_Un_S''), (IL_Bgt_Un_S, ''Bgt_Un_S''),
      (IL_Ble_Un_S, ''Ble_Un_S''), (IL_Blt_Un_S, ''Blt_Un_S''), (IL_Br, ''Br''), (IL_Brfalse, ''Brfalse''),
      (IL_Brtrue, ''Brtrue''), (IL_Beq, ''Beq''), (IL_Bge, ''Bge''), (IL_Bgt, ''Bgt''), (IL_Ble, ''Ble''),
      (IL_Blt, ''Blt''), (IL_Bne_Un, ''Bne_Un''), (IL_Bge_Un, ''Bge_Un''), (IL_Bgt_Un, ''Bgt_Un''),
      (IL_Ble_Un, ''Ble_Un''), (IL_Blt_Un, ''Blt_Un''), (IL_Switch, ''Switch''), (IL_LdInd_I1, ''LdInd_I1''),
      (IL_LdInd_U1, ''LdInd_U1''), (IL_LdInd_I2, ''LdInd_I2''), (IL_LdInd_U2, ''LdInd_U2''),
      (IL_LdInd_I4, ''LdInd_I4''), (IL_LdInd_U4, ''LdInd_U4''), (IL_LdInd_I8, ''LdInd_I8''), (IL_LdInd_I, ''LdInd_I''),
      (IL_LdInd_R4, ''LdInd_R4''), (IL_LdInd_R8, ''LdInd_R8''), (IL_LdInd_Ref, ''LdInd_Ref''),
      (IL_StInd_Ref, ''StInd_Ref''), (IL_StInd_I1, ''StInd_I1''), (IL_StInd_I2, ''StInd_I2''),
      (IL_StInd_I4, ''StInd_I4''), (IL_StInd_I8, ''StInd_I8''), (IL_StInd_R4, ''StInd_R4''),
      (IL_StInd_R8, ''StInd_R8''), (IL_Add, ''Add''), (IL_Sub, ''Sub''), (IL_Mul, ''Mul''), (IL_Div, ''Div''),
      (IL_Div_Un, ''Div_Un''), (IL_Rem, ''Rem''), (IL_Rem_Un, ''Rem_Un''), (IL_And, ''And''), (IL_Or, ''Or''),
      (IL_Xor, ''Xor''), (IL_Shl, ''Shl''), (IL_Shr, ''Shr''), (IL_Shr_Un, ''Shr_Un''), (IL_Neg, ''Neg''),
      (IL_Not, ''Not''), (IL_Conv_I1, ''Conv_I1''), (IL_Conv_I2, ''Conv_I2''), (IL_Conv_I4, ''Conv_I4''),
      (IL_Conv_I8, ''Conv_I8''), (IL_Conv_R4, ''Conv_R4''), (IL_Conv_R8, ''Conv_R8''), (IL_Conv_U4, ''Conv_U4'')]"

text \<open>The second part.\<close>

definition cil_opcodes_high :: "(cil_opcode \<times> string) list" where
  "cil_opcodes_high =
     [(IL_Conv_U8, ''Conv_U8''), (IL_Conv_I, ''Conv_I''), (IL_Conv_U, ''Conv_U''), (IL_CallVirt, ''CallVirt''),
      (IL_LdObj, ''LdObj''), (IL_LdStr2, ''LdStr2''), (IL_NewObj, ''NewObj''), (IL_CastClass, ''CastClass''),
      (IL_IsInst, ''IsInst''), (IL_Conv_R_Un, ''Conv_R_Un''), (IL_Unbox, ''Unbox''), (IL_Throw, ''Throw''),
      (IL_LdFld, ''LdFld''), (IL_LdFlda, ''LdFlda''), (IL_StFld, ''StFld''), (IL_LdsFld, ''LdsFld''),
      (IL_LdsFlda, ''LdsFlda''), (IL_StsFld, ''StsFld''), (IL_StObj, ''StObj''),
      (IL_Conv_Ovf_I1_Un, ''Conv_Ovf_I1_Un''), (IL_Conv_Ovf_I2_Un, ''Conv_Ovf_I2_Un''),
      (IL_Conv_Ovf_I4_Un, ''Conv_Ovf_I4_Un''), (IL_Conv_Ovf_I8_Un, ''Conv_Ovf_I8_Un''),
      (IL_Conv_Ovf_U1_Un, ''Conv_Ovf_U1_Un''), (IL_Conv_Ovf_U2_Un, ''Conv_Ovf_U2_Un''),
      (IL_Conv_Ovf_U4_Un, ''Conv_Ovf_U4_Un''), (IL_Conv_Ovf_U8_Un, ''Conv_Ovf_U8_Un''),
      (IL_Conv_Ovf_I1, ''Conv_Ovf_I1''), (IL_Conv_Ovf_I2, ''Conv_Ovf_I2''), (IL_Conv_Ovf_I4, ''Conv_Ovf_I4''),
      (IL_Conv_Ovf_I8, ''Conv_Ovf_I8''), (IL_Conv_Ovf_U1, ''Conv_Ovf_U1''), (IL_Conv_Ovf_U2, ''Conv_Ovf_U2''),
      (IL_Conv_Ovf_U4, ''Conv_Ovf_U4''), (IL_Conv_Ovf_U8, ''Conv_Ovf_U8''), (IL_Box, ''Box''), (IL_NewArr, ''NewArr''),
      (IL_LdLen, ''LdLen''), (IL_LdElema, ''LdElema''), (IL_LdElem_I1, ''LdElem_I1''), (IL_LdElem_U1, ''LdElem_U1''),
      (IL_LdElem_I2, ''LdElem_I2''), (IL_LdElem_U2, ''LdElem_U2''), (IL_LdElem_I4, ''LdElem_I4''),
      (IL_LdElem_U4, ''LdElem_U4''), (IL_LdElem_I8, ''LdElem_I8''), (IL_LdElem_I, ''LdElem_I''),
      (IL_LdElem_R4, ''LdElem_R4''), (IL_LdElem_R8, ''LdElem_R8''), (IL_LdElem_Ref, ''LdElem_Ref''),
      (IL_StElem_I1, ''StElem_I1''), (IL_StElem_I2, ''StElem_I2''), (IL_StElem_I4, ''StElem_I4''),
      (IL_StElem_I8, ''StElem_I8''), (IL_StElem_R4, ''StElem_R4''), (IL_StElem_R8, ''StElem_R8''),
      (IL_StElem_Ref, ''StElem_Ref''), (IL_LdElem, ''LdElem''), (IL_StElem, ''StElem''), (IL_UnboxAny, ''UnboxAny''),
      (IL_Conv_Ovf_I, ''Conv_Ovf_I''), (IL_Conv_Ovf_U, ''Conv_Ovf_U''), (IL_Leave, ''Leave''),
      (IL_Leave_S, ''Leave_S''), (IL_EndFinally, ''EndFinally'')]"

text \<open>The opcodes behind the prefix \<open>0xFE\<close>.\<close>

definition cil_opcodes_two :: "(cil_opcode \<times> string) list" where
  "cil_opcodes_two =
     [(IL_Argiterator, ''Argiterator''), (IL_Ceq, ''Ceq''), (IL_Cgt, ''Cgt''), (IL_Cgt_Un, ''Cgt_Un''),
      (IL_Clt, ''Clt''), (IL_Clt_Un, ''Clt_Un''), (IL_LdFtn, ''LdFtn''), (IL_LdVirtFtn, ''LdVirtFtn''),
      (IL_LdArg, ''LdArg''), (IL_LdArga, ''LdArga''), (IL_StArg, ''StArg''), (IL_LdLoc, ''LdLoc''),
      (IL_LdLoca, ''LdLoca''), (IL_StLoc, ''StLoc''), (IL_LocalLoc, ''LocalLoc''), (IL_EndFilter, ''EndFilter''),
      (IL_Unaligned, ''Unaligned''), (IL_Volatile, ''Volatile''), (IL_Tail, ''Tail''), (IL_InitObj, ''InitObj''),
      (IL_Constrained, ''Constrained''), (IL_CpBlk, ''CpBlk''), (IL_InitBlk, ''InitBlk''), (IL_No, ''No''),
      (IL_ReThrow, ''ReThrow''), (IL_SizeOf, ''SizeOf''), (IL_RefAnyType, ''RefAnyType''), (IL_Readonly, ''Readonly'')]"

section \<open>The tables\<close>

datatype cil_format =
    CF_None | CF_ShortInlineBrTarget | CF_InlineBrTarget | CF_ShortInlineI | CF_InlineI | CF_InlineI8 | CF_ShortInlineR
  | CF_InlineR | CF_ShortInlineVar | CF_InlineVar | CF_InlineType | CF_InlineField | CF_InlineMethod | CF_InlineString | CF_InlineTok | CF_InlineSig | CF_InlineSwitch

record cil_info =
  ci_name :: string
  ci_operand :: cil_format
  ci_is_prefix :: bool
  ci_loads_value :: bool
  ci_stores_value :: bool
  ci_is_branch :: bool
  ci_is_call :: bool
  ci_can_throw :: bool

definition cil_row :: "string \<Rightarrow> cil_format \<Rightarrow> bool \<Rightarrow> bool \<Rightarrow> bool \<Rightarrow> bool \<Rightarrow> bool \<Rightarrow> bool \<Rightarrow> cil_info" where
  "cil_row n f p l s b c t =
     \<lparr>ci_name = n, ci_operand = f, ci_is_prefix = p, ci_loads_value = l, ci_stores_value = s, ci_is_branch = b, ci_is_call = c,
      ci_can_throw = t\<rparr>"

definition cil_unknown :: cil_info where
  "cil_unknown = cil_row ''<unknown>'' CF_None False False False False False False"

text \<open>The table of the one-byte opcodes in four parts, by the leading bits of the opcode.\<close>

definition cil_table_0 :: "cil_info list" where
  "cil_table_0 =
     [cil_row ''nop'' CF_None False False False False False False,
      cil_row ''break'' CF_None False False False False False False,
      cil_row ''ldarg.0'' CF_None False True False False False False,
      cil_row ''ldarg.1'' CF_None False True False False False False,
      cil_row ''ldarg.2'' CF_None False True False False False False,
      cil_row ''ldarg.3'' CF_None False True False False False False,
      cil_row ''ldloc.0'' CF_None False True False False False False,
      cil_row ''ldloc.1'' CF_None False True False False False False,
      cil_row ''ldloc.2'' CF_None False True False False False False,
      cil_row ''ldloc.3'' CF_None False True False False False False,
      cil_row ''stloc.0'' CF_None False False True False False False,
      cil_row ''stloc.1'' CF_None False False True False False False,
      cil_row ''stloc.2'' CF_None False False True False False False,
      cil_row ''stloc.3'' CF_None False False True False False False,
      cil_row ''ldarg.s'' CF_ShortInlineVar False True False False False False,
      cil_row ''ldarga.s'' CF_ShortInlineVar False True False False False False,
      cil_row ''starg.s'' CF_ShortInlineVar False False True False False False,
      cil_row ''ldloc.s'' CF_ShortInlineVar False True False False False False,
      cil_row ''ldloca.s'' CF_ShortInlineVar False True False False False False,
      cil_row ''stloc.s'' CF_ShortInlineVar False False True False False False,
      cil_row ''ldnull'' CF_None False True False False False False,
      cil_row ''ldc.i4.m1'' CF_None False True False False False False,
      cil_row ''ldc.i4.0'' CF_None False True False False False False,
      cil_row ''ldc.i4.1'' CF_None False True False False False False,
      cil_row ''ldc.i4.2'' CF_None False True False False False False,
      cil_row ''ldc.i4.3'' CF_None False True False False False False,
      cil_row ''ldc.i4.4'' CF_None False True False False False False,
      cil_row ''ldc.i4.5'' CF_None False True False False False False,
      cil_row ''ldc.i4.6'' CF_None False True False False False False,
      cil_row ''ldc.i4.7'' CF_None False True False False False False,
      cil_row ''ldc.i4.8'' CF_None False True False False False False,
      cil_row ''ldc.i4.s'' CF_ShortInlineI False True False False False False,
      cil_row ''ldc.i4'' CF_InlineI False True False False False False,
      cil_row ''ldc.i8'' CF_InlineI8 False True False False False False,
      cil_row ''ldc.r4'' CF_ShortInlineR False True False False False False,
      cil_row ''ldc.r8'' CF_InlineR False True False False False False]
     @ replicate 1 cil_unknown
     @ [cil_row ''dup'' CF_None False True False False False False,
      cil_row ''pop'' CF_None False False True False False False,
      cil_row ''jmp'' CF_InlineMethod False False False False False False,
      cil_row ''call'' CF_InlineMethod False False False False True True,
      cil_row ''calli'' CF_InlineSig False False False False True True,
      cil_row ''ret'' CF_None False False False False False False,
      cil_row ''br.s'' CF_ShortInlineBrTarget False False False True False False,
      cil_row ''brfalse.s'' CF_ShortInlineBrTarget False False True True False False,
      cil_row ''brtrue.s'' CF_ShortInlineBrTarget False False True True False False,
      cil_row ''beq.s'' CF_ShortInlineBrTarget False False True True False False,
      cil_row ''bge.s'' CF_ShortInlineBrTarget False False True True False False,
      cil_row ''bgt.s'' CF_ShortInlineBrTarget False False True True False False,
      cil_row ''ble.s'' CF_ShortInlineBrTarget False False True True False False,
      cil_row ''blt.s'' CF_ShortInlineBrTarget False False True True False False,
      cil_row ''bne.un.s'' CF_ShortInlineBrTarget False False True True False False,
      cil_row ''bge.un.s'' CF_ShortInlineBrTarget False False True True False False,
      cil_row ''bgt.un.s'' CF_ShortInlineBrTarget False False True True False False,
      cil_row ''ble.un.s'' CF_ShortInlineBrTarget False False True True False False,
      cil_row ''blt.un.s'' CF_ShortInlineBrTarget False False True True False False,
      cil_row ''br'' CF_InlineBrTarget False False False True False False,
      cil_row ''brfalse'' CF_InlineBrTarget False False True True False False,
      cil_row ''brtrue'' CF_InlineBrTarget False False True True False False,
      cil_row ''beq'' CF_InlineBrTarget False False True True False False,
      cil_row ''bge'' CF_InlineBrTarget False False True True False False,
      cil_row ''bgt'' CF_InlineBrTarget False False True True False False,
      cil_row ''ble'' CF_InlineBrTarget False False True True False False,
      cil_row ''blt'' CF_InlineBrTarget False False True True False False]"

definition cil_table_1 :: "cil_info list" where
  "cil_table_1 =
     [cil_row ''bne.un'' CF_InlineBrTarget False False True True False False,
      cil_row ''bge.un'' CF_InlineBrTarget False False True True False False,
      cil_row ''bgt.un'' CF_InlineBrTarget False False True True False False,
      cil_row ''ble.un'' CF_InlineBrTarget False False True True False False,
      cil_row ''blt.un'' CF_InlineBrTarget False False True True False False,
      cil_row ''switch'' CF_InlineSwitch False False False True False False,
      cil_row ''ldind.i1'' CF_None False True True False False True,
      cil_row ''ldind.u1'' CF_None False True True False False True,
      cil_row ''ldind.i2'' CF_None False True True False False True,
      cil_row ''ldind.u2'' CF_None False True True False False True,
      cil_row ''ldind.i4'' CF_None False True True False False True,
      cil_row ''ldind.u4'' CF_None False True True False False True,
      cil_row ''ldind.i8'' CF_None False True True False False True,
      cil_row ''ldind.i'' CF_None False True True False False True,
      cil_row ''ldind.r4'' CF_None False True True False False True,
      cil_row ''ldind.r8'' CF_None False True True False False True,
      cil_row ''ldind.ref'' CF_None False True True False False True,
      cil_row ''stind.ref'' CF_None False False True False False True,
      cil_row ''stind.i1'' CF_None False False True False False True,
      cil_row ''stind.i2'' CF_None False False True False False True,
      cil_row ''stind.i4'' CF_None False False True False False True,
      cil_row ''stind.i8'' CF_None False False True False False True,
      cil_row ''stind.r4'' CF_None False False True False False True,
      cil_row ''stind.r8'' CF_None False False True False False True,
      cil_row ''add'' CF_None False True True False False False,
      cil_row ''sub'' CF_None False True True False False False,
      cil_row ''mul'' CF_None False True True False False False,
      cil_row ''div'' CF_None False True True False False True,
      cil_row ''div.un'' CF_None False True True False False True,
      cil_row ''rem'' CF_None False True True False False True,
      cil_row ''rem.un'' CF_None False True True False False True,
      cil_row ''and'' CF_None False True True False False False,
      cil_row ''or'' CF_None False True True False False False,
      cil_row ''xor'' CF_None False True True False False False,
      cil_row ''shl'' CF_None False True True False False False,
      cil_row ''shr'' CF_None False True True False False False,
      cil_row ''shr.un'' CF_None False True True False False False,
      cil_row ''neg'' CF_None False True True False False False,
      cil_row ''not'' CF_None False True True False False False,
      cil_row ''conv.i1'' CF_None False True True False False False,
      cil_row ''conv.i2'' CF_None False True True False False False,
      cil_row ''conv.i4'' CF_None False True True False False False,
      cil_row ''conv.i8'' CF_None False True True False False False,
      cil_row ''conv.r4'' CF_None False True True False False False,
      cil_row ''conv.r8'' CF_None False True True False False False,
      cil_row ''conv.u4'' CF_None False True True False False False,
      cil_row ''conv.u8'' CF_None False True True False False False,
      cil_row ''callvirt'' CF_InlineMethod False False False False True True]
     @ replicate 1 cil_unknown
     @ [cil_row ''ldobj'' CF_InlineType False True True False False True,
      cil_row ''ldstr'' CF_InlineString False True False False False False]
     @ replicate 1 cil_unknown
     @ [cil_row ''newobj'' CF_InlineMethod False False False False True True,
      cil_row ''castclass'' CF_InlineType False True True False False True,
      cil_row ''isinst'' CF_InlineType False True True False False True,
      cil_row ''conv.r.un'' CF_None False True True False False False]
     @ replicate 2 cil_unknown
     @ [cil_row ''unbox'' CF_InlineType False True True False False True,
      cil_row ''throw'' CF_None False False True False False True,
      cil_row ''ldfld'' CF_InlineField False True True False False True,
      cil_row ''ldflda'' CF_InlineField False True True False False True,
      cil_row ''stfld'' CF_InlineField False False True False False True,
      cil_row ''ldsfld'' CF_InlineField False True False False False True]"

definition cil_table_2 :: "cil_info list" where
  "cil_table_2 =
     [cil_row ''ldsflda'' CF_InlineField False True False False False True,
      cil_row ''stsfld'' CF_InlineField False False True False False True,
      cil_row ''stobj'' CF_InlineType False False True False False True]
     @ replicate 9 cil_unknown
     @ [cil_row ''box'' CF_InlineType False True True False False True,
      cil_row ''newarr'' CF_InlineType False True True False False True,
      cil_row ''ldlen'' CF_None False True True False False True,
      cil_row ''ldelema'' CF_InlineType False True True False False True,
      cil_row ''ldelem.i1'' CF_None False True True False False True,
      cil_row ''ldelem.u1'' CF_None False True True False False True,
      cil_row ''ldelem.i2'' CF_None False True True False False True,
      cil_row ''ldelem.u2'' CF_None False True True False False True,
      cil_row ''ldelem.i4'' CF_None False True True False False True,
      cil_row ''ldelem.u4'' CF_None False True True False False True,
      cil_row ''ldelem.i8'' CF_None False True True False False True,
      cil_row ''ldelem.i'' CF_None False True True False False True,
      cil_row ''ldelem.r4'' CF_None False True True False False True,
      cil_row ''ldelem.r8'' CF_None False True True False False True,
      cil_row ''ldelem.ref'' CF_None False True True False False True,
      cil_row ''stelem.i1'' CF_None False False True False False True,
      cil_row ''stelem.i2'' CF_None False False True False False True,
      cil_row ''stelem.i4'' CF_None False False True False False True,
      cil_row ''stelem.i8'' CF_None False False True False False True,
      cil_row ''stelem.r4'' CF_None False False True False False True,
      cil_row ''stelem.r8'' CF_None False False True False False True]
     @ replicate 1 cil_unknown
     @ [cil_row ''stelem.ref'' CF_None False False True False False True,
      cil_row ''ldelem'' CF_InlineType False True True False False True,
      cil_row ''stelem'' CF_InlineType False False True False False True,
      cil_row ''unbox.any'' CF_InlineType False True True False False True]
     @ replicate 26 cil_unknown"

definition cil_table_3 :: "cil_info list" where
  "cil_table_3 =
     replicate 22 cil_unknown
     @ [cil_row ''endfinally'' CF_None False False False False False False,
      cil_row ''leave'' CF_InlineBrTarget False False False True False False,
      cil_row ''leave.s'' CF_ShortInlineBrTarget False False False True False False]
     @ replicate 39 cil_unknown"

definition cil_table :: "cil_info list" where
  "cil_table = cil_table_0 @ cil_table_1 @ cil_table_2 @ cil_table_3"

text \<open>The opcodes behind the prefix.\<close>

definition kTwoByte :: "(cil_opcode \<times> cil_info) list" where
  "kTwoByte =
     [(IL_Ceq, cil_row ''ceq'' CF_None False True True False False False),
      (IL_Cgt, cil_row ''cgt'' CF_None False True True False False False),
      (IL_Cgt_Un, cil_row ''cgt.un'' CF_None False True True False False False),
      (IL_Clt, cil_row ''clt'' CF_None False True True False False False),
      (IL_Clt_Un, cil_row ''clt.un'' CF_None False True True False False False),
      (IL_LdArg, cil_row ''ldarg'' CF_InlineVar False True False False False False),
      (IL_LdArga, cil_row ''ldarga'' CF_InlineVar False True False False False False),
      (IL_StArg, cil_row ''starg'' CF_InlineVar False False True False False False),
      (IL_LdLoc, cil_row ''ldloc'' CF_InlineVar False True False False False False),
      (IL_LdLoca, cil_row ''ldloca'' CF_InlineVar False True False False False False),
      (IL_StLoc, cil_row ''stloc'' CF_InlineVar False False True False False False),
      (IL_EndFilter, cil_row ''endfilter'' CF_None False False False False False False),
      (IL_Unaligned, cil_row ''unaligned.'' CF_ShortInlineI True False False False False False),
      (IL_Volatile, cil_row ''volatile.'' CF_None True False False False False False),
      (IL_Tail, cil_row ''tail.'' CF_None True False False False False False),
      (IL_InitObj, cil_row ''initobj'' CF_InlineType False False True False False False),
      (IL_Constrained, cil_row ''constrained.'' CF_InlineType True False False False False False),
      (IL_ReThrow, cil_row ''rethrow'' CF_None False False False False False True),
      (IL_SizeOf, cil_row ''sizeof'' CF_InlineType False True False False False False),
      (IL_Readonly, cil_row ''readonly.'' CF_None True False False False False False)]"

definition cil_info_of :: "cil_opcode \<Rightarrow> cil_info" where
  "cil_info_of op = (if op \<le> 0xFF then cil_table ! unat op
     else case find (\<lambda>e. fst e = op) kTwoByte of None \<Rightarrow> cil_unknown | Some e \<Rightarrow> snd e)"

definition cil_name :: "cil_opcode \<Rightarrow> string" where
  "cil_name op = ci_name (cil_info_of op)"

section \<open>The decoder\<close>

record cil_decoded =
  c_op :: cil_opcode
  c_length :: u8
  c_i32 :: i32
  c_u32 :: u32
  c_i64 :: i64
  c_r8 :: u64
  c_r4 :: u32

definition cil_empty :: cil_decoded where
  "cil_empty = \<lparr>c_op = 0, c_length = 0, c_i32 = 0, c_u32 = 0, c_i64 = 0, c_r8 = 0, c_r4 = 0\<rparr>"

definition cil_invalid :: "cil_decoded \<Rightarrow> cil_decoded" where
  "cil_invalid d = d\<lparr>c_op := IL_Invalid\<rparr>"

definition le16 :: "u8 list \<Rightarrow> nat \<Rightarrow> u16" where
  "le16 bs i = or (ucast (bs ! i)) (push_bit 8 (ucast (bs ! (i + 1))))"

definition le64 :: "u8 list \<Rightarrow> nat \<Rightarrow> u64" where
  "le64 bs i = or (ucast (le32 bs i)) (push_bit 32 (ucast (le32 bs (i + 4))))"

text \<open>The opcode: one byte, or the prefix and a second byte.\<close>

definition cil_decode_op :: "u8 list \<Rightarrow> cil_decoded" where
  "cil_decode_op bs =
     (let first = bs ! 0; d = cil_empty\<lparr>c_length := 1\<rparr>
      in if first \<noteq> 0xFE
         then (if ci_name (cil_table ! unat first) = ci_name cil_unknown then cil_invalid d else d\<lparr>c_op := ucast first\<rparr>)
         else if length bs < 2 then cil_invalid d
         else (case find (\<lambda>e. ucast (fst e) = bs ! 1) kTwoByte of
              None \<Rightarrow> cil_invalid (d\<lparr>c_length := 2\<rparr>)
            | Some e \<Rightarrow> d\<lparr>c_op := fst e, c_length := 2\<rparr>))"

text \<open>The operand behind the \<open>n\<close> bytes of the opcode; the length of a switch is computed in ints and cut to a byte.\<close>

definition cil_decode_switch :: "u8 list \<Rightarrow> cil_decoded \<Rightarrow> cil_decoded ub" where
  "cil_decode_switch bs d = do {
     let n = le32 bs (unat (c_length d));
     bytes \<leftarrow> s_mul n 4;
     bytes \<leftarrow> s_add 4 bytes;
     bytes \<leftarrow> s_add (ucast (c_length d)) bytes;
     Some (d\<lparr>c_u32 := n, c_length := ucast bytes\<rparr>)
   }"

definition cil_decode_operand :: "cil_format \<Rightarrow> u8 list \<Rightarrow> cil_decoded \<Rightarrow> cil_decoded ub" where
  "cil_decode_operand f bs d =
     (let n = unat (c_length d); short = (\<lambda>k. length bs < n + k) in
      if f = CF_None then Some d
      else if f \<in> set [CF_ShortInlineBrTarget, CF_ShortInlineI, CF_ShortInlineVar] then
        Some (if short 1 then cil_invalid d else d\<lparr>c_i32 := scast (bs ! n), c_u32 := ucast (bs ! n), c_length := c_length d + 1\<rparr>)
      else if f = CF_InlineVar then
        Some (if short 2 then cil_invalid d else d\<lparr>c_u32 := ucast (le16 bs n), c_i32 := ucast (le16 bs n), c_length := c_length d + 2\<rparr>)
      else if f = CF_InlineI8 then
        Some (if short 8 then cil_invalid d else d\<lparr>c_i64 := le64 bs n, c_length := c_length d + 8\<rparr>)
      else if f = CF_ShortInlineR then
        Some (if short 4 then cil_invalid d else d\<lparr>c_r4 := le32 bs n, c_length := c_length d + 4\<rparr>)
      else if f = CF_InlineR then
        Some (if short 8 then cil_invalid d else d\<lparr>c_r8 := le64 bs n, c_length := c_length d + 8\<rparr>)
      else if f = CF_InlineSwitch then
        (if short 4 then Some (cil_invalid d) else cil_decode_switch bs d)
      else Some (if short 4 then cil_invalid d else d\<lparr>c_i32 := le32 bs n, c_u32 := le32 bs n, c_length := c_length d + 4\<rparr>))"

definition cil_decode :: "u8 list \<Rightarrow> cil_decoded ub" where
  "cil_decode bs =
     (if bs = [] then Some (cil_invalid cil_empty)
      else let d = cil_decode_op bs
        in if c_op d = IL_Invalid then Some d else cil_decode_operand (ci_operand (cil_info_of (c_op d))) bs d)"

end
