(* ===== verification/Cil_Interp.thy ===== *)
theory Cil_Interp
  imports Cil_Opcode Granit_Value Core_Result
begin

text \<open>
  \<^verbatim>\<open>tier0_granit/CilInterpreter.hpp\<close> and \<^verbatim>\<open>tier0_granit/CilInterpreter.cpp\<close>: the interpreter of CIL bytecode. The
  evaluation stack is a list with the top first. Cases of the big switch that differ in a constant or an operator
  only are tables, indexed by the opcode. Polling a safepoint leaves the frame alone.

  Reading or writing a local or an argument past the end of its vector is undefined, as are the overflow of a
  branch target, of a negation and of a division.
\<close>

section \<open>Frames\<close>

text \<open>The host operations this interpreter uses besides those of \<^typ>\<open>fp_ops\<close>: negation, the comparison \<open>\<le>\<close> and the
  conversion of a float to a double.\<close>

record cil_fp = fp_ops +
  fp_neg :: "f64 \<Rightarrow> f64"
  fp_leq :: "f64 \<Rightarrow> f64 \<Rightarrow> bool"
  fp_widen :: "u32 \<Rightarrow> f64"

definition kMaxEvalStack :: nat where
  "kMaxEvalStack = 256"

record cil_frame =
  il_pc :: u32
  il_stack :: "gvalue list"
  il_locals :: "gvalue list"
  il_args :: "gvalue list"
  il_error :: "string option"

definition il_fail :: "string \<Rightarrow> cil_frame \<Rightarrow> cil_frame" where
  "il_fail m f = f\<lparr>il_error := Some m\<rparr>"

definition il_push :: "gvalue \<Rightarrow> cil_frame \<Rightarrow> cil_frame" where
  "il_push v f = (if length (il_stack f) < kMaxEvalStack then f\<lparr>il_stack := v # il_stack f\<rparr> else il_fail ''CIL: stack overflow'' f)"

definition il_pop :: "cil_frame \<Rightarrow> gvalue \<times> cil_frame" where
  "il_pop f = (case il_stack f of v # s \<Rightarrow> (v, f\<lparr>il_stack := s\<rparr>) | [] \<Rightarrow> (v_uninit, il_fail ''CIL: stack underflow'' f))"

definition il_top :: "cil_frame \<Rightarrow> gvalue \<times> cil_frame" where
  "il_top f = (case il_stack f of v # s \<Rightarrow> (v, f) | [] \<Rightarrow> (v_uninit, il_fail ''CIL: stack empty'' f))"

text \<open>The conversions of operands report a wrong tag in the frame.\<close>

definition il_int32 :: "gvalue \<Rightarrow> cil_frame \<Rightarrow> i32 \<times> cil_frame" where
  "il_int32 v f = (if is_int32 v then (as_int32 v, f) else if is_int64 v then (ucast (as_int64 v), f)
     else (0, il_fail ''CIL: expected int32'' f))"

definition il_int64 :: "gvalue \<Rightarrow> cil_frame \<Rightarrow> i64 \<times> cil_frame" where
  "il_int64 v f = (if is_int64 v then (as_int64 v, f) else if is_int32 v then (scast (as_int32 v), f)
     else (0, il_fail ''CIL: expected int64'' f))"

definition il_float64 :: "cil_fp \<Rightarrow> gvalue \<Rightarrow> cil_frame \<Rightarrow> f64 \<times> cil_frame" where
  "il_float64 fp v f = (if is_float v then (as_float v, f) else if is_int32 v then (fp_of_i32 fp (as_int32 v), f)
     else if is_int64 v then (fp_of_i64 fp (as_int64 v), f) else (f64_0, il_fail ''CIL: expected float'' f))"

section \<open>Arithmetic\<close>

text \<open>Two operands of the same integer type, or a float on either side; an operator that fails leaves its reason.\<close>

definition il_arith :: "cil_fp \<Rightarrow> string \<Rightarrow> (i32 \<Rightarrow> i32 \<Rightarrow> (string + i32) ub) \<Rightarrow> (i64 \<Rightarrow> i64 \<Rightarrow> (string + i64) ub) \<Rightarrow> (f64 \<Rightarrow> f64 \<Rightarrow> f64)
    \<Rightarrow> gvalue \<Rightarrow> gvalue \<Rightarrow> cil_frame \<Rightarrow> (gvalue \<times> cil_frame) ub" where
  "il_arith fp name h32 h64 hf a b f =
     (if is_int32 a \<and> is_int32 b
      then map_option (\<lambda>r. case r of Inl m \<Rightarrow> (v_uninit, il_fail m f) | Inr x \<Rightarrow> (from_int32 x, f)) (h32 (as_int32 a) (as_int32 b))
      else if is_int64 a \<and> is_int64 b
      then map_option (\<lambda>r. case r of Inl m \<Rightarrow> (v_uninit, il_fail m f) | Inr x \<Rightarrow> (from_int64 x, f)) (h64 (as_int64 a) (as_int64 b))
      else if is_float a \<or> is_float b
      then (let (x, f) = il_float64 fp a f; (y, f) = il_float64 fp b f in Some (from_float (hf x y), f))
      else Some (v_uninit, il_fail (''CIL '' @ name @ '': invalid types'') f))"

definition il_div :: "'a::len word \<Rightarrow> 'a word \<Rightarrow> (string + 'a word) ub" where
  "il_div a b = (if b = 0 then Some (Inl ''DivideByZeroException'') else map_option Inr (s_div a b))"

definition il_arith_ops :: "cil_fp \<Rightarrow> (cil_opcode \<times> (gvalue \<Rightarrow> gvalue \<Rightarrow> cil_frame \<Rightarrow> (gvalue \<times> cil_frame) ub)) list" where
  "il_arith_ops fp =
     [(IL_Add, il_arith fp ''add'' (\<lambda>a b. Some (Inr (wrap_add_i32 a b))) (\<lambda>a b. Some (Inr (wrap_add_i64 a b))) (fp_add fp)),
      (IL_Sub, il_arith fp ''sub'' (\<lambda>a b. Some (Inr (wrap_sub_i32 a b))) (\<lambda>a b. Some (Inr (wrap_sub_i64 a b))) (fp_sub fp)),
      (IL_Mul, il_arith fp ''mul'' (\<lambda>a b. Some (Inr (wrap_mul_i32 a b))) (\<lambda>a b. Some (Inr (wrap_mul_i64 a b))) (fp_mul fp)),
      (IL_Div, il_arith fp ''div'' il_div il_div (fp_div fp))]"

definition il_bit_ops :: "(cil_opcode \<times> (i32 \<Rightarrow> i32 \<Rightarrow> i32)) list" where
  "il_bit_ops =
     [(IL_And, \<lambda>a b. and a b), (IL_Or, \<lambda>a b. or a b), (IL_Xor, \<lambda>a b. xor a b), (IL_Shl, \<lambda>a b. push_bit (unat (and b 31)) a),
      (IL_Shr, \<lambda>a b. signed_drop_bit (unat (and b 31)) a), (IL_Shr_Un, \<lambda>a b. drop_bit (unat (and b 31)) a)]"

definition il_bit :: "(i32 \<Rightarrow> i32 \<Rightarrow> i32) \<Rightarrow> gvalue \<Rightarrow> gvalue \<Rightarrow> cil_frame \<Rightarrow> (gvalue \<times> cil_frame) ub" where
  "il_bit h a b f = (let (x, f) = il_int32 a f; (y, f) = il_int32 b f in Some (from_int32 (h x y), f))"

text \<open>The comparisons convert both operands to doubles.\<close>

definition il_bool :: "bool \<Rightarrow> gvalue" where
  "il_bool b = from_int32 (if b then 1 else 0)"

definition il_compare :: "cil_fp \<Rightarrow> (f64 \<Rightarrow> f64 \<Rightarrow> bool) \<Rightarrow> gvalue \<Rightarrow> gvalue \<Rightarrow> cil_frame \<Rightarrow> bool \<times> cil_frame" where
  "il_compare fp h a b f = (let (x, f) = il_float64 fp a f; (y, f) = il_float64 fp b f in (h x y, f))"

definition il_compare_ops :: "cil_fp \<Rightarrow> (cil_opcode \<times> (gvalue \<Rightarrow> gvalue \<Rightarrow> cil_frame \<Rightarrow> bool \<times> cil_frame)) list" where
  "il_compare_ops fp =
     [(IL_Ceq, \<lambda>a b f. (value_equals a b, f)), (IL_Cgt, il_compare fp (\<lambda>x y. fp_less fp y x)), (IL_Clt, il_compare fp (fp_less fp))]"

definition il_binary :: "cil_fp \<Rightarrow> cil_opcode \<Rightarrow> (gvalue \<Rightarrow> gvalue \<Rightarrow> cil_frame \<Rightarrow> (gvalue \<times> cil_frame) ub) option" where
  "il_binary fp op =
     (case map_of (il_arith_ops fp) op of Some h \<Rightarrow> Some h | None \<Rightarrow>
      case map_of il_bit_ops op of Some h \<Rightarrow> Some (il_bit h) | None \<Rightarrow>
      map_option (\<lambda>h a b f. let (r, f) = h a b f in Some (il_bool r, f)) (map_of (il_compare_ops fp) op))"

text \<open>One operand.\<close>

definition il_neg :: "cil_fp \<Rightarrow> gvalue \<Rightarrow> cil_frame \<Rightarrow> cil_frame ub" where
  "il_neg fp a f =
     (if is_int32 a then map_option (\<lambda>x. il_push (from_int32 x) f) (s_neg (as_int32 a))
      else if is_int64 a then map_option (\<lambda>x. il_push (from_int64 x) f) (s_neg (as_int64 a))
      else if is_float a then Some (il_push (from_float (fp_neg fp (as_float a))) f)
      else Some (il_fail ''CIL neg: invalid type'' f))"

definition il_unary :: "cil_fp \<Rightarrow> cil_opcode \<Rightarrow> (gvalue \<Rightarrow> cil_frame \<Rightarrow> gvalue \<times> cil_frame) option" where
  "il_unary fp op =
     (if op = IL_Not then Some (\<lambda>a f. let (x, f) = il_int32 a f in (from_int32 (not x), f))
      else if op = IL_Conv_I1 then Some (\<lambda>a f. let (x, f) = il_int32 a f in (from_int32 (scast (ucast x :: u8)), f))
      else if op = IL_Conv_I2 then Some (\<lambda>a f. let (x, f) = il_int32 a f in (from_int32 (scast (ucast x :: u16)), f))
      else if op = IL_Conv_I4 \<or> op = IL_Conv_U4 then Some (\<lambda>a f. let (x, f) = il_int32 a f in (from_int32 x, f))
      else if op = IL_Conv_I8 \<or> op = IL_Conv_U8 then Some (\<lambda>a f. let (x, f) = il_int64 a f in (from_int64 x, f))
      else if op = IL_Conv_R4 \<or> op = IL_Conv_R8 then Some (\<lambda>a f. let (x, f) = il_float64 fp a f in (from_float x, f))
      else None)"

section \<open>The cases of the switch\<close>

text \<open>What a case does: fall out of the switch, jump with \<^verbatim>\<open>continue\<close>, return a value, return an error.\<close>

datatype cil_outcome =
    C_next cil_frame
  | C_jump cil_frame
  | C_return gvalue
  | C_fail error

definition il_constants :: "(cil_opcode \<times> i32) list" where
  "il_constants =
     [(IL_LdI4_0, 0), (IL_LdI4_1, 1), (IL_LdI4_2, 2), (IL_LdI4_3, 3), (IL_LdI4_4, 4), (IL_LdI4_5, 5), (IL_LdI4_6, 6), (IL_LdI4_7, 7),
      (IL_LdI4_8, 8), (IL_LdI4_M1, - 1)]"

text \<open>A string is its token.\<close>

definition il_constant :: "cil_fp \<Rightarrow> cil_decoded \<Rightarrow> gvalue option" where
  "il_constant fp d =
     (if c_op d = IL_LdI4_S \<or> c_op d = IL_LdI4 then Some (from_int32 (c_i32 d))
      else if c_op d = IL_LdI8 then Some (from_int64 (c_i64 d))
      else if c_op d = IL_LdR4 then Some (from_float (fp_widen fp (c_r4 d)))
      else if c_op d = IL_LdR8 then Some (from_float (c_r8 d))
      else if c_op d = IL_LdNull then Some null_value
      else if c_op d = IL_LdStr then Some (from_int32 (c_u32 d))
      else map_option from_int32 (map_of il_constants (c_op d)))"

definition il_slots :: "(cil_opcode \<times> nat) list \<Rightarrow> cil_opcode \<Rightarrow> cil_decoded \<Rightarrow> nat option" where
  "il_slots short long d = (if c_op d = long then Some (unat (c_u32 d)) else map_of short (c_op d))"

definition il_load_local :: "cil_decoded \<Rightarrow> nat option" where
  "il_load_local = il_slots [(IL_LdLoc_0, 0), (IL_LdLoc_1, 1), (IL_LdLoc_2, 2), (IL_LdLoc_3, 3)] IL_LdLoc_S"

definition il_store_local :: "cil_decoded \<Rightarrow> nat option" where
  "il_store_local = il_slots [(IL_StLoc_0, 0), (IL_StLoc_1, 1), (IL_StLoc_2, 2), (IL_StLoc_3, 3)] IL_StLoc_S"

definition il_load_arg :: "cil_decoded \<Rightarrow> nat option" where
  "il_load_arg = il_slots [(IL_LdArg_0, 0), (IL_LdArg_1, 1), (IL_LdArg_2, 2), (IL_LdArg_3, 3)] IL_LdArg_S"

definition il_read :: "gvalue list \<Rightarrow> nat \<Rightarrow> cil_frame \<Rightarrow> cil_outcome ub" where
  "il_read vs i f = (if i < length vs then Some (C_next (il_push (vs ! i) f)) else None)"

definition il_write_local :: "nat \<Rightarrow> cil_frame \<Rightarrow> cil_outcome ub" where
  "il_write_local i f = (let (v, f) = il_pop f
     in if i < length (il_locals f) then Some (C_next (f\<lparr>il_locals := (il_locals f)[i := v]\<rparr>)) else None)"

definition il_write_arg :: "nat \<Rightarrow> cil_frame \<Rightarrow> cil_outcome ub" where
  "il_write_arg i f = (let (v, f) = il_pop f
     in if i < length (il_args f) then Some (C_next (f\<lparr>il_args := (il_args f)[i := v]\<rparr>)) else None)"

text \<open>The target of a branch is computed in ints, relative to the next instruction.\<close>

definition il_branch :: "bool \<Rightarrow> cil_decoded \<Rightarrow> cil_frame \<Rightarrow> cil_outcome ub" where
  "il_branch taken d f = (if taken
     then map_option (\<lambda>pc. C_jump (f\<lparr>il_pc := pc\<rparr>)) (s_add (il_pc f + ucast (c_length d)) (c_i32 d)) else Some (C_next f))"

definition il_branch_ops :: "cil_fp \<Rightarrow> (cil_opcode \<times> (gvalue \<Rightarrow> gvalue \<Rightarrow> cil_frame \<Rightarrow> bool \<times> cil_frame)) list" where
  "il_branch_ops fp =
     (let eq = (\<lambda>a b f. (value_equals a b, f)); ne = (\<lambda>a b f. (\<not> value_equals a b, f));
          lt = il_compare fp (fp_less fp); gt = il_compare fp (\<lambda>x y. fp_less fp y x);
          le = il_compare fp (fp_leq fp); ge = il_compare fp (\<lambda>x y. fp_leq fp y x)
      in [(IL_Beq_S, eq), (IL_Beq, eq), (IL_Bne_Un_S, ne), (IL_Bne_Un, ne), (IL_Blt_S, lt), (IL_Blt, lt), (IL_Bgt_S, gt), (IL_Bgt, gt),
          (IL_Ble_S, le), (IL_Ble, le), (IL_Bge_S, ge), (IL_Bge, ge)])"

definition il_unsupported :: "cil_decoded \<Rightarrow> cil_frame \<Rightarrow> error" where
  "il_unsupported d f = make_error UnsupportedNode
     (''CIL: opcode '' @ [CHR 0x27] @ cil_name (c_op d) @ [CHR 0x27] @ '' (0x'' @ show_hex True 4 (unat (c_op d)) @ '') at pc=''
      @ show_nat (unat (il_pc f)))"

definition cil_exec_control :: "cil_fp \<Rightarrow> cil_decoded \<Rightarrow> cil_frame \<Rightarrow> cil_outcome ub" where
  "cil_exec_control fp d f =
     (if c_op d = IL_Br_S \<or> c_op d = IL_Br then il_branch True d f
      else if c_op d = IL_Brtrue_S \<or> c_op d = IL_Brtrue then (let (v, f) = il_pop f in il_branch (truthy v) d f)
      else if c_op d = IL_Brfalse_S \<or> c_op d = IL_Brfalse then (let (v, f) = il_pop f in il_branch (\<not> truthy v) d f)
      else case map_of (il_branch_ops fp) (c_op d) of
        Some h \<Rightarrow> (let (b, f) = il_pop f; (a, f) = il_pop f; (r, f) = h a b f in il_branch r d f)
      | None \<Rightarrow>
        if c_op d = IL_Ret then Some (C_return (if il_stack f \<noteq> [] then fst (il_pop f) else v_uninit))
        else Some (C_fail (il_unsupported d f)))"

definition cil_exec_values :: "cil_fp \<Rightarrow> cil_decoded \<Rightarrow> cil_frame \<Rightarrow> cil_outcome ub" where
  "cil_exec_values fp d f =
     (case il_binary fp (c_op d) of
        Some h \<Rightarrow> (let (b, f) = il_pop f; (a, f) = il_pop f in map_option (\<lambda>(v, f). C_next (il_push v f)) (h a b f))
      | None \<Rightarrow>
        (case il_unary fp (c_op d) of
           Some h \<Rightarrow> (let (a, f) = il_pop f; (v, f) = h a f in Some (C_next (il_push v f)))
         | None \<Rightarrow>
           if c_op d = IL_Neg then (let (a, f) = il_pop f in map_option C_next (il_neg fp a f))
           else cil_exec_control fp d f))"

definition cil_exec :: "cil_fp \<Rightarrow> cil_decoded \<Rightarrow> cil_frame \<Rightarrow> cil_outcome ub" where
  "cil_exec fp d f =
     (if c_op d = IL_Nop \<or> c_op d = IL_Break then Some (C_next f)
      else case il_constant fp d of Some v \<Rightarrow> Some (C_next (il_push v f)) | None \<Rightarrow>
      case il_load_local d of Some i \<Rightarrow> il_read (il_locals f) i f | None \<Rightarrow>
      case il_store_local d of Some i \<Rightarrow> il_write_local i f | None \<Rightarrow>
      case il_load_arg d of Some i \<Rightarrow> il_read (il_args f) i f | None \<Rightarrow>
      if c_op d = IL_StArg_S then il_write_arg (unat (c_u32 d)) f
      else if c_op d = IL_Dup then (let (v, f) = il_top f in Some (C_next (il_push v f)))
      else if c_op d = IL_Pop then (let (v, f) = il_pop f in Some (C_next f))
      else cil_exec_values fp d f)"

section \<open>The loop\<close>

text \<open>One iteration; only a case that falls out of the switch reaches the check of the error flag.\<close>

definition cil_step :: "cil_fp \<Rightarrow> u8 list \<Rightarrow> cil_frame \<Rightarrow> cil_outcome ub" where
  "cil_step fp code f = do {
     d \<leftarrow> cil_decode (drop (unat (il_pc f)) code);
     if c_op d = IL_Invalid
     then Some (C_fail (make_error BadInput (''CIL: invalid opcode at pc='' @ show_nat (unat (il_pc f)))))
     else do {
       out \<leftarrow> cil_exec fp d f;
       Some (case out of
           C_next f' \<Rightarrow> (case il_error f' of
               Some m \<Rightarrow> C_fail (make_error Internal (''CIL error at pc='' @ show_nat (unat (il_pc f')) @ '': '' @ m))
             | None \<Rightarrow> C_jump (f'\<lparr>il_pc := il_pc f' + ucast (c_length d)\<rparr>))
         | _ \<Rightarrow> out)
     }
   }"

definition cil_finish :: "cil_frame \<Rightarrow> gvalue" where
  "cil_finish f = (if il_stack f \<noteq> [] then fst (il_pop f) else v_uninit)"

text \<open>The loop may run forever.\<close>

partial_function (option) cil_loop :: "cil_fp \<Rightarrow> u8 list \<Rightarrow> cil_frame \<Rightarrow> gvalue result ub option" where
  "cil_loop fp code f =
     (if unat (il_pc f) < length code
      then (case cil_step fp code f of
          None \<Rightarrow> Some None
        | Some (C_next f') \<Rightarrow> cil_loop fp code f'
        | Some (C_jump f') \<Rightarrow> cil_loop fp code f'
        | Some (C_return v) \<Rightarrow> Some (Some (Inr v))
        | Some (C_fail e) \<Rightarrow> Some (Some (Inl e)))
      else Some (Some (Inr (cil_finish f))))"

declare cil_loop.simps [code]

definition cil_run :: "cil_fp \<Rightarrow> u8 list \<Rightarrow> u16 \<Rightarrow> u16 \<Rightarrow> gvalue list \<Rightarrow> gvalue result ub option" where
  "cil_run fp code num_locals num_args args =
     (if code = [] then Some (Some (Inl (make_error BadInput ''CIL: empty IL code'')))
      else cil_loop fp code \<lparr>il_pc = 0, il_stack = [], il_locals = replicate (unat num_locals) v_uninit,
             il_args = args @ replicate (unat num_args - length args) v_uninit, il_error = None\<rparr>)"

end
