(* ===== verification/Cil_Decode.thy ===== *)
theory Cil_Decode
  imports Cil_Opcode Jvm_Decode
begin

text \<open>
  The decoder of CIL instructions: it accepts exactly the encodings of the instructions its tables name, and the
  tables name the wrong instructions from \<open>0x73\<close> on.
\<close>

section \<open>Little-endian numbers\<close>

definition lbytes16 :: "u16 \<Rightarrow> u8 list" where
  "lbytes16 v = [ucast v, ucast (drop_bit 8 v)]"

definition lbytes32 :: "u32 \<Rightarrow> u8 list" where
  "lbytes32 v = [ucast v, ucast (drop_bit 8 v), ucast (drop_bit 16 v), ucast (drop_bit 24 v)]"

definition lbytes64 :: "u64 \<Rightarrow> u8 list" where
  "lbytes64 v = lbytes32 (ucast v) @ lbytes32 (ucast (drop_bit 32 v))"

lemma length_lbytes [simp]: "length (lbytes16 v) = 2" "length (lbytes32 w) = 4" "length (lbytes64 x) = 8"
  by (simp_all add: lbytes16_def lbytes32_def lbytes64_def)

lemma le32_skip: "le32 (ob @ cs) (length ob + i) = le32 cs i"
  by (simp add: le32_def nth_append add.assoc)

lemma le16_append [simp]: "le16 (ob @ cs) (length ob) = le16 cs 0"
  and le32_append [simp]: "le32 (ob @ cs) (length ob) = le32 cs 0"
  and le64_append [simp]: "le64 (ob @ cs) (length ob) = le64 cs 0"
  using le32_skip [of ob cs 0] le32_skip [of ob cs 4] by (simp_all add: le16_def le64_def nth_append)

lemma le16_lbytes16 [simp]: "le16 (lbytes16 v @ rest) 0 = v"
  unfolding le16_def lbytes16_def by (rule bit_word_eqI) (auto simp: bit_or_iff bit_push_bit_iff bit_ucast_iff bit_drop_bit_eq)

lemma le32_bytes: "or (or (or (ucast (ucast v :: u8)) (push_bit 8 (ucast (ucast (drop_bit 8 v) :: u8))))
    (push_bit 16 (ucast (ucast (drop_bit 16 v) :: u8)))) (push_bit 24 (ucast (ucast (drop_bit 24 v) :: u8))) = (v :: u32)"
  using be32_bytes32 [of v] by (simp add: ac_simps)

lemma le32_lbytes32 [simp]: "le32 (lbytes32 v @ rest) 0 = v"
  using le32_bytes [of v] by (simp add: le32_def lbytes32_def)

lemma le32_lbytes64: "le32 (lbytes64 v @ rest) 0 = ucast v" "le32 (lbytes64 v @ rest) 4 = ucast (drop_bit 32 v)"
  using le32_skip [of "lbytes32 (ucast v)" "lbytes32 (ucast (drop_bit 32 v)) @ rest" 0] by (simp_all add: lbytes64_def length_lbytes)

lemma word64_parts: "or (ucast (ucast v :: u32)) (push_bit 32 (ucast (ucast (drop_bit 32 v) :: u32))) = (v :: u64)"
  by (rule bit_word_eqI) (auto simp: bit_or_iff bit_push_bit_iff bit_ucast_iff bit_drop_bit_eq)

lemma le64_lbytes64 [simp]: "le64 (lbytes64 v @ rest) 0 = v"
  using le32_lbytes64 [of v rest] word64_parts [of v] by (simp add: le64_def)

lemma lbytes16_le16: "lbytes16 (le16 (a # b # cs) 0) = [a, b]"
  unfolding le16_def lbytes16_def
  by (auto intro!: bit_word_eqI simp: bit_or_iff bit_push_bit_iff bit_ucast_iff bit_drop_bit_eq no_high_bit)

lemma lbytes32_le32: "lbytes32 (le32 (a # b # c # d # cs) 0) = [a, b, c, d]"
  using bytes32_be32 [of d c b a] by (simp add: le32_def lbytes32_def bytes32_def ac_simps)

lemma halves_of: "ucast (or (ucast (x :: u32)) (push_bit 32 (ucast (y :: u32))) :: u64) = x"
  "ucast (drop_bit 32 (or (ucast (x :: u32)) (push_bit 32 (ucast (y :: u32))) :: u64)) = y"
proof -
  have high: "\<not> bit x (32 + n)" for n using bit_imp_le_length [of x "32 + n"] by auto
  show "ucast (or (ucast (x :: u32)) (push_bit 32 (ucast (y :: u32))) :: u64) = x"
    "ucast (drop_bit 32 (or (ucast (x :: u32)) (push_bit 32 (ucast (y :: u32))) :: u64)) = y"
    by (auto intro!: bit_word_eqI simp: bit_or_iff bit_push_bit_iff bit_ucast_iff bit_drop_bit_eq high)
qed

lemma le32_four: "le32 (a # b # c # d # cs) 4 = le32 cs 0"
  using le32_skip [of "[a, b, c, d]" cs 0] by (simp add: numeral_eq_Suc)

lemma lbytes64_le64: "lbytes64 (le64 (a # b # c # d # e # f # g # h # cs) 0) = [a, b, c, d, e, f, g, h]"
  using lbytes32_le32 [of a b c d "e # f # g # h # cs"] lbytes32_le32 [of e f g h cs] le32_four [of a b c d "e # f # g # h # cs"]
  by (simp add: le64_def lbytes64_def halves_of halves_of(2) [simplified])

text \<open>Enough bytes are the bytes of a number and a rest.\<close>

lemma split16: "2 \<le> length cs \<longleftrightarrow> (\<exists>v rest. cs = lbytes16 v @ rest)"
  using list_ge2 [of cs] by (auto simp del: le16_lbytes16) (metis append_Cons append_Nil lbytes16_le16)

lemma split32: "4 \<le> length cs \<longleftrightarrow> (\<exists>v rest. cs = lbytes32 v @ rest)"
  using list_ge4 [of cs] by auto (metis append_Cons append_Nil lbytes32_le32)

lemma split64: "8 \<le> length cs \<longleftrightarrow> (\<exists>v rest. cs = lbytes64 v @ rest)"
proof
  assume "8 \<le> length cs"
  then obtain v rest where v: "cs = lbytes32 v @ rest" using split32 [of cs] by auto
  then have "4 \<le> length rest" using \<open>8 \<le> length cs\<close> by simp
  then obtain w rest' where "rest = lbytes32 w @ rest'" using split32 by blast
  then have "cs = lbytes64 (or (ucast v) (push_bit 32 (ucast w))) @ rest'" using v by (simp add: lbytes64_def halves_of halves_of(2) [simplified])
  then show "\<exists>v rest. cs = lbytes64 v @ rest" by blast
qed auto

section \<open>Operands\<close>

datatype cil_arg = A_none | A_byte u8 | A_var u16 | A_word u32 | A_long u64 | A_float u32 | A_double u64

fun encode_arg :: "cil_arg \<Rightarrow> u8 list" where
  "encode_arg A_none = []"
| "encode_arg (A_byte b) = [b]"
| "encode_arg (A_var v) = lbytes16 v"
| "encode_arg (A_word v) = lbytes32 v"
| "encode_arg (A_long v) = lbytes64 v"
| "encode_arg (A_float v) = lbytes32 v"
| "encode_arg (A_double v) = lbytes64 v"

text \<open>Tokens, branch targets and numbers of four bytes are the words.\<close>

fun arg_fits :: "cil_format \<Rightarrow> cil_arg \<Rightarrow> bool" where
  "arg_fits f A_none = (f = CF_None)"
| "arg_fits f (A_byte b) = (f \<in> set [CF_ShortInlineBrTarget, CF_ShortInlineI, CF_ShortInlineVar])"
| "arg_fits f (A_var v) = (f = CF_InlineVar)"
| "arg_fits f (A_word v) = (f \<in> set [CF_InlineBrTarget, CF_InlineI, CF_InlineType, CF_InlineField, CF_InlineMethod, CF_InlineString,
     CF_InlineTok, CF_InlineSig])"
| "arg_fits f (A_long v) = (f = CF_InlineI8)"
| "arg_fits f (A_float v) = (f = CF_ShortInlineR)"
| "arg_fits f (A_double v) = (f = CF_InlineR)"

fun with_arg :: "cil_arg \<Rightarrow> cil_decoded \<Rightarrow> cil_decoded" where
  "with_arg A_none d = d"
| "with_arg (A_byte b) d = d\<lparr>c_i32 := scast b, c_u32 := ucast b, c_length := c_length d + 1\<rparr>"
| "with_arg (A_var v) d = d\<lparr>c_u32 := ucast v, c_i32 := ucast v, c_length := c_length d + 2\<rparr>"
| "with_arg (A_word v) d = d\<lparr>c_i32 := v, c_u32 := v, c_length := c_length d + 4\<rparr>"
| "with_arg (A_long v) d = d\<lparr>c_i64 := v, c_length := c_length d + 8\<rparr>"
| "with_arg (A_float v) d = d\<lparr>c_r4 := v, c_length := c_length d + 4\<rparr>"
| "with_arg (A_double v) d = d\<lparr>c_r8 := v, c_length := c_length d + 8\<rparr>"

lemma with_arg_op [simp]: "c_op (with_arg a d) = c_op d"
  by (cases a) simp_all

lemma cil_invalid_op [simp]: "c_op (cil_invalid d) = IL_Invalid"
  by (simp add: cil_invalid_def)

lemma operand_of_arg:
  assumes "arg_fits f a" "unat (c_length d) = length ob"
  shows "cil_decode_operand f (ob @ encode_arg a @ rest) d = Some (with_arg a d)"
  using assms by (cases a) (auto simp: cil_decode_operand_def Let_def)

lemma cil_formats:
  obtains "f = CF_None" | "f \<in> set [CF_ShortInlineBrTarget, CF_ShortInlineI, CF_ShortInlineVar]" | "f = CF_InlineVar" | "f = CF_InlineI8"
    | "f = CF_ShortInlineR" | "f = CF_InlineR" | "f = CF_InlineSwitch"
    | "f \<in> set [CF_InlineBrTarget, CF_InlineI, CF_InlineType, CF_InlineField, CF_InlineMethod, CF_InlineString, CF_InlineTok, CF_InlineSig]"
  by (cases f) auto

lemma arg_of_operand:
  assumes "cil_decode_operand f (ob @ cs) d = Some d'" "c_op d' \<noteq> IL_Invalid" "f \<noteq> CF_InlineSwitch" "unat (c_length d) = length ob"
  obtains a rest where "arg_fits f a" "cs = encode_arg a @ rest"
proof (cases f rule: cil_formats)
  case 1
  then show thesis using that [of A_none cs] by simp
next
  case 2
  then have "cs \<noteq> []" using assms by (auto simp: cil_decode_operand_def Let_def)
  then show thesis using 2 that [of "A_byte (hd cs)" "tl cs"] by simp
next
  case 3
  then have "2 \<le> length cs" using assms by (auto simp: cil_decode_operand_def Let_def split: if_splits)
  then show thesis using 3 that [of "A_var _"] by (auto simp: split16)
next
  case 4
  then have "8 \<le> length cs" using assms by (auto simp: cil_decode_operand_def Let_def split: if_splits)
  then show thesis using 4 that [of "A_long _"] by (auto simp: split64)
next
  case 5
  then have "4 \<le> length cs" using assms by (auto simp: cil_decode_operand_def Let_def split: if_splits)
  then show thesis using 5 that [of "A_float _"] by (auto simp: split32)
next
  case 6
  then have "8 \<le> length cs" using assms by (auto simp: cil_decode_operand_def Let_def split: if_splits)
  then show thesis using 6 that [of "A_double _"] by (auto simp: split64)
next
  case 7
  then show thesis using assms(3) by simp
next
  case 8
  then have "4 \<le> length cs" using assms by (auto simp: cil_decode_operand_def Let_def split: if_splits)
  then show thesis using 8 that [of "A_word _"] by (auto simp: split32)
qed

section \<open>Opcodes\<close>

lemma length_cil_table: "length cil_table = 256"
  by code_simp

definition cil_op_ok :: "cil_opcode \<Rightarrow> bool" where
  "cil_op_ok op \<longleftrightarrow> (if op \<le> 0xFF then ci_name (cil_table ! unat op) \<noteq> ci_name cil_unknown else op \<in> fst ` set kTwoByte)"

definition encode_op :: "cil_opcode \<Rightarrow> u8 list" where
  "encode_op op = (if op \<le> 0xFF then [ucast op] else [0xFE, ucast op])"

definition op_decoded :: "cil_opcode \<Rightarrow> cil_decoded" where
  "op_decoded op = cil_empty\<lparr>c_op := op, c_length := of_nat (length (encode_op op))\<rparr>"

lemma prefix_row: "ci_name (cil_table ! unat (0xFE :: u16)) = ci_name cil_unknown"
  by code_simp

lemma two_byte_ops:
  "list_all (\<lambda>e. \<not> fst e \<le> 0xFF \<and> fst e \<noteq> IL_Invalid \<and> find (\<lambda>e'. (ucast (fst e') :: u8) = ucast (fst e)) kTwoByte = Some e) kTwoByte"
  by code_simp

lemma unat_ucast_u8: "unat (ucast (b :: u8) :: u16) = unat b"
  by (transfer, simp add: take_bit_eq_mod)

lemma unat_ucast_u16: "op \<le> 0xFF \<Longrightarrow> unat (ucast (op :: u16) :: u8) = unat op"
proof (transfer)
  fix x :: int assume "take_bit LENGTH(16) x \<le> take_bit LENGTH(16) 0xFF"
  then have "take_bit 16 x < 2 ^ 8" by simp
  then have "take_bit 8 (take_bit 16 x) = take_bit 16 x" by (intro take_bit_int_eq_self) auto
  then show "(nat \<circ> take_bit LENGTH(8)) (take_bit LENGTH(16) x) = (nat \<circ> take_bit LENGTH(16)) x" by simp
qed

lemma ucast_twice: "(ucast (ucast (b :: u8) :: u16) :: u8) = b"
  by (rule bit_word_eqI) (simp add: bit_simps)

lemma small_op: "op \<le> 0xFF \<Longrightarrow> (ucast (ucast (op :: u16) :: u8) :: u16) = op"
  using unat_ucast_u8 [of "ucast op"] unat_ucast_u16 [of op] by (simp add: word_unat_eq_iff)

lemma op_ok_valid: "cil_op_ok op \<Longrightarrow> op \<noteq> IL_Invalid"
  using two_byte_ops by (auto simp: cil_op_ok_def list_all_iff split: if_splits)

lemma op_of_encoding:
  assumes "cil_op_ok op"
  shows "cil_decode_op (encode_op op @ rest) = op_decoded op"
proof (cases "op \<le> 0xFF")
  case True
  have "(ucast op :: u8) \<noteq> 0xFE"
  proof
    assume "(ucast op :: u8) = 0xFE"
    then have "op = 0xFE" using small_op [OF True] by auto
    then show False using assms True prefix_row by (simp add: cil_op_ok_def)
  qed
  then show ?thesis using assms True small_op [OF True] unat_ucast_u16 [OF True]
    by (simp add: cil_decode_op_def encode_op_def op_decoded_def cil_op_ok_def Let_def cil_empty_def)
next
  case False
  then obtain e where "e \<in> set kTwoByte" "op = fst e" using assms by (auto simp: cil_op_ok_def)
  then show ?thesis using False two_byte_ops
    by (auto simp: list_all_iff cil_decode_op_def encode_op_def op_decoded_def Let_def cil_empty_def)
qed

lemma encoding_of_op:
  assumes "c_op (cil_decode_op bs) \<noteq> IL_Invalid" "bs \<noteq> []"
  obtains op rest where "cil_op_ok op" "bs = encode_op op @ rest"
proof (cases "bs ! 0 = 0xFE")
  case False
  have le: "(ucast (hd bs) :: u16) \<le> 0xFF"
    using unsigned_less [of "hd bs", where ?'a = nat] by (simp add: word_le_nat_alt unat_ucast_u8)
  have "ci_name (cil_table ! unat (hd bs)) \<noteq> ci_name cil_unknown"
    using assms False by (auto simp: cil_decode_op_def Let_def hd_conv_nth split: if_splits)
  then have "cil_op_ok (ucast (hd bs))" using le by (simp add: cil_op_ok_def unat_ucast_u8)
  moreover have "bs = encode_op (ucast (hd bs)) @ tl bs" using assms(2) le ucast_twice [of "hd bs"] by (simp add: encode_op_def)
  ultimately show thesis by (rule that)
next
  case True
  then have "2 \<le> length bs" using assms by (auto simp: cil_decode_op_def Let_def split: if_splits)
  then obtain b cs where bs: "bs = 0xFE # b # cs" using True list_ge2 [of bs] by auto
  obtain e where e: "find (\<lambda>e. ucast (fst e) = b) kTwoByte = Some e"
    using assms(1) by (cases "find (\<lambda>e. ucast (fst e) = b) kTwoByte") (auto simp: bs cil_decode_op_def Let_def)
  have "e \<in> set kTwoByte" "ucast (fst e) = b" using e by (auto simp: find_Some_iff)
  then show thesis using that [of "fst e" cs] two_byte_ops by (auto simp: bs cil_op_ok_def encode_op_def list_all_iff)
qed

section \<open>The decoder is exact\<close>

lemma switch_row: "cil_op_ok op \<Longrightarrow> ci_operand (cil_info_of op) = CF_InlineSwitch \<longleftrightarrow> op = IL_Switch"
proof -
  have rows: "map (\<lambda>r. ci_operand r = CF_InlineSwitch) cil_table = replicate 0x45 False @ [True] @ replicate 186 False" by code_simp
  have two: "list_all (\<lambda>e. ci_operand (cil_info_of (fst e)) \<noteq> CF_InlineSwitch \<and> fst e \<noteq> IL_Switch) kTwoByte" by code_simp
  assume ok: "cil_op_ok op"
  show ?thesis
  proof (cases "op \<le> 0xFF")
    case True
    then have n: "unat op < 256" by (simp add: word_le_nat_alt)
    have "ci_operand (cil_table ! unat op) = CF_InlineSwitch \<longleftrightarrow> (replicate 0x45 False @ [True] @ replicate 186 False) ! unat op"
      using arg_cong [OF rows, of "\<lambda>xs. xs ! unat op"] n by (simp add: length_cil_table)
    also have "\<dots> \<longleftrightarrow> unat op = 0x45" using n by (auto simp: nth_append nth_Cons split: nat.split)
    finally show ?thesis using True by (simp add: cil_info_of_def word_unat_eq_iff)
  next
    case False
    then show ?thesis using ok two by (auto simp: cil_op_ok_def list_all_iff)
  qed
qed

lemma encoded_is_decoded:
  assumes "cil_op_ok op" "arg_fits (ci_operand (cil_info_of op)) a"
  shows "cil_decode (encode_op op @ encode_arg a @ rest) = Some (with_arg a (op_decoded op))"
proof -
  have "encode_op op @ encode_arg a @ rest \<noteq> []" "unat (c_length (op_decoded op)) = length (encode_op op)" "c_op (op_decoded op) = op"
    by (simp_all add: encode_op_def op_decoded_def)
  then show ?thesis
    using op_of_encoding [OF assms(1)] op_ok_valid [OF assms(1)] operand_of_arg [OF assms(2), of "op_decoded op" "encode_op op" rest]
    by (auto simp: cil_decode_def Let_def)
qed

lemma decoded_is_encoded:
  assumes "cil_decode bs = Some d" "c_op d \<noteq> IL_Invalid" "c_op d \<noteq> IL_Switch"
  shows "\<exists>op a rest. cil_op_ok op \<and> arg_fits (ci_operand (cil_info_of op)) a \<and> op \<noteq> IL_Switch
      \<and> bs = encode_op op @ encode_arg a @ rest \<and> d = with_arg a (op_decoded op)"
proof -
  have ne: "bs \<noteq> []" using assms by (auto simp: cil_decode_def)
  then have valid: "c_op (cil_decode_op bs) \<noteq> IL_Invalid" using assms by (auto simp: cil_decode_def Let_def split: if_splits)
  obtain op cs where op: "cil_op_ok op" "bs = encode_op op @ cs" using encoding_of_op [OF valid ne] by blast
  have base: "unat (c_length (op_decoded op)) = length (encode_op op)" "c_op (op_decoded op) = op"
    by (simp_all add: encode_op_def op_decoded_def)
  have d: "cil_decode_operand (ci_operand (cil_info_of op)) (encode_op op @ cs) (op_decoded op) = Some d"
    using assms ne op_of_encoding [OF op(1), of cs] op_ok_valid [OF op(1)] base by (auto simp: cil_decode_def Let_def op(2))
  have sw: "op \<noteq> IL_Switch"
  proof
    assume s: "op = IL_Switch"
    have f: "ci_operand (cil_info_of op) = CF_InlineSwitch" using switch_row [OF op(1)] s by simp
    have "c_op d = op \<or> c_op d = IL_Invalid"
      using d base by (auto simp: f cil_decode_operand_def cil_decode_switch_def Let_def cil_invalid_def split: if_splits bind_splits)
    then show False using assms s by simp
  qed
  then have f: "ci_operand (cil_info_of op) \<noteq> CF_InlineSwitch" using switch_row [OF op(1)] by simp
  obtain a rest where a: "arg_fits (ci_operand (cil_info_of op)) a" "cs = encode_arg a @ rest"
    using arg_of_operand [OF d assms(2) f base(1)] by blast
  then have "d = with_arg a (op_decoded op)" using operand_of_arg [OF a(1) base(1), of rest] d by simp
  then show ?thesis using op a sw by blast
qed

text \<open>The decoder of CIL accepts exactly the encodings of the instructions its tables name, whatever follows, and
  reports their operand and their length; the switch with its table of targets apart.\<close>

lemma cil_decode_exact:
  "(cil_decode bs = Some d \<and> c_op d \<noteq> IL_Invalid \<and> c_op d \<noteq> IL_Switch) =
   (\<exists>op a rest. cil_op_ok op \<and> arg_fits (ci_operand (cil_info_of op)) a \<and> op \<noteq> IL_Switch
      \<and> bs = encode_op op @ encode_arg a @ rest \<and> d = with_arg a (op_decoded op))"
proof -
  have "c_op (with_arg a (op_decoded op)) = op" for a op by (simp add: op_decoded_def)
  then show ?thesis using decoded_is_encoded [of bs d] encoded_is_decoded op_ok_valid by metis
qed

text \<open>The rows from \<open>0x73\<close> on are one place too late: a load of a field, \<open>0x7B\<close> with a token, is decoded as an
  instruction of one byte, and a throw swallows the four bytes that follow it; the rows of \<^verbatim>\<open>leave\<close> are six places too
  early.\<close>

lemma shifted_rows:
  "map_option c_length (cil_decode [0x7B, 1, 0, 0, 4]) = Some 1" "map_option c_length (cil_decode [0x7A, 1, 0, 0, 4]) = Some 5"
  "map_option c_op (cil_decode [0x73, 1, 0, 0, 6]) = Some IL_Invalid" "map_option c_op (cil_decode [0xDD, 0, 0, 0, 0]) = Some IL_Invalid"
  "cil_name IL_LdFld = ''throw''" "cil_name IL_Throw = ''unbox''" "cil_name IL_IsInst = ''castclass''" "cil_name IL_CastClass = ''newobj''"
  by code_simp+

end
