(* ===== verification/Cil_Lower.thy ===== *)
theory Cil_Lower
  imports Cil_Decode Jvm_Lower
begin

text \<open>
  \<^verbatim>\<open>cil/Lowerer.hpp\<close> and \<^verbatim>\<open>cil/Lowerer.cpp\<close>: the translation of CIL bytecode into a graph. Its state, its node
  builders and its branches are those of the lowerer of Java bytecode (the two files repeat the same code), so they are
  shared with \<^verbatim>\<open>Jvm_Lower\<close>; the instructions, the arguments and the messages are its own.
\<close>

section \<open>The stack and the slots\<close>

definition cil_pop :: "lowerer \<Rightarrow> (node_id \<times> lowerer) result" where
  "cil_pop s = (case lw_stack s of [] \<Rightarrow> thrown ''CIL lowerer: eval stack underflow'' | v # vs \<Rightarrow> Inr (v, s\<lparr>lw_stack := vs\<rparr>))"

definition cil_top :: "lowerer \<Rightarrow> node_id result" where
  "cil_top s = (case lw_stack s of [] \<Rightarrow> thrown ''CIL lowerer: eval stack empty'' | v # vs \<Rightarrow> Inr v)"

definition cil_arg_at :: "(nat \<Rightarrow> nat \<Rightarrow> string) \<Rightarrow> nat \<Rightarrow> lowerer \<Rightarrow> node_id result" where
  "cil_arg_at oor i s = (if i < length (lw_args s) then Inr (lw_args s ! i) else thrown (oor i (length (lw_args s))))"

section \<open>The cases of the switch\<close>

definition cil_lower_constants :: "(cil_opcode \<times> (graph \<Rightarrow> node_id \<times> graph)) list" where
  "cil_lower_constants =
     [(IL_LdI4_0, create_const_int 0), (IL_LdI4_1, create_const_int 1), (IL_LdI4_2, create_const_int 2), (IL_LdI4_3, create_const_int 3),
      (IL_LdI4_4, create_const_int 4), (IL_LdI4_5, create_const_int 5), (IL_LdI4_6, create_const_int 6), (IL_LdI4_7, create_const_int 7),
      (IL_LdI4_8, create_const_int 8), (IL_LdI4_M1, create_const_int (- 1)), (IL_LdNull, create NK_LdNull)]"

definition cil_lower_constant :: "cil_decoded \<Rightarrow> (graph \<Rightarrow> node_id \<times> graph) option" where
  "cil_lower_constant d =
     (if c_op d = IL_LdI4_S \<or> c_op d = IL_LdI4 then Some (create_const_int (scast (c_i32 d)))
      else if c_op d = IL_LdI8 then Some (create_const_int (c_i64 d))
      else map_of cil_lower_constants (c_op d))"

definition cil_slot :: "(cil_opcode \<times> nat) list \<Rightarrow> cil_opcode \<Rightarrow> cil_decoded \<Rightarrow> nat option" where
  "cil_slot short long d = (if c_op d = long then Some (unat (c_u32 d)) else map_of short (c_op d))"

definition cil_lower_slots :: "(nat \<Rightarrow> nat \<Rightarrow> string) \<Rightarrow> cil_decoded \<Rightarrow> lowerer \<Rightarrow> lowerer result option" where
  "cil_lower_slots oor d s =
     (case cil_slot [(IL_LdLoc_0, 0), (IL_LdLoc_1, 1), (IL_LdLoc_2, 2), (IL_LdLoc_3, 3)] IL_LdLoc_S d of
        Some i \<Rightarrow> Some (rbind (lw_at oor i s) (\<lambda>v. Inr (lw_push v s))) | None \<Rightarrow>
      case cil_slot [(IL_StLoc_0, 0), (IL_StLoc_1, 1), (IL_StLoc_2, 2), (IL_StLoc_3, 3)] IL_StLoc_S d of
        Some i \<Rightarrow> Some (rbind (cil_pop s) (\<lambda>(v, s). lw_set_local oor i v s)) | None \<Rightarrow>
      case cil_slot [(IL_LdArg_0, 0), (IL_LdArg_1, 1), (IL_LdArg_2, 2), (IL_LdArg_3, 3)] IL_LdArg_S d of
        Some i \<Rightarrow> Some (rbind (cil_arg_at oor i s) (\<lambda>v. Inr (lw_push v s))) | None \<Rightarrow> None)"

text \<open>Pure nodes on two operands, \<open>b\<close> popped first, and on one; effectful nodes on one.\<close>

definition cil_lower_binary :: "(cil_opcode \<times> (node_id \<Rightarrow> node_id \<Rightarrow> graph \<Rightarrow> node_id \<times> graph)) list" where
  "cil_lower_binary =
     (let k = (\<lambda>k a b. create_with k [a, b] 0 0) in
      [(IL_Add, gb_add), (IL_Sub, gb_sub), (IL_Mul, gb_mul), (IL_Div, gb_div), (IL_Ceq, k NK_Eq), (IL_Clt, k NK_Lt), (IL_Cgt, k NK_Gt)])"

definition cil_lower_unary :: "(cil_opcode \<times> node_kind) list" where
  "cil_lower_unary = [(IL_Conv_I4, NK_ConvI4), (IL_Conv_I8, NK_ConvI8), (IL_Conv_R8, NK_ConvR8)]"

definition cil_lower_effects :: "(cil_opcode \<times> node_kind) list" where
  "cil_lower_effects =
     [(IL_Box, NK_Box), (IL_Unbox, NK_Unbox), (IL_UnboxAny, NK_UnboxAny), (IL_IsInst, NK_IsInst), (IL_CastClass, NK_CastClass)]"

definition do_cil_binary :: "(node_id \<Rightarrow> node_id \<Rightarrow> graph \<Rightarrow> node_id \<times> graph) \<Rightarrow> lowerer \<Rightarrow> lowerer result" where
  "do_cil_binary f s = rbind (cil_pop s) (\<lambda>(b, s). rbind (cil_pop s) (\<lambda>(a, s). Inr (lw_push_new (f a b) s)))"

definition do_cil_unary :: "node_kind \<Rightarrow> lowerer \<Rightarrow> lowerer result" where
  "do_cil_unary k s = rbind (cil_pop s) (\<lambda>(a, s). Inr (lw_push_new (create_with k [a] 0 0) s))"

definition do_cil_effect :: "node_kind \<Rightarrow> lowerer \<Rightarrow> lowerer result" where
  "do_cil_effect k s = rbind (cil_pop s) (\<lambda>(a, s). let (nid, s) = make_effectful k [a] s in Inr (lw_push nid s))"

definition cil_branch_kinds :: "(cil_opcode \<times> node_kind) list" where
  "cil_branch_kinds =
     [(IL_Beq_S, NK_Eq), (IL_Beq, NK_Eq), (IL_Bne_Un_S, NK_Ne), (IL_Bne_Un, NK_Ne), (IL_Blt_S, NK_Lt), (IL_Blt, NK_Lt),
      (IL_Bgt_S, NK_Gt), (IL_Bgt, NK_Gt), (IL_Ble_S, NK_Lte), (IL_Ble, NK_Lte), (IL_Bge_S, NK_Gte), (IL_Bge, NK_Gte)]"

definition do_cil_branch :: "node_kind \<Rightarrow> lowerer \<Rightarrow> lowerer result" where
  "do_cil_branch k s = rbind (cil_pop s) (\<lambda>(b, s). rbind (cil_pop s) (\<lambda>(a, s).
     let (cmp, s) = lw_build (create_with k [a, b] 0 0) s in Inr (lower_if cmp s)))"

text \<open>The value returned is the top of the stack, if there is one.\<close>

definition cil_ret :: "lowerer \<Rightarrow> lowerer" where
  "cil_ret s = (case lw_stack s of [] \<Rightarrow> lower_return_void s | v # vs \<Rightarrow> lower_return v (s\<lparr>lw_stack := vs\<rparr>))"

definition cil_lower_unsupported :: "cil_decoded \<Rightarrow> nat \<Rightarrow> error" where
  "cil_lower_unsupported d pc = make_error UnsupportedNode
     (''CIL lowering: opcode '' @ [CHR 0x27] @ cil_name (c_op d) @ [CHR 0x27] @ '' (0x'' @ show_hex True 4 (unat (c_op d))
      @ '') not yet supported'' @ at_pc pc)"

definition cil_lower_control :: "cil_decoded \<Rightarrow> nat \<Rightarrow> lowerer \<Rightarrow> lowerer result" where
  "cil_lower_control d pc s =
     (if c_op d = IL_Ret then Inr (cil_ret s)
      else if c_op d \<in> set [IL_Brtrue_S, IL_Brtrue, IL_Brfalse_S, IL_Brfalse]
      then rbind (cil_pop s) (\<lambda>(cond, s). Inr (lower_if cond s))
      else case map_of cil_branch_kinds (c_op d) of Some k \<Rightarrow> do_cil_branch k s
      | None \<Rightarrow> Inl (cil_lower_unsupported d pc))"

definition cil_lower_op :: "(nat \<Rightarrow> nat \<Rightarrow> string) \<Rightarrow> cil_decoded \<Rightarrow> nat \<Rightarrow> lowerer \<Rightarrow> lowerer result" where
  "cil_lower_op oor d pc s =
     (if c_op d \<in> set [IL_Nop, IL_Br_S, IL_Br] then Inr s
      else if c_op d = IL_Dup then rbind (cil_top s) (\<lambda>v. Inr (lw_push v s))
      else if c_op d = IL_Pop then rbind (cil_pop s) (\<lambda>(v, s). Inr s)
      else case cil_lower_constant d of Some f \<Rightarrow> Inr (lw_push_new f s) | None \<Rightarrow>
      case cil_lower_slots oor d s of Some r \<Rightarrow> r | None \<Rightarrow>
      case map_of cil_lower_binary (c_op d) of Some f \<Rightarrow> do_cil_binary f s | None \<Rightarrow>
      case map_of cil_lower_unary (c_op d) of Some k \<Rightarrow> do_cil_unary k s | None \<Rightarrow>
      case map_of cil_lower_effects (c_op d) of Some k \<Rightarrow> do_cil_effect k s | None \<Rightarrow> cil_lower_control d pc s)"

section \<open>The method\<close>

lemma with_arg_length: "0 < unat (c_length (with_arg a (op_decoded op)))"
  by (cases a) (simp_all add: op_decoded_def encode_op_def)

lemma cil_lower_switch: "c_op d = IL_Switch \<Longrightarrow> cil_lower_op oor d pc s = Inl (cil_lower_unsupported d pc)"
  by (simp add: cil_lower_op_def cil_lower_constant_def cil_lower_constants_def cil_lower_slots_def cil_slot_def cil_lower_binary_def
      cil_lower_unary_def cil_lower_effects_def cil_lower_control_def cil_branch_kinds_def)

lemma cil_lower_advances:
  assumes "cil_decode bs = Some d" "c_op d \<noteq> IL_Invalid" "cil_lower_op oor d pc s = Inr s'"
  shows "0 < unat (c_length d)"
proof -
  have "c_op d \<noteq> IL_Switch" using assms(3) cil_lower_switch [of d oor pc s] by auto
  then obtain op a where "d = with_arg a (op_decoded op)" using assms(1,2) decoded_is_encoded [of bs d] by blast
  then show ?thesis by (simp add: with_arg_length)
qed

text \<open>The loop over the instructions; it ends because an instruction that is translated is not empty.\<close>

function cil_lower_loop :: "(nat \<Rightarrow> nat \<Rightarrow> string) \<Rightarrow> u8 list \<Rightarrow> nat \<Rightarrow> lowerer \<Rightarrow> lowerer result ub" where
  "cil_lower_loop oor bytes pc s =
     (if pc < length bytes
      then (case cil_decode (drop pc bytes) of None \<Rightarrow> None
        | Some d \<Rightarrow>
            if c_op d = IL_Invalid then Some (Inl (make_error BadInput (''invalid CIL opcode at pc='' @ show_nat pc)))
            else (case cil_lower_op oor d pc s of Inl e \<Rightarrow> Some (Inl e)
              | Inr s' \<Rightarrow> cil_lower_loop oor bytes (pc + unat (c_length d)) s'))
      else Some (Inr s))"
  by pat_completeness auto
termination
  by (relation "measure (\<lambda>(oor, bytes, pc, s). length bytes - pc)") (auto dest: cil_lower_advances)

declare cil_lower_loop.simps [simp del]

text \<open>The implicit return is added even after an explicit one.\<close>

definition cil_lower :: "(nat \<Rightarrow> nat \<Rightarrow> string) \<Rightarrow> u8 list \<Rightarrow> u16 \<Rightarrow> u16 \<Rightarrow> graph result ub" where
  "cil_lower oor bytes num_locals num_args =
     map_option (\<lambda>r. rbind r (\<lambda>s. let s = cil_ret s in rbind (verify_graph (lw_graph s)) (\<lambda>_. Inr (lw_graph s))))
       (cil_lower_loop oor bytes 0 (lower_start num_locals num_args))"

end
