(* ===== verification/Cil_Tiers.thy ===== *)
theory Cil_Tiers
  imports Cil_Interp Cil_Lower Jvm_Lower_Correct
begin

text \<open>
  The interpreter of CIL and the translation to graphs against one abstract machine on numbers: both refine it, so they
  agree on straight-line code.
\<close>

section \<open>The abstract machine\<close>

datatype cil_num = N32 i32 | N64 i64

fun num_value :: "cil_num \<Rightarrow> gvalue" where
  "num_value (N32 x) = from_int32 x"
| "num_value (N64 x) = from_int64 x"

datatype ring_op = R_Add | R_Sub | R_Mul

fun ring_fun :: "ring_op \<Rightarrow> 'a::len word \<Rightarrow> 'a word \<Rightarrow> 'a word" where
  "ring_fun R_Add = (+)"
| "ring_fun R_Sub = (-)"
| "ring_fun R_Mul = (*)"

fun num_op :: "ring_op \<Rightarrow> cil_num \<Rightarrow> cil_num \<Rightarrow> cil_num option" where
  "num_op r (N32 x) (N32 y) = Some (N32 (ring_fun r x y))"
| "num_op r (N64 x) (N64 y) = Some (N64 (ring_fun r x y))"
| "num_op r _ _ = None"

datatype cil_instr = CI_Nop | CI_Int i32 | CI_Long i64 | CI_LdLoc u8 | CI_StLoc u8 | CI_LdArg u8 | CI_Dup | CI_Pop | CI_Op ring_op

type_synonym cil_state = "cil_num list \<times> cil_num option list"

definition num_push :: "cil_num \<Rightarrow> cil_state \<Rightarrow> cil_state option" where
  "num_push n s = (if length (fst s) < kMaxEvalStack then Some (n # fst s, snd s) else None)"

fun num_exec :: "cil_num list \<Rightarrow> cil_instr \<Rightarrow> cil_state \<Rightarrow> cil_state option" where
  "num_exec args CI_Nop s = Some s"
| "num_exec args (CI_Int v) s = num_push (N32 v) s"
| "num_exec args (CI_Long v) s = num_push (N64 v) s"
| "num_exec args (CI_LdLoc k) s = (if unat k < length (snd s) then Option.bind (snd s ! unat k) (\<lambda>n. num_push n s) else None)"
| "num_exec args (CI_StLoc k) s = (case s of (n # st, ls) \<Rightarrow> if unat k < length ls then Some (st, ls[unat k := Some n]) else None | _ \<Rightarrow> None)"
| "num_exec args (CI_LdArg k) s = (if unat k < length args then num_push (args ! unat k) s else None)"
| "num_exec args CI_Dup s = (case s of (n # st, ls) \<Rightarrow> num_push n s | _ \<Rightarrow> None)"
| "num_exec args CI_Pop s = (case s of (n # st, ls) \<Rightarrow> Some (st, ls) | _ \<Rightarrow> None)"
| "num_exec args (CI_Op r) s = (case s of (b # a # st, ls) \<Rightarrow> Option.bind (num_op r a b) (\<lambda>n. num_push n (st, ls)) | _ \<Rightarrow> None)"

fun num_run :: "cil_num list \<Rightarrow> cil_instr list \<Rightarrow> cil_state \<Rightarrow> cil_state option" where
  "num_run args [] s = Some s"
| "num_run args (i # is) s = Option.bind (num_exec args i s) (num_run args is)"

definition num_result :: "cil_num list \<Rightarrow> gvalue" where
  "num_result st = (case st of [] \<Rightarrow> v_uninit | n # _ \<Rightarrow> num_value n)"

section \<open>The code\<close>

fun ring_opcode :: "ring_op \<Rightarrow> cil_opcode" where
  "ring_opcode R_Add = IL_Add"
| "ring_opcode R_Sub = IL_Sub"
| "ring_opcode R_Mul = IL_Mul"

fun ci_op :: "cil_instr \<Rightarrow> cil_opcode" where
  "ci_op CI_Nop = IL_Nop"
| "ci_op (CI_Int v) = IL_LdI4"
| "ci_op (CI_Long v) = IL_LdI8"
| "ci_op (CI_LdLoc k) = IL_LdLoc_S"
| "ci_op (CI_StLoc k) = IL_StLoc_S"
| "ci_op (CI_LdArg k) = IL_LdArg_S"
| "ci_op CI_Dup = IL_Dup"
| "ci_op CI_Pop = IL_Pop"
| "ci_op (CI_Op r) = ring_opcode r"

fun ci_arg :: "cil_instr \<Rightarrow> cil_arg" where
  "ci_arg (CI_Int v) = A_word v"
| "ci_arg (CI_Long v) = A_long v"
| "ci_arg (CI_LdLoc k) = A_byte k"
| "ci_arg (CI_StLoc k) = A_byte k"
| "ci_arg (CI_LdArg k) = A_byte k"
| "ci_arg _ = A_none"

definition ci_code :: "cil_instr \<Rightarrow> u8 list" where
  "ci_code i = encode_op (ci_op i) @ encode_arg (ci_arg i)"

definition ci_decoded :: "cil_instr \<Rightarrow> cil_decoded" where
  "ci_decoded i = with_arg (ci_arg i) (op_decoded (ci_op i))"

definition assemble :: "cil_instr list \<Rightarrow> u8 list" where
  "assemble is = concat (map ci_code is) @ encode_op IL_Ret"

definition ret_decoded :: cil_decoded where
  "ret_decoded = op_decoded IL_Ret"

lemma ci_rows: "list_all (\<lambda>(op, f). cil_op_ok op \<and> ci_operand (cil_info_of op) = f)
    [(IL_Nop, CF_None), (IL_LdI4, CF_InlineI), (IL_LdI8, CF_InlineI8), (IL_LdLoc_S, CF_ShortInlineVar), (IL_StLoc_S, CF_ShortInlineVar),
     (IL_LdArg_S, CF_ShortInlineVar), (IL_Dup, CF_None), (IL_Pop, CF_None), (IL_Add, CF_None), (IL_Sub, CF_None), (IL_Mul, CF_None), (IL_Ret, CF_None)]"
  by code_simp

lemma ci_ok: "cil_op_ok (ci_op i)" "arg_fits (ci_operand (cil_info_of (ci_op i))) (ci_arg i)"
proof -
  have "cil_op_ok (ci_op i) \<and> arg_fits (ci_operand (cil_info_of (ci_op i))) (ci_arg i)"
    using ci_rows by (cases i; cases "case i of CI_Op r \<Rightarrow> r | _ \<Rightarrow> R_Add") auto
  then show "cil_op_ok (ci_op i)" "arg_fits (ci_operand (cil_info_of (ci_op i))) (ci_arg i)" by auto
qed

lemma decode_ci: "cil_decode (ci_code i @ rest) = Some (ci_decoded i)"
  using encoded_is_decoded [OF ci_ok [of i], of rest] by (simp add: ci_code_def ci_decoded_def)

lemma decode_ret: "cil_decode (encode_op IL_Ret @ rest) = Some ret_decoded"
  using encoded_is_decoded [of IL_Ret A_none rest] ci_rows by (simp add: ret_decoded_def)

lemma ci_decoded_op [simp]: "c_op (ci_decoded i) = ci_op i" "c_op ret_decoded = IL_Ret"
  by (simp_all add: ci_decoded_def op_decoded_def ret_decoded_def)

lemma ci_valid: "ci_op i \<noteq> IL_Invalid"
  by (rule op_ok_valid [OF ci_ok(1)])

lemma ci_length: "unat (c_length (ci_decoded i)) = length (ci_code i)"
  by (cases i; cases "case i of CI_Op r \<Rightarrow> r | _ \<Rightarrow> R_Add") (simp_all add: ci_decoded_def ci_code_def op_decoded_def encode_op_def)

lemma ci_operands: "c_i32 (ci_decoded (CI_Int v)) = v" "c_i64 (ci_decoded (CI_Long w)) = w" "c_u32 (ci_decoded (CI_LdLoc k)) = ucast k"
  "c_u32 (ci_decoded (CI_StLoc k)) = ucast k" "c_u32 (ci_decoded (CI_LdArg k)) = ucast k"
  by (simp_all add: ci_decoded_def)

section \<open>The interpreter refines the machine\<close>

lemma tags_apart [simp]: "\<not> is_int64 (from_int32 x)" "\<not> is_int32 (from_int64 y)"
  by (simp_all add: is_int64_def is_int32_def from_int32_def from_int64_def)

definition local_value :: "cil_num option \<Rightarrow> gvalue" where
  "local_value n = (case n of None \<Rightarrow> v_uninit | Some n \<Rightarrow> num_value n)"

definition frame_of :: "cil_num list \<Rightarrow> u32 \<Rightarrow> cil_state \<Rightarrow> cil_frame" where
  "frame_of args pc s = \<lparr>il_pc = pc, il_stack = map num_value (fst s), il_locals = map local_value (snd s),
     il_args = map num_value args, il_error = None\<rparr>"

lemma frame_of_pc [simp]: "il_pc (frame_of args pc s) = pc"
  by (simp add: frame_of_def)

lemma push_frame: "num_push n s = Some t \<Longrightarrow> il_push (num_value n) (frame_of args pc s) = frame_of args pc t"
  by (auto simp: num_push_def il_push_def frame_of_def split: if_splits)

lemmas cil_switch = cil_exec_def il_constant_def il_constants_def il_load_local_def il_store_local_def il_load_arg_def il_slots_def
  cil_exec_values_def il_binary_def il_arith_ops_def il_bit_ops_def il_compare_ops_def il_unary_def

lemma arith_num:
  assumes "num_op r a b = Some n" "map_of (il_arith_ops fp) (ring_opcode r) = Some h"
  shows "h (num_value a) (num_value b) f = Some (num_value n, f)"
  using assms by (cases r; cases a; cases b)
    (auto simp: il_arith_ops_def il_arith_def wrap_add_i32_def wrap_sub_i32_def wrap_mul_i32_def wrap_add_i64_def wrap_sub_i64_def
      wrap_mul_i64_def)

lemma exec_num:
  assumes "num_exec args i s = Some t"
  shows "cil_exec fp (ci_decoded i) (frame_of args pc s) = Some (C_next (frame_of args pc t))"
proof (cases i)
  case (CI_LdLoc k)
  then obtain n where n: "unat k < length (snd s)" "snd s ! unat k = Some n" "num_push n s = Some t"
    using assms by (auto split: if_splits bind_splits)
  then have "map local_value (snd s) ! unat k = num_value n" by (simp add: local_value_def)
  then show ?thesis using n push_frame [OF n(3), of args pc] CI_LdLoc
    by (simp add: cil_switch ci_operands il_read_def unat_length_u32) (simp add: frame_of_def)
next
  case (CI_StLoc k)
  then show ?thesis using assms
    by (auto simp: cil_switch ci_operands il_write_local_def il_pop_def frame_of_def unat_length_u32 map_update local_value_def
        split: prod.splits list.splits if_splits)
next
  case (CI_LdArg k)
  then have n: "unat k < length args" "num_push (args ! unat k) s = Some t" using assms by (auto split: if_splits)
  then show ?thesis using push_frame [OF n(2), of args pc] CI_LdArg
    by (simp add: cil_switch ci_operands il_read_def unat_length_u32) (simp add: frame_of_def)
next
  case CI_Dup
  then obtain n st ls where s: "s = (n # st, ls)" "num_push n s = Some t" using assms by (auto split: prod.splits list.splits)
  then have "il_top (frame_of args pc s) = (num_value n, frame_of args pc s)" by (simp add: il_top_def frame_of_def)
  then show ?thesis using push_frame [OF s(2), of args pc] CI_Dup by (simp add: cil_switch)
next
  case CI_Pop
  then show ?thesis using assms by (auto simp: cil_switch il_pop_def frame_of_def split: prod.splits list.splits)
next
  case (CI_Op r)
  then obtain a b st ls n where s: "s = (b # a # st, ls)" "num_op r a b = Some n" "num_push n (st, ls) = Some t"
    using assms by (auto split: prod.splits list.splits bind_splits)
  obtain h where h: "map_of (il_arith_ops fp) (ring_opcode r) = Some h" by (cases r) (simp_all add: il_arith_ops_def)
  have "cil_exec fp (ci_decoded i) f = (let (b, f) = il_pop f; (a, f) = il_pop f in map_option (\<lambda>(v, f). C_next (il_push v f)) (h a b f))" for f
    using h by (cases r) (simp_all add: CI_Op cil_exec_def il_constant_def il_constants_def il_load_local_def il_store_local_def il_load_arg_def
        il_slots_def cil_exec_values_def il_binary_def)
  moreover have "il_pop (frame_of args pc s) = (num_value b, frame_of args pc (a # st, ls))"
    "il_pop (frame_of args pc (a # st, ls)) = (num_value a, frame_of args pc (st, ls))" by (simp_all add: il_pop_def frame_of_def s(1))
  ultimately show ?thesis using arith_num [OF s(2) h] push_frame [OF s(3), of args pc] by simp
qed (use assms push_frame [of "N32 _" s t args pc] push_frame [of "N64 _" s t args pc] in \<open>auto simp: cil_switch ci_operands\<close>)

lemma ci_code_length: "0 < length (ci_code i)" "length (ci_code i) < 256"
  by (simp_all add: ci_code_def encode_op_def) (cases "ci_arg i"; simp)

lemma step_num:
  assumes "num_exec args i s = Some t" "code = pre @ ci_code i @ rest" "unat pc = length pre" "int (length code) < 2 ^ 32"
  obtains pc' where "cil_step fp code (frame_of args pc s) = Some (C_jump (frame_of args pc' t))" "unat pc' = length (pre @ ci_code i)"
proof -
  have "unat (ucast (c_length (ci_decoded i)) :: u32) = length (ci_code i)" by (simp add: unat_length_u32 ci_length)
  then have "unat (pc + ucast (c_length (ci_decoded i))) = length (pre @ ci_code i)"
    using assms(2-4) by (subst unat_plus_if_size) (simp add: word_size)
  moreover have "cil_step fp code (frame_of args pc s) = Some (C_jump (frame_of args (pc + ucast (c_length (ci_decoded i))) t))"
    using exec_num [OF assms(1), of fp pc] ci_valid [of i]
    by (simp add: cil_step_def assms(2,3) decode_ci frame_of_def)
  ultimately show thesis using that by blast
qed

lemma run_num:
  "num_run args is s = Some t \<Longrightarrow> code = pre @ assemble is \<Longrightarrow> unat pc = length pre \<Longrightarrow> int (length code) < 2 ^ 32 \<Longrightarrow>
   cil_loop fp code (frame_of args pc s) = Some (Some (Inr (num_result (fst t))))"
proof (induction "is" arbitrary: pre pc s)
  case Nil
  have "cil_step fp code (frame_of args pc s) = Some (C_return (num_result (fst s)))"
    using Nil.prems(2,3) decode_ret [of "[]"]
    by (cases "fst s") (simp_all add: cil_step_def frame_of_def assemble_def cil_switch cil_exec_control_def il_branch_ops_def Let_def
        num_result_def il_pop_def)
  moreover have "unat pc < length code" using Nil.prems(2,3) by (simp add: assemble_def encode_op_def)
  ultimately show ?case using Nil.prems(1) by (simp add: cil_loop.simps [of fp code "frame_of args pc t"])
next
  case (Cons i "is")
  obtain u where u: "num_exec args i s = Some u" "num_run args is u = Some t" using Cons.prems(1) by (auto split: bind_splits)
  have code: "code = pre @ ci_code i @ assemble is" "code = (pre @ ci_code i) @ assemble is"
    using Cons.prems(2) by (simp_all add: assemble_def)
  obtain pc' where step: "cil_step fp code (frame_of args pc s) = Some (C_jump (frame_of args pc' u))" "unat pc' = length (pre @ ci_code i)"
    using step_num [OF u(1) code(1) Cons.prems(3,4)] by blast
  have "cil_loop fp code (frame_of args pc' u) = Some (Some (Inr (num_result (fst t))))"
    by (rule Cons.IH [OF u(2) code(2) step(2) Cons.prems(4)])
  moreover have "unat pc < length code" using Cons.prems(3) code(1) ci_code_length(1) [of i] by simp
  ultimately show ?case using step(1) by (simp add: cil_loop.simps [of fp code "frame_of args pc s"])
qed

section \<open>The lowerer refines the machine\<close>

definition shadow :: "cil_state \<Rightarrow> jvm_frame" where
  "shadow s = \<lparr>f_pc = 0, f_stack = map num_value (fst s), f_locals = map local_value (snd s), f_error = None\<rparr>"

definition csim :: "(node_id \<Rightarrow> i64) \<Rightarrow> cil_num list \<Rightarrow> cil_state \<Rightarrow> lowerer \<Rightarrow> bool" where
  "csim rho args s w \<longleftrightarrow> sim rho (shadow s) w \<and> list_all2 (means rho (lw_graph w)) (map num_value args) (lw_args w)"

lemma same_limit: "kMaxJvmStack = kMaxEvalStack"
  by (simp add: kMaxJvmStack_def kMaxEvalStack_def)

lemma push_shadow: "num_push n s = Some t \<Longrightarrow> push (num_value n) (shadow s) = shadow t \<and> length (f_stack (shadow s)) < kMaxJvmStack"
  by (auto simp: num_push_def push_def shadow_def same_limit split: if_splits)

lemma csim_extends:
  assumes "csim rho args s w" "sim rho (shadow t) w'" "extends (lw_graph w) (lw_graph w')" "lw_args w' = lw_args w"
  shows "csim rho args t w'"
  using assms means_list_extends [OF assms(3)] by (auto simp: csim_def)

lemma csim_push:
  assumes "csim rho args s w" "means rho (lw_graph w) (num_value n) j" "num_push n s = Some t"
  shows "csim rho args t (lw_push j w)"
proof (rule csim_extends [OF assms(1)])
  show "sim rho (shadow t) (lw_push j w)"
    using sim_push [of rho "shadow s" w "num_value n" j] push_shadow [OF assms(3)] assms(1,2) by (simp add: csim_def)
qed (simp_all add: lw_push_def)

lemma csim_pop:
  assumes "csim rho args (n # st, ls) w"
  obtains j w' where "cil_pop w = Inr (j, w')" "cil_top w = Inr j" "means rho (lw_graph w) (num_value n) j" "csim rho args (st, ls) w'"
    "lw_graph w' = lw_graph w"
proof -
  have "sim rho (shadow (n # st, ls)) w" "f_stack (shadow (n # st, ls)) = num_value n # map num_value st"
    using assms by (simp_all add: csim_def shadow_def)
  then obtain j w' where j: "lw_pop w = Inr (j, w')" "means rho (lw_graph w) (num_value n) j"
    "sim rho ((shadow (n # st, ls))\<lparr>f_stack := map num_value st\<rparr>) w'" "lw_graph w' = lw_graph w" "lw_stack w = j # lw_stack w'"
    by (rule sim_pop)
  then have w': "w' = w\<lparr>lw_stack := lw_stack w'\<rparr>" by (simp add: lw_pop_def)
  have "cil_pop w = Inr (j, w')" "cil_top w = Inr j" using j(1,5) by (simp_all add: cil_pop_def cil_top_def lw_pop_def)
  moreover have "lw_args w' = lw_args w" by (subst w') simp
  ultimately show thesis using that [of j w'] j csim_extends [OF assms, of "(st, ls)" w'] by (simp add: shadow_def)
qed

lemma build_args: "lw_build b w = (i, w') \<Longrightarrow> lw_args w' = lw_args w"
  by (auto simp: lw_build_def split: prod.splits)

lemma csim_const:
  assumes "csim rho args s w" "agrees (num_value n) x" "num_push n s = Some t"
  shows "csim rho args t (lw_push_new (create_const_int x) w)"
proof (rule csim_extends [OF assms(1)])
  have w: "reach (lw_graph w) w" "sim rho (shadow s) w" using assms(1) by (simp_all add: csim_def sim_def reach_def)
  show "sim rho (shadow t) (lw_push_new (create_const_int x) w)"
    using sim_push_const(1) [OF w(2) _ assms(2)] push_shadow [OF assms(3)] by simp
  show "extends (lw_graph w) (lw_graph (lw_push_new (create_const_int x) w))"
    using push_new_ok [OF w(1) adds_good_const(1) [OF w(1)]] by (simp add: reach_def)
  show "lw_args (lw_push_new (create_const_int x) w) = lw_args w"
    by (auto simp: lw_push_new_def lw_push_def split: prod.split dest: build_args)
qed

text \<open>The value of an operation on the low halves, or on all of both words.\<close>

lemma ring_low: "ucast (ring_fun r (x :: i64) y) = (ring_fun r (ucast x) (ucast y) :: i32)"
  by (cases r) (simp_all add: low_arith)

lemma num_op_agrees:
  assumes "num_op r a b = Some n" "agrees (num_value a) x" "agrees (num_value b) y"
  shows "agrees (num_value n) (ring_fun r x y)"
  using assms by (cases a; cases b) (auto simp: agrees_def ring_low)

lemma num_is_int: "is_int32 (num_value n) \<or> is_int64 (num_value n)"
  by (cases n) simp_all

definition ring_kind :: "ring_op \<Rightarrow> node_kind" where
  "ring_kind r = (case r of R_Add \<Rightarrow> NK_Add | R_Sub \<Rightarrow> NK_Sub | R_Mul \<Rightarrow> NK_Mul)"

lemma ring_computes: "computes (ring_kind r) (ring_fun r)"
  using computes_kinds by (cases r) (simp_all add: ring_kind_def)

lemma csim_op:
  assumes "csim rho args (b # a # st, ls) w" "num_op r a b = Some n" "num_push n (st, ls) = Some t"
  shows "\<exists>w'. do_cil_binary (\<lambda>a b. create_with (ring_kind r) [a, b] 0 0) w = Inr w' \<and> csim rho args t w'"
proof -
  obtain j u where u: "cil_pop w = Inr (j, u)" "means rho (lw_graph w) (num_value b) j" "csim rho args (a # st, ls) u" "lw_graph u = lw_graph w"
    using csim_pop [OF assms(1)] by blast
  obtain i v where v: "cil_pop u = Inr (i, v)" "means rho (lw_graph u) (num_value a) i" "csim rho args (st, ls) v" "lw_graph v = lw_graph u"
    using csim_pop [OF u(3)] by blast
  obtain x y where xy: "denotes rho (lw_graph v) i x" "agrees (num_value a) x" "denotes rho (lw_graph v) j y" "agrees (num_value b) y"
    using u(2,4) v(2,4) num_is_int by (auto simp: means_def)
  have s: "sim rho (shadow (st, ls)) v" using v(3) by (simp add: csim_def)
  obtain k z where z: "lw_build (create_with (ring_kind r) [i, j] 0 0) v = (k, z)" "sim rho (shadow (st, ls)) z"
    "denotes rho (lw_graph z) k (ring_fun r x y)" "in_graph (lw_graph z) k" "extends (lw_graph v) (lw_graph z)"
    by (rule sim_node [OF s ring_computes [of r] xy(1,3)])
  have "csim rho args (st, ls) z" by (rule csim_extends [OF v(3) z(2,5) build_args [OF z(1)]])
  moreover have "means rho (lw_graph z) (num_value n) k"
    using z(3,4) num_op_agrees [OF assms(2) xy(2,4)] by (auto simp: means_def)
  ultimately have "csim rho args t (lw_push k z)" using assms(3) by (rule csim_push)
  then show ?thesis using u(1) v(1) z(1) by (simp add: do_cil_binary_def lw_push_new_def)
qed

lemmas cil_lower_switches = cil_lower_op_def cil_lower_constant_def cil_lower_constants_def cil_lower_slots_def cil_slot_def

lemma ring_lowered:
  "cil_lower_op oor (ci_decoded (CI_Op r)) pc w = do_cil_binary (\<lambda>a b. create_with (ring_kind r) [a, b] 0 0) w"
  by (cases r) (simp_all add: cil_lower_switches cil_lower_binary_def builders ring_kind_def Let_def)

lemma lower_num:
  assumes "num_exec args i s = Some t" "csim rho args s w"
  shows "\<exists>w'. cil_lower_op oor (ci_decoded i) pc w = Inr w' \<and> csim rho args t w'"
proof (cases i)
  case CI_Nop
  then show ?thesis using assms by (simp add: cil_lower_op_def)
next
  case (CI_Int v)
  then show ?thesis using assms csim_const [OF assms(2), of "N32 v" "scast v" t]
    by (simp add: cil_lower_switches ci_operands agrees_def low_extended)
next
  case (CI_Long v)
  then show ?thesis using assms csim_const [OF assms(2), of "N64 v" v t] by (simp add: cil_lower_switches ci_operands agrees_def)
next
  case (CI_LdLoc k)
  then obtain n where n: "unat k < length (snd s)" "snd s ! unat k = Some n" "num_push n s = Some t"
    using assms(1) by (auto split: if_splits bind_splits)
  have "sim rho (shadow s) w" using assms(2) by (simp add: csim_def)
  from sim_local [OF this, of "unat k"] have "unat k < length (lw_locals w)" "means rho (lw_graph w) (num_value n) (lw_locals w ! unat k)"
    using n(1,2) by (simp_all add: shadow_def local_value_def)
  then show ?thesis using csim_push [OF assms(2) _ n(3)] CI_LdLoc by (simp add: cil_lower_switches ci_operands lw_at_def unat_length_u32)
next
  case (CI_StLoc k)
  then obtain n st ls where s: "s = (n # st, ls)" "unat k < length ls" "t = (st, ls[unat k := Some n])"
    using assms(1) by (auto split: prod.splits list.splits if_splits)
  obtain j u where u: "cil_pop w = Inr (j, u)" "means rho (lw_graph w) (num_value n) j" "csim rho args (st, ls) u" "lw_graph u = lw_graph w"
    using csim_pop [OF assms(2) [unfolded s(1)]] by blast
  have sim: "sim rho (shadow (st, ls)) u" using u(3) by (simp add: csim_def)
  have "unat k < length (lw_locals u)" using sim_local(1) [OF sim, of "unat k"] s(2) by (simp add: shadow_def)
  moreover have "sim rho (shadow t) (u\<lparr>lw_locals := (lw_locals u)[unat k := j]\<rparr>)"
    using sim_set_local [OF sim, of "num_value n" j "unat k"] u(2,4) by (simp add: shadow_def s(3) map_update local_value_def)
  then have "csim rho args t (u\<lparr>lw_locals := (lw_locals u)[unat k := j]\<rparr>)" by (rule csim_extends [OF u(3)]) simp_all
  ultimately show ?thesis using u(1) CI_StLoc by (simp add: cil_lower_switches ci_operands lw_set_local_def unat_length_u32)
next
  case (CI_LdArg k)
  then have n: "unat k < length args" "num_push (args ! unat k) s = Some t" using assms(1) by (auto split: if_splits)
  have "unat k < length (lw_args w)" "means rho (lw_graph w) (num_value (args ! unat k)) (lw_args w ! unat k)"
    using assms(2) n(1) by (auto simp: csim_def list_all2_conv_all_nth)
  then show ?thesis using csim_push [OF assms(2) _ n(2)] CI_LdArg by (simp add: cil_lower_switches ci_operands cil_arg_at_def unat_length_u32)
next
  case CI_Dup
  then obtain n st ls where s: "s = (n # st, ls)" "num_push n s = Some t" using assms(1) by (auto split: prod.splits list.splits)
  obtain j where "cil_top w = Inr j" "means rho (lw_graph w) (num_value n) j" using csim_pop [OF assms(2) [unfolded s(1)]] by blast
  then show ?thesis using csim_push [OF assms(2) _ s(2)] CI_Dup by (simp add: cil_lower_op_def)
next
  case CI_Pop
  then obtain n st ls where s: "s = (n # st, ls)" "t = (st, ls)" using assms(1) by (auto split: prod.splits list.splits)
  obtain j u where "cil_pop w = Inr (j, u)" "csim rho args (st, ls) u" using csim_pop [OF assms(2) [unfolded s(1)]] by blast
  then show ?thesis using s(2) CI_Pop by (simp add: cil_lower_op_def)
next
  case (CI_Op r)
  then obtain a b st ls n where s: "s = (b # a # st, ls)" "num_op r a b = Some n" "num_push n (st, ls) = Some t"
    using assms(1) by (auto split: prod.splits list.splits bind_splits)
  then show ?thesis using csim_op [OF assms(2) [unfolded s(1)] s(2,3)] by (simp add: CI_Op ring_lowered)
qed

lemma cil_ret_eq: "cil_ret = lower_end"
  by (intro ext) (simp add: cil_ret_def lower_end_def)

lemma ret_lowered: "cil_lower_op oor ret_decoded pc w = Inr (cil_ret w)"
  by (simp add: cil_lower_switches cil_lower_binary_def cil_lower_unary_def cil_lower_effects_def cil_lower_control_def)

lemma ret_num:
  assumes "csim rho args s w"
  shows "first_return rho (lw_graph (cil_ret w)) (num_result (fst s))" "lw_ok (cil_ret w)"
proof -
  have sim: "sim rho (shadow s) w" using assms by (simp add: csim_def)
  have "first_return rho (lw_graph (cil_ret w)) (num_result (fst s)) \<and> lw_ok (cil_ret w)"
  proof (cases "fst s")
    case Nil
    then have "lw_stack w = []" using sim by (simp add: sim_def shadow_def)
    then show ?thesis using lower_return_void_first [OF sim] Nil by (simp add: cil_ret_def num_result_def)
  next
    case (Cons n st)
    then obtain j js where j: "lw_stack w = j # js" "means rho (lw_graph w) (num_value n) j"
      using sim by (auto simp: sim_def shadow_def list_all2_Cons1)
    obtain u where u: "cil_pop w = Inr (j, u)" "csim rho args (st, snd s) u" "lw_graph u = lw_graph w" "u = w\<lparr>lw_stack := js\<rparr>"
    proof -
      have "csim rho args (n # st, snd s) w" using assms Cons by (metis prod.collapse)
      then obtain i u where u: "cil_pop w = Inr (i, u)" "csim rho args (st, snd s) u" "lw_graph u = lw_graph w" by (rule csim_pop)
      moreover have "cil_pop w = Inr (j, w\<lparr>lw_stack := js\<rparr>)" using j(1) by (simp add: cil_pop_def)
      ultimately show thesis using that by auto
    qed
    have "sim rho (shadow (st, snd s)) u" "means rho (lw_graph u) (num_value n) j" using u(2,3) j(2) by (simp_all add: csim_def)
    from lower_return_first [OF this] show ?thesis using u(4) Cons j(1) by (simp add: cil_ret_def num_result_def)
  qed
  then show "first_return rho (lw_graph (cil_ret w)) (num_result (fst s))" "lw_ok (cil_ret w)" by simp_all
qed

lemma lower_run_num:
  "num_run args is s = Some t \<Longrightarrow> csim rho args s w \<Longrightarrow> code = pre @ assemble is \<Longrightarrow>
   \<exists>w'. cil_lower_loop oor code (length pre) w = Some (Inr w') \<and> first_return rho (lw_graph w') (num_result (fst t)) \<and> lw_ok w'"
proof (induction "is" arbitrary: pre s w)
  case Nil
  have "cil_decode (drop (length pre) code) = Some ret_decoded" using Nil.prems(3) decode_ret [of "[]"] by (simp add: assemble_def)
  moreover have "length code = length pre + unat (c_length ret_decoded)"
    using Nil.prems(3) by (simp add: assemble_def ret_decoded_def op_decoded_def encode_op_def)
  moreover have "0 < unat (c_length ret_decoded)" by (simp add: ret_decoded_def op_decoded_def encode_op_def)
  moreover have "cil_lower_loop oor code (length code) (cil_ret w) = Some (Inr (cil_ret w))" by (simp add: cil_lower_loop.simps [of oor code "length code"])
  ultimately have "cil_lower_loop oor code (length pre) w = Some (Inr (cil_ret w))"
    by (simp add: cil_lower_loop.simps [of oor code "length pre"] ret_lowered)
  then show ?case using ret_num [OF Nil.prems(2)] Nil.prems(1) by simp
next
  case (Cons i "is")
  obtain u where u: "num_exec args i s = Some u" "num_run args is u = Some t" using Cons.prems(1) by (auto split: bind_splits)
  obtain w' where w': "cil_lower_op oor (ci_decoded i) (length pre) w = Inr w'" "csim rho args u w'"
    using lower_num [OF u(1) Cons.prems(2)] by blast
  have code: "code = (pre @ ci_code i) @ assemble is" using Cons.prems(3) by (simp add: assemble_def)
  have "cil_decode (drop (length pre) code) = Some (ci_decoded i)" by (simp add: code decode_ci)
  moreover have "length pre < length code" using code ci_code_length(1) [of i] by simp
  ultimately have "cil_lower_loop oor code (length pre) w = cil_lower_loop oor code (length (pre @ ci_code i)) w'"
    using w'(1) ci_valid [of i] by (simp add: cil_lower_loop.simps [of oor code "length pre"] ci_length)
  then show ?case using Cons.IH [OF u(2) w'(2) code] by simp
qed

section \<open>Agreement\<close>

lemma start_args: "lw_args (lower_start num_locals num_args) = [2 + unat num_locals..<2 + unat num_locals + unat num_args]"
proof -
  obtain ls g as h where e: "create_phis (unat num_locals) (lw_graph new_lowerer) = (ls, g)" "create_phis (unat num_args) g = (as, h)"
    by (metis surj_pair)
  have g: "good_graph g" "g_size g = 1 + unat num_locals" using create_phis_spec [OF start_graph(1) e(1)] start_graph(2) by simp_all
  have "as = [2 + unat num_locals..<2 + unat num_locals + unat num_args]" using create_phis_spec [OF g(1) e(2)] g(2) by simp
  then show ?thesis by (simp add: lower_start_def e Let_def)
qed

lemma csim_start:
  assumes "length args = unat num_args" "list_all2 agrees (map num_value args) (map rho [2 + unat num_locals..<2 + unat num_locals + unat num_args])"
  shows "csim rho args ([], replicate (unat num_locals) None) (lower_start num_locals num_args)"
proof -
  have "sim rho (start_frame num_locals num_args []) (lower_start num_locals num_args)"
    by (rule sim_start) (auto simp: start_frame_def Let_def list_all2_conv_all_nth agrees_def is_int32_def is_int64_def v_uninit_def)
  moreover have "start_frame num_locals num_args [] = shadow ([], replicate (unat num_locals) None)"
    by (simp add: start_frame_def Let_def shadow_def local_value_def)
  moreover obtain as h where h: "lower_start num_locals num_args = new_lowerer\<lparr>lw_graph := h, lw_locals := [2..<2 + unat num_locals], lw_args := as\<rparr>"
    "g_size h = 1 + unat num_locals + unat num_args" "\<forall>i. 2 \<le> i \<and> in_graph h i \<longrightarrow> view h i = new_view NK_Phi"
    by (rule lower_start_spec)
  moreover have "means rho h v i" if "2 \<le> i" "i \<le> g_size h" "agrees v (rho i)" for v i
  proof -
    have i: "in_graph h i" using that by (simp add: in_graph_def)
    then have "denotes rho h i (rho i)" using h(3) that(1) by (intro denotes_phi) simp_all
    then show ?thesis using i that(3) by (auto simp: means_def)
  qed
  then have "list_all2 (means rho h) (map num_value args) [2 + unat num_locals..<2 + unat num_locals + unat num_args]"
    using assms h(2) unfolding list_all2_map2 list_all2_conv_all_nth by (auto simp del: upt_Suc)
  ultimately show ?thesis using start_args [of num_locals num_args] by (simp add: csim_def)
qed

text \<open>C27: the two tiers for CIL agree: on straight-line code over constants, locals, arguments, stack operations, addition,
  subtraction and multiplication of ints and longs that the abstract machine runs without a failure, the interpreter
  returns the machine's result, and the lowerer makes a graph whose first return node denotes it, when the phi of each
  argument stands for the argument.\<close>

theorem cil_tiers_agree:
  assumes "num_run args is ([], replicate (unat num_locals) None) = Some t" "int (length (assemble is)) < 2 ^ 32"
    and "length args = unat num_args"
    and "list_all2 agrees (map num_value args) (map rho [2 + unat num_locals..<2 + unat num_locals + unat num_args])"
  shows "cil_run fp (assemble is) num_locals num_args (map num_value args) = Some (Some (Inr (num_result (fst t))))
    \<and> (\<exists>g. cil_lower oor (assemble is) num_locals num_args = Some (Inr g) \<and> returned rho g (num_result (fst t)))"
proof
  let ?s = "([], replicate (unat num_locals) None) :: cil_state"
  have ne: "assemble is \<noteq> []" by (simp add: assemble_def encode_op_def)
  have "cil_loop fp (assemble is) (frame_of args 0 ?s) = Some (Some (Inr (num_result (fst t))))"
    by (rule run_num [OF assms(1), of _ "[]"]) (use assms(2) in simp_all)
  then show "cil_run fp (assemble is) num_locals num_args (map num_value args) = Some (Some (Inr (num_result (fst t))))"
    using ne assms(3) by (simp add: cil_run_def frame_of_def local_value_def)
  obtain w where w: "cil_lower_loop oor (assemble is) 0 (lower_start num_locals num_args) = Some (Inr w)"
    "first_return rho (lw_graph w) (num_result (fst t))" "lw_ok w"
    using lower_run_num [OF assms(1) csim_start [OF assms(3,4)], of "assemble is" "[]" oor] by auto
  have "reach (lw_graph w) (cil_ret w)" unfolding cil_ret_eq using w(3) by (intro lower_end_ok) (simp add: reach_def)
  then have e: "extends (lw_graph w) (lw_graph (cil_ret w))" "verifier_ok (lw_graph (cil_ret w))"
    by (simp_all add: reach_def lw_ok_def good_graph_verifies)
  then have "cil_lower oor (assemble is) num_locals num_args = Some (Inr (lw_graph (cil_ret w)))"
    using w(1) by (simp add: cil_lower_def Let_def verify_Inr_iff [THEN iffD2])
  then show "\<exists>g. cil_lower oor (assemble is) num_locals num_args = Some (Inr g) \<and> returned rho g (num_result (fst t))"
    using first_return_returned [OF first_return_extends [OF e(1) w(2)]] by blast
qed

text \<open>Three times the argument, twice: 42 for 7.\<close>

definition demo_cil :: "cil_instr list" where
  "demo_cil = [CI_LdArg 0, CI_Int 3, CI_Op R_Mul, CI_StLoc 0, CI_LdLoc 0, CI_LdLoc 0, CI_Op R_Add]"

theorem cil_tiers_agree_witness:
  "\<forall>fp oor. cil_run fp (assemble demo_cil) 1 1 [from_int32 7] = Some (Some (Inr (from_int32 42)))
   \<and> (\<exists>g. cil_lower oor (assemble demo_cil) 1 1 = Some (Inr g) \<and> returned (\<lambda>_. 7) g (from_int32 42))"
proof (intro allI)
  fix fp oor
  have "num_run [N32 7] demo_cil ([], replicate (unat (1 :: u16)) None) = Some ([N32 42], [Some (N32 21)])"
    by (simp add: demo_cil_def num_push_def kMaxEvalStack_def)
  moreover have "int (length (assemble demo_cil)) < 2 ^ 32" by (simp add: demo_cil_def assemble_def ci_code_def encode_op_def)
  moreover have "list_all2 agrees (map num_value [N32 7]) (map (\<lambda>_. 7) [2 + unat (1 :: u16)..<2 + unat (1 :: u16) + unat (1 :: u16)])"
    by (simp add: agrees_def)
  ultimately show "cil_run fp (assemble demo_cil) 1 1 [from_int32 7] = Some (Some (Inr (from_int32 42)))
      \<and> (\<exists>g. cil_lower oor (assemble demo_cil) 1 1 = Some (Inr g) \<and> returned (\<lambda>_. 7) g (from_int32 42))"
    using cil_tiers_agree [of "[N32 7]" demo_cil 1 "([N32 42], [Some (N32 21)])" 1 "\<lambda>_. 7" fp oor] by (simp add: num_result_def)
qed

end
