(* ===== verification/Check_Passes.thy ===== *)
theory Check_Passes
  imports Sweeps
begin

text \<open>
  The passes over checks, allocations and virtual calls: \<^verbatim>\<open>ir/passes/BCE.cpp\<close>,
  \<^verbatim>\<open>ir/passes/EscapeAnalysis.cpp\<close>, \<^verbatim>\<open>ir/passes/ICStubEmission.cpp\<close> and
  \<^verbatim>\<open>tier3_diamond/Devirtualization.cpp\<close>.
\<close>

section \<open>Bounds check elimination\<close>

definition bce_const_int :: "graph \<Rightarrow> node_id \<Rightarrow> i64 option" where
  "bce_const_int g nid =
     (if \<not> id_valid nid \<or> nid > g_size g then None
      else if n_kind (node g nid) \<noteq> NK_ConstInt then None
      else if flags_has (n_flags (node g nid)) NF_IsConst then Some (const_value (side g nid)) else None)"

record iv_info =
  iv_phi :: node_id
  iv_initial :: i64
  iv_step :: i64

text \<open>\<^const>\<open>None\<close> is the result \<^verbatim>\<open>false\<close>.\<close>

definition is_induction_variable :: "graph \<Rightarrow> node_id \<Rightarrow> iv_info option" where
  "is_induction_variable g nid =
     (if \<not> id_valid nid \<or> nid > g_size g then None
      else if n_kind (node g nid) \<noteq> NK_Phi then None
      else let inputs = data_inputs g nid
        in if length inputs < 2 then None
           else let in0 = inputs ! 0; in1 = inputs ! 1
             in case bce_const_int g in0 of None \<Rightarrow> None
                | Some initial \<Rightarrow>
                    if id_valid in1 \<and> in1 \<le> g_size g \<and> n_kind (node g in1) = NK_Add
                    then let add_inputs = data_inputs g in1
                      in if length add_inputs = 2
                         then (case (if add_inputs ! 0 = nid then bce_const_int g (add_inputs ! 1) else None) of
                                 Some step \<Rightarrow> Some \<lparr>iv_phi = nid, iv_initial = initial, iv_step = step\<rparr>
                               | None \<Rightarrow>
                                   (case (if add_inputs ! 1 = nid then bce_const_int g (add_inputs ! 0) else None) of
                                      Some step \<Rightarrow> Some \<lparr>iv_phi = nid, iv_initial = initial, iv_step = step\<rparr>
                                    | None \<Rightarrow> None))
                         else None
                    else None)"

definition bce_const_node :: "node_id \<Rightarrow> bool \<times> graph \<Rightarrow> bool \<times> graph" where
  "bce_const_node nid s =
     (let g = snd s; n = node g nid; inputs = data_inputs g nid
      in if node_is_dead n then s
         else if n_kind n \<noteq> NK_CheckBounds then s
         else if length inputs \<noteq> 2 then s
         else case (bce_const_int g (inputs ! 0), bce_const_int g (inputs ! 1)) of
                (Some idx_val, Some len_val) \<Rightarrow>
                  if 0 \<le>s idx_val \<and> idx_val <s len_val then (True, mark_dead nid g) else s
              | _ \<Rightarrow> s)"

text \<open>The map from index nodes to checks as the pairs in order of their first insertion.\<close>

fun add_check :: "node_id \<Rightarrow> node_id \<Rightarrow> (node_id \<times> node_id list) list \<Rightarrow> (node_id \<times> node_id list) list" where
  "add_check idx nid [] = [(idx, [nid])]"
| "add_check idx nid ((k, checks) # rest) =
     (if k = idx then (k, checks @ [nid]) # rest else (k, checks) # add_check idx nid rest)"

definition bounds_by_idx :: "graph \<Rightarrow> (node_id \<times> node_id list) list" where
  "bounds_by_idx g = fold (\<lambda>nid groups.
     let n = node g nid; inputs = data_inputs g nid
     in if node_is_dead n then groups
        else if n_kind n \<noteq> NK_CheckBounds then groups
        else if length inputs \<noteq> 2 then groups
        else add_check (inputs ! 0) nid groups) (node_ids g) []"

definition bce_iv_check :: "iv_info \<Rightarrow> node_id \<Rightarrow> bool \<times> graph \<Rightarrow> bool \<times> graph" where
  "bce_iv_check iv check s =
     (let g = snd s; inputs = data_inputs g check
      in if node_is_dead (node g check) then s
         else if length inputs \<noteq> 2 then s
         else case bce_const_int g (inputs ! 1) of None \<Rightarrow> s
              | Some len_val \<Rightarrow>
                  if iv_initial iv <s len_val
                  then if iv_initial iv = 0 \<and> iv_step iv = 1 \<and> 0 <s len_val then (True, mark_dead check g) else s
                  else s)"

definition bce_group :: "node_id \<times> node_id list \<Rightarrow> bool \<times> graph \<Rightarrow> bool \<times> graph" where
  "bce_group entry s =
     (case is_induction_variable (snd s) (fst entry) of None \<Rightarrow> s
      | Some iv \<Rightarrow> if iv_initial iv <s 0 \<or> iv_step iv \<le>s 0 then s else fold (bce_iv_check iv) (snd entry) s)"

text \<open>\<open>order\<close> is the iteration order of the hash map.\<close>

definition bce_run ::
  "((node_id \<times> node_id list) list \<Rightarrow> (node_id \<times> node_id list) list) \<Rightarrow> bool \<Rightarrow> graph \<Rightarrow> (graph \<times> unit result) ub" where
  "bce_run order debug g =
     (let s = fold bce_const_node (node_ids g) (False, g);
          s = fold bce_group (order (bounds_by_idx (snd s))) s
      in Some (snd s, if fst s then verify_if_enabled debug (snd s) else Inr ()))"

section \<open>Escape analysis\<close>

definition allocations :: "graph \<Rightarrow> node_id list" where
  "allocations g = filter (\<lambda>nid. \<not> node_is_dead (node g nid)
     \<and> n_kind (node g nid) \<in> set [NK_Allocate, NK_NewObj, NK_NewArr, NK_Box]) (node_ids g)"

definition is_escape_use :: "node_kind \<Rightarrow> bool" where
  "is_escape_use k =
     (if k \<in> set [NK_Return, NK_Throw, NK_Call, NK_CallVirt, NK_CallKnown, NK_TailCall] then True
      else if k \<in> set [NK_StoreField, NK_StoreElement, NK_StFld, NK_StElem] then True
      else if k \<in> set [NK_LoadField, NK_LdFld, NK_LdElem, NK_LdFlda, NK_LdElemA, NK_ArrayLength] then False
      else True)"

text \<open>The set of phase 2; nothing reads it.\<close>

definition escaping :: "graph \<Rightarrow> node_id list" where
  "escaping g = filter (\<lambda>alloc. list_ex (\<lambda>other. other \<noteq> alloc \<and> \<not> node_is_dead (node g other)
     \<and> alloc \<in> set (data_inputs g other) \<and> is_escape_use (n_kind (node g other))) (node_ids g)) (allocations g)"

definition has_live_use :: "graph \<Rightarrow> node_id \<Rightarrow> bool" where
  "has_live_use g alloc = list_ex (\<lambda>other. other \<noteq> alloc \<and> \<not> node_is_dead (node g other)
     \<and> alloc \<in> set (data_inputs g other)) (node_ids g)"

definition escape_kill :: "node_id \<Rightarrow> bool \<times> graph \<Rightarrow> bool \<times> graph" where
  "escape_kill alloc s = (if \<not> has_live_use (snd s) alloc then (True, mark_dead alloc (snd s)) else s)"

definition escape_analysis_run :: "bool \<Rightarrow> graph \<Rightarrow> (graph \<times> unit result) ub" where
  "escape_analysis_run debug g =
     (if allocations g = [] then Some (g, Inr ())
      else let s = fold escape_kill (allocations g) (False, g)
        in Some (snd s, if fst s then verify_if_enabled debug (snd s) else Inr ()))"

section \<open>Inline cache guards\<close>

text \<open>The guard before one call. The loop runs up to the current size; the nodes it appends are guards.\<close>

definition ic_guard :: "node_id \<Rightarrow> graph \<Rightarrow> graph" where
  "ic_guard nid g =
     (let receiver = data_inputs g nid ! 0;
          (check, g1) = create_with NK_CheckClass [receiver] 0 0 g;
          g2 = upd_side check (\<lambda>s. s\<lparr>class_id := 0\<rparr>) g1;
          g3 = set_ctrl_input check (ctrl_input g2 nid) g2;
          g4 = set_effect_input check (effect_input g3 nid) g3
      in set_effect_input nid check g4)"

definition ic_test :: "graph \<Rightarrow> node_id \<Rightarrow> bool" where
  "ic_test g nid =
     (let n = node g nid; inputs = data_inputs g nid
      in if node_is_dead n then False
         else if n_kind n \<noteq> NK_CallVirt then False
         else if inputs = [] then False
         else let receiver = inputs ! 0 in id_valid receiver \<and> receiver \<le> g_size g)"

text \<open>Kinds after a guard was inserted, and the number of calls from an id on.\<close>

lemma ic_guard_size [simp]: "g_size (ic_guard nid g) = g_size g + 1"
  by (simp add: ic_guard_def split_beta Let_def set_input_eqs)

lemma kind_upd_slices:
  "in_graph g a \<Longrightarrow> in_graph g j \<Longrightarrow> n_kind (node (set_ctrl_input a c g) j) = n_kind (node g j)"
  "in_graph g a \<Longrightarrow> in_graph g j \<Longrightarrow> n_kind (node (set_effect_input a c g) j) = n_kind (node g j)"
  "in_graph g a \<Longrightarrow> in_graph g j \<Longrightarrow> n_kind (node (set_data_inputs a xs g) j) = n_kind (node g j)"
  by (simp_all add: set_input_eqs node_upd)

lemma create_kind: "in_graph (snd (create k g)) j \<Longrightarrow>
    n_kind (node (snd (create k g)) j) = (if j = g_size g + 1 then k else n_kind (node g j))"
  by (auto simp: create_snd node_def nth_append in_graph_def g_size_def default_node_def)

lemma ic_guard_kind:
  assumes "in_graph g nid" "in_graph g j \<or> j = g_size g + 1"
  shows "n_kind (node (ic_guard nid g) j) = (if j = g_size g + 1 then NK_CheckClass else n_kind (node g j))"
proof -
  have "in_graph (snd (create NK_CheckClass g)) j" "in_graph (snd (create NK_CheckClass g)) nid"
    "in_graph (snd (create NK_CheckClass g)) (g_size g + 1)" using assms by (auto simp: in_graph_def)
  then show ?thesis
    by (simp add: ic_guard_def create_with_snd split_beta Let_def id_valid_def kind_upd_slices create_kind)
qed

definition calls_from :: "graph \<Rightarrow> nat \<Rightarrow> nat" where
  "calls_from g i = length (filter (\<lambda>j. n_kind (node g j) = NK_CallVirt) [i..<g_size g + 1])"

lemma calls_from_guard:
  assumes "1 \<le> i" "i \<le> g_size g" "n_kind (node g i) = NK_CallVirt"
  shows "calls_from (ic_guard i g) (i + 1) < calls_from g i"
proof -
  have "[i..<g_size g + 1] = i # [i + 1..<g_size g + 1]" using assms(2) by (simp add: upt_conv_Cons)
  moreover have "filter (\<lambda>j. n_kind (node (ic_guard i g) j) = NK_CallVirt) [i + 1..<g_size g + 1]
      = filter (\<lambda>j. n_kind (node g j) = NK_CallVirt) [i + 1..<g_size g + 1]"
    by (rule filter_cong) (use assms(1,2) ic_guard_kind [of g i] in \<open>auto simp: in_graph_def\<close>)
  ultimately show ?thesis using assms ic_guard_kind [of g i "g_size g + 1"] by (simp add: calls_from_def in_graph_def)
qed

lemma calls_from_Suc: "calls_from g (i + 1) \<le> calls_from g i"
  by (cases "i \<le> g_size g") (simp_all add: calls_from_def upt_conv_Cons)

function ic_loop :: "node_id \<Rightarrow> bool \<Rightarrow> graph \<Rightarrow> bool \<times> graph" where
  "ic_loop nid changed g =
     (if nid = 0 \<or> nid > g_size g then (changed, g)
      else if ic_test g nid then ic_loop (nid + 1) True (ic_guard nid g) else ic_loop (nid + 1) changed g)"
  by pat_completeness auto

termination
proof (relation "measure (\<lambda>(nid, changed, g). calls_from g nid + (g_size g + 1 - nid))", goal_cases)
  case (2 nid changed g)
  then have "1 \<le> nid" "nid \<le> g_size g" "n_kind (node g nid) = NK_CallVirt"
    by (auto simp: ic_test_def Let_def split: if_splits)
  from calls_from_guard [OF this] show ?case by simp
next
  case (3 nid changed g)
  then show ?case using calls_from_Suc [of g nid] by simp linarith
qed simp

declare ic_loop.simps [simp del]

definition ic_stub_emission_run :: "bool \<Rightarrow> graph \<Rightarrow> (graph \<times> unit result) ub" where
  "ic_stub_emission_run debug g =
     (let (changed, g') = ic_loop 1 False g
      in Some (g', if changed then verify_if_enabled debug g' else Inr ()))"

section \<open>Devirtualization\<close>

text \<open>The map from allocation nodes to their class.\<close>

definition newobj_class :: "graph \<Rightarrow> node_id \<rightharpoonup> u32" where
  "newobj_class g = fold (\<lambda>nid m. let n = node g nid
     in if node_is_dead n then m
        else if n_kind n = NK_NewObj \<or> n_kind n = NK_Allocate then m(nid \<mapsto> class_id (side g nid)) else m)
   (node_ids g) Map.empty"

definition devirt_node :: "(node_id \<rightharpoonup> u32) \<Rightarrow> node_id \<Rightarrow> bool \<times> graph \<Rightarrow> bool \<times> graph" where
  "devirt_node classes nid s =
     (let g = snd s; n = node g nid; inputs = data_inputs g nid
      in if node_is_dead n then s
         else if n_kind n \<noteq> NK_CallVirt then s
         else if inputs = [] then s
         else let receiver = inputs ! 0
           in if \<not> id_valid receiver \<or> receiver > g_size g then s
              else if classes receiver = None then s
              else (True, upd_node nid (\<lambda>n. n\<lparr>n_kind := NK_CallKnown\<rparr>) g))"

definition devirtualization_run :: "bool \<Rightarrow> graph \<Rightarrow> (graph \<times> unit result) ub" where
  "devirtualization_run debug g =
     (let s = fold (devirt_node (newobj_class g)) (node_ids g) (False, g)
      in Some (snd s, if fst s then verify_if_enabled debug (snd s) else Inr ()))"

end
