(* ===== verification/Region_Passes.thy ===== *)
theory Region_Passes
  imports Build_Regions
begin

text \<open>
  The passes that read the block structure and leave marks on nodes: \<^verbatim>\<open>ir/passes/LICM.cpp\<close>,
  \<^verbatim>\<open>ir/passes/GCM.cpp\<close>, \<^verbatim>\<open>ir/passes/LoopPeeling.cpp\<close>,
  \<^verbatim>\<open>ir/passes/ProfileGuidedBlockReorder.cpp\<close> and \<^verbatim>\<open>tier3_diamond/LoopUnswitching.cpp\<close>. Each carries
  the graph and its local \<^verbatim>\<open>changed\<close> through nested loops over blocks and nodes.
\<close>

type_synonym marking = "bool \<times> graph"

definition set_mark_flag :: "u16 \<Rightarrow> node_id \<Rightarrow> marking \<Rightarrow> marking" where
  "set_mark_flag m nid s = (True, upd_node nid (or_flags m) (snd s))"

text \<open>The closing lines of the passes: the verifier runs when something was marked.\<close>

definition finish_marking :: "bool \<Rightarrow> marking \<Rightarrow> graph \<times> unit result" where
  "finish_marking debug s = (snd s, if fst s then verify_if_enabled debug (snd s) else Inr ())"

section \<open>Loop invariant code motion\<close>

definition is_loop_invariant :: "graph \<Rightarrow> block_structure \<Rightarrow> node_id \<Rightarrow> nat \<Rightarrow> bool" where
  "is_loop_invariant g bs nid loop_header =
     (if block_of bs nid = 0 then False
      else \<forall>inp \<in> set (data_inputs g nid).
             \<not> id_valid inp \<or> inp > g_size g \<or> \<not> block_of bs inp \<ge> loop_header)"

definition is_hoistable :: "node \<Rightarrow> bool" where
  "is_hoistable n =
     (if \<not> node_is_pure n then False else if node_is_effect n then False
      else if node_is_control n then False else if n_kind n = NK_Phi then False else True)"

definition licm_node :: "block_structure \<Rightarrow> nat \<Rightarrow> nat \<Rightarrow> node_id \<Rightarrow> marking \<Rightarrow> marking" where
  "licm_node bs loop_header b nid s =
     (let g = snd s; n = node g nid
      in if node_is_dead n then s
         else if block_of bs nid \<noteq> b then s
         else if \<not> is_hoistable n then s
         else if \<not> is_loop_invariant g bs nid loop_header then s
         else if flags_has (n_flags n) NF_IsScheduled then s
         else set_mark_flag NF_IsScheduled nid s)"

definition licm_block :: "block_structure \<Rightarrow> nat \<Rightarrow> nat \<Rightarrow> marking \<Rightarrow> marking" where
  "licm_block bs loop_header b s =
     (if \<not> id_valid (bb_leader (bs_blocks bs ! b)) then s
      else fold (licm_node bs loop_header b) (node_ids (snd s)) s)"

definition licm_loop :: "block_structure \<Rightarrow> basic_block \<Rightarrow> marking \<Rightarrow> marking" where
  "licm_loop bs bb s =
     (if \<not> bb_is_loop_header bb then s
      else fold (licm_block bs (bb_id bb)) [bb_id bb..<num_blocks bs] s)"

definition licm_run :: "bool \<Rightarrow> graph \<Rightarrow> (graph \<times> unit result) option" where
  "licm_run debug g = map_option (\<lambda>bs.
     if bs_blocks bs = [] then (g, Inr ())
     else finish_marking debug (fold (licm_loop bs) (bs_blocks bs) (False, g)))
   (build_block_structure g)"

section \<open>Global code motion\<close>

definition earliest_block :: "graph \<Rightarrow> node_id \<Rightarrow> block_structure \<Rightarrow> nat" where
  "earliest_block g nid bs =
     fold (\<lambda>inp result. if \<not> id_valid inp \<or> inp > g_size g then result
                        else if block_of bs inp > result then block_of bs inp else result)
       (data_inputs g nid) 0"

definition UINT32_MAX :: nat where
  "UINT32_MAX = 4294967295"

definition latest_block :: "graph \<Rightarrow> node_id \<Rightarrow> block_structure \<Rightarrow> node_id list list \<Rightarrow> nat" where
  "latest_block g nid bs users =
     (let result = fold (\<lambda>user result.
            if \<not> id_valid user \<or> user > g_size g then result
            else if node_is_dead (node g user) then result
            else if block_of bs user < result then block_of bs user else result)
          (users ! (nid - 1)) UINT32_MAX
      in if result = UINT32_MAX then earliest_block g nid bs else result)"

definition push_user :: "graph \<Rightarrow> node_id \<Rightarrow> node_id \<Rightarrow> node_id list list \<Rightarrow> node_id list list" where
  "push_user g nid inp users =
     (if \<not> id_valid inp \<or> inp > g_size g then users
      else users[inp - 1 := users ! (inp - 1) @ [nid]])"

definition gcm_users :: "graph \<Rightarrow> node_id list list" where
  "gcm_users g = fold (\<lambda>nid users. if node_is_dead (node g nid) then users
      else fold (push_user g nid) (data_inputs g nid) users) (node_ids g) (replicate (g_size g) [])"

definition gcm_early :: "block_structure \<Rightarrow> node_id \<Rightarrow> marking \<Rightarrow> marking" where
  "gcm_early bs nid s =
     (let g = snd s; n = node g nid
      in if node_is_dead n then s
         else if \<not> node_is_pure n then s
         else if block_of bs nid = 0 then s
         else if block_of bs nid < earliest_block g nid bs then set_mark_flag NF_IsCold nid s
         else s)"

definition gcm_hoist :: "node_id \<Rightarrow> marking \<Rightarrow> marking" where
  "gcm_hoist nid s =
     (let n = node (snd s) nid
      in if node_is_dead n then s
         else if flags_has (n_flags n) NF_IsScheduled \<and> \<not> flags_has (n_flags n) NF_IsCold
         then set_mark_flag NF_IsCold nid s else s)"

definition gcm_late :: "block_structure \<Rightarrow> node_id list list \<Rightarrow> node_id \<Rightarrow> marking \<Rightarrow> marking" where
  "gcm_late bs users nid s =
     (let g = snd s; n = node g nid
      in if node_is_dead n then s
         else if \<not> node_is_pure n then s
         else if node_is_control n then s
         else if node_is_effect n then s
         else if flags_has (n_flags n) NF_IsConst then s
         else if block_of bs nid = 0 then s
         else if block_of bs nid > latest_block g nid bs users then set_mark_flag NF_IsCold nid s
         else s)"

definition gcm_run :: "bool \<Rightarrow> graph \<Rightarrow> (graph \<times> unit result) option" where
  "gcm_run debug g = map_option (\<lambda>bs.
     if bs_blocks bs = [] then (g, Inr ())
     else let users = gcm_users g;
              s = fold (gcm_early bs) (node_ids g) (False, g);
              s = fold gcm_hoist (node_ids g) s;
              s = fold (gcm_late bs users) (node_ids g) s
       in finish_marking debug s)
   (build_block_structure g)"

section \<open>Loop peeling\<close>

definition live_in_range :: "graph \<Rightarrow> basic_block \<Rightarrow> node_id list" where
  "live_in_range g block =
     filter (\<lambda>v. \<not> (v = 0 \<or> v > g_size g) \<and> \<not> node_is_dead (node g v)) [bb_leader block..<bb_last block + 1]"

text \<open>The node count of the body: up to the first block with an edge back to the header.\<close>

fun peel_count :: "graph \<Rightarrow> nat \<Rightarrow> basic_block list \<Rightarrow> nat \<Rightarrow> nat" where
  "peel_count g header [] loop_node_count = loop_node_count"
| "peel_count g header (block # blocks) loop_node_count =
     (if \<not> id_valid (bb_leader block) then peel_count g header blocks loop_node_count
      else let count = loop_node_count + length (live_in_range g block)
        in if header \<in> set (bb_succs block) then count else peel_count g header blocks count)"

definition peel_loop :: "block_structure \<Rightarrow> basic_block \<Rightarrow> marking \<Rightarrow> marking" where
  "peel_loop bs bb s =
     (if \<not> bb_is_loop_header bb then s
      else let g = snd s; count = peel_count g (bb_id bb) (drop (bb_id bb) (bs_blocks bs)) 0
        in if count > 0 \<and> count < 20
           then if id_valid (bb_leader bb) \<and> \<not> node_is_dead (node g (bb_leader bb))
                then set_mark_flag NF_IsScheduled (bb_leader bb) s else s
           else s)"

definition loop_peeling_run :: "bool \<Rightarrow> graph \<Rightarrow> (graph \<times> unit result) option" where
  "loop_peeling_run debug g = map_option (\<lambda>bs.
     finish_marking debug (fold (peel_loop bs) (bs_blocks bs) (False, g))) (build_block_structure g)"

section \<open>Profile guided block reordering\<close>

definition block_is_cold :: "graph \<Rightarrow> basic_block \<Rightarrow> bool" where
  "block_is_cold g bb =
     list_ex (\<lambda>v. n_kind (node g v) \<in> set [NK_Throw, NK_Rethrow, NK_Deopt, NK_Unreachable])
       (live_in_range g bb)"

definition reorder_block :: "basic_block \<Rightarrow> marking \<Rightarrow> marking" where
  "reorder_block bb s =
     (if \<not> id_valid (bb_leader bb) then s
      else if block_is_cold (snd s) bb
      then if \<not> flags_has (n_flags (node (snd s) (bb_leader bb))) NF_IsCold
           then set_mark_flag NF_IsCold (bb_leader bb) s else s
      else s)"

definition block_reorder_run :: "bool \<Rightarrow> graph \<Rightarrow> (graph \<times> unit result) option" where
  "block_reorder_run debug g = map_option (\<lambda>bs.
     if bs_blocks bs = [] then (g, Inr ())
     else finish_marking debug (fold reorder_block (bs_blocks bs) (False, g)))
   (build_block_structure g)"

section \<open>Loop unswitching\<close>

text \<open>This pass has no flag \<^verbatim>\<open>changed\<close> and never calls the verifier.\<close>

definition unswitch_node :: "block_structure \<Rightarrow> nat \<Rightarrow> node_id \<Rightarrow> graph \<Rightarrow> graph" where
  "unswitch_node bs header nid g =
     (let n = node g nid; inputs = data_inputs g nid
      in if nid = 0 \<or> nid > g_size g then g
         else if node_is_dead n then g
         else if n_kind n \<noteq> NK_If then g
         else if inputs = [] then g
         else let cond = inputs ! 0
           in if \<not> id_valid cond \<or> cond > g_size g then g
              else if block_of bs cond < header then upd_node nid (or_flags NF_IsScheduled) g else g)"

definition unswitch_block :: "block_structure \<Rightarrow> nat \<Rightarrow> nat \<Rightarrow> graph \<Rightarrow> graph" where
  "unswitch_block bs header b g =
     (let block = bs_blocks bs ! b
      in if \<not> id_valid (bb_leader block) then g
         else fold (unswitch_node bs header) [bb_leader block..<bb_last block + 1] g)"

definition unswitch_loop :: "block_structure \<Rightarrow> basic_block \<Rightarrow> graph \<Rightarrow> graph" where
  "unswitch_loop bs bb g =
     (if \<not> bb_is_loop_header bb then g
      else fold (unswitch_block bs (bb_id bb)) [bb_id bb..<num_blocks bs] g)"

definition loop_unswitching_run :: "bool \<Rightarrow> graph \<Rightarrow> (graph \<times> unit result) option" where
  "loop_unswitching_run debug g = map_option (\<lambda>bs.
     (fold (unswitch_loop bs) (bs_blocks bs) g, Inr ())) (build_block_structure g)"

end
