(* ===== verification/Flag_Marks.thy ===== *)
theory Flag_Marks
  imports Region_Passes Build_Regions_Correct Ir_Semantics
begin

text \<open>
  Setting a flag on a set of nodes, which graph analyses do not notice it, and the passes that do
  nothing else: a step is a \<open>marker\<close> of a set, and folds of markers are markers.
\<close>

section \<open>Raising a flag on a set of nodes\<close>

definition raise_flags :: "u16 \<Rightarrow> node_id set \<Rightarrow> graph \<Rightarrow> graph" where
  "raise_flags m S g = g\<lparr>g_nodes := map (\<lambda>i. if Suc i \<in> S then or_flags m (g_nodes g ! i) else g_nodes g ! i)
     [0..<g_size g]\<rparr>"

definition quiet :: "u16 \<Rightarrow> bool" where
  "quiet m \<longleftrightarrow> m = NF_IsScheduled \<or> m = NF_IsCold"

lemma nth_outside: "length xs = length ys \<Longrightarrow> length xs \<le> i \<Longrightarrow> xs ! i = ys ! i"
  by (induction xs ys arbitrary: i rule: list_induct2) (auto simp: nth_Cons split: nat.split)

lemma or_flags_twice: "or_flags m (or_flags m n) = or_flags m n"
  by (simp add: or_flags_def or.assoc)

lemma or_flags_commute: "or_flags m (or_flags k n) = or_flags k (or_flags m n)"
  by (simp add: or_flags_def or.assoc or.commute [of m])

lemma raise_size [simp]: "g_size (raise_flags m S g) = g_size g"
  by (simp add: raise_flags_def g_size_def)

lemma raise_parts [simp]:
  "g_sides (raise_flags m S g) = g_sides g" "g_pool (raise_flags m S g) = g_pool g"
  "g_start (raise_flags m S g) = g_start g"
  by (simp_all add: raise_flags_def)

lemma raise_in_graph [simp]: "in_graph (raise_flags m S g) i = in_graph g i"
  by (simp add: in_graph_def)

lemma raise_node:
  "node (raise_flags m S g) i =
     (if Suc (i - 1) \<in> S \<and> i - 1 < g_size g then or_flags m (node g i) else node g i)"
proof (cases "i - 1 < g_size g")
  case False
  then show ?thesis using nth_outside [of "g_nodes (raise_flags m S g)" "g_nodes g" "i - 1"]
    by (simp add: node_def raise_flags_def g_size_def)
qed (simp add: node_def raise_flags_def)

lemma raise_node_in: "in_graph g i \<Longrightarrow>
    node (raise_flags m S g) i = (if i \<in> S then or_flags m (node g i) else node g i)"
  by (auto simp: raise_node in_graph_def)

lemma graph_nodes_eqI: "length (g_nodes g) = length (g_nodes h) \<Longrightarrow>
    (\<And>i. i < g_size g \<Longrightarrow> g_nodes g ! i = g_nodes h ! i) \<Longrightarrow> g_sides g = g_sides h \<Longrightarrow>
    g_pool g = g_pool h \<Longrightarrow> g_start g = g_start h \<Longrightarrow> g = h"
  by (auto intro!: graph.equality nth_equalityI simp: g_size_def)

lemma raise_nth: "i < g_size g \<Longrightarrow> g_nodes (raise_flags m S g) ! i =
    (if Suc i \<in> S then or_flags m (g_nodes g ! i) else g_nodes g ! i)"
  by (simp add: raise_flags_def)

lemma raise_length [simp]: "length (g_nodes (raise_flags m S g)) = length (g_nodes g)"
  by (simp add: raise_flags_def g_size_def)

lemma raise_empty [simp]: "raise_flags m {} g = g"
  by (rule graph_nodes_eqI) (simp_all add: raise_nth)

lemma raise_raise: "raise_flags m S (raise_flags m T g) = raise_flags m (T \<union> S) g"
  by (rule graph_nodes_eqI) (auto simp: raise_nth or_flags_twice)

lemma raise_commute: "raise_flags m S (raise_flags k T g) = raise_flags k T (raise_flags m S g)"
  by (rule graph_nodes_eqI) (auto simp: raise_nth or_flags_commute)

lemma upd_node_raise: "in_graph g i \<Longrightarrow> upd_node i (or_flags m) g = raise_flags m {i} g"
  by (rule graph_nodes_eqI) (auto simp: raise_nth upd_node_def node_def nth_list_update in_graph_def g_size_def)

lemma raise_absorb: "(\<forall>i \<in> T. in_graph g i \<longrightarrow> or_flags m (node g i) = node g i) \<Longrightarrow> raise_flags m T g = g"
  by (rule graph_nodes_eqI) (force simp: raise_nth node_def in_graph_def)+

section \<open>What does not see the flags\<close>

lemma raise_fields [simp]:
  "n_kind (node (raise_flags m S g) i) = n_kind (node g i)"
  "n_state (node (raise_flags m S g) i) = n_state (node g i)"
  "n_type (node (raise_flags m S g) i) = n_type (node g i)"
  "n_data_inputs (node (raise_flags m S g) i) = n_data_inputs (node g i)"
  "n_ctrl_input (node (raise_flags m S g) i) = n_ctrl_input (node g i)"
  "n_effect_input (node (raise_flags m S g) i) = n_effect_input (node g i)"
  "side (raise_flags m S g) i = side g i"
  by (simp_all add: raise_node or_flags_def side_def)

lemma raise_inputs [simp]:
  "data_inputs (raise_flags m S g) i = data_inputs g i"
  "ctrl_input (raise_flags m S g) i = ctrl_input g i"
  "effect_input (raise_flags m S g) i = effect_input g i"
  by (simp_all add: data_inputs_def ctrl_input_def effect_input_def Let_def)

lemma raise_flag:
  "flags_has m e = False \<Longrightarrow> flags_has (n_flags (node (raise_flags m S g) i)) e = flags_has (n_flags (node g i)) e"
  by (simp add: raise_node or_flags_def flags_has_or)

lemma quiet_flags [simp]:
  "quiet m \<Longrightarrow> flags_has m NF_Pure = False" "quiet m \<Longrightarrow> flags_has m NF_Effect = False"
  "quiet m \<Longrightarrow> flags_has m NF_Control = False" "quiet m \<Longrightarrow> flags_has m NF_IsGuard = False"
  "quiet m \<Longrightarrow> flags_has m NF_IsConst = False" "quiet m \<Longrightarrow> flags_has m NF_IsDead = False"
  by (auto simp: quiet_def flags_has_def)

lemma raise_queries [simp]:
  assumes "quiet m"
  shows "node_is_pure (node (raise_flags m S g) i) = node_is_pure (node g i)"
    "node_is_effect (node (raise_flags m S g) i) = node_is_effect (node g i)"
    "node_is_control (node (raise_flags m S g) i) = node_is_control (node g i)"
    "node_is_guard (node (raise_flags m S g) i) = node_is_guard (node g i)"
    "node_is_const (node (raise_flags m S g) i) = node_is_const (node g i)"
    "node_is_dead (node (raise_flags m S g) i) = node_is_dead (node g i)"
  using assms by (simp_all add: node_queries raise_flag)

lemma raise_node_ids [simp]: "node_ids (raise_flags m S g) = node_ids g"
  by (simp add: node_ids_def)

lemma raise_prefix [simp]: "node_prefix (raise_flags m S g) i = node_prefix g i"
  by (simp only: node_prefix_def raise_fields)

lemma raise_checks:
  assumes q: "quiet m"
  shows "check_no_dangling_node (raise_flags m S g) i = check_no_dangling_node g i"
    "check_effect_input_node (raise_flags m S g) i = check_effect_input_node g i"
    "check_pure_no_effect_node (raise_flags m S g) i = check_pure_no_effect_node g i"
    "dead_refs_from (raise_flags m S g) i j = dead_refs_from g i j"
    "check_guards_have_framestate (raise_flags m S g) = check_guards_have_framestate g"
  unfolding check_no_dangling_node_def check_effect_input_node_def check_pure_no_effect_node_def
    dead_refs_from_def check_guards_have_framestate_def Let_def
  by (simp_all only: raise_prefix raise_inputs raise_fields raise_size raise_queries [OF q] raise_node_ids)

lemma raise_verify: "quiet m \<Longrightarrow> verify_graph (raise_flags m S g) = verify_graph g"
  unfolding verify_graph_def verifier_errors_def check_no_dangling_def check_effect_chain_def
    check_dead_not_referenced_def check_dead_node_def
  by (simp only: raise_checks raise_checks(1-4) [THEN ext] raise_node_ids raise_queries)

lemma raise_verify_if [simp]: "quiet m \<Longrightarrow> verify_if_enabled d (raise_flags m S g) = verify_if_enabled d g"
  by (simp add: verify_if_enabled_def raise_verify)

lemma raise_identify [simp]: "quiet m \<Longrightarrow> identify_blocks (raise_flags m S g) = identify_blocks g"
  by (rule ext) (simp add: identify_blocks_def leaders_def mark_leader_def [abs_def] place_node_def [abs_def] Let_def
      cong: if_cong)

lemma raise_successors [simp]:
  "quiet m \<Longrightarrow> block_successors (raise_flags m S g) bs bb = block_successors g bs bb"
  by (simp add: block_successors_def if_successors_def best_loop_def Let_def cong: if_cong)

lemma raise_connect [simp]: "quiet m \<Longrightarrow> connect_edges (raise_flags m S g) = connect_edges g"
  by (rule ext) (simp add: connect_edges_def)

lemma raise_blocks: "quiet m \<Longrightarrow> build_block_structure (raise_flags m S g) = build_block_structure g"
  by (simp add: build_block_structure_def)

lemma raise_eval_forward: "eval F g i v \<Longrightarrow> eval F (raise_flags m S g) i v"
proof (induction rule: eval.induct)
  case (evalI i vs v)
  show ?case
    by (rule eval.evalI) (use evalI in \<open>auto elim: list_all2_mono\<close>)
qed

lemma raise_eval: "eval F (raise_flags m S g) i v \<longleftrightarrow> eval F g i v"
proof
  show "eval F g i v" if "eval F (raise_flags m S g) i v" using that
  proof (induction rule: eval.induct)
    case (evalI i vs v)
    show ?case by (rule eval.evalI) (use evalI in \<open>auto elim: list_all2_mono\<close>)
  qed
qed (rule raise_eval_forward)

lemma raise_wf: "graph_wf g \<Longrightarrow> graph_wf (raise_flags m S g)"
proof -
  assume wf: "graph_wf g"
  let ?ns = "g_nodes (raise_flags m S g)"
  have slots: "map node_slots ?ns = map node_slots (g_nodes g)"
    by (rule nth_equalityI) (auto simp: raise_nth g_size_def node_slots_def or_flags_def)
  have "\<forall>n \<in> set ?ns. edge_count (n_ctrl_input n) \<le> 1 \<and> edge_count (n_effect_input n) \<le> 1"
  proof
    fix n assume "n \<in> set ?ns"
    then obtain i where i: "i < g_size g" "n = ?ns ! i" by (auto simp: in_set_conv_nth g_size_def)
    have "g_nodes g ! i \<in> set (g_nodes g)" using i(1) by (simp add: g_size_def)
    then show "edge_count (n_ctrl_input n) \<le> 1 \<and> edge_count (n_effect_input n) \<le> 1"
      using wf i by (auto simp: raise_nth graph_wf_def or_flags_def)
  qed
  then show ?thesis using wf by (simp add: graph_wf_def all_slots_def slots)
qed


section \<open>Marking steps\<close>

text \<open>
  A step is a marker of the set \<open>T\<close> when on every graph that differs from \<open>g\<close> in marks only it adds
  the marks of \<open>T\<close> and, if it leaves the flag \<^verbatim>\<open>changed\<close> clear, has added nothing.
\<close>

definition marker :: "u16 \<Rightarrow> graph \<Rightarrow> (marking \<Rightarrow> marking) \<Rightarrow> node_id set \<Rightarrow> bool" where
  "marker m g f T \<longleftrightarrow> (\<forall>c S. snd (f (c, raise_flags m S g)) = raise_flags m (S \<union> T) g
     \<and> (\<not> fst (f (c, raise_flags m S g)) \<longrightarrow> \<not> c \<and> raise_flags m (S \<union> T) g = raise_flags m S g))"

lemma markerD: "marker m g f T \<Longrightarrow> snd (f (c, raise_flags m S g)) = raise_flags m (S \<union> T) g"
  by (simp add: marker_def)

lemma marker_skip: "(\<And>c S. f (c, raise_flags m S g) = (c, raise_flags m S g)) \<Longrightarrow> marker m g f {}"
  by (simp add: marker_def)

lemma marker_set:
  "in_graph g i \<Longrightarrow> (\<And>c S. f (c, raise_flags m S g) = set_mark_flag m i (c, raise_flags m S g)) \<Longrightarrow>
    marker m g f {i}"
  by (simp add: marker_def set_mark_flag_def upd_node_raise raise_raise)

lemma raise_already: "in_graph g i \<Longrightarrow> or_flags m (node (raise_flags m S g) i) = node (raise_flags m S g) i \<Longrightarrow>
    raise_flags m (S \<union> {i}) g = raise_flags m S g"
  using raise_absorb [of "{i}" "raise_flags m S g" m] by (simp add: raise_raise)

text \<open>A step that first looks whether the mark is already there.\<close>

lemma flags_has_self: "flags_has NF_IsScheduled NF_IsScheduled" "flags_has NF_IsCold NF_IsCold"
  by (simp_all add: flags_has_def)

lemma or_set_bit: "(x :: u16) AND 2 ^ k \<noteq> 0 \<Longrightarrow> x OR 2 ^ k = x"
  by (rule bit_word_eqI) (auto simp: bit_or_iff bit_exp_iff and_exp_eq_0_iff_not_bit)

lemma has_or_flags: "quiet m \<Longrightarrow> flags_has (n_flags n) m \<Longrightarrow> or_flags m n = n"
  using or_set_bit [of "n_flags n" 10] or_set_bit [of "n_flags n" 12]
  by (auto simp: quiet_def flags_has_def or_flags_def)

lemma marker_set_new:
  assumes "in_graph g i" "quiet m"
    and "\<And>c S. f (c, raise_flags m S g) =
      (if flags_has (n_flags (node (raise_flags m S g) i)) m then (c, raise_flags m S g)
       else set_mark_flag m i (c, raise_flags m S g))"
  shows "marker m g f {i}"
  unfolding marker_def
proof (intro allI)
  fix c S
  let ?h = "raise_flags m S g"
  show "snd (f (c, ?h)) = raise_flags m (S \<union> {i}) g
     \<and> (\<not> fst (f (c, ?h)) \<longrightarrow> \<not> c \<and> raise_flags m (S \<union> {i}) g = ?h)"
  proof (cases "flags_has (n_flags (node ?h i)) m")
    case True
    then show ?thesis using raise_already [OF assms(1) has_or_flags [OF assms(2) True]] assms(3) [of c S] by simp
  next
    case False
    then show ?thesis using assms(1) assms(3) [of c S] by (simp add: set_mark_flag_def upd_node_raise raise_raise)
  qed
qed

lemma marker_fold:
  "(\<And>x. x \<in> set xs \<Longrightarrow> marker m g (f x) (T x)) \<Longrightarrow> marker m g (fold f xs) (\<Union>x \<in> set xs. T x)"
proof (induction xs rule: rev_induct)
  case (snoc x xs)
  have a: "marker m g (fold f xs) (\<Union>y \<in> set xs. T y)" using snoc by simp
  have b: "marker m g (f x) (T x)" using snoc.prems by simp
  show ?case unfolding marker_def
  proof (intro allI)
    fix c S
    let ?U = "\<Union>y \<in> set xs. T y"
    obtain c' where c': "fold f xs (c, raise_flags m S g) = (c', raise_flags m (S \<union> ?U) g)"
      using markerD [OF a, of c S] by (metis prod.collapse)
    have "\<not> c' \<Longrightarrow> \<not> c \<and> raise_flags m (S \<union> ?U) g = raise_flags m S g"
      using a c' unfolding marker_def by (metis fst_conv)
    moreover have U: "(\<Union>y \<in> set (xs @ [x]). T y) = ?U \<union> T x" by auto
    ultimately show "snd (fold f (xs @ [x]) (c, raise_flags m S g)) = raise_flags m (S \<union> (\<Union>y \<in> set (xs @ [x]). T y)) g
     \<and> (\<not> fst (fold f (xs @ [x]) (c, raise_flags m S g)) \<longrightarrow> \<not> c
        \<and> raise_flags m (S \<union> (\<Union>y \<in> set (xs @ [x]). T y)) g = raise_flags m S g)"
      using b [unfolded marker_def, rule_format, of c' "S \<union> ?U"] c'
      unfolding U by (auto simp: Un_assoc)
  qed
qed (simp add: marker_def)

text \<open>What a finished marking pass returns.\<close>

lemma marker_finish:
  assumes "marker m g f T" "quiet m"
  shows "\<exists>r. finish_marking debug (f (False, g)) = (raise_flags m T g, r)
    \<and> (r = verify_if_enabled debug g \<or> r = Inr () \<and> raise_flags m T g = g)"
proof -
  obtain c where "f (False, raise_flags m {} g) = (c, raise_flags m ({} \<union> T) g)"
    using markerD [OF assms(1), of False "{}"] by (metis prod.collapse)
  moreover have "\<not> c \<Longrightarrow> raise_flags m ({} \<union> T) g = raise_flags m {} g"
    using assms(1) calculation unfolding marker_def by (metis fst_conv)
  ultimately show ?thesis using assms(2) by (cases c) (simp_all add: finish_marking_def)
qed


lemma quiet_marks [simp]: "quiet NF_IsScheduled" "quiet NF_IsCold"
  by (simp_all add: quiet_def)

lemma marker_cong: "marker m g f T \<Longrightarrow> T = T' \<Longrightarrow> marker m g f T'"
  by simp

lemma marker_eq: "marker m g f T \<Longrightarrow> (\<And>c S. f' (c, raise_flags m S g) = f (c, raise_flags m S g)) \<Longrightarrow> marker m g f' T"
  by (auto simp: marker_def)

lemma marker_if: "(P \<Longrightarrow> marker m g f T) \<Longrightarrow> (\<not> P \<Longrightarrow> marker m g f {}) \<Longrightarrow> marker m g f (if P then T else {})"
  by simp

lemma marker_comp:
  assumes "marker m g f T" "marker m g h U"
  shows "marker m g (\<lambda>s. h (f s)) (T \<union> U)"
proof -
  have "marker m g (fold (\<lambda>b. if b then h else f) [False, True]) (\<Union>b \<in> set [False, True]. if b then U else T)"
    by (rule marker_fold) (use assms in auto)
  then show ?thesis by (simp add: Un_ac comp_def)
qed

end
