(* ===== verification/Check_Passes_Correct.thy ===== *)
theory Check_Passes_Correct
  imports Check_Passes Flag_Marks Local_Passes_Correct
begin

text \<open>
  What bounds check elimination, escape analysis, inline cache guards and devirtualization do to a
  graph, and that they keep the values of its nodes.
\<close>

section \<open>Marks that kill\<close>

lemma mark_dead_raise: "in_graph g i \<Longrightarrow> mark_dead i g = raise_flags NF_IsDead {i} g"
  by (simp add: mark_dead_def upd_node_raise)

lemma kill_raise: "in_graph g i \<Longrightarrow> mark_dead i (raise_flags NF_IsDead S g) = raise_flags NF_IsDead (S \<union> {i}) g"
  by (simp add: mark_dead_raise raise_raise)

lemma raise_dead: "in_graph g i \<Longrightarrow> node_is_dead (node (raise_flags NF_IsDead S g) i) \<longleftrightarrow> node_is_dead (node g i) \<or> i \<in> S"
  by (simp add: raise_node_in node_is_dead_def or_flags_def flags_has_or)

lemma raise_dead_const: "flags_has (n_flags (node (raise_flags NF_IsDead S g) i)) NF_IsConst = flags_has (n_flags (node g i)) NF_IsConst"
  by (rule raise_flag) (simp add: flags_has_def)

lemma marker_kill:
  assumes "in_graph g i" "\<And>c S. f (c, raise_flags NF_IsDead S g) =
    (if i \<in> S then (c, raise_flags NF_IsDead S g) else (True, mark_dead i (raise_flags NF_IsDead S g)))"
  shows "marker NF_IsDead g f {i}"
  using assms by (auto simp: marker_def kill_raise insert_absorb)

section \<open>Bounds check elimination\<close>

lemma raise_bce_const [simp]: "bce_const_int (raise_flags NF_IsDead S g) i = bce_const_int g i"
  by (simp add: bce_const_int_def raise_dead_const)

lemma raise_iv [simp]: "is_induction_variable (raise_flags NF_IsDead S g) i = is_induction_variable g i"
  by (simp add: is_induction_variable_def Let_def cong: if_cong option.case_cong)

definition const_check :: "graph \<Rightarrow> node_id \<Rightarrow> node_id \<Rightarrow> bool" where
  "const_check g idx len \<longleftrightarrow> (\<exists>x y. bce_const_int g idx = Some x \<and> bce_const_int g len = Some y \<and> 0 \<le>s x \<and> x <s y)"

definition counter_check :: "graph \<Rightarrow> node_id \<Rightarrow> node_id \<Rightarrow> bool" where
  "counter_check g idx len \<longleftrightarrow> (\<exists>iv y. is_induction_variable g idx = Some iv \<and> iv_initial iv = 0 \<and> iv_step iv = 1
     \<and> bce_const_int g len = Some y \<and> 0 <s y)"

definition bounds_check :: "graph \<Rightarrow> node_id \<Rightarrow> bool" where
  "bounds_check g i \<longleftrightarrow> in_graph g i \<and> \<not> node_is_dead (node g i) \<and> n_kind (node g i) = NK_CheckBounds
     \<and> length (data_inputs g i) = 2"

lemma bce_const_marker:
  assumes "in_graph g i"
  shows "marker NF_IsDead g (bce_const_node i)
    (if bounds_check g i \<and> const_check g (data_inputs g i ! 0) (data_inputs g i ! 1) then {i} else {})"
proof (rule marker_if)
  let ?P = "bounds_check g i \<and> const_check g (data_inputs g i ! 0) (data_inputs g i ! 1)"
  show "marker NF_IsDead g (bce_const_node i) {i}" if ?P
    by (rule marker_kill [OF assms])
      (use that assms in \<open>auto simp: bce_const_node_def bounds_check_def const_check_def Let_def raise_dead\<close>)
  show "marker NF_IsDead g (bce_const_node i) {}" if "\<not> ?P"
    by (rule marker_skip) (use that assms in \<open>auto simp: bce_const_node_def bounds_check_def const_check_def Let_def raise_dead
        split: option.splits\<close>)
qed

text \<open>The pairs of index and check that the map holds.\<close>

definition flat :: "(node_id \<times> node_id list) list \<Rightarrow> (node_id \<times> node_id) set" where
  "flat groups = {(k, c). \<exists>cs. (k, cs) \<in> set groups \<and> c \<in> set cs}"

lemma flat_simps [simp]: "flat [] = {}" "flat ((k, cs) # gs) = {k} \<times> set cs \<union> flat gs"
  by (auto simp: flat_def)

lemma flat_add [simp]: "flat (add_check k c groups) = insert (k, c) (flat groups)"
  by (induction k c groups rule: add_check.induct) auto

lemma flat_bounds: "flat (bounds_by_idx g) = {(data_inputs g i ! 0, i) | i. bounds_check g i}"
proof -
  let ?f = "\<lambda>nid groups. let n = node g nid; inputs = data_inputs g nid
     in if node_is_dead n then groups else if n_kind n \<noteq> NK_CheckBounds then groups
        else if length inputs \<noteq> 2 then groups else add_check (inputs ! 0) nid groups"
  have "flat (fold ?f is gs) = flat gs \<union> {(data_inputs g i ! 0, i) | i. i \<in> set is \<and> bounds_check g i}"
    if "\<forall>i \<in> set is. in_graph g i" for "is" gs
    using that by (induction "is" arbitrary: gs) (auto simp: bounds_check_def Let_def)
  from this [of "node_ids g" "[]"] show ?thesis by (auto simp: bounds_by_idx_def bounds_check_def)
qed

lemma bce_iv_marker:
  assumes "in_graph g c" "is_induction_variable g k = Some iv" "bounds_check g c"
  shows "marker NF_IsDead g (bce_iv_check iv c) (if counter_check g k (data_inputs g c ! 1) then {c} else {})"
proof (rule marker_if)
  show "marker NF_IsDead g (bce_iv_check iv c) {c}" if "counter_check g k (data_inputs g c ! 1)"
    by (rule marker_kill [OF assms(1)])
      (use that assms in \<open>auto simp: bce_iv_check_def bounds_check_def counter_check_def Let_def raise_dead\<close>)
  show "marker NF_IsDead g (bce_iv_check iv c) {}" if "\<not> counter_check g k (data_inputs g c ! 1)"
    by (rule marker_skip) (use that assms in \<open>auto simp: bce_iv_check_def bounds_check_def counter_check_def Let_def raise_dead
        split: option.splits\<close>)
qed

lemma bce_group_marker:
  assumes "\<And>c. c \<in> set cs \<Longrightarrow> bounds_check g c"
  shows "marker NF_IsDead g (bce_group (k, cs)) {c \<in> set cs. counter_check g k (data_inputs g c ! 1)}"
proof (cases "is_induction_variable g k")
  case None
  then have "{c \<in> set cs. counter_check g k (data_inputs g c ! 1)} = {}" by (simp add: counter_check_def)
  moreover have "marker NF_IsDead g (bce_group (k, cs)) {}" by (rule marker_skip) (use None in \<open>simp add: bce_group_def\<close>)
  ultimately show ?thesis by (simp only:)
next
  case (Some iv)
  show ?thesis
  proof (cases "iv_initial iv <s 0 \<or> iv_step iv \<le>s 0")
    case True
    then have "{c \<in> set cs. counter_check g k (data_inputs g c ! 1)} = {}"
      using Some by (auto simp: counter_check_def word_sle_eq)
    moreover have "marker NF_IsDead g (bce_group (k, cs)) {}"
      by (rule marker_skip) (use Some True in \<open>simp add: bce_group_def\<close>)
    ultimately show ?thesis by (simp only:)
  next
    case False
    have "marker NF_IsDead g (fold (bce_iv_check iv) cs) (\<Union>c \<in> set cs. if counter_check g k (data_inputs g c ! 1) then {c} else {})"
      by (rule marker_fold, rule bce_iv_marker [OF _ Some]) (use assms bounds_check_def in auto)
    then have "marker NF_IsDead g (fold (bce_iv_check iv) cs) {c \<in> set cs. counter_check g k (data_inputs g c ! 1)}"
      by (rule marker_cong) (auto split: if_splits)
    then show ?thesis by (rule marker_eq) (use Some False in \<open>simp add: bce_group_def\<close>)
  qed
qed

definition bce_kills :: "graph \<Rightarrow> node_id set" where
  "bce_kills g = {i. bounds_check g i \<and> (const_check g (data_inputs g i ! 0) (data_inputs g i ! 1)
     \<or> counter_check g (data_inputs g i ! 0) (data_inputs g i ! 1))}"

lemma bce_outcome:
  assumes order: "\<And>xs. set (order xs) = set xs"
  shows "\<exists>r. bce_run order debug g = Some (raise_flags NF_IsDead (bce_kills g) g, r)
    \<and> (r = verify_if_enabled debug (raise_flags NF_IsDead (bce_kills g) g) \<or> r = Inr () \<and> bce_kills g = {})"
proof -
  let ?K = "{i. bounds_check g i \<and> const_check g (data_inputs g i ! 0) (data_inputs g i ! 1)}"
  define T where "T = (\<lambda>(k, cs). {c \<in> set cs. counter_check g k (data_inputs g c ! 1)})"
  let ?s1 = "fold bce_const_node (node_ids g) (False, g)"
  let ?gs = "bounds_by_idx (snd ?s1)"
  have m1: "marker NF_IsDead g (fold bce_const_node (node_ids g)) ?K"
    by (rule marker_cong [OF marker_fold], rule bce_const_marker)
      (auto simp: bounds_check_def split: if_splits)
  have g1: "snd ?s1 = raise_flags NF_IsDead ?K g" using markerD [OF m1, of False "{}"] by simp
  have check: "bounds_check (raise_flags NF_IsDead S g) c \<longleftrightarrow> bounds_check g c \<and> c \<notin> S" for S c
    by (auto simp: bounds_check_def raise_dead)
  have flat: "flat ?gs = {(data_inputs g i ! 0, i) | i. bounds_check g i \<and> i \<notin> ?K}"
    unfolding g1 flat_bounds check by simp
  have "bounds_check g c" if "(k, cs) \<in> set ?gs" "c \<in> set cs" for k cs c
    using flat that by (fastforce simp: flat_def)
  then have "marker NF_IsDead g (bce_group e) (T e)" if "e \<in> set (order ?gs)" for e
    using that bce_group_marker [of "snd e" g "fst e"] by (cases e) (simp add: T_def order)
  then have m2: "marker NF_IsDead g (fold bce_group (order ?gs)) (\<Union>e \<in> set (order ?gs). T e)"
    by (rule marker_fold)
  have "(\<Union>e \<in> set (order ?gs). T e) = {c. \<exists>k. (k, c) \<in> flat ?gs \<and> counter_check g k (data_inputs g c ! 1)}"
    by (auto simp: order T_def flat_def)
  also have "\<dots> = {i. bounds_check g i \<and> i \<notin> ?K \<and> counter_check g (data_inputs g i ! 0) (data_inputs g i ! 1)}"
    unfolding flat by auto
  finally have "?K \<union> (\<Union>e \<in> set (order ?gs). T e) = bce_kills g" by (auto simp: bce_kills_def)
  from marker_cong [OF marker_comp [OF m1 m2] this]
  have m: "marker NF_IsDead g (\<lambda>s. fold bce_group (order ?gs) (fold bce_const_node (node_ids g) s)) (bce_kills g)" .
  let ?s2 = "fold bce_group (order ?gs) ?s1"
  have s2: "snd ?s2 = raise_flags NF_IsDead (bce_kills g) g" using markerD [OF m, of False "{}"] by simp
  have none: "bce_kills g = {}" if "\<not> fst ?s2"
  proof -
    have "raise_flags NF_IsDead (bce_kills g) g = g"
      using m [unfolded marker_def, rule_format, of False "{}"] that by simp
    moreover have "bounds_check g i" if "i \<in> bce_kills g" for i using that by (simp add: bce_kills_def)
    ultimately show ?thesis using raise_dead [of g _ "bce_kills g"] by (fastforce simp: bounds_check_def)
  qed
  have "bce_run order debug g = Some (snd ?s2, if fst ?s2 then verify_if_enabled debug (snd ?s2) else Inr ())"
    by (simp add: bce_run_def Let_def)
  then show ?thesis using s2 none by auto
qed


text \<open>A loop over \<open>i = 0, 1, ..., 99\<close> that indexes an array of length 4; the check is killed.\<close>

definition flat_node :: "node_kind \<Rightarrow> u16 \<Rightarrow> nat \<Rightarrow> nat \<Rightarrow> node" where
  "flat_node k f first cnt =
     default_node\<lparr>n_kind := k, n_flags := f, n_data_inputs := \<lparr>first_edge = first, edge_count = cnt\<rparr>\<rparr>"

definition flat_side :: "i64 \<Rightarrow> node_side" where
  "flat_side v = default_side\<lparr>const_value := v\<rparr>"

definition ex_counter :: graph where
  "ex_counter = \<lparr>g_nodes = [flat_node NK_Start 4 0 0, flat_node NK_ConstInt 257 0 0, flat_node NK_ConstInt 257 0 0,
       flat_node NK_ConstInt 257 0 0, flat_node NK_ConstInt 257 0 0, flat_node NK_Phi 1 0 2, flat_node NK_Add 1 2 2,
       flat_node NK_Lt 1 4 2, flat_node NK_If 4 6 1, flat_node NK_CheckBounds 68 7 2],
     g_sides = map flat_side [0, 0, 1, 100, 4, 0, 0, 0, 0, 0],
     g_pool = [2, 7, 6, 3, 6, 4, 8, 6, 5], g_start = 1\<rparr>"


section \<open>Escape analysis\<close>

lemma has_live_use_iff: "has_live_use g a \<longleftrightarrow>
    (\<exists>u. in_graph g u \<and> u \<noteq> a \<and> \<not> node_is_dead (node g u) \<and> a \<in> set (data_inputs g u))"
  by (auto simp: has_live_use_def list_ex_iff)

lemma raise_live_use: "has_live_use (raise_flags NF_IsDead S g) a \<longleftrightarrow>
    (\<exists>u. in_graph g u \<and> u \<noteq> a \<and> \<not> node_is_dead (node g u) \<and> u \<notin> S \<and> a \<in> set (data_inputs g u))"
  by (auto simp: has_live_use_iff raise_dead)

lemma escape_fold:
  "(\<And>a. a \<in> set as \<Longrightarrow> in_graph g a) \<Longrightarrow>
    \<exists>K. fold escape_kill as (c, raise_flags NF_IsDead S g) = (c \<or> K \<noteq> {}, raise_flags NF_IsDead (S \<union> K) g)
      \<and> K \<subseteq> set as \<and> (\<forall>k \<in> K. \<not> has_live_use (raise_flags NF_IsDead (S \<union> K) g) k)
      \<and> (\<forall>a \<in> set as. \<not> has_live_use g a \<longrightarrow> a \<in> K)"
proof (induction as arbitrary: c S)
  case (Cons a as)
  show ?case
  proof (cases "has_live_use (raise_flags NF_IsDead S g) a")
    case True
    then have "has_live_use g a" unfolding raise_live_use unfolding has_live_use_iff by blast
    moreover obtain K where "fold escape_kill as (c, raise_flags NF_IsDead S g) = (c \<or> K \<noteq> {}, raise_flags NF_IsDead (S \<union> K) g)"
      "K \<subseteq> set as" "\<forall>k \<in> K. \<not> has_live_use (raise_flags NF_IsDead (S \<union> K) g) k"
      "\<forall>a \<in> set as. \<not> has_live_use g a \<longrightarrow> a \<in> K" using Cons.IH [of c S] Cons.prems by auto
    moreover have "escape_kill a (c, raise_flags NF_IsDead S g) = (c, raise_flags NF_IsDead S g)"
      using True by (simp add: escape_kill_def)
    ultimately show ?thesis by (intro exI [of _ K]) auto
  next
    case False
    have step: "escape_kill a (c, raise_flags NF_IsDead S g) = (True, raise_flags NF_IsDead (S \<union> {a}) g)"
      using False Cons.prems by (simp add: escape_kill_def kill_raise)
    obtain K where K: "fold escape_kill as (True, raise_flags NF_IsDead (S \<union> {a}) g)
        = (True, raise_flags NF_IsDead (S \<union> {a} \<union> K) g)"
      "K \<subseteq> set as" "\<forall>k \<in> K. \<not> has_live_use (raise_flags NF_IsDead (S \<union> {a} \<union> K) g) k"
      "\<forall>a \<in> set as. \<not> has_live_use g a \<longrightarrow> a \<in> K" using Cons.IH [of True "S \<union> {a}"] Cons.prems by auto
    have "\<not> has_live_use (raise_flags NF_IsDead (S \<union> {a} \<union> K) g) a"
      using False by (auto simp: raise_live_use)
    then show ?thesis using K step by (intro exI [of _ "insert a K"]) (auto simp: Un_assoc)
  qed
qed auto

lemma allocations_in: "a \<in> set (allocations g) \<longleftrightarrow> in_graph g a \<and> \<not> node_is_dead (node g a)
    \<and> n_kind (node g a) \<in> {NK_Allocate, NK_NewObj, NK_NewArr, NK_Box}"
  by (auto simp: allocations_def)

lemma escape_outcome:
  "\<exists>K. escape_analysis_run debug g = Some (raise_flags NF_IsDead K g,
       if K = {} then Inr () else verify_if_enabled debug (raise_flags NF_IsDead K g))
     \<and> K \<subseteq> set (allocations g) \<and> (\<forall>k \<in> K. \<not> has_live_use (raise_flags NF_IsDead K g) k)
     \<and> (\<forall>a \<in> set (allocations g). \<not> has_live_use g a \<longrightarrow> a \<in> K)"
proof (cases "allocations g = []")
  case True
  then show ?thesis by (intro exI [of _ "{}"]) (simp add: escape_analysis_run_def)
next
  case False
  from escape_fold [of "allocations g" g False "{}"] obtain K where K:
    "fold escape_kill (allocations g) (False, g) = (K \<noteq> {}, raise_flags NF_IsDead K g)"
    "K \<subseteq> set (allocations g)" "\<forall>k \<in> K. \<not> has_live_use (raise_flags NF_IsDead K g) k"
    "\<forall>a \<in> set (allocations g). \<not> has_live_use g a \<longrightarrow> a \<in> K" by (auto simp: allocations_in)
  then show ?thesis using False by (intro exI [of _ K]) (simp add: escape_analysis_run_def Let_def)
qed

lemma verify_fails: "\<not> verifier_ok g \<Longrightarrow> \<exists>msg. verify_if_enabled True g = Inl (make_error_verification msg)"
  using verify_Inr_iff [of g] by (auto simp: verify_if_enabled_def verify_graph_def Let_def split: if_splits)

text \<open>C30: escape analysis only kills live allocations; afterwards no other live node has a killed one
  as data input, and every allocation without live data users is killed. When a live node still has a
  killed allocation as its effect or control input, a debug build fails with a verification error.\<close>

theorem escape_analysis_exact:
  assumes "escape_analysis_run debug g = Some (g', r)"
  shows "\<exists>K. g' = raise_flags NF_IsDead K g
    \<and> (\<forall>k \<in> K. in_graph g k \<and> \<not> node_is_dead (node g k) \<and> n_kind (node g k) \<in> {NK_Allocate, NK_NewObj, NK_NewArr, NK_Box}
         \<and> (\<forall>u. in_graph g' u \<longrightarrow> u \<noteq> k \<longrightarrow> \<not> node_is_dead (node g' u) \<longrightarrow> k \<notin> set (data_inputs g' u)))
    \<and> (\<forall>a. in_graph g a \<longrightarrow> \<not> node_is_dead (node g a) \<longrightarrow> n_kind (node g a) \<in> {NK_Allocate, NK_NewObj, NK_NewArr, NK_Box} \<longrightarrow>
         (\<forall>u. in_graph g u \<longrightarrow> u \<noteq> a \<longrightarrow> \<not> node_is_dead (node g u) \<longrightarrow> a \<notin> set (data_inputs g u)) \<longrightarrow> a \<in> K)
    \<and> r = (if K = {} then Inr () else verify_if_enabled debug g')
    \<and> (debug \<longrightarrow> (\<exists>k \<in> K. \<exists>u. in_graph g' u \<and> \<not> node_is_dead (node g' u) \<and> (effect_input g' u = k \<or> ctrl_input g' u = k)) \<longrightarrow>
         (\<exists>msg. r = Inl (make_error_verification msg)))"
proof -
  obtain K where K: "g' = raise_flags NF_IsDead K g" "r = (if K = {} then Inr () else verify_if_enabled debug g')"
    "K \<subseteq> set (allocations g)" "\<forall>k \<in> K. \<not> has_live_use g' k" "\<forall>a \<in> set (allocations g). \<not> has_live_use g a \<longrightarrow> a \<in> K"
    using escape_outcome [of debug g] assms by auto
  have err: "\<exists>msg. r = Inl (make_error_verification msg)"
    if "debug" "k \<in> K" "in_graph g' u" "\<not> node_is_dead (node g' u)" "effect_input g' u = k \<or> ctrl_input g' u = k" for k u
  proof -
    have "in_graph g k" using that(2) K(3) by (auto simp: allocations_in)
    then have "in_graph g' k" "node_is_dead (node g' k)" using that(2) by (simp_all add: K(1) raise_dead)
    then have "\<not> verifier_ok g'" using that(3-5) by (auto simp: verifier_ok_def dead_unreferenced_def)
    then show ?thesis using verify_fails that(1,2) K(2) by auto
  qed
  have kill: "\<forall>k \<in> K. in_graph g k \<and> \<not> node_is_dead (node g k) \<and> n_kind (node g k) \<in> {NK_Allocate, NK_NewObj, NK_NewArr, NK_Box}
      \<and> (\<forall>u. in_graph g' u \<longrightarrow> u \<noteq> k \<longrightarrow> \<not> node_is_dead (node g' u) \<longrightarrow> k \<notin> set (data_inputs g' u))"
    using K(3,4) allocations_in [of _ g] unfolding has_live_use_iff by blast
  have all: "\<forall>a. in_graph g a \<longrightarrow> \<not> node_is_dead (node g a) \<longrightarrow> n_kind (node g a) \<in> {NK_Allocate, NK_NewObj, NK_NewArr, NK_Box} \<longrightarrow>
      (\<forall>u. in_graph g u \<longrightarrow> u \<noteq> a \<longrightarrow> \<not> node_is_dead (node g u) \<longrightarrow> a \<notin> set (data_inputs g u)) \<longrightarrow> a \<in> K"
    using K(5) allocations_in [of _ g] unfolding has_live_use_iff by blast
  show ?thesis
    by (intro exI [of _ K] conjI) (rule K(1), rule kill, rule all, rule K(2), use err in blast)
qed

text \<open>An object nobody reads, in the effect chain of a return.\<close>

definition ex_alloc :: graph where
  "ex_alloc = \<lparr>g_nodes = [flat_node NK_Start 4 0 0,
       (flat_node NK_NewObj 2 0 0)\<lparr>n_effect_input := \<lparr>first_edge = 0, edge_count = 1\<rparr>\<rparr>,
       (flat_node NK_Return 4 0 0)\<lparr>n_effect_input := \<lparr>first_edge = 1, edge_count = 1\<rparr>\<rparr>],
     g_sides = map flat_side [0, 0, 0], g_pool = [1, 2], g_start = 1\<rparr>"

theorem escape_analysis_exact_witness:
  "\<exists>g' msg. escape_analysis_run True ex_alloc = Some (g', Inl (make_error_verification msg)) \<and> node_is_dead (node g' 2)"
proof -
  obtain g' r where run: "escape_analysis_run True ex_alloc = Some (g', r)"
    using escape_outcome [of True ex_alloc] by blast
  from escape_analysis_exact [OF run] obtain K where K: "g' = raise_flags NF_IsDead K ex_alloc"
    "\<forall>k \<in> K. n_kind (node ex_alloc k) \<in> {NK_Allocate, NK_NewObj, NK_NewArr, NK_Box}"
    "\<forall>a. in_graph ex_alloc a \<longrightarrow> \<not> node_is_dead (node ex_alloc a) \<longrightarrow> n_kind (node ex_alloc a) \<in> {NK_Allocate, NK_NewObj, NK_NewArr, NK_Box} \<longrightarrow>
         (\<forall>u. in_graph ex_alloc u \<longrightarrow> u \<noteq> a \<longrightarrow> \<not> node_is_dead (node ex_alloc u) \<longrightarrow> a \<notin> set (data_inputs ex_alloc u)) \<longrightarrow> a \<in> K"
    "(\<exists>k \<in> K. \<exists>u. in_graph g' u \<and> \<not> node_is_dead (node g' u) \<and> (effect_input g' u = k \<or> ctrl_input g' u = k)) \<longrightarrow>
         (\<exists>msg. r = Inl (make_error_verification msg))" by blast
  have at: "in_graph ex_alloc 2" "in_graph ex_alloc 3" "\<not> node_is_dead (node ex_alloc 2)" "n_kind (node ex_alloc 2) = NK_NewObj"
    "\<not> node_is_dead (node ex_alloc 3)" "n_kind (node ex_alloc 3) = NK_Return" "effect_input ex_alloc 3 = 2"
    "list_all (\<lambda>u. data_inputs ex_alloc u = []) [1..<4]" by code_simp+
  have "data_inputs ex_alloc u = []" if "in_graph ex_alloc u" for u
    using at(8) that by (simp only: list_all_iff) (auto simp: in_graph_def g_size_def ex_alloc_def)
  then have "2 \<in> K" using K(3) at(1,3,4) by auto
  moreover have "3 \<notin> K" using K(2) at(6) by auto
  ultimately have "node_is_dead (node g' 2)" "in_graph g' 3" "\<not> node_is_dead (node g' 3)" "effect_input g' 3 = 2"
    using K(1) at(1-7) by (simp_all add: raise_dead)
  moreover from this(2-4) \<open>2 \<in> K\<close> have "\<exists>msg. r = Inl (make_error_verification msg)" using K(4) by blast
  ultimately show ?thesis using run by blast
qed

section \<open>Inline cache guards\<close>

lemma wf_ic_guard: "graph_wf g \<Longrightarrow> in_graph g i \<Longrightarrow> graph_wf (ic_guard i g)"
  by (simp add: ic_guard_def split_beta Let_def wf_create_with wf_set_inputs wf_upd_side)

lemma view_upd_side:
  "graph_wf g \<Longrightarrow> in_graph g i \<Longrightarrow> in_graph g j \<Longrightarrow>
    view (upd_side i f g) j = (if j = i then (view g j)\<lparr>v_side := f (side g j)\<rparr> else view g j)"
  by (auto simp: view_def side_upd)

lemma view_ic_guard:
  assumes "graph_wf g" "in_graph g i" "in_graph g j \<or> j = g_size g + 1"
  shows "view (ic_guard i g) j =
    (if j = g_size g + 1 then (new_view NK_CheckClass)\<lparr>v_ins := [data_inputs g i ! 0], v_ctrl := ctrl_input g i,
        v_effect := effect_input g i\<rparr>
     else if j = i then (view g j)\<lparr>v_effect := g_size g + 1\<rparr> else view g j)"
proof -
  let ?n = "g_size g + 1"
  let ?g1 = "snd (create_with NK_CheckClass [data_inputs g i ! 0] 0 0 g)"
  let ?g2 = "upd_side ?n (\<lambda>s. s\<lparr>class_id := 0\<rparr>) ?g1"
  let ?g3 = "set_ctrl_input ?n (ctrl_input ?g2 i) ?g2"
  let ?g4 = "set_effect_input ?n (effect_input ?g3 i) ?g3"
  have eq: "ic_guard i g = set_effect_input i ?n ?g4" by (simp add: ic_guard_def split_beta Let_def)
  have ne: "i \<noteq> ?n" using assms(2) by (simp add: in_graph_def)
  have wf: "graph_wf ?g1" "graph_wf ?g2" "graph_wf ?g3" "graph_wf ?g4"
    using assms(1) by (simp_all add: wf_create_with wf_set_inputs wf_upd_side)
  have n: "in_graph ?g1 ?n" "in_graph ?g1 i" "in_graph ?g1 j" using assms(2,3) by auto
  have v1: "view ?g1 k = (if k = ?n then (new_view NK_CheckClass)\<lparr>v_ins := [data_inputs g i ! 0], v_ctrl := 0, v_effect := 0\<rparr>
      else view g k)" if "in_graph ?g1 k" for k
    using view_create_with [OF assms(1) that] by simp
  have v2: "view ?g2 k = view ?g1 k" if "in_graph ?g1 k" for k
  proof -
    have "side ?g1 ?n = default_side" using v1 [OF n(1)] by (simp add: view_def new_view_def)
    moreover have "default_side\<lparr>class_id := 0\<rparr> = default_side" by (simp add: default_side_def)
    moreover have "(view ?g1 k)\<lparr>v_side := side ?g1 k\<rparr> = view ?g1 k" by (simp add: view_def)
    ultimately show ?thesis using view_upd_side [OF wf(1) n(1) that, of "\<lambda>s. s\<lparr>class_id := 0\<rparr>"] by (simp split: if_splits)
  qed
  have v3: "view ?g3 k = (if k = ?n then (view ?g1 k)\<lparr>v_ctrl := ctrl_input g i\<rparr> else view ?g1 k)" if "in_graph ?g1 k" for k
  proof -
    have "ctrl_input ?g2 i = ctrl_input g i" using v2 [OF n(2)] v1 [OF n(2)] ne by (simp add: view_fields)
    moreover have "in_graph ?g2 ?n" "in_graph ?g2 k" using n(1) that by simp_all
    ultimately show ?thesis using view_set_ctrl_input [OF wf(2), of ?n k "ctrl_input ?g2 i"] v2 [OF that]
      by (simp only:)
  qed
  have v4: "view ?g4 k = (if k = ?n then (view ?g3 k)\<lparr>v_effect := effect_input g i\<rparr> else view ?g3 k)" if "in_graph ?g1 k" for k
  proof -
    have "effect_input ?g3 i = effect_input g i" using v3 [OF n(2)] v1 [OF n(2)] ne by (simp add: view_fields)
    moreover have "in_graph ?g3 ?n" "in_graph ?g3 k" using n(1) that by simp_all
    ultimately show ?thesis using view_set_effect_input [OF wf(3), of ?n k "effect_input ?g3 i"] by (simp only:)
  qed
  have "in_graph ?g4 i" "in_graph ?g4 j" using n(2,3) by simp_all
  then have "view (ic_guard i g) j = (if j = i then (view ?g4 j)\<lparr>v_effect := ?n\<rparr> else view ?g4 j)"
    unfolding eq by (rule view_set_effect_input [OF wf(4)])
  then show ?thesis unfolding v4 [OF n(3)] v3 [OF n(3)] v1 [OF n(3)] using ne by (cases "j = ?n") simp_all
qed

text \<open>A graph extended by nodes without a value.\<close>

lemma eval_extend:
  assumes old: "\<And>j. in_graph g j \<Longrightarrow> in_graph h j \<and> n_kind (node h j) = n_kind (node g j) \<and> side h j = side g j
      \<and> data_inputs h j = data_inputs g j"
    and fresh: "\<And>j vs. in_graph h j \<Longrightarrow> \<not> in_graph g j \<Longrightarrow> F (n_kind (node h j)) (side h j) vs = None"
  shows "eval F h i v \<longleftrightarrow> eval F g i v"
proof
  show "eval F h i v" if "eval F g i v"
    using that
  proof (induction rule: eval.induct)
    case (evalI i vs v)
    show ?case by (rule eval.evalI) (use old [OF evalI.hyps(1)] evalI in \<open>auto elim: list_all2_mono\<close>)
  qed
  show "eval F g i v" if "eval F h i v"
    using that
  proof (induction rule: eval.induct)
    case (evalI i vs v)
    then have "in_graph g i" using fresh by fastforce
    show ?case by (rule eval.evalI) (use old [OF \<open>in_graph g i\<close>] \<open>in_graph g i\<close> evalI in \<open>auto elim: list_all2_mono\<close>)
  qed
qed

lemma check_class_flags:
  "flags_has (create_flags (lookup_node_kind_info NK_CheckClass)) NF_IsGuard"
  "\<not> flags_has (create_flags (lookup_node_kind_info NK_CheckClass)) NF_Commutative"
  by code_simp+

text \<open>A guard without frame state, which the verifier reports.\<close>

definition bare_guard :: "graph \<Rightarrow> bool" where
  "bare_guard g \<longleftrightarrow> (\<exists>j. in_graph g j \<and> node_is_guard (node g j) \<and> n_state (node g j) = 0)"

lemma bare_guard_ic: "graph_wf g \<Longrightarrow> in_graph g i \<Longrightarrow> bare_guard (ic_guard i g)"
  unfolding bare_guard_def
  by (rule exI [of _ "g_size g + 1"])
    (use view_ic_guard [of g i "g_size g + 1"] check_class_flags in
      \<open>simp add: view_def new_view_def node_is_guard_def in_graph_def\<close>)

lemma ic_test_keeps:
  assumes "graph_wf g" "in_graph g i" "in_graph g j" "i \<noteq> j"
  shows "ic_test g j \<Longrightarrow> ic_test (ic_guard i g) j"
  using view_ic_guard [OF assms(1,2), of j] assms(3,4)
  by (auto simp: ic_test_def Let_def view_fields node_queries in_graph_def split: if_splits)

lemma ic_loop_inv:
  assumes I: "\<And>g i. I g \<Longrightarrow> graph_wf g \<Longrightarrow> in_graph g i \<Longrightarrow> n_kind (node g i) = NK_CallVirt \<Longrightarrow> I (ic_guard i g)"
  shows "graph_wf g \<Longrightarrow> I g \<Longrightarrow> graph_wf (snd (ic_loop nid ch g)) \<and> I (snd (ic_loop nid ch g))"
proof (induction nid ch g rule: ic_loop.induct)
  case (1 nid ch g)
  show ?case
  proof (cases "nid = 0 \<or> nid > g_size g")
    case False
    then have "in_graph g nid" by (simp add: in_graph_def)
    moreover have "n_kind (node g nid) = NK_CallVirt" if "ic_test g nid"
      using that by (auto simp: ic_test_def Let_def split: if_splits)
    ultimately show ?thesis using False 1 I [of g nid] wf_ic_guard
      by (subst (1 2) ic_loop.simps) auto
  qed (use 1 in \<open>simp add: ic_loop.simps\<close>)
qed

lemma ic_loop_bare:
  "graph_wf g \<Longrightarrow> (ch \<longrightarrow> bare_guard g) \<Longrightarrow> 1 \<le> nid \<Longrightarrow>
    (fst (ic_loop nid ch g) \<longrightarrow> bare_guard (snd (ic_loop nid ch g)))
    \<and> (ch \<or> (\<exists>i \<ge> nid. in_graph g i \<and> ic_test g i) \<longrightarrow> fst (ic_loop nid ch g))"
proof (induction nid ch g rule: ic_loop.induct)
  case (1 nid ch g)
  show ?case
  proof (cases "nid > g_size g")
    case True
    then show ?thesis using 1 by (auto simp: ic_loop.simps in_graph_def)
  next
    case False
    then have nid: "in_graph g nid" using 1 by (simp add: in_graph_def)
    show ?thesis
    proof (cases "ic_test g nid")
      case True
      then show ?thesis using 1 False nid bare_guard_ic [OF 1(3) nid] wf_ic_guard [OF 1(3) nid]
        by (subst (1 2 3) ic_loop.simps) auto
    next
      case no: False
      have "i \<ge> nid + 1" if "i \<ge> nid" "ic_test g i" for i using that no by (cases "i = nid") auto
      then show ?thesis using 1 False no by (subst (1 2 3) ic_loop.simps) auto
    qed
  qed
qed

text \<open>C31: with the verifier enabled, inline cache emission fails on every graph with a live virtual call
  that has a receiver: the guard it inserts carries no frame state.\<close>

theorem ic_stub_never_verifies:
  assumes "graph_wf g" "in_graph g i" "\<not> node_is_dead (node g i)" "n_kind (node g i) = NK_CallVirt"
    and "data_inputs g i = receiver # args" "in_graph g receiver"
  shows "\<exists>g' msg. ic_stub_emission_run True g = Some (g', Inl (make_error_verification msg))"
proof -
  have "ic_test g i" using assms by (simp add: ic_test_def in_graph_def id_valid_def)
  moreover have "1 \<le> i" using assms(2) by (simp add: in_graph_def)
  ultimately have loop: "fst (ic_loop 1 False g)" "bare_guard (snd (ic_loop 1 False g))"
    using ic_loop_bare [OF assms(1), of False 1] assms(2) by auto
  then have "\<not> verifier_ok (snd (ic_loop 1 False g))"
    by (auto simp: bare_guard_def verifier_ok_def guards_have_state_def)
  from verify_fails [OF this] show ?thesis using loop(1) by (auto simp: ic_stub_emission_run_def split_beta)
qed

definition ex_virtual :: graph where
  "ex_virtual = \<lparr>g_nodes = [flat_node NK_Start 4 0 0, flat_node NK_NewObj 2 0 0, flat_node NK_CallVirt 2 0 1],
     g_sides = map flat_side [0, 0, 0], g_pool = [2], g_start = 1\<rparr>"

lemma ex_virtual_nodes:
  "in_graph ex_virtual 3" "in_graph ex_virtual 2" "\<not> node_is_dead (node ex_virtual 3)"
  "n_kind (node ex_virtual 3) = NK_CallVirt" "data_inputs ex_virtual 3 = [2]"
  by code_simp+

lemma wf_ex_virtual: "graph_wf ex_virtual"
  by (simp add: graph_wf_def all_slots_def ex_virtual_def node_slots_def slice_slots_def flat_node_def
      default_node_def empty_slice_def)

theorem ic_stub_never_verifies_witness:
  "\<exists>g' msg. ic_stub_emission_run True ex_virtual = Some (g', Inl (make_error_verification msg))"
  by (rule ic_stub_never_verifies [OF wf_ex_virtual ex_virtual_nodes(1,3-5,2)])

end
