(* ===== verification/Region_Passes_Correct.thy ===== *)
theory Region_Passes_Correct
  imports Flag_Marks
begin

text \<open>
  The marking passes of \<open>Region_Passes\<close>: they change nothing but the flags \<open>IsScheduled\<close> and
  \<open>IsCold\<close>, which no analysis of the graph reads, and which nodes they mark.
\<close>

section \<open>Which nodes the passes mark\<close>

definition licm_marks :: "graph \<Rightarrow> block_structure \<Rightarrow> node_id set" where
  "licm_marks g bs = {i. in_graph g i \<and> \<not> node_is_dead (node g i) \<and> is_hoistable (node g i)
     \<and> (\<exists>bb \<in> set (bs_blocks bs). bb_is_loop_header bb \<and> bb_id bb \<le> block_of bs i
          \<and> is_loop_invariant g bs i (bb_id bb))}"

definition peel_marks :: "graph \<Rightarrow> block_structure \<Rightarrow> node_id set" where
  "peel_marks g bs = {bb_leader bb | bb. bb \<in> set (bs_blocks bs) \<and> bb_is_loop_header bb
     \<and> peel_count g (bb_id bb) (drop (bb_id bb) (bs_blocks bs)) 0 \<in> {0<..<20}}"

definition reorder_marks :: "graph \<Rightarrow> block_structure \<Rightarrow> node_id set" where
  "reorder_marks g bs = {bb_leader bb | bb. bb \<in> set (bs_blocks bs) \<and> block_is_cold g bb}"

definition unswitch_marks :: "graph \<Rightarrow> block_structure \<Rightarrow> node_id set" where
  "unswitch_marks g bs = {i. in_graph g i \<and> \<not> node_is_dead (node g i) \<and> n_kind (node g i) = NK_If
     \<and> data_inputs g i \<noteq> [] \<and> in_graph g (data_inputs g i ! 0)
     \<and> (\<exists>bb \<in> set (bs_blocks bs). bb_is_loop_header bb \<and> bb_id bb \<le> block_of bs i
          \<and> block_of bs (data_inputs g i ! 0) < bb_id bb)}"

definition gcm_marks :: "graph \<Rightarrow> block_structure \<Rightarrow> node_id set" where
  "gcm_marks g bs =
     {i. in_graph g i \<and> \<not> node_is_dead (node g i) \<and> node_is_pure (node g i) \<and> block_of bs i \<noteq> 0
        \<and> block_of bs i < earliest_block g i bs}
     \<union> {i. in_graph g i \<and> \<not> node_is_dead (node g i) \<and> flags_has (n_flags (node g i)) NF_IsScheduled}
     \<union> {i. in_graph g i \<and> \<not> node_is_dead (node g i) \<and> node_is_pure (node g i) \<and> \<not> node_is_control (node g i)
        \<and> \<not> node_is_effect (node g i) \<and> \<not> node_is_const (node g i) \<and> block_of bs i \<noteq> 0
        \<and> block_of bs i > latest_block g i bs (gcm_users g)}"

lemma raise_tests [simp]:
  assumes "quiet m"
  shows "is_hoistable (node (raise_flags m S g) i) = is_hoistable (node g i)"
    "is_loop_invariant (raise_flags m S g) bs i h = is_loop_invariant g bs i h"
    "earliest_block (raise_flags m S g) i bs = earliest_block g i bs"
    "latest_block (raise_flags m S g) i bs us = latest_block g i bs us"
    "live_in_range (raise_flags m S g) bb = live_in_range g bb"
    "block_is_cold (raise_flags m S g) bb = block_is_cold g bb"
  using assms
  by (simp_all add: is_hoistable_def is_loop_invariant_def earliest_block_def latest_block_def
      live_in_range_def block_is_cold_def cong: if_cong)

lemma raise_peel_count [simp]: "quiet m \<Longrightarrow> peel_count (raise_flags m S g) h bl c = peel_count g h bl c"
  by (induction bl arbitrary: c) (simp_all add: Let_def)

lemma block_of_bound:
  assumes "blocks_ok g (g_size g + 1) bs" "in_graph g i" "\<not> node_is_dead (node g i)"
  shows "block_of bs i < num_blocks bs" "bb_leader (bs_blocks bs ! block_of bs i) \<le> i"
    "i \<le> bb_last (bs_blocks bs ! block_of bs i)"
proof -
  obtain b where "bs_node_to_block bs i = Some b"
    using blocks_ok_None [OF assms(1), of i] assms(2,3) by (auto simp: in_graph_def)
  then show "block_of bs i < num_blocks bs" "bb_leader (bs_blocks bs ! block_of bs i) \<le> i"
    "i \<le> bb_last (bs_blocks bs ! block_of bs i)"
    using blocks_ok_map [OF assms(1)] by (auto simp: block_of_def)
qed

lemma block_in:
  "blocks_ok g k bs \<Longrightarrow> bb \<in> set (bs_blocks bs) \<Longrightarrow> bb_id bb < num_blocks bs \<and> bs_blocks bs ! bb_id bb = bb"
  using blocks_okD(1) by (fastforce simp: in_set_conv_nth num_blocks_def)

lemma leader_in_graph:
  assumes "blocks_ok g (g_size g + 1) bs" "bb \<in> set (bs_blocks bs)"
  shows "in_graph g (bb_leader bb)" "\<not> node_is_dead (node g (bb_leader bb))"
proof -
  obtain b where b: "b < num_blocks bs" "bb = bs_blocks bs ! b" using block_in [OF assms] by metis
  note ok = blocks_okD [OF assms(1) b(1)]
  show "in_graph g (bb_leader bb)" using ok(2,3,4) b(2) by (simp add: in_graph_def)
  show "\<not> node_is_dead (node g (bb_leader bb))" using ok(5) b(2) blocks_ok_None [OF assms(1)]
    by (metis option.discI)
qed

subsection \<open>LICM\<close>

lemma licm_node_marker:
  assumes "in_graph g i"
  shows "marker NF_IsScheduled g (licm_node bs h b i)
    (if \<not> node_is_dead (node g i) \<and> block_of bs i = b \<and> is_hoistable (node g i) \<and> is_loop_invariant g bs i h
     then {i} else {})"
proof (rule marker_if)
  show "marker NF_IsScheduled g (licm_node bs h b i) {i}"
    if "\<not> node_is_dead (node g i) \<and> block_of bs i = b \<and> is_hoistable (node g i) \<and> is_loop_invariant g bs i h"
    by (rule marker_set_new [OF assms]) (use that in \<open>simp_all add: licm_node_def Let_def\<close>)
  show "marker NF_IsScheduled g (licm_node bs h b i) {}"
    if "\<not> (\<not> node_is_dead (node g i) \<and> block_of bs i = b \<and> is_hoistable (node g i) \<and> is_loop_invariant g bs i h)"
    by (rule marker_skip) (use that in \<open>auto simp: licm_node_def Let_def\<close>)
qed

lemma licm_block_marker:
  assumes "blocks_ok g (g_size g + 1) bs" "b < num_blocks bs"
  shows "marker NF_IsScheduled g (licm_block bs h b)
    {i. in_graph g i \<and> \<not> node_is_dead (node g i) \<and> block_of bs i = b \<and> is_hoistable (node g i) \<and> is_loop_invariant g bs i h}"
proof -
  have "licm_block bs h b s = fold (licm_node bs h b) (node_ids (snd s)) s" for s
    using blocks_okD(2) [OF assms] by (simp add: licm_block_def id_valid_def)
  moreover have "marker NF_IsScheduled g (fold (licm_node bs h b) (node_ids g))
    (\<Union>i \<in> set (node_ids g). if \<not> node_is_dead (node g i) \<and> block_of bs i = b \<and> is_hoistable (node g i)
       \<and> is_loop_invariant g bs i h then {i} else {})"
    by (rule marker_fold) (simp add: licm_node_marker)
  then have "marker NF_IsScheduled g (fold (licm_node bs h b) (node_ids g))
    {i. in_graph g i \<and> \<not> node_is_dead (node g i) \<and> block_of bs i = b \<and> is_hoistable (node g i) \<and> is_loop_invariant g bs i h}"
    by (rule marker_cong) (auto split: if_splits)
  ultimately show ?thesis by (auto intro: marker_eq)
qed

lemma licm_loops_marker:
  assumes ok: "blocks_ok g (g_size g + 1) bs"
  shows "marker NF_IsScheduled g (fold (licm_loop bs) (bs_blocks bs)) (licm_marks g bs)"
proof -
  let ?B = "\<lambda>h b. {i. in_graph g i \<and> \<not> node_is_dead (node g i) \<and> block_of bs i = b \<and> is_hoistable (node g i)
    \<and> is_loop_invariant g bs i h}"
  have loop: "marker NF_IsScheduled g (licm_loop bs bb)
      (if bb_is_loop_header bb then (\<Union>b \<in> set [bb_id bb..<num_blocks bs]. ?B (bb_id bb) b) else {})" for bb
  proof (cases "bb_is_loop_header bb")
    case True
    have "marker NF_IsScheduled g (fold (licm_block bs (bb_id bb)) [bb_id bb..<num_blocks bs])
      (\<Union>b \<in> set [bb_id bb..<num_blocks bs]. ?B (bb_id bb) b)"
      by (rule marker_fold, rule licm_block_marker [OF ok]) simp
    then show ?thesis using True by (auto intro: marker_eq simp: licm_loop_def)
  qed (simp add: marker_skip licm_loop_def)
  show ?thesis
  proof (rule marker_cong [OF marker_fold [OF loop]])
    show "(\<Union>bb \<in> set (bs_blocks bs). if bb_is_loop_header bb
        then \<Union>b \<in> set [bb_id bb..<num_blocks bs]. ?B (bb_id bb) b else {}) = licm_marks g bs"
      using block_of_bound(1) [OF ok] by (auto simp: licm_marks_def split: if_splits)
  qed
qed

text \<open>The outcome of a marking pass.\<close>

definition outcome :: "bool \<Rightarrow> graph \<Rightarrow> u16 \<Rightarrow> node_id set \<Rightarrow> (graph \<times> unit result) option \<Rightarrow> bool" where
  "outcome debug g m S res \<longleftrightarrow> (\<exists>r. res = Some (raise_flags m S g, r)
     \<and> (r = verify_if_enabled debug g \<or> r = Inr () \<and> raise_flags m S g = g))"

lemma marker_outcome:
  "marker m g f T \<Longrightarrow> quiet m \<Longrightarrow> outcome debug g m T (Some (finish_marking debug (f (False, g))))"
  using marker_finish by (simp add: outcome_def)

lemma no_blocks_no_live: "build_block_structure g = Some bs \<Longrightarrow> bs_blocks bs = [] \<Longrightarrow> in_graph g i \<Longrightarrow>
    node_is_dead (node g i)"
  using block_of_bound(1) [OF build_ok] by (fastforce simp: num_blocks_def)

lemma licm_outcome:
  assumes "build_block_structure g = Some bs"
  shows "outcome debug g NF_IsScheduled (licm_marks g bs) (licm_run debug g)"
proof (cases "bs_blocks bs = []")
  case True
  then have "licm_marks g bs = {}" by (auto simp: licm_marks_def)
  then show ?thesis using assms True by (simp add: licm_run_def outcome_def)
next
  case False
  then show ?thesis
    using marker_outcome [OF licm_loops_marker [OF build_ok [OF assms]] quiet_marks(1)] assms
    by (simp add: licm_run_def)
qed


subsection \<open>Loop peeling\<close>

lemma peel_loop_marker:
  assumes "blocks_ok g (g_size g + 1) bs" "bb \<in> set (bs_blocks bs)"
  shows "marker NF_IsScheduled g (peel_loop bs bb)
    (if bb_is_loop_header bb \<and> peel_count g (bb_id bb) (drop (bb_id bb) (bs_blocks bs)) 0 \<in> {0<..<20}
     then {bb_leader bb} else {})"
proof (rule marker_if)
  note lead = leader_in_graph [OF assms]
  let ?P = "bb_is_loop_header bb \<and> peel_count g (bb_id bb) (drop (bb_id bb) (bs_blocks bs)) 0 \<in> {0<..<20}"
  show "marker NF_IsScheduled g (peel_loop bs bb) {bb_leader bb}" if ?P
    by (rule marker_set [OF lead(1)]) (use that lead in \<open>simp_all add: peel_loop_def Let_def id_valid_def in_graph_def\<close>)
  show "marker NF_IsScheduled g (peel_loop bs bb) {}" if "\<not> ?P"
    by (rule marker_skip) (use that in \<open>auto simp: peel_loop_def Let_def\<close>)
qed

lemma loop_peeling_outcome:
  assumes "build_block_structure g = Some bs"
  shows "outcome debug g NF_IsScheduled (peel_marks g bs) (loop_peeling_run debug g)"
proof -
  have "marker NF_IsScheduled g (fold (peel_loop bs) (bs_blocks bs)) (peel_marks g bs)"
    by (rule marker_cong [OF marker_fold], rule peel_loop_marker [OF build_ok [OF assms]])
      (auto simp: peel_marks_def split: if_splits)
  then show ?thesis using marker_outcome assms by (simp add: loop_peeling_run_def)
qed

subsection \<open>Block reordering\<close>

lemma reorder_block_marker:
  assumes "blocks_ok g (g_size g + 1) bs" "bb \<in> set (bs_blocks bs)"
  shows "marker NF_IsCold g (reorder_block bb) (if block_is_cold g bb then {bb_leader bb} else {})"
proof (rule marker_if)
  note lead = leader_in_graph [OF assms]
  show "marker NF_IsCold g (reorder_block bb) {bb_leader bb}" if "block_is_cold g bb"
    by (rule marker_set_new [OF lead(1)]) (use that lead in \<open>simp_all add: reorder_block_def id_valid_def in_graph_def\<close>)
  show "marker NF_IsCold g (reorder_block bb) {}" if "\<not> block_is_cold g bb"
    by (rule marker_skip) (use that in \<open>auto simp: reorder_block_def\<close>)
qed

lemma block_reorder_outcome:
  assumes "build_block_structure g = Some bs"
  shows "outcome debug g NF_IsCold (reorder_marks g bs) (block_reorder_run debug g)"
proof (cases "bs_blocks bs = []")
  case True
  then show ?thesis using assms by (simp add: block_reorder_run_def outcome_def reorder_marks_def)
next
  case False
  have "marker NF_IsCold g (fold reorder_block (bs_blocks bs)) (reorder_marks g bs)"
    by (rule marker_cong [OF marker_fold], rule reorder_block_marker [OF build_ok [OF assms]])
      (auto simp: reorder_marks_def split: if_splits)
  then show ?thesis using marker_outcome assms False by (simp add: block_reorder_run_def)
qed

subsection \<open>Global code motion\<close>

lemma gcm_early_marker:
  assumes "in_graph g i"
  shows "marker NF_IsCold g (gcm_early bs i)
    (if \<not> node_is_dead (node g i) \<and> node_is_pure (node g i) \<and> block_of bs i \<noteq> 0
       \<and> block_of bs i < earliest_block g i bs then {i} else {})" (is "marker _ _ _ (if ?P then _ else _)")
proof (rule marker_if)
  show "marker NF_IsCold g (gcm_early bs i) {i}" if ?P
    by (rule marker_set [OF assms]) (use that in \<open>simp add: gcm_early_def Let_def\<close>)
  show "marker NF_IsCold g (gcm_early bs i) {}" if "\<not> ?P"
    by (rule marker_skip) (use that in \<open>auto simp: gcm_early_def Let_def\<close>)
qed

lemma gcm_hoist_marker:
  assumes "in_graph g i"
  shows "marker NF_IsCold g (gcm_hoist i)
    (if \<not> node_is_dead (node g i) \<and> flags_has (n_flags (node g i)) NF_IsScheduled then {i} else {})"
    (is "marker _ _ _ (if ?P then _ else _)")
proof (rule marker_if)
  have same: "flags_has (n_flags (node (raise_flags NF_IsCold S g) i)) NF_IsScheduled
      = flags_has (n_flags (node g i)) NF_IsScheduled" for S
    by (rule raise_flag) (simp add: flags_has_def)
  show "marker NF_IsCold g (gcm_hoist i) {i}" if ?P
    by (rule marker_set_new [OF assms]) (use that same in \<open>simp_all add: gcm_hoist_def Let_def\<close>)
  show "marker NF_IsCold g (gcm_hoist i) {}" if "\<not> ?P"
    by (rule marker_skip) (use that same in \<open>auto simp: gcm_hoist_def Let_def\<close>)
qed

lemma gcm_late_marker:
  assumes "in_graph g i"
  shows "marker NF_IsCold g (gcm_late bs us i)
    (if \<not> node_is_dead (node g i) \<and> node_is_pure (node g i) \<and> \<not> node_is_control (node g i)
       \<and> \<not> node_is_effect (node g i) \<and> \<not> node_is_const (node g i) \<and> block_of bs i \<noteq> 0
       \<and> block_of bs i > latest_block g i bs us then {i} else {})"
    (is "marker _ _ _ (if ?P then _ else _)")
proof (rule marker_if)
  have const: "flags_has (n_flags (node (raise_flags NF_IsCold S g) i)) NF_IsConst = node_is_const (node g i)" for S
    by (simp add: raise_flag node_is_const_def)
  show "marker NF_IsCold g (gcm_late bs us i) {i}" if ?P
    by (rule marker_set [OF assms]) (use that const in \<open>simp add: gcm_late_def Let_def\<close>)
  show "marker NF_IsCold g (gcm_late bs us i) {}" if "\<not> ?P"
    by (rule marker_skip) (use that const in \<open>auto simp: gcm_late_def Let_def\<close>)
qed

lemma gcm_outcome:
  assumes "build_block_structure g = Some bs"
  shows "outcome debug g NF_IsCold (gcm_marks g bs) (gcm_run debug g)"
proof (cases "bs_blocks bs = []")
  case True
  then have "gcm_marks g bs = {}" using no_blocks_no_live [OF assms] by (auto simp: gcm_marks_def)
  then show ?thesis using assms True by (simp add: gcm_run_def outcome_def)
next
  case False
  let ?ids = "node_ids g"
  have "marker NF_IsCold g (\<lambda>s. fold (gcm_late bs (gcm_users g)) ?ids (fold gcm_hoist ?ids (fold (gcm_early bs) ?ids s)))
    (gcm_marks g bs)"
    by (rule marker_cong [OF marker_comp [OF marker_comp]])
      (rule marker_fold gcm_early_marker gcm_hoist_marker gcm_late_marker | simp |
        (auto simp: gcm_marks_def split: if_splits)[])+
  then show ?thesis using marker_outcome [of NF_IsCold g _ "gcm_marks g bs" debug] assms False
    by (simp add: gcm_run_def Let_def)
qed

subsection \<open>Loop unswitching\<close>

lemma unswitch_node_raise:
  assumes "in_graph g i"
  shows "unswitch_node bs h i (raise_flags NF_IsScheduled S g) = raise_flags NF_IsScheduled (S \<union>
    (if \<not> node_is_dead (node g i) \<and> n_kind (node g i) = NK_If \<and> data_inputs g i \<noteq> []
       \<and> in_graph g (data_inputs g i ! 0) \<and> block_of bs (data_inputs g i ! 0) < h then {i} else {})) g"
  using assms by (auto simp: unswitch_node_def Let_def in_graph_def id_valid_def upd_node_raise raise_raise)

lemma mem_if_empty: "x \<in> (if P then X else {}) \<longleftrightarrow> P \<and> x \<in> X"
  by simp

lemma fold_raise:
  assumes "\<And>x S. x \<in> set xs \<Longrightarrow> f x (raise_flags m S g) = raise_flags m (S \<union> T x) g"
  shows "fold f xs (raise_flags m S g) = raise_flags m (S \<union> (\<Union>x \<in> set xs. T x)) g"
  using assms by (induction xs arbitrary: S) (auto simp: Un_assoc)

lemma block_of_eq:
  assumes ok: "blocks_ok g (g_size g + 1) bs" and b: "b < num_blocks bs"
    and i: "in_graph g i" "\<not> node_is_dead (node g i)"
  shows "block_of bs i = b \<longleftrightarrow> bb_leader (bs_blocks bs ! b) \<le> i \<and> i \<le> bb_last (bs_blocks bs ! b)"
  using block_of_bound [OF ok i] blocks_ok_order [OF ok, of b "block_of bs i"]
    blocks_ok_order [OF ok, of "block_of bs i" b] b
  by (cases b "block_of bs i" rule: linorder_cases) auto

lemma loop_unswitching_outcome:
  assumes bs: "build_block_structure g = Some bs"
  shows "loop_unswitching_run debug g = Some (raise_flags NF_IsScheduled (unswitch_marks g bs) g, Inr ())"
proof -
  note ok = build_ok [OF bs]
  define C where "C h i \<longleftrightarrow> \<not> node_is_dead (node g i) \<and> n_kind (node g i) = NK_If \<and> data_inputs g i \<noteq> []
    \<and> in_graph g (data_inputs g i ! 0) \<and> block_of bs (data_inputs g i ! 0) < h" for h i
  define N where "N h i = (if C h i then {i} else {})" for h i
  define R where "R b = {bb_leader (bs_blocks bs ! b)..bb_last (bs_blocks bs ! b)}" for b
  have node: "unswitch_node bs h i (raise_flags NF_IsScheduled S g) = raise_flags NF_IsScheduled (S \<union> N h i) g"
    if "i \<in> R b" "b < num_blocks bs" for h i b S
  proof -
    have "in_graph g i" using that blocks_okD(2,4) [OF ok that(2)] by (auto simp: R_def in_graph_def)
    then show ?thesis unfolding N_def C_def by (rule unswitch_node_raise)
  qed
  have block: "unswitch_block bs h b (raise_flags NF_IsScheduled S g)
      = raise_flags NF_IsScheduled (S \<union> (\<Union>i \<in> R b. N h i)) g" if b: "b < num_blocks bs" for h b S
  proof -
    have set: "set [bb_leader (bs_blocks bs ! b)..<bb_last (bs_blocks bs ! b) + 1] = R b" by (auto simp: R_def)
    have "id_valid (bb_leader (bs_blocks bs ! b))" using blocks_okD(2) [OF ok b] by (simp add: id_valid_def)
    then show ?thesis using fold_raise [of "[bb_leader (bs_blocks bs ! b)..<bb_last (bs_blocks bs ! b) + 1]"
        "unswitch_node bs h" NF_IsScheduled g "N h"] node b unfolding set
      by (simp add: unswitch_block_def Let_def)
  qed
  have loop: "unswitch_loop bs bb (raise_flags NF_IsScheduled S g) = raise_flags NF_IsScheduled (S \<union>
      (if bb_is_loop_header bb then \<Union>b \<in> set [bb_id bb..<num_blocks bs]. \<Union>i \<in> R b. N (bb_id bb) i else {})) g" for bb S
    using fold_raise [of "[bb_id bb..<num_blocks bs]" "unswitch_block bs (bb_id bb)" NF_IsScheduled g
        "\<lambda>b. \<Union>i \<in> R b. N (bb_id bb) i"] block
    by (simp add: unswitch_loop_def)
  have "(\<Union>bb \<in> set (bs_blocks bs). if bb_is_loop_header bb
      then \<Union>b \<in> set [bb_id bb..<num_blocks bs]. \<Union>i \<in> R b. N (bb_id bb) i else {}) = unswitch_marks g bs" (is "?L = _")
  proof (rule set_eqI)
    fix i
    have "i \<in> ?L \<longleftrightarrow> (\<exists>bb \<in> set (bs_blocks bs). bb_is_loop_header bb \<and> C (bb_id bb) i
        \<and> (\<exists>b. bb_id bb \<le> b \<and> b < num_blocks bs \<and> i \<in> R b))"
      by (simp only: UN_iff mem_if_empty N_def singleton_iff set_upt atLeastLessThan_iff Bex_def) blast
    also have "\<dots> \<longleftrightarrow> i \<in> unswitch_marks g bs"
    proof (cases "in_graph g i \<and> \<not> node_is_dead (node g i)")
      case True
      then have "(\<exists>b. h \<le> b \<and> b < num_blocks bs \<and> i \<in> R b) \<longleftrightarrow> h \<le> block_of bs i" for h
        using block_of_eq [OF ok] block_of_bound(1) [OF ok] by (auto simp: R_def)
      then show ?thesis using True unfolding unswitch_marks_def C_def mem_Collect_eq by blast
    next
      case False
      moreover have "in_graph g i" if "b < num_blocks bs" "i \<in> R b" for b
        using that blocks_okD(2,4) [OF ok that(1)] by (auto simp: R_def in_graph_def)
      ultimately show ?thesis unfolding unswitch_marks_def C_def mem_Collect_eq by blast
    qed
    finally show "i \<in> ?L \<longleftrightarrow> i \<in> unswitch_marks g bs" .
  qed
  moreover have "fold (unswitch_loop bs) (bs_blocks bs) (raise_flags NF_IsScheduled {} g) = raise_flags NF_IsScheduled
      ({} \<union> (\<Union>bb \<in> set (bs_blocks bs). if bb_is_loop_header bb
         then \<Union>b \<in> set [bb_id bb..<num_blocks bs]. \<Union>i \<in> R b. N (bb_id bb) i else {})) g"
    by (rule fold_raise) (rule loop)
  ultimately show ?thesis by (simp only: loop_unswitching_run_def bs option.map raise_empty Un_empty_left)
qed

section \<open>The properties\<close>

lemma raised_transparent:
  assumes "quiet m" "res = Some (raise_flags m S g, r)" "r = Inr () \<or> r = verify_if_enabled debug g"
  shows "\<exists>g' r. res = Some (g', r) \<and> (r = Inr () \<or> r = verify_if_enabled debug g)
    \<and> (\<exists>m S. (m = NF_IsScheduled \<or> m = NF_IsCold) \<and> g' = raise_flags m S g)
    \<and> verify_graph g' = verify_graph g \<and> build_block_structure g' = build_block_structure g
    \<and> (\<forall>i v. eval F g' i v \<longleftrightarrow> eval F g i v)"
proof -
  have "m = NF_IsScheduled \<or> m = NF_IsCold" using assms(1) by (simp add: quiet_def)
  then have marks: "\<exists>m' S'. (m' = NF_IsScheduled \<or> m' = NF_IsCold) \<and> raise_flags m S g = raise_flags m' S' g" by blast
  have vals: "\<forall>i v. eval F (raise_flags m S g) i v \<longleftrightarrow> eval F g i v" by (intro allI raise_eval)
  show ?thesis
    by (rule exI [of _ "raise_flags m S g"], rule exI [of _ r], intro conjI)
      (rule assms(2) assms(3) marks vals raise_verify [OF assms(1)] raise_blocks [OF assms(1)])+
qed

lemma outcome_res: "outcome debug g m S res \<Longrightarrow>
    \<exists>r. res = Some (raise_flags m S g, r) \<and> (r = Inr () \<or> r = verify_if_enabled debug g)"
  by (auto simp: outcome_def)

lemma region_pass_res:
  assumes "run \<in> {licm_run, gcm_run, loop_peeling_run, block_reorder_run, loop_unswitching_run}"
  shows "\<exists>m S r. quiet m \<and> run debug g = Some (raise_flags m S g, r) \<and> (r = Inr () \<or> r = verify_if_enabled debug g)"
proof -
  obtain bs where bs: "build_block_structure g = Some bs" using build_block_structure_eq by blast
  note res = outcome_res [OF licm_outcome [OF bs, of debug]] outcome_res [OF gcm_outcome [OF bs, of debug]]
    outcome_res [OF loop_peeling_outcome [OF bs, of debug]] outcome_res [OF block_reorder_outcome [OF bs, of debug]]
    loop_unswitching_outcome [OF bs, of debug]
  from assms consider "run = licm_run" | "run = gcm_run" | "run = loop_peeling_run" | "run = block_reorder_run"
    | "run = loop_unswitching_run" by blast
  then show ?thesis
  proof cases
    case 1 then show ?thesis using res(1) quiet_marks by blast
  next
    case 2 then show ?thesis using res(2) quiet_marks by blast
  next
    case 3 then show ?thesis using res(3) quiet_marks by blast
  next
    case 4 then show ?thesis using res(4) quiet_marks by blast
  next
    case 5 then show ?thesis using res(5) quiet_marks by blast
  qed
qed

text \<open>Each of the five passes that consult the block structure returns, reports success or the
  verdict the verifier gives for its input, and only sets \<open>IsScheduled\<close> or only sets \<open>IsCold\<close> on some
  nodes; the verifier, the block structure and the values of the nodes do not notice.\<close>

lemma region_passes_transparent:
  assumes "run \<in> {licm_run, gcm_run, loop_peeling_run, block_reorder_run, loop_unswitching_run}"
  shows "\<exists>g' r. run debug g = Some (g', r) \<and> (r = Inr () \<or> r = verify_if_enabled debug g)
    \<and> (\<exists>m S. (m = NF_IsScheduled \<or> m = NF_IsCold) \<and> g' = raise_flags m S g)
    \<and> verify_graph g' = verify_graph g \<and> build_block_structure g' = build_block_structure g
    \<and> (\<forall>i v. eval F g' i v \<longleftrightarrow> eval F g i v)"
  using region_pass_res [OF assms, of debug g] raised_transparent [of _ _ _ g _ debug F] by blast

lemma region_passes_transparent_witness:
  "\<exists>g' r. gcm_run True ex_fun = Some (g', r) \<and> r = Inr () \<and> verify_graph g' = Inr ()"
proof -
  have "verify_graph ex_fun = Inr ()" using verifier_ok_ex_fun by (simp add: verify_Inr_iff)
  moreover have "verify_if_enabled True ex_fun = verify_graph ex_fun" by (simp only: verify_if_enabled_def) simp
  moreover have "gcm_run \<in> {licm_run, gcm_run, loop_peeling_run, block_reorder_run, loop_unswitching_run}" by blast
  from region_passes_transparent [OF this, of True ex_fun int_sem] obtain g' r
    where "gcm_run True ex_fun = Some (g', r)" "r = Inr () \<or> r = verify_if_enabled True ex_fun"
      "verify_graph g' = verify_graph ex_fun" by (elim exE conjE)
  ultimately show ?thesis by fastforce
qed

text \<open>A loop with the invariant sum \<open>%4 = 2 + 2\<close>; written as a record so that it evaluates.\<close>

definition loop_node :: "node_kind \<Rightarrow> u16 \<Rightarrow> nat \<Rightarrow> nat \<Rightarrow> node" where
  "loop_node k f first cnt = default_node\<lparr>n_kind := k, n_flags := f, n_data_inputs := \<lparr>first_edge = first, edge_count = cnt\<rparr>\<rparr>"

definition ex_licm :: graph where
  "ex_licm = \<lparr>g_nodes = [loop_node NK_Start 4 0 0, loop_node NK_ConstInt 257 0 0, loop_node NK_Loop 4 0 0,
       loop_node NK_Add 1 0 2, loop_node NK_Jump 4 2 0],
     g_sides = replicate 5 (default_side\<lparr>const_value := 2\<rparr>), g_pool = [2, 2], g_start = 1\<rparr>"

lemma ex_licm_blocks:
  "map_option (\<lambda>bs. (map bb_id (bs_blocks bs), map bb_is_loop_header (bs_blocks bs), map (block_of bs) [1..<6]))
     (build_block_structure ex_licm) = Some ([0, 1], [False, True], [0, 0, 1, 1, 1])"
  by code_simp

lemma block_of_mono:
  assumes ok: "blocks_ok g (g_size g + 1) bs" and "in_graph g i" "\<not> node_is_dead (node g i)"
    "in_graph g j" "\<not> node_is_dead (node g j)" "i \<le> j"
  shows "block_of bs i \<le> block_of bs j"
proof (rule ccontr)
  assume "\<not> block_of bs i \<le> block_of bs j"
  then show False
    using blocks_ok_order [OF ok, of "block_of bs j" "block_of bs i"] block_of_bound [OF ok assms(2,3)]
      block_of_bound [OF ok assms(4,5)] assms(6) by simp
qed

lemma block_of_dead: "blocks_ok g (g_size g + 1) bs \<Longrightarrow> \<not> (in_graph g i \<and> \<not> node_is_dead (node g i)) \<Longrightarrow> block_of bs i = 0"
  using blocks_ok_None [of g "g_size g + 1" bs i] by (auto simp: block_of_def in_graph_def)

lemma fold_max_le: "(\<And>x. x \<in> set xs \<Longrightarrow> f x \<le> (b :: nat)) \<Longrightarrow> r \<le> b \<Longrightarrow>
    fold (\<lambda>x r. if P x then r else if f x > r then f x else r) xs r \<le> b"
  by (induction xs arbitrary: r) auto

lemma fold_min_ge: "(\<And>x. x \<in> set xs \<Longrightarrow> \<not> P x \<Longrightarrow> \<not> Q x \<Longrightarrow> (b :: nat) \<le> f x) \<Longrightarrow> b \<le> r \<or> r = m \<Longrightarrow>
    b \<le> fold (\<lambda>x r. if P x then r else if Q x then r else if f x < r then f x else r) xs r
    \<or> fold (\<lambda>x r. if P x then r else if Q x then r else if f x < r then f x else r) xs r = m"
  by (induction xs arbitrary: r) auto

lemma fold_min_le: "fold (\<lambda>x r. if P x then r else if Q x then r else if f x < r then f x else r) xs (r :: nat) \<le> r"
  by (induction xs arbitrary: r) (auto intro: le_trans less_imp_le)

lemma fold_min_le_at: "x \<in> set xs \<Longrightarrow> \<not> P x \<Longrightarrow> \<not> Q x \<Longrightarrow>
    fold (\<lambda>x r. if P x then r else if Q x then r else if f x < r then f x else r) xs (r :: nat) \<le> f x"
proof (induction xs arbitrary: r)
  case (Cons y xs)
  then show ?case using fold_min_le [of P Q f xs] by (auto intro: le_trans simp: not_less)
qed simp

text \<open>Only live users are recorded, each under its inputs.\<close>

definition users_sound :: "graph \<Rightarrow> node_id list list \<Rightarrow> bool" where
  "users_sound g users \<longleftrightarrow> length users = g_size g \<and> (\<forall>i u. in_graph g i \<longrightarrow> u \<in> set (users ! (i - 1)) \<longrightarrow>
     in_graph g u \<and> \<not> node_is_dead (node g u) \<and> i \<in> set (data_inputs g u))"

lemma push_user_length [simp]: "length (push_user g u x users) = length users"
  by (simp add: push_user_def)

lemma push_user_at:
  assumes "length users = g_size g" "in_graph g i"
  shows "set (push_user g u x users ! (i - 1)) = set (users ! (i - 1)) \<union> (if x = i then {u} else {})"
proof (cases "in_graph g x")
  case True
  have "users[x - 1 := users ! (x - 1) @ [u]] ! (i - 1) = (if i = x then users ! (x - 1) @ [u] else users ! (i - 1))"
    using assms True by (auto simp: nth_list_update in_graph_def)
  moreover have "push_user g u x users = users[x - 1 := users ! (x - 1) @ [u]]"
    using True by (simp add: push_user_def in_graph_def id_valid_def)
  ultimately show ?thesis by auto
next
  case False
  then have "push_user g u x users = users" by (auto simp: push_user_def in_graph_def id_valid_def)
  then show ?thesis using False assms(2) by auto
qed

lemma push_users_at:
  assumes "in_graph g i"
  shows "length users = g_size g \<Longrightarrow> length (fold (push_user g u) xs users) = g_size g
    \<and> set (fold (push_user g u) xs users ! (i - 1)) = set (users ! (i - 1)) \<union> (if i \<in> set xs then {u} else {})"
  by (induction xs arbitrary: users) (auto simp: push_user_at [OF _ assms] simp del: One_nat_def)

lemma gcm_users_at:
  assumes "in_graph g i"
  shows "set (gcm_users g ! (i - 1)) = {u. in_graph g u \<and> \<not> node_is_dead (node g u) \<and> i \<in> set (data_inputs g u)}"
proof -
  let ?f = "\<lambda>nid users. if node_is_dead (node g nid) then users else fold (push_user g nid) (data_inputs g nid) users"
  have "length users = g_size g \<Longrightarrow> length (fold ?f us users) = g_size g \<and> set (fold ?f us users ! (i - 1))
      = set (users ! (i - 1)) \<union> {u \<in> set us. \<not> node_is_dead (node g u) \<and> i \<in> set (data_inputs g u)}" for us users
    using push_users_at [OF assms] by (induction us arbitrary: users) (auto simp del: One_nat_def)
  from this [of "replicate (g_size g) []" "node_ids g"] show ?thesis
    using assms by (auto simp: gcm_users_def in_graph_def simp del: One_nat_def)
qed

definition unused :: "graph \<Rightarrow> node_id \<Rightarrow> bool" where
  "unused g i \<longleftrightarrow> (\<forall>u. in_graph g u \<longrightarrow> \<not> node_is_dead (node g u) \<longrightarrow> i \<notin> set (data_inputs g u))"

lemma blocks_le_size:
  assumes "blocks_ok g (g_size g + 1) bs"
  shows "num_blocks bs \<le> g_size g"
proof -
  have "b < bb_leader (bs_blocks bs ! b)" if "b < num_blocks bs" for b
    using that
  proof (induction b)
    case 0
    then show ?case using blocks_okD(2) [OF assms, of 0] by simp
  next
    case (Suc b)
    then show ?case using blocks_ok_order [OF assms, of b "Suc b"] blocks_okD(3) [OF assms, of b] by simp
  qed
  from this [of "num_blocks bs - 1"] show ?thesis
    using blocks_okD(3,4) [OF assms, of "num_blocks bs - 1"] by (cases "num_blocks bs") auto
qed

lemma gcm_forward:
  assumes ok: "blocks_ok g (g_size g + 1) bs" and fwd: "\<And>j x. in_graph g j \<Longrightarrow> x \<in> set (data_inputs g j) \<Longrightarrow> x \<le> j"
    and i: "in_graph g i" "\<not> node_is_dead (node g i)" and size: "g_size g < UINT32_MAX"
  shows "earliest_block g i bs \<le> block_of bs i"
    and "latest_block g i bs (gcm_users g) < block_of bs i \<longleftrightarrow> unused g i \<and> earliest_block g i bs < block_of bs i"
proof -
  have "block_of bs x \<le> block_of bs i" if "x \<in> set (data_inputs g i)" for x
    using block_of_mono [OF ok _ _ i fwd [OF i(1) that]] block_of_dead [OF ok, of x] by fastforce
  then show "earliest_block g i bs \<le> block_of bs i"
    unfolding earliest_block_def by (rule fold_max_le [where P = "\<lambda>inp. \<not> id_valid inp \<or> inp > g_size g"]) simp_all
  note at = gcm_users_at [OF i(1)]
  let ?P = "\<lambda>user. \<not> id_valid user \<or> user > g_size g" and ?Q = "\<lambda>user. node_is_dead (node g user)"
  let ?m = "fold (\<lambda>x r. if ?P x then r else if ?Q x then r else if block_of bs x < r then block_of bs x else r)
    (gcm_users g ! (i - 1)) UINT32_MAX"
  have latest: "latest_block g i bs (gcm_users g) = (if ?m = UINT32_MAX then earliest_block g i bs else ?m)"
    by (simp add: latest_block_def Let_def)
  show "latest_block g i bs (gcm_users g) < block_of bs i \<longleftrightarrow> unused g i \<and> earliest_block g i bs < block_of bs i"
  proof (cases "unused g i")
    case True
    then have "set (gcm_users g ! (i - 1)) = {}" unfolding at by (auto simp: unused_def)
    then have "gcm_users g ! (i - 1) = []" by (simp only: set_empty)
    then have "?m = UINT32_MAX" by (simp only: fold_simps(1))
    then show ?thesis using True latest by (simp only: if_True simp_thms)
  next
    case False
    then obtain u where u: "in_graph g u" "\<not> node_is_dead (node g u)" "i \<in> set (data_inputs g u)"
      by (auto simp: unused_def)
    have "?m \<le> block_of bs u"
      by (rule fold_min_le_at) (use u at in \<open>auto simp: in_graph_def id_valid_def\<close>)
    also have "\<dots> < UINT32_MAX" using block_of_bound(1) [OF ok u(1,2)] blocks_le_size [OF ok] size by simp
    finally have m: "?m \<noteq> UINT32_MAX" by simp
    have "block_of bs i \<le> ?m \<or> ?m = UINT32_MAX"
    proof (rule fold_min_ge [where P = ?P and Q = ?Q])
      fix v assume "v \<in> set (gcm_users g ! (i - 1))"
      then have v: "in_graph g v" "\<not> node_is_dead (node g v)" "i \<in> set (data_inputs g v)" using at by auto
      show "block_of bs i \<le> block_of bs v" by (rule block_of_mono [OF ok i v(1,2) fwd [OF v(1,3)]])
    qed simp
    then show ?thesis using False m latest by simp
  qed
qed

lemma is_hoistable_iff: "is_hoistable n \<longleftrightarrow> node_is_pure n \<and> \<not> node_is_effect n \<and> \<not> node_is_control n \<and> n_kind n \<noteq> NK_Phi"
  by (simp add: is_hoistable_def)

lemma is_loop_invariant_iff:
  "is_loop_invariant g bs i h \<longleftrightarrow> block_of bs i \<noteq> 0 \<and> (\<forall>x \<in> set (data_inputs g i). in_graph g x \<longrightarrow> block_of bs x < h)"
  by (auto simp: is_loop_invariant_def in_graph_def id_valid_def not_le)

text \<open>C28: in a graph whose nodes use earlier nodes, LICM followed by GCM marks cold exactly the live nodes
  that were scheduled already, the live hoistable ones of a block from a loop header on whose inputs
  lie in blocks before that header, and the unused values behind the block of their last input.\<close>

theorem gcm_after_licm_exact:
  assumes fwd: "\<And>j x. in_graph g j \<Longrightarrow> x \<in> set (data_inputs g j) \<Longrightarrow> x \<le> j"
    and size: "g_size g < UINT32_MAX"
    and bs: "build_block_structure g = Some bs"
    and licm: "licm_run debug g = Some (g1, r1)" and gcm: "gcm_run debug g1 = Some (g2, r2)"
    and i: "in_graph g i"
  shows "flags_has (n_flags (node g2 i)) NF_IsCold \<longleftrightarrow> flags_has (n_flags (node g i)) NF_IsCold
    \<or> \<not> node_is_dead (node g i) \<and> (flags_has (n_flags (node g i)) NF_IsScheduled
       \<or> node_is_pure (node g i) \<and> \<not> node_is_effect (node g i) \<and> \<not> node_is_control (node g i)
          \<and> n_kind (node g i) \<noteq> NK_Phi \<and> block_of bs i \<noteq> 0
          \<and> (\<exists>bb \<in> set (bs_blocks bs). bb_is_loop_header bb \<and> bb_id bb \<le> block_of bs i
               \<and> (\<forall>x \<in> set (data_inputs g i). in_graph g x \<longrightarrow> block_of bs x < bb_id bb))
       \<or> node_is_pure (node g i) \<and> \<not> node_is_control (node g i) \<and> \<not> node_is_effect (node g i)
          \<and> \<not> node_is_const (node g i) \<and> unused g i \<and> earliest_block g i bs < block_of bs i)"
proof -
  note ok = build_ok [OF bs]
  have g1: "g1 = raise_flags NF_IsScheduled (licm_marks g bs) g"
    using outcome_res [OF licm_outcome [OF bs, of debug]] licm by auto
  have bs1: "build_block_structure g1 = Some bs" using raise_blocks [OF quiet_marks(1)] bs g1 by simp
  have g2: "g2 = raise_flags NF_IsCold (gcm_marks g1 bs) g1"
    using outcome_res [OF gcm_outcome [OF bs1, of debug]] gcm by auto
  have un: "unused g1 i = unused g i" by (simp add: g1 unused_def)
  have late: "\<not> block_of bs i < earliest_block g1 i bs" "latest_block g1 i bs (gcm_users g1) < block_of bs i \<longleftrightarrow>
      unused g i \<and> earliest_block g i bs < block_of bs i" if "\<not> node_is_dead (node g i)"
  proof -
    have fwd1: "in_graph g1 k \<Longrightarrow> x \<in> set (data_inputs g1 k) \<Longrightarrow> x \<le> k" for k x using fwd g1 by simp
    have i1: "in_graph g1 i" "\<not> node_is_dead (node g1 i)" "g_size g1 < UINT32_MAX" using i that size g1 by simp_all
    show "\<not> block_of bs i < earliest_block g1 i bs"
      using gcm_forward(1) [of g1 bs i, OF build_ok [OF bs1] _ i1] fwd1 by fastforce
    show "latest_block g1 i bs (gcm_users g1) < block_of bs i \<longleftrightarrow> unused g i \<and> earliest_block g i bs < block_of bs i"
      using gcm_forward(2) [of g1 bs i, OF build_ok [OF bs1] _ i1] fwd1 un by (fastforce simp: g1)
  qed
  have "i \<in> gcm_marks g1 bs \<longleftrightarrow> \<not> node_is_dead (node g i) \<and> (flags_has (n_flags (node g1 i)) NF_IsScheduled
    \<or> node_is_pure (node g i) \<and> \<not> node_is_control (node g i) \<and> \<not> node_is_effect (node g i)
          \<and> \<not> node_is_const (node g i) \<and> unused g i \<and> earliest_block g i bs < block_of bs i)"
    using late i g1 by (auto simp: gcm_marks_def)
  moreover have "flags_has (n_flags (node g1 i)) NF_IsScheduled \<longleftrightarrow> i \<in> licm_marks g bs \<or> flags_has (n_flags (node g i)) NF_IsScheduled"
    unfolding g1 raise_node_in [OF i] by (simp add: or_flags_def flags_has_or flags_has_self)
  moreover have "flags_has (n_flags (node g2 i)) NF_IsCold \<longleftrightarrow> i \<in> gcm_marks g1 bs \<or> flags_has (n_flags (node g1 i)) NF_IsCold"
    using i raise_node_in [of g1 i] unfolding g2 by (simp add: g1 or_flags_def flags_has_or flags_has_self)
  moreover have "flags_has (n_flags (node g1 i)) NF_IsCold \<longleftrightarrow> flags_has (n_flags (node g i)) NF_IsCold"
    unfolding g1 by (rule raise_flag) (simp add: flags_has_def)
  moreover have "i \<in> licm_marks g bs \<longleftrightarrow> \<not> node_is_dead (node g i) \<and> node_is_pure (node g i)
      \<and> \<not> node_is_effect (node g i) \<and> \<not> node_is_control (node g i) \<and> n_kind (node g i) \<noteq> NK_Phi \<and> block_of bs i \<noteq> 0
      \<and> (\<exists>bb \<in> set (bs_blocks bs). bb_is_loop_header bb \<and> bb_id bb \<le> block_of bs i
           \<and> (\<forall>x \<in> set (data_inputs g i). in_graph g x \<longrightarrow> block_of bs x < bb_id bb))"
    using i unfolding licm_marks_def mem_Collect_eq is_hoistable_iff is_loop_invariant_iff by blast
  ultimately show ?thesis by blast
qed

lemma ex_licm_forward: "in_graph ex_licm j \<Longrightarrow> x \<in> set (data_inputs ex_licm j) \<Longrightarrow> x \<le> j"
proof -
  have "list_all (\<lambda>j. list_all (\<lambda>x. x \<le> j) (data_inputs ex_licm j)) [1..<6]" by code_simp
  moreover have "in_graph ex_licm j \<longleftrightarrow> j \<in> set [1..<6]" by (auto simp: in_graph_def g_size_def ex_licm_def)
  ultimately show "in_graph ex_licm j \<Longrightarrow> x \<in> set (data_inputs ex_licm j) \<Longrightarrow> x \<le> j"
    by (auto simp: list_all_iff)
qed

theorem gcm_after_licm_exact_witness:
  "\<exists>g1 r1 g2 r2. licm_run False ex_licm = Some (g1, r1) \<and> gcm_run False g1 = Some (g2, r2)
     \<and> flags_has (n_flags (node g2 4)) NF_IsCold \<and> \<not> flags_has (n_flags (node g2 2)) NF_IsCold"
proof -
  obtain bs where bs: "build_block_structure ex_licm = Some bs" using build_block_structure_eq by blast
  have at: "map bb_id (bs_blocks bs) = [0, 1]" "map bb_is_loop_header (bs_blocks bs) = [False, True]"
    "map (block_of bs) [1..<6] = [0, 0, 1, 1, 1]"
    using ex_licm_blocks bs by simp_all
  then have b: "block_of bs 2 = 0" "block_of bs 4 = 1" by (simp_all add: upt_rec numeral_eq_Suc)
  obtain b0 b1 where bl: "bs_blocks bs = [b0, b1]" "bb_id b1 = 1" "\<not> bb_is_loop_header b0" "bb_is_loop_header b1"
    using at(1,2) by (auto simp: map_eq_Cons_conv)
  have n: "data_inputs ex_licm 4 = [2, 2]" "\<not> node_is_dead (node ex_licm 4)" "is_hoistable (node ex_licm 4)"
    "\<not> flags_has (n_flags (node ex_licm 2)) NF_IsCold" "\<not> flags_has (n_flags (node ex_licm 2)) NF_IsScheduled"
    by code_simp+
  have g: "in_graph ex_licm 2" "in_graph ex_licm 4" by (simp_all add: in_graph_def g_size_def ex_licm_def)
  obtain g1 r1 where r1: "licm_run False ex_licm = Some (g1, r1)"
    using outcome_res [OF licm_outcome [OF bs, of False]] by blast
  obtain bs1 where "build_block_structure g1 = Some bs1" using build_block_structure_eq by blast
  then obtain g2 r2 where r2: "gcm_run False g1 = Some (g2, r2)"
    using outcome_res [OF gcm_outcome, of g1 bs1 False] by blast
  have size: "g_size ex_licm < UINT32_MAX" by (simp add: UINT32_MAX_def g_size_def ex_licm_def)
  note exact = gcm_after_licm_exact [of ex_licm, OF ex_licm_forward size bs r1 r2]
  have "flags_has (n_flags (node g2 4)) NF_IsCold"
    using exact [of 4] g(2) n(1-3) bl b by (simp add: is_hoistable_iff)
  moreover have "\<not> flags_has (n_flags (node g2 2)) NF_IsCold"
    using exact [of 2] g(1) n(4,5) bl b by simp
  ultimately show ?thesis using r1 r2 by blast
qed

end
