(* ===== verification/Pass_Pipeline.thy ===== *)
theory Pass_Pipeline
  imports Check_Passes_Correct Region_Passes_Correct Gvn_Cse Sccp Dce
begin

text \<open>
  \<^verbatim>\<open>ir/passes/PassPipeline.hpp\<close> and \<^verbatim>\<open>ir/passes/PassPipeline.cpp\<close>: running a list of passes up to the
  first error, and the pipeline of the RUBY tier. The locale \<open>value_pass\<close> is the contract of a pass;
  it is interpreted on all of them and on the pipeline.
\<close>

section \<open>The pipeline\<close>

type_synonym pass = "graph \<Rightarrow> (graph \<times> unit result) ub"

fun pipeline_run :: "pass list \<Rightarrow> graph \<Rightarrow> (graph \<times> unit result) ub" where
  "pipeline_run [] g = Some (g, Inr ())"
| "pipeline_run (p # passes) g =
     (case p g of None \<Rightarrow> None
      | Some (g', Inl e) \<Rightarrow> Some (g', Inl e)
      | Some (g', Inr _) \<Rightarrow> pipeline_run passes g')"

definition build_ruby_pipeline ::
  "((node_id \<times> node_id list) list \<Rightarrow> (node_id \<times> node_id list) list) \<Rightarrow> bool \<Rightarrow> pass list" where
  "build_ruby_pipeline order debug =
     [algebraic_simplification_run debug, sccp_run debug, constant_folding_run debug, cse_run debug,
      gvn_run debug, control_flow_simplification_run debug, type_narrowing_run debug, licm_run debug,
      loop_peeling_run debug, bce_run order debug, nce_run debug, escape_analysis_run debug,
      inlining_run debug, tail_call_elimination_run debug, ic_stub_emission_run debug, dce_run debug,
      peephole_run debug, gcm_run debug, block_reorder_run debug]"

section \<open>The contract of a pass\<close>

text \<open>What a pass promises the passes behind it: a well-formed graph of the same shape and values.\<close>

definition keeps_values :: "graph \<Rightarrow> graph \<Rightarrow> bool" where
  "keeps_values g h \<longleftrightarrow> graph_wf h \<and> shape_ok h \<and> (\<forall>i v. eval int_sem h i v \<longleftrightarrow> eval int_sem g i v)"

lemma keeps_values_refl: "graph_wf g \<Longrightarrow> shape_ok g \<Longrightarrow> keeps_values g g"
  by (simp add: keeps_values_def)

lemma keeps_values_trans: "keeps_values f g \<Longrightarrow> keeps_values g h \<Longrightarrow> keeps_values f h"
  by (simp add: keeps_values_def)

lemma keeps_raise:
  assumes "graph_wf g" "shape_ok g" "flags_has m NF_Commutative = False"
  shows "keeps_values g (raise_flags m S g)"
  unfolding keeps_values_def
proof (intro conjI allI)
  show "shape_ok (raise_flags m S g)"
    unfolding shape_ok_def node_shape_ok_def
    using assms(2) raise_flag [OF assms(3)]
    by (auto simp: shape_ok_def node_shape_ok_def raise_node or_flags_def flags_has_or)
qed (rule raise_wf [OF assms(1)], rule raise_eval)

text \<open>The annotating passes, over views.\<close>

lemma keeps_views:
  assumes "graph_wf g" "shape_ok g" "graph_wf h" "g_size h = g_size g"
    and "\<And>j. in_graph g j \<Longrightarrow> v_kind (view h j) = v_kind (view g j) \<and> v_ins (view h j) = v_ins (view g j)
      \<and> (v_kind (view g j) = NK_ConstInt \<longrightarrow> const_value (v_side (view h j)) = const_value (v_side (view g j)))
      \<and> (\<exists>m. v_flags (view h j) = v_flags (view g j) OR m \<and> \<not> flags_has m NF_Commutative)"
  shows "keeps_values g h"
  unfolding keeps_values_def
proof (intro conjI allI)
  have in_h: "in_graph h j = in_graph g j" for j using assms(4) by (simp add: in_graph_def)
  show "shape_ok h"
    unfolding shape_ok_def
  proof (intro allI impI)
    fix j assume "in_graph h j"
    then have j: "in_graph g j" by (simp add: in_h)
    from assms(5) [OF j] obtain m where f: "n_flags (node h j) = n_flags (node g j) OR m" "\<not> flags_has m NF_Commutative"
      "n_kind (node h j) = n_kind (node g j)" "data_inputs h j = data_inputs g j" by (auto simp: view_fields)
    show "node_shape_ok h j"
      using assms(2) j unfolding shape_ok_def node_shape_ok_def by (auto simp: f flags_has_or)
  qed
  show "eval int_sem h i v \<longleftrightarrow> eval int_sem g i v" for i v
    by (rule int.same_code_eval_iff_sem [OF same_code_viewI]) (use assms(4,5) in auto)
qed (rule assms(3))


locale value_pass =
  fixes run :: pass
  assumes keeps: "graph_wf g \<Longrightarrow> shape_ok g \<Longrightarrow> run g = Some (g', r) \<Longrightarrow> keeps_values g g'"
begin

lemma keeps_eval: "graph_wf g \<Longrightarrow> shape_ok g \<Longrightarrow> run g = Some (g', r) \<Longrightarrow> eval int_sem g' i v \<longleftrightarrow> eval int_sem g i v"
  by (drule (2) keeps) (simp add: keeps_values_def)

end

lemma value_pass_nil: "value_pass (pipeline_run [])"
proof (rule value_pass.intro)
  fix g g' r assume g: "graph_wf g" "shape_ok g" "pipeline_run [] g = Some (g', r)"
  then have "g' = g" by simp
  then show "keeps_values g g'" using keeps_values_refl [OF g(1,2)] by simp
qed

lemma value_pass_pipeline: "\<forall>p \<in> set passes. value_pass p \<Longrightarrow> value_pass (pipeline_run passes)"
proof (induction passes)
  case (Cons p passes)
  have p: "value_pass p" and rest: "value_pass (pipeline_run passes)" using Cons by simp_all
  show ?case
  proof (rule value_pass.intro)
    fix g g' r assume g: "graph_wf g" "shape_ok g" "pipeline_run (p # passes) g = Some (g', r)"
    then obtain h q where h: "p g = Some (h, q)" by (auto split: option.splits)
    have kh: "keeps_values g h" by (rule value_pass.keeps [OF p g(1,2) h])
    show "keeps_values g g'"
    proof (cases q)
      case (Inl e)
      then show ?thesis using g(3) h kh by simp
    next
      case (Inr u)
      then have "pipeline_run passes h = Some (g', r)" using g(3) h by simp
      moreover have "graph_wf h" "shape_ok h" using kh by (simp_all add: keeps_values_def)
      ultimately have "keeps_values h g'" using value_pass.keeps [OF rest] by blast
      then show ?thesis by (rule keeps_values_trans [OF kh])
    qed
  qed
qed (rule value_pass_nil)


section \<open>Every pass meets the contract\<close>

lemma region_value_pass:
  assumes "run \<in> {licm_run, gcm_run, loop_peeling_run, block_reorder_run, loop_unswitching_run}"
  shows "value_pass (run debug)"
proof (rule value_pass.intro)
  fix g g' r assume g: "graph_wf g" "shape_ok g" "run debug g = Some (g', r)"
  obtain m S where "quiet m" "g' = raise_flags m S g" using region_pass_res [OF assms, of debug g] g(3) by auto
  moreover have "flags_has m NF_Commutative = False" using \<open>quiet m\<close> by (auto simp: quiet_def flags_has_def)
  ultimately show "keeps_values g g'" using keeps_raise [OF g(1,2)] by simp
qed

lemma keeps_kill: "graph_wf g \<Longrightarrow> shape_ok g \<Longrightarrow> keeps_values g (raise_flags NF_IsDead K g)"
  by (rule keeps_raise) (simp_all add: flags_has_def)

lemma bce_value_pass: "(\<And>xs. set (order xs) = set xs) \<Longrightarrow> value_pass (bce_run order debug)"
proof (rule value_pass.intro)
  fix g g' r assume order: "\<And>xs. set (order xs) = set xs" and g: "graph_wf g" "shape_ok g" "bce_run order debug g = Some (g', r)"
  have "g' = raise_flags NF_IsDead (bce_kills g) g" using bce_outcome [of order debug g, OF order] g(3) by auto
  then show "keeps_values g g'" using keeps_kill [OF g(1,2)] by simp
qed

lemma escape_value_pass: "value_pass (escape_analysis_run debug)"
proof (rule value_pass.intro)
  fix g g' r assume g: "graph_wf g" "shape_ok g" "escape_analysis_run debug g = Some (g', r)"
  obtain K where "g' = raise_flags NF_IsDead K g" using escape_outcome [of debug g] g(3) by auto
  then show "keeps_values g g'" using keeps_kill [OF g(1,2)] by simp
qed

lemma sweep_id: "sweep (\<lambda>i g. (False, g)) is ch g = (ch, g)"
  by (induction "is" arbitrary: ch) auto

lemma inlining_value_pass: "value_pass (inlining_run debug)"
  by (rule value_pass.intro) (simp add: inlining_run_def sweep_id keeps_values_refl)

lemma dead_view_keeps: "v_kind (dead_view w) = v_kind w" "v_ins (dead_view w) = v_ins w" "v_side (dead_view w) = v_side w"
  "v_flags (dead_view w) = v_flags w OR NF_IsDead"
  by (simp_all add: dead_view_def)

text \<open>A pass whose result has the same views up to flags and payloads.\<close>

lemma views_value_pass:
  assumes "\<And>g g' r. graph_wf g \<Longrightarrow> shape_ok g \<Longrightarrow> run g = Some (g', r) \<Longrightarrow> graph_wf g' \<and> g_size g' = g_size g
    \<and> (\<forall>j. in_graph g j \<longrightarrow> view g' j = view g j \<or> (\<exists>t v. n_kind (node g j) \<noteq> NK_ConstInt \<and> view g' j = mark_view t v (view g j))
         \<or> (\<exists>m. \<not> flags_has m NF_Commutative \<and> view g' j = (view g j)\<lparr>v_flags := v_flags (view g j) OR m\<rparr>))"
  shows "value_pass run"
proof (rule value_pass.intro)
  fix g g' r assume g: "graph_wf g" "shape_ok g" "run g = Some (g', r)"
  note r = assms [OF g]
  show "keeps_values g g'"
  proof (rule keeps_views [OF g(1,2)])
    fix j assume "in_graph g j"
    then consider "view g' j = view g j" | t v where "n_kind (node g j) \<noteq> NK_ConstInt" "view g' j = mark_view t v (view g j)"
      | m where "\<not> flags_has m NF_Commutative" "view g' j = (view g j)\<lparr>v_flags := v_flags (view g j) OR m\<rparr>" using r by blast
    then show "v_kind (view g' j) = v_kind (view g j) \<and> v_ins (view g' j) = v_ins (view g j)
      \<and> (v_kind (view g j) = NK_ConstInt \<longrightarrow> const_value (v_side (view g' j)) = const_value (v_side (view g j)))
      \<and> (\<exists>m. v_flags (view g' j) = v_flags (view g j) OR m \<and> \<not> flags_has m NF_Commutative)"
    proof cases
      case 1
      then show ?thesis by (auto intro!: exI [of _ 0])
    next
      case 2
      have "\<not> flags_has NF_IsConst NF_Commutative" by (simp add: flags_has_def)
      then show ?thesis using 2 by (auto simp: mark_view_def view_fields)
    qed auto
  qed (use r in blast)+
qed

lemma algebraic_value_pass: "value_pass (algebraic_simplification_run debug)"
proof (rule views_value_pass)
  fix g g' r assume g: "graph_wf g" "algebraic_simplification_run debug g = Some (g', r)"
  show "graph_wf g' \<and> g_size g' = g_size g
    \<and> (\<forall>j. in_graph g j \<longrightarrow> view g' j = view g j \<or> (\<exists>t v. n_kind (node g j) \<noteq> NK_ConstInt \<and> view g' j = mark_view t v (view g j))
         \<or> (\<exists>m. \<not> flags_has m NF_Commutative \<and> view g' j = (view g j)\<lparr>v_flags := v_flags (view g j) OR m\<rparr>))"
    using alg_run [OF g] alg_action_not_literal [of g] by (fastforce split: option.splits prod.splits)
qed

lemma peephole_value_pass: "value_pass (peephole_run debug)"
proof (rule views_value_pass)
  fix g g' r assume g: "graph_wf g" "peephole_run debug g = Some (g', r)"
  show "graph_wf g' \<and> g_size g' = g_size g
    \<and> (\<forall>j. in_graph g j \<longrightarrow> view g' j = view g j \<or> (\<exists>t v. n_kind (node g j) \<noteq> NK_ConstInt \<and> view g' j = mark_view t v (view g j))
         \<or> (\<exists>m. \<not> flags_has m NF_Commutative \<and> view g' j = (view g j)\<lparr>v_flags := v_flags (view g j) OR m\<rparr>))"
    using peep.run_marks [OF g(1)] g(2) peephole_action_mul [of g]
    by (fastforce simp: peephole_run_def peep.annotated_def split: option.splits)
qed

lemma dead_not_commutative: "\<not> flags_has NF_IsDead NF_Commutative" "\<not> flags_has NF_HasTypeNarrowing NF_Commutative"
  by (simp_all add: flags_has_def)

lemma dead_view_flags: "dead_view = (\<lambda>w. w\<lparr>v_flags := v_flags w OR NF_IsDead\<rparr>)"
  by (simp add: fun_eq_iff dead_view_def)

text \<open>A sweep that raises one flag on the nodes a test selects.\<close>

lemma flag_sweep_value_pass:
  assumes "marking_pass step (\<lambda>g i. if test g i then Some (\<lambda>v. v\<lparr>v_flags := v_flags v OR m\<rparr>) else None)"
    and "\<not> flags_has m NF_Commutative"
  shows "value_pass (run_sweep step debug)"
proof (rule views_value_pass, intro conjI allI impI)
  fix g g' r assume g: "graph_wf g" "run_sweep step debug g = Some (g', r)"
  note run = marking_pass.run_marks [OF assms(1) g]
  show "graph_wf g'" "g_size g' = g_size g" using run by blast+
  fix j assume "in_graph g j"
  then have "view g' j = (if test g j then (view g j)\<lparr>v_flags := v_flags (view g j) OR m\<rparr> else view g j)"
    using run by (simp add: marking_pass.annotated_def [OF assms(1)])
  then show "view g' j = view g j \<or> (\<exists>t v. n_kind (node g j) \<noteq> NK_ConstInt \<and> view g' j = mark_view t v (view g j))
    \<or> (\<exists>m. \<not> flags_has m NF_Commutative \<and> view g' j = (view g j)\<lparr>v_flags := v_flags (view g j) OR m\<rparr>)"
    using assms(2) by (cases "test g j") auto
qed

lemma control_flow_value_pass: "value_pass (control_flow_simplification_run debug)"
  unfolding control_flow_simplification_run_def
  by (rule flag_sweep_value_pass [OF cfs.marking_pass_axioms [unfolded dead_view_flags] dead_not_commutative(1)])

lemma nce_value_pass: "value_pass (nce_run debug)"
  unfolding nce_run_def
  by (rule flag_sweep_value_pass [OF nce.marking_pass_axioms [unfolded dead_view_flags] dead_not_commutative(1)])

lemma type_narrowing_value_pass: "value_pass (type_narrowing_run debug)"
  unfolding type_narrowing_run_def
  by (rule flag_sweep_value_pass [OF narrow.marking_pass_axioms dead_not_commutative(2)])

lemma sccp_value_pass: "value_pass (sccp_run debug)"
proof (rule views_value_pass, intro conjI allI impI)
  fix g g' r assume g: "graph_wf g" "shape_ok g" "sccp_run debug g = Some (g', r)"
  obtain vs where vs: "graph_wf g'" "g_size g' = g_size g" "\<forall>j. in_graph g j \<longrightarrow> view g' j =
      (if sccp_mark_test vs g j then mark_view True (lv_const (vs ! (j - 1))) (view g j) else view g j)"
    by (rule sccp_run_views [OF g(1,3)])
  then show "graph_wf g'" "g_size g' = g_size g" by blast+
  fix j assume j: "in_graph g j"
  have "n_kind (node g j) \<noteq> NK_ConstInt" if "sccp_mark_test vs g j"
    using that g(2) j by (auto simp: sccp_mark_test_def shape_ok_def node_shape_ok_def Let_def split: if_splits)
  then show "view g' j = view g j \<or> (\<exists>t v. n_kind (node g j) \<noteq> NK_ConstInt \<and> view g' j = mark_view t v (view g j))
    \<or> (\<exists>m. \<not> flags_has m NF_Commutative \<and> view g' j = (view g j)\<lparr>v_flags := v_flags (view g j) OR m\<rparr>)"
    using vs(3) j by (cases "sccp_mark_test vs g j") auto
qed

lemma dce_value_pass: "value_pass (dce_run debug)"
proof (rule views_value_pass, intro conjI allI impI)
  fix g g' r assume g: "graph_wf g" "dce_run debug g = Some (g', r)"
  then have md: "more_dead g g'" using dce_loop_inv [OF g(1)] by (simp add: dce_run_eq dce_inv_def)
  then show "graph_wf g'" "g_size g' = g_size g" by (simp_all add: more_dead_def)
  fix j assume "in_graph g j"
  then show "view g' j = view g j \<or> (\<exists>t v. n_kind (node g j) \<noteq> NK_ConstInt \<and> view g' j = mark_view t v (view g j))
    \<or> (\<exists>m. \<not> flags_has m NF_Commutative \<and> view g' j = (view g j)\<lparr>v_flags := v_flags (view g j) OR m\<rparr>)"
    using md dead_not_commutative unfolding more_dead_def by blast
qed

lemma gvn_value_pass: "value_pass (gvn_run debug)"
  by (rule value_pass.intro) (drule (2) gvn_run_inv, auto simp: int.gvn.table_inv_def keeps_values_def)

lemma cse_value_pass: "value_pass (cse_run debug)"
  by (rule value_pass.intro) (drule (2) cse_run_inv, auto simp: int.cse.table_inv_def keeps_values_def)

text \<open>Constant folding: every step annotates a node that is no literal.\<close>

lemma keeps_set_folded:
  assumes "keeps_values g0 g" "in_graph g i" "n_kind (node g i) \<noteq> NK_ConstInt"
  shows "keeps_values g0 (set_folded i v g)"
proof (rule keeps_values_trans [OF assms(1) keeps_views])
  have g: "graph_wf g" "shape_ok g" using assms(1) by (simp_all add: keeps_values_def)
  note n = set_folded_node(1,2) [OF g(1) assms(2)]
  show "graph_wf g" "shape_ok g" "graph_wf (set_folded i v g)" using g assms(2) by (simp_all add: wf_set_folded)
  show "g_size (set_folded i v g) = g_size g" by (simp add: set_folded_def)
  fix j assume "in_graph g j"
  then show "v_kind (view (set_folded i v g) j) = v_kind (view g j) \<and> v_ins (view (set_folded i v g) j) = v_ins (view g j)
      \<and> (v_kind (view g j) = NK_ConstInt \<longrightarrow>
          const_value (v_side (view (set_folded i v g) j)) = const_value (v_side (view g j)))
      \<and> (\<exists>m. v_flags (view (set_folded i v g) j) = v_flags (view g j) OR m \<and> \<not> flags_has m NF_Commutative)"
    using n [of j v] set_folded_node(3) [OF assms(2), of j v] assms(3)
    by (auto simp: view_fields [symmetric] or_flags_def flags_has_def intro: exI [of _ NF_IsConst] exI [of _ 0])
qed

lemma fold_keeps:
  assumes "try_fold_binary g i = Some (c, g')" "in_graph g i" "keeps_values g0 g"
  shows "keeps_values g0 g'"
  using assms(1)
proof (cases rule: try_fold_cases)
  case (2 a b r)
  then show ?thesis using keeps_set_folded [OF assms(3,2)] fold_switch_Some foldable_not_const by blast
qed (use assms(3) in auto)

lemma fold_sweep_keeps:
  "fold_sweep is ch g = Some (ch', g') \<Longrightarrow> \<forall>i \<in> set is. in_graph g i \<Longrightarrow> keeps_values g0 g \<Longrightarrow> keeps_values g0 g'"
proof (induction "is" arbitrary: ch g)
  case (Cons i "is")
  from Cons.prems(1) obtain c g1 where g1: "try_fold_binary g i = Some (c, g1)"
    and rest: "fold_sweep is (ch \<or> c) g1 = Some (ch', g')" by (auto split: option.splits)
  have "in_graph g1 j = in_graph g j" for j
    using g1 by (cases rule: try_fold_cases) (auto simp: set_folded_node)
  then show ?case using Cons.IH [OF rest] fold_keeps [OF g1 _ Cons.prems(3)] Cons.prems(2) by simp
qed simp

lemma fold_loop_keeps: "fold_loop g = Some g' \<Longrightarrow> keeps_values g0 g \<Longrightarrow> keeps_values g0 g'"
proof (induction g rule: fold_loop.induct)
  case (1 g)
  from "1.prems"(1) obtain ch h where h: "fold_sweep (node_ids g) False g = Some (ch, h)"
    and rest: "(if ch then fold_loop h else Some h) = Some g'"
    by (subst (asm) fold_loop.simps) (auto split: option.splits)
  have "keeps_values g0 h" by (rule fold_sweep_keeps [OF h _ "1.prems"(2)]) simp
  with "1.IH" [OF h refl] rest show ?case by (cases ch) auto
qed

lemma constant_folding_value_pass: "value_pass (constant_folding_run debug)"
  by (rule value_pass.intro) (use fold_loop_keeps keeps_values_refl constant_folding_run_Some in blast)

text \<open>The passes that rename calls: no call has a value.\<close>

lemma call_no_value: "k \<in> {NK_Call, NK_CallVirt, NK_CallKnown, NK_TailCall, NK_CheckClass} \<Longrightarrow> int_sem k s vs = None"
  by (auto simp: int_sem_def split: list.splits)

lemma call_not_commutative: "k \<in> {NK_Call, NK_CallVirt, NK_CallKnown} \<Longrightarrow> \<not> nki_commutative (lookup_node_kind_info k)"
proof -
  have "list_all (\<lambda>k. \<not> nki_commutative (lookup_node_kind_info k)) [NK_Call, NK_CallVirt, NK_CallKnown]" by code_simp
  then show "k \<in> {NK_Call, NK_CallVirt, NK_CallKnown} \<Longrightarrow> \<not> nki_commutative (lookup_node_kind_info k)" by auto
qed

lemma eval_cong:
  assumes "\<And>j. in_graph h j = in_graph g j" "\<And>j. in_graph g j \<Longrightarrow> data_inputs h j = data_inputs g j"
    and "\<And>j vs. in_graph g j \<Longrightarrow> F (n_kind (node h j)) (side h j) vs = F (n_kind (node g j)) (side g j) vs"
  shows "eval F h i v \<longleftrightarrow> eval F g i v"
proof
  show "eval F h i v" if "eval F g i v" using that
  proof (induction rule: eval.induct)
    case (evalI i vs v)
    show ?case by (rule eval.evalI) (use assms evalI in \<open>auto elim: list_all2_mono\<close>)
  qed
  show "eval F g i v" if "eval F h i v" using that
  proof (induction rule: eval.induct)
    case (evalI i vs v)
    show ?case by (rule eval.evalI) (use assms evalI in \<open>auto elim: list_all2_mono\<close>)
  qed
qed

lemma keeps_rename:
  assumes g: "graph_wf g" "shape_ok g" and i: "in_graph g i"
    and k: "n_kind (node g i) \<in> {NK_Call, NK_CallVirt, NK_CallKnown}" "k' \<in> {NK_CallKnown, NK_TailCall}"
  shows "keeps_values g (upd_node i (\<lambda>n. n\<lparr>n_kind := k'\<rparr>) g)" (is "keeps_values g ?h")
  unfolding keeps_values_def
proof (intro conjI allI)
  have at: "node ?h j = (if j = i then (node g j)\<lparr>n_kind := k'\<rparr> else node g j)" "data_inputs ?h j = data_inputs g j"
    "side ?h j = side g j" if "in_graph g j" for j
    using that i g(1) by (simp_all add: node_upd data_inputs_upd_same)
  show "graph_wf ?h" using g(1) i by (intro wf_upd_node_slices) simp_all
  have "\<not> flags_has (n_flags (node g i)) NF_Commutative"
    using g(2) i k(1) call_not_commutative unfolding shape_ok_def node_shape_ok_def by blast
  then show "shape_ok ?h" using g(2) k(2) unfolding shape_ok_def node_shape_ok_def
    by (auto simp: at)
  show "eval int_sem ?h j v \<longleftrightarrow> eval int_sem g j v" for j v
    by (rule eval_cong) (use at k call_no_value in \<open>auto split: if_splits\<close>)
qed

lemma sweep_keeps:
  assumes "\<And>i h. keeps_values g h \<Longrightarrow> g_size h = g_size g \<Longrightarrow> in_graph g i \<Longrightarrow>
    keeps_values g (snd (step i h)) \<and> g_size (snd (step i h)) = g_size g"
  shows "\<forall>i \<in> set is. in_graph g i \<Longrightarrow> keeps_values g h \<Longrightarrow> g_size h = g_size g \<Longrightarrow> keeps_values g (snd (sweep step is ch h))"
  by (induction "is" arbitrary: ch h) (auto simp: split_beta assms)

lemma tce_target_call: "tce_target g i = Some c \<Longrightarrow> in_graph g c \<and> n_kind (node g c) \<in> {NK_Call, NK_CallVirt, NK_CallKnown}"
  by (auto simp: tce_target_def Let_def in_graph_def id_valid_def split: if_splits)

lemma tail_call_value_pass: "value_pass (tail_call_elimination_run debug)"
proof (rule value_pass.intro)
  fix g g' r assume g: "graph_wf g" "shape_ok g" "tail_call_elimination_run debug g = Some (g', r)"
  have step: "keeps_values g (snd (tce_step i h)) \<and> g_size (snd (tce_step i h)) = g_size g"
    if h: "keeps_values g h" "g_size h = g_size g" for i h
  proof (cases "tce_target h i")
    case (Some c)
    then have "keeps_values h (upd_node c (\<lambda>n. n\<lparr>n_kind := NK_TailCall\<rparr>) h)"
      using tce_target_call [OF Some] h(1) by (intro keeps_rename) (auto simp: keeps_values_def)
    then show ?thesis using Some keeps_values_trans [OF h(1)] h(2) by (simp add: tce_step_def)
  qed (use h in \<open>simp add: tce_step_def\<close>)
  have "g' = snd (sweep tce_step (node_ids g) False g)"
    using g(3) by (simp add: tail_call_elimination_run_def run_sweep_def split_beta)
  moreover have "keeps_values g (snd (sweep tce_step (node_ids g) False g))"
    by (rule sweep_keeps) (use step keeps_values_refl [OF g(1,2)] in auto)
  ultimately show "keeps_values g g'" by simp
qed

lemma devirtualization_value_pass: "value_pass (devirtualization_run debug)"
proof (rule value_pass.intro)
  fix g g' r assume g: "graph_wf g" "shape_ok g" "devirtualization_run debug g = Some (g', r)"
  have step: "keeps_values g (snd (devirt_node m i s))" if "keeps_values g (snd s)" "in_graph (snd s) i" for m i s
  proof (cases "snd (devirt_node m i s) = snd s")
    case False
    then have "snd (devirt_node m i s) = upd_node i (\<lambda>n. n\<lparr>n_kind := NK_CallKnown\<rparr>) (snd s)"
      "n_kind (node (snd s) i) = NK_CallVirt" by (auto simp: devirt_node_def Let_def split: if_splits)
    then show ?thesis using keeps_values_trans [OF that(1)] keeps_rename [OF _ _ that(2), of NK_CallKnown] that(1)
      by (auto simp: keeps_values_def)
  qed (use that in simp)
  have "keeps_values g (snd (fold (devirt_node m) is s))"
    if "keeps_values g (snd s)" "\<forall>i \<in> set is. in_graph (snd s) i" for m "is" s
    using that
  proof (induction "is" arbitrary: s)
    case (Cons i "is")
    have "in_graph (snd (devirt_node m i s)) j = in_graph (snd s) j" for j by (simp add: devirt_node_def Let_def)
    then show ?case using Cons step by simp
  qed simp
  from this [of "(False, g)" "node_ids g" "newobj_class g"] show "keeps_values g g'"
    using g by (auto simp: devirtualization_run_def Let_def keeps_values_refl)
qed

lemma keeps_ic_guard:
  assumes "graph_wf g" "shape_ok g" "in_graph g i"
  shows "keeps_values g (ic_guard i g)"
  unfolding keeps_values_def
proof (intro conjI allI)
  note v = view_ic_guard [OF assms(1,3)]
  have old: "n_kind (node (ic_guard i g) j) = n_kind (node g j)" "side (ic_guard i g) j = side g j"
    "data_inputs (ic_guard i g) j = data_inputs g j" "n_flags (node (ic_guard i g) j) = n_flags (node g j)"
    if "in_graph g j" for j using v [of j] that by (auto simp: view_fields in_graph_def)
  have new: "n_kind (node (ic_guard i g) j) = NK_CheckClass"
    "n_flags (node (ic_guard i g) j) = create_flags (lookup_node_kind_info NK_CheckClass)"
    if "in_graph (ic_guard i g) j" "\<not> in_graph g j" for j
  proof -
    have "j = g_size g + 1" using that by (auto simp: in_graph_def)
    then show "n_kind (node (ic_guard i g) j) = NK_CheckClass"
      "n_flags (node (ic_guard i g) j) = create_flags (lookup_node_kind_info NK_CheckClass)"
      using v [of j] by (simp_all add: view_fields new_view_def)
  qed
  show "graph_wf (ic_guard i g)" by (rule wf_ic_guard [OF assms(1,3)])
  show "shape_ok (ic_guard i g)"
    unfolding shape_ok_def
  proof (intro allI impI)
    fix j assume "in_graph (ic_guard i g) j"
    then show "node_shape_ok (ic_guard i g) j"
      using assms(2) old [of j] new [of j] check_class_flags(2)
      by (cases "in_graph g j") (auto simp: shape_ok_def node_shape_ok_def)
  qed
  have in_h: "in_graph (ic_guard i g) j" if "in_graph g j" for j using that by (simp add: in_graph_def)
  show "eval int_sem (ic_guard i g) j v \<longleftrightarrow> eval int_sem g j v" for j v
    by (rule eval_extend) (use old new call_no_value in_h in auto)
qed

lemma ic_stub_value_pass: "value_pass (ic_stub_emission_run debug)"
proof (rule value_pass.intro)
  fix g g' r assume g: "graph_wf g" "shape_ok g" "ic_stub_emission_run debug g = Some (g', r)"
  have "keeps_values g (snd (ic_loop 1 False g))"
  proof (rule conjunct2 [OF ic_loop_inv])
    fix h i assume "keeps_values g h" "graph_wf h" "in_graph h i"
    then show "keeps_values g (ic_guard i h)"
      using keeps_ic_guard keeps_values_trans by (metis keeps_values_def)
  qed (use g keeps_values_refl in auto)
  then show "keeps_values g g'" using g(3) by (simp add: ic_stub_emission_run_def split_beta)
qed

section \<open>The RUBY pipeline\<close>

lemma ruby_value_pass:
  assumes "\<And>xs. set (order xs) = set xs"
  shows "value_pass (pipeline_run (build_ruby_pipeline order debug))"
  by (rule value_pass_pipeline)
    (simp add: build_ruby_pipeline_def algebraic_value_pass sccp_value_pass constant_folding_value_pass cse_value_pass
      gvn_value_pass control_flow_value_pass type_narrowing_value_pass region_value_pass bce_value_pass [OF assms]
      nce_value_pass escape_value_pass inlining_value_pass tail_call_value_pass ic_stub_value_pass dce_value_pass
      peephole_value_pass)

interpretation ruby: value_pass "pipeline_run (build_ruby_pipeline (\<lambda>xs. xs) debug)"
  by (rule ruby_value_pass) simp

definition ex_sum :: graph where
  "ex_sum = \<lparr>g_nodes = [flat_node NK_Start 4 0 0, flat_node NK_ConstInt 257 0 0, flat_node NK_ConstInt 257 0 0,
       flat_node NK_Add 25 0 2, flat_node NK_Return 4 2 1],
     g_sides = map flat_side [0, 3, 4, 0, 0], g_pool = [2, 3, 4], g_start = 1\<rparr>"

lemma ex_sum_run: "\<exists>g' r. pipeline_run (build_ruby_pipeline (\<lambda>xs. xs) False) ex_sum = Some (g', r)"
proof -
  have "map_option snd (pipeline_run (build_ruby_pipeline (\<lambda>xs. xs) False) ex_sum) = Some (Inr ())" by code_simp
  then show ?thesis by (cases "pipeline_run (build_ruby_pipeline (\<lambda>xs. xs) False) ex_sum") auto
qed

lemma ex_sum_nodes:
  "in_graph ex_sum i \<longleftrightarrow> i \<in> {1, 2, 3, 4, 5}"
  "n_kind (node ex_sum 1) = NK_Start" "n_kind (node ex_sum 2) = NK_ConstInt" "n_kind (node ex_sum 3) = NK_ConstInt"
  "n_kind (node ex_sum 4) = NK_Add" "n_kind (node ex_sum 5) = NK_Return"
  "data_inputs ex_sum 1 = []" "data_inputs ex_sum 2 = []" "data_inputs ex_sum 3 = []" "data_inputs ex_sum 4 = [2, 3]"
  "data_inputs ex_sum 5 = [4]"
  "n_flags (node ex_sum 1) = 4" "n_flags (node ex_sum 2) = 257" "n_flags (node ex_sum 3) = 257" "n_flags (node ex_sum 4) = 25"
  "n_flags (node ex_sum 5) = 4" "const_value (side ex_sum 2) = 3" "const_value (side ex_sum 3) = 4"
proof -
  show "in_graph ex_sum i \<longleftrightarrow> i \<in> {1, 2, 3, 4, 5}" by (auto simp: in_graph_def g_size_def ex_sum_def)
qed code_simp+

lemma ex_sum_ok: "graph_wf ex_sum" "shape_ok ex_sum"
proof -
  show "graph_wf ex_sum"
    by (simp add: graph_wf_def all_slots_def ex_sum_def node_slots_def slice_slots_def flat_node_def
        default_node_def empty_slice_def)
  have "nki_commutative (lookup_node_kind_info NK_Add)" by code_simp
  then show "shape_ok ex_sum"
    by (auto simp: shape_ok_def node_shape_ok_def ex_sum_nodes flags_has_def simp del: One_nat_def)
qed

lemma ex_sum_value: "eval int_sem ex_sum 4 7"
proof (rule evalI)
  have lit: "eval int_sem ex_sum 2 3" "eval int_sem ex_sum 3 4"
    by (rule evalI [where vs = "[]"], simp_all add: ex_sum_nodes int_sem_def)+
  then show "list_all2 (eval int_sem ex_sum) (data_inputs ex_sum 4) [3, 4]" by (simp add: ex_sum_nodes)
qed (simp_all add: ex_sum_nodes int_sem_def)



text \<open>The interpretations of the contract on the passes.\<close>

interpretation algebraic_pass: value_pass "algebraic_simplification_run debug" by (rule algebraic_value_pass)
interpretation sccp_pass: value_pass "sccp_run debug" by (rule sccp_value_pass)
interpretation folding_pass: value_pass "constant_folding_run debug" by (rule constant_folding_value_pass)
interpretation gvn_pass: value_pass "gvn_run debug" by (rule gvn_value_pass)
interpretation cse_pass: value_pass "cse_run debug" by (rule cse_value_pass)
interpretation dce_pass: value_pass "dce_run debug" by (rule dce_value_pass)
interpretation ic_pass: value_pass "ic_stub_emission_run debug" by (rule ic_stub_value_pass)
interpretation devirt_pass: value_pass "devirtualization_run debug" by (rule devirtualization_value_pass)

end
