(* ===== verification/Safepoint.thy ===== *)
theory Safepoint
  imports Prelude
begin

text \<open>
  \<^verbatim>\<open>runtime/Safepoint.hpp\<close>: the handshake by which one thread stops all others. Every load and store of an
  atomic flag is one step; an execution is a list of such steps in any order. (Interleavings of whole
  loads and stores; weaker orders that acquire and release allow are not modelled.)
\<close>

section \<open>Threads and manager\<close>

record thread_state =
  poll_requested :: bool
  at_safepoint :: bool
  thread_id :: u32

text \<open>Where a mutator is: in its own code, in \<open>enter_safepoint\<close> before the first store, in the loop, or past it.\<close>

datatype mutator = Running | Entering | Spinning | Leaving

text \<open>Where the manager is: not in a call, in one of the loops of a call, or returned from a request.\<close>

datatype manager =
    Idle | Requesting nat | Awaiting nat | Stopped nat | Timed_Out
  | Clearing_Poll nat | Clearing_At nat

record safepoint_manager =
  states :: "thread_state list"
  mutators :: "mutator list"
  manager :: manager

definition new_manager :: safepoint_manager where
  "new_manager = \<lparr>states = [], mutators = [], manager = Idle\<rparr>"

definition register_mutator :: "safepoint_manager \<Rightarrow> safepoint_manager" where
  "register_mutator s = s\<lparr>states := states s @ [\<lparr>poll_requested = False, at_safepoint = False,
     thread_id = of_nat (length (states s))\<rparr>], mutators := mutators s @ [Running]\<rparr>"

text \<open>The vector of states is not locked by the manager's loops: registering inside one is a data race.\<close>

fun between_calls :: "manager \<Rightarrow> bool" where
  "between_calls Idle = True"
| "between_calls Timed_Out = True"
| "between_calls (Stopped n) = True"
| "between_calls _ = False"

definition should_poll :: "thread_state \<Rightarrow> bool" where
  "should_poll ts = poll_requested ts"

section \<open>Steps of a mutator\<close>

definition set_mutator :: "nat \<Rightarrow> mutator \<Rightarrow> safepoint_manager \<Rightarrow> safepoint_manager" where
  "set_mutator t m s = s\<lparr>mutators := (mutators s)[t := m]\<rparr>"

definition store_at :: "nat \<Rightarrow> bool \<Rightarrow> safepoint_manager \<Rightarrow> safepoint_manager" where
  "store_at t b s = s\<lparr>states := (states s)[t := (states s ! t)\<lparr>at_safepoint := b\<rparr>]\<rparr>"

definition store_poll :: "nat \<Rightarrow> bool \<Rightarrow> safepoint_manager \<Rightarrow> safepoint_manager" where
  "store_poll t b s = s\<lparr>states := (states s)[t := (states s ! t)\<lparr>poll_requested := b\<rparr>]\<rparr>"

text \<open>\<open>should_poll\<close> and the branch on it, then the three accesses of \<open>enter_safepoint\<close>.\<close>

definition mutator_step :: "nat \<Rightarrow> safepoint_manager \<Rightarrow> safepoint_manager" where
  "mutator_step t s =
     (case mutators s ! t of
        Running \<Rightarrow> if should_poll (states s ! t) then set_mutator t Entering s else s
      | Entering \<Rightarrow> set_mutator t Spinning (store_at t True s)
      | Spinning \<Rightarrow> if poll_requested (states s ! t) then s else set_mutator t Leaving s
      | Leaving \<Rightarrow> set_mutator t Running (store_at t False s))"

section \<open>Steps of the manager\<close>

text \<open>The loops of \<open>request_global_safepoint\<close> and \<open>release_safepoint\<close>, one access at a time; \<open>Stopped n\<close> is the
  return of true for \<open>n\<close> threads. \<open>late\<close> is the outcome of the comparison with the deadline.\<close>

definition manager_step :: "bool \<Rightarrow> safepoint_manager \<Rightarrow> safepoint_manager" where
  "manager_step late s =
     (let n = length (states s) in
      case manager s of
        Requesting i \<Rightarrow> if i < n then (store_poll i True s)\<lparr>manager := Requesting (Suc i)\<rparr> else s\<lparr>manager := Awaiting 0\<rparr>
      | Awaiting i \<Rightarrow> if i < n
          then if at_safepoint (states s ! i) then s\<lparr>manager := Awaiting (Suc i)\<rparr>
               else if late then s\<lparr>manager := Timed_Out\<rparr> else s
          else s\<lparr>manager := Stopped n\<rparr>
      | Clearing_Poll i \<Rightarrow> if i < n then (store_poll i False s)\<lparr>manager := Clearing_At i\<rparr> else s\<lparr>manager := Idle\<rparr>
      | Clearing_At i \<Rightarrow> (store_at i False s)\<lparr>manager := Clearing_Poll (Suc i)\<rparr>
      | _ \<Rightarrow> s)"

datatype event = Mutator nat | Manager bool | Register | Request | Release

definition safepoint_step :: "event \<Rightarrow> safepoint_manager \<Rightarrow> safepoint_manager option" where
  "safepoint_step e s =
     (case e of
        Mutator t \<Rightarrow> if t < length (states s) then Some (mutator_step t s) else None
      | Manager late \<Rightarrow> if between_calls (manager s) then None else Some (manager_step late s)
      | Register \<Rightarrow> if between_calls (manager s) then Some (register_mutator s) else None
      | Request \<Rightarrow> if between_calls (manager s) then Some (s\<lparr>manager := Requesting 0\<rparr>) else None
      | Release \<Rightarrow> if between_calls (manager s) then Some (s\<lparr>manager := Clearing_Poll 0\<rparr>) else None)"

fun safepoint_exec :: "event list \<Rightarrow> safepoint_manager \<Rightarrow> safepoint_manager option" where
  "safepoint_exec [] s = Some s"
| "safepoint_exec (e # es) s = (case safepoint_step e s of None \<Rightarrow> None | Some s' \<Rightarrow> safepoint_exec es s')"

section \<open>Before the first release\<close>

text \<open>The threads the request waits for: none of them runs.\<close>

definition stopped :: "nat \<Rightarrow> safepoint_manager \<Rightarrow> bool" where
  "stopped n s \<longleftrightarrow> n \<le> length (mutators s) \<and> (\<forall>t < n. mutators s ! t = Spinning)"

definition mutator_inv :: "thread_state \<Rightarrow> mutator \<Rightarrow> bool" where
  "mutator_inv ts m \<longleftrightarrow> m \<noteq> Leaving \<and> (at_safepoint ts \<longleftrightarrow> m = Spinning) \<and> (m \<noteq> Running \<longrightarrow> poll_requested ts)"

definition safepoint_inv :: "safepoint_manager \<Rightarrow> bool" where
  "safepoint_inv s \<longleftrightarrow> length (mutators s) = length (states s)
     \<and> (\<forall>t < length (states s). mutator_inv (states s ! t) (mutators s ! t))
     \<and> (case manager s of
          Awaiting i \<Rightarrow> stopped i s
        | Stopped n \<Rightarrow> stopped n s
        | Clearing_Poll i \<Rightarrow> False | Clearing_At i \<Rightarrow> False | _ \<Rightarrow> True)"

lemmas safepoint_defs = safepoint_inv_def stopped_def mutator_inv_def set_mutator_def store_at_def store_poll_def
  should_poll_def

lemma inv_new: "safepoint_inv new_manager"
  by (simp add: safepoint_inv_def new_manager_def)

lemma inv_register: "safepoint_inv s \<Longrightarrow> safepoint_inv (register_mutator s)"
  unfolding safepoint_inv_def stopped_def register_mutator_def mutator_inv_def
  by (auto simp: nth_append less_Suc_eq split: manager.splits)

lemma inv_mutator:
  assumes "safepoint_inv s" "t < length (states s)"
  shows "safepoint_inv (mutator_step t s)"
proof -
  have m: "mutator_inv (states s ! t) (mutators s ! t)" using assms by (simp add: safepoint_inv_def)
  then show ?thesis
    using assms
    by (cases "mutators s ! t"; cases "manager s")
      (auto simp: mutator_step_def safepoint_defs nth_list_update)
qed

lemma inv_manager: "safepoint_inv s \<Longrightarrow> safepoint_inv (manager_step late s)"
  by (cases "manager s")
    (auto simp: manager_step_def Let_def safepoint_defs nth_list_update less_Suc_eq)

lemma inv_step:
  assumes "safepoint_inv s" "safepoint_step e s = Some s'" "e \<noteq> Release"
  shows "safepoint_inv s'"
proof (cases e)
  case Request
  then show ?thesis using assms by (auto simp: safepoint_step_def safepoint_inv_def split: if_splits)
qed (use assms inv_mutator inv_manager inv_register in \<open>auto simp: safepoint_step_def split: if_splits\<close>)

lemma inv_exec: "safepoint_exec es s = Some s' \<Longrightarrow> Release \<notin> set es \<Longrightarrow> safepoint_inv s \<Longrightarrow> safepoint_inv s'"
proof (induction es arbitrary: s)
  case (Cons e es)
  then obtain s1 where "safepoint_step e s = Some s1" "safepoint_exec es s1 = Some s'" by (auto split: option.splits)
  then show ?case using Cons inv_step by auto
qed simp

text \<open>C33: Until the first release, whenever \<open>request_global_safepoint\<close> has returned true, every thread it waited
  for is inside the loop of \<open>enter_safepoint\<close>, whatever the interleaving of the threads' loads and stores.\<close>

theorem first_safepoint_stops:
  assumes "safepoint_exec es new_manager = Some s" "Release \<notin> set es" "manager s = Stopped n"
  shows "\<forall>t < n. mutators s ! t = Spinning"
  using inv_exec [OF assms(1,2) inv_new] assms(3) by (simp add: safepoint_inv_def stopped_def)

definition one_stop :: "event list" where
  "one_stop = [Register, Request, Manager False, Mutator 0, Manager False, Mutator 0, Manager False, Manager False]"

theorem first_safepoint_stops_witness:
  "manager (the (safepoint_exec one_stop new_manager)) = Stopped 1
     \<and> mutators (the (safepoint_exec one_stop new_manager)) ! 0 = Spinning"
proof -
  have r: "safepoint_exec one_stop new_manager = Some \<lparr>states = [\<lparr>poll_requested = True, at_safepoint = True,
    thread_id = 0\<rparr>], mutators = [Spinning], manager = Stopped 1\<rparr>" by code_simp
  have "Release \<notin> set one_stop" by (simp add: one_stop_def)
  from first_safepoint_stops [OF r this, of 1] r show ?thesis by simp
qed

section \<open>After a release\<close>

text \<open>A thread that read the flag before a release and enters after it publishes itself and leaves at once: the
  next request sees the mark while the thread is on its way back to its code.\<close>

definition late_entry :: "event list" where
  "late_entry =
     [Register, Request, Manager False, Mutator 0, Manager False, Manager True,
      Release, Manager False, Manager False, Manager False, Mutator 0, Mutator 0,
      Request, Manager False, Manager False, Manager False, Manager False, Mutator 0]"

text \<open>A thread that is still in the loop when the next request comes stays there, but the release has cleared its
  mark and nothing sets it again.\<close>

definition lost_mark :: "event list" where
  "lost_mark = one_stop @ [Release, Manager False, Manager False, Manager False, Request, Manager False, Manager False]"

definition stuck :: safepoint_manager where
  "stuck = \<lparr>states = [\<lparr>poll_requested = True, at_safepoint = False, thread_id = 0\<rparr>], mutators = [Spinning],
     manager = Awaiting 0\<rparr>"

lemma stuck_step: "safepoint_step e stuck = Some s \<Longrightarrow> e \<in> {Mutator 0, Manager False} \<Longrightarrow> s = stuck"
  by (auto simp: safepoint_step_def mutator_step_def manager_step_def stuck_def split: if_splits)

lemma stuck_exec: "safepoint_exec es stuck = Some s \<Longrightarrow> set es \<subseteq> {Mutator 0, Manager False} \<Longrightarrow> s = stuck"
proof (induction es)
  case (Cons e es)
  then obtain s1 where s1: "safepoint_step e stuck = Some s1" "safepoint_exec es s1 = Some s" by (auto split: option.splits)
  then have "s1 = stuck" using stuck_step Cons.prems(2) by auto
  then show ?case using Cons s1 by simp
qed simp

text \<open>C34: After a release the handshake is broken in both directions. One interleaving lets the next request
  return true while the only thread runs its own code; in another one the thread stays parked without its
  mark, so the manager never gets out of the waiting loop other than by its deadline.\<close>

theorem safepoint_reuse_broken:
  "(\<exists>s. safepoint_exec late_entry new_manager = Some s \<and> manager s = Stopped 1 \<and> mutators s ! 0 = Running)
   \<and> (\<exists>s. safepoint_exec lost_mark new_manager = Some s \<and> mutators s ! 0 = Spinning \<and> manager s = Awaiting 0
     \<and> (\<nexists>es s'. safepoint_exec es s = Some s' \<and> set es \<subseteq> {Mutator 0, Manager False} \<and> s' \<noteq> s))"
proof (intro conjI)
  have "safepoint_exec late_entry new_manager = Some \<lparr>states = [\<lparr>poll_requested = True, at_safepoint = False,
    thread_id = 0\<rparr>], mutators = [Running], manager = Stopped 1\<rparr>" by code_simp
  then show "\<exists>s. safepoint_exec late_entry new_manager = Some s \<and> manager s = Stopped 1 \<and> mutators s ! 0 = Running"
    by simp
  have "safepoint_exec lost_mark new_manager = Some stuck" by code_simp
  moreover have "mutators stuck ! 0 = Spinning" "manager stuck = Awaiting 0" by (simp_all add: stuck_def)
  ultimately show "\<exists>s. safepoint_exec lost_mark new_manager = Some s \<and> mutators s ! 0 = Spinning \<and> manager s = Awaiting 0
     \<and> (\<nexists>es s'. safepoint_exec es s = Some s' \<and> set es \<subseteq> {Mutator 0, Manager False} \<and> s' \<noteq> s)"
    using stuck_exec by blast
qed

end
