(* ===== verification/Legacy_Interp.thy ===== *)
theory Legacy_Interp
  imports Granit_Value Core_Result Safepoint
begin

text \<open>
  \<^verbatim>\<open>tier0_granit/Bytecode.hpp\<close>, \<^verbatim>\<open>Bytecode.cpp\<close>, \<^verbatim>\<open>Interpreter.hpp\<close> and \<^verbatim>\<open>Interpreter.cpp\<close>: the stack machine over
  the hand-written bytecode. The top of the stack is the head of a list. The instruction pointer is a
  natural number, since the code only increments it below the length of the program.
\<close>

section \<open>Bytecode\<close>

datatype op =
    Op_Nop | Op_PushConst0 | Op_PushConst1 | Op_PushConstI | Op_PushConstF | Op_PushConstN | Op_Pop | Op_Dup | Op_Swap
  | Op_Add | Op_Sub | Op_Mul | Op_Div | Op_Mod | Op_Neg | Op_And | Op_Or | Op_Xor | Op_Not | Op_Shl | Op_Shr
  | Op_Eq | Op_Ne | Op_Lt | Op_Gt | Op_Le | Op_Ge
  | Op_Jump | Op_JumpIfTrue | Op_JumpIfFalse | Op_Call | Op_Return | Op_LoadLocal | Op_StoreLocal | Op_Safepoint | Op_Halt

primrec op_code :: "op \<Rightarrow> nat" where
  "op_code Op_Nop = 0"
| "op_code Op_PushConst0 = 1"
| "op_code Op_PushConst1 = 2"
| "op_code Op_PushConstI = 3"
| "op_code Op_PushConstF = 4"
| "op_code Op_PushConstN = 5"
| "op_code Op_Pop = 6"
| "op_code Op_Dup = 7"
| "op_code Op_Swap = 8"
| "op_code Op_Add = 10"
| "op_code Op_Sub = 11"
| "op_code Op_Mul = 12"
| "op_code Op_Div = 13"
| "op_code Op_Mod = 14"
| "op_code Op_Neg = 15"
| "op_code Op_And = 16"
| "op_code Op_Or = 17"
| "op_code Op_Xor = 18"
| "op_code Op_Not = 19"
| "op_code Op_Shl = 20"
| "op_code Op_Shr = 21"
| "op_code Op_Eq = 30"
| "op_code Op_Ne = 31"
| "op_code Op_Lt = 32"
| "op_code Op_Gt = 33"
| "op_code Op_Le = 34"
| "op_code Op_Ge = 35"
| "op_code Op_Jump = 40"
| "op_code Op_JumpIfTrue = 41"
| "op_code Op_JumpIfFalse = 42"
| "op_code Op_Call = 50"
| "op_code Op_Return = 51"
| "op_code Op_LoadLocal = 60"
| "op_code Op_StoreLocal = 61"
| "op_code Op_Safepoint = 90"
| "op_code Op_Halt = 99"

definition kOpNames :: "string list" where
  "kOpNames =
     [''Nop'', ''PushConst0'', ''PushConst1'', ''PushConstI'', ''PushConstF'', ''PushConstN'', ''Pop'', ''Dup'', ''Swap'',
      ''<reserved 9>'', ''Add'', ''Sub'', ''Mul'', ''Div'', ''Mod'', ''Neg'', ''And'', ''Or'', ''Xor'', ''Not'', ''Shl'', ''Shr'',
      ''<reserved 22-29>'', ''Eq'', ''Ne'', ''Lt'', ''Gt'', ''Le'', ''Ge'', ''<reserved 36-39>'', ''Jump'', ''JumpIfTrue'',
      ''JumpIfFalse'', ''<reserved 43-49>'', ''Call'', ''Return'', ''<reserved 52-59>'', ''LoadLocal'', ''StoreLocal'',
      ''<reserved 62-89>'', ''Safepoint'', ''<reserved 91-98>'', ''Halt'']"

definition op_name :: "op \<Rightarrow> string" where
  "op_name p = (if op_code p < length kOpNames then kOpNames ! op_code p else ''Unknown'')"

record instruction =
  in_op :: op
  in_imm :: i32

type_synonym program = "instruction list"

text \<open>\<^verbatim>\<open>ProgramBuilder\<close>: every method appends one instruction.\<close>

definition emit :: "op \<Rightarrow> i32 \<Rightarrow> program \<Rightarrow> program" where
  "emit p v prog = prog @ [\<lparr>in_op = p, in_imm = v\<rparr>]"

definition push_const_i :: "i32 \<Rightarrow> program \<Rightarrow> program" where
  "push_const_i v = emit Op_PushConstI v"

text \<open>Only the low four bytes of the double are copied.\<close>

definition push_const_f :: "f64 \<Rightarrow> program \<Rightarrow> program" where
  "push_const_f v = emit Op_PushConstF (ucast v)"

definition jump :: "u32 \<Rightarrow> program \<Rightarrow> program" where
  "jump target = emit Op_Jump target"

definition jump_if_true :: "u32 \<Rightarrow> program \<Rightarrow> program" where
  "jump_if_true target = emit Op_JumpIfTrue target"

definition jump_if_false :: "u32 \<Rightarrow> program \<Rightarrow> program" where
  "jump_if_false target = emit Op_JumpIfFalse target"

section \<open>Arithmetic\<close>

definition kErrorVal :: gvalue where
  "kErrorVal = from_int32 0x7FFFFFFF"

definition is_error :: "gvalue \<Rightarrow> bool" where
  "is_error v \<longleftrightarrow> is_int32 v \<and> as_int32 v = 0x7FFFFFFF"

text \<open>An operand of a float operation; a value of another tag is read as if it were a double.\<close>

definition operand_double :: "fp_ops \<Rightarrow> gvalue \<Rightarrow> f64" where
  "operand_double fp v = (if is_int32 v then fp_of_i32 fp (as_int32 v)
     else if is_int64 v then fp_of_i64 fp (as_int64 v) else as_float v)"

definition arith_add :: "fp_ops \<Rightarrow> gvalue \<Rightarrow> gvalue \<Rightarrow> gvalue" where
  "arith_add fp a b =
     (if is_int32 a \<and> is_int32 b then from_int32 (wrap_add_i32 (as_int32 a) (as_int32 b))
      else if is_int64 a \<and> is_int64 b then from_int64 (wrap_add_i64 (as_int64 a) (as_int64 b))
      else if is_float a \<or> is_float b then from_float (fp_add fp (operand_double fp a) (operand_double fp b))
      else kErrorVal)"

definition arith_sub :: "fp_ops \<Rightarrow> gvalue \<Rightarrow> gvalue \<Rightarrow> gvalue" where
  "arith_sub fp a b =
     (if is_int32 a \<and> is_int32 b then from_int32 (wrap_sub_i32 (as_int32 a) (as_int32 b))
      else if is_int64 a \<and> is_int64 b then from_int64 (wrap_sub_i64 (as_int64 a) (as_int64 b))
      else if is_float a \<or> is_float b then from_float (fp_sub fp (operand_double fp a) (operand_double fp b))
      else kErrorVal)"

definition arith_mul :: "fp_ops \<Rightarrow> gvalue \<Rightarrow> gvalue \<Rightarrow> gvalue" where
  "arith_mul fp a b =
     (if is_int32 a \<and> is_int32 b then from_int32 (wrap_mul_i32 (as_int32 a) (as_int32 b))
      else if is_int64 a \<and> is_int64 b then from_int64 (wrap_mul_i64 (as_int64 a) (as_int64 b))
      else if is_float a \<or> is_float b then from_float (fp_mul fp (operand_double fp a) (operand_double fp b))
      else kErrorVal)"

definition arith_div :: "fp_ops \<Rightarrow> gvalue \<Rightarrow> gvalue \<Rightarrow> gvalue ub" where
  "arith_div fp a b =
     (if is_int32 a \<and> is_int32 b
      then if as_int32 b = 0 then Some kErrorVal else map_option from_int32 (s_div (as_int32 a) (as_int32 b))
      else if is_int64 a \<and> is_int64 b
      then if as_int64 b = 0 then Some kErrorVal else map_option from_int64 (s_div (as_int64 a) (as_int64 b))
      else Some (if is_float a \<or> is_float b then from_float (fp_div fp (operand_double fp a) (operand_double fp b))
      else kErrorVal))"

section \<open>The interpreter\<close>

record type_feedback =
  observed_types :: "u8 list"
  branch_taken :: "u32 list"
  branch_total :: "u32 list"

record interp =
  ip_stack :: "gvalue list"
  ip_feedback :: type_feedback
  ip_max_stack_depth :: nat
  ip_safepoint :: "thread_state option"

definition new_interp :: interp where
  "new_interp = \<lparr>ip_stack = [], ip_feedback = \<lparr>observed_types = [], branch_taken = [], branch_total = []\<rparr>,
     ip_max_stack_depth = 0, ip_safepoint = None\<rparr>"

definition ip_push :: "gvalue \<Rightarrow> interp \<Rightarrow> interp" where
  "ip_push v s = s\<lparr>ip_stack := v # ip_stack s, ip_max_stack_depth := max (Suc (length (ip_stack s))) (ip_max_stack_depth s)\<rparr>"

fun ip_pop_stack :: "gvalue list \<Rightarrow> gvalue \<times> gvalue list" where
  "ip_pop_stack [] = (kErrorVal, [])"
| "ip_pop_stack (v # vs) = (v, vs)"

definition ip_pop :: "interp \<Rightarrow> gvalue \<times> interp" where
  "ip_pop s = (let (v, vs) = ip_pop_stack (ip_stack s) in (v, s\<lparr>ip_stack := vs\<rparr>))"

definition ip_top :: "interp \<Rightarrow> gvalue" where
  "ip_top s = (case ip_stack s of [] \<Rightarrow> v_uninit | v # _ \<Rightarrow> v)"

text \<open>\<open>released ts\<close> is the state in which a parked thread leaves \<open>enter_safepoint\<close>, None when it never does.\<close>

definition poll_safepoint :: "(thread_state \<Rightarrow> thread_state option) \<Rightarrow> interp \<Rightarrow> interp option" where
  "poll_safepoint released s =
     (case ip_safepoint s of None \<Rightarrow> Some s
      | Some ts \<Rightarrow> if should_poll ts
          then map_option (\<lambda>ts'. s\<lparr>ip_safepoint := Some (ts'\<lparr>at_safepoint := False\<rparr>)\<rparr>) (released (ts\<lparr>at_safepoint := True\<rparr>))
          else Some s)"

text \<open>The result at a return, a halt and the end of the program.\<close>

definition ip_result :: "interp \<Rightarrow> gvalue \<times> interp" where
  "ip_result s = (if ip_stack s = [] then (v_uninit, s) else ip_pop s)"

datatype legacy_outcome =
    L_next interp
  | L_jump nat interp
  | L_return gvalue interp
  | L_fail error interp
  | L_parked

definition l_poll :: "(thread_state \<Rightarrow> thread_state option) \<Rightarrow> (interp \<Rightarrow> legacy_outcome) \<Rightarrow> interp \<Rightarrow> legacy_outcome" where
  "l_poll released k s = (case poll_safepoint released s of None \<Rightarrow> L_parked | Some s' \<Rightarrow> k s')"

definition l_internal :: "string \<Rightarrow> interp \<Rightarrow> legacy_outcome" where
  "l_internal m = L_fail (make_error Internal m)"

text \<open>\<open>b\<close> is popped before \<open>a\<close>.\<close>

definition l_binary :: "(gvalue \<Rightarrow> gvalue \<Rightarrow> interp \<Rightarrow> legacy_outcome ub) \<Rightarrow> interp \<Rightarrow> legacy_outcome ub" where
  "l_binary f s = (let (b, s) = ip_pop s; (a, s) = ip_pop s in f a b s)"

definition l_arith :: "string \<Rightarrow> (gvalue \<Rightarrow> gvalue \<Rightarrow> gvalue ub) \<Rightarrow> interp \<Rightarrow> legacy_outcome ub" where
  "l_arith m f = l_binary (\<lambda>a b s. case f a b of None \<Rightarrow> None
     | Some r \<Rightarrow> Some (if is_error r then l_internal m s else L_next (ip_push r s)))"

definition from_bool :: "bool \<Rightarrow> gvalue" where
  "from_bool c = from_int32 (if c then 1 else 0)"

definition l_test :: "bool \<Rightarrow> interp \<Rightarrow> legacy_outcome" where
  "l_test c s = L_next (ip_push (from_bool c) s)"

text \<open>Lt and Gt compare both integer types, Le and Ge only 32-bit values.\<close>

definition l_compare :: "string \<Rightarrow> bool \<Rightarrow> (int \<Rightarrow> int \<Rightarrow> bool) \<Rightarrow> interp \<Rightarrow> legacy_outcome ub" where
  "l_compare m wide r = l_binary (\<lambda>a b s. Some
     (if is_int32 a \<and> is_int32 b then l_test (r (sint (as_int32 a)) (sint (as_int32 b))) s
      else if wide \<and> is_int64 a \<and> is_int64 b then l_test (r (sint (as_int64 a)) (sint (as_int64 b))) s
      else l_internal m s))"

definition l_neg :: "interp \<Rightarrow> legacy_outcome ub" where
  "l_neg s = (let (a, s) = ip_pop s in
     if is_int32 a then map_option (\<lambda>r. L_next (ip_push (from_int32 r) s)) (s_neg (as_int32 a))
     else if is_int64 a then map_option (\<lambda>r. L_next (ip_push (from_int64 r) s)) (s_neg (as_int64 a))
     else if is_float a then Some (L_next (ip_push (from_float (xor (as_float a) 0x8000000000000000)) s))
     else Some (l_internal ''Neg: invalid operand type'' s))"

text \<open>Converting the immediate to an address: a negative one becomes one near \<open>2 ^ 64\<close>.\<close>

definition l_target :: "i32 \<Rightarrow> nat" where
  "l_target v = unat (scast v :: u64)"

definition l_jump :: "(thread_state \<Rightarrow> thread_state option) \<Rightarrow> i32 \<Rightarrow> interp \<Rightarrow> legacy_outcome" where
  "l_jump released v = l_poll released (L_jump (l_target v))"

definition count_up :: "u32 list \<Rightarrow> nat \<Rightarrow> u32 list" where
  "count_up xs i = xs[i := xs ! i + 1]"

definition count_total :: "nat \<Rightarrow> interp \<Rightarrow> interp" where
  "count_total pc s = s\<lparr>ip_feedback := (ip_feedback s)\<lparr>branch_total := count_up (branch_total (ip_feedback s)) pc\<rparr>\<rparr>"

definition count_taken :: "nat \<Rightarrow> interp \<Rightarrow> interp" where
  "count_taken pc s = s\<lparr>ip_feedback := (ip_feedback s)\<lparr>branch_taken := count_up (branch_taken (ip_feedback s)) pc\<rparr>\<rparr>"

definition l_branch :: "(thread_state \<Rightarrow> thread_state option) \<Rightarrow> bool \<Rightarrow> nat \<Rightarrow> i32 \<Rightarrow> interp \<Rightarrow> legacy_outcome" where
  "l_branch released sense pc v s =
     (let (c, s) = ip_pop s; s = count_total pc s
      in if truthy c = sense then l_jump released v (count_taken pc s) else L_next s)"

definition l_swap :: "interp \<Rightarrow> legacy_outcome" where
  "l_swap s = (case ip_stack s of
       a # b # vs \<Rightarrow> L_next (s\<lparr>ip_stack := b # a # vs\<rparr>)
     | _ \<Rightarrow> l_internal ''stack underflow on Swap'' s)"

definition l_finish :: "interp \<Rightarrow> legacy_outcome" where
  "l_finish s = (let (v, s) = ip_result s in L_return v s)"

text \<open>One instruction. PushConstF reads eight bytes at the four of the immediate.\<close>

definition legacy_step ::
  "fp_ops \<Rightarrow> (thread_state \<Rightarrow> thread_state option) \<Rightarrow> nat \<Rightarrow> instruction \<Rightarrow> interp \<Rightarrow> legacy_outcome ub" where
  "legacy_step fp released pc ins s =
     (case in_op ins of
        Op_Nop \<Rightarrow> Some (L_next s)
      | Op_PushConst0 \<Rightarrow> Some (L_next (ip_push (from_int32 0) s))
      | Op_PushConst1 \<Rightarrow> Some (L_next (ip_push (from_int32 1) s))
      | Op_PushConstI \<Rightarrow> Some (L_next (ip_push (from_int32 (in_imm ins)) s))
      | Op_PushConstF \<Rightarrow> None
      | Op_PushConstN \<Rightarrow> Some (L_next (ip_push null_value s))
      | Op_Pop \<Rightarrow> Some (L_next (snd (ip_pop s)))
      | Op_Dup \<Rightarrow> Some (L_next (ip_push (ip_top s) s))
      | Op_Swap \<Rightarrow> Some (l_swap s)
      | Op_Add \<Rightarrow> l_arith ''Add: invalid operand types'' (\<lambda>a b. Some (arith_add fp a b)) s
      | Op_Sub \<Rightarrow> l_arith ''Sub: invalid operand types'' (\<lambda>a b. Some (arith_sub fp a b)) s
      | Op_Mul \<Rightarrow> l_arith ''Mul: invalid operand types'' (\<lambda>a b. Some (arith_mul fp a b)) s
      | Op_Div \<Rightarrow> l_arith ''Div: divide by zero or invalid types'' (arith_div fp) s
      | Op_Neg \<Rightarrow> l_neg s
      | Op_Eq \<Rightarrow> l_binary (\<lambda>a b s. Some (l_test (value_equals a b) s)) s
      | Op_Ne \<Rightarrow> l_binary (\<lambda>a b s. Some (l_test (\<not> value_equals a b) s)) s
      | Op_Lt \<Rightarrow> l_compare ''Lt: invalid operand types'' True (<) s
      | Op_Gt \<Rightarrow> l_compare ''Gt: invalid operand types'' True (>) s
      | Op_Le \<Rightarrow> l_compare ''Le: invalid operand types'' False (\<le>) s
      | Op_Ge \<Rightarrow> l_compare ''Ge: invalid operand types'' False (\<ge>) s
      | Op_Jump \<Rightarrow> Some (l_jump released (in_imm ins) s)
      | Op_JumpIfTrue \<Rightarrow> Some (l_branch released True pc (in_imm ins) s)
      | Op_JumpIfFalse \<Rightarrow> Some (l_branch released False pc (in_imm ins) s)
      | Op_Safepoint \<Rightarrow> Some (l_poll released L_next s)
      | Op_Return \<Rightarrow> Some (let (v, s) = ip_result s in l_poll released (L_return v) s)
      | Op_Halt \<Rightarrow> Some (l_finish s)
      | _ \<Rightarrow> Some (L_fail (make_error UnsupportedNode (''unknown opcode: '' @ show_nat (op_code (in_op ins)))) s))"

text \<open>The loop returns nothing when the program does not end or the thread is never released.\<close>

partial_function (option) legacy_loop ::
  "fp_ops \<Rightarrow> (thread_state \<Rightarrow> thread_state option) \<Rightarrow> program \<Rightarrow> nat \<Rightarrow> interp \<Rightarrow> (gvalue result \<times> interp) ub option" where
  "legacy_loop fp released prog pc s =
     (if pc < length prog
      then (case legacy_step fp released pc (prog ! pc) s of
          None \<Rightarrow> Some None
        | Some (L_next s') \<Rightarrow> legacy_loop fp released prog (Suc pc) s'
        | Some (L_jump pc' s') \<Rightarrow> legacy_loop fp released prog pc' s'
        | Some (L_return v s') \<Rightarrow> Some (Some (Inr v, s'))
        | Some (L_fail e s') \<Rightarrow> Some (Some (Inl e, s'))
        | Some L_parked \<Rightarrow> None)
      else (let (v, s') = ip_result s in Some (Some (Inr v, s'))))"

declare legacy_loop.simps [code]

definition resize :: "nat \<Rightarrow> 'a \<Rightarrow> 'a list \<Rightarrow> 'a list" where
  "resize n x xs = take n xs @ replicate (n - length xs) x"

definition size_feedback :: "nat \<Rightarrow> type_feedback \<Rightarrow> type_feedback" where
  "size_feedback n fb = fb\<lparr>observed_types := resize n 0 (observed_types fb), branch_taken := resize n 0 (branch_taken fb),
     branch_total := resize n 0 (branch_total fb)\<rparr>"

definition legacy_run ::
  "fp_ops \<Rightarrow> (thread_state \<Rightarrow> thread_state option) \<Rightarrow> program \<Rightarrow> interp \<Rightarrow> (gvalue result \<times> interp) ub option" where
  "legacy_run fp released prog s =
     (if prog = [] then Some (Some (Inl (make_error BadInput ''empty program''), s))
      else legacy_loop fp released prog 0 (s\<lparr>ip_feedback := size_feedback (length prog) (ip_feedback s)\<rparr>))"

text \<open>The name table is dense, the opcodes are not: the names are right up to Shr.\<close>

lemma op_name_right: "op_code p \<le> 21 \<Longrightarrow> op_name p \<noteq> ''Unknown'' \<and> op_name p \<notin> {''Eq'', ''Jump'', ''Call''}"
  by (cases p) (simp_all add: op_name_def kOpNames_def)

lemma op_name_wrong:
  "op_name Op_Eq = ''Jump''" "op_name Op_Jump = ''Safepoint''" "op_name Op_Return = ''Unknown''"
  by (simp_all add: op_name_def kOpNames_def)

end
