(* ===== verification/Legacy_Interp_Correct.thy ===== *)
theory Legacy_Interp_Correct
  imports Legacy_Interp
begin

text \<open>
  What the legacy interpreter computes: conditional expressions over 32-bit integers, compiled to its
  bytecode with forward jumps, against their meaning. The sentinel \<open>kErrorVal\<close> shows in the result.
\<close>

section \<open>Expressions\<close>

datatype bop = B_Add | B_Sub | B_Mul | B_Div | B_Eq | B_Lt

datatype exp = Lit i32 | Bin bop exp exp | If exp exp exp

definition div_error :: error where
  "div_error = make_error Internal ''Div: divide by zero or invalid types''"

fun apply_bop :: "bop \<Rightarrow> i32 \<Rightarrow> i32 \<Rightarrow> i32 result ub" where
  "apply_bop B_Add x y = Some (Inr (x + y))"
| "apply_bop B_Sub x y = Some (Inr (x - y))"
| "apply_bop B_Mul x y = Some (Inr (x * y))"
| "apply_bop B_Div x y = (if y = 0 then Some (Inl div_error) else map_option Inr (s_div x y))"
| "apply_bop B_Eq x y = Some (Inr (if x = y then 1 else 0))"
| "apply_bop B_Lt x y = Some (Inr (if x <s y then 1 else 0))"

text \<open>Operands from left to right, the first failure wins; the arithmetic is that of the words.\<close>

fun meaning :: "exp \<Rightarrow> i32 result ub" where
  "meaning (Lit v) = Some (Inr v)"
| "meaning (Bin b e f) = (case meaning e of Some (Inr x) \<Rightarrow>
     (case meaning f of Some (Inr y) \<Rightarrow> apply_bop b x y | r \<Rightarrow> r) | r \<Rightarrow> r)"
| "meaning (If c e f) = (case meaning c of Some (Inr x) \<Rightarrow> if x \<noteq> 0 then meaning e else meaning f | r \<Rightarrow> r)"

text \<open>Before anything fails, an operation yields the number that stands for an error.\<close>

fun hits_sentinel :: "exp \<Rightarrow> bool" where
  "hits_sentinel (Lit v) = False"
| "hits_sentinel (Bin b e f) = (hits_sentinel e \<or> (case meaning e of Some (Inr x) \<Rightarrow>
     hits_sentinel f \<or> meaning (Bin b e f) = Some (Inr 0x7FFFFFFF) | _ \<Rightarrow> False))"
| "hits_sentinel (If c e f) = (hits_sentinel c \<or> (case meaning c of Some (Inr x) \<Rightarrow>
     if x \<noteq> 0 then hits_sentinel e else hits_sentinel f | _ \<Rightarrow> False))"

definition bop_op :: "bop \<Rightarrow> op" where
  "bop_op b = (case b of B_Add \<Rightarrow> Op_Add | B_Sub \<Rightarrow> Op_Sub | B_Mul \<Rightarrow> Op_Mul | B_Div \<Rightarrow> Op_Div | B_Eq \<Rightarrow> Op_Eq | B_Lt \<Rightarrow> Op_Lt)"

definition ins :: "op \<Rightarrow> i32 \<Rightarrow> instruction" where
  "ins p v = \<lparr>in_op = p, in_imm = v\<rparr>"

lemma ins_fields [simp]: "in_op (ins p v) = p" "in_imm (ins p v) = v"
  by (simp_all add: ins_def)

text \<open>The code of an expression at an address.\<close>

fun code_size :: "exp \<Rightarrow> nat" where
  "code_size (Lit v) = 1"
| "code_size (Bin b e f) = code_size e + code_size f + 1"
| "code_size (If c e f) = code_size c + code_size e + code_size f + 2"

fun compile :: "nat \<Rightarrow> exp \<Rightarrow> program" where
  "compile n (Lit v) = [ins Op_PushConstI v]"
| "compile n (Bin b e f) = compile n e @ compile (n + code_size e) f @ [ins (bop_op b) 0]"
| "compile n (If c e f) =
     (let m = n + code_size c + 1; k = m + code_size e + 1
      in compile n c @ [ins Op_JumpIfFalse (of_nat k)] @ compile m e
         @ [ins Op_Jump (of_nat (k + code_size f))] @ compile k f)"

lemma length_compile [simp]: "length (compile n e) = code_size e"
  by (induction n e rule: compile.induct) (simp_all add: Let_def)

section \<open>Execution\<close>

definition runs_at :: "program \<Rightarrow> nat \<Rightarrow> program \<Rightarrow> bool" where
  "runs_at prog n c \<longleftrightarrow> n + length c \<le> length prog \<and> length prog < 2 ^ 31 \<and> (\<forall>i < length c. prog ! (n + i) = c ! i)"

lemma runs_at_append: "runs_at prog n (c @ d) \<longleftrightarrow> runs_at prog n c \<and> runs_at prog (n + length c) d"
  unfolding runs_at_def
proof (intro iffI conjI allI impI; (elim conjE)?)
  fix i assume a: "\<forall>i < length (c @ d). prog ! (n + i) = (c @ d) ! i" "i < length c"
  then show "prog ! (n + i) = c ! i" using a(1) [rule_format, of i] by (simp add: nth_append)
next
  fix i assume a: "\<forall>i < length (c @ d). prog ! (n + i) = (c @ d) ! i" "i < length d"
  then show "prog ! (n + length c + i) = d ! i" using a(1) [rule_format, of "length c + i"] by (simp add: add.assoc)
next
  fix i assume a: "\<forall>i < length c. prog ! (n + i) = c ! i" "\<forall>i < length d. prog ! (n + length c + i) = d ! i"
    "i < length (c @ d)"
  show "prog ! (n + i) = (c @ d) ! i"
  proof (cases "i < length c")
    case True then show ?thesis using a(1) by (simp add: nth_append)
  next
    case False then show ?thesis using a(2) [rule_format, of "i - length c"] a(3) by (simp add: nth_append)
  qed
qed auto

lemma runs_at_cons: "runs_at prog n (x # c) \<longleftrightarrow> n < length prog \<and> length prog < 2 ^ 31 \<and> prog ! n = x \<and> runs_at prog (Suc n) c"
proof -
  have "runs_at prog n [x] \<longleftrightarrow> n < length prog \<and> length prog < 2 ^ 31 \<and> prog ! n = x" by (auto simp: runs_at_def)
  then show ?thesis using runs_at_append [of prog n "[x]" c] by auto
qed

lemma target_of_nat: "k < 2 ^ 31 \<Longrightarrow> l_target (of_nat k) = k"
proof -
  assume k: "k < 2 ^ 31"
  have s: "sint (of_nat k :: i32) = int k"
    using k by (simp add: sint_uint signed_take_bit_int_eq_self take_bit_nat_eq_self unsigned_of_nat)
  have "(scast (of_nat k :: i32) :: u64) = word_of_int (int k)" by (simp only: scast_eq s)
  then show ?thesis using k by (simp add: l_target_def unsigned_of_nat take_bit_nat_eq_self)
qed

text \<open>Executing code from one address to another, and stopping with an error.\<close>

definition reaches ::
  "fp_ops \<Rightarrow> (thread_state \<Rightarrow> thread_state option) \<Rightarrow> program \<Rightarrow> nat \<Rightarrow> interp \<Rightarrow> nat \<Rightarrow> gvalue list \<Rightarrow> bool" where
  "reaches fp rel prog pc s pc' st \<longleftrightarrow> (\<exists>s'. ip_stack s' = st \<and> ip_safepoint s' = None \<and>
     legacy_loop fp rel prog pc s = legacy_loop fp rel prog pc' s')"

lemma reachesI: "ip_stack s' = st \<Longrightarrow> ip_safepoint s' = None \<Longrightarrow>
    legacy_loop fp rel prog pc s = legacy_loop fp rel prog pc' s' \<Longrightarrow> reaches fp rel prog pc s pc' st"
  by (auto simp: reaches_def)

definition fails :: "fp_ops \<Rightarrow> (thread_state \<Rightarrow> thread_state option) \<Rightarrow> program \<Rightarrow> nat \<Rightarrow> interp \<Rightarrow> (error \<Rightarrow> bool) \<Rightarrow> bool" where
  "fails fp rel prog pc s E \<longleftrightarrow> (\<exists>e s'. legacy_loop fp rel prog pc s = Some (Some (Inl e, s')) \<and> E e)"

lemma step_next: "pc < length prog \<Longrightarrow> legacy_step fp rel pc (prog ! pc) s = Some (L_next s') \<Longrightarrow>
    legacy_loop fp rel prog pc s = legacy_loop fp rel prog (Suc pc) s'"
  by (subst legacy_loop.simps) simp

lemma step_jump: "pc < length prog \<Longrightarrow> legacy_step fp rel pc (prog ! pc) s = Some (L_jump pc' s') \<Longrightarrow>
    legacy_loop fp rel prog pc s = legacy_loop fp rel prog pc' s'"
  by (subst legacy_loop.simps) simp

lemma step_fail: "pc < length prog \<Longrightarrow> legacy_step fp rel pc (prog ! pc) s = Some (L_fail e s') \<Longrightarrow> E e \<Longrightarrow>
    fails fp rel prog pc s E"
  unfolding fails_def by (subst legacy_loop.simps) auto

lemma step_undefined: "pc < length prog \<Longrightarrow> legacy_step fp rel pc (prog ! pc) s = None \<Longrightarrow>
    legacy_loop fp rel prog pc s = Some None"
  by (subst legacy_loop.simps) simp

lemma reaches_trans:
  assumes "reaches fp rel prog pc s pc' st"
    and "\<And>s'. ip_stack s' = st \<Longrightarrow> ip_safepoint s' = None \<Longrightarrow> P (legacy_loop fp rel prog pc' s')"
  shows "P (legacy_loop fp rel prog pc s)"
  using assms by (auto simp: reaches_def)

text \<open>What the code of an expression does.\<close>

definition is_internal :: "error \<Rightarrow> bool" where
  "is_internal e \<longleftrightarrow> error_kind e = Internal"

definition behaves ::
  "fp_ops \<Rightarrow> (thread_state \<Rightarrow> thread_state option) \<Rightarrow> program \<Rightarrow> nat \<Rightarrow> nat \<Rightarrow> interp \<Rightarrow> gvalue list \<Rightarrow> bool \<Rightarrow> i32 result ub \<Rightarrow> bool" where
  "behaves fp rel prog pc pc' s st hit r \<longleftrightarrow>
     (if hit then fails fp rel prog pc s is_internal
      else case r of None \<Rightarrow> legacy_loop fp rel prog pc s = Some None
         | Some (Inl e) \<Rightarrow> fails fp rel prog pc s ((=) e)
         | Some (Inr v) \<Rightarrow> reaches fp rel prog pc s pc' (from_int32 v # st))"

lemma behaves_after:
  assumes "reaches fp rel prog pc s pc1 stk"
    and "\<And>s'. ip_stack s' = stk \<Longrightarrow> ip_safepoint s' = None \<Longrightarrow> behaves fp rel prog pc1 pc' s' st hit r"
  shows "behaves fp rel prog pc pc' s st hit r"
proof -
  obtain s1 where s1: "ip_stack s1 = stk" "ip_safepoint s1 = None"
    "legacy_loop fp rel prog pc s = legacy_loop fp rel prog pc1 s1" using assms(1) by (auto simp: reaches_def)
  show ?thesis using assms(2) [OF s1(1,2)] by (simp only: behaves_def fails_def reaches_def s1(3))
qed

lemma behaves_next:
  assumes "pc < length prog" "legacy_step fp rel pc (prog ! pc) s = Some (L_next s')"
    "ip_stack s' = from_int32 v # st" "ip_safepoint s' = None" "\<not> hit" "pc' = Suc pc"
  shows "behaves fp rel prog pc pc' s st hit (Some (Inr v))"
  using assms(3-6) step_next [OF assms(1,2)] unfolding behaves_def by (auto intro: reachesI)

lemmas step_defs = legacy_step_def l_arith_def l_compare_def l_binary_def ip_pop_def ip_push_def l_test_def from_bool_def
  is_error_def arith_add_def arith_sub_def arith_mul_def arith_div_def wrap_add_i32_def wrap_sub_i32_def wrap_mul_i32_def
  is_int32_def value_equals_def value_eq_def

text \<open>The operation at the end of a binary expression.\<close>

lemma bop_step:
  assumes "pc < length prog" "prog ! pc = ins (bop_op b) 0" "ip_stack s = from_int32 y # from_int32 x # st" "ip_safepoint s = None"
  shows "behaves fp rel prog pc (Suc pc) s st (apply_bop b x y = Some (Inr 0x7FFFFFFF)) (apply_bop b x y)"
proof -
  have same: "(v_payload (from_int32 x) = v_payload (from_int32 y)) = (x = y)"
    by (metis as_int32_def as_int32_from)
  have arith: "behaves fp rel prog pc (Suc pc) s st (r = 0x7FFFFFFF) (Some (Inr r))"
    if "legacy_step fp rel pc (prog ! pc) s = Some (if r = 0x7FFFFFFF then l_internal m s1 else L_next (ip_push (from_int32 r) s1))"
      "ip_stack s1 = st" "ip_safepoint s1 = None" for r m s1
  proof (cases "r = 0x7FFFFFFF")
    case True
    with that have "legacy_step fp rel pc (prog ! pc) s = Some (L_fail (make_error Internal m) s1)"
      by (simp add: l_internal_def)
    from step_fail [OF assms(1) this] show ?thesis using True by (simp add: behaves_def is_internal_def make_error_def)
  next
    case False
    with that show ?thesis by (intro behaves_next [OF assms(1), where s' = "ip_push (from_int32 r) s1"]) (simp_all add: ip_push_def)
  qed
  let ?s = "s\<lparr>ip_stack := st\<rparr>"
  have test: "behaves fp rel prog pc (Suc pc) s st False (Some (Inr (if c then 1 else 0)))"
    if "legacy_step fp rel pc (prog ! pc) s = Some (l_test c ?s)" for c
    using that assms(4) by (intro behaves_next [OF assms(1), where s' = "ip_push (from_bool c) ?s"]) (simp_all add: l_test_def from_bool_def ip_push_def)
  show ?thesis
  proof (cases b)
    case B_Div
    show ?thesis
    proof (cases "y = 0")
      case True
      have "legacy_step fp rel pc (prog ! pc) s = Some (L_fail div_error ?s)"
        using assms B_Div True
        by (simp add: bop_op_def step_defs kErrorVal_def l_internal_def div_error_def)
      from step_fail [OF assms(1) this] show ?thesis using B_Div True by (simp add: behaves_def)
    next
      case nz: False
      show ?thesis
      proof (cases "s_div x y")
        case None
        then have "legacy_step fp rel pc (prog ! pc) s = None"
          using assms B_Div nz by (simp add: bop_op_def step_defs)
        from step_undefined [OF assms(1) this] show ?thesis using B_Div nz None by (simp add: behaves_def)
      next
        case (Some q)
        then show ?thesis
          using arith [of q "''Div: divide by zero or invalid types''" ?s] assms B_Div nz by (simp add: bop_op_def step_defs)
      qed
    qed
  next
    case B_Add
    then show ?thesis using arith [of "x + y" "''Add: invalid operand types''" ?s] assms by (simp add: bop_op_def step_defs)
  next
    case B_Sub
    then show ?thesis using arith [of "x - y" "''Sub: invalid operand types''" ?s] assms by (simp add: bop_op_def step_defs)
  next
    case B_Mul
    then show ?thesis using arith [of "x * y" "''Mul: invalid operand types''" ?s] assms by (simp add: bop_op_def step_defs)
  next
    case B_Eq
    then show ?thesis using test [of "x = y"] assms same by (cases "x = y") (simp_all add: bop_op_def step_defs)
  next
    case B_Lt
    then show ?thesis using test [of "x <s y"] assms
      by (cases "x <s y") (simp_all add: bop_op_def step_defs word_sless_alt)
  qed
qed


text \<open>One piece of code after another.\<close>

lemma behaves_seq:
  assumes "behaves fp rel prog pc pc1 s stk h r"
    and "\<And>x s'. ip_stack s' = from_int32 x # stk \<Longrightarrow> ip_safepoint s' = None \<Longrightarrow> behaves fp rel prog pc1 pc' s' st (h' x) (r' x)"
  shows "behaves fp rel prog pc pc' s st (h \<or> (\<exists>x. r = Some (Inr x) \<and> h' x))
    (case r of None \<Rightarrow> None | Some (Inl e) \<Rightarrow> Some (Inl e) | Some (Inr x) \<Rightarrow> r' x)"
proof (cases h)
  case False
  then show ?thesis
  proof (cases r)
    case (Some q)
    then show ?thesis
    proof (cases q)
      case (Inr x)
      then have "reaches fp rel prog pc s pc1 (from_int32 x # stk)" using assms(1) False Some by (simp add: behaves_def)
      from behaves_after [OF this assms(2)] show ?thesis using False Some Inr by simp
    qed (use assms(1) False Some in \<open>simp add: behaves_def\<close>)
  qed (use assms(1) in \<open>simp add: behaves_def\<close>)
qed (use assms(1) in \<open>simp add: behaves_def\<close>)

lemma behaves_jump:
  assumes "pc < length prog" "legacy_step fp rel pc (prog ! pc) s = Some (L_jump pc' s')"
    "behaves fp rel prog pc' k s' st hit r"
  shows "behaves fp rel prog pc k s st hit r"
  using assms(3) unfolding behaves_def fails_def reaches_def step_jump [OF assms(1,2)] .

text \<open>The jump over the else branch.\<close>

lemma behaves_over:
  assumes "behaves fp rel prog pc pc1 s st hit r" "pc1 < length prog" "prog ! pc1 = ins Op_Jump (of_nat pc')" "pc' < 2 ^ 31"
  shows "behaves fp rel prog pc pc' s st hit r"
proof -
  have "behaves fp rel prog pc1 pc' s' st False (Some (Inr x))"
    if s': "ip_stack s' = from_int32 x # st" "ip_safepoint s' = None" for x and s' :: interp
  proof (rule behaves_jump [OF assms(2)])
    show "legacy_step fp rel pc1 (prog ! pc1) s' = Some (L_jump pc' s')"
      using assms(3) s'(2)
      by (simp add: legacy_step_def l_jump_def l_poll_def poll_safepoint_def target_of_nat [OF assms(4)])
    show "behaves fp rel prog pc' pc' s' st False (Some (Inr x))"
      using s' by (auto simp: behaves_def intro: reachesI)
  qed
  from behaves_seq [OF assms(1), of pc' st "\<lambda>_. False" "\<lambda>x. Some (Inr x)", OF this]
  show ?thesis by (cases r) (auto split: sum.splits)
qed

text \<open>The conditional jump.\<close>

lemma behaves_branch:
  assumes "a < length prog" "prog ! a = ins Op_JumpIfFalse (of_nat k)" "k < 2 ^ 31"
    "ip_stack s = from_int32 x # stk" "ip_safepoint s = None"
    and no: "\<And>s'. ip_stack s' = stk \<Longrightarrow> ip_safepoint s' = None \<Longrightarrow> behaves fp rel prog k q s' stk h1 r1"
    and yes: "\<And>s'. ip_stack s' = stk \<Longrightarrow> ip_safepoint s' = None \<Longrightarrow> behaves fp rel prog (Suc a) q s' stk h2 r2"
  shows "behaves fp rel prog a q s stk (if x \<noteq> 0 then h2 else h1) (if x \<noteq> 0 then r2 else r1)"
proof -
  let ?s2 = "count_total a (s\<lparr>ip_stack := stk\<rparr>)" and ?s3 = "count_taken a (count_total a (s\<lparr>ip_stack := stk\<rparr>))"
  have fields: "ip_stack ?s2 = stk" "ip_safepoint ?s2 = None" "ip_stack ?s3 = stk" "ip_safepoint ?s3 = None"
    using assms(5) by (simp_all add: count_total_def count_taken_def)
  have truth: "truthy (from_int32 x) \<longleftrightarrow> x \<noteq> 0" by (simp add: truthy_def)
  note step = legacy_step_def l_branch_def ip_pop_def l_jump_def l_poll_def poll_safepoint_def
  show ?thesis
  proof (cases "x = 0")
    case True
    then have "legacy_step fp rel a (prog ! a) s = Some (L_jump k ?s3)"
      using assms(4) fields(4) truth by (simp add: assms(2) step target_of_nat [OF assms(3)])
    from behaves_jump [OF assms(1) this no [OF fields(3,4)]] show ?thesis using True by simp
  next
    case False
    then have "legacy_step fp rel a (prog ! a) s = Some (L_next ?s2)"
      using assms(4) truth by (simp add: assms(2) step)
    note eq = step_next [OF assms(1) this]
    show ?thesis using yes [OF fields(1,2)] False unfolding behaves_def fails_def reaches_def by (simp only: eq if_True not_False_eq_True)
  qed
qed

lemma compile_behaves:
  assumes "runs_at prog n (compile n e)" "ip_safepoint s = None"
  shows "behaves fp rel prog n (n + code_size e) s (ip_stack s) (hits_sentinel e) (meaning e)"
  using assms
proof (induction e arbitrary: n s)
  case (Lit v)
  then have "behaves fp rel prog n (Suc n) s (ip_stack s) False (Some (Inr v))"
    by (intro behaves_next [where s' = "ip_push (from_int32 v) s"])
      (simp_all add: runs_at_cons legacy_step_def ip_push_def)
  then show ?case by simp
next
  case (Bin b e f)
  let ?k = "n + code_size e + code_size f"
  have code: "runs_at prog n (compile n e)" "runs_at prog (n + code_size e) (compile (n + code_size e) f)"
    "?k < length prog" "prog ! ?k = ins (bop_op b) 0"
    using Bin.prems(1) by (simp_all add: runs_at_append runs_at_cons add.assoc)
  have "behaves fp rel prog (n + code_size e) (Suc ?k) s1 (ip_stack s)
      (hits_sentinel f \<or> (\<exists>y. meaning f = Some (Inr y) \<and> apply_bop b x y = Some (Inr 0x7FFFFFFF)))
      (case meaning f of None \<Rightarrow> None | Some (Inl e) \<Rightarrow> Some (Inl e) | Some (Inr y) \<Rightarrow> apply_bop b x y)"
    if s1: "ip_stack s1 = from_int32 x # ip_stack s" "ip_safepoint s1 = None" for x and s1 :: interp
  proof (rule behaves_seq [where stk = "ip_stack s1"])
    show "behaves fp rel prog (n + code_size e) ?k s1 (ip_stack s1) (hits_sentinel f) (meaning f)"
      by (rule Bin.IH(2) [OF code(2) s1(2)])
    fix y and s2 :: interp assume "ip_stack s2 = from_int32 y # ip_stack s1" "ip_safepoint s2 = None"
    then show "behaves fp rel prog ?k (Suc ?k) s2 (ip_stack s) (apply_bop b x y = Some (Inr 0x7FFFFFFF)) (apply_bop b x y)"
      using bop_step [OF code(3,4)] s1(1) by simp
  qed
  note seq = behaves_seq [OF Bin.IH(1) [OF code(1) Bin.prems(2)] this]
  have hit: "hits_sentinel (Bin b e f) \<longleftrightarrow> hits_sentinel e \<or> (\<exists>x. meaning e = Some (Inr x) \<and>
      (hits_sentinel f \<or> (\<exists>y. meaning f = Some (Inr y) \<and> apply_bop b x y = Some (Inr 0x7FFFFFFF))))"
    by (auto split: option.splits sum.splits)
  have val: "meaning (Bin b e f) = (case meaning e of None \<Rightarrow> None | Some (Inl e) \<Rightarrow> Some (Inl e) | Some (Inr x) \<Rightarrow>
      (case meaning f of None \<Rightarrow> None | Some (Inl e) \<Rightarrow> Some (Inl e) | Some (Inr y) \<Rightarrow> apply_bop b x y))"
    by (simp split: option.splits sum.splits)
  show ?case unfolding hit val using seq by (simp add: add.assoc)
next
  case (If c e f)
  let ?a = "n + code_size c" and ?b = "n + code_size c + code_size e + 1" and ?k = "n + code_size c + code_size e + 2" and ?q = "n + code_size (If c e f)"
  have code: "runs_at prog n (compile n c)" "?a < length prog" "prog ! ?a = ins Op_JumpIfFalse (of_nat ?k)"
    "runs_at prog (Suc ?a) (compile (Suc ?a) e)" "?b < length prog" "prog ! ?b = ins Op_Jump (of_nat ?q)"
    "runs_at prog ?k (compile ?k f)"
    using If.prems(1)
    by (simp_all add: Let_def runs_at_append runs_at_cons ac_simps numeral_2_eq_2)
  have small: "?k < 2 ^ 31" "?q < 2 ^ 31" using If.prems(1) by (simp_all add: runs_at_def)
  have branch: "behaves fp rel prog ?a ?q s1 (ip_stack s) (if x \<noteq> 0 then hits_sentinel e else hits_sentinel f)
      (if x \<noteq> 0 then meaning e else meaning f)"
    if s1: "ip_stack s1 = from_int32 x # ip_stack s" "ip_safepoint s1 = None" for x and s1 :: interp
  proof (rule behaves_branch [OF code(2,3) small(1) s1])
    fix s2 :: interp assume s2: "ip_stack s2 = ip_stack s" "ip_safepoint s2 = None"
    show "behaves fp rel prog ?k ?q s2 (ip_stack s) (hits_sentinel f) (meaning f)"
      using If.IH(3) [OF code(7) s2(2)] s2(1) by (simp add: ac_simps)
    have "behaves fp rel prog (Suc ?a) ?b s2 (ip_stack s) (hits_sentinel e) (meaning e)"
      using If.IH(2) [OF code(4) s2(2)] s2(1) by simp
    from behaves_over [OF this code(5,6) small(2)]
    show "behaves fp rel prog (Suc ?a) ?q s2 (ip_stack s) (hits_sentinel e) (meaning e)" .
  qed
  note seq = behaves_seq [OF If.IH(1) [OF code(1) If.prems(2)], of ?q "ip_stack s"
      "\<lambda>x. if x \<noteq> 0 then hits_sentinel e else hits_sentinel f" "\<lambda>x. if x \<noteq> 0 then meaning e else meaning f"]
  have hit: "hits_sentinel (If c e f) \<longleftrightarrow> hits_sentinel c \<or> (\<exists>x. meaning c = Some (Inr x) \<and>
      (if x \<noteq> 0 then hits_sentinel e else hits_sentinel f))"
    by (auto split: option.splits sum.splits)
  have val: "meaning (If c e f) = (case meaning c of None \<Rightarrow> None | Some (Inl e) \<Rightarrow> Some (Inl e) | Some (Inr x) \<Rightarrow>
      if x \<noteq> 0 then meaning e else meaning f)"
    by (simp split: option.splits sum.splits)
  show ?case unfolding hit val using seq branch by simp
qed


section \<open>The result of a program\<close>

definition return_program :: "exp \<Rightarrow> program" where
  "return_program e = compile 0 e @ [ins Op_Return 0]"

definition legacy_result ::
  "fp_ops \<Rightarrow> (thread_state \<Rightarrow> thread_state option) \<Rightarrow> program \<Rightarrow> gvalue result ub option" where
  "legacy_result fp rel prog = map_option (map_option fst) (legacy_run fp rel prog new_interp)"

lemma return_step: "n < length prog \<Longrightarrow> prog ! n = ins Op_Return 0 \<Longrightarrow> ip_stack s = v # stk \<Longrightarrow> ip_safepoint s = None \<Longrightarrow>
    \<exists>s'. legacy_loop fp rel prog n s = Some (Some (Inr v, s'))"
  by (subst legacy_loop.simps) (simp add: legacy_step_def ip_result_def ip_pop_def l_poll_def poll_safepoint_def)

text \<open>C35: A conditional expression over 32-bit integers, compiled to the legacy bytecode, runs to its end and
  gives the value or the error that the expression means, except when an operation yields \<open>0x7FFFFFFF\<close>
  before anything fails: then a correct result is reported as an internal error.\<close>

theorem legacy_runs_expressions:
  assumes "code_size e + 1 < 2 ^ 31"
  shows "\<exists>r. legacy_result fp rel (return_program e) = Some r \<and>
    (if hits_sentinel e then \<exists>err. r = Some (Inl err) \<and> error_kind err = Internal
     else r = map_option (map_sum id from_int32) (meaning e))"
proof -
  let ?p = "return_program e" and ?s = "new_interp\<lparr>ip_feedback := size_feedback (length (return_program e)) (ip_feedback new_interp)\<rparr>"
  have start: "legacy_run fp rel ?p new_interp = legacy_loop fp rel ?p 0 ?s"
    by (simp add: legacy_run_def return_program_def)
  have s: "ip_stack ?s = []" "ip_safepoint ?s = None" by (simp_all add: new_interp_def)
  have "runs_at ?p 0 ?p" using assms by (simp add: runs_at_def return_program_def)
  then have code: "runs_at ?p 0 (compile 0 e)" "code_size e < length ?p" "?p ! code_size e = ins Op_Return 0"
    by (simp_all add: return_program_def runs_at_append runs_at_cons)
  have "behaves fp rel ?p 0 (code_size e) ?s [] (hits_sentinel e) (meaning e)"
    using compile_behaves [OF code(1) s(2)] s(1) by simp
  then show ?thesis
    using return_step [OF code(2,3)]
    by (fastforce simp: behaves_def fails_def reaches_def is_internal_def legacy_result_def start
        split: if_splits option.splits sum.splits)
qed

text \<open>The least value that goes wrong, and a division by zero behind a test.\<close>

definition fits :: exp where
  "fits = If (Bin B_Lt (Lit 1) (Lit 2)) (Bin B_Mul (Lit 6) (Lit 7)) (Bin B_Div (Lit 1) (Lit 0))"

theorem legacy_runs_expressions_witness:
  "\<forall>fp. (\<exists>err. legacy_result fp Some (return_program (Bin B_Add (Lit 0x7FFFFFFE) (Lit 1))) = Some (Some (Inl err))
     \<and> error_kind err = Internal) \<and> legacy_result fp Some (return_program fits) = Some (Some (Inr (from_int32 42)))"
proof (intro allI conjI)
  fix fp
  show "\<exists>err. legacy_result fp Some (return_program (Bin B_Add (Lit 0x7FFFFFFE) (Lit 1))) = Some (Some (Inl err))
     \<and> error_kind err = Internal"
  proof -
    let ?e = "Bin B_Add (Lit 0x7FFFFFFE) (Lit 1)"
    have h: "hits_sentinel ?e" "code_size ?e + 1 < 2 ^ 31" by simp_all
    show ?thesis using legacy_runs_expressions [OF h(2), of fp Some] unfolding if_P [OF h(1)] by blast
  qed
  have "meaning fits = Some (Inr 42)" "\<not> hits_sentinel fits" by code_simp+
  moreover have "code_size fits + 1 < 2 ^ 31" by (simp add: fits_def)
  ultimately show "legacy_result fp Some (return_program fits) = Some (Some (Inr (from_int32 42)))"
    using legacy_runs_expressions [of fits fp Some] by simp
qed

end
