(* ===== verification/Graph_Growth.thy ===== *)
theory Graph_Growth
  imports Ir_Semantics
begin

text \<open>
  The passes that add nodes: a graph that only grows keeps every node it had, and what a change of inputs
  and payloads has to respect so that values survive.
\<close>

section \<open>Growing a graph\<close>

definition appends :: "graph \<Rightarrow> graph \<Rightarrow> bool" where
  "appends g h \<longleftrightarrow> graph_wf h \<and> g_size g \<le> g_size h \<and> (\<forall>j. in_graph g j \<longrightarrow> view h j = view g j)"

lemma appends_refl: "graph_wf g \<Longrightarrow> appends g g"
  by (simp add: appends_def)

lemma appends_in: "appends g h \<Longrightarrow> in_graph g j \<Longrightarrow> in_graph h j"
  by (simp add: appends_def in_graph_def)

lemma appends_trans: "appends f g \<Longrightarrow> appends g h \<Longrightarrow> appends f h"
  unfolding appends_def in_graph_def by auto

lemma appends_wf: "appends g h \<Longrightarrow> graph_wf h"
  by (simp add: appends_def)

lemma view_parts:
  assumes "view h j = view g i"
  shows "n_kind (node h j) = n_kind (node g i)" "n_flags (node h j) = n_flags (node g i)"
    "data_inputs h j = data_inputs g i" "ctrl_input h j = ctrl_input g i" "effect_input h j = effect_input g i"
    "side h j = side g i" "n_type (node h j) = n_type (node g i)" "n_state (node h j) = n_state (node g i)"
  using assms by (simp_all add: view_def)

lemma appends_create_with: "graph_wf g \<Longrightarrow> appends g (snd (create_with k ins c e g))"
  by (auto simp: appends_def graph_wf view_create_with in_graph_def)

lemma appends_create: "graph_wf g \<Longrightarrow> appends g (snd (create k g))"
  by (auto simp: appends_def graph_wf view_create in_graph_def)

text \<open>Working on the nodes that were added.\<close>

lemma view_upd_side_other: "j \<noteq> i \<Longrightarrow> in_graph g i \<Longrightarrow> in_graph g j \<Longrightarrow> view (upd_side i f g) j = view g j"
proof -
  assume "j \<noteq> i" "in_graph g i" "in_graph g j"
  then have "side (upd_side i f g) j = side g j" by (auto simp: side_def upd_side_def in_graph_def)
  then show ?thesis by (simp add: view_def)
qed

lemma appends_set_ctrl: "appends g h \<Longrightarrow> in_graph h i \<Longrightarrow> \<not> in_graph g i \<Longrightarrow> appends g (set_ctrl_input i c h)"
  unfolding appends_def by (auto simp: graph_wf view_set_ctrl_input in_graph_def)

lemma appends_set_effect: "appends g h \<Longrightarrow> in_graph h i \<Longrightarrow> \<not> in_graph g i \<Longrightarrow> appends g (set_effect_input i c h)"
  unfolding appends_def by (auto simp: graph_wf view_set_effect_input in_graph_def)

lemma appends_upd_side: "appends g h \<Longrightarrow> in_graph h i \<Longrightarrow> \<not> in_graph g i \<Longrightarrow> appends g (upd_side i f h)"
  unfolding appends_def using view_upd_side_other [of _ i h f] by (auto simp: graph_wf in_graph_def)

lemma appends_upd_node:
  assumes "appends g h" "in_graph h i" "\<not> in_graph g i"
    and "n_data_inputs (f (node h i)) = n_data_inputs (node h i)" "n_ctrl_input (f (node h i)) = n_ctrl_input (node h i)"
      "n_effect_input (f (node h i)) = n_effect_input (node h i)"
  shows "appends g (upd_node i f h)"
proof -
  have "view (upd_node i f h) j = view h j" if "in_graph g j" for j
    using that assms appends_in [OF assms(1) that] unfolding view_def
    by (auto simp: node_upd data_inputs_upd_same)
  then show ?thesis using assms by (simp add: appends_def wf_upd_node_slices)
qed

lemma appends_const_int: "graph_wf g \<Longrightarrow> appends g (snd (create_const_int v g))"
  unfolding create_const_int_def
  by (subst create_pair)
    (auto simp: or_flags_def in_graph_def intro!: appends_upd_side appends_upd_node appends_create)

lemma const_int_pair: "create_const_int v g = (g_size g + 1, snd (create_const_int v g))"
  unfolding create_const_int_def by (subst create_pair, subst (2) create_pair) (simp add: Let_def)

section \<open>Values\<close>

lemma eval_forward:
  assumes "\<And>j. in_graph g j \<Longrightarrow> in_graph h j"
    and "\<And>j vs v. in_graph g j \<Longrightarrow> F (n_kind (node g j)) (side g j) vs = Some v \<Longrightarrow> F (n_kind (node h j)) (side h j) vs = Some v"
    and "\<And>j. in_graph g j \<Longrightarrow> list_all2 (\<lambda>x y. y = x \<or> (\<forall>v. \<not> eval F g x v)) (data_inputs g j) (data_inputs h j)"
  shows "eval F g i v \<Longrightarrow> eval F h i v"
proof (induction rule: eval.induct)
  case (evalI i vs v)
  have len: "length (data_inputs h i) = length (data_inputs g i)"
    using assms(3) [OF evalI.hyps(1)] by (simp add: list_all2_lengthD)
  have vs: "length vs = length (data_inputs g i)" using evalI.IH by (simp add: list_all2_lengthD)
  have "eval F h (data_inputs h i ! n) (vs ! n)" if "n < length vs" for n
  proof -
    have x: "eval F g (data_inputs g i ! n) (vs ! n) \<and> eval F h (data_inputs g i ! n) (vs ! n)"
      using evalI.IH that by (simp add: list_all2_conv_all_nth)
    moreover have "data_inputs h i ! n = data_inputs g i ! n \<or> (\<forall>v. \<not> eval F g (data_inputs g i ! n) v)"
      using assms(3) [OF evalI.hyps(1)] that vs by (simp add: list_all2_conv_all_nth)
    ultimately show ?thesis by auto
  qed
  then have "list_all2 (eval F h) (data_inputs h i) vs" using len vs by (simp add: list_all2_conv_all_nth)
  then show ?case using assms(1,2) evalI.hyps by (blast intro: eval.evalI)
qed

lemma appends_eval:
  assumes "appends g h" "eval F g i v"
  shows "eval F h i v"
proof (rule eval_forward [OF _ _ _ assms(2)])
  fix j assume j: "in_graph g j"
  then have same: "view h j = view g j" using assms(1) by (simp add: appends_def)
  show "in_graph h j" by (rule appends_in [OF assms(1) j])
  show "F (n_kind (node h j)) (side h j) vs = Some v" if "F (n_kind (node g j)) (side g j) vs = Some v" for vs v
    using that view_parts [OF same] by simp
  show "list_all2 (\<lambda>x y. y = x \<or> (\<forall>v. \<not> eval F g x v)) (data_inputs g j) (data_inputs h j)"
    using view_parts(3) [OF same] by (simp add: list_all2_same)
qed

text \<open>Backwards when no node refers past the end of the graph.\<close>

definition inputs_inside :: "graph \<Rightarrow> bool" where
  "inputs_inside g \<longleftrightarrow> (\<forall>j. in_graph g j \<longrightarrow> (\<forall>x \<in> set (data_inputs g j). x \<le> g_size g))"

lemma appends_eval_back:
  assumes "appends g h" "inputs_inside g"
  shows "eval F h i v \<Longrightarrow> in_graph g i \<Longrightarrow> eval F g i v"
proof (induction rule: eval.induct)
  case (evalI i vs v)
  have same: "view h i = view g i" using assms(1) evalI.prems by (simp add: appends_def)
  have "list_all2 (eval F g) (data_inputs g i) vs"
  proof (rule list_all2_all_nthI)
    fix n assume n: "n < length (data_inputs g i)"
    have "eval F h (data_inputs g i ! n) (vs ! n) \<and> (in_graph g (data_inputs g i ! n) \<longrightarrow> eval F g (data_inputs g i ! n) (vs ! n))"
      using evalI.IH n view_parts(3) [OF same] by (simp add: list_all2_conv_all_nth)
    moreover from this have "in_graph h (data_inputs g i ! n)" by (auto elim: evalE)
    moreover have "data_inputs g i ! n \<le> g_size g" using assms(2) evalI.prems n by (simp add: inputs_inside_def)
    ultimately show "eval F g (data_inputs g i ! n) (vs ! n)" by (simp add: in_graph_def)
  qed (use evalI.IH view_parts(3) [OF same] in \<open>simp add: list_all2_lengthD\<close>)
  then show ?case using evalI.prems evalI.hyps view_parts [OF same] by (auto intro: eval.evalI)
qed

section \<open>Passes that may only add values\<close>

definition gains_values :: "graph \<Rightarrow> graph \<Rightarrow> bool" where
  "gains_values g h \<longleftrightarrow> graph_wf h \<and> g_size g \<le> g_size h \<and> (\<forall>i v. eval int_sem g i v \<longrightarrow> eval int_sem h i v)"

lemma gains_refl: "graph_wf g \<Longrightarrow> gains_values g g"
  by (simp add: gains_values_def)

lemma gains_trans: "gains_values f g \<Longrightarrow> gains_values g h \<Longrightarrow> gains_values f h"
  by (simp add: gains_values_def)

lemma gains_appends: "appends g h \<Longrightarrow> gains_values g h"
  unfolding gains_values_def using appends_eval [of g h int_sem] appends_def [of g h] by blast

lemma gains_wf: "gains_values g h \<Longrightarrow> graph_wf h"
  by (simp add: gains_values_def)

lemma gains_in: "gains_values g h \<Longrightarrow> in_graph g j \<Longrightarrow> in_graph h j"
  by (simp add: gains_values_def in_graph_def)

text \<open>Kinds that have no integer value.\<close>

definition valueless :: "node_kind \<Rightarrow> bool" where
  "valueless k \<longleftrightarrow> (\<forall>s vs. int_sem k s vs = None)"

lemma valueless_eval: "valueless (n_kind (node g i)) \<Longrightarrow> \<not> eval int_sem g i v"
  by (auto simp: valueless_def elim: evalE)

lemma valueless_kinds:
  "valueless NK_Box" "valueless NK_Unbox" "valueless NK_UnboxAny" "valueless NK_LdFld" "valueless NK_LoadField"
  "valueless NK_Allocate" "valueless NK_NewObj" "valueless NK_NewArr" "valueless NK_StFld" "valueless NK_StoreField"
  "valueless NK_VectorOp" "valueless NK_VectorExtract" "valueless NK_Materialize"
  "valueless NK_Call" "valueless NK_CallVirt" "valueless NK_CallKnown"
  by (auto simp: valueless_def int_sem_def split: list.splits)

text \<open>The elementary changes.\<close>

lemma gains_same_code:
  assumes "graph_wf h" "g_size h = g_size g" "\<And>j. in_graph g j \<Longrightarrow> n_kind (node h j) = n_kind (node g j)"
    "\<And>j. in_graph g j \<Longrightarrow> data_inputs h j = data_inputs g j"
    "\<And>j. in_graph g j \<Longrightarrow> n_kind (node g j) = NK_ConstInt \<Longrightarrow> side h j = side g j"
  shows "gains_values g h"
  unfolding gains_values_def
proof (intro conjI allI impI)
  fix i v assume v: "eval int_sem g i v"
  show "eval int_sem h i v"
  proof (rule eval_forward [OF _ _ _ v])
    show "in_graph h j" if "in_graph g j" for j using that assms(2) by (simp add: in_graph_def)
    show "int_sem (n_kind (node h j)) (side h j) vs = Some w"
      if "in_graph g j" "int_sem (n_kind (node g j)) (side g j) vs = Some w" for j vs w
      using that assms(3,5) [OF that(1)] int.payload [of "n_kind (node g j)" "side g j" vs "side h j"]
      by (cases "n_kind (node g j) = NK_ConstInt") auto
    show "list_all2 (\<lambda>x y. y = x \<or> (\<forall>v. \<not> eval int_sem g x v)) (data_inputs g j) (data_inputs h j)"
      if "in_graph g j" for j using that assms(4) by (simp add: list_all2_same)
  qed
qed (use assms in simp_all)

lemma gains_mark_dead: "graph_wf g \<Longrightarrow> in_graph g i \<Longrightarrow> gains_values g (mark_dead i g)"
  by (rule gains_same_code) (auto simp: graph_wf graph_simps or_flags_def)

lemma gains_set_effect: "graph_wf g \<Longrightarrow> in_graph g i \<Longrightarrow> gains_values g (set_effect_input i c g)"
proof (rule gains_same_code)
  assume g: "graph_wf g" "in_graph g i"
  then show "graph_wf (set_effect_input i c g)" by (simp add: graph_wf)
  fix j assume "in_graph g j"
  then have "view (set_effect_input i c g) j = (if j = i then (view g j)\<lparr>v_effect := c\<rparr> else view g j)"
    using g by (simp add: view_set_effect_input)
  then show "n_kind (node (set_effect_input i c g) j) = n_kind (node g j)"
    "data_inputs (set_effect_input i c g) j = data_inputs g j" "side (set_effect_input i c g) j = side g j"
    by (auto simp: view_def split: if_splits)
qed simp

lemma gains_rewire:
  assumes "graph_wf h" "g_size h = g_size g" "valueless (n_kind (node g a))"
    "\<And>j. in_graph g j \<Longrightarrow> n_kind (node h j) = n_kind (node g j) \<and> side h j = side g j"
    "\<And>j. in_graph g j \<Longrightarrow> list_all2 (\<lambda>x y. y = x \<or> x = a) (data_inputs g j) (data_inputs h j)"
  shows "gains_values g h"
  unfolding gains_values_def
proof (intro conjI allI impI)
  fix i v assume v: "eval int_sem g i v"
  show "eval int_sem h i v"
  proof (rule eval_forward [OF _ _ _ v])
    show "in_graph h j" if "in_graph g j" for j using that assms(2) by (simp add: in_graph_def)
    show "list_all2 (\<lambda>x y. y = x \<or> (\<forall>v. \<not> eval int_sem g x v)) (data_inputs g j) (data_inputs h j)"
      if "in_graph g j" for j
      by (rule list_all2_mono [OF assms(5) [OF that]]) (use valueless_eval [OF assms(3)] in auto)
  qed (use assms(4) in auto)
qed (use assms in simp_all)

lemma gains_replace_all:
  assumes "graph_wf g" "valueless (n_kind (node g a))"
  shows "gains_values g (replace_all_uses a b g)"
proof (rule gains_rewire [OF _ _ assms(2)])
  show "list_all2 (\<lambda>x y. y = x \<or> x = a) (data_inputs g j) (data_inputs (replace_all_uses a b g) j)"
    if "in_graph g j" for j
    using assms(1) that by (auto simp: inputs_replace_all_uses list_all2_map2 subst_id_def intro: list_all2_refl)
qed (use assms in \<open>simp_all add: graph_wf\<close>)

end
