(* ===== verification/Loop_Unrolling.thy ===== *)
theory Loop_Unrolling
  imports Graph_Growth Build_Regions Sweeps
begin

text \<open>
  \<^verbatim>\<open>tier3_diamond/LoopUnrolling.cpp\<close>: the cost model and the clones of a loop body. Node counts are natural
  numbers; the graph has fewer nodes than an \<^verbatim>\<open>uint32_t\<close> counts.
\<close>

section \<open>The pass\<close>

definition kMaxUnrollBudget :: nat where "kMaxUnrollBudget = 256"

definition kMinBodySize :: nat where "kMinBodySize = 3"

definition kMaxBodySize :: nat where "kMaxBodySize = 20"

definition kDefaultUnrollFactor :: nat where "kDefaultUnrollFactor = 2"

text \<open>The blocks the two loops visit: from the header up to the first one with an edge back to it.\<close>

fun loop_blocks :: "block_structure \<Rightarrow> nat \<Rightarrow> nat list \<Rightarrow> nat list" where
  "loop_blocks bs header [] = []"
| "loop_blocks bs header (b # rest) =
     (let block = bs_blocks bs ! b
      in if \<not> id_valid (bb_leader block) then loop_blocks bs header rest
         else b # (if header \<in> set (bb_succs block) then [] else loop_blocks bs header rest))"

definition live_in_block :: "graph \<Rightarrow> block_structure \<Rightarrow> nat \<Rightarrow> node_id list" where
  "live_in_block g bs b = filter (\<lambda>nid. \<not> node_is_dead (node g nid) \<and> block_of bs nid = b) (node_ids g)"

definition count_loop_body :: "graph \<Rightarrow> block_structure \<Rightarrow> nat \<Rightarrow> nat" where
  "count_loop_body g bs header =
     sum_list (map (\<lambda>b. length (live_in_block g bs b)) (loop_blocks bs header [header..<num_blocks bs]))"

definition body_nodes :: "graph \<Rightarrow> block_structure \<Rightarrow> nat \<Rightarrow> node_id list" where
  "body_nodes g bs header =
     concat (map (\<lambda>b. filter (\<lambda>nid. n_kind (node g nid) \<noteq> NK_Loop \<and> n_kind (node g nid) \<noteq> NK_Jump) (live_in_block g bs b))
       (loop_blocks bs header [header..<num_blocks bs]))"

type_synonym clone_map = "node_id \<rightharpoonup> node_id"

definition cloned :: "clone_map \<Rightarrow> node_id \<Rightarrow> node_id" where
  "cloned m i = (case m i of Some c \<Rightarrow> c | None \<Rightarrow> i)"

definition clone_node :: "node_id \<Rightarrow> clone_map \<times> graph \<Rightarrow> clone_map \<times> graph" where
  "clone_node orig s =
     (let (m, g) = s;
          (clone, g1) = create_with (n_kind (node g orig)) (map (cloned m) (data_inputs g orig)) 0 0 g;
          g2 = upd_side clone (\<lambda>_. side g1 orig) g1;
          ctrl = ctrl_input g2 orig;
          g3 = (if id_valid ctrl then set_ctrl_input clone (cloned m ctrl) g2 else g2);
          eff = effect_input g3 orig;
          g4 = (if id_valid eff then set_effect_input clone (cloned m eff) g3 else g3)
      in (m(orig \<mapsto> clone), g4))"

definition unroll_factor :: "nat \<Rightarrow> nat" where
  "unroll_factor body_size =
     (if body_size * kDefaultUnrollFactor > kMaxUnrollBudget then kMaxUnrollBudget div body_size else kDefaultUnrollFactor)"

definition unroll_loop :: "block_structure \<Rightarrow> basic_block \<Rightarrow> bool \<times> graph \<Rightarrow> bool \<times> graph" where
  "unroll_loop bs bb s =
     (let g = snd s; header = bb_id bb; body_size = count_loop_body g bs header
      in if \<not> bb_is_loop_header bb then s
         else if body_size < kMinBodySize then s
         else if body_size > kMaxBodySize then s
         else if unroll_factor body_size < 2 then s
         else let body = body_nodes g bs header
           in if body = [] then s else (True, snd (fold clone_node body (Map.empty, g))))"

definition loop_unrolling_run :: "bool \<Rightarrow> graph \<Rightarrow> (graph \<times> unit result) option" where
  "loop_unrolling_run debug g =
     (case build_block_structure g of None \<Rightarrow> None
      | Some bs \<Rightarrow> if bs_blocks bs = [] then Some (g, Inr ())
          else let s = fold (unroll_loop bs) (bs_blocks bs) (False, g)
            in Some (snd s, if fst s then verify_if_enabled debug (snd s) else Inr ()))"

text \<open>The cost model leaves the factor alone: its budget is never exceeded by a body small enough.\<close>

lemma unroll_factor_two: "body_size \<le> kMaxBodySize \<Longrightarrow> unroll_factor body_size = 2"
  by (simp add: unroll_factor_def kMaxBodySize_def kMaxUnrollBudget_def kDefaultUnrollFactor_def)

section \<open>Nothing but new nodes\<close>

lemma create_with_pair: "create_with k ins c e g = (g_size g + 1, snd (create_with k ins c e g))"
  by (simp add: prod_eq_iff)

lemma clone_appends:
  assumes "graph_wf (snd s)"
  shows "appends (snd s) (snd (clone_node orig s))"
proof -
  obtain m g where s: "s = (m, g)" by (cases s)
  let ?c = "snd (create_with (n_kind (node g orig)) (map (cloned m) (data_inputs g orig)) 0 0 g)"
  let ?new = "g_size g + 1"
  have c: "appends g ?c" "in_graph ?c ?new" "\<not> in_graph g ?new"
    using assms s by (simp_all add: appends_create_with) (simp add: in_graph_def)
  have ctrl: "appends g (if b then set_ctrl_input ?new x h else h)" "in_graph (if b then set_ctrl_input ?new x h else h) ?new"
    and eff: "appends g (if b then set_effect_input ?new x h else h)"
    if "appends g h" "in_graph h ?new" for b x h
    using that c(3) appends_set_ctrl appends_set_effect by auto
  have "appends g (upd_side ?new f ?c)" "in_graph (upd_side ?new f ?c) ?new" for f
    using c appends_upd_side by auto
  note g2 = this
  show ?thesis
    unfolding s clone_node_def snd_conv
    by (subst create_with_pair) (simp only: Let_def prod.case snd_conv eff ctrl g2)
qed

lemma fold_appends:
  assumes "\<And>x s. graph_wf (snd s) \<Longrightarrow> appends (snd s) (snd (step x s))"
  shows "graph_wf (snd s) \<Longrightarrow> appends (snd s) (snd (fold step xs s))"
proof (induction xs arbitrary: s)
  case (Cons x xs)
  have "appends (snd s) (snd (step x s))" by (rule assms [OF Cons.prems])
  then show ?case using Cons.IH [OF appends_wf] appends_trans by fastforce
qed (simp add: appends_refl)

lemma unroll_loop_appends: "graph_wf (snd s) \<Longrightarrow> appends (snd s) (snd (unroll_loop bs bb s))"
  using fold_appends [of clone_node "(Map.empty, snd s)"] clone_appends
  by (auto simp: unroll_loop_def Let_def appends_refl)

lemma loop_unrolling_appends:
  assumes "graph_wf g" "loop_unrolling_run debug g = Some (h, r)"
  shows "appends g h"
proof -
  obtain bs where bs: "build_block_structure g = Some bs"
    using assms(2) by (cases "build_block_structure g") (simp_all add: loop_unrolling_run_def)
  have "appends (snd (False, g)) (snd (fold (unroll_loop bs) (bs_blocks bs) (False, g)))"
    by (rule fold_appends) (use unroll_loop_appends assms(1) in auto)
  moreover have "h = g \<or> h = snd (fold (unroll_loop bs) (bs_blocks bs) (False, g))"
    using assms(2) bs by (auto simp: loop_unrolling_run_def Let_def split: if_splits)
  ultimately show ?thesis using appends_refl [OF assms(1)] by auto
qed

text \<open>C38: Loop unrolling only adds nodes: every node of the graph keeps all its fields and inputs, so none of
  them refers to a clone, the program never enters the unrolled copy, and every value is as before.\<close>

theorem loop_unrolling_inert:
  assumes "graph_wf g" "inputs_inside g" "loop_unrolling_run debug g = Some (h, r)" "in_graph g i"
  shows "view h i = view g i \<and> (\<forall>x \<in> set (data_inputs h i). \<not> g_size g < x) \<and> (eval int_sem h i v \<longleftrightarrow> eval int_sem g i v)"
proof -
  note app = loop_unrolling_appends [OF assms(1,3)]
  have same: "view h i = view g i" using app assms(4) by (simp add: appends_def)
  have "\<forall>x \<in> set (data_inputs h i). \<not> g_size g < x"
    unfolding view_parts(3) [OF same] using assms(2,4) by (auto simp: inputs_inside_def not_less)
  moreover have "eval int_sem h i v \<longleftrightarrow> eval int_sem g i v"
    by (rule iffI) (erule appends_eval_back [OF app assms(2) _ assms(4)], erule appends_eval [OF app])
  ultimately show ?thesis using same by simp
qed


text \<open>A loop that adds and stores: the store is cloned too, as a node with an effect that no pass removes.\<close>

definition ex_node :: "node_kind \<Rightarrow> u16 \<Rightarrow> nat \<Rightarrow> nat \<Rightarrow> node" where
  "ex_node k f first cnt = default_node\<lparr>n_kind := k, n_flags := f, n_data_inputs := \<lparr>first_edge = first, edge_count = cnt\<rparr>\<rparr>"

definition ex_unroll :: graph where
  "ex_unroll = \<lparr>g_nodes = [ex_node NK_Start 4 0 0, ex_node NK_ConstInt 257 0 0, ex_node NK_NewObj 2 0 0, ex_node NK_Loop 4 0 0,
       ex_node NK_Add 1 0 2, ex_node NK_StoreField 2 2 2, ex_node NK_Jump 4 4 0],
     g_sides = replicate 7 (default_side\<lparr>const_value := 2\<rparr>), g_pool = [2, 2, 3, 5], g_start = 1\<rparr>"

lemma ex_unroll_body:
  "map_option (\<lambda>bs. (map bb_id (bs_blocks bs), map bb_is_loop_header (bs_blocks bs), count_loop_body ex_unroll bs 1,
     body_nodes ex_unroll bs 1)) (build_block_structure ex_unroll) = Some ([0, 1], [False, True], 4, [5, 6])"
  by code_simp

lemma ex_unroll_wf: "graph_wf ex_unroll" "inputs_inside ex_unroll" "in_graph ex_unroll 5"
proof -
  have "list_all (\<lambda>j. list_all (\<lambda>x. x \<le> g_size ex_unroll) (data_inputs ex_unroll j)) [1..<8]" by code_simp
  moreover have "in_graph ex_unroll j \<longleftrightarrow> j \<in> set [1..<8]" for j by (auto simp: in_graph_def g_size_def ex_unroll_def)
  ultimately show "inputs_inside ex_unroll" unfolding inputs_inside_def list_all_iff by blast
qed (code_simp, code_simp)

lemma clone_size: "g_size (snd (clone_node orig s)) = g_size (snd s) + 1"
  unfolding clone_node_def by (cases s, simp only: prod.case, subst create_with_pair) (simp add: Let_def)

lemma clones_size: "g_size (snd (fold clone_node xs s)) = g_size (snd s) + length xs"
  by (induction xs arbitrary: s) (simp_all add: clone_size)

lemma ex_unroll_run: "\<exists>h. loop_unrolling_run False ex_unroll = Some (h, Inr ()) \<and> g_size h = 9"
proof -
  obtain bs where bs: "build_block_structure ex_unroll = Some bs" and at: "map bb_id (bs_blocks bs) = [0, 1]"
    "map bb_is_loop_header (bs_blocks bs) = [False, True]" "count_loop_body ex_unroll bs 1 = 4" "body_nodes ex_unroll bs 1 = [5, 6]"
    using ex_unroll_body by auto
  obtain b0 b1 where bl: "bs_blocks bs = [b0, b1]" "bb_id b1 = 1" "\<not> bb_is_loop_header b0" "bb_is_loop_header b1"
    using at(1,2) by (auto simp: map_eq_Cons_conv)
  have "unroll_loop bs b0 (False, ex_unroll) = (False, ex_unroll)" using bl(3) by (simp add: unroll_loop_def Let_def)
  moreover have "unroll_loop bs b1 (False, ex_unroll) = (True, snd (fold clone_node [5, 6] (Map.empty, ex_unroll)))"
    using bl(2,4) at(3,4) by (simp add: unroll_loop_def Let_def kMinBodySize_def kMaxBodySize_def unroll_factor_def
        kDefaultUnrollFactor_def kMaxUnrollBudget_def)
  ultimately have "loop_unrolling_run False ex_unroll = Some (snd (fold clone_node [5, 6] (Map.empty, ex_unroll)), Inr ())"
    using bs bl(1) by (simp add: loop_unrolling_run_def Let_def verify_if_enabled_def)
  then show ?thesis using clones_size [of "[5, 6]" "(Map.empty, ex_unroll)"] by (auto simp: g_size_def ex_unroll_def)
qed

theorem loop_unrolling_inert_witness:
  "\<exists>h. loop_unrolling_run False ex_unroll = Some (h, Inr ()) \<and> g_size h = 9 \<and> eval int_sem h 5 4"
proof -
  obtain h where h: "loop_unrolling_run False ex_unroll = Some (h, Inr ())" "g_size h = 9" using ex_unroll_run by blast
  have "eval int_sem ex_unroll 2 2"
    by (rule eval.evalI [where vs = "[]"]) (simp_all add: in_graph_def g_size_def node_def side_def data_inputs_def
        pool_get_def ex_unroll_def ex_node_def int_sem_def)
  then have "eval int_sem ex_unroll 5 4"
    by (intro eval.evalI [where vs = "[2, 2]"]) (simp_all add: in_graph_def g_size_def node_def side_def data_inputs_def
        pool_get_def ex_unroll_def ex_node_def int_sem_def)
  then show ?thesis using loop_unrolling_inert [OF ex_unroll_wf(1,2) h(1) ex_unroll_wf(3)] h by blast
qed

end
