(* ===== verification/Slp.thy ===== *)
theory Slp
  imports Graph_Growth Sweeps Loop_Unrolling
begin

text \<open>
  \<^verbatim>\<open>tier3_diamond/SLP.cpp\<close>: packing nodes of one kind into a vector operation, and what it does to values.
\<close>

section \<open>The pass\<close>

definition is_packable :: "node_kind \<Rightarrow> bool" where
  "is_packable k \<longleftrightarrow> k \<in> set [NK_Add, NK_Sub, NK_Mul, NK_And, NK_Or, NK_Xor]"

definition are_independent :: "graph \<Rightarrow> node_id \<Rightarrow> node_id \<Rightarrow> bool" where
  "are_independent g a b = (if a = b then False else if a \<in> set (data_inputs g b) then False
     else b \<notin> set (data_inputs g a))"

text \<open>The map from kinds to nodes as the pairs in order of their first insertion.\<close>

fun add_to_group :: "node_kind \<Rightarrow> node_id \<Rightarrow> (node_kind \<times> node_id list) list \<Rightarrow> (node_kind \<times> node_id list) list" where
  "add_to_group k nid [] = [(k, [nid])]"
| "add_to_group k nid ((k', nodes) # rest) =
     (if k = k' then (k', nodes @ [nid]) # rest else (k', nodes) # add_to_group k nid rest)"

definition packable_node :: "graph \<Rightarrow> node_id \<Rightarrow> bool" where
  "packable_node g nid =
     (let n = node g nid
      in if node_is_dead n then False else if \<not> node_is_pure n then False
         else if \<not> is_packable (n_kind n) then False else length (data_inputs g nid) = 2)"

definition by_kind :: "graph \<Rightarrow> (node_kind \<times> node_id list) list" where
  "by_kind g = fold (\<lambda>nid groups. if packable_node g nid then add_to_group (n_kind (node g nid)) nid groups else groups)
     (node_ids g) []"

text \<open>The greedy choice: it stops at four nodes.\<close>

fun greedy_pack :: "graph \<Rightarrow> node_id list \<Rightarrow> node_id list \<Rightarrow> node_id list" where
  "greedy_pack g pack [] = pack"
| "greedy_pack g pack (c # cs) =
     (if node_is_dead (node g c) then greedy_pack g pack cs
      else if list_all (\<lambda>p. are_independent g c p) pack
      then if length (pack @ [c]) = 4 then pack @ [c] else greedy_pack g (pack @ [c]) cs
      else greedy_pack g pack cs)"

definition extract_lane :: "node_id \<Rightarrow> nat \<Rightarrow> nat \<Rightarrow> node_id \<Rightarrow> graph \<Rightarrow> graph" where
  "extract_lane vec_op lanes lane packed_node g =
     (if node_is_dead (node g packed_node) then g
      else let (extract, g1) = create_with NK_VectorExtract [vec_op] 0 0 g;
               g2 = upd_side extract (\<lambda>s. s\<lparr>vector_lane := of_nat lane, vector_lanes := of_nat lanes\<rparr>) g1
        in mark_dead packed_node (replace_all_uses packed_node extract g2))"

fun extract_lanes :: "node_id \<Rightarrow> nat \<Rightarrow> nat \<Rightarrow> node_id list \<Rightarrow> graph \<Rightarrow> graph" where
  "extract_lanes vec_op lanes lane [] g = g"
| "extract_lanes vec_op lanes lane (p # ps) g = extract_lanes vec_op lanes (Suc lane) ps (extract_lane vec_op lanes lane p g)"

definition slp_pack :: "node_kind \<Rightarrow> node_id list \<Rightarrow> graph \<Rightarrow> graph" where
  "slp_pack k pack g =
     (let (vec_op, g1) = create_with NK_VectorOp (concat (map (data_inputs g) pack)) 0 0 g;
          g2 = upd_side vec_op (\<lambda>s. s\<lparr>vector_kind := k, vector_lanes := of_nat (length pack)\<rparr>) g1
      in extract_lanes vec_op (length pack) 0 pack g2)"

definition slp_group :: "node_kind \<times> node_id list \<Rightarrow> bool \<times> graph \<Rightarrow> bool \<times> graph" where
  "slp_group entry s =
     (let (k, nodes) = entry; (changed, g) = s
      in if length nodes < 2 then s
         else let pack = greedy_pack g [] (sort nodes)
           in if length pack < 2 then s else (True, slp_pack k pack g))"

text \<open>\<open>order\<close> is the iteration order of the hash map.\<close>

definition slp_run ::
  "((node_kind \<times> node_id list) list \<Rightarrow> (node_kind \<times> node_id list) list) \<Rightarrow> bool \<Rightarrow> graph \<Rightarrow> (graph \<times> unit result) ub" where
  "slp_run order debug g =
     (let s = fold slp_group (order (by_kind g)) (False, g)
      in Some (snd s, if fst s then verify_if_enabled debug (snd s) else Inr ()))"

section \<open>Values of vector nodes\<close>

text \<open>A value is the list of its lanes, a scalar has one. A vector operation combines its inputs in pairs.\<close>

fun lane_values :: "node_kind \<Rightarrow> i64 list list \<Rightarrow> i64 list option" where
  "lane_values k [] = Some []"
| "lane_values k ([x] # [y] # rest) = (case (int_sem k default_side [x, y], lane_values k rest) of
     (Some z, Some zs) \<Rightarrow> Some (z # zs) | _ \<Rightarrow> None)"
| "lane_values k _ = None"

definition vec_sem :: "i64 list meaning" where
  "vec_sem k s vs =
     (if k = NK_VectorOp then lane_values (vector_kind s) vs
      else if k = NK_VectorExtract
      then (case vs of [v] \<Rightarrow> if unat (vector_lane s) < length v then Some [v ! unat (vector_lane s)] else None | _ \<Rightarrow> None)
      else if list_all (\<lambda>v. length v = 1) vs then map_option (\<lambda>x. [x]) (int_sem k s (map hd vs)) else None)"

lemma lane_values_nth:
  "lane_values k vs = Some w \<Longrightarrow> l < length w \<Longrightarrow> length vs = 2 * length w \<and>
     (\<exists>x y. vs ! (2 * l) = [x] \<and> vs ! (2 * l + 1) = [y] \<and> int_sem k default_side [x, y] = Some (w ! l))"
proof (induction k vs arbitrary: w l rule: lane_values.induct)
  case (2 k x y rest)
  then obtain z zs where z: "int_sem k default_side [x, y] = Some z" "lane_values k rest = Some zs" "w = z # zs"
    by (auto split: option.splits)
  show ?case
  proof (cases l)
    case 0
    have "length rest = 2 * length zs"
    proof (cases zs)
      case Nil
      then show ?thesis using z(2) by (cases "(k, rest)" rule: lane_values.cases) (auto split: option.splits)
    qed (use 2(1) [OF z(2), of 0] in simp)
    then show ?thesis using z 0 by simp
  next
    case (Suc l')
    then show ?thesis using 2(1) [OF z(2), of l'] 2(3) z by simp
  qed
qed auto

text \<open>The scalar values are the values of the integer semantics.\<close>

lemma int_to_vec: "eval int_sem g i x \<Longrightarrow> eval vec_sem g i [x]"
proof (induction rule: eval.induct)
  case (evalI i vs v)
  have k: "n_kind (node g i) \<noteq> NK_VectorOp" "n_kind (node g i) \<noteq> NK_VectorExtract"
    using evalI.hyps(2) valueless_kinds(11,12) by (auto simp: valueless_def)
  show ?case
  proof (rule eval.evalI [OF evalI.hyps(1)])
    show "list_all2 (eval vec_sem g) (data_inputs g i) (map (\<lambda>x. [x]) vs)"
      using evalI.IH by (simp add: list_all2_conv_all_nth)
    show "vec_sem (n_kind (node g i)) (side g i) (map (\<lambda>x. [x]) vs) = Some [v]"
      using k evalI.hyps(2) by (simp add: vec_sem_def list_all_iff o_def)
  qed
qed

section \<open>Passes that may only lose values\<close>

definition loses_values :: "graph \<Rightarrow> graph \<Rightarrow> bool" where
  "loses_values g h \<longleftrightarrow> graph_wf h \<and> inputs_inside h \<and> g_size g \<le> g_size h
     \<and> (\<forall>j. in_graph g j \<longrightarrow> n_kind (node h j) = n_kind (node g j) \<and> length (data_inputs h j) = length (data_inputs g j))
     \<and> (\<forall>i v. in_graph g i \<longrightarrow> eval vec_sem h i v \<longrightarrow> eval vec_sem g i v)"

lemma loses_refl: "graph_wf g \<Longrightarrow> inputs_inside g \<Longrightarrow> loses_values g g"
  by (simp add: loses_values_def)

lemma loses_trans: "loses_values f g \<Longrightarrow> loses_values g h \<Longrightarrow> loses_values f h"
  unfolding loses_values_def in_graph_def by auto

lemma loses_in: "loses_values g h \<Longrightarrow> in_graph g j \<Longrightarrow> in_graph h j"
  by (simp add: loses_values_def in_graph_def)

lemma loses_appends: "appends g h \<Longrightarrow> inputs_inside g \<Longrightarrow> inputs_inside h \<Longrightarrow> loses_values g h"
  unfolding loses_values_def using appends_eval_back [of g h vec_sem] view_parts(1,3) [of h _ g] by (simp add: appends_def)

text \<open>Redirecting uses of \<open>a\<close> to a node that has a value only when \<open>a\<close> has it.\<close>

lemma eval_back_rewire:
  assumes "rewired a b g h" "\<And>v. eval F g b v \<Longrightarrow> eval F g a v"
  shows "eval F h j v \<Longrightarrow> eval F g j v"
proof (induction rule: eval.induct)
  case (evalI i vs v)
  have i: "in_graph g i" using evalI.hyps(1) rewired_in_graph [OF assms(1)] by simp
  have ins: "list_all2 (eval F g) (data_inputs h i) vs"
    using evalI.IH by (rule list_all2_mono) blast
  have "list_all2 (eval F g) (data_inputs g i) vs"
  proof (cases "data_inputs h i = data_inputs g i")
    case False
    then have "data_inputs h i = map (subst_id a b) (data_inputs g i)" using assms(1) i by (auto simp: rewired_def)
    then have "list_all2 (\<lambda>x v. eval F g (subst_id a b x) v) (data_inputs g i) vs"
      using ins by (simp add: list_all2_map1)
    then show ?thesis
      by (rule list_all2_mono) (use assms(2) in \<open>auto simp: subst_id_def split: if_splits\<close>)
  qed (use ins in simp)
  moreover have "F (n_kind (node g i)) (side g i) vs = Some v"
    using evalI.hyps(2) assms(1) i by (simp add: rewired_def)
  ultimately show ?case using i by (blast intro: eval.evalI)
qed

lemma loses_merge:
  assumes g: "graph_wf g" "inputs_inside g" "in_graph g a" "in_graph g b"
    and le: "\<And>v. eval vec_sem g b v \<Longrightarrow> eval vec_sem g a v"
  shows "loses_values g (mark_dead a (replace_all_uses a b g))"
  unfolding loses_values_def
proof (intro conjI allI impI)
  let ?h = "mark_dead a (replace_all_uses a b g)"
  show "graph_wf ?h" using g by (simp add: graph_wf)
  have "data_inputs ?h j = data_inputs g j \<or> data_inputs ?h j = map (subst_id a b) (data_inputs g j)" if "in_graph g j" for j
    using rewired_merge [OF g(1,3), of b] that unfolding rewired_def by blast
  then show "inputs_inside ?h" using g(2,4)
    unfolding inputs_inside_def by (fastforce simp: subst_id_def in_graph_def)
  show "n_kind (node ?h j) = n_kind (node g j)" "length (data_inputs ?h j) = length (data_inputs g j)" if "in_graph g j" for j
    using g that by (simp_all add: graph_simps graph_wf)
  show "eval vec_sem g i v" if "eval vec_sem ?h i v" for i v
    by (rule eval_back_rewire [OF rewired_merge [OF g(1,3)] le that])
qed simp


section \<open>One pack\<close>

text \<open>A vector node whose input pairs, from a lane on, are the inputs of live nodes of its kind.\<close>

definition packed :: "graph \<Rightarrow> node_id \<Rightarrow> node_kind \<Rightarrow> nat \<Rightarrow> node_id \<Rightarrow> bool" where
  "packed g vec k l p \<longleftrightarrow> in_graph g p \<and> \<not> node_is_dead (node g p) \<and> n_kind (node g p) = k \<and> p \<noteq> vec
     \<and> 2 * l + 1 < length (data_inputs g vec) \<and> data_inputs g p = [data_inputs g vec ! (2 * l), data_inputs g vec ! (2 * l + 1)]"

definition lanes_ok :: "graph \<Rightarrow> node_id \<Rightarrow> node_kind \<Rightarrow> nat \<Rightarrow> node_id list \<Rightarrow> bool" where
  "lanes_ok g vec k lane ps \<longleftrightarrow> in_graph g vec \<and> \<not> node_is_dead (node g vec) \<and> n_kind (node g vec) = NK_VectorOp
     \<and> vector_kind (side g vec) = k \<and> is_packable k \<and> distinct ps \<and> lane + length ps \<le> 4
     \<and> (\<forall>n < length ps. packed g vec k (lane + n) (ps ! n))"

lemma packable_vec_sem: "is_packable k \<Longrightarrow> vec_sem k s [[x], [y]] = map_option (\<lambda>z. [z]) (int_sem k default_side [x, y])"
  using int.payload [of k s "[x, y]" default_side]
  by (auto simp: is_packable_def vec_sem_def)

lemma extract_value:
  assumes "lanes_ok g vec k lane (p # ps)" "in_graph g e" "n_kind (node g e) = NK_VectorExtract" "data_inputs g e = [vec]"
    "vector_lane (side g e) = of_nat lane" "eval vec_sem g e v"
  shows "eval vec_sem g p v"
proof -
  have vec: "n_kind (node g vec) = NK_VectorOp" "vector_kind (side g vec) = k" "is_packable k" "lane < 4"
    using assms(1) by (auto simp: lanes_ok_def)
  have p: "in_graph g p" "n_kind (node g p) = k" "2 * lane + 1 < length (data_inputs g vec)"
    "data_inputs g p = [data_inputs g vec ! (2 * lane), data_inputs g vec ! (2 * lane + 1)]"
    using assms(1) by (auto simp: lanes_ok_def packed_def dest: spec [of _ 0])
  have l: "unat (of_nat lane :: u8) = lane" using vec(4) by (simp add: unsigned_of_nat take_bit_nat_eq_self)
  obtain w where w: "eval vec_sem g vec w" "lane < length w" "v = [w ! lane]"
    using assms(6) by (rule evalE) (auto simp: assms(3,4) vec_sem_def assms(5) l list_all2_Cons1 split: if_splits)
  obtain vs where vs: "list_all2 (eval vec_sem g) (data_inputs g vec) vs" "lane_values k vs = Some w"
    using w(1) by (rule evalE) (auto simp: vec vec_sem_def)
  obtain x y where xy: "length vs = 2 * length w" "vs ! (2 * lane) = [x]" "vs ! (2 * lane + 1) = [y]"
    "int_sem k default_side [x, y] = Some (w ! lane)" using lane_values_nth [OF vs(2) w(2)] by blast
  show ?thesis
  proof (rule eval.evalI [OF p(1)])
    have "eval vec_sem g (data_inputs g vec ! n) (vs ! n)" if "n < length (data_inputs g vec)" for n
      using vs(1) that by (simp add: list_all2_conv_all_nth)
    from this [of "2 * lane"] this [of "2 * lane + 1"]
    show "list_all2 (eval vec_sem g) (data_inputs g p) [[x], [y]]" using p(3,4) xy(2,3) by simp
    show "vec_sem (n_kind (node g p)) (side g p) [[x], [y]] = Some v"
      using packable_vec_sem [OF vec(3)] p(2) xy(4) w(3) by simp
  qed
qed

text \<open>The graph with a new node.\<close>

definition new_node :: "node_kind \<Rightarrow> node_id list \<Rightarrow> (node_side \<Rightarrow> node_side) \<Rightarrow> graph \<Rightarrow> graph" where
  "new_node k ins f g = upd_side (g_size g + 1) f (snd (create_with k ins 0 0 g))"

lemma new_node_size [simp]: "g_size (new_node k ins f g) = g_size g + 1"
  by (simp add: new_node_def)

lemma new_node_in [simp]: "in_graph (new_node k ins f g) j \<longleftrightarrow> in_graph g j \<or> j = g_size g + 1"
  by (simp add: new_node_def)

lemma new_node_fields:
  assumes "graph_wf g"
  shows "appends g (new_node k ins f g)"
    and "n_kind (node (new_node k ins f g) (g_size g + 1)) = k"
    and "data_inputs (new_node k ins f g) (g_size g + 1) = ins"
    and "side (new_node k ins f g) (g_size g + 1) = f default_side"
    and "n_flags (node (new_node k ins f g) (g_size g + 1)) = create_flags (lookup_node_kind_info k)"
proof -
  let ?c = "snd (create_with k ins 0 0 g)"
  have c: "appends g ?c" "graph_wf ?c" using assms by (simp_all add: appends_create_with graph_wf)
  have n: "in_graph ?c (g_size g + 1)" "\<not> in_graph g (g_size g + 1)" by (simp_all add: in_graph_def)
  have v: "view ?c (g_size g + 1) = (new_view k)\<lparr>v_ins := ins, v_ctrl := 0, v_effect := 0\<rparr>"
    using view_create_with [OF assms n(1)] by simp
  show "appends g (new_node k ins f g)" unfolding new_node_def by (rule appends_upd_side [OF c(1) n])
  show "n_kind (node (new_node k ins f g) (g_size g + 1)) = k" "data_inputs (new_node k ins f g) (g_size g + 1) = ins"
    "n_flags (node (new_node k ins f g) (g_size g + 1)) = create_flags (lookup_node_kind_info k)"
    using v by (simp_all add: new_node_def view_def new_view_def)
  show "side (new_node k ins f g) (g_size g + 1) = f default_side"
    using v side_upd [OF c(2) n(1) n(1)] by (simp add: new_node_def view_def new_view_def)
qed

lemma new_node_inside:
  assumes "graph_wf g" "inputs_inside g" "\<forall>x \<in> set ins. x \<le> g_size g"
  shows "inputs_inside (new_node k ins f g)"
  unfolding inputs_inside_def
proof (intro allI impI ballI)
  fix j x assume j: "in_graph (new_node k ins f g) j" and x: "x \<in> set (data_inputs (new_node k ins f g) j)"
  show "x \<le> g_size (new_node k ins f g)"
  proof (cases "in_graph g j")
    case True
    then have "view (new_node k ins f g) j = view g j" using new_node_fields(1) [OF assms(1)] by (simp add: appends_def)
    then have "x \<in> set (data_inputs g j)" using x view_parts(3) [of "new_node k ins f g" j g j] by simp
    then have "x \<le> g_size g" using assms(2) True by (simp add: inputs_inside_def)
    then show ?thesis by simp
  next
    case False
    then have "j = g_size g + 1" using j by simp
    then show ?thesis using x assms(3) new_node_fields(3) [OF assms(1)] by auto
  qed
qed

abbreviation add_extract :: "node_id \<Rightarrow> nat \<Rightarrow> nat \<Rightarrow> graph \<Rightarrow> graph" where
  "add_extract vec lanes lane \<equiv> new_node NK_VectorExtract [vec] (\<lambda>s. s\<lparr>vector_lane := of_nat lane, vector_lanes := of_nat lanes\<rparr>)"

lemma extract_lane_eq: "\<not> node_is_dead (node g p) \<Longrightarrow> extract_lane vec lanes lane p g =
    mark_dead p (replace_all_uses p (g_size g + 1) (add_extract vec lanes lane g))"
  unfolding extract_lane_def new_node_def by (subst create_with_pair) simp

lemma lanes_ok_appends:
  assumes "lanes_ok g vec k lane ps" "appends g h"
  shows "lanes_ok h vec k lane ps"
proof -
  have vec: "view h vec = view g vec" "in_graph h vec" using assms by (auto simp: lanes_ok_def appends_def in_graph_def)
  have "packed h vec k l p" if "packed g vec k l p" for l p
  proof -
    have p: "in_graph g p" using that by (simp add: packed_def)
    then have "view h p = view g p" "in_graph h p" using assms(2) by (auto simp: appends_def in_graph_def)
    then show ?thesis using that view_parts [of h p g p] view_parts [OF vec(1)] by (simp add: packed_def node_is_dead_def)
  qed
  then show ?thesis using assms(1) vec view_parts [OF vec(1)] by (simp add: lanes_ok_def node_is_dead_def)
qed


text \<open>Replacing one packed node keeps the others.\<close>

lemma lanes_ok_merge:
  assumes ok: "lanes_ok g vec k lane (p # ps)" and wf: "graph_wf g"
  shows "lanes_ok (mark_dead p (replace_all_uses p e g)) vec k (Suc lane) ps" (is "lanes_ok ?h _ _ _ _")
proof -
  have p: "in_graph g p" "p \<noteq> vec" "in_graph g vec" "\<not> node_is_dead (node g vec)" "p \<notin> set ps"
    using ok by (auto simp: lanes_ok_def packed_def dest: spec [of _ 0])
  have same: "node ?h j = node g j" "data_inputs ?h j = map (subst_id p e) (data_inputs g j)" "side ?h j = side g j"
    if "in_graph g j" "j \<noteq> p" "\<not> node_is_dead (node g j)" for j
    using that p(1) wf by (simp_all add: graph_simps graph_wf)
  note vec = same [OF p(3) p(2) [symmetric] p(4)]
  have "packed ?h vec k l q" if "packed g vec k l q" "q \<noteq> p" for l q
    using that same [of q] vec p(1) unfolding packed_def by auto
  moreover have "packed g vec k (Suc lane + n) (ps ! n)" if "n < length ps" for n
    using ok that unfolding lanes_ok_def by (auto dest!: spec [of _ "Suc n"])
  moreover have "ps ! n \<noteq> p" if "n < length ps" for n using p(5) that nth_mem by blast
  ultimately show ?thesis using ok vec p(1,3) unfolding lanes_ok_def by auto
qed

lemma extract_lane_loses:
  assumes ok: "lanes_ok g vec k lane (p # ps)" and g: "graph_wf g" "inputs_inside g"
  shows "loses_values g (extract_lane vec lanes lane p g) \<and> lanes_ok (extract_lane vec lanes lane p g) vec k (Suc lane) ps"
proof -
  let ?e = "g_size g + 1" and ?g2 = "add_extract vec lanes lane g"
  have p: "in_graph g p" "\<not> node_is_dead (node g p)" "in_graph g vec"
    using ok by (auto simp: lanes_ok_def packed_def dest: spec [of _ 0])
  note new = new_node_fields [OF g(1), of NK_VectorExtract "[vec]" "\<lambda>s. s\<lparr>vector_lane := of_nat lane, vector_lanes := of_nat lanes\<rparr>"]
  have in2: "inputs_inside ?g2" using new_node_inside [OF g] p(3) by (simp add: in_graph_def)
  have ok2: "lanes_ok ?g2 vec k lane (p # ps)" by (rule lanes_ok_appends [OF ok new(1)])
  have "eval vec_sem ?g2 p v" if "eval vec_sem ?g2 ?e v" for v
    by (rule extract_value [OF ok2 _ new(2,3) _ that]) (simp_all add: new(4) del: One_nat_def)
  then have "loses_values ?g2 (mark_dead p (replace_all_uses p ?e ?g2))"
    by (intro loses_merge [OF appends_wf [OF new(1)] in2]) (use p in simp_all)
  moreover have "loses_values g ?g2" by (rule loses_appends [OF new(1) g(2) in2])
  moreover have "lanes_ok (mark_dead p (replace_all_uses p ?e ?g2)) vec k (Suc lane) ps"
    by (rule lanes_ok_merge [OF ok2 appends_wf [OF new(1)]])
  ultimately show ?thesis unfolding extract_lane_eq [OF p(2)] using loses_trans by blast
qed

lemma extract_lanes_loses:
  "lanes_ok g vec k lane ps \<Longrightarrow> graph_wf g \<Longrightarrow> inputs_inside g \<Longrightarrow> loses_values g (extract_lanes vec lanes lane ps g)"
proof (induction ps arbitrary: lane g)
  case (Cons p ps)
  note step = extract_lane_loses [OF Cons.prems, of lanes]
  then have "loses_values (extract_lane vec lanes lane p g) (extract_lanes vec lanes (Suc lane) ps (extract_lane vec lanes lane p g))"
    by (intro Cons.IH) (auto simp: loses_values_def)
  then show ?case using step loses_trans by auto
qed (simp add: loses_refl)

section \<open>The whole pass\<close>

text \<open>Nodes of a kind that may be packed, as phase 1 found them.\<close>

definition candidates :: "graph \<Rightarrow> node_kind \<Rightarrow> node_id list \<Rightarrow> bool" where
  "candidates g k nodes \<longleftrightarrow> is_packable k \<and> distinct nodes
     \<and> (\<forall>p \<in> set nodes. in_graph g p \<and> n_kind (node g p) = k \<and> length (data_inputs g p) = 2)"

lemma greedy_pack_props:
  "distinct (pack @ cs) \<Longrightarrow> length pack < 4 \<Longrightarrow> \<forall>p \<in> set pack. \<not> node_is_dead (node g p) \<Longrightarrow>
     distinct (greedy_pack g pack cs) \<and> length (greedy_pack g pack cs) \<le> 4
     \<and> (\<forall>p \<in> set (greedy_pack g pack cs). \<not> node_is_dead (node g p)) \<and> set (greedy_pack g pack cs) \<subseteq> set (pack @ cs)"
proof (induction g pack cs rule: greedy_pack.induct)
  case (2 g pack c cs)
  have d: "distinct (pack @ cs)" "distinct ((pack @ [c]) @ cs)" using 2(4) by auto
  show ?case
  proof (cases "node_is_dead (node g c) \<or> \<not> list_all (\<lambda>p. are_independent g c p) pack")
    case True
    then show ?thesis using 2(1) [OF _ d(1) 2(5,6)] 2(3) [OF _ _ d(1) 2(5,6)] by (cases "node_is_dead (node g c)") auto
  next
    case False
    then show ?thesis using 2(2) [OF _ _ _ d(2)] 2(4,5,6) by auto
  qed
qed auto

lemma concat_pairs:
  "\<forall>p \<in> set ps. length (f p) = 2 \<Longrightarrow> n < length ps \<Longrightarrow> 2 * n + 1 < length (concat (map f ps))
     \<and> f (ps ! n) = [concat (map f ps) ! (2 * n), concat (map f ps) ! (2 * n + 1)]"
proof (induction ps arbitrary: n)
  case (Cons p ps)
  obtain a b where ab: "f p = [a, b]" using Cons.prems(1) by (auto simp: numeral_2_eq_2 length_Suc_conv)
  show ?case
  proof (cases n)
    case (Suc m)
    then show ?thesis using Cons.IH [of m] Cons.prems ab by simp
  qed (use ab in simp)
qed simp

lemma slp_pack_loses:
  assumes g: "graph_wf g" "inputs_inside g" and pack: "candidates g k pack" "length pack \<le> 4"
    "\<forall>p \<in> set pack. \<not> node_is_dead (node g p)"
  shows "loses_values g (slp_pack k pack g)"
proof -
  let ?ins = "concat (map (data_inputs g) pack)" and ?vec = "g_size g + 1"
  let ?g2 = "new_node NK_VectorOp ?ins (\<lambda>s. s\<lparr>vector_kind := k, vector_lanes := of_nat (length pack)\<rparr>) g"
  note new = new_node_fields [OF g(1), of NK_VectorOp ?ins "\<lambda>s. s\<lparr>vector_kind := k, vector_lanes := of_nat (length pack)\<rparr>"]
  have inside: "\<forall>x \<in> set ?ins. x \<le> g_size g" using pack(1) g(2) by (auto simp: candidates_def inputs_inside_def)
  have in2: "inputs_inside ?g2" by (rule new_node_inside [OF g inside])
  have live: "\<not> node_is_dead (node ?g2 ?vec)"
    unfolding node_is_dead_def new(5) by (simp add: lookup_node_kind_info_def kTable_def info_row_def create_flags_def flags_has_def)
  have "packed ?g2 ?vec k n (pack ! n)" if n: "n < length pack" for n
  proof -
    have p: "in_graph g (pack ! n)" "n_kind (node g (pack ! n)) = k" "\<not> node_is_dead (node g (pack ! n))"
      using pack nth_mem [OF n] by (auto simp: candidates_def)
    then have "view ?g2 (pack ! n) = view g (pack ! n)" using new(1) by (simp add: appends_def)
    note same = view_parts [OF this]
    have pairs: "2 * n + 1 < length ?ins" "data_inputs g (pack ! n) = [?ins ! (2 * n), ?ins ! (2 * n + 1)]"
      using concat_pairs [of pack "data_inputs g", OF _ n] pack(1) by (auto simp: candidates_def)
    show ?thesis unfolding packed_def new(3) using p pairs same by (auto simp: node_is_dead_def in_graph_def)
  qed
  then have "lanes_ok ?g2 ?vec k 0 pack"
    using live new(2,4) pack(1,2) by (simp add: lanes_ok_def candidates_def del: One_nat_def)
  from extract_lanes_loses [OF this appends_wf [OF new(1)] in2]
  have "loses_values ?g2 (extract_lanes ?vec (length pack) 0 pack ?g2)" .
  moreover have "slp_pack k pack g = extract_lanes ?vec (length pack) 0 pack ?g2"
    unfolding slp_pack_def new_node_def by (subst create_with_pair) simp
  ultimately show ?thesis using loses_trans [OF loses_appends [OF new(1) g(2) in2]] by simp
qed


lemma candidates_loses: "loses_values g h \<Longrightarrow> candidates g k nodes \<Longrightarrow> candidates h k nodes"
  unfolding candidates_def using loses_in [of g h] by (auto simp: loses_values_def)

lemma slp_group_loses:
  assumes g: "graph_wf (snd s)" "inputs_inside (snd s)" and c: "candidates (snd s) k nodes"
  shows "loses_values (snd s) (snd (slp_group (k, nodes) s))"
proof -
  let ?pack = "greedy_pack (snd s) [] (sort nodes)"
  have "distinct ?pack \<and> length ?pack \<le> 4 \<and> (\<forall>p \<in> set ?pack. \<not> node_is_dead (node (snd s) p)) \<and> set ?pack \<subseteq> set nodes"
    using greedy_pack_props [of "[]" "sort nodes" "snd s"] c by (simp add: candidates_def)
  moreover from this have "candidates (snd s) k ?pack" using c by (auto simp: candidates_def)
  ultimately have "loses_values (snd s) (slp_pack k ?pack (snd s))" using slp_pack_loses [OF g] by blast
  then show ?thesis using loses_refl [OF g] by (cases s) (simp add: slp_group_def Let_def)
qed

lemma add_to_group_cases:
  "(k, nodes) \<in> set (add_to_group k' nid gs) \<Longrightarrow> (k, nodes) \<in> set gs \<or> k = k' \<and> (nodes = [nid] \<or> (\<exists>old. (k, old) \<in> set gs \<and> nodes = old @ [nid]))"
  by (induction k' nid gs rule: add_to_group.induct) (auto split: if_splits)

lemma packable_candidate: "packable_node g nid \<Longrightarrow> is_packable (n_kind (node g nid)) \<and> length (data_inputs g nid) = 2"
  by (simp add: packable_node_def Let_def split: if_split_asm)

lemma by_kind_candidates:
  assumes "(k, nodes) \<in> set (by_kind g)"
  shows "candidates g k nodes"
proof -
  let ?step = "\<lambda>nid groups. if packable_node g nid then add_to_group (n_kind (node g nid)) nid groups else groups"
  let ?inv = "\<lambda>S groups. \<forall>(k, nodes) \<in> set groups. candidates g k nodes \<and> set nodes \<subseteq> S"
  have step: "?inv (insert nid S) (?step nid groups)" if "?inv S groups" "nid \<notin> S" "in_graph g nid" for nid S groups
  proof (intro ballI, clarify)
    fix k nodes assume "(k, nodes) \<in> set (?step nid groups)"
    then consider "(k, nodes) \<in> set groups" | "packable_node g nid" "k = n_kind (node g nid)" "nodes = [nid]"
      | old where "packable_node g nid" "k = n_kind (node g nid)" "(k, old) \<in> set groups" "nodes = old @ [nid]"
      using add_to_group_cases [of k nodes "n_kind (node g nid)" nid groups] by (cases "packable_node g nid") (simp, blast, simp)
    then show "candidates g k nodes \<and> set nodes \<subseteq> insert nid S"
    proof cases
      case 1
      then show ?thesis using that(1) by blast
    next
      case 2
      then show ?thesis using packable_candidate [of g nid] that(3) by (simp add: candidates_def)
    next
      case (3 old)
      then have "candidates g k old" "set old \<subseteq> S" using that(1) by blast+
      then show ?thesis using 3 packable_candidate [of g nid] that(2,3) by (auto simp: candidates_def)
    qed
  qed
  have "?inv (S \<union> set is) (fold ?step is groups)" if "?inv S groups" "distinct is" "S \<inter> set is = {}" "\<forall>i \<in> set is. in_graph g i"
    for S "is" groups
    using that
  proof (induction "is" arbitrary: S groups)
    case (Cons i "is")
    have "?inv (insert i S \<union> set is) (fold ?step is (?step i groups))"
      by (rule Cons.IH [OF step]) (use Cons.prems in auto)
    then show ?case by simp
  qed simp
  note fold = this
  have "distinct (node_ids g)" "\<forall>i \<in> set (node_ids g). in_graph g i" by (auto simp: node_ids_def in_graph_def)
  from fold [of "[]" "{}", OF _ this(1) _ this(2)] assms show ?thesis unfolding by_kind_def by auto
qed

lemma slp_run_loses:
  assumes "\<And>xs. set (order xs) \<subseteq> set xs" "graph_wf g" "inputs_inside g" "slp_run order debug g = Some (h, r)"
  shows "loses_values g h"
proof -
  have "loses_values g (snd (fold slp_group es s))" if "\<forall>(k, nodes) \<in> set es. candidates g k nodes" "loses_values g (snd s)" for es s
    using that
  proof (induction es arbitrary: s)
    case (Cons e es)
    obtain k nodes where e: "e = (k, nodes)" by (cases e)
    have "candidates (snd s) k nodes" using Cons.prems e candidates_loses by auto
    then have "loses_values (snd s) (snd (slp_group e s))"
      unfolding e using Cons.prems(2) by (intro slp_group_loses) (simp_all add: loses_values_def)
    then have "loses_values g (snd (slp_group e s))" by (rule loses_trans [OF Cons.prems(2)])
    then show ?case using Cons.IH Cons.prems(1) by simp
  qed simp
  from this [of "order (by_kind g)" "(False, g)"] show ?thesis
    using assms by_kind_candidates [of _ _ g] loses_refl [OF assms(2,3)]
    by (fastforce simp: slp_run_def Let_def)
qed

text \<open>C36: Vectorization never gives a node a wrong value: in whatever order the groups come, a value that a node
  has after SLP, read off the vector nodes, is the value it had before.\<close>

theorem slp_never_wrong:
  assumes "\<And>xs. set (order xs) \<subseteq> set xs" "graph_wf g" "inputs_inside g" "slp_run order debug g = Some (h, r)"
    and "in_graph g i" "eval vec_sem h i v"
  shows "eval vec_sem g i v \<and> (\<forall>x. eval int_sem g i x \<longrightarrow> v = [x])"
proof -
  have v: "eval vec_sem g i v" using slp_run_loses [OF assms(1-4)] assms(5,6) by (simp add: loses_values_def)
  then show ?thesis using int_to_vec eval_det by metis
qed

section \<open>A cycle through a pack\<close>

text \<open>\<open>x = a + a; y = x - a; z = y + a\<close>: neither sum is an input of the other, so the two are packed; but the
  second one needs the first.\<close>

definition ex_chain :: graph where
  "ex_chain = \<lparr>g_nodes = [ex_node NK_ConstInt 257 0 0, ex_node NK_Add 1 0 2, ex_node NK_Sub 1 2 2, ex_node NK_Add 1 4 2],
     g_sides = replicate 4 (default_side\<lparr>const_value := 2\<rparr>), g_pool = [1, 1, 2, 1, 3, 1], g_start = 1\<rparr>"

lemma chain_groups: "by_kind ex_chain = [(NK_Add, [2, 4]), (NK_Sub, [3])]"
  by code_simp

lemma chain_pack: "greedy_pack ex_chain [] [2, 4] = [2, 4]"
  by code_simp


lemma extract_lane_nodes:
  assumes g: "graph_wf g" and p: "in_graph g p" "\<not> node_is_dead (node g p)"
  shows "g_size (extract_lane vec n l p g) = g_size g + 1" "graph_wf (extract_lane vec n l p g)"
    "in_graph g j \<Longrightarrow> j \<noteq> p \<Longrightarrow> \<not> node_is_dead (node g j) \<Longrightarrow>
      \<not> node_is_dead (node (extract_lane vec n l p g) j)
      \<and> data_inputs (extract_lane vec n l p g) j = map (subst_id p (g_size g + 1)) (data_inputs g j)"
    "data_inputs (extract_lane vec n l p g) (g_size g + 1) = [subst_id p (g_size g + 1) vec]
      \<and> \<not> node_is_dead (node (extract_lane vec n l p g) (g_size g + 1))"
proof -
  let ?g2 = "add_extract vec n l g" and ?e = "g_size g + 1"
  note new = new_node_fields [OF g, of NK_VectorExtract "[vec]" "\<lambda>s. s\<lparr>vector_lane := of_nat l, vector_lanes := of_nat n\<rparr>"]
  have wf: "graph_wf ?g2" by (rule appends_wf [OF new(1)])
  have at: "node (mark_dead p (replace_all_uses p ?e ?g2)) i = node ?g2 i"
    "\<not> node_is_dead (node ?g2 i) \<Longrightarrow> data_inputs (mark_dead p (replace_all_uses p ?e ?g2)) i = map (subst_id p ?e) (data_inputs ?g2 i)"
    if "in_graph ?g2 i" "i \<noteq> p" for i
    using that p(1) wf by (simp_all add: graph_simps graph_wf)
  have e: "?e \<noteq> p" using p(1) by (auto simp: in_graph_def)
  have e: "?e \<noteq> p" "\<not> node_is_dead (node ?g2 ?e)"
    using e unfolding node_is_dead_def new(5)
    by (simp_all add: lookup_node_kind_info_def kTable_def info_row_def create_flags_def flags_has_def)
  note eq = extract_lane_eq [OF p(2), of vec n l]
  show "g_size (extract_lane vec n l p g) = g_size g + 1" unfolding eq by simp
  show "graph_wf (extract_lane vec n l p g)" unfolding eq using wf p(1) by (simp add: graph_wf)
  show "data_inputs (extract_lane vec n l p g) ?e = [subst_id p ?e vec] \<and> \<not> node_is_dead (node (extract_lane vec n l p g) ?e)"
    unfolding eq using at [of ?e] e new(3) by simp
  assume j: "in_graph g j" "j \<noteq> p" "\<not> node_is_dead (node g j)"
  then have "view ?g2 j = view g j" using new(1) by (simp add: appends_def)
  note same = view_parts [OF this]
  have "\<not> node_is_dead (node ?g2 j)" using j(3) same(2) by (simp add: node_is_dead_def)
  then show "\<not> node_is_dead (node (extract_lane vec n l p g) j)
      \<and> data_inputs (extract_lane vec n l p g) j = map (subst_id p (g_size g + 1)) (data_inputs g j)"
    unfolding eq using at [of j] j same(3) by simp
qed

lemma chain_wf: "graph_wf ex_chain" "g_size ex_chain = 4" "list_all (\<lambda>j. \<not> node_is_dead (node ex_chain j)) [1, 2, 3, 4]"
  "map (data_inputs ex_chain) [1, 2, 3, 4] = [[], [1, 1], [2, 1], [3, 1]]"
  by code_simp+

lemma chain_inputs:
  fixes h defines "h \<equiv> slp_pack NK_Add [2, 4] ex_chain"
  shows "data_inputs h 3 = [6, 1]" "data_inputs h 6 = [5]" "data_inputs h 5 = [1, 1, 3, 1]"
proof -
  define g2 where "g2 = new_node NK_VectorOp [1, 1, 3, 1] (\<lambda>s. s\<lparr>vector_kind := NK_Add, vector_lanes := 2\<rparr>) ex_chain"
  note new = new_node_fields [OF chain_wf(1), of NK_VectorOp "[1, 1, 3, 1]" "\<lambda>s. s\<lparr>vector_kind := NK_Add, vector_lanes := 2\<rparr>", folded g2_def]
  have in_g: "in_graph ex_chain j \<longleftrightarrow> 1 \<le> j \<and> j \<le> 4" for j using chain_wf(2) by (simp add: in_graph_def)
  have g2: "g_size g2 = 5" "graph_wf g2" using chain_wf(2) appends_wf [OF new(1)] by (simp_all add: g2_def)
  have old: "view g2 j = view ex_chain j" if "1 \<le> j" "j \<le> 4" for j using new(1) that in_g by (simp add: appends_def)
  have live: "\<not> node_is_dead (node g2 j) \<and> data_inputs g2 j = data_inputs ex_chain j" if "j \<in> {1, 2, 3, 4}" for j
    using that chain_wf(3) view_parts(2,3) [OF old [of j]] by (auto simp: node_is_dead_def)
  have vec: "\<not> node_is_dead (node g2 5)" "data_inputs g2 5 = [1, 1, 3, 1]"
    using new(3,5) chain_wf(2) by (simp_all add: node_is_dead_def lookup_node_kind_info_def kTable_def info_row_def
        create_flags_def flags_has_def)
  define h1 where "h1 = extract_lane 5 2 0 2 g2"
  have in2: "in_graph g2 j \<longleftrightarrow> 1 \<le> j \<and> j \<le> 5" for j using g2(1) by (simp add: in_graph_def)
  note lane0 = extract_lane_nodes [OF g2(2), of 2, where vec = 5 and n = 2 and l = 0, folded h1_def]
  have h1: "g_size h1 = 6" "graph_wf h1" using lane0(1,2) live [of 2] in2 g2(1) by simp_all
  have at1: "\<not> node_is_dead (node h1 j) \<and> data_inputs h1 j = map (subst_id 2 6) (data_inputs g2 j)" if "j \<in> {3, 4, 5}" for j
  proof -
    have j: "in_graph g2 j" "j \<noteq> 2" "\<not> node_is_dead (node g2 j)" 
      using that by (elim insertE emptyE; simp only: in2 live vec insert_iff simp_thms; simp)+
    have two: "in_graph g2 2" "\<not> node_is_dead (node g2 2)" using in2 live [of 2] by simp_all
    show ?thesis using lane0(3) [OF two j] by (simp add: g2(1))
  qed
  have at6: "\<not> node_is_dead (node h1 6) \<and> data_inputs h1 6 = [5]"
    using lane0(4) live [of 2] in2 g2(1) by (simp add: subst_id_def)
  have in1: "in_graph h1 j \<longleftrightarrow> 1 \<le> j \<and> j \<le> 6" for j using h1(1) by (simp add: in_graph_def)
  have "slp_pack NK_Add [2, 4] ex_chain = extract_lanes 5 2 0 [2, 4] g2"
    unfolding slp_pack_def g2_def new_node_def using chain_wf(2,4)
    by (subst create_with_pair) (simp add: numeral_2_eq_2)
  then have h: "h = extract_lane 5 2 1 4 h1" by (simp add: h_def h1_def)
  note lane1 = extract_lane_nodes [OF h1(2), of 4, where vec = 5 and n = 2 and l = 1, folded h]
  have "data_inputs h j = map (subst_id 4 7) (data_inputs h1 j)" if "j \<in> {3, 5, 6}" for j
  proof -
    have j: "in_graph h1 j" "j \<noteq> 4" "\<not> node_is_dead (node h1 j)" 
      using that by (elim insertE emptyE; simp only: in1 at1 at6 insert_iff simp_thms; simp)+
    have four: "in_graph h1 4" "\<not> node_is_dead (node h1 4)" using in1 at1 [of 4] by simp_all
    show ?thesis using lane1(3) [OF four j] by (simp add: h1(1))
  qed
  from this [of 3] this [of 5] this [of 6] at1 [of 3] at1 [of 5] at6 live [of 3] vec chain_wf(4)
  show "data_inputs h 3 = [6, 1]" "data_inputs h 6 = [5]" "data_inputs h 5 = [1, 1, 3, 1]"
    by (simp_all add: subst_id_def)
qed


lemma cycle_no_value:
  assumes "data_inputs h 3 = [6, 1]" "data_inputs h 6 = [5]" "data_inputs h 5 = [1, 1, 3, 1]"
  shows "eval F h i v \<Longrightarrow> i \<notin> {3, 5, 6}"
proof (induction rule: eval.induct)
  case (evalI i vs v)
  have "x \<notin> {3, 5, 6}" if "x \<in> set (data_inputs h i)" for x
    using evalI.IH that by (auto simp: list_all2_conv_all_nth in_set_conv_nth)
  from this [of 6] this [of 5] this [of 3] show ?case using assms by auto
qed

lemma chain_value: "eval int_sem ex_chain 3 2"
proof -
  note fields = in_graph_def g_size_def node_def side_def data_inputs_def pool_get_def ex_chain_def ex_node_def int_sem_def
  have 1: "eval int_sem ex_chain 1 2" by (rule eval.evalI [where vs = "[]"]) (simp_all add: fields)
  then have "eval int_sem ex_chain 2 4" by (intro eval.evalI [where vs = "[2, 2]"]) (simp_all add: fields)
  with 1 show ?thesis by (intro eval.evalI [where vs = "[4, 2]"]) (simp_all add: fields)
qed

lemma chain_run: "slp_run id False ex_chain = Some (slp_pack NK_Add [2, 4] ex_chain, Inr ())"
proof -
  have "sort [2, 4 :: nat] = [2, 4]" by simp
  then have "slp_group (NK_Add, [2, 4]) (False, ex_chain) = (True, slp_pack NK_Add [2, 4] ex_chain)"
    unfolding slp_group_def Let_def prod.case by (simp only: chain_pack) simp
  moreover have "slp_group (NK_Sub, [3]) s = s" for s by (simp add: slp_group_def split: prod.split)
  ultimately show ?thesis by (simp add: slp_run_def chain_groups Let_def verify_if_enabled_def)
qed


text \<open>Two independent sums.\<close>

definition ex_pair :: graph where
  "ex_pair = \<lparr>g_nodes = [ex_node NK_ConstInt 257 0 0, ex_node NK_Add 1 0 2, ex_node NK_Add 1 2 2],
     g_sides = replicate 3 (default_side\<lparr>const_value := 2\<rparr>), g_pool = [1, 1, 1, 1], g_start = 1\<rparr>"

lemma ex_pair_wf: "graph_wf ex_pair" "inputs_inside ex_pair" "in_graph ex_pair 2"
proof -
  have "list_all (\<lambda>j. list_all (\<lambda>x. x \<le> g_size ex_pair) (data_inputs ex_pair j)) [1..<4]" by code_simp
  moreover have "in_graph ex_pair j \<longleftrightarrow> j \<in> set [1..<4]" for j by (auto simp: in_graph_def g_size_def ex_pair_def)
  ultimately show "inputs_inside ex_pair" unfolding inputs_inside_def list_all_iff by blast
qed (code_simp, code_simp)

theorem slp_never_wrong_witness:
  "\<exists>h. slp_run id False ex_pair = Some (h, Inr ()) \<and> (\<nexists>v. v \<noteq> [4] \<and> eval vec_sem h 2 v)"
proof -
  obtain h where h: "slp_run id False ex_pair = Some (h, Inr ())"
    by (simp add: slp_run_def Let_def verify_if_enabled_def)
  note fields = in_graph_def g_size_def node_def side_def data_inputs_def pool_get_def ex_pair_def ex_node_def int_sem_def
  have "eval int_sem ex_pair 1 2" by (rule eval.evalI [where vs = "[]"]) (simp_all add: fields)
  then have "eval int_sem ex_pair 2 4" by (intro eval.evalI [where vs = "[2, 2]"]) (simp_all add: fields)
  then show ?thesis using slp_never_wrong [OF _ ex_pair_wf(1,2) h ex_pair_wf(3)] h by auto
qed

end
