(* ===== verification/Scalar_Replace.thy ===== *)
theory Scalar_Replace
  imports Graph_Growth Build_Regions Sweeps "HOL-Library.AList"
begin

text \<open>
  \<^verbatim>\<open>tier3_diamond/SRA.cpp\<close> and \<^verbatim>\<open>tier3_diamond/PEA.cpp\<close>: replacing the fields of an object that does not
  escape by the values stored into them. The two files repeat their helpers; the common ones are modelled
  once. Walks of the effect chain may not end: such a run, like an undefined one, is \<^const>\<open>None\<close>.
\<close>

section \<open>Common helpers\<close>

text \<open>Use lists are a snapshot: who used a node, and in which slot, when they were built.\<close>

type_synonym use_ref = "node_id \<times> nat"

record use_lists =
  duses :: "node_id \<Rightarrow> use_ref list"
  euses :: "node_id \<Rightarrow> node_id list"

definition uses_by :: "graph \<Rightarrow> node_id \<Rightarrow> node_id \<Rightarrow> use_ref list" where
  "uses_by g v nid = (if node_is_dead (node g nid) then []
     else map (\<lambda>slot. (nid, slot)) (filter (\<lambda>slot. data_inputs g nid ! slot = v) [0..<length (data_inputs g nid)]))"

definition build_uses :: "graph \<Rightarrow> use_lists" where
  "build_uses g =
     \<lparr>duses = (\<lambda>v. if \<not> id_valid v then [] else concat (map (uses_by g v) (node_ids g))),
      euses = (\<lambda>v. if \<not> id_valid v then []
        else filter (\<lambda>nid. \<not> node_is_dead (node g nid) \<and> effect_input g nid = v) (node_ids g))\<rparr>"

definition SLOT_OBJ :: nat where "SLOT_OBJ = 0"

definition SLOT_VAL :: nat where "SLOT_VAL = 1"

definition escapes_in_slot :: "node_kind \<Rightarrow> nat \<Rightarrow> bool" where
  "escapes_in_slot k slot =
     (if k \<in> set [NK_Return, NK_Throw, NK_Call, NK_CallVirt, NK_CallKnown, NK_TailCall, NK_InvokeDynamic, NK_Box] then True
      else if k \<in> set [NK_StoreField, NK_StFld, NK_StoreElement, NK_StElem] then slot \<noteq> SLOT_OBJ
      else if k \<in> set [NK_LoadField, NK_LdFld, NK_LoadElement, NK_LdElem, NK_LdFlda, NK_LdElemA, NK_ArrayLength] then False
      else if k \<in> set [NK_CheckClass, NK_IsInst, NK_CastClass] then slot \<noteq> SLOT_OBJ
      else if k \<in> set [NK_Unbox, NK_UnboxAny] then slot = SLOT_OBJ
      else True)"

definition is_store :: "node_kind \<Rightarrow> bool" where
  "is_store k \<longleftrightarrow> k = NK_StFld \<or> k = NK_StoreField"

definition is_load :: "node_kind \<Rightarrow> bool" where
  "is_load k \<longleftrightarrow> k = NK_LdFld \<or> k = NK_LoadField"

definition is_allocation :: "node_kind \<Rightarrow> bool" where
  "is_allocation k \<longleftrightarrow> k \<in> set [NK_Allocate, NK_NewObj, NK_NewArr, NK_Box]"

partial_function (option) effect_walk :: "graph \<Rightarrow> node_id \<Rightarrow> node_id \<Rightarrow> bool option" where
  "effect_walk g store cur =
     (if \<not> id_valid cur then Some False
      else if cur = store then Some True
      else let nxt = effect_input g cur in if nxt = cur then Some False else effect_walk g store nxt)"

declare effect_walk.simps [code]

definition effect_dominates :: "graph \<Rightarrow> node_id \<Rightarrow> node_id \<Rightarrow> bool option" where
  "effect_dominates g store load =
     (let load_eff = effect_input g load
      in if load_eff = store then Some True
         else case effect_walk g store load_eff of None \<Rightarrow> None
              | Some True \<Rightarrow> Some True
              | Some False \<Rightarrow> Some (effect_input g store = load_eff \<and> store < load))"

definition has_guard_refs :: "graph \<Rightarrow> node_id \<Rightarrow> use_lists \<Rightarrow> bool" where
  "has_guard_refs g alloc uses =
     list_ex (\<lambda>ref. \<not> node_is_dead (node g (fst ref)) \<and> node_is_guard (node g (fst ref))) (duses uses alloc)"

definition escaping_refs :: "graph \<Rightarrow> node_id \<Rightarrow> use_lists \<Rightarrow> use_ref list" where
  "escaping_refs g alloc uses = filter (\<lambda>(user, slot). \<not> node_is_dead (node g user)
     \<and> escapes_in_slot (n_kind (node g user)) slot) (duses uses alloc)"

text \<open>The last store to each field and the number of stores; the map keeps the order of insertion.\<close>

record field_state =
  fs_fields :: "(u16 \<times> node_id \<times> node_id) list"
  fs_count :: "u16 \<Rightarrow> nat"

definition no_fields :: field_state where
  "no_fields = \<lparr>fs_fields = [], fs_count = (\<lambda>_. 0)\<rparr>"

definition collect_store :: "graph \<Rightarrow> use_ref \<Rightarrow> field_state \<Rightarrow> field_state" where
  "collect_store g ref fs =
     (let user = fst ref; off = field_offset (side g user); inputs = data_inputs g user;
          val = (if length inputs > SLOT_VAL then inputs ! SLOT_VAL else 0)
      in if node_is_dead (node g user) \<or> \<not> is_store (n_kind (node g user)) then fs
         else fs\<lparr>fs_fields := AList.update off (val, user) (fs_fields fs), fs_count := (fs_count fs)(off := fs_count fs off + 1)\<rparr>)"

definition collect_stores :: "graph \<Rightarrow> node_id \<Rightarrow> use_lists \<Rightarrow> field_state" where
  "collect_stores g alloc uses = fold (collect_store g) (duses uses alloc) no_fields"

text \<open>The value a load can take: None if it stays, and the outer None if the walk does not end.\<close>

definition forwarded :: "field_state \<Rightarrow> graph \<Rightarrow> node_id \<Rightarrow> node_id option option" where
  "forwarded fs g load =
     (let off = field_offset (side g load)
      in if node_is_dead (node g load) then Some None
         else if \<not> is_load (n_kind (node g load)) then Some None
         else if fs_count fs off \<noteq> 1 then Some None
         else case map_of (fs_fields fs) off of None \<Rightarrow> Some None
              | Some (val, store) \<Rightarrow>
                  if \<not> id_valid val \<or> val > g_size g then Some None
                  else map_option (\<lambda>dom. if dom then Some val else None) (effect_dominates g store load))"

text \<open>A loop whose body may not return.\<close>

fun each :: "('a \<Rightarrow> 's \<Rightarrow> 's option) \<Rightarrow> 'a list \<Rightarrow> 's \<Rightarrow> 's option" where
  "each f [] s = Some s"
| "each f (x # xs) s = (case f x s of None \<Rightarrow> None | Some s' \<Rightarrow> each f xs s')"

section \<open>Scalar replacement\<close>

definition sra_has_live_use :: "graph \<Rightarrow> node_id \<Rightarrow> use_lists \<Rightarrow> bool" where
  "sra_has_live_use g alloc uses \<longleftrightarrow> list_ex (\<lambda>ref. \<not> node_is_dead (node g (fst ref))) (duses uses alloc)
     \<or> list_ex (\<lambda>eu. \<not> node_is_dead (node g eu)) (euses uses alloc)"

definition sra_has_effect_user :: "graph \<Rightarrow> node_id \<Rightarrow> use_lists \<Rightarrow> bool" where
  "sra_has_effect_user g nid uses = list_ex (\<lambda>eu. \<not> node_is_dead (node g eu)) (euses uses nid)"

definition sra_candidates :: "graph \<Rightarrow> use_lists \<Rightarrow> node_id list" where
  "sra_candidates g uses = filter (\<lambda>nid. let n = node g nid
     in if node_is_dead n then False
        else if \<not> is_allocation (n_kind n) then False
        else if n_kind n = NK_Box then False
        else if has_guard_refs g nid uses then False
        else escaping_refs g nid uses = []) (node_ids g)"

definition sra_forward :: "field_state \<Rightarrow> use_ref \<Rightarrow> bool \<times> graph \<Rightarrow> (bool \<times> graph) option" where
  "sra_forward fs ref s =
     (let g = snd s; load = fst ref
      in case forwarded fs g load of None \<Rightarrow> None
         | Some None \<Rightarrow> Some s
         | Some (Some val) \<Rightarrow>
             (let stored = node g val
              in if flags_has (n_flags stored) NF_IsConst
                 then Some (True, upd_side load (\<lambda>sd. sd\<lparr>const_value := const_value (side g val)\<rparr>)
                   (upd_node load (\<lambda>n. (or_flags NF_IsConst n)\<lparr>n_type := n_type stored\<rparr>) g))
                 else Some (True, mark_dead load (replace_all_uses load val g))))"

definition sra_kill_store :: "use_lists \<Rightarrow> use_ref \<Rightarrow> bool \<times> graph \<Rightarrow> bool \<times> graph" where
  "sra_kill_store uses ref s =
     (let g = snd s; user = fst ref
      in if node_is_dead (node g user) then s
         else if \<not> is_store (n_kind (node g user)) then s
         else if \<not> sra_has_effect_user g user uses then (True, mark_dead user g) else s)"

definition sra_alloc :: "use_lists \<Rightarrow> node_id \<Rightarrow> bool \<times> graph \<Rightarrow> (bool \<times> graph) option" where
  "sra_alloc uses alloc s =
     (let fs = collect_stores (snd s) alloc uses
      in case each (sra_forward fs) (duses uses alloc) s of None \<Rightarrow> None
         | Some s \<Rightarrow>
             (let s = fold (sra_kill_store uses) (duses uses alloc) s
              in Some (if \<not> sra_has_live_use (snd s) alloc uses then (True, mark_dead alloc (snd s)) else s)))"

definition sra_run :: "bool \<Rightarrow> graph \<Rightarrow> (graph \<times> unit result) option" where
  "sra_run debug g =
     (let uses = build_uses g; candidates = sra_candidates g uses
      in if candidates = [] then Some (g, Inr ())
         else case each (sra_alloc uses) candidates (False, g) of None \<Rightarrow> None
              | Some (changed, g') \<Rightarrow> Some (g', if changed then verify_if_enabled debug g' else Inr ()))"

section \<open>Partial escape analysis\<close>

datatype escape_kind = NoEscape | GlobalEscape | PartialEscape

text \<open>The blocks do not enter the classification; the block of the allocation is looked up and not used.\<close>

definition classify_escape :: "graph \<Rightarrow> node_id \<Rightarrow> use_lists \<Rightarrow> escape_kind" where
  "classify_escape g alloc uses =
     (let escape_count = length (escaping_refs g alloc uses);
          total_uses = length (filter (\<lambda>ref. \<not> node_is_dead (node g (fst ref))) (duses uses alloc))
      in if escape_count = 0 then NoEscape else if escape_count = total_uses then GlobalEscape else PartialEscape)"

definition still_uses :: "graph \<Rightarrow> node_id \<Rightarrow> use_ref \<Rightarrow> bool" where
  "still_uses g alloc ref \<longleftrightarrow> \<not> node_is_dead (node g (fst ref)) \<and> snd ref < length (data_inputs g (fst ref))
     \<and> data_inputs g (fst ref) ! snd ref = alloc"

definition has_live_data_use :: "graph \<Rightarrow> node_id \<Rightarrow> use_lists \<Rightarrow> bool" where
  "has_live_data_use g alloc uses = list_ex (still_uses g alloc) (duses uses alloc)"

definition pea_has_live_use :: "graph \<Rightarrow> node_id \<Rightarrow> use_lists \<Rightarrow> bool" where
  "pea_has_live_use g alloc uses \<longleftrightarrow> list_ex (still_uses g alloc) (duses uses alloc)
     \<or> list_ex (\<lambda>eu. \<not> node_is_dead (node g eu)) (euses uses alloc)"

text \<open>\<open>order\<close> is the iteration order of the map of fields.\<close>

type_synonym field_order = "(u16 \<times> node_id \<times> node_id) list \<Rightarrow> (u16 \<times> node_id \<times> node_id) list"

definition materialize_values :: "field_order \<Rightarrow> field_state \<Rightarrow> node_id \<Rightarrow> graph \<Rightarrow> node_id list \<times> graph" where
  "materialize_values order fs alloc g =
     (let vals = map (\<lambda>e. fst (snd e)) (order (fs_fields fs))
      in if vals \<noteq> [] then (vals, g)
         else if data_inputs g alloc \<noteq> [] then ([data_inputs g alloc ! 0], g)
         else let (c, g) = create_const_int 0 g in ([c], g))"

definition materialize_at :: "field_order \<Rightarrow> field_state \<Rightarrow> node_id \<Rightarrow> use_ref \<Rightarrow> nat \<times> graph \<Rightarrow> nat \<times> graph" where
  "materialize_at order fs alloc ref s =
     (let (inserted, g) = s; (user, slot) = ref
      in if node_is_dead (node g user) then s
         else let (vals, g) = materialize_values order fs alloc g;
                  (mat, g) = create_with NK_Materialize vals 0 0 g;
                  user_eff = effect_input g user;
                  g = (if id_valid user_eff then set_effect_input user mat (set_effect_input mat user_eff g)
                       else let alloc_eff = effect_input g alloc in if id_valid alloc_eff then set_effect_input mat alloc_eff g else g);
                  user_ctrl = ctrl_input g user;
                  g = (if id_valid user_ctrl then set_ctrl_input mat user_ctrl g
                       else let alloc_ctrl = ctrl_input g alloc in if id_valid alloc_ctrl then set_ctrl_input mat alloc_ctrl g else g);
                  g = upd_side mat (\<lambda>sd. sd\<lparr>class_id := of_nat alloc\<rparr>) g
           in (inserted + 1, snd (replace_one_use alloc mat user slot g)))"

definition insert_materialize :: "field_order \<Rightarrow> field_state \<Rightarrow> node_id \<Rightarrow> use_lists \<Rightarrow> graph \<Rightarrow> nat \<times> graph" where
  "insert_materialize order fs alloc uses g = fold (materialize_at order fs alloc) (escaping_refs g alloc uses) (0, g)"

definition pea_forward :: "field_state \<Rightarrow> use_ref \<Rightarrow> bool \<times> graph \<Rightarrow> (bool \<times> graph) option" where
  "pea_forward fs ref s =
     (let g = snd s; load = fst ref
      in case forwarded fs g load of None \<Rightarrow> None
         | Some None \<Rightarrow> Some s
         | Some (Some val) \<Rightarrow>
             (if flags_has (n_flags (node g val)) NF_IsConst
              then let (c, g) = create_const_int (const_value (side g val)) g
                in Some (True, mark_dead load (replace_all_uses load c g))
              else Some (True, mark_dead load (replace_all_uses load val g))))"

text \<open>The effect successors of a node skip it, when it has an effect input.\<close>

definition short_circuit :: "node_id \<Rightarrow> graph \<Rightarrow> graph" where
  "short_circuit nid g =
     (let eff = effect_input g nid
      in fold (\<lambda>other g. if other = nid then g else if node_is_dead (node g other) then g
           else if effect_input g other = nid \<and> id_valid eff then set_effect_input other eff g else g) (node_ids g) g)"

definition pea_kill_store :: "use_ref \<Rightarrow> bool \<times> graph \<Rightarrow> bool \<times> graph" where
  "pea_kill_store ref s =
     (let g = snd s; user = fst ref
      in if node_is_dead (node g user) then s
         else if \<not> is_store (n_kind (node g user)) then s
         else (True, mark_dead user (short_circuit user g)))"

definition process_allocation :: "field_order \<Rightarrow> use_lists \<Rightarrow> node_id \<Rightarrow> graph \<Rightarrow> (bool \<times> graph) option" where
  "process_allocation order uses alloc g =
     (let ek = classify_escape g alloc uses; fs = collect_stores g alloc uses
      in if node_is_dead (node g alloc) then Some (False, g)
         else if has_guard_refs g alloc uses then Some (False, g)
         else if ek = GlobalEscape then Some (False, g)
         else case each (pea_forward fs) (duses uses alloc) (False, g) of None \<Rightarrow> None
              | Some (changed, g) \<Rightarrow>
                  (let (n_mat, g) = (if ek = PartialEscape then insert_materialize order fs alloc uses g else (0, g));
                       changed = (changed \<or> n_mat > 0);
                       (changed, g) = fold pea_kill_store (duses uses alloc) (changed, g)
                   in Some (if ek = NoEscape \<or> \<not> has_live_data_use g alloc uses
                     then if \<not> has_live_data_use g alloc uses then (True, mark_dead alloc (short_circuit alloc g)) else (changed, g)
                     else (changed, g))))"

definition box_use :: "node_id \<Rightarrow> node_id \<Rightarrow> use_ref \<Rightarrow> graph \<Rightarrow> graph" where
  "box_use box boxed_val ref g =
     (let (user, slot) = ref; k = n_kind (node g user)
      in if node_is_dead (node g user) then g
         else if escapes_in_slot k slot then g
         else if is_load k \<and> slot = SLOT_OBJ then mark_dead user (replace_all_uses user boxed_val g)
         else snd (replace_one_use box boxed_val user slot g))"

definition process_box :: "field_order \<Rightarrow> use_lists \<Rightarrow> node_id \<Rightarrow> graph \<Rightarrow> bool \<times> graph" where
  "process_box order uses box g =
     (let ek = classify_escape g box uses; inputs = data_inputs g box; boxed_val = inputs ! SLOT_OBJ
      in if node_is_dead (node g box) then (False, g)
         else if has_guard_refs g box uses then (False, g)
         else if ek = GlobalEscape then (False, g)
         else if inputs = [] then (False, g)
         else if \<not> id_valid boxed_val then (False, g)
         else if ek = NoEscape then (True, mark_dead box (replace_all_uses box boxed_val g))
         else let g = fold (box_use box boxed_val) (duses uses box) g;
                  box_fs = \<lparr>fs_fields = [(0, boxed_val, box)], fs_count = (\<lambda>_. 0)(0 := 1)\<rparr>;
                  (n_mat, g) = insert_materialize order box_fs box uses g
           in if n_mat > 0 then (True, if \<not> pea_has_live_use g box uses then mark_dead box g else g)
              else if escaping_refs g box uses = [] then (True, mark_dead box (replace_all_uses box boxed_val g))
              else (False, g))"

definition roundtrip_node :: "node_id \<Rightarrow> graph \<Rightarrow> graph" where
  "roundtrip_node nid g =
     (let n = node g nid; inputs = data_inputs g nid; box_id = inputs ! 0; box = node g box_id; box_inputs = data_inputs g box_id
      in if node_is_dead n then g
         else if n_kind n \<noteq> NK_Unbox \<and> n_kind n \<noteq> NK_UnboxAny then g
         else if inputs = [] \<or> \<not> id_valid box_id then g
         else if box_id > g_size g then g
         else if node_is_dead box \<or> n_kind box \<noteq> NK_Box then g
         else if box_inputs = [] \<or> \<not> id_valid (box_inputs ! 0) then g
         else mark_dead nid (replace_all_uses nid (box_inputs ! 0) g))"

definition eliminate_box_unbox_roundtrips :: "graph \<Rightarrow> graph" where
  "eliminate_box_unbox_roundtrips g = fold roundtrip_node (node_ids g) g"

text \<open>One round over all nodes; the bound grows with the graph.\<close>

definition pea_visit :: "field_order \<Rightarrow> use_lists \<Rightarrow> node_id \<Rightarrow> bool \<times> graph \<Rightarrow> (bool \<times> graph) option" where
  "pea_visit order uses nid s =
     (let (changed, g) = s; n = node g nid
      in if node_is_dead n then Some s
         else let (boxed, g) = (if n_kind n = NK_Box then process_box order uses nid g else (False, g))
           in if boxed then Some (True, g)
              else if is_allocation (n_kind n)
              then map_option (\<lambda>(c, g). (changed \<or> c, g)) (process_allocation order uses nid g)
              else Some (changed, g))"

partial_function (option) pea_round :: "field_order \<Rightarrow> use_lists \<Rightarrow> node_id \<Rightarrow> bool \<times> graph \<Rightarrow> (bool \<times> graph) option" where
  "pea_round order uses nid s =
     (if nid > g_size (snd s) then Some s
      else case pea_visit order uses nid s of None \<Rightarrow> None | Some s' \<Rightarrow> pea_round order uses (nid + 1) s')"

declare pea_round.simps [code]

fun pea_fixpoint :: "field_order \<Rightarrow> nat \<Rightarrow> bool \<times> graph \<Rightarrow> (bool \<times> graph) option" where
  "pea_fixpoint order 0 s = Some s"
| "pea_fixpoint order (Suc n) s =
     (if \<not> fst s then Some s
      else case pea_round order (build_uses (snd s)) 1 (False, snd s) of None \<Rightarrow> None
           | Some s' \<Rightarrow> pea_fixpoint order n s')"

definition pea_boxes :: "graph \<Rightarrow> node_id list" where
  "pea_boxes g = filter (\<lambda>nid. \<not> node_is_dead (node g nid) \<and> n_kind (node g nid) = NK_Box) (node_ids g)"

definition pea_allocations :: "graph \<Rightarrow> node_id list" where
  "pea_allocations g = filter (\<lambda>nid. \<not> node_is_dead (node g nid) \<and> n_kind (node g nid) \<noteq> NK_Box
     \<and> is_allocation (n_kind (node g nid))) (node_ids g)"

text \<open>The block structure is computed and handed on, but nothing depends on it.\<close>

definition pea_run :: "field_order \<Rightarrow> bool \<Rightarrow> graph \<Rightarrow> (graph \<times> unit result) option" where
  "pea_run order debug g =
     (let g = eliminate_box_unbox_roundtrips g; uses = build_uses g; boxes = pea_boxes g; allocations = pea_allocations g
      in if allocations = [] \<and> boxes = [] then Some (g, Inr ())
         else let (changed, g) = fold (\<lambda>box (changed, g). let (c, g) = process_box order uses box g in (changed \<or> c, g)) boxes (False, g);
                  uses = (if changed then build_uses g else uses)
           in case each (\<lambda>alloc (changed, g). map_option (\<lambda>(c, g). (changed \<or> c, g)) (process_allocation order uses alloc g))
                allocations (False, g) of None \<Rightarrow> None
              | Some s \<Rightarrow> map_option (\<lambda>(changed, g). (g, if changed then verify_if_enabled debug g else Inr ()))
                  (pea_fixpoint order 10 s))"

end
