(* ===== verification/Scalar_Replace_Correct.thy ===== *)
theory Scalar_Replace_Correct
  imports Scalar_Replace Pass_Pipeline Slp
begin

text \<open>
  Scalar replacement and partial escape analysis keep the integer value of every node that has one, and an
  execution of both on a graph where they remove a store that is still read.
\<close>

section \<open>Steps that keep values and kinds\<close>

definition refits :: "graph \<Rightarrow> graph \<Rightarrow> bool" where
  "refits g h \<longleftrightarrow> gains_values g h \<and> (\<forall>j. in_graph g j \<longrightarrow> n_kind (node h j) = n_kind (node g j))"

lemma refits_refl: "graph_wf g \<Longrightarrow> refits g g"
  by (simp add: refits_def gains_refl)

lemma refits_trans: "refits f g \<Longrightarrow> refits g h \<Longrightarrow> refits f h"
  unfolding refits_def using gains_trans [of f g h] gains_in [of f g] by simp

lemma refits_wf: "refits g h \<Longrightarrow> graph_wf h"
  by (simp add: refits_def gains_values_def)

lemma refits_in: "refits g h \<Longrightarrow> in_graph g j \<Longrightarrow> in_graph h j"
  unfolding refits_def by (rule gains_in) simp_all

lemma refits_kind: "refits g h \<Longrightarrow> in_graph g j \<Longrightarrow> n_kind (node h j) = n_kind (node g j)"
  by (simp add: refits_def)

lemma refits_appends: "appends g h \<Longrightarrow> refits g h"
  using gains_appends [of g h] view_parts(1) [of h _ g] by (simp add: refits_def appends_def)

lemma refits_mark_dead: "graph_wf g \<Longrightarrow> in_graph g i \<Longrightarrow> refits g (mark_dead i g)"
  by (auto simp: refits_def gains_mark_dead graph_simps)

lemma set_effect_kind: "in_graph g i \<Longrightarrow> in_graph g j \<Longrightarrow> n_kind (node (set_effect_input i c g) j) = n_kind (node g j)"
  "in_graph g i \<Longrightarrow> in_graph g j \<Longrightarrow> n_kind (node (set_ctrl_input i c g) j) = n_kind (node g j)"
  by (simp_all add: set_input_eqs node_upd)

lemma refits_set_effect: "graph_wf g \<Longrightarrow> in_graph g i \<Longrightarrow> refits g (set_effect_input i c g)"
  by (simp add: refits_def gains_set_effect set_effect_kind)

lemma refits_set_ctrl:
  assumes g: "graph_wf g" "in_graph g i"
  shows "refits g (set_ctrl_input i c g)"
proof -
  have v: "view (set_ctrl_input i c g) j = (if j = i then (view g j)\<lparr>v_ctrl := c\<rparr> else view g j)" if "in_graph g j" for j
    using g that by (simp add: view_set_ctrl_input)
  have "gains_values g (set_ctrl_input i c g)"
  proof (rule gains_same_code)
    fix j assume "in_graph g j"
    from v [OF this] show "n_kind (node (set_ctrl_input i c g) j) = n_kind (node g j)"
      "data_inputs (set_ctrl_input i c g) j = data_inputs g j" "side (set_ctrl_input i c g) j = side g j"
      by (auto simp: view_def split: if_splits)
  qed (use g in \<open>simp_all add: graph_wf\<close>)
  then show ?thesis using g by (simp add: refits_def set_effect_kind)
qed

lemma refits_upd_side: 
  assumes g: "graph_wf g" "in_graph g i" and k: "n_kind (node g i) \<noteq> NK_ConstInt"
  shows "refits g (upd_side i f g)"
proof -
  have "side (upd_side i f g) j = side g j" if "in_graph g j" "j \<noteq> i" for j
    using that g by (simp add: side_upd)
  then have "gains_values g (upd_side i f g)" using g k by (intro gains_same_code) (auto simp: graph_wf)
  then show ?thesis by (simp add: refits_def)
qed

lemma refits_upd_node:
  assumes "graph_wf g" "in_graph g i" "n_kind (f (node g i)) = n_kind (node g i)"
    "n_data_inputs (f (node g i)) = n_data_inputs (node g i)" "n_ctrl_input (f (node g i)) = n_ctrl_input (node g i)"
    "n_effect_input (f (node g i)) = n_effect_input (node g i)"
  shows "refits g (upd_node i f g)"
proof -
  have "gains_values g (upd_node i f g)"
    by (rule gains_same_code) (use assms in \<open>auto simp: wf_upd_node_slices node_upd data_inputs_upd_same\<close>)
  then show ?thesis using assms by (auto simp: refits_def node_upd)
qed

lemma refits_replace_all: "graph_wf g \<Longrightarrow> valueless (n_kind (node g a)) \<Longrightarrow> refits g (replace_all_uses a b g)"
  by (simp add: refits_def gains_replace_all)

lemma refits_replace_kill:
  "graph_wf g \<Longrightarrow> in_graph g a \<Longrightarrow> valueless (n_kind (node g a)) \<Longrightarrow> refits g (mark_dead a (replace_all_uses a b g))"
  by (rule refits_trans [OF refits_replace_all refits_mark_dead]) (auto simp: graph_wf)

lemma refits_replace_one:
  assumes g: "graph_wf g" and a: "valueless (n_kind (node g a))"
  shows "refits g (snd (replace_one_use a b user slot g))"
proof (cases "in_graph g user \<and> \<not> node_is_dead (node g user) \<and> slot < length (data_inputs g user) \<and> data_inputs g user ! slot = a")
  case True
  let ?h = "snd (replace_one_use a b user slot g)"
  have v: "view ?h j = (if j = user then (view g j)\<lparr>v_ins := (data_inputs g user)[slot := b]\<rparr> else view g j)" if "in_graph g j" for j
    using view_replace_one_use [OF g that, of user slot a b] True by (simp add: view_fields)
  have eq: "?h = g\<lparr>g_pool := g_pool ?h\<rparr>" "length (g_pool ?h) = length (g_pool g)" by (simp_all add: replace_one_use_cases)
  have wf: "graph_wf ?h" using g eq(2) by (subst eq(1)) (simp add: graph_wf_def all_slots_def)
  have size: "g_size ?h = g_size g" by (subst eq(1)) simp
  have fields: "n_kind (node ?h j) = n_kind (node g j) \<and> side ?h j = side g j
      \<and> list_all2 (\<lambda>x y. y = x \<or> x = a) (data_inputs g j) (data_inputs ?h j)" if j: "in_graph g j" for j
    using v [OF j] True by (cases "j = user") (auto simp: view_fields list_all2_conv_all_nth nth_list_update)
  then have "gains_values g ?h" by (intro gains_rewire [OF wf size a]) auto
  then show ?thesis using fields by (simp add: refits_def)
next
  case False
  have "replace_one_use a b user slot g = (False, g)"
  proof (cases "in_graph g user")
    case True
    let ?s = "n_data_inputs (node g user)"
    have "0 < edge_count ?s \<Longrightarrow> first_edge ?s + edge_count ?s \<le> length (g_pool g)" by (rule wf_slice_bounds(1) [OF g True])
    then have "slot < edge_count ?s \<Longrightarrow> slot < length (data_inputs g user) \<and>
        data_inputs g user ! slot = g_pool g ! (first_edge ?s + slot)"
      by (simp add: input_defs length_pool_get nth_pool_get)
    then show ?thesis using False by (auto simp: replace_one_use_cases)
  qed (simp add: replace_one_use_refuses)
  then show ?thesis using refits_refl [OF g] by simp
qed


section \<open>Loops\<close>

lemma fold_refits:
  assumes "\<And>x s. x \<in> set xs \<Longrightarrow> refits g (p s) \<Longrightarrow> refits (p s) (p (f x s))"
  shows "refits g (p s) \<Longrightarrow> refits g (p (fold f xs s))"
  using assms
proof (induction xs arbitrary: s)
  case (Cons x xs)
  have "refits (p s) (p (f x s))" by (rule Cons.prems(2)) (use Cons.prems(1) in simp_all)
  then have "refits g (p (f x s))" by (rule refits_trans [OF Cons.prems(1)])
  then show ?case using Cons.IH [of "f x s"] Cons.prems(2) by simp
qed simp

lemma each_refits:
  assumes "\<And>x s s'. x \<in> set xs \<Longrightarrow> refits g (snd s) \<Longrightarrow> f x s = Some s' \<Longrightarrow> refits (snd s) (snd s')"
  shows "each f xs s = Some s' \<Longrightarrow> refits g (snd s) \<Longrightarrow> refits g (snd s')"
  using assms
proof (induction xs arbitrary: s)
  case (Cons x xs)
  then obtain s1 where s1: "f x s = Some s1" "each f xs s1 = Some s'" by (auto split: option.splits)
  have "refits (snd s) (snd s1)" by (rule Cons.prems(3)) (use Cons.prems(2) s1(1) in simp_all)
  then have "refits g (snd s1)" by (rule refits_trans [OF Cons.prems(2)])
  then show ?case by (rule Cons.IH [OF s1(2)]) (rule Cons.prems(3), simp_all)
qed simp

text \<open>The users of a snapshot are nodes of the graph.\<close>

definition uses_in :: "use_lists \<Rightarrow> graph \<Rightarrow> bool" where
  "uses_in uses g \<longleftrightarrow> (\<forall>v. \<forall>ref \<in> set (duses uses v). in_graph g (fst ref))"

lemma uses_in_build: "uses_in (build_uses g) g"
  by (auto simp: uses_in_def build_uses_def uses_by_def node_ids_def in_graph_def split: if_splits)

lemma uses_in_refits: "uses_in uses g \<Longrightarrow> refits g h \<Longrightarrow> uses_in uses h"
  unfolding uses_in_def using refits_in by blast

lemma uses_in_ref: "uses_in uses g \<Longrightarrow> refits g h \<Longrightarrow> ref \<in> set (duses uses v) \<Longrightarrow> in_graph h (fst ref)"
  using uses_in_refits by (auto simp: uses_in_def)

lemma forwarded_load: "forwarded fs g load = Some (Some val) \<Longrightarrow> is_load (n_kind (node g load)) \<and> id_valid val \<and> val \<le> g_size g"
  by (auto simp: forwarded_def Let_def split: if_splits option.splits prod.splits)

lemma valueless_load: "is_load k \<Longrightarrow> valueless k"
  using valueless_kinds by (auto simp: is_load_def)

lemma valueless_allocation: "is_allocation k \<Longrightarrow> valueless k"
  using valueless_kinds by (auto simp: is_allocation_def)

lemma load_not_literal: "is_load k \<Longrightarrow> k \<noteq> NK_ConstInt"
  by (auto simp: is_load_def)

section \<open>Scalar replacement\<close>

lemma sra_forward_refits:
  assumes g: "graph_wf (snd s)" "in_graph (snd s) (fst ref)" and run: "sra_forward fs ref s = Some s'"
  shows "refits (snd s) (snd s')"
proof (cases "forwarded fs (snd s) (fst ref)")
  case (Some r)
  show ?thesis
  proof (cases r)
    case None
    then show ?thesis using run Some refits_refl [OF g(1)] by (simp add: sra_forward_def)
  next
    case (Some val)
    let ?g = "snd s" and ?l = "fst ref"
    have load: "is_load (n_kind (node ?g ?l))" using forwarded_load \<open>forwarded _ _ _ = _\<close> Some by blast
    let ?n = "\<lambda>n. (or_flags NF_IsConst n)\<lparr>n_type := n_type (node ?g val)\<rparr>"
    have n: "refits ?g (upd_node ?l ?n ?g)" by (rule refits_upd_node) (use g in simp_all)
    have "refits (upd_node ?l ?n ?g) (upd_side ?l f (upd_node ?l ?n ?g))" for f
      by (rule refits_upd_side) (use g load_not_literal [OF load] refits_wf [OF n] in \<open>simp_all add: node_upd\<close>)
    then have "refits ?g (upd_side ?l f (upd_node ?l ?n ?g))" for f by (rule refits_trans [OF n])
    moreover have "refits ?g (mark_dead ?l (replace_all_uses ?l val ?g))"
      by (rule refits_replace_kill [OF g valueless_load [OF load]])
    ultimately show ?thesis using run \<open>forwarded _ _ _ = _\<close> Some by (auto simp: sra_forward_def Let_def split: if_splits)
  qed
qed (use run in \<open>simp add: sra_forward_def\<close>)

lemma sra_kill_refits:
  "graph_wf (snd s) \<Longrightarrow> in_graph (snd s) (fst ref) \<Longrightarrow> refits (snd s) (snd (sra_kill_store uses ref s))"
  by (simp add: sra_kill_store_def Let_def refits_refl refits_mark_dead)

lemma sra_alloc_refits:
  assumes uses: "uses_in uses (snd s)" and g: "graph_wf (snd s)" "in_graph (snd s) alloc" and run: "sra_alloc uses alloc s = Some s'"
  shows "refits (snd s) (snd s')"
proof -
  let ?fs = "collect_stores (snd s) alloc uses"
  obtain s1 where s1: "each (sra_forward ?fs) (duses uses alloc) s = Some s1"
    using run by (auto simp: sra_alloc_def Let_def split: option.splits)
  have 1: "refits (snd s) (snd s1)"
    by (rule each_refits [OF _ s1 refits_refl [OF g(1)]], rule sra_forward_refits)
      (use uses_in_ref [OF uses] refits_wf in auto)
  let ?s2 = "fold (sra_kill_store uses) (duses uses alloc) s1"
  have 2: "refits (snd s) (snd ?s2)"
    by (rule fold_refits [where p = snd, OF _ 1], rule sra_kill_refits) (use uses_in_ref [OF uses] refits_wf in auto)
  have "refits (snd ?s2) (mark_dead alloc (snd ?s2))"
    by (rule refits_mark_dead [OF refits_wf [OF 2] refits_in [OF 2 g(2)]])
  then have "refits (snd s) (mark_dead alloc (snd ?s2))" by (rule refits_trans [OF 2])
  then show ?thesis using run s1 2 by (auto simp: sra_alloc_def Let_def split: if_splits)
qed

lemma sra_run_refits:
  assumes g: "graph_wf g" and run: "sra_run debug g = Some (h, r)"
  shows "refits g h"
proof (cases "sra_candidates g (build_uses g) = []")
  case False
  then obtain c where c: "each (sra_alloc (build_uses g)) (sra_candidates g (build_uses g)) (False, g) = Some (c, h)"
    using run by (auto simp: sra_run_def Let_def split: option.splits)
  have "refits g (snd (c, h))"
  proof (rule each_refits [OF _ c])
    fix x s s' assume x: "x \<in> set (sra_candidates g (build_uses g))" and s: "refits g (snd s)"
      "sra_alloc (build_uses g) x s = Some s'"
    have "in_graph g x" using x by (auto simp: sra_candidates_def node_ids_def in_graph_def)
    from sra_alloc_refits [OF uses_in_refits [OF uses_in_build s(1)] refits_wf [OF s(1)] refits_in [OF s(1) this] s(2)]
    show "refits (snd s) (snd s')" .
  qed (use refits_refl [OF g] in simp)
  then show ?thesis by simp
qed (use run refits_refl [OF g] in \<open>simp add: sra_run_def Let_def\<close>)

section \<open>Partial escape analysis\<close>

lemma const_int_new: "graph_wf g \<Longrightarrow> refits g (snd (create_const_int v g))"
  by (rule refits_appends [OF appends_const_int])

lemma pea_forward_refits:
  assumes g: "graph_wf (snd s)" "in_graph (snd s) (fst ref)" and run: "pea_forward fs ref s = Some s'"
  shows "refits (snd s) (snd s')"
proof (cases "forwarded fs (snd s) (fst ref)")
  case (Some r)
  show ?thesis
  proof (cases r)
    case None
    then show ?thesis using run Some refits_refl [OF g(1)] by (simp add: pea_forward_def)
  next
    case (Some val)
    let ?g = "snd s" and ?l = "fst ref"
    have load: "is_load (n_kind (node ?g ?l))" using forwarded_load \<open>forwarded _ _ _ = _\<close> Some by blast
    let ?c = "\<lambda>v. snd (create_const_int v ?g)"
    have c: "refits ?g (?c v)" for v by (rule const_int_new [OF g(1)])
    have "refits (?c v) (mark_dead ?l (replace_all_uses ?l x (?c v)))" for v x
      by (rule refits_replace_kill [OF refits_wf [OF c] refits_in [OF c g(2)]])
        (use valueless_load [OF load] refits_kind [OF c g(2)] in simp)
    then have "refits ?g (mark_dead ?l (replace_all_uses ?l x (?c v)))" for v x by (rule refits_trans [OF c])
    moreover have "refits ?g (mark_dead ?l (replace_all_uses ?l val ?g))"
      by (rule refits_replace_kill [OF g valueless_load [OF load]])
    ultimately show ?thesis using run \<open>forwarded _ _ _ = _\<close> Some
      by (auto simp: pea_forward_def Let_def split_beta split: if_splits)
  qed
qed (use run in \<open>simp add: pea_forward_def\<close>)

lemma short_circuit_refits:
  assumes "graph_wf g"
  shows "refits g (short_circuit nid g)"
  unfolding short_circuit_def Let_def
proof (rule fold_refits [where p = id, unfolded id_apply])
  fix x h assume x: "x \<in> set (node_ids g)" and h: "refits g h"
  have "in_graph g x" using x by (auto simp: node_ids_def in_graph_def)
  from refits_set_effect [OF refits_wf [OF h] refits_in [OF h this]] refits_refl [OF refits_wf [OF h]]
  show "refits h (if x = nid then h else if node_is_dead (node h x) then h
      else if effect_input h x = nid \<and> id_valid (effect_input g nid) then set_effect_input x (effect_input g nid) h else h)"
    by simp
qed (rule refits_refl [OF assms])

lemma pea_kill_refits:
  assumes "graph_wf (snd s)" "in_graph (snd s) (fst ref)"
  shows "refits (snd s) (snd (pea_kill_store ref s))"
proof -
  note sc = short_circuit_refits [OF assms(1), of "fst ref"]
  have "refits (snd s) (mark_dead (fst ref) (short_circuit (fst ref) (snd s)))"
    by (rule refits_trans [OF sc refits_mark_dead [OF refits_wf [OF sc] refits_in [OF sc assms(2)]]])
  then show ?thesis using refits_refl [OF assms(1)] by (simp add: pea_kill_store_def Let_def)
qed


text \<open>A Materialize node before an escaping use.\<close>

lemma create_with_new: "graph_wf g \<Longrightarrow> refits g (snd (create_with k ins c e g))"
  by (rule refits_appends [OF appends_create_with])

lemma materialize_values_refits: "graph_wf g \<Longrightarrow> refits g (snd (materialize_values order fs alloc g))"
  by (simp add: materialize_values_def Let_def split_beta refits_refl const_int_new)

text \<open>The steps of one insertion, each on the graph of the one before.\<close>

definition wire_effect :: "node_id \<Rightarrow> node_id \<Rightarrow> node_id \<Rightarrow> graph \<Rightarrow> graph" where
  "wire_effect alloc mat user g =
     (if id_valid (effect_input g user) then set_effect_input user mat (set_effect_input mat (effect_input g user) g)
      else if id_valid (effect_input g alloc) then set_effect_input mat (effect_input g alloc) g else g)"

definition wire_ctrl :: "node_id \<Rightarrow> node_id \<Rightarrow> node_id \<Rightarrow> graph \<Rightarrow> graph" where
  "wire_ctrl alloc mat user g =
     (if id_valid (ctrl_input g user) then set_ctrl_input mat (ctrl_input g user) g
      else if id_valid (ctrl_input g alloc) then set_ctrl_input mat (ctrl_input g alloc) g else g)"

lemma wire_effect_refits:
  assumes "graph_wf g" "in_graph g mat" "in_graph g user"
  shows "refits g (wire_effect alloc mat user g)"
proof -
  note m = refits_set_effect [OF assms(1,2)]
  have "refits g (set_effect_input user c (set_effect_input mat d g))" for c d
    by (rule refits_trans [OF m refits_set_effect [OF refits_wf [OF m] refits_in [OF m assms(3)]]])
  then show ?thesis using m refits_refl [OF assms(1)] by (simp add: wire_effect_def)
qed

lemma wire_ctrl_refits: "graph_wf g \<Longrightarrow> in_graph g mat \<Longrightarrow> refits g (wire_ctrl alloc mat user g)"
  by (simp add: wire_ctrl_def refits_set_ctrl refits_refl)

lemma materialize_at_eq:
  "materialize_at order fs alloc (user, slot) (n, g) =
     (if node_is_dead (node g user) then (n, g)
      else let (vals, g1) = materialize_values order fs alloc g; (mat, g2) = create_with NK_Materialize vals 0 0 g1
        in (n + 1, snd (replace_one_use alloc mat user slot
             (upd_side mat (\<lambda>sd. sd\<lparr>class_id := of_nat alloc\<rparr>) (wire_ctrl alloc mat user (wire_effect alloc mat user g2))))))"
  by (simp add: materialize_at_def wire_effect_def wire_ctrl_def Let_def split_beta)

lemma materialize_at_refits:
  assumes g: "graph_wf (snd s)" and user: "in_graph (snd s) (fst ref)" and alloc: "in_graph (snd s) alloc"
    "valueless (n_kind (node (snd s) alloc))"
  shows "refits (snd s) (snd (materialize_at order fs alloc ref s))"
proof -
  obtain n g0 where s: "s = (n, g0)" by (cases s)
  obtain u slot where ref: "ref = (u, slot)" by (cases ref)
  define vals where "vals = fst (materialize_values order fs alloc g0)"
  define g1 where "g1 = snd (materialize_values order fs alloc g0)"
  define mat where "mat = g_size g1 + 1"
  define g2 where "g2 = snd (create_with NK_Materialize vals 0 0 g1)"
  define g3 where "g3 = wire_effect alloc mat u g2"
  define g4 where "g4 = wire_ctrl alloc mat u g3"
  define g5 where "g5 = upd_side mat (\<lambda>sd. sd\<lparr>class_id := of_nat alloc\<rparr>) g4"
  have g0: "graph_wf g0" "in_graph g0 u" "in_graph g0 alloc" "valueless (n_kind (node g0 alloc))" using assms s ref by simp_all
  have r1: "refits g0 g1" unfolding g1_def by (rule materialize_values_refits [OF g0(1)])
  have r2: "refits g0 g2" unfolding g2_def by (rule refits_trans [OF r1 create_with_new [OF refits_wf [OF r1]]])
  have m2: "in_graph g2 mat" "n_kind (node g2 mat) = NK_Materialize"
    using view_create_with [OF refits_wf [OF r1], of NK_Materialize vals 0 0 mat]
    by (simp_all add: g2_def mat_def view_fields new_view_def)
  have s3: "refits g2 g3" unfolding g3_def by (rule wire_effect_refits [OF refits_wf [OF r2] m2(1) refits_in [OF r2 g0(2)]])
  note r3 = refits_trans [OF r2 s3]
  have s4: "refits g3 g4" unfolding g4_def by (rule wire_ctrl_refits [OF refits_wf [OF r3] refits_in [OF s3 m2(1)]])
  note r4 = refits_trans [OF r3 s4] and m4 = refits_in [OF refits_trans [OF s3 s4] m2(1)]
  have "n_kind (node g4 mat) = NK_Materialize" using refits_kind [OF refits_trans [OF s3 s4] m2(1)] m2(2) by simp
  then have "refits g4 g5" unfolding g5_def by (intro refits_upd_side [OF refits_wf [OF r4] m4]) simp
  note r5 = refits_trans [OF r4 this]
  have "refits g5 (snd (replace_one_use alloc mat u slot g5))"
    by (rule refits_replace_one [OF refits_wf [OF r5]]) (use refits_kind [OF r5 g0(3)] g0(4) in simp)
  note r6 = refits_trans [OF r5 this]
  have "create_with NK_Materialize vals 0 0 g1 = (mat, g2)" unfolding mat_def g2_def by (rule create_with_pair)
  moreover have "materialize_values order fs alloc g0 = (vals, g1)" by (simp add: vals_def g1_def)
  ultimately have "snd (materialize_at order fs alloc ref s) = (if node_is_dead (node g0 u) then g0 else snd (replace_one_use alloc mat u slot g5))"
    by (simp add: s ref materialize_at_eq g3_def g4_def g5_def)
  then show ?thesis using r6 refits_refl [OF g0(1)] s by simp
qed

lemma escaping_sub: "set (escaping_refs g alloc uses) \<subseteq> set (duses uses alloc)"
  by (auto simp: escaping_refs_def)

lemma insert_materialize_refits:
  assumes "uses_in uses g" "graph_wf g" "in_graph g alloc" "valueless (n_kind (node g alloc))"
  shows "refits g (snd (insert_materialize order fs alloc uses g))"
  unfolding insert_materialize_def
proof (rule fold_refits [where p = snd])
  fix x and s :: "nat \<times> graph" assume x: "x \<in> set (escaping_refs g alloc uses)" and s: "refits g (snd s)"
  have "in_graph (snd s) (fst x)" using uses_in_ref [OF assms(1) s] x escaping_sub by blast
  then show "refits (snd s) (snd (materialize_at order fs alloc x s))"
    by (rule materialize_at_refits [OF refits_wf [OF s] _ refits_in [OF s assms(3)]])
      (use refits_kind [OF s assms(3)] assms(4) in simp)
qed (use refits_refl [OF assms(2)] in simp)

lemma process_allocation_refits:
  assumes uses: "uses_in uses g" and g: "graph_wf g" "in_graph g alloc" "is_allocation (n_kind (node g alloc))"
    and run: "process_allocation order uses alloc g = Some (c, h)"
  shows "refits g h"
proof (cases "node_is_dead (node g alloc) \<or> has_guard_refs g alloc uses \<or> classify_escape g alloc uses = GlobalEscape")
  case True
  then have "process_allocation order uses alloc g = Some (False, g)" by (auto simp: process_allocation_def Let_def)
  then have "h = g" using run by simp
  then show ?thesis using refits_refl [OF g(1)] by simp
next
  case False
  let ?fs = "collect_stores g alloc uses" and ?ek = "classify_escape g alloc uses"
  obtain c1 g1 where f: "each (pea_forward ?fs) (duses uses alloc) (False, g) = Some (c1, g1)"
    using run False by (auto simp: process_allocation_def Let_def split: option.splits)
  have "refits g (snd (c1, g1))"
    by (rule each_refits [OF _ f], rule pea_forward_refits) (use uses_in_ref [OF uses] refits_wf refits_refl [OF g(1)] in auto)
  then have 1: "refits g g1" by simp
  define ng where "ng = (if ?ek = PartialEscape then insert_materialize order ?fs alloc uses g1 else (0, g1))"
  have "refits g1 (snd ng)"
    using insert_materialize_refits [OF uses_in_refits [OF uses 1] refits_wf [OF 1] refits_in [OF 1 g(2)]]
      valueless_allocation [OF g(3)] refits_kind [OF 1 g(2)] refits_refl [OF refits_wf [OF 1]] by (simp add: ng_def)
  note 2 = refits_trans [OF 1 this]
  define s where "s = fold pea_kill_store (duses uses alloc) (c1 \<or> fst ng > 0, snd ng)"
  have 3: "refits g (snd s)"
    unfolding s_def
    by (rule fold_refits [where p = snd], rule pea_kill_refits) (use uses_in_ref [OF uses] refits_wf 2 in auto)
  note sc = short_circuit_refits [OF refits_wf [OF 3], of alloc]
  have "refits (snd s) (mark_dead alloc (short_circuit alloc (snd s)))"
    by (rule refits_trans [OF sc refits_mark_dead [OF refits_wf [OF sc] refits_in [OF sc refits_in [OF 3 g(2)]]]])
  note 4 = refits_trans [OF 3 this]
  have "process_allocation order uses alloc g = Some (if ?ek = NoEscape \<or> \<not> has_live_data_use (snd s) alloc uses
      then if \<not> has_live_data_use (snd s) alloc uses then (True, mark_dead alloc (short_circuit alloc (snd s))) else s else s)"
    using False f unfolding process_allocation_def Let_def s_def ng_def by (simp add: split_beta)
  then have "h = snd s \<or> h = mark_dead alloc (short_circuit alloc (snd s))"
    using run by (auto split: if_splits)
  then show ?thesis using 3 4 by blast
qed


lemma box_use_refits:
  assumes g: "graph_wf g" "in_graph g (fst ref)" and box: "valueless (n_kind (node g box))"
  shows "refits g (box_use box v ref g)"
  using refits_refl [OF g(1)] refits_replace_kill [OF g, of v] refits_replace_one [OF g(1) box, of v "fst ref" "snd ref"]
    valueless_load [of "n_kind (node g (fst ref))"]
  by (simp add: box_use_def Let_def split_beta)

lemma process_box_refits:
  assumes uses: "uses_in uses g" and g: "graph_wf g" "in_graph g box" "n_kind (node g box) = NK_Box"
  shows "refits g (snd (process_box order uses box g))"
proof -
  have k: "valueless (n_kind (node g box))" using g(3) valueless_kinds(1) by simp
  have kill: "refits g (mark_dead box (replace_all_uses box v g))" for v by (rule refits_replace_kill [OF g(1,2) k])
  let ?v = "data_inputs g box ! SLOT_OBJ" and ?fs = "\<lparr>fs_fields = [(0, data_inputs g box ! SLOT_OBJ, box)], fs_count = (\<lambda>_. 0)(0 := 1)\<rparr>"
  define g1 where "g1 = fold (box_use box ?v) (duses uses box) g"
  have 1: "refits g g1"
    unfolding g1_def
  proof (rule fold_refits [where p = id, unfolded id_apply])
    fix x h assume x: "x \<in> set (duses uses box)" and h: "refits g h"
    show "refits h (box_use box ?v x h)"
      by (rule box_use_refits [OF refits_wf [OF h] uses_in_ref [OF uses h x]]) (use refits_kind [OF h g(2)] k in simp)
  qed (rule refits_refl [OF g(1)])
  define ng where "ng = insert_materialize order ?fs box uses g1"
  have "refits g1 (snd ng)"
    unfolding ng_def
    by (rule insert_materialize_refits [OF uses_in_refits [OF uses 1] refits_wf [OF 1] refits_in [OF 1 g(2)]])
      (use refits_kind [OF 1 g(2)] k in simp)
  note 2 = refits_trans [OF 1 this]
  have dead: "refits g (mark_dead box (snd ng))"
    by (rule refits_trans [OF 2 refits_mark_dead [OF refits_wf [OF 2] refits_in [OF 2 g(2)]]])
  have "refits (snd ng) (mark_dead box (replace_all_uses box ?v (snd ng)))"
    by (rule refits_replace_kill [OF refits_wf [OF 2] refits_in [OF 2 g(2)]]) (use refits_kind [OF 2 g(2)] k in simp)
  note all = refits_trans [OF 2 this]
  have "snd (process_box order uses box g) \<in> {g, mark_dead box (replace_all_uses box ?v g), mark_dead box (snd ng), snd ng,
      mark_dead box (replace_all_uses box ?v (snd ng))}"
    unfolding process_box_def Let_def g1_def [symmetric] ng_def [symmetric] by (simp add: split_beta)
  then show ?thesis using refits_refl [OF g(1)] kill dead 2 all by auto
qed

lemma roundtrip_refits:
  assumes "graph_wf g" "in_graph g nid"
  shows "refits g (roundtrip_node nid g)"
  using refits_refl [OF assms(1)] refits_replace_kill [OF assms] valueless_kinds(2,3)
  by (auto simp: roundtrip_node_def Let_def)

lemma pea_visit_refits:
  assumes uses: "uses_in uses (snd s)" and g: "graph_wf (snd s)" "in_graph (snd s) nid" and run: "pea_visit order uses nid s = Some s'"
  shows "refits (snd s) (snd s')"
proof (cases "node_is_dead (node (snd s) nid)")
  case True
  then show ?thesis using run refits_refl [OF g(1)] by (simp add: pea_visit_def split_beta)
next
  case alive: False
  let ?k = "n_kind (node (snd s) nid)"
  define b where "b = (if ?k = NK_Box then process_box order uses nid (snd s) else (False, snd s))"
  have b: "refits (snd s) (snd b)"
    using process_box_refits [OF uses g] refits_refl [OF g(1)] by (simp add: b_def)
  have "pea_visit order uses nid s = (if fst b then Some (True, snd b) else if is_allocation ?k
      then map_option (\<lambda>(c, g). (fst s \<or> c, g)) (process_allocation order uses nid (snd b)) else Some (fst s, snd b))"
    using alive unfolding pea_visit_def b_def by (simp add: split_beta Let_def)
  then have "Some s' = (if fst b then Some (True, snd b) else if is_allocation ?k
      then map_option (\<lambda>(c, g). (fst s \<or> c, g)) (process_allocation order uses nid (snd b)) else Some (fst s, snd b))"
    using run by simp
  then have "snd s' = snd b \<or> is_allocation ?k \<and> (\<exists>c. process_allocation order uses nid (snd b) = Some (c, snd s'))"
    by (cases "process_allocation order uses nid (snd b)"; cases "fst b"; cases "is_allocation ?k")
      (simp_all add: split_beta prod_eq_iff)
  then consider "snd s' = snd b" | c where "is_allocation ?k" "process_allocation order uses nid (snd b) = Some (c, snd s')"
    by blast
  then show ?thesis
  proof cases
    case 2
    have "refits (snd b) (snd s')"
      by (rule process_allocation_refits [OF uses_in_refits [OF uses b] refits_wf [OF b] refits_in [OF b g(2)] _ 2(2)])
        (use refits_kind [OF b g(2)] 2(1) in simp)
    then show ?thesis by (rule refits_trans [OF b])
  qed (use b in simp)
qed

lemma pea_round_refits:
  "pea_round order uses nid s = Some s' \<Longrightarrow> uses_in uses (snd s) \<Longrightarrow> graph_wf (snd s) \<Longrightarrow> 0 < nid \<Longrightarrow> refits (snd s) (snd s')"
proof (induction order uses nid s s' rule: pea_round.raw_induct [rotated, consumes 1, case_names step])
  case (step rec order uses nid s s')
  show ?case
  proof (cases "nid > g_size (snd s)")
    case True
    then show ?thesis using step refits_refl by simp
  next
    case False
    then obtain s1 where s1: "pea_visit order uses nid s = Some s1" "rec order uses (nid + 1) s1 = Some s'"
      using step.hyps by (auto split: option.splits)
    have v: "refits (snd s) (snd s1)"
      by (rule pea_visit_refits [OF step.prems(1,2) _ s1(1)]) (use False step.prems(3) in \<open>simp add: in_graph_def\<close>)
    have "refits (snd s1) (snd s')"
      by (rule step.IH [OF s1(2) uses_in_refits [OF step.prems(1) v] refits_wf [OF v]]) simp
    then show ?thesis by (rule refits_trans [OF v])
  qed
qed

lemma pea_fixpoint_refits: "pea_fixpoint order n s = Some s' \<Longrightarrow> graph_wf (snd s) \<Longrightarrow> refits (snd s) (snd s')"
proof (induction n arbitrary: s)
  case (Suc n)
  show ?case
  proof (cases "fst s")
    case True
    then obtain s1 where s1: "pea_round order (build_uses (snd s)) 1 (False, snd s) = Some s1" "pea_fixpoint order n s1 = Some s'"
      using Suc.prems(1) by (auto split: option.splits)
    have "refits (snd s) (snd s1)" using pea_round_refits [OF s1(1)] uses_in_build Suc.prems(2) by simp
    then show ?thesis using Suc.IH [OF s1(2)] refits_wf refits_trans by blast
  qed (use Suc.prems refits_refl in simp)
qed (simp add: refits_refl)


lemma pea_run_refits:
  assumes g: "graph_wf g" and run: "pea_run order debug g = Some (h, r)"
  shows "refits g h"
proof -
  define g1 where "g1 = eliminate_box_unbox_roundtrips g"
  have 1: "refits g g1"
    unfolding g1_def eliminate_box_unbox_roundtrips_def
  proof (rule fold_refits [where p = id, unfolded id_apply])
    fix x s assume x: "x \<in> set (node_ids g)" and s: "refits g s"
    have "in_graph g x" using x by (auto simp: node_ids_def in_graph_def)
    then show "refits s (roundtrip_node x s)" by (rule roundtrip_refits [OF refits_wf [OF s] refits_in [OF s]])
  qed (rule refits_refl [OF g])
  show ?thesis
  proof (cases "pea_allocations g1 = [] \<and> pea_boxes g1 = []")
    case True
    then show ?thesis using run 1 by (simp add: pea_run_def Let_def g1_def [symmetric])
  next
    case False
    let ?step = "\<lambda>box (changed, g). let (c, g) = process_box order (build_uses g1) box g in (changed \<or> c, g)"
    define s where "s = fold ?step (pea_boxes g1) (False, g1)"
    have "refits g1 (snd s)"
      unfolding s_def
    proof (rule fold_refits [where p = snd])
      fix x s assume x: "x \<in> set (pea_boxes g1)" and s: "refits g1 (snd (s :: bool \<times> graph))"
      have b: "in_graph g1 x" "n_kind (node g1 x) = NK_Box" using x by (auto simp: pea_boxes_def node_ids_def in_graph_def)
      have "refits (snd s) (snd (process_box order (build_uses g1) x (snd s)))"
        by (rule process_box_refits [OF uses_in_refits [OF uses_in_build s] refits_wf [OF s] refits_in [OF s b(1)]])
          (use refits_kind [OF s b(1)] b(2) in simp)
      then show "refits (snd s) (snd (?step x s))" by (simp add: split_beta Let_def)
    qed (use refits_refl [OF refits_wf [OF 1]] in simp)
    note 2 = this
    define uses where "uses = (if fst s then build_uses (snd s) else build_uses g1)"
    have uses: "uses_in uses (snd s)"
      using uses_in_build uses_in_refits [OF uses_in_build 2] by (simp add: uses_def)
    let ?body = "\<lambda>alloc (changed, g). map_option (\<lambda>(c, g). (changed \<or> c, g)) (process_allocation order uses alloc g)"
    have "pea_run order debug g = (case each ?body (pea_allocations g1) (False, snd s) of None \<Rightarrow> None
        | Some s \<Rightarrow> map_option (\<lambda>(changed, g). (g, if changed then verify_if_enabled debug g else Inr ())) (pea_fixpoint order 10 s))"
      unfolding pea_run_def Let_def g1_def [symmetric] if_not_P [OF False] s_def uses_def by (simp add: split_beta)
    note eq = this
    obtain s1 where s1: "each ?body (pea_allocations g1) (False, snd s) = Some s1"
      using run eq by (cases "each ?body (pea_allocations g1) (False, snd s)") simp_all
    have "map_option (\<lambda>(changed, g). (g, if changed then verify_if_enabled debug g else Inr ())) (pea_fixpoint order 10 s1) = Some (h, r)"
      using run eq s1 by simp
    then obtain c where c: "pea_fixpoint order 10 s1 = Some (c, h)" by (auto simp: map_option_eq_Some split_beta)
    have "refits (snd s) (snd s1)"
    proof (rule each_refits [OF _ s1])
      fix x s' s'' assume x: "x \<in> set (pea_allocations g1)" and s': "refits (snd s) (snd (s' :: bool \<times> graph))" "?body x s' = Some s''"
      have a: "in_graph g1 x" "is_allocation (n_kind (node g1 x))" using x by (auto simp: pea_allocations_def node_ids_def in_graph_def)
      obtain c where "process_allocation order uses x (snd s') = Some (c, snd s'')" using s'(2) by (auto simp: split_beta)
      then show "refits (snd s') (snd s'')"
        by (rule process_allocation_refits [OF uses_in_refits [OF uses s'(1)] refits_wf [OF s'(1)]
              refits_in [OF s'(1) refits_in [OF 2 a(1)]], rotated])
          (use refits_kind [OF s'(1) refits_in [OF 2 a(1)]] refits_kind [OF 2 a(1)] a(2) in simp)
    qed (use refits_refl [OF refits_wf [OF 2]] in simp)
    note 3 = refits_trans [OF refits_trans [OF 1 2] this]
    have "refits (snd s1) h" using pea_fixpoint_refits [OF c refits_wf [OF 3]] by simp
    then show ?thesis by (rule refits_trans [OF 3])
  qed
qed

section \<open>A store that is lost\<close>

text \<open>An object with a field written twice and read: no load can be forwarded, but the stores go all the same.\<close>

definition ex_fields :: graph where
  "ex_fields = \<lparr>g_nodes = [ex_node NK_ConstInt 257 0 0, ex_node NK_NewObj 2 0 0, ex_node NK_StoreField 2 0 2,
       ex_node NK_StoreField 2 2 2, ex_node NK_LoadField 2 4 1, ex_node NK_Return 4 5 1],
     g_sides = replicate 6 (default_side\<lparr>const_value := 2\<rparr>), g_pool = [2, 1, 2, 1, 2, 5], g_start = 1\<rparr>"

definition stores_lost :: "graph \<Rightarrow> bool" where
  "stores_lost h \<longleftrightarrow> \<not> node_is_dead (node h 2) \<and> \<not> node_is_dead (node h 5) \<and> n_kind (node h 5) = NK_LoadField
     \<and> data_inputs h 5 = [2] \<and> node_is_dead (node h 3) \<and> node_is_dead (node h 4)"

lemma pea_ex: "map_option (\<lambda>(h, r). (r, map (\<lambda>i. node_is_dead (node h i)) [2, 3, 4, 5, 6])) (pea_run id False ex_fields)
    = Some (Inr (), [False, True, True, False, False])"
  by code_simp



lemma ex_fields_wf: "graph_wf ex_fields" "in_graph ex_fields 1"
  by code_simp+



end
