(* ===== verification/Spec2Isabelle.thy ===== *)
theory Spec2Isabelle
  imports Const_Fold_Correct Gvn_Cse Dce Local_Passes_Correct Sccp Build_Regions_Order Lsra_Examples Jvm_Safe
    Epoch_Safe Tiers Jvm_Lower_Examples Class_File_Correct Cil_Tiers Pass_Pipeline Legacy_Interp_Correct Slp Scalar_Replace_Correct
begin

text \<open>
  Verification of the .JADE compiler (C++ sources under \<^verbatim>\<open>src/src/jade\<close>).
\<close>

end
